(* ===== verification/Prelude.thy ===== *)
theory Prelude
  imports Main "HOL-Library.Word"
begin

unbundle bit_operations_syntax

text \<open>
  Shared layer of the development: the way a C function that may stop the process is
  written (a state transformer into a sum type), the loops the components share, and the
  generic lemmas on lists and words that the component theories use.

  A failed assertion of the source prints a message and leaves the process, so it is the
  value \<open>Inl (Assert msg)\<close>. An access the C standard leaves undefined (a stale
  pointer, a read out of bounds, an indeterminate value) is \<open>Inl (UB msg)\<close>. A jump to the
  handler the caller has set up is \<open>Inl (Raised code msg)\<close>. A fuelled
  recursion that runs out is \<open>Inl NoFuel\<close>, which is never a behaviour of the program:
  the lemmas about such functions show how much fuel is enough.
\<close>

section \<open>Faults and programs\<close>

datatype fault =
    Assert string
  | UB string
  | Raised nat string
  | NoFuel

type_synonym 'a result = "fault + 'a"

type_synonym ('s, 'a) prog = "'s \<Rightarrow> fault + ('a \<times> 's)"

named_theorems prog "unfolding rules of the program combinators"

definition ret :: "'a \<Rightarrow> ('s, 'a) prog" where
  "ret x s = Inr (x, s)"

definition bnd :: "('s, 'a) prog \<Rightarrow> ('a \<Rightarrow> ('s, 'b) prog) \<Rightarrow> ('s, 'b) prog" where
  "bnd m f s = (case m s of Inl e \<Rightarrow> Inl e | Inr (x, s') \<Rightarrow> f x s')"

definition fail :: "fault \<Rightarrow> ('s, 'a) prog" where
  "fail e s = Inl e"

text \<open>\<open>scm_assert (p, msg)\<close> and \<open>sly_assert (p, msg)\<close>.\<close>

definition check :: "bool \<Rightarrow> string \<Rightarrow> ('s, unit) prog" where
  "check p msg s = (if p then Inr ((), s) else Inl (Assert msg))"

definition check_ub :: "bool \<Rightarrow> string \<Rightarrow> ('s, unit) prog" where
  "check_ub p msg s = (if p then Inr ((), s) else Inl (UB msg))"

text \<open>Reading the state, changing it, and calling a function that has no state.\<close>

definition gets :: "('s \<Rightarrow> 'a) \<Rightarrow> ('s, 'a) prog" where
  "gets f s = Inr (f s, s)"

definition modify :: "('s \<Rightarrow> 's) \<Rightarrow> ('s, unit) prog" where
  "modify f s = Inr ((), f s)"

definition lift :: "'a result \<Rightarrow> ('s, 'a) prog" where
  "lift r s = (case r of Inl e \<Rightarrow> Inl e | Inr x \<Rightarrow> Inr (x, s))"

text \<open>The same sequencing without a state, for the pure functions of the source.\<close>

definition rbind :: "'a result \<Rightarrow> ('a \<Rightarrow> 'b result) \<Rightarrow> 'b result" where
  "rbind r f = (case r of Inl e \<Rightarrow> Inl e | Inr x \<Rightarrow> f x)"

definition rcheck :: "bool \<Rightarrow> string \<Rightarrow> unit result" where
  "rcheck p msg = (if p then Inr () else Inl (Assert msg))"

lemma ret_app [simp, prog]: "ret x s = Inr (x, s)"
  by (simp add: ret_def)

lemma bnd_Inr [simp]: "m s = Inr (x, s') \<Longrightarrow> bnd m f s = f x s'"
  by (simp add: bnd_def)

lemma bnd_False [simp]: "m s = Inr (False, s') \<Longrightarrow> bnd m f s = f False s'"
  by (rule bnd_Inr)

lemma bnd_Inl [simp]: "m s = Inl e \<Longrightarrow> bnd m f s = Inl e"
  by (simp add: bnd_def)

lemma fail_app [simp, prog]: "fail e s = Inl e"
  by (simp add: fail_def)

lemma check_True [simp]: "p \<Longrightarrow> check p msg s = Inr ((), s)"
  by (simp add: check_def)

lemma check_False [simp]: "\<not> p \<Longrightarrow> check p msg s = Inl (Assert msg)"
  by (simp add: check_def)

lemma check_ub_True [simp]: "p \<Longrightarrow> check_ub p msg s = Inr ((), s)"
  by (simp add: check_ub_def)

lemma check_ub_False [simp]: "\<not> p \<Longrightarrow> check_ub p msg s = Inl (UB msg)"
  by (simp add: check_ub_def)

lemma gets_app [simp, prog]: "gets f s = Inr (f s, s)"
  by (simp add: gets_def)

lemma modify_app [simp, prog]: "modify f s = Inr ((), f s)"
  by (simp add: modify_def)

lemma lift_Inr [simp]: "lift (Inr x) s = Inr (x, s)"
  by (simp add: lift_def)

lemma lift_Inl [simp]: "lift (Inl e) s = Inl e"
  by (simp add: lift_def)

lemma rbind_Inr [simp]: "rbind (Inr x) f = f x"
  by (simp add: rbind_def)

lemma rbind_Inl [simp]: "rbind (Inl e) f = Inl e"
  by (simp add: rbind_def)

lemma rcheck_True [simp]: "p \<Longrightarrow> rcheck p msg = Inr ()"
  by (simp add: rcheck_def)

lemma rcheck_False [simp]: "\<not> p \<Longrightarrow> rcheck p msg = Inl (Assert msg)"
  by (simp add: rcheck_def)

text \<open>Inversion: what a sequence that returned has done.\<close>

lemma bnd_eq_Inr:
  "bnd m f s = Inr r \<longleftrightarrow> (\<exists>x s'. m s = Inr (x, s') \<and> f x s' = Inr r)"
  by (auto simp: bnd_def split: sum.splits)

lemma bnd_eq_Inl:
  "bnd m f s = Inl e \<longleftrightarrow>
     m s = Inl e \<or> (\<exists>x s'. m s = Inr (x, s') \<and> f x s' = Inl e)"
  by (auto simp: bnd_def split: sum.splits)

lemma check_eq_Inr: "check p msg s = Inr (u, s') \<longleftrightarrow> p \<and> s' = s"
  by (auto simp: check_def)

lemma check_ub_eq_Inr: "check_ub p msg s = Inr (u, s') \<longleftrightarrow> p \<and> s' = s"
  by (auto simp: check_ub_def)

lemma lift_eq_Inr: "lift r s = Inr (x, s') \<longleftrightarrow> r = Inr x \<and> s' = s"
  by (auto simp: lift_def split: sum.splits)

lemma rbind_eq_Inr: "rbind r f = Inr y \<longleftrightarrow> (\<exists>x. r = Inr x \<and> f x = Inr y)"
  by (auto simp: rbind_def split: sum.splits)

lemma rcheck_eq_Inr: "rcheck p msg = Inr u \<longleftrightarrow> p"
  by (auto simp: rcheck_def)

lemmas prog_inv =
  bnd_eq_Inr check_eq_Inr check_ub_eq_Inr lift_eq_Inr rbind_eq_Inr rcheck_eq_Inr

lemma bnd_assoc: "bnd (bnd m f) g = bnd m (\<lambda>x. bnd (f x) g)"
  by (rule ext) (simp add: bnd_def split: sum.splits prod.splits)

section \<open>Folding a fallible function\<close>

text \<open>\<open>acc = f (acc, x)\<close> for each element in turn, stopping at the first fault.\<close>

fun rfold :: "('b \<Rightarrow> 'a \<Rightarrow> 'b result) \<Rightarrow> 'b \<Rightarrow> 'a list \<Rightarrow> 'b result" where
  "rfold f acc [] = Inr acc"
| "rfold f acc (x # xs) = rbind (f acc x) (\<lambda>acc'. rfold f acc' xs)"

lemma rfold_append:
  "rfold f acc (xs @ ys) = rbind (rfold f acc xs) (\<lambda>acc'. rfold f acc' ys)"
  by (induction xs arbitrary: acc) (auto simp: rbind_def split: sum.splits)

text \<open>A fold whose steps all succeed is the plain fold.\<close>

lemma rfold_ok:
  assumes "\<And>acc x. x \<in> set xs \<Longrightarrow> f acc x = Inr (g acc x)"
  shows "rfold f acc xs = Inr (foldl g acc xs)"
  using assms by (induction xs arbitrary: acc) auto

section \<open>Running a program over a list\<close>

fun mmap :: "('a \<Rightarrow> ('s, 'b) prog) \<Rightarrow> 'a list \<Rightarrow> ('s, 'b list) prog" where
  "mmap f [] = ret []"
| "mmap f (x # xs) = bnd (f x) (\<lambda>y. bnd (mmap f xs) (\<lambda>ys. ret (y # ys)))"

lemma mmap_Cons_Inr:
  "mmap f (x # xs) s = Inr (zs, t) \<longleftrightarrow>
     (\<exists>y u ys. f x s = Inr (y, u) \<and> mmap f xs u = Inr (ys, t) \<and> zs = y # ys)"
  by (auto simp: bnd_eq_Inr)

lemma mmap_length: "mmap f xs s = Inr (ys, t) \<Longrightarrow> length ys = length xs"
  by (induction xs arbitrary: s ys) (auto simp: bnd_eq_Inr)

section \<open>Lists and words\<close>

lemma list_snoc_cases: "xs = [] \<or> (\<exists>ys y. xs = ys @ [y])"
  by (cases xs rule: rev_cases) auto

lemma length_take_le: "n \<le> length xs \<Longrightarrow> length (take n xs) = n"
  by simp

lemma unat_of_nat_lt [simp]:
  "n < 2 ^ LENGTH('a) \<Longrightarrow> unat (of_nat n :: 'a::len word) = n"
  by (simp add: unat_of_nat take_bit_nat_eq_self)

text \<open>Words with no bits in common, seen through shifts: a tag above a payload.\<close>

lemma unat_tagged:
  fixes t p :: "64 word"
  assumes "unat p < 2 ^ 48" and "unat t < 2 ^ 16"
  shows "unat (push_bit 48 t OR p) = unat t * 2 ^ 48 + unat p"
proof -
  have "\<not> bit p n" if "48 \<le> n" for n
  proof
    assume "bit p n"
    then have "bit (unat p) n"
      by (simp add: bit_unsigned_iff)
    then have "unat p div 2 ^ n \<noteq> 0"
      by (metis bit_iff_odd even_zero)
    moreover have "unat p < 2 ^ n"
      using assms(1) that by (meson less_le_trans one_le_numeral power_increasing)
    ultimately show False
      by simp
  qed
  then have disj: "push_bit 48 t AND p = 0"
    by (intro bit_word_eqI) (auto simp: bit_simps)
  have "push_bit 48 t OR p = push_bit 48 t + p"
    using disj by (simp add: disjunctive_add_eq_or)
  moreover have "unat (push_bit 48 t) = unat t * 2 ^ 48"
    using assms(2) by (simp add: push_bit_eq_mult unat_word_ariths)
  moreover have "unat t * 2 ^ 48 + unat p < 2 ^ LENGTH(64)"
    using assms by simp
  ultimately show ?thesis
    by (simp add: unat_word_ariths)
qed

end
