(* ===== verification/Scm_Values.thy ===== *)
theory Scm_Values
  imports Prelude "HOL-Library.Signed_Division"
begin

text \<open>
  NaN-boxed values of the compiled program's runtime (scheme/scm_types.h and the value
  constructors of scheme/scm_runtime.c): the type tags, the predicates of the header's
  macros, and the round trips between integers, characters, function addresses, heap
  offsets and their boxed form. A value is the 64-bit pattern itself.
\<close>

section \<open>Types and tags\<close>

type_synonym u8 = "8 word"
type_synonym u32 = "32 word"
type_synonym u64 = "64 word"
type_synonym scm_value = "64 word"

datatype type_tag =
    tt_inf | tt_void | tt_bool | tt_char | tt_int | tt_bigint | tt_pair | tt_symbol
  | tt_nan | tt_bytevector | tt_string | tt_vector | tt_record | tt_box | tt_closure
  | tt_function | TT_COUNT | tt_float

fun tag_code :: "type_tag \<Rightarrow> nat" where
  "tag_code tt_inf = 0"
| "tag_code tt_void = 1"
| "tag_code tt_bool = 2"
| "tag_code tt_char = 3"
| "tag_code tt_int = 4"
| "tag_code tt_bigint = 5"
| "tag_code tt_pair = 6"
| "tag_code tt_symbol = 7"
| "tag_code tt_nan = 8"
| "tag_code tt_bytevector = 9"
| "tag_code tt_string = 10"
| "tag_code tt_vector = 11"
| "tag_code tt_record = 12"
| "tag_code tt_box = 13"
| "tag_code tt_closure = 14"
| "tag_code tt_function = 15"
| "tag_code TT_COUNT = 16"
| "tag_code tt_float = 17"

lemma tag_code_inj [simp]: "tag_code s = tag_code t \<longleftrightarrow> s = t"
  by (cases s; cases t) simp_all

text \<open>The enumeration's order is that of its numbers.\<close>

instantiation type_tag :: linorder
begin

definition less_eq_type_tag :: "type_tag \<Rightarrow> type_tag \<Rightarrow> bool" where
  "less_eq_type_tag s t \<longleftrightarrow> tag_code s \<le> tag_code t"

definition less_type_tag :: "type_tag \<Rightarrow> type_tag \<Rightarrow> bool" where
  "less_type_tag s t \<longleftrightarrow> tag_code s < tag_code t"

instance
  by standard (auto simp: less_eq_type_tag_def less_type_tag_def)

end

text \<open>Tags that fit the four bits below the NaN pattern (the header's static assertion).\<close>

definition boxable :: "type_tag \<Rightarrow> bool" where
  "boxable t \<longleftrightarrow> t < TT_COUNT"

definition NAN_BITS :: u64 where
  "NAN_BITS = 0x7ff0"

definition NB :: "type_tag \<Rightarrow> u64" where
  "NB t = NAN_BITS OR of_nat (tag_code t)"

definition TAG_VALUE :: "u64 \<Rightarrow> u64 \<Rightarrow> scm_value" where
  "TAG_VALUE ty val_bits = push_bit 48 ty OR val_bits"

definition SCM_NULL :: scm_value where "SCM_NULL = push_bit 48 (NB tt_pair)"
definition SCM_FALSE :: scm_value where "SCM_FALSE = push_bit 48 (NB tt_bool)"
definition SCM_TRUE :: scm_value where "SCM_TRUE = SCM_FALSE + 1"
definition SCM_VOID :: scm_value where "SCM_VOID = push_bit 48 (NB tt_void)"
definition SCM_INFINITY :: scm_value where "SCM_INFINITY = push_bit 48 (NB tt_inf)"
definition SCM_NAN :: scm_value where "SCM_NAN = push_bit 48 (NB tt_nan)"

lemmas scm_consts = SCM_NULL_def SCM_FALSE_def SCM_TRUE_def SCM_VOID_def SCM_INFINITY_def
  SCM_NAN_def NB_def NAN_BITS_def

section \<open>Predicates and selectors\<close>

definition TYPEOF :: "scm_value \<Rightarrow> u64" where
  "TYPEOF v = drop_bit 48 v"

definition GET_FN_PTR :: "scm_value \<Rightarrow> u64" where
  "GET_FN_PTR v = v AND (push_bit 48 1 - 1)"

definition GET_INTEGRAL :: "scm_value \<Rightarrow> u32" where
  "GET_INTEGRAL v = ucast (v AND (push_bit 32 1 - 1))"

text \<open>The offset into the heap buffer that \<open>GET_WORKING_PTR\<close> and \<open>GET_FREE_PTR\<close> add.\<close>

definition GET_OFF :: "scm_value \<Rightarrow> nat" where
  "GET_OFF v = unat (GET_INTEGRAL v)"

definition NULL_P :: "scm_value \<Rightarrow> bool" where "NULL_P v \<longleftrightarrow> v = SCM_NULL"
definition VOID_P :: "scm_value \<Rightarrow> bool" where "VOID_P v \<longleftrightarrow> v = SCM_VOID"
definition BOOLEAN_P :: "scm_value \<Rightarrow> bool" where "BOOLEAN_P v \<longleftrightarrow> TYPEOF v = NB tt_bool"
definition INTEGER_P :: "scm_value \<Rightarrow> bool" where "INTEGER_P v \<longleftrightarrow> TYPEOF v = NB tt_int"
definition FLOAT_P :: "scm_value \<Rightarrow> bool" where
  "FLOAT_P v \<longleftrightarrow> (drop_bit 52 v AND 0x7ff) XOR 0x7ff \<noteq> 0"
definition NUMBER_P :: "scm_value \<Rightarrow> bool" where "NUMBER_P v \<longleftrightarrow> INTEGER_P v \<or> FLOAT_P v"
definition CHAR_P :: "scm_value \<Rightarrow> bool" where "CHAR_P v \<longleftrightarrow> TYPEOF v = NB tt_char"
definition PAIR_P :: "scm_value \<Rightarrow> bool" where
  "PAIR_P v \<longleftrightarrow> TYPEOF v = NB tt_pair \<and> \<not> NULL_P v"
definition SYMBOL_P :: "scm_value \<Rightarrow> bool" where "SYMBOL_P v \<longleftrightarrow> TYPEOF v = NB tt_symbol"
definition BYTEVECTOR_P :: "scm_value \<Rightarrow> bool" where
  "BYTEVECTOR_P v \<longleftrightarrow> TYPEOF v = NB tt_bytevector"
definition STRING_P :: "scm_value \<Rightarrow> bool" where "STRING_P v \<longleftrightarrow> TYPEOF v = NB tt_string"
definition VECTOR_P :: "scm_value \<Rightarrow> bool" where "VECTOR_P v \<longleftrightarrow> TYPEOF v = NB tt_vector"
definition RECORD_P :: "scm_value \<Rightarrow> bool" where "RECORD_P v \<longleftrightarrow> TYPEOF v = NB tt_record"
definition BOX_P :: "scm_value \<Rightarrow> bool" where "BOX_P v \<longleftrightarrow> TYPEOF v = NB tt_box"
definition CLOSURE_P :: "scm_value \<Rightarrow> bool" where "CLOSURE_P v \<longleftrightarrow> TYPEOF v = NB tt_closure"
definition FUNCTION_P :: "scm_value \<Rightarrow> bool" where
  "FUNCTION_P v \<longleftrightarrow> TYPEOF v = NB tt_function"

text \<open>
  \<open>PROCEDURE_P\<close> has \<open>CONTINUATION_P\<close> as its third disjunct; that one begins with
  \<open>CLOSURE_P\<close>, the first, so it is never evaluated with effect.
\<close>

definition PROCEDURE_P :: "scm_value \<Rightarrow> bool" where
  "PROCEDURE_P v \<longleftrightarrow> CLOSURE_P v \<or> FUNCTION_P v"

definition ITOBOOL :: "bool \<Rightarrow> scm_value" where
  "ITOBOOL i = (if i then SCM_TRUE else SCM_FALSE)"

definition BOOLTOI :: "scm_value \<Rightarrow> bool" where
  "BOOLTOI b \<longleftrightarrow> b \<noteq> SCM_FALSE"

lemmas scm_preds = NULL_P_def VOID_P_def BOOLEAN_P_def INTEGER_P_def CHAR_P_def PAIR_P_def
  SYMBOL_P_def BYTEVECTOR_P_def STRING_P_def VECTOR_P_def RECORD_P_def BOX_P_def CLOSURE_P_def
  FUNCTION_P_def

section \<open>Constructors\<close>

definition INT32_MAX :: int where "INT32_MAX = 2147483647"
definition INT32_MIN :: int where "INT32_MIN = -2147483648"

definition is_i32 :: "int \<Rightarrow> bool" where
  "is_i32 x \<longleftrightarrow> INT32_MIN \<le> x \<and> x \<le> INT32_MAX"

text \<open>The argument of these two is an \<open>i64\<close>, here its value as an \<open>int\<close>.\<close>

definition make_int :: "int \<Rightarrow> scm_value result" where
  "make_int x =
     rbind (rcheck (x \<le> INT32_MAX) ''bigint unimplemented'') (\<lambda>_.
     rbind (rcheck (x \<ge> INT32_MIN) ''bigint unimplemented'') (\<lambda>_.
     Inr (push_bit 48 (NB tt_int) OR (word_of_int x AND (push_bit 32 1 - 1)))))"

definition make_char :: "int \<Rightarrow> scm_value result" where
  "make_char x =
     rbind (rcheck (x \<le> INT32_MAX) ''bigint unimplemented'') (\<lambda>_.
     rbind (rcheck (x \<ge> INT32_MIN) ''bigint unimplemented'') (\<lambda>_.
     Inr (push_bit 48 (NB tt_char) OR (word_of_int x AND (push_bit 32 1 - 1)))))"

text \<open>A double is stored as its own bit pattern.\<close>

definition make_float :: "u64 \<Rightarrow> scm_value" where
  "make_float x = x"

definition get_float :: "scm_value \<Rightarrow> u64" where
  "get_float x = x"

definition make_function :: "u64 \<Rightarrow> scm_value" where
  "make_function fn = push_bit 48 (NB tt_function) OR fn"

definition byte_p :: "scm_value \<Rightarrow> bool" where
  "byte_p v \<longleftrightarrow> INTEGER_P v \<and> unat (GET_INTEGRAL v) \<le> 255"

definition char_to_integer :: "scm_value \<Rightarrow> scm_value result" where
  "char_to_integer ch =
     rbind (rcheck (CHAR_P ch) ''type error expected <character>'') (\<lambda>_.
     make_int (sint (GET_INTEGRAL ch)))"

definition integer_to_char :: "scm_value \<Rightarrow> scm_value result" where
  "integer_to_char i =
     rbind (rcheck (INTEGER_P i) ''type error expected <character>'') (\<lambda>_.
     make_char (sint (GET_INTEGRAL i)))"

section \<open>Boxing and unboxing\<close>

lemma low32: "w AND (push_bit 32 1 - 1 :: u64) = take_bit 32 w"
  by (simp add: take_bit_eq_mask mask_eq_exp_minus_1 push_bit_eq_mult)

lemma low48: "w AND (push_bit 48 1 - 1 :: u64) = take_bit 48 w"
  by (simp add: take_bit_eq_mask mask_eq_exp_minus_1 push_bit_eq_mult)

lemma GET_INTEGRAL_ucast: "GET_INTEGRAL v = ucast v"
  unfolding GET_INTEGRAL_def low32 by (rule bit_word_eqI) (auto simp: bit_simps)

lemma GET_FN_PTR_take: "GET_FN_PTR v = take_bit 48 v"
  unfolding GET_FN_PTR_def low48 ..

lemma unat_drop_bit48: "unat (drop_bit 48 (v :: u64)) = unat v div 2 ^ 48"
  by (subst unat_drop_bit_eq) (rule drop_bit_eq_div)

lemma unat_take_bit32: "unat (take_bit 32 (v :: u64)) < 2 ^ 32"
  by (simp only: unsigned_take_bit_eq) (simp add: take_bit_nat_def)

lemma NB_simps [simp]:
  "unat (NB t) = 0x7ff0 + tag_code t" if "boxable t"
  using that by (cases t) (simp_all add: NB_def NAN_BITS_def boxable_def less_type_tag_def)

lemma boxable_simps [simp]:
  "boxable tt_inf" "boxable tt_void" "boxable tt_bool" "boxable tt_char" "boxable tt_int"
  "boxable tt_pair" "boxable tt_symbol" "boxable tt_nan" "boxable tt_bytevector"
  "boxable tt_string" "boxable tt_vector" "boxable tt_record" "boxable tt_box"
  "boxable tt_closure" "boxable tt_function" "boxable tt_bigint"
  "\<not> boxable TT_COUNT" "\<not> boxable tt_float"
  by (simp_all add: boxable_def less_type_tag_def)

lemma boxable_code: "boxable t \<Longrightarrow> tag_code t < 16"
  by (simp add: boxable_def less_type_tag_def)

lemma NB_inj [simp]: "NB s = NB t \<longleftrightarrow> s = t" if "boxable s" "boxable t"
  using NB_simps [OF that(1)] NB_simps [OF that(2)] by (metis add_left_cancel tag_code_inj)

lemma TYPEOF_box [simp]:
  assumes "boxable t" and "unat p < 2 ^ 48"
  shows "TYPEOF (push_bit 48 (NB t) OR p) = NB t"
proof -
  have "unat (push_bit 48 (NB t) OR p) = unat (NB t) * 2 ^ 48 + unat p"
    using assms boxable_code [OF assms(1)] by (intro unat_tagged) simp_all
  then have "unat (TYPEOF (push_bit 48 (NB t) OR p)) = unat (NB t)"
    using assms(2) unfolding TYPEOF_def unat_drop_bit48 by simp
  then show ?thesis
    by (simp only: word_unat_eq_iff)
qed

lemma TYPEOF_box0 [simp]: "boxable t \<Longrightarrow> TYPEOF (push_bit 48 (NB t)) = NB t"
  using TYPEOF_box [of t 0] by simp

lemma GET_INTEGRAL_box [simp]: "GET_INTEGRAL (push_bit 48 t OR p) = ucast p"
  unfolding GET_INTEGRAL_ucast by (rule bit_word_eqI) (auto simp: bit_simps)

lemma GET_FN_PTR_box [simp]: "unat p < 2 ^ 48 \<Longrightarrow> GET_FN_PTR (push_bit 48 t OR p) = p"
proof -
  assume "unat p < 2 ^ 48"
  then have "take_bit 48 p = p"
    by (simp only: word_unat_eq_iff unsigned_take_bit_eq take_bit_nat_eq_self)
  moreover have "take_bit 48 (push_bit 48 t OR p) = take_bit 48 p"
    by (rule bit_word_eqI) (auto simp: bit_simps)
  ultimately show ?thesis
    by (simp only: GET_FN_PTR_take)
qed

text \<open>The boxed form of a 32-bit payload, as \<open>make_int\<close> and \<open>make_char\<close> build it.\<close>

definition box_i32 :: "type_tag \<Rightarrow> int \<Rightarrow> scm_value" where
  "box_i32 t x = push_bit 48 (NB t) OR take_bit 32 (word_of_int x)"

lemma TYPEOF_box_i32 [simp]: "boxable t \<Longrightarrow> TYPEOF (box_i32 t x) = NB t"
  unfolding box_i32_def
  using unat_take_bit32 [of "word_of_int x"] by (intro TYPEOF_box) simp_all

lemma GET_INTEGRAL_box_i32 [simp]: "GET_INTEGRAL (box_i32 t x) = word_of_int x"
  unfolding box_i32_def GET_INTEGRAL_box
  by (rule bit_word_eqI) (auto simp: bit_simps)

lemma sint32_of_int: "is_i32 x \<Longrightarrow> sint (word_of_int x :: u32) = x"
  by (simp add: sint_sbintrunc' signed_take_bit_int_eq_self is_i32_def INT32_MAX_def INT32_MIN_def)

lemma make_int_box: "is_i32 x \<Longrightarrow> make_int x = Inr (box_i32 tt_int x)"
  unfolding make_int_def box_i32_def low32 by (simp add: is_i32_def)

lemma make_char_box: "is_i32 x \<Longrightarrow> make_char x = Inr (box_i32 tt_char x)"
  unfolding make_char_def box_i32_def low32 by (simp add: is_i32_def)

text \<open>A tagged pattern is never a double: its exponent field is all ones.\<close>

lemma TYPEOF_not_FLOAT_P: "boxable t \<Longrightarrow> TYPEOF v = NB t \<Longrightarrow> \<not> FLOAT_P v"
proof -
  assume t: "boxable t" and v: "TYPEOF v = NB t"
  have "drop_bit 52 v = drop_bit 4 (TYPEOF v)"
    by (simp add: TYPEOF_def)
  also have "\<dots> = drop_bit 4 (NB t)"
    by (simp add: v)
  also have "\<dots> = 0x7ff"
    using t by (cases t) (simp_all add: NB_def NAN_BITS_def)
  finally show "\<not> FLOAT_P v"
    by (simp add: FLOAT_P_def)
qed

lemma make_int_fault: "\<not> is_i32 x \<Longrightarrow> make_int x = Inl (Assert ''bigint unimplemented'')"
  by (auto simp: make_int_def is_i32_def rbind_def rcheck_def)

lemma sint32_i32 [simp]: "is_i32 (sint (w :: u32))"
  using sint_greater_eq [of w] sint_lt [of w] by (simp add: is_i32_def INT32_MIN_def INT32_MAX_def)

text \<open>Heap offsets: what \<open>tag | offset\<close> gives back, while offsets stay below 4 GiB.\<close>

definition heap_value :: "type_tag \<Rightarrow> nat \<Rightarrow> scm_value" where
  "heap_value t off = push_bit 48 (NB t) OR of_nat off"

lemma TYPEOF_heap_value [simp]:
  "boxable t \<Longrightarrow> off < 2 ^ 32 \<Longrightarrow> TYPEOF (heap_value t off) = NB t"
  by (simp add: heap_value_def)

lemma GET_OFF_heap_value [simp]: "off < 2 ^ 32 \<Longrightarrow> GET_OFF (heap_value t off) = off"
  by (simp add: heap_value_def GET_OFF_def unsigned_ucast_eq take_bit_nat_eq_self)

text \<open>An offset of zero would make the empty list; the allocator starts at eight.\<close>

lemma heap_value_not_null:
  "off < 2 ^ 32 \<Longrightarrow> 0 < off \<Longrightarrow> heap_value t off \<noteq> SCM_NULL"
proof
  assume off: "off < 2 ^ 32" "0 < off" and eq: "heap_value t off = SCM_NULL"
  have "GET_OFF SCM_NULL = 0"
    using GET_INTEGRAL_box [of "NB tt_pair" 0] by (simp add: GET_OFF_def SCM_NULL_def)
  with eq off show False
    using GET_OFF_heap_value [OF off(1), of t] by simp
qed

lemma PAIR_P_heap_value [simp]: "off < 2 ^ 32 \<Longrightarrow> 0 < off \<Longrightarrow> PAIR_P (heap_value tt_pair off)"
  by (simp add: PAIR_P_def NULL_P_def heap_value_not_null)

lemma TYPEOF_consts [simp]:
  "TYPEOF SCM_NULL = NB tt_pair" "TYPEOF SCM_FALSE = NB tt_bool" "TYPEOF SCM_TRUE = NB tt_bool"
  "TYPEOF SCM_VOID = NB tt_void" "TYPEOF SCM_INFINITY = NB tt_inf" "TYPEOF SCM_NAN = NB tt_nan"
  by (simp_all add: TYPEOF_def scm_consts)

lemma SCM_TRUE_neq_FALSE [simp]: "SCM_TRUE \<noteq> SCM_FALSE" "SCM_FALSE \<noteq> SCM_TRUE"
  by (simp_all add: SCM_TRUE_def)

lemma ITOBOOL_inj [simp]: "ITOBOOL a = ITOBOOL b \<longleftrightarrow> a = b"
  by (auto simp: ITOBOOL_def)

lemma BOOLTOI_ITOBOOL [simp]: "BOOLTOI (ITOBOOL b) = b"
  by (simp add: BOOLTOI_def ITOBOOL_def)

text \<open>
  C27: A 32-bit integer survives boxing: \<open>make_int\<close> gives a value that is a fixnum and no
  flonum and reads back as the integer, and the conversions to a character and back are
  inverse. Any other integer stops the program.
\<close>

theorem fixnum_round_trip:
  "if is_i32 x
   then \<exists>v c. make_int x = Inr v \<and> INTEGER_P v \<and> \<not> FLOAT_P v \<and> sint (GET_INTEGRAL v) = x \<and>
     integer_to_char v = Inr c \<and> CHAR_P c \<and> char_to_integer c = Inr v
   else make_int x = Inl (Assert ''bigint unimplemented'')"
proof (cases "is_i32 x")
  case True
  let ?v = "box_i32 tt_int x" and ?c = "box_i32 tt_char x"
  have "INTEGER_P ?v" "CHAR_P ?c" "\<not> FLOAT_P ?v"
    using TYPEOF_not_FLOAT_P [of tt_int ?v] by (simp_all add: INTEGER_P_def CHAR_P_def)
  then show ?thesis
    using True make_int_box [OF True] make_char_box [OF True]
    by (simp add: integer_to_char_def char_to_integer_def sint32_of_int)
qed (simp add: make_int_fault)

end
