(* ===== verification/Scm_Heap.thy ===== *)
theory Scm_Heap
  imports Scm_Values
begin

text \<open>
  The runtime's heap (scheme/scm_runtime.c, scheme/scm_types.h): the object layouts, the
  state of the runtime, the bump allocator over a buffer that doubles, and typed access to
  the objects. The buffer is a map from byte offsets to objects; offsets, object sizes,
  the bump index, the buffer size and the alignment are those of the code. A C pointer into
  a buffer is the identity of the block \<open>malloc\<close> or \<open>realloc\<close> returned with an
  offset, because \<open>realloc\<close> makes every pointer into the old block indeterminate. The
  allocator of the C library is taken never to fail.
\<close>

section \<open>Objects\<close>

type_synonym cptr = "nat \<times> nat"

text \<open>
  One constructor per struct; the \<open>len\<close> of a flexible array is its length here, and an
  element that was never written is \<open>None\<close>.
\<close>

record shared_buf =
  sb_len :: u32
  sb_rc :: int
  sb_wc :: bool
  sb_ro :: bool
  sb_bytes :: "u8 option list"

datatype hobj =
    HPair scm_value scm_value
  | HSymbol u64 "u8 list"
  | HString u32 u32 cptr                          \<comment> \<open>off, len, buf\<close>
  | HBytevector "u8 option list"
  | HVector "scm_value option list"
  | HRecord scm_value "scm_value option list"     \<comment> \<open>meta, elems\<close>
  | HBox scm_value
  | HClosure bool u64 "scm_value option list"     \<comment> \<open>is_cont, code, free_vars\<close>
  | HBuf shared_buf

text \<open>\<open>sizeof\<close> of the struct plus the bytes of its flexible array.\<close>

fun obj_size :: "hobj \<Rightarrow> nat" where
  "obj_size (HPair _ _) = 24"
| "obj_size (HSymbol _ name) = 16 + length name"
| "obj_size (HString _ _ _) = 24"
| "obj_size (HBytevector bs) = 8 + length bs"
| "obj_size (HVector xs) = 8 + 8 * length xs"
| "obj_size (HRecord _ xs) = 16 + 8 * length xs"
| "obj_size (HBox _) = 16"
| "obj_size (HClosure _ _ xs) = 24 + 8 * length xs"
| "obj_size (HBuf sb) = 12 + length (sb_bytes sb)"

text \<open>Every struct begins with the forwarding reference.\<close>

datatype hcell = Cell (cell_fref: u32) (cell_obj: hobj)

section \<open>Static constants of a compiled program\<close>

datatype sconst = Const (const_tt: type_tag) (const_u: cdata)
and cdata =
    U_int int
  | U_float u64
  | U_null
  | U_string "u8 list"
  | U_symbol u64 "u8 list"
  | U_bytevector "u8 list"
  | U_vector "sconst list"
  | U_list "sconst list"

section \<open>State of the runtime\<close>

record mem_pool =
  pool_sz :: nat
  pool_idx :: nat
  pool_base :: nat                    \<comment> \<open>identity of the block \<open>buf\<close> points to\<close>
  pool_mem :: "nat \<Rightarrow> hcell option"

record rt_state =
  arg_stk :: "scm_value list"         \<comment> \<open>\<open>arg_stack.stk\<close> up to \<open>arg_stack.top\<close>, bottom first\<close>
  working :: mem_pool
  free_pool :: mem_pool
  next_base :: nat                    \<comment> \<open>the next block identity\<close>
  gc_threashold :: nat
  bytes_allocated :: nat
  gc_cycles :: nat
  exception_handler :: scm_value
  intern_tbl :: "scm_value list list" \<comment> \<open>the last one is \<open>interned\<close>\<close>
  constants :: "sconst list"
  stdout :: string

type_synonym 'a rt = "(rt_state, 'a) prog"

definition empty_pool :: mem_pool where
  "empty_pool = \<lparr>pool_sz = 0, pool_idx = 0, pool_base = 0, pool_mem = \<lambda>_. None\<rparr>"

text \<open>The static variables before \<open>main\<close>.\<close>

definition rt_zero :: rt_state where
  "rt_zero = \<lparr>arg_stk = [], working = empty_pool, free_pool = empty_pool, next_base = 1,
     gc_threashold = 0, bytes_allocated = 0, gc_cycles = 0, exception_handler = 0,
     intern_tbl = [], constants = [], stdout = []\<rparr>"

section \<open>Allocation\<close>

definition HEAP_PAGE_SZ :: nat where
  "HEAP_PAGE_SZ = 4096"

definition scm_heap_init :: "unit rt" where
  "scm_heap_init =
     modify (\<lambda>s. s\<lparr>working := (working s)\<lparr>pool_sz := HEAP_PAGE_SZ, pool_base := next_base s,
                       pool_mem := \<lambda>_. None, pool_idx := 8\<rparr>,
                     next_base := next_base s + 1\<rparr>)"

definition mem_align_offset :: "u64 \<Rightarrow> u64" where
  "mem_align_offset addr = (NOT addr + 1) AND 7"

text \<open>The size rounded up to the eight bytes every object is aligned to.\<close>

definition aligned :: "nat \<Rightarrow> nat" where
  "aligned sz = sz + unat (mem_align_offset (of_nat sz))"

definition scm_heap_alloc :: "nat \<Rightarrow> nat rt" where
  "scm_heap_alloc sz0 s =
     (let sz = aligned sz0;
          w = working s;
          grow = sz \<ge> unat (of_nat (pool_sz w) - of_nat (pool_idx w) :: u64);
          w1 = (if grow then w\<lparr>pool_sz := 2 * pool_sz w, pool_base := next_base s\<rparr> else w)
      in Inr (pool_idx w,
           s\<lparr>working := w1\<lparr>pool_idx := pool_idx w + sz\<rparr>,
             next_base := (if grow then next_base s + 1 else next_base s),
             bytes_allocated := bytes_allocated s + sz\<rparr>))"

section \<open>Access to objects\<close>

text \<open>
  The first writes to a block just allocated. A block past the end of the buffer or past
  the 32 bits of an offset is undefined behaviour, reported when the object is set up.
\<close>

definition write_new :: "nat \<Rightarrow> hobj \<Rightarrow> unit rt" where
  "write_new off ob s =
     (let w = working s
      in if off + obj_size ob \<le> pool_sz w \<and> off < 2 ^ 32
         then Inr ((), s\<lparr>working := w\<lparr>pool_mem := (pool_mem w)(off \<mapsto> Cell 0 ob)\<rparr>\<rparr>)
         else Inl (UB ''write past the end of the heap buffer''))"

definition deref :: "nat \<Rightarrow> hobj rt" where
  "deref off s =
     (case pool_mem (working s) off of
        None \<Rightarrow> Inl (UB ''no object at this offset'')
      | Some c \<Rightarrow> Inr (cell_obj c, s))"

text \<open>Writes to fields of an object keep its forwarding reference.\<close>

definition assign :: "nat \<Rightarrow> hobj \<Rightarrow> unit rt" where
  "assign off ob s =
     (case pool_mem (working s) off of
        None \<Rightarrow> Inl (UB ''no object at this offset'')
      | Some c \<Rightarrow>
          Inr ((), s\<lparr>working := (working s)\<lparr>pool_mem :=
             (pool_mem (working s))(off \<mapsto> Cell (cell_fref c) ob)\<rparr>\<rparr>))"

definition confusion :: "'a rt" where
  "confusion = fail (UB ''object of another type'')"

definition deref_pair :: "nat \<Rightarrow> (scm_value \<times> scm_value) rt" where
  "deref_pair off =
     bnd (deref off) (\<lambda>ob. case ob of HPair a d \<Rightarrow> ret (a, d) | _ \<Rightarrow> confusion)"

definition deref_vector :: "nat \<Rightarrow> scm_value option list rt" where
  "deref_vector off =
     bnd (deref off) (\<lambda>ob. case ob of HVector xs \<Rightarrow> ret xs | _ \<Rightarrow> confusion)"

definition deref_bytevector :: "nat \<Rightarrow> u8 option list rt" where
  "deref_bytevector off =
     bnd (deref off) (\<lambda>ob. case ob of HBytevector bs \<Rightarrow> ret bs | _ \<Rightarrow> confusion)"

definition deref_record :: "nat \<Rightarrow> (scm_value \<times> scm_value option list) rt" where
  "deref_record off =
     bnd (deref off) (\<lambda>ob. case ob of HRecord m xs \<Rightarrow> ret (m, xs) | _ \<Rightarrow> confusion)"

definition deref_box :: "nat \<Rightarrow> scm_value rt" where
  "deref_box off =
     bnd (deref off) (\<lambda>ob. case ob of HBox v \<Rightarrow> ret v | _ \<Rightarrow> confusion)"

definition deref_closure :: "nat \<Rightarrow> (bool \<times> u64 \<times> scm_value option list) rt" where
  "deref_closure off =
     bnd (deref off) (\<lambda>ob. case ob of HClosure c f xs \<Rightarrow> ret (c, f, xs) | _ \<Rightarrow> confusion)"

definition deref_symbol :: "nat \<Rightarrow> (u64 \<times> u8 list) rt" where
  "deref_symbol off =
     bnd (deref off) (\<lambda>ob. case ob of HSymbol h n \<Rightarrow> ret (h, n) | _ \<Rightarrow> confusion)"

definition deref_string :: "nat \<Rightarrow> (u32 \<times> u32 \<times> cptr) rt" where
  "deref_string off =
     bnd (deref off) (\<lambda>ob. case ob of HString off' l b \<Rightarrow> ret (off', l, b) | _ \<Rightarrow> confusion)"

definition deref_buf :: "nat \<Rightarrow> shared_buf rt" where
  "deref_buf off =
     bnd (deref off) (\<lambda>ob. case ob of HBuf sb \<Rightarrow> ret sb | _ \<Rightarrow> confusion)"

text \<open>Reading an array element, whose memory may hold nothing yet.\<close>

definition elem_at :: "'a option list \<Rightarrow> nat \<Rightarrow> 'a rt" where
  "elem_at xs i =
     (if i < length xs
      then (case xs ! i of Some x \<Rightarrow> ret x | None \<Rightarrow> fail (UB ''indeterminate value''))
      else fail (UB ''read past the end of an object''))"

text \<open>
  A pointer kept across an allocation: the block it points into must still be the one the
  heap uses.
\<close>

definition cur_base :: "nat rt" where
  "cur_base = gets (\<lambda>s. pool_base (working s))"

definition same_base :: "nat \<Rightarrow> unit rt" where
  "same_base b s =
     (if pool_base (working s) = b then Inr ((), s) else Inl (UB ''pointer into a block freed by realloc''))"

lemmas heap_access = deref_def assign_def deref_pair_def deref_vector_def deref_bytevector_def
  deref_record_def deref_box_def deref_closure_def deref_symbol_def deref_string_def deref_buf_def elem_at_def confusion_def

section \<open>Alignment\<close>

lemma mem_align_offset_eq: "mem_align_offset a = - a AND mask 3"
  by (simp add: mem_align_offset_def mask_eq_exp_minus_1 minus_eq_not_plus_1 add.commute)

lemma unat_neg_mod_8: "unat (- a :: 64 word) mod 8 = (if unat a mod 8 = 0 then 0 else 8 - unat a mod 8)"
proof -
  have "(unat (- a) + unat a) mod 2 ^ 64 = 0"
    using unat_word_ariths(1) [of "- a" a] by simp
  then have "(2::nat) ^ 64 dvd unat (- a) + unat a"
    by (rule mod_eq_0_iff_dvd [THEN iffD1])
  then have "(8::nat) dvd unat (- a) + unat a"
    by (rule dvd_trans [rotated]) simp
  then have "8 dvd unat (- a) mod 8 + unat a mod 8"
    by (simp add: mod_add_eq dvd_eq_mod_eq_0)
  then obtain k where k: "unat (- a) mod 8 + unat a mod 8 = 8 * k" ..
  moreover have "unat (- a) mod 8 < 8" "unat a mod 8 < 8" by simp_all
  ultimately have "k = 0 \<or> k = 1" by linarith
  with k show ?thesis
    using \<open>unat (- a) mod 8 < 8\<close> by (auto simp del: mod_less_divisor)
qed

lemma unat_mem_align_offset:
  "unat (mem_align_offset a) = (if unat a mod 8 = 0 then 0 else 8 - unat a mod 8)"
proof -
  have "unat (mem_align_offset a) = unat (- a) mod 8"
    by (simp add: mem_align_offset_eq take_bit_eq_mask [symmetric] unsigned_take_bit_eq take_bit_nat_def)
  then show ?thesis
    by (simp only: unat_neg_mod_8)
qed

lemma aligned_eq: "aligned n = n + (if n mod 8 = 0 then 0 else 8 - n mod 8)"
proof -
  have "unat (of_nat n :: u64) mod 8 = n mod 8"
    by (simp add: unat_of_nat take_bit_nat_def mod_mod_cancel)
  then show ?thesis
    by (simp add: aligned_def unat_mem_align_offset)
qed

lemma round_up_8: "n + (if n mod 8 = 0 then 0 else 8 - n mod 8) = 8 * ((n + 7) div (8::nat))"
proof (cases "n mod 8 = 0")
  case True
  then show ?thesis using div_mult_mod_eq[of n 8] by (auto elim!: dvdE)
next
  case False
  define q r where "q = n div 8" "r = n mod 8"
  have n: "n = 8*q + r" "r < 8" "0 < r" using False unfolding q_r_def by auto
  have "(n + 7) div 8 = q + 1"
    using n by (intro div_nat_eqI) auto
  then show ?thesis using False n by (auto simp: q_r_def[symmetric])
qed

lemma aligned_div: "aligned n = 8 * ((n + 7) div 8)"
  unfolding aligned_eq by (rule round_up_8)

lemma aligned_bounds: "n \<le> aligned n" "aligned n < n + 8" "8 dvd aligned n"
  unfolding aligned_div by (linarith, linarith, simp)

lemma aligned_id [simp]: "8 dvd n \<Longrightarrow> aligned n = n"
  by (auto simp: aligned_eq)

section \<open>Well-formed pools\<close>

text \<open>
  Objects lie on multiples of eight, in extents that do not overlap, between the first
  eight bytes (an offset of zero is the empty list) and the bump index.
\<close>

definition pool_ok :: "mem_pool \<Rightarrow> bool" where
  "pool_ok p \<longleftrightarrow>
     8 \<le> pool_idx p \<and> 8 dvd pool_idx p \<and> pool_idx p \<le> pool_sz p \<and>
     (\<forall>l c. pool_mem p l = Some c \<longrightarrow>
        8 \<le> l \<and> 8 dvd l \<and> l < 2 ^ 32 \<and> l + aligned (obj_size (cell_obj c)) \<le> pool_idx p) \<and>
     (\<forall>l c l' c'. pool_mem p l = Some c \<longrightarrow> pool_mem p l' = Some c' \<longrightarrow> l < l' \<longrightarrow>
        l + aligned (obj_size (cell_obj c)) \<le> l')"

lemma pool_ok_objD:
  assumes "pool_ok p" and "pool_mem p l = Some c"
  shows "8 \<le> l" "8 dvd l" "l < 2 ^ 32" "l + aligned (obj_size (cell_obj c)) \<le> pool_idx p"
  using assms unfolding pool_ok_def by blast+

lemma pool_ok_init: "scm_heap_init s = Inr (u, t) \<Longrightarrow> pool_ok (working t)"
  by (auto simp: scm_heap_init_def pool_ok_def HEAP_PAGE_SZ_def)

lemma obj_size_ge: "8 \<le> obj_size ob"
  by (cases ob) simp_all

lemma pool_ok_below:
  assumes "pool_ok p" and "pool_mem p l = Some c"
  shows "l < pool_idx p"
  using pool_ok_objD(4) [OF assms] aligned_bounds(1) [of "obj_size (cell_obj c)"]
    obj_size_ge [of "cell_obj c"] by linarith

lemma pool_ok_fresh: "pool_ok p \<Longrightarrow> pool_idx p \<le> l \<Longrightarrow> pool_mem p l = None"
  using pool_ok_below [of p l] by (cases "pool_mem p l") auto

text \<open>A new object of the size allocated keeps the pool well formed.\<close>

lemma pool_ok_extend:
  assumes ok: "pool_ok p" and small: "pool_idx p < 2 ^ 32"
    and fits: "pool_idx p + aligned (obj_size ob) \<le> sz'"
  shows "pool_ok (p\<lparr>pool_sz := sz', pool_idx := pool_idx p + aligned (obj_size ob),
           pool_base := b, pool_mem := (pool_mem p)(pool_idx p \<mapsto> Cell f ob)\<rparr>)"
    (is "pool_ok ?q")
proof -
  have idx: "8 \<le> pool_idx p" "8 dvd pool_idx p"
    using ok by (simp_all add: pool_ok_def)
  have objs: "8 \<le> l \<and> 8 dvd l \<and> l < 2 ^ 32 \<and> l + aligned (obj_size (cell_obj c)) \<le> pool_idx ?q"
    if "pool_mem ?q l = Some c" for l c
  proof (cases "l = pool_idx p")
    case False
    then have "pool_mem p l = Some c" using that by simp
    from pool_ok_objD [OF ok this] show ?thesis by simp
  qed (use that idx small in auto)
  have disj: "l + aligned (obj_size (cell_obj c)) \<le> l'"
    if "pool_mem ?q l = Some c" "pool_mem ?q l' = Some c'" "l < l'" for l c l' c'
  proof -
    have old: "pool_mem p l = Some c" if "l \<noteq> pool_idx p"
      using \<open>pool_mem ?q l = Some c\<close> that by simp
    show ?thesis
    proof (cases "l' = pool_idx p")
      case True
      then show ?thesis
        using old pool_ok_objD(4) [OF ok, of l c] \<open>l < l'\<close> by auto
    next
      case False
      then have l': "pool_mem p l' = Some c'"
        using that(2) by simp
      moreover have "l \<noteq> pool_idx p"
        using pool_ok_below [OF ok l'] that(3) by simp
      ultimately show ?thesis
        using ok old that(3) unfolding pool_ok_def by blast
    qed
  qed
  have "8 \<le> pool_idx ?q \<and> 8 dvd pool_idx ?q \<and> pool_idx ?q \<le> pool_sz ?q"
    using idx fits aligned_bounds(3) [of "obj_size ob"] by simp
  with objs disj show ?thesis
    unfolding pool_ok_def by blast
qed

lemma pool_ok_assign:
  assumes "pool_ok p" and "pool_mem p l = Some c" and "obj_size ob = obj_size (cell_obj c)"
  shows "pool_ok (p\<lparr>pool_mem := (pool_mem p)(l \<mapsto> Cell f ob)\<rparr>)"
  using assms unfolding pool_ok_def by (auto split: if_splits)

section \<open>What an allocation does\<close>

lemma scm_heap_alloc_total: "\<exists>i t. scm_heap_alloc n s = Inr (i, t)"
  by (simp add: scm_heap_alloc_def Let_def)

lemma scm_heap_allocD:
  assumes "scm_heap_alloc n s = Inr (i, t)"
  shows "i = pool_idx (working s)"
    and "pool_idx (working t) = pool_idx (working s) + aligned n"
    and "pool_mem (working t) = pool_mem (working s)"
    and "arg_stk t = arg_stk s"
    and "bytes_allocated t = bytes_allocated s + aligned n"
    and "pool_sz (working s) \<le> pool_sz (working t)"
  using assms by (auto simp: scm_heap_alloc_def Let_def)

lemma unat_diff_u64:
  "m \<le> n \<Longrightarrow> n < 2 ^ 64 \<Longrightarrow> unat (of_nat n - of_nat m :: u64) = n - m"
  by (simp flip: of_nat_diff)

text \<open>
  A request no larger than the buffer is served inside the buffer, which at most doubles.
\<close>

lemma scm_heap_alloc_fits:
  assumes "scm_heap_alloc n s = Inr (i, t)" and "pool_ok (working s)"
    and "pool_sz (working s) < 2 ^ 63" and "aligned n \<le> pool_sz (working s)"
  shows "pool_idx (working s) + aligned n \<le> pool_sz (working t)"
proof (cases "aligned n \<ge> pool_sz (working s) - pool_idx (working s)")
  case True
  have "unat (of_nat (pool_sz (working s)) - of_nat (pool_idx (working s)) :: u64)
      = pool_sz (working s) - pool_idx (working s)"
    using assms(2,3) by (intro unat_diff_u64) (simp_all add: pool_ok_def)
  then have "pool_sz (working t) = 2 * pool_sz (working s)"
    using assms(1) True by (auto simp: scm_heap_alloc_def Let_def)
  then show ?thesis
    using assms(2,4) by (simp add: pool_ok_def)
next
  case False
  then show ?thesis
    using scm_heap_allocD(6) [OF assms(1)] by linarith
qed

text \<open>Allocation followed by the object's set-up: what the object constructors share.\<close>

definition new_obj :: "hobj \<Rightarrow> nat rt" where
  "new_obj ob = bnd (scm_heap_alloc (obj_size ob)) (\<lambda>i. bnd (write_new i ob) (\<lambda>_. ret i))"

lemma new_objD:
  assumes "new_obj ob s = Inr (i, t)"
  shows "i = pool_idx (working s)" "i < 2 ^ 32"
    and "pool_mem (working t) = (pool_mem (working s))(i \<mapsto> Cell 0 ob)"
    and "pool_idx (working t) = i + aligned (obj_size ob)"
    and "arg_stk t = arg_stk s"
    and "i + obj_size ob \<le> pool_sz (working t)"
    and "bytes_allocated t = bytes_allocated s + aligned (obj_size ob)"
  using assms scm_heap_allocD
  by (auto simp: new_obj_def write_new_def Let_def bnd_eq_Inr split: if_splits)

lemma new_obj_ok:
  assumes "pool_ok (working s)" and "pool_idx (working s) < 2 ^ 32"
    and "pool_sz (working s) < 2 ^ 63" and "aligned (obj_size ob) \<le> pool_sz (working s)"
  shows "\<exists>t. new_obj ob s = Inr (pool_idx (working s), t) \<and> pool_ok (working t)"
proof -
  obtain i t where t: "scm_heap_alloc (obj_size ob) s = Inr (i, t)"
    using scm_heap_alloc_total by blast
  note D = scm_heap_allocD [OF t]
  have fits: "pool_idx (working s) + aligned (obj_size ob) \<le> pool_sz (working t)"
    using scm_heap_alloc_fits [OF t assms(1,3,4)] .
  then have "i + obj_size ob \<le> pool_sz (working t)"
    using aligned_bounds(1) [of "obj_size ob"] D(1) by linarith
  then have w: "write_new i ob t = Inr ((), t\<lparr>working := (working t)\<lparr>pool_mem :=
      (pool_mem (working t))(i \<mapsto> Cell 0 ob)\<rparr>\<rparr>)"
    using assms(2) D(1) by (simp add: write_new_def Let_def)
  have "(working t)\<lparr>pool_mem := (pool_mem (working t))(i \<mapsto> Cell 0 ob)\<rparr> =
      (working s)\<lparr>pool_sz := pool_sz (working t),
        pool_idx := pool_idx (working s) + aligned (obj_size ob),
        pool_base := pool_base (working t),
        pool_mem := (pool_mem (working s))(pool_idx (working s) \<mapsto> Cell 0 ob)\<rparr>"
    using D(1-3) by simp
  then have "pool_ok ((working t)\<lparr>pool_mem := (pool_mem (working t))(i \<mapsto> Cell 0 ob)\<rparr>)"
    using pool_ok_extend [OF assms(1,2) fits] by metis
  then show ?thesis
    using t w D(1) by (simp add: new_obj_def)
qed

section \<open>The allocator's interface\<close>

text \<open>
  What the object constructors rely on: a request is served at the current top, and the top
  moves past the block. Blocks of successive requests are then apart, whatever was served
  between them.
\<close>

locale bump_allocator =
  fixes alloc :: "nat \<Rightarrow> 's \<Rightarrow> fault + (nat \<times> 's)"
    and top_of :: "'s \<Rightarrow> nat"
  assumes serves: "\<exists>i t. alloc n s = Inr (i, t)"
    and at_top: "alloc n s = Inr (i, t) \<Longrightarrow> i = top_of s"
    and past: "alloc n s = Inr (i, t) \<Longrightarrow> top_of s + n \<le> top_of t"
begin

lemma all_served: "\<exists>is t. mmap alloc ns s = Inr (is, t)"
proof (induction ns arbitrary: s)
  case (Cons n ns)
  obtain i u where u: "alloc n s = Inr (i, u)"
    using serves by blast
  obtain "is" t where "mmap alloc ns u = Inr (is, t)"
    using Cons by blast
  with u show ?case by simp
qed simp

lemma above_top:
  "mmap alloc ns s = Inr (is, t) \<Longrightarrow> i \<in> set is \<Longrightarrow> top_of s \<le> i"
proof (induction ns arbitrary: s "is" i)
  case (Cons n ns)
  then obtain i0 u is0 where u: "alloc n s = Inr (i0, u)" "mmap alloc ns u = Inr (is0, t)"
    "is = i0 # is0"
    by (auto simp: bnd_eq_Inr)
  have "top_of u \<le> i" if "i \<in> set is0"
    using Cons.IH [OF u(2) that] .
  then show ?case
    using Cons.prems(2) u(1,3) at_top [OF u(1)] past [OF u(1)] by fastforce
qed simp

lemma apart:
  "mmap alloc ns s = Inr (is, t) \<Longrightarrow> j < k \<Longrightarrow> k < length ns \<Longrightarrow> is ! j + ns ! j \<le> is ! k"
proof (induction ns arbitrary: s "is" j k)
  case (Cons n ns)
  then obtain i0 u is0 where u: "alloc n s = Inr (i0, u)" "mmap alloc ns u = Inr (is0, t)"
    "is = i0 # is0"
    by (auto simp: bnd_eq_Inr)
  obtain k' where k': "k = Suc k'" "k' < length ns"
    using Cons.prems(2,3) by (cases k) auto
  show ?case
  proof (cases j)
    case 0
    have "is0 ! k' \<in> set is0"
      using k' mmap_length [OF u(2)] by simp
    then have "top_of u \<le> is0 ! k'"
      using above_top [OF u(2)] by blast
    then show ?thesis
      using 0 k' u(3) at_top [OF u(1)] past [OF u(1)] by simp
  next
    case (Suc j')
    then show ?thesis
      using Cons.IH [OF u(2), of j' k'] Cons.prems(2) k' u(3) by simp
  qed
qed simp

end

interpretation heap: bump_allocator scm_heap_alloc "\<lambda>s. pool_idx (working s)"
proof
  show "\<exists>i t. scm_heap_alloc n s = Inr (i, t)" for n s
    by (rule scm_heap_alloc_total)
  show "i = pool_idx (working s)" if "scm_heap_alloc n s = Inr (i, t)" for n s i t
    using scm_heap_allocD(1) [OF that] .
  show "pool_idx (working s) + n \<le> pool_idx (working t)"
    if "scm_heap_alloc n s = Inr (i, t)" for n s i t
    using scm_heap_allocD(2) [OF that] aligned_bounds(1) [of n] by simp
qed

section \<open>The heap at work\<close>

text \<open>The state after \<open>scm_heap_init\<close>.\<close>

definition rt_start :: rt_state where
  "rt_start = rt_zero\<lparr>working := \<lparr>pool_sz = HEAP_PAGE_SZ, pool_idx = 8, pool_base = 1,
     pool_mem = \<lambda>_. None\<rparr>, next_base := 2\<rparr>"

lemma rt_start_init: "scm_heap_init rt_zero = Inr ((), rt_start)"
  by (simp add: scm_heap_init_def rt_start_def rt_zero_def empty_pool_def)

lemma pool_ok_start: "pool_ok (working rt_start)"
  by (rule pool_ok_init [OF rt_start_init])




text \<open>
  Allocating and setting up an object no larger than the buffer never faults on a
  well-formed heap: the object gets the offset of the old top, the heap stays well formed, and
  every object that was there keeps its place and contents, also when the buffer is doubled.
\<close>

theorem new_object_ok:
  assumes "pool_ok (working s)" and "pool_idx (working s) < 2 ^ 32"
    and "pool_sz (working s) < 2 ^ 63" and "aligned (obj_size ob) \<le> pool_sz (working s)"
  shows "\<exists>t. bnd (scm_heap_alloc (obj_size ob)) (\<lambda>i. bnd (write_new i ob) (\<lambda>_. ret i)) s
      = Inr (pool_idx (working s), t) \<and> pool_ok (working t) \<and>
    pool_mem (working t) = (pool_mem (working s))(pool_idx (working s) \<mapsto> Cell 0 ob) \<and>
    arg_stk t = arg_stk s"
proof -
  obtain t where t: "new_obj ob s = Inr (pool_idx (working s), t)" "pool_ok (working t)"
    using new_obj_ok [OF assms] by blast
  with new_objD(3,5) [OF t(1)] show ?thesis
    unfolding new_obj_def by blast
qed

lemma new_object_ok_witness:
  "\<exists>t. bnd (scm_heap_alloc 16) (\<lambda>i. bnd (write_new i (HBox SCM_VOID)) (\<lambda>_. ret i)) rt_start
      = Inr (8, t) \<and> pool_ok (working t)"
  using new_object_ok [OF pool_ok_start, of "HBox SCM_VOID"]
  by (auto simp: rt_start_def HEAP_PAGE_SZ_def)

text \<open>
  A request of more than twice the buffer leaves the heap ill formed: the buffer is doubled
  once, whatever the size asked for, and the block ends past it.
\<close>

theorem big_request_overruns:
  assumes "2 * pool_sz (working s) < aligned n"
  shows "\<exists>i t. scm_heap_alloc n s = Inr (i, t) \<and> pool_sz (working t) < pool_idx (working t) \<and>
    \<not> pool_ok (working t)"
proof -
  obtain i t where t: "scm_heap_alloc n s = Inr (i, t)"
    using scm_heap_alloc_total by blast
  moreover have "pool_sz (working t) \<le> 2 * pool_sz (working s)"
    using t by (auto simp: scm_heap_alloc_def Let_def)
  ultimately show ?thesis
    using assms scm_heap_allocD(2) [OF t] by (auto simp: pool_ok_def)
qed

lemma big_request_overruns_witness:
  "\<exists>i t. scm_heap_alloc 10000 rt_start = Inr (i, t) \<and> pool_sz (working t) < pool_idx (working t)"
  using big_request_overruns [of rt_start 10000]
  by (auto simp: rt_start_def HEAP_PAGE_SZ_def aligned_eq)

end
