(* ===== verification/Scm_Stack.thy ===== *)
theory Scm_Stack
  imports Scm_Heap
begin

text \<open>
  The argument stack of scheme/scm_runtime.c, through which compiled code passes arguments
  and results, and what every primitive does with it: pushing, popping, the arity check,
  boxes, closures and the tail call that hands the next procedure to the trampoline.
\<close>

section \<open>Pushing and popping\<close>

definition ARG_STACK_LEN :: nat where
  "ARG_STACK_LEN = 512"

definition push_arg :: "scm_value \<Rightarrow> unit rt" where
  "push_arg x s =
     (if length (arg_stk s) < ARG_STACK_LEN
      then Inr ((), s\<lparr>arg_stk := arg_stk s @ [x]\<rparr>)
      else Inl (Assert ''ARG STACK OVERFLOW''))"

definition pop_arg :: "scm_value rt" where
  "pop_arg s =
     (if length (arg_stk s) > 0
      then Inr (last (arg_stk s), s\<lparr>arg_stk := butlast (arg_stk s)\<rparr>)
      else Inl (Assert ''ARG STACK UNDERFLOW''))"

definition arg_top :: "nat rt" where
  "arg_top = gets (\<lambda>s. length (arg_stk s))"

text \<open>\<open>arg_stack.stk[i]\<close> for an index below the top, and \<open>arg_stack.top = 0\<close>.\<close>

definition arg_at :: "nat \<Rightarrow> scm_value rt" where
  "arg_at i s =
     (if i < length (arg_stk s) then Inr (arg_stk s ! i, s)
      else Inl (UB ''stale slot of the argument stack''))"

definition clear_args :: "unit rt" where
  "clear_args = modify (\<lambda>s. s\<lparr>arg_stk := []\<rparr>)"

definition chk_args :: "nat \<Rightarrow> bool \<Rightarrow> rt_state \<Rightarrow> bool" where
  "chk_args req rest s =
     (let nargs = length (arg_stk s) in if rest then nargs \<ge> req else nargs = req)"

text \<open>\<open>scm_assert (chk_args (req, rest), "arity error")\<close>.\<close>

definition arity :: "nat \<Rightarrow> bool \<Rightarrow> unit rt" where
  "arity req rest s = check (chk_args req rest s) ''arity error'' s"

text \<open>The loop \<open>for (i = 0; arg_stack.top; ++i) x[i] = pop_arg ()\<close>.\<close>

fun pop_n :: "nat \<Rightarrow> scm_value list rt" where
  "pop_n 0 = ret []"
| "pop_n (Suc n) = bnd pop_arg (\<lambda>x. bnd (pop_n n) (\<lambda>xs. ret (x # xs)))"

definition pop_all :: "scm_value list rt" where
  "pop_all = bnd arg_top pop_n"

lemma push_arg_ok [simp]:
  "length (arg_stk s) < ARG_STACK_LEN \<Longrightarrow> push_arg x s = Inr ((), s\<lparr>arg_stk := arg_stk s @ [x]\<rparr>)"
  by (simp add: push_arg_def)

lemma pop_arg_snoc [simp]:
  "arg_stk s = xs @ [x] \<Longrightarrow> pop_arg s = Inr (x, s\<lparr>arg_stk := xs\<rparr>)"
  by (simp add: pop_arg_def)

lemma pop_arg_Cons [simp]:
  "arg_stk s = x # xs \<Longrightarrow>
     pop_arg s = Inr (last (x # xs), s\<lparr>arg_stk := butlast (x # xs)\<rparr>)"
  by (simp add: pop_arg_def)

lemma pop_arg_Nil [simp]:
  "arg_stk s = [] \<Longrightarrow> pop_arg s = Inl (Assert ''ARG STACK UNDERFLOW'')"
  by (simp add: pop_arg_def)

lemma arg_top_app [simp]: "arg_top s = Inr (length (arg_stk s), s)"
  by (simp add: arg_top_def)

lemma clear_args_app [simp]: "clear_args s = Inr ((), s\<lparr>arg_stk := []\<rparr>)"
  by (simp add: clear_args_def)

lemma arg_at_app [simp]: "i < length (arg_stk s) \<Longrightarrow> arg_at i s = Inr (arg_stk s ! i, s)"
  by (simp add: arg_at_def)

lemma arity_fixed [simp]: "length (arg_stk s) = n \<Longrightarrow> arity n False s = Inr ((), s)"
  by (simp add: arity_def chk_args_def)

lemma arity_rest [simp]: "n \<le> length (arg_stk s) \<Longrightarrow> arity n True s = Inr ((), s)"
  by (simp add: arity_def chk_args_def)

lemma arity_fixed_fault [simp]:
  "length (arg_stk s) \<noteq> n \<Longrightarrow> arity n False s = Inl (Assert ''arity error'')"
  by (simp add: arity_def chk_args_def)

lemma arity_rest_fault [simp]:
  "length (arg_stk s) < n \<Longrightarrow> arity n True s = Inl (Assert ''arity error'')"
  by (simp add: arity_def chk_args_def)

lemma arity_eq_Inr: "arity n r s = Inr (u, t) \<longleftrightarrow> chk_args n r s \<and> t = s"
  by (auto simp: arity_def check_def)

lemma pop_n_eq:
  "n \<le> length (arg_stk s) \<Longrightarrow>
     pop_n n s = Inr (rev (drop (length (arg_stk s) - n) (arg_stk s)),
       s\<lparr>arg_stk := take (length (arg_stk s) - n) (arg_stk s)\<rparr>)"
proof (induction n arbitrary: s)
  case (Suc n)
  then obtain xs x where xs: "arg_stk s = xs @ [x]"
    by (cases "arg_stk s" rule: rev_cases) auto
  have len: "n \<le> length xs"
    using Suc.prems xs by simp
  then have "pop_n n (s\<lparr>arg_stk := xs\<rparr>) = Inr (rev (drop (length xs - n) xs),
      s\<lparr>arg_stk := take (length xs - n) xs\<rparr>)"
    using Suc.IH [of "s\<lparr>arg_stk := xs\<rparr>"] by simp
  then show ?case
    using xs len by simp
qed simp

lemma pop_all_eq [simp]: "pop_all s = Inr (rev (arg_stk s), s\<lparr>arg_stk := []\<rparr>)"
  by (simp add: pop_all_def pop_n_eq)

section \<open>The interface of a bounded stack\<close>

text \<open>
  The laws the primitives and the compiled code rely on, and what follows from them: a block
  of arguments pushed in order is read back last first, and nothing below it is disturbed.
\<close>

locale bounded_stack =
  fixes push :: "'v \<Rightarrow> 's \<Rightarrow> fault + (unit \<times> 's)"
    and pop :: "'s \<Rightarrow> fault + ('v \<times> 's)"
    and items :: "'s \<Rightarrow> 'v list"
    and bound :: nat
  assumes push_room:
      "length (items s) < bound \<Longrightarrow> \<exists>t. push x s = Inr ((), t) \<and> items t = items s @ [x]"
    and push_full: "bound \<le> length (items s) \<Longrightarrow> \<exists>e. push x s = Inl e"
    and pop_item: "items s = xs @ [x] \<Longrightarrow> \<exists>t. pop s = Inr (x, t) \<and> items t = xs"
    and pop_none: "items s = [] \<Longrightarrow> \<exists>e. pop s = Inl e"
begin

lemma push_pop:
  assumes "push x s = Inr ((), t)"
  shows "\<exists>u. pop t = Inr (x, u) \<and> items u = items s"
proof (cases "length (items s) < bound")
  case True
  then have "items t = items s @ [x]"
    using push_room [OF True, of x] assms by auto
  then show ?thesis by (rule pop_item)
next
  case False
  then have "\<exists>e. push x s = Inl e"
    by (intro push_full) simp
  then show ?thesis using assms by auto
qed

lemma push_block:
  "length (items s) + length xs \<le> bound \<Longrightarrow>
     \<exists>us t. mmap push xs s = Inr (us, t) \<and> items t = items s @ xs"
proof (induction xs arbitrary: s)
  case (Cons x xs)
  then obtain t where t: "push x s = Inr ((), t)" "items t = items s @ [x]"
    using push_room [of s x] by auto
  then obtain us u where "mmap push xs t = Inr (us, u)" "items u = items t @ xs"
    using Cons.IH [of t] Cons.prems by auto
  with t show ?case by simp
qed simp

lemma pop_block:
  "items s = ys @ rev xs \<Longrightarrow>
     \<exists>t. mmap (\<lambda>_. pop) xs s = Inr (xs, t) \<and> items t = ys"
proof (induction xs arbitrary: s)
  case (Cons x xs)
  then obtain t where t: "pop s = Inr (x, t)" "items t = ys @ rev xs"
    using pop_item [of s "ys @ rev xs" x] by auto
  then obtain u where "mmap (\<lambda>_. pop) xs t = Inr (xs, u)" "items u = ys"
    using Cons.IH [of t] by auto
  with t show ?case by simp
qed simp

lemma block_round_trip:
  assumes "length (items s) + length xs \<le> bound"
  shows "\<exists>t. bnd (mmap push xs) (\<lambda>_. mmap (\<lambda>_. pop) (rev xs)) s = Inr (rev xs, t)
    \<and> items t = items s"
proof -
  obtain us u where u: "mmap push xs s = Inr (us, u)" "items u = items s @ rev (rev xs)"
    using push_block [OF assms] by auto
  then obtain t where "mmap (\<lambda>_. pop) (rev xs) u = Inr (rev xs, t)" "items t = items s"
    using pop_block [OF u(2)] by blast
  with u show ?thesis by auto
qed

lemma block_overflow:
  "length (items s) \<le> bound \<Longrightarrow> bound < length (items s) + length xs \<Longrightarrow> \<exists>e. mmap push xs s = Inl e"
proof (induction xs arbitrary: s)
  case (Cons x xs)
  show ?case
  proof (cases "length (items s) < bound")
    case True
    then obtain t where t: "push x s = Inr ((), t)" "items t = items s @ [x]"
      using push_room [OF True, of x] by blast
    then obtain e where "mmap push xs t = Inl e"
      using Cons.IH [of t] Cons.prems True by auto
    with t show ?thesis by simp
  next
    case False
    then obtain e where "push x s = Inl e"
      using push_full [of s x] by auto
    then show ?thesis by simp
  qed
qed simp

end

interpretation args: bounded_stack push_arg pop_arg arg_stk ARG_STACK_LEN
proof
  fix s :: rt_state and x :: scm_value and xs :: "scm_value list"
  show "\<exists>t. push_arg x s = Inr ((), t) \<and> arg_stk t = arg_stk s @ [x]"
    if "length (arg_stk s) < ARG_STACK_LEN"
    using that by simp
  show "\<exists>e. push_arg x s = Inl e" if "ARG_STACK_LEN \<le> length (arg_stk s)"
    using that by (simp add: push_arg_def)
  show "\<exists>t. pop_arg s = Inr (x, t) \<and> arg_stk t = xs" if "arg_stk s = xs @ [x]"
    using that by simp
  show "\<exists>e. pop_arg s = Inl e" if "arg_stk s = []"
    using that by simp
qed

section \<open>Boxes\<close>

definition make_box :: "scm_value rt" where
  "make_box = bnd (new_obj (HBox SCM_VOID)) (\<lambda>i. ret (heap_value tt_box i))"

definition box_ref :: "scm_value \<Rightarrow> scm_value rt" where
  "box_ref b = bnd (check (BOX_P b) ''type error expected variable'') (\<lambda>_. deref_box (GET_OFF b))"

text \<open>
  Storing a box stores what it holds, through however many boxes; the recursion of the source
  is fuelled here.
\<close>

fun box_set :: "nat \<Rightarrow> scm_value \<Rightarrow> scm_value \<Rightarrow> unit rt" where
  "box_set 0 b v = fail NoFuel"
| "box_set (Suc n) b v =
     bnd (check (BOX_P b) ''type error expected variable'') (\<lambda>_.
     bnd (deref_box (GET_OFF b)) (\<lambda>_.
     if BOX_P v then bnd (box_ref v) (\<lambda>w. box_set n b w)
     else assign (GET_OFF b) (HBox v)))"

definition push_ref :: "scm_value \<Rightarrow> unit rt" where
  "push_ref x =
     (if BOX_P x then bnd (box_ref x) (\<lambda>v. push_arg v) else push_arg x)"

section \<open>Procedures\<close>

definition make_closure :: "scm_value rt" where
  "make_closure =
     bnd arg_top (\<lambda>top.
     bnd (scm_heap_alloc (24 + 8 * top)) (\<lambda>i.
     bnd pop_arg (\<lambda>code.
     bnd pop_all (\<lambda>free.
     bnd (write_new i (HClosure False code (map Some free))) (\<lambda>_.
     ret (heap_value tt_closure i))))))"

definition closure_ref :: "scm_value \<Rightarrow> nat \<Rightarrow> scm_value rt" where
  "closure_ref clos idx = bnd (deref_closure (GET_OFF clos)) (\<lambda>(_, _, fv). elem_at fv idx)"

definition function_fn :: "scm_value \<Rightarrow> u64 rt" where
  "function_fn v =
     bnd (check (FUNCTION_P v) ''type error expected <procedure>'') (\<lambda>_. ret (GET_FN_PTR v))"

definition closure_fn :: "scm_value \<Rightarrow> u64 rt" where
  "closure_fn v =
     bnd (check (CLOSURE_P v) ''type error expected <procedure>'') (\<lambda>_.
     bnd (deref_closure (GET_OFF v)) (\<lambda>(_, code, _). ret code))"

definition procedure_fn :: "scm_value \<Rightarrow> u64 rt" where
  "procedure_fn v =
     (if CLOSURE_P v then bnd (deref_closure (GET_OFF v)) (\<lambda>(_, code, _). ret code)
      else if FUNCTION_P v then ret (GET_FN_PTR v)
      else fail (Assert ''type error expected <procedure>''))"

definition CONTINUATION_P :: "scm_value \<Rightarrow> bool rt" where
  "CONTINUATION_P v =
     (if CLOSURE_P v then bnd (deref_closure (GET_OFF v)) (\<lambda>(is_cont, _, _). ret is_cont)
      else ret False)"

text \<open>
  \<open>_tail_call\<close>: a box is looked through, a continuation drops the argument on top (the
  continuation of the caller, which it replaces), and a procedure never finds the stack
  empty.
\<close>

definition tail_call :: "scm_value \<Rightarrow> scm_value rt" where
  "tail_call proc0 =
     bnd (if BOX_P proc0 then box_ref proc0 else ret proc0) (\<lambda>proc.
     bnd (check (PROCEDURE_P proc) ''type error, expected procedure'') (\<lambda>_.
     bnd (CONTINUATION_P proc) (\<lambda>c.
     bnd (if c then bnd pop_arg (\<lambda>_. ret ()) else ret ()) (\<lambda>_.
     bnd arg_top (\<lambda>top.
     bnd (if top = 0 then push_arg SCM_VOID else ret ()) (\<lambda>_.
     ret proc))))))"

lemma tail_call_function:
  assumes "FUNCTION_P k"
  shows "tail_call k s =
    Inr (k, s\<lparr>arg_stk := (if arg_stk s = [] then [SCM_VOID] else arg_stk s)\<rparr>)"
proof -
  have "\<not> BOX_P k" "\<not> CLOSURE_P k" "PROCEDURE_P k"
    using assms by (simp_all add: scm_preds PROCEDURE_P_def)
  then show ?thesis
    by (cases "arg_stk s = []")
      (simp_all add: tail_call_def CONTINUATION_P_def push_arg_def ARG_STACK_LEN_def)
qed

text \<open>A closure that is no continuation, as the compiler makes for every \<open>lambda\<close>.\<close>

definition plain_closure :: "rt_state \<Rightarrow> scm_value \<Rightarrow> bool" where
  "plain_closure s k \<longleftrightarrow> CLOSURE_P k \<and>
     (\<exists>f c fv. pool_mem (working s) (GET_OFF k) = Some (Cell f (HClosure False c fv)))"

definition callable :: "rt_state \<Rightarrow> scm_value \<Rightarrow> bool" where
  "callable s k \<longleftrightarrow> FUNCTION_P k \<or> plain_closure s k"

lemma callable_function [simp]: "unat a < 2 ^ 48 \<Longrightarrow> callable s (make_function a)"
  by (simp add: callable_def FUNCTION_P_def make_function_def)

lemma callable_working [simp]:
  "callable (s\<lparr>arg_stk := xs\<rparr>) k = callable s k"
  by (simp add: callable_def plain_closure_def)

text \<open>Returning through a continuation that takes its results on the stack.\<close>

lemma tail_call_callable:
  assumes "callable s k"
  shows "tail_call k s =
    Inr (k, s\<lparr>arg_stk := (if arg_stk s = [] then [SCM_VOID] else arg_stk s)\<rparr>)"
proof (cases "FUNCTION_P k")
  case False
  then obtain f c fv where k: "CLOSURE_P k"
    "pool_mem (working s) (GET_OFF k) = Some (Cell f (HClosure False c fv))"
    using assms by (auto simp: callable_def plain_closure_def)
  then have "\<not> BOX_P k" "PROCEDURE_P k"
    by (simp_all add: scm_preds PROCEDURE_P_def)
  with k show ?thesis
    by (cases "arg_stk s = []")
      (simp_all add: tail_call_def CONTINUATION_P_def push_arg_def ARG_STACK_LEN_def heap_access)
qed (rule tail_call_function)

lemma push_tail_call:
  assumes "callable s k" and "length (arg_stk s) < ARG_STACK_LEN"
  shows "bnd (push_arg v) (\<lambda>_. tail_call k) s = Inr (k, s\<lparr>arg_stk := arg_stk s @ [v]\<rparr>)"
  using assms by (simp add: tail_call_callable)

section \<open>Blocks of arguments\<close>

text \<open>
  A block of arguments that fits is pushed and popped again last first, and the stack below
  is as it was; one push beyond the capacity stops the program.
\<close>

theorem arguments_round_trip:
  assumes "length (arg_stk s) \<le> ARG_STACK_LEN"
  shows "if length (arg_stk s) + length xs \<le> ARG_STACK_LEN
    then \<exists>t. bnd (mmap push_arg xs) (\<lambda>_. mmap (\<lambda>_. pop_arg) (rev xs)) s = Inr (rev xs, t) \<and>
      arg_stk t = arg_stk s
    else \<exists>e. mmap push_arg xs s = Inl e"
  using args.block_round_trip [of s xs] args.block_overflow [OF assms, of xs] by simp

lemma arguments_round_trip_witness:
  "\<exists>t. bnd (mmap push_arg [1, 2]) (\<lambda>_. mmap (\<lambda>_. pop_arg) [2, 1]) rt_start = Inr ([2, 1], t)"
  using arguments_round_trip [of rt_start "[1, 2]"]
  by (auto simp: rt_start_def rt_zero_def ARG_STACK_LEN_def)

end
