(* ===== verification/Floats.thy ===== *)
theory Floats
  imports Prelude Complex_Main
begin

text \<open>
  The C types \<open>double\<close> and \<open>float\<close> as the source uses them: bit patterns of the IEEE
  binary64 and binary32 formats, with round-to-nearest-even arithmetic. A pattern is decoded
  to a sign, a natural significand and an exponent; an operation computes the exact result
  and rounds it once. NaN results follow the x86-64 instructions the build targets: an
  invalid operation gives the default NaN, an operation on a NaN gives the first NaN operand
  made quiet.
\<close>

section \<open>Decoding and rounding\<close>

datatype fp =
    NaN
  | Infty bool           \<comment> \<open>sign\<close>
  | Fin bool nat int     \<comment> \<open>sign, significand, exponent\<close>

text \<open>\<open>f\<close> fraction bits and \<open>w\<close> exponent bits: (52, 11) and (23, 8).\<close>

definition fp_emin :: "nat \<Rightarrow> nat \<Rightarrow> int" where
  "fp_emin f w = 2 - 2 ^ (w - 1) - int f"

definition fp_decode :: "nat \<Rightarrow> nat \<Rightarrow> nat \<Rightarrow> fp" where
  "fp_decode f w n =
     (let fr = n mod 2 ^ f;
          ex = (n div 2 ^ f) mod 2 ^ w;
          sg = odd (n div 2 ^ (f + w))
      in if ex = 2 ^ w - 1 then (if fr = 0 then Infty sg else NaN)
         else if ex = 0 then Fin sg fr (fp_emin f w)
         else Fin sg (2 ^ f + fr) (fp_emin f w + int ex - 1))"

fun bitlen :: "nat \<Rightarrow> nat" where
  "bitlen n = (if n = 0 then 0 else Suc (bitlen (n div 2)))"

declare bitlen.simps [simp del]

text \<open>\<open>m / 2^d\<close> rounded to the nearest integer, ties to even.\<close>

definition rne :: "nat \<Rightarrow> nat \<Rightarrow> nat" where
  "rne m d =
     (let q = m div 2 ^ d; r = m mod 2 ^ d
      in if 2 * r > 2 ^ d \<or> (2 * r = 2 ^ d \<and> odd q) then q + 1 else q)"

definition fp_round :: "nat \<Rightarrow> nat \<Rightarrow> bool \<Rightarrow> nat \<Rightarrow> int \<Rightarrow> nat" where
  "fp_round f w sg m e =
     (let sb = (if sg then 2 ^ (f + w) else 0) in
      if m = 0 then sb
      else
        let e' = max (e + int (bitlen m) - int f - 1) (fp_emin f w);
            q = (if e' \<le> e then m * 2 ^ nat (e - e') else rne m (nat (e' - e)));
            bits = (if q < 2 ^ f then q
                    else nat (e' - fp_emin f w + 1) * 2 ^ f + (q - 2 ^ f))
        in sb + min bits ((2 ^ w - 1) * 2 ^ f))"

section \<open>Doubles\<close>

definition f64_decode :: "64 word \<Rightarrow> fp" where
  "f64_decode x = fp_decode 52 11 (unat x)"

definition f64_pack :: "bool \<Rightarrow> nat \<Rightarrow> int \<Rightarrow> 64 word" where
  "f64_pack sg m e = of_nat (fp_round 52 11 sg m e)"

definition f64_inf :: "bool \<Rightarrow> 64 word" where
  "f64_inf sg = (if sg then 0xfff0000000000000 else 0x7ff0000000000000)"

definition f64_default_nan :: "64 word" where
  "f64_default_nan = 0xfff8000000000000"

definition f64_quiet :: "64 word \<Rightarrow> 64 word" where
  "f64_quiet x = x OR 0x0008000000000000"

definition signed_nat :: "bool \<Rightarrow> nat \<Rightarrow> int" where
  "signed_nat sg m = (if sg then - int m else int m)"

text \<open>The conversion of an integer, rounding where 53 bits do not hold it.\<close>

definition f64_of_int :: "int \<Rightarrow> 64 word" where
  "f64_of_int i = f64_pack (i < 0) (nat \<bar>i\<bar>) 0"

definition fp_sum :: "bool \<Rightarrow> nat \<Rightarrow> int \<Rightarrow> bool \<Rightarrow> nat \<Rightarrow> int \<Rightarrow> 64 word" where
  "fp_sum s1 m1 e1 s2 m2 e2 =
     (let k = min e1 e2;
          v = signed_nat s1 (m1 * 2 ^ nat (e1 - k)) + signed_nat s2 (m2 * 2 ^ nat (e2 - k))
      in if v = 0 then f64_pack (s1 \<and> s2 \<and> m1 = 0 \<and> m2 = 0) 0 0
         else f64_pack (v < 0) (nat \<bar>v\<bar>) k)"

definition f64_add :: "64 word \<Rightarrow> 64 word \<Rightarrow> 64 word" where
  "f64_add x y =
     (case f64_decode x of
        NaN \<Rightarrow> f64_quiet x
      | Infty s1 \<Rightarrow>
          (case f64_decode y of
             NaN \<Rightarrow> f64_quiet y
           | Infty s2 \<Rightarrow> if s1 = s2 then f64_inf s1 else f64_default_nan
           | Fin _ _ _ \<Rightarrow> f64_inf s1)
      | Fin s1 m1 e1 \<Rightarrow>
          (case f64_decode y of
             NaN \<Rightarrow> f64_quiet y
           | Infty s2 \<Rightarrow> f64_inf s2
           | Fin s2 m2 e2 \<Rightarrow> fp_sum s1 m1 e1 s2 m2 e2))"

definition f64_sub :: "64 word \<Rightarrow> 64 word \<Rightarrow> 64 word" where
  "f64_sub x y =
     (case f64_decode x of
        NaN \<Rightarrow> f64_quiet x
      | Infty s1 \<Rightarrow>
          (case f64_decode y of
             NaN \<Rightarrow> f64_quiet y
           | Infty s2 \<Rightarrow> if s1 \<noteq> s2 then f64_inf s1 else f64_default_nan
           | Fin _ _ _ \<Rightarrow> f64_inf s1)
      | Fin s1 m1 e1 \<Rightarrow>
          (case f64_decode y of
             NaN \<Rightarrow> f64_quiet y
           | Infty s2 \<Rightarrow> f64_inf (\<not> s2)
           | Fin s2 m2 e2 \<Rightarrow> fp_sum s1 m1 e1 (\<not> s2) m2 e2))"

definition f64_mul :: "64 word \<Rightarrow> 64 word \<Rightarrow> 64 word" where
  "f64_mul x y =
     (case f64_decode x of
        NaN \<Rightarrow> f64_quiet x
      | Infty s1 \<Rightarrow>
          (case f64_decode y of
             NaN \<Rightarrow> f64_quiet y
           | Infty s2 \<Rightarrow> f64_inf (s1 \<noteq> s2)
           | Fin s2 m2 _ \<Rightarrow> if m2 = 0 then f64_default_nan else f64_inf (s1 \<noteq> s2))
      | Fin s1 m1 e1 \<Rightarrow>
          (case f64_decode y of
             NaN \<Rightarrow> f64_quiet y
           | Infty s2 \<Rightarrow> if m1 = 0 then f64_default_nan else f64_inf (s1 \<noteq> s2)
           | Fin s2 m2 e2 \<Rightarrow> f64_pack (s1 \<noteq> s2) (m1 * m2) (e1 + e2)))"

text \<open>
  A quotient is taken to \<open>55\<close> bits and more, with the remainder kept as a last sticky bit,
  before it is rounded.
\<close>

definition fp_quot :: "bool \<Rightarrow> nat \<Rightarrow> int \<Rightarrow> nat \<Rightarrow> int \<Rightarrow> 64 word" where
  "fp_quot sg m1 e1 m2 e2 =
     (let k = 55 + bitlen m2;
          q = (m1 * 2 ^ k) div m2;
          r = (m1 * 2 ^ k) mod m2
      in f64_pack sg (2 * q + (if r = 0 then 0 else 1)) (e1 - e2 - int k - 1))"

definition f64_div :: "64 word \<Rightarrow> 64 word \<Rightarrow> 64 word" where
  "f64_div x y =
     (case f64_decode x of
        NaN \<Rightarrow> f64_quiet x
      | Infty s1 \<Rightarrow>
          (case f64_decode y of
             NaN \<Rightarrow> f64_quiet y
           | Infty s2 \<Rightarrow> f64_default_nan
           | Fin s2 _ _ \<Rightarrow> f64_inf (s1 \<noteq> s2))
      | Fin s1 m1 e1 \<Rightarrow>
          (case f64_decode y of
             NaN \<Rightarrow> f64_quiet y
           | Infty s2 \<Rightarrow> f64_pack (s1 \<noteq> s2) 0 0
           | Fin s2 m2 e2 \<Rightarrow>
               if m2 = 0 then (if m1 = 0 then f64_default_nan else f64_inf (s1 \<noteq> s2))
               else fp_quot (s1 \<noteq> s2) m1 e1 m2 e2))"

text \<open>Comparisons; every one of them is false on a NaN.\<close>

definition fin_lt :: "bool \<Rightarrow> nat \<Rightarrow> int \<Rightarrow> bool \<Rightarrow> nat \<Rightarrow> int \<Rightarrow> bool" where
  "fin_lt s1 m1 e1 s2 m2 e2 =
     (let k = min e1 e2
      in signed_nat s1 (m1 * 2 ^ nat (e1 - k)) < signed_nat s2 (m2 * 2 ^ nat (e2 - k)))"

definition fin_eq :: "bool \<Rightarrow> nat \<Rightarrow> int \<Rightarrow> bool \<Rightarrow> nat \<Rightarrow> int \<Rightarrow> bool" where
  "fin_eq s1 m1 e1 s2 m2 e2 =
     (let k = min e1 e2
      in signed_nat s1 (m1 * 2 ^ nat (e1 - k)) = signed_nat s2 (m2 * 2 ^ nat (e2 - k)))"

definition f64_lt :: "64 word \<Rightarrow> 64 word \<Rightarrow> bool" where
  "f64_lt x y =
     (case (f64_decode x, f64_decode y) of
        (Fin s1 m1 e1, Fin s2 m2 e2) \<Rightarrow> fin_lt s1 m1 e1 s2 m2 e2
      | (Infty s1, Infty s2) \<Rightarrow> s1 \<and> \<not> s2
      | (Infty s1, Fin _ _ _) \<Rightarrow> s1
      | (Fin _ _ _, Infty s2) \<Rightarrow> \<not> s2
      | _ \<Rightarrow> False)"

definition f64_eq :: "64 word \<Rightarrow> 64 word \<Rightarrow> bool" where
  "f64_eq x y =
     (case (f64_decode x, f64_decode y) of
        (Fin s1 m1 e1, Fin s2 m2 e2) \<Rightarrow> fin_eq s1 m1 e1 s2 m2 e2
      | (Infty s1, Infty s2) \<Rightarrow> s1 = s2
      | _ \<Rightarrow> False)"

definition f64_le :: "64 word \<Rightarrow> 64 word \<Rightarrow> bool" where
  "f64_le x y \<longleftrightarrow> f64_lt x y \<or> f64_eq x y"

text \<open>The narrowing conversion to \<open>float\<close> and back.\<close>

definition f32_of_f64 :: "64 word \<Rightarrow> 32 word" where
  "f32_of_f64 x =
     (case f64_decode x of
        NaN \<Rightarrow> (if bit x 63 then 0x80000000 else 0) OR 0x7fc00000
                 OR ucast (drop_bit 29 (take_bit 52 x))
      | Infty sg \<Rightarrow> (if sg then 0xff800000 else 0x7f800000)
      | Fin sg m e \<Rightarrow> of_nat (fp_round 23 8 sg m e))"

definition f64_of_f32 :: "32 word \<Rightarrow> 64 word" where
  "f64_of_f32 x =
     (case fp_decode 23 8 (unat x) of
        NaN \<Rightarrow> (if bit x 31 then 0x8000000000000000 else 0) OR 0x7ff8000000000000
                 OR push_bit 29 (ucast (take_bit 23 x))
      | Infty sg \<Rightarrow> f64_inf sg
      | Fin sg m e \<Rightarrow> f64_pack sg m e)"

section \<open>Rounding depends on the value only, and is exact where the format allows\<close>

lemma bitlen_0 [simp]: "bitlen 0 = 0"
  by (simp add: bitlen.simps)

lemma bitlen_pos: "0 < n \<Longrightarrow> bitlen n = Suc (bitlen (n div 2))"
  by (simp add: bitlen.simps)

lemma bitlen_bounds: "0 < n \<Longrightarrow> 2 ^ (bitlen n - 1) \<le> n \<and> n < 2 ^ bitlen n"
proof (induction n rule: bitlen.induct)
  case (1 n)
  show ?case
  proof (cases "n div 2 = 0")
    case True
    with "1.prems" have "n = 1" by simp
    then show ?thesis by (simp add: bitlen_pos)
  next
    case False
    let ?b = "bitlen (n div 2)"
    have ih: "2 ^ (?b - 1) \<le> n div 2" "n div 2 < 2 ^ ?b"
      using 1 False by simp_all
    have "0 < ?b"
      using False by (simp add: bitlen_pos)
    then have "(2 :: nat) ^ ?b = 2 * 2 ^ (?b - 1)"
      by (cases ?b) simp_all
    then have "2 ^ ?b \<le> n" "n < 2 * 2 ^ ?b"
      using ih by linarith+
    then show ?thesis
      using "1.prems" by (simp add: bitlen_pos)
  qed
qed

lemma bitlen_le_iff: "0 < n \<Longrightarrow> bitlen n \<le> k \<longleftrightarrow> n < 2 ^ k"
proof
  assume n: "0 < n"
  show "n < 2 ^ k" if "bitlen n \<le> k"
    using bitlen_bounds [OF n] that by (meson less_le_trans one_le_numeral power_increasing)
  show "bitlen n \<le> k" if "n < 2 ^ k"
  proof (rule ccontr)
    assume "\<not> bitlen n \<le> k"
    then have "(2 :: nat) ^ k \<le> 2 ^ (bitlen n - 1)"
      by (intro power_increasing) simp_all
    with bitlen_bounds [OF n] that show False by linarith
  qed
qed

lemma bitlen_mult_pow: "0 < n \<Longrightarrow> bitlen (n * 2 ^ k) = bitlen n + k"
proof (induction k)
  case (Suc k)
  have "bitlen (n * 2 ^ Suc k) = Suc (bitlen (n * 2 ^ Suc k div 2))"
    using Suc.prems by (intro bitlen_pos) simp
  also have "n * 2 ^ Suc k div 2 = n * 2 ^ k"
    by simp
  finally show ?case using Suc by simp
qed simp

lemma rne_shift: "rne (m * 2 ^ k) (d + k) = rne m d"
proof -
  have q: "m * 2 ^ k div 2 ^ (d + k) = m div 2 ^ d"
    by (simp add: power_add)
  have r: "m * 2 ^ k mod 2 ^ (d + k) = (m mod 2 ^ d) * 2 ^ k"
    by (simp add: power_add mult_mod_left)
  have "2 * ((m mod 2 ^ d) * 2 ^ k) > (2 :: nat) ^ (d + k) \<longleftrightarrow> 2 * (m mod 2 ^ d) > 2 ^ d"
    and "2 * ((m mod 2 ^ d) * 2 ^ k) = (2 :: nat) ^ (d + k) \<longleftrightarrow> 2 * (m mod 2 ^ d) = 2 ^ d"
    by (simp_all add: power_add flip: mult.assoc)
  then show ?thesis
    unfolding rne_def q r Let_def by simp
qed

lemma rne_exact: "rne (m * 2 ^ d) d = m"
  by (simp add: rne_def)

lemma round_quotient_shift:
  fixes E e :: int
  shows "(if E \<le> e then m * 2 ^ k * 2 ^ nat (e - E) else rne (m * 2 ^ k) (nat (E - e)))
       = (if E \<le> e + int k then m * 2 ^ nat (e + int k - E) else rne m (nat (E - (e + int k))))"
proof (cases "E \<le> e")
  case True
  then have "nat (e + int k - E) = k + nat (e - E)" by linarith
  with True show ?thesis by (simp add: power_add)
next
  case le: False
  show ?thesis
  proof (cases "E \<le> e + int k")
    case True
    define d where "d = nat (E - e)"
    have d: "E = e + int d" "d \<le> k"
      using le True by (simp_all add: d_def)
    have "rne (m * 2 ^ k) d = m * 2 ^ (k - d)"
      using rne_exact [of "m * 2 ^ (k - d)" d] d(2)
      by (simp add: mult.assoc flip: power_add)
    moreover have "nat (e + int k - E) = k - d"
      using d by simp
    ultimately show ?thesis
      using le True by (simp add: d_def)
  next
    case False
    then have "nat (E - e) = nat (E - (e + int k)) + k" by linarith
    with le False show ?thesis by (simp add: rne_shift)
  qed
qed

text \<open>The same value written with a smaller exponent rounds to the same pattern.\<close>

lemma fp_round_shift: "fp_round f w sg (m * 2 ^ k) e = fp_round f w sg m (e + int k)"
proof (cases "m = 0")
  case False
  let ?E = "max (e + int (bitlen m) + int k - int f - 1) (fp_emin f w)"
  have len: "bitlen (m * 2 ^ k) = bitlen m + k"
    using False by (simp add: bitlen_mult_pow)
  have eq: "e + int (bitlen m + k) - int f - 1 = e + int (bitlen m) + int k - int f - 1"
    "e + int k + int (bitlen m) - int f - 1 = e + int (bitlen m) + int k - int f - 1"
    by simp_all
  show ?thesis
    unfolding fp_round_def Let_def len eq round_quotient_shift using False by simp
qed (simp add: fp_round_def)

lemma f64_pack_shift: "f64_pack sg (m * 2 ^ k) e = f64_pack sg m (e + int k)"
  by (simp add: f64_pack_def fp_round_shift)

text \<open>Decoding a pattern given by its fields.\<close>

lemma fp_decode_fields:
  assumes "ex < 2 ^ w" and "fr < 2 ^ f"
  shows "fp_decode f w ((if sg then 2 ^ (f + w) else 0) + (ex * 2 ^ f + fr)) =
     (if ex = 2 ^ w - 1 then (if fr = 0 then Infty sg else NaN)
      else if ex = 0 then Fin sg fr (fp_emin f w)
      else Fin sg (2 ^ f + fr) (fp_emin f w + int ex - 1))"
proof -
  let ?s = "if sg then 2 ^ w else (0 :: nat)"
  let ?n = "(if sg then 2 ^ (f + w) else 0) + (ex * 2 ^ f + fr)"
  have n: "?n = (?s + ex) * 2 ^ f + fr"
    by (simp add: power_add algebra_simps)
  have fr: "?n mod 2 ^ f = fr" and high: "?n div 2 ^ f = ?s + ex"
    unfolding n using assms(2) by simp_all
  have ex: "(?s + ex) mod 2 ^ w = ex"
    using assms(1) by simp
  have "?n div 2 ^ (f + w) = ?n div 2 ^ f div 2 ^ w"
    by (subst div_mult2_eq [symmetric]) (simp only: power_add)
  also have "\<dots> = (?s + ex) div 2 ^ w"
    by (simp only: high)
  also have "\<dots> = (if sg then 1 else 0)"
    using assms(1) by simp
  finally have sg: "odd (?n div 2 ^ (f + w)) = sg"
    by simp
  show ?thesis
    unfolding fp_decode_def Let_def fr high ex sg ..
qed

text \<open>An integer of at most 53 bits is held exactly.\<close>

lemma decode_of_int:
  assumes "\<bar>i\<bar> < 2 ^ 53"
  shows "\<exists>j. f64_decode (f64_of_int i) = Fin (i < 0) (nat \<bar>i\<bar> * 2 ^ j) (- int j)"
proof (cases "i = 0")
  case True
  have "f64_decode (f64_of_int 0) = Fin False 0 (- int 1074)"
    by (simp add: f64_decode_def f64_of_int_def f64_pack_def fp_round_def fp_decode_def fp_emin_def)
  with True show ?thesis by (intro exI [of _ 1074]) simp
next
  case False
  define m where "m = nat \<bar>i\<bar>"
  define l where "l = bitlen m"
  define q where "q = m * 2 ^ (53 - l)"
  have m: "0 < m" "m < 2 ^ 53"
    using False assms by (simp_all add: m_def nat_less_iff)
  have l: "l \<le> 53" "0 < l"
    using m bitlen_le_iff [OF m(1), of 53] by (simp_all add: l_def bitlen_pos)
  have "2 ^ (l - 1) * 2 ^ (53 - l) \<le> q" "q < 2 ^ l * 2 ^ (53 - l)"
    using bitlen_bounds [OF m(1)] by (simp_all add: q_def l_def)
  moreover have "(2 :: nat) ^ (l - 1) * 2 ^ (53 - l) = 2 ^ 52" "(2 :: nat) ^ l * 2 ^ (53 - l) = 2 ^ 53"
    using l by (simp_all flip: power_add)
  ultimately have q: "2 ^ 52 \<le> q" "q < 2 ^ 53" by simp_all
  let ?N = "(if i < 0 then 2 ^ (52 + 11) else 0) + ((l + 1022) * 2 ^ 52 + (q - 2 ^ 52))"
  have emin: "fp_emin 52 11 = -1074"
    by (simp add: fp_emin_def)
  have e': "max (0 + int l - int 52 - 1) (- 1074) = int l - 53"
    by simp
  have bits: "nat (int l - 53 - - 1074 + 1) = l + 1022" "nat (0 - (int l - 53)) = 53 - l"
    using l by simp_all
  have "(l + 1022) * 2 ^ 52 + (q - 2 ^ 52) < (2 ^ 11 - 1) * 2 ^ 52"
    using l q by simp
  then have round: "fp_round 52 11 (i < 0) m 0 = ?N"
    using m(1) l q unfolding fp_round_def Let_def emin l_def [symmetric] e' bits q_def [symmetric]
    by simp
  have "?N < 2 ^ 64"
    using l q by simp
  then have "unat (f64_of_int i) = ?N"
    unfolding f64_of_int_def f64_pack_def m_def [symmetric] round
    by (intro unat_of_nat_lt) simp
  then have "f64_decode (f64_of_int i) = fp_decode 52 11 ?N"
    by (simp only: f64_decode_def)
  also have "\<dots> = Fin (i < 0) (2 ^ 52 + (q - 2 ^ 52)) (fp_emin 52 11 + int (l + 1022) - 1)"
    using l q by (subst fp_decode_fields) simp_all
  also have "\<dots> = Fin (i < 0) (m * 2 ^ (53 - l)) (- int (53 - l))"
    using l q by (simp add: emin q_def)
  finally show ?thesis
    unfolding m_def by blast
qed

lemma signed_nat_abs: "signed_nat (i < 0) (nat \<bar>i\<bar> * c) = i * int c"
  by (simp add: signed_nat_def)

text \<open>Arithmetic on integers that both fit is integer arithmetic, rounded once.\<close>

lemma fp_sum_of_int:
  "fp_sum (i < 0) (nat \<bar>i\<bar> * 2 ^ a) (- int a) (j < 0) (nat \<bar>j\<bar> * 2 ^ b) (- int b)
     = f64_of_int (i + j)"
proof -
  define c where "c = max a b"
  have k: "min (- int a) (- int b) = - int c"
    by (simp add: c_def)
  have sa: "nat \<bar>i\<bar> * 2 ^ a * 2 ^ nat (- int a - - int c) = nat \<bar>i\<bar> * 2 ^ c"
    and sb: "nat \<bar>j\<bar> * 2 ^ b * 2 ^ nat (- int b - - int c) = nat \<bar>j\<bar> * 2 ^ c"
    by (simp_all add: c_def mult.assoc nat_diff_distrib flip: power_add)
  have v: "i * int (2 ^ c) + j * int (2 ^ c) = (i + j) * 2 ^ c"
    by (simp add: algebra_simps)
  have n: "nat \<bar>(i + j) * 2 ^ c\<bar> = nat \<bar>i + j\<bar> * 2 ^ c"
    by (simp add: abs_mult nat_mult_distrib nat_power_eq)
  have neg: "(i + j) * 2 ^ c < 0 \<longleftrightarrow> i + j < 0" and zero: "(i + j) * 2 ^ c = 0 \<longleftrightarrow> i + j = 0"
    by (simp_all add: mult_less_0_iff)
  have sign: "(i < 0 \<and> j < 0 \<and> nat \<bar>i\<bar> * 2 ^ a = 0 \<and> nat \<bar>j\<bar> * 2 ^ b = 0) = False"
    by auto
  show ?thesis
    unfolding fp_sum_def Let_def k sa sb signed_nat_abs v n neg zero sign
    by (simp add: f64_pack_shift f64_of_int_def)
qed

lemma f64_add_of_int:
  "\<bar>i\<bar> < 2 ^ 53 \<Longrightarrow> \<bar>j\<bar> < 2 ^ 53 \<Longrightarrow> f64_add (f64_of_int i) (f64_of_int j) = f64_of_int (i + j)"
  using decode_of_int [of i] decode_of_int [of j] by (auto simp: f64_add_def fp_sum_of_int)

lemma f64_lt_of_int:
  assumes "\<bar>i\<bar> < 2 ^ 53" and "\<bar>j\<bar> < 2 ^ 53"
  shows "f64_lt (f64_of_int i) (f64_of_int j) \<longleftrightarrow> i < j"
    and "f64_eq (f64_of_int i) (f64_of_int j) \<longleftrightarrow> i = j"
proof -
  obtain a b where a: "f64_decode (f64_of_int i) = Fin (i < 0) (nat \<bar>i\<bar> * 2 ^ a) (- int a)"
    and b: "f64_decode (f64_of_int j) = Fin (j < 0) (nat \<bar>j\<bar> * 2 ^ b) (- int b)"
    using decode_of_int [OF assms(1)] decode_of_int [OF assms(2)] by blast
  define c where "c = max a b"
  have k: "min (- int a) (- int b) = - int c"
    by (simp add: c_def)
  have sa: "nat \<bar>i\<bar> * 2 ^ a * 2 ^ nat (- int a - - int c) = nat \<bar>i\<bar> * 2 ^ c"
    and sb: "nat \<bar>j\<bar> * 2 ^ b * 2 ^ nat (- int b - - int c) = nat \<bar>j\<bar> * 2 ^ c"
    by (simp_all add: c_def mult.assoc nat_diff_distrib flip: power_add)
  show "f64_lt (f64_of_int i) (f64_of_int j) \<longleftrightarrow> i < j"
    unfolding f64_lt_def a b by (simp only: fin_lt_def Let_def fp.case prod.case k sa sb signed_nat_abs) simp
  show "f64_eq (f64_of_int i) (f64_of_int j) \<longleftrightarrow> i = j"
    unfolding f64_eq_def a b by (simp only: fin_eq_def Let_def fp.case prod.case k sa sb signed_nat_abs) simp
qed

end
