(* ===== verification/Scm_Arith.thy ===== *)
theory Scm_Arith
  imports Scm_Stack Floats
begin

text \<open>
  Generic arithmetic of scheme/scm_runtime.c: the helpers on a C number and a value
  (\<open>addix\<close>, \<open>addfx\<close>, ...), their dispatch on two values (\<open>addxx\<close>, ...), the variadic
  primitives that take their operands from the argument stack, and the comparison chains.
  An \<open>i64\<close> operand is an \<open>int\<close>: every one of them comes from a 32-bit payload, so no sum,
  difference or product of two leaves the 64 bits.
\<close>

section \<open>Two operands\<close>

definition int_of :: "scm_value \<Rightarrow> int" where
  "int_of v = sint (GET_INTEGRAL v)"

definition f64_of_i32 :: "scm_value \<Rightarrow> u64" where
  "f64_of_i32 v = f64_of_int (int_of v)"

definition addfx :: "u64 \<Rightarrow> scm_value \<Rightarrow> scm_value result" where
  "addfx x y =
     (if INTEGER_P y then Inr (make_float (f64_add x (f64_of_i32 y)))
      else if FLOAT_P y then Inr (make_float (f64_add x (get_float y)))
      else Inl (Assert ''Type error''))"

definition addix :: "int \<Rightarrow> scm_value \<Rightarrow> scm_value result" where
  "addix x y =
     (if INTEGER_P y then
        (let n = x + int_of y
         in rbind (rcheck (n \<le> INT32_MAX) ''Integer overflow'') (\<lambda>_.
            rbind (rcheck (n \<ge> INT32_MIN) ''Integer underflow'') (\<lambda>_.
            make_int n)))
      else if FLOAT_P y then Inr (make_float (f64_add (f64_of_int x) (get_float y)))
      else Inl (Assert ''Type error''))"

definition addxx :: "scm_value \<Rightarrow> scm_value \<Rightarrow> scm_value result" where
  "addxx x y =
     (if INTEGER_P x then addix (int_of x) y
      else if FLOAT_P x then addfx (get_float x) y
      else Inl (Assert ''Type error''))"

definition subfx :: "u64 \<Rightarrow> scm_value \<Rightarrow> scm_value result" where
  "subfx x y =
     (if INTEGER_P y then Inr (make_float (f64_sub x (f64_of_i32 y)))
      else if FLOAT_P y then Inr (make_float (f64_sub x (get_float y)))
      else Inl (Assert ''Type error''))"

definition subix :: "int \<Rightarrow> scm_value \<Rightarrow> scm_value result" where
  "subix x y =
     (if INTEGER_P y then
        (let n = x - int_of y
         in rbind (rcheck (n \<le> INT32_MAX) ''Integer overflow'') (\<lambda>_.
            rbind (rcheck (n \<ge> INT32_MIN) ''Integer underflow'') (\<lambda>_.
            make_int n)))
      else if FLOAT_P y then Inr (make_float (f64_sub (f64_of_int x) (get_float y)))
      else Inl (Assert ''Type error''))"

definition subxx :: "scm_value \<Rightarrow> scm_value \<Rightarrow> scm_value result" where
  "subxx x y =
     (if INTEGER_P x then subix (int_of x) y
      else if FLOAT_P x then subfx (get_float x) y
      else Inl (Assert ''Type error''))"

definition mulfx :: "u64 \<Rightarrow> scm_value \<Rightarrow> scm_value result" where
  "mulfx x y =
     (if INTEGER_P y then Inr (make_float (f64_mul x (f64_of_i32 y)))
      else if FLOAT_P y then Inr (make_float (f64_mul x (get_float y)))
      else Inl (Assert ''Type error''))"

definition mulix :: "int \<Rightarrow> scm_value \<Rightarrow> scm_value result" where
  "mulix x y =
     (if INTEGER_P y then
        (let n = x * int_of y
         in rbind (rcheck (n \<le> INT32_MAX) ''Integer overflow'') (\<lambda>_.
            rbind (rcheck (n \<ge> INT32_MIN) ''Integer underflow'') (\<lambda>_.
            make_int n)))
      else if FLOAT_P y then Inr (make_float (f64_mul (f64_of_int x) (get_float y)))
      else Inl (Assert ''Type error''))"

definition mulxx :: "scm_value \<Rightarrow> scm_value \<Rightarrow> scm_value result" where
  "mulxx x y =
     (if INTEGER_P x then mulix (int_of x) y
      else if FLOAT_P x then mulfx (get_float x) y
      else Inl (Assert ''Type error''))"

definition divfx :: "u64 \<Rightarrow> scm_value \<Rightarrow> scm_value result" where
  "divfx x y =
     (if INTEGER_P y then Inr (make_float (f64_div x (f64_of_i32 y)))
      else if FLOAT_P y then Inr (make_float (f64_div x (get_float y)))
      else Inl (Assert ''Type error''))"

definition divix :: "int \<Rightarrow> scm_value \<Rightarrow> scm_value result" where
  "divix x y =
     (if INTEGER_P y then Inr (make_float (f64_div (f64_of_int x) (f64_of_i32 y)))
      else if FLOAT_P y then Inr (make_float (f64_div (f64_of_int x) (get_float y)))
      else Inl (Assert ''Type error''))"

definition divxx :: "scm_value \<Rightarrow> scm_value \<Rightarrow> scm_value result" where
  "divxx x y =
     (if INTEGER_P x then divix (int_of x) y
      else if FLOAT_P x then divfx (get_float x) y
      else Inl (Assert ''Type error''))"

definition lessfx :: "u64 \<Rightarrow> scm_value \<Rightarrow> bool result" where
  "lessfx x y =
     (if INTEGER_P y then Inr (f64_lt x (f64_of_i32 y))
      else if FLOAT_P y then Inr (f64_lt x (get_float y))
      else Inl (Assert ''Type error''))"

definition lessix :: "int \<Rightarrow> scm_value \<Rightarrow> bool result" where
  "lessix x y =
     (if INTEGER_P y then Inr (x < int_of y)
      else if FLOAT_P y then Inr (f64_lt (f64_of_int x) (get_float y))
      else Inl (Assert ''Type error''))"

definition lessxx :: "scm_value \<Rightarrow> scm_value \<Rightarrow> bool result" where
  "lessxx x y =
     (if INTEGER_P x then lessix (int_of x) y
      else if FLOAT_P x then lessfx (get_float x) y
      else Inl (Assert ''Type error''))"

definition grfx :: "u64 \<Rightarrow> scm_value \<Rightarrow> bool result" where
  "grfx x y =
     (if INTEGER_P y then Inr (f64_lt (f64_of_i32 y) x)
      else if FLOAT_P y then Inr (f64_lt (get_float y) x)
      else Inl (Assert ''Type error''))"

definition grix :: "int \<Rightarrow> scm_value \<Rightarrow> bool result" where
  "grix x y =
     (if INTEGER_P y then Inr (x > int_of y)
      else if FLOAT_P y then Inr (f64_lt (get_float y) (f64_of_int x))
      else Inl (Assert ''Type error''))"

definition grxx :: "scm_value \<Rightarrow> scm_value \<Rightarrow> bool result" where
  "grxx x y =
     (if INTEGER_P x then grix (int_of x) y
      else if FLOAT_P x then grfx (get_float x) y
      else Inl (Assert ''Type error''))"

definition leqfx :: "u64 \<Rightarrow> scm_value \<Rightarrow> bool result" where
  "leqfx x y =
     (if INTEGER_P y then Inr (f64_le x (f64_of_i32 y))
      else if FLOAT_P y then Inr (f64_le x (get_float y))
      else Inl (Assert ''Type error''))"

definition leqix :: "int \<Rightarrow> scm_value \<Rightarrow> bool result" where
  "leqix x y =
     (if INTEGER_P y then Inr (x \<le> int_of y)
      else if FLOAT_P y then Inr (f64_le (f64_of_int x) (get_float y))
      else Inl (Assert ''Type error''))"

definition leqxx :: "scm_value \<Rightarrow> scm_value \<Rightarrow> bool result" where
  "leqxx x y =
     (if INTEGER_P x then leqix (int_of x) y
      else if FLOAT_P x then leqfx (get_float x) y
      else Inl (Assert ''Type error''))"

definition geqfx :: "u64 \<Rightarrow> scm_value \<Rightarrow> bool result" where
  "geqfx x y =
     (if INTEGER_P y then Inr (f64_le (f64_of_i32 y) x)
      else if FLOAT_P y then Inr (f64_le (get_float y) x)
      else Inl (Assert ''Type error''))"

definition geqix :: "int \<Rightarrow> scm_value \<Rightarrow> bool result" where
  "geqix x y =
     (if INTEGER_P y then Inr (x \<ge> int_of y)
      else if FLOAT_P y then Inr (f64_le (get_float y) (f64_of_int x))
      else Inl (Assert ''Type error''))"

definition geqxx :: "scm_value \<Rightarrow> scm_value \<Rightarrow> bool result" where
  "geqxx x y =
     (if INTEGER_P x then geqix (int_of x) y
      else if FLOAT_P x then geqfx (get_float x) y
      else Inl (Assert ''Type error''))"

definition num_eqfx :: "u64 \<Rightarrow> scm_value \<Rightarrow> bool result" where
  "num_eqfx x y =
     (if INTEGER_P y then Inr (f64_eq x (f64_of_i32 y))
      else if FLOAT_P y then Inr (f64_eq x (get_float y))
      else Inl (Assert ''Type error''))"

definition num_eqix :: "int \<Rightarrow> scm_value \<Rightarrow> bool result" where
  "num_eqix x y =
     (if INTEGER_P y then Inr (x = int_of y)
      else if FLOAT_P y then Inr (f64_eq (f64_of_int x) (get_float y))
      else Inl (Assert ''Type error''))"

definition num_eqxx :: "scm_value \<Rightarrow> scm_value \<Rightarrow> bool result" where
  "num_eqxx x y =
     (if INTEGER_P x then num_eqix (int_of x) y
      else if FLOAT_P x then num_eqfx (get_float x) y
      else Inl (Assert ''Type error''))"

section \<open>Returning to the continuation\<close>

text \<open>
  The shape most primitives share: pop the continuation, run the operation on the arguments
  below it, push the result and continue.
\<close>

definition return_to_k :: "scm_value rt \<Rightarrow> scm_value rt" where
  "return_to_k primop =
     bnd pop_arg (\<lambda>k.
     bnd primop (\<lambda>v.
     bnd (push_arg v) (\<lambda>_.
     tail_call k)))"

section \<open>Any number of operands\<close>

text \<open>The loop \<open>while (arg_stack.top) acc = f (acc, pop_arg ())\<close>.\<close>

fun fold_n :: "(scm_value \<Rightarrow> scm_value \<Rightarrow> scm_value result) \<Rightarrow> nat \<Rightarrow> scm_value \<Rightarrow> scm_value rt" where
  "fold_n f 0 acc = ret acc"
| "fold_n f (Suc n) acc = bnd pop_arg (\<lambda>x. bnd (lift (f acc x)) (\<lambda>acc'. fold_n f n acc'))"

definition fold_args :: "(scm_value \<Rightarrow> scm_value \<Rightarrow> scm_value result) \<Rightarrow> scm_value \<Rightarrow> scm_value rt" where
  "fold_args f acc = bnd arg_top (\<lambda>n. fold_n f n acc)"

text \<open>
  With one operand the source passes the boxed value itself to \<open>make_int\<close>, whose parameter
  is an \<open>i64\<close>.
\<close>

definition primop_add :: "scm_value rt" where
  "primop_add =
     bnd (arity 0 True) (\<lambda>_.
     bnd arg_top (\<lambda>top.
     if top = 0 then lift (make_int 0)
     else if top = 1 then bnd pop_arg (\<lambda>x. lift (make_int (sint x)))
     else if top = 2 then bnd pop_arg (\<lambda>x. bnd pop_arg (\<lambda>y. lift (addxx x y)))
     else bnd pop_arg (\<lambda>sum. fold_args addxx sum)))"

definition primop_mul :: "scm_value rt" where
  "primop_mul =
     bnd (arity 0 True) (\<lambda>_.
     bnd arg_top (\<lambda>top.
     if top = 0 then lift (make_int 1)
     else if top = 1 then bnd pop_arg (\<lambda>x. lift (make_int (sint x)))
     else if top = 2 then bnd pop_arg (\<lambda>x. bnd pop_arg (\<lambda>y. lift (mulxx x y)))
     else bnd pop_arg (\<lambda>total. fold_args mulxx total)))"

definition primop_sub :: "scm_value rt" where
  "primop_sub =
     bnd (arity 1 True) (\<lambda>_.
     bnd arg_top (\<lambda>top.
     if top = 1 then bnd (lift (make_int 0)) (\<lambda>z. bnd pop_arg (\<lambda>x. lift (subxx z x)))
     else if top = 2 then bnd pop_arg (\<lambda>x. bnd pop_arg (\<lambda>y. lift (subxx x y)))
     else bnd pop_arg (\<lambda>fst. bnd primop_add (\<lambda>total. lift (subxx fst total)))))"

definition primop_div :: "scm_value rt" where
  "primop_div =
     bnd (arity 1 True) (\<lambda>_.
     bnd arg_top (\<lambda>top.
     if top = 1 then bnd (lift (make_int 1)) (\<lambda>z. bnd pop_arg (\<lambda>x. lift (divxx z x)))
     else if top = 2 then bnd pop_arg (\<lambda>x. bnd pop_arg (\<lambda>y. lift (divxx x y)))
     else bnd pop_arg (\<lambda>fst. bnd primop_mul (\<lambda>total. lift (divxx fst total)))))"

definition prim_add :: "scm_value \<Rightarrow> scm_value rt" where
  "prim_add self = return_to_k primop_add"

definition prim_sub :: "scm_value \<Rightarrow> scm_value rt" where
  "prim_sub self = return_to_k primop_sub"

definition prim_mul :: "scm_value \<Rightarrow> scm_value rt" where
  "prim_mul self = return_to_k primop_mul"

definition prim_div :: "scm_value \<Rightarrow> scm_value rt" where
  "prim_div self = return_to_k primop_div"

text \<open>\<open>1+\<close> and \<open>1-\<close>: the arity asked for does not count the continuation.\<close>

definition prim_inc :: "scm_value \<Rightarrow> scm_value rt" where
  "prim_inc self =
     bnd (arity 1 False) (\<lambda>_.
     bnd pop_arg (\<lambda>k.
     bnd pop_arg (\<lambda>x.
     bnd (lift (make_int 1)) (\<lambda>one.
     bnd (lift (addxx x one)) (\<lambda>v.
     bnd (push_arg v) (\<lambda>_.
     tail_call k))))))"

definition prim_dec :: "scm_value \<Rightarrow> scm_value rt" where
  "prim_dec self =
     bnd (arity 1 False) (\<lambda>_.
     bnd pop_arg (\<lambda>k.
     bnd pop_arg (\<lambda>x.
     bnd (lift (make_int 1)) (\<lambda>one.
     bnd (lift (subxx x one)) (\<lambda>v.
     bnd (push_arg v) (\<lambda>_.
     tail_call k))))))"

section \<open>Comparison chains\<close>

text \<open>
  \<open>NUMBER_P (pop_arg ())\<close>: the macro names its argument twice, so a value that is not an
  integer makes it pop a second one.
\<close>

definition NUMBER_P_pop :: "bool rt" where
  "NUMBER_P_pop =
     bnd pop_arg (\<lambda>v. if INTEGER_P v then ret True else bnd pop_arg (\<lambda>w. ret (FLOAT_P w)))"

fun drain_numbers :: "nat \<Rightarrow> unit rt" where
  "drain_numbers 0 = ret ()"
| "drain_numbers (Suc n) =
     bnd arg_top (\<lambda>top.
     if top = 0 then ret ()
     else bnd NUMBER_P_pop (\<lambda>p.
          bnd (check p ''type error expected <number>'') (\<lambda>_. drain_numbers n)))"

fun cmp_chain :: "(scm_value \<Rightarrow> scm_value \<Rightarrow> bool result) \<Rightarrow> nat \<Rightarrow> scm_value \<Rightarrow> scm_value rt" where
  "cmp_chain cmp 0 x = ret SCM_TRUE"
| "cmp_chain cmp (Suc n) x =
     bnd pop_arg (\<lambda>y.
     bnd (lift (cmp x y)) (\<lambda>b.
     if \<not> b then ret SCM_FALSE else cmp_chain cmp n y))"

text \<open>The body the five comparison primitives repeat.\<close>

definition primop_compare :: "(scm_value \<Rightarrow> scm_value \<Rightarrow> bool result) \<Rightarrow> scm_value rt" where
  "primop_compare cmp =
     bnd (arity 0 True) (\<lambda>_.
     bnd arg_top (\<lambda>top.
     if top < 2 then bnd (drain_numbers top) (\<lambda>_. ret SCM_TRUE)
     else bnd pop_arg (\<lambda>x. bnd arg_top (\<lambda>n. cmp_chain cmp n x))))"

definition primop_num_eq :: "scm_value rt" where
  "primop_num_eq = primop_compare num_eqxx"

definition prim_num_eq :: "scm_value \<Rightarrow> scm_value rt" where
  "prim_num_eq self = return_to_k primop_num_eq"

definition primop_less :: "scm_value rt" where
  "primop_less = primop_compare lessxx"

definition prim_less :: "scm_value \<Rightarrow> scm_value rt" where
  "prim_less self = return_to_k primop_less"

definition primop_gr :: "scm_value rt" where
  "primop_gr = primop_compare grxx"

definition prim_gr :: "scm_value \<Rightarrow> scm_value rt" where
  "prim_gr self = return_to_k primop_gr"

definition primop_leq :: "scm_value rt" where
  "primop_leq = primop_compare leqxx"

definition prim_leq :: "scm_value \<Rightarrow> scm_value rt" where
  "prim_leq self = return_to_k primop_leq"

definition primop_geq :: "scm_value rt" where
  "primop_geq = primop_compare geqxx"

definition prim_geq :: "scm_value \<Rightarrow> scm_value rt" where
  "prim_geq self = return_to_k primop_geq"

text \<open>The sign predicates return the C truth value itself, not a boxed boolean.\<close>

definition c_int :: "bool \<Rightarrow> scm_value" where
  "c_int b = (if b then 1 else 0)"

definition primop_zero_p :: "scm_value rt" where
  "primop_zero_p =
     bnd (arity 1 False) (\<lambda>_.
     bnd pop_arg (\<lambda>x.
     bnd (lift (make_int 0)) (\<lambda>z.
     bnd (lift (num_eqxx x z)) (\<lambda>b. ret (c_int b)))))"

definition prim_zero_p :: "scm_value \<Rightarrow> scm_value rt" where
  "prim_zero_p self = return_to_k primop_zero_p"

definition primop_positive_p :: "scm_value rt" where
  "primop_positive_p =
     bnd (arity 1 False) (\<lambda>_.
     bnd pop_arg (\<lambda>x.
     bnd (lift (make_int 0)) (\<lambda>z.
     bnd (lift (grxx x z)) (\<lambda>b. ret (c_int b)))))"

definition prim_positive_p :: "scm_value \<Rightarrow> scm_value rt" where
  "prim_positive_p self = return_to_k primop_positive_p"

definition primop_negative_p :: "scm_value rt" where
  "primop_negative_p =
     bnd (arity 1 False) (\<lambda>_.
     bnd pop_arg (\<lambda>x.
     bnd (lift (make_int 0)) (\<lambda>z.
     bnd (lift (lessxx x z)) (\<lambda>b. ret (c_int b)))))"

definition prim_negative_p :: "scm_value \<Rightarrow> scm_value rt" where
  "prim_negative_p self = return_to_k primop_negative_p"

section \<open>Fixnums\<close>

abbreviation boxi :: "int \<Rightarrow> scm_value" where
  "boxi \<equiv> box_i32 tt_int"

lemma INTEGER_P_boxi [simp]: "INTEGER_P (boxi x)"
  by (simp add: INTEGER_P_def)

lemma int_of_boxi [simp]: "is_i32 x \<Longrightarrow> int_of (boxi x) = x"
  by (simp add: int_of_def sint32_of_int)

lemma INTEGER_P_not_FLOAT_P: "INTEGER_P v \<Longrightarrow> \<not> FLOAT_P v"
  using TYPEOF_not_FLOAT_P [of tt_int v] by (simp add: INTEGER_P_def)

lemma xor_eq_0_iff_eq: "x XOR y = 0 \<longleftrightarrow> x = (y :: u64)"
  by (auto simp: bit_eq_iff bit_simps)

lemma FLOAT_P_iff: "FLOAT_P v \<longleftrightarrow> (unat v div 2 ^ 52) mod 2 ^ 11 \<noteq> 2 ^ 11 - 1"
proof -
  have "FLOAT_P v \<longleftrightarrow> drop_bit 52 v AND 0x7ff \<noteq> 0x7ff"
    unfolding FLOAT_P_def by (simp only: xor_eq_0_iff_eq)
  also have "drop_bit 52 v AND 0x7ff = take_bit 11 (drop_bit 52 v)"
    by (simp add: take_bit_eq_mask mask_eq_exp_minus_1)
  also have "\<dots> \<noteq> 0x7ff \<longleftrightarrow> unat (take_bit 11 (drop_bit 52 v)) \<noteq> unat (0x7ff :: u64)"
    by (simp only: word_unat_eq_iff)
  also have "unat (take_bit 11 (drop_bit 52 v)) = (unat v div 2 ^ 52) mod 2 ^ 11"
    by (simp only: unsigned_take_bit_eq unat_drop_bit_eq) (simp only: take_bit_nat_def drop_bit_eq_div)
  finally show ?thesis
    by simp
qed

lemma FLOAT_P_if_finite: "f64_decode v = Fin sg m e \<Longrightarrow> FLOAT_P v"
  by (auto simp: FLOAT_P_iff f64_decode_def fp_decode_def Let_def split: if_splits)

lemma FLOAT_P_of_int: "is_i32 j \<Longrightarrow> FLOAT_P (f64_of_int j)"
proof -
  assume "is_i32 j"
  then have "\<bar>j\<bar> < 2 ^ 53"
    by (auto simp: is_i32_def INT32_MAX_def INT32_MIN_def)
  then obtain a where "f64_decode (f64_of_int j) = Fin (j < 0) (nat \<bar>j\<bar> * 2 ^ a) (- int a)"
    using decode_of_int by blast
  then show ?thesis by (rule FLOAT_P_if_finite)
qed

lemma i32_small: "is_i32 j \<Longrightarrow> \<bar>j\<bar> < 2 ^ 53"
  by (auto simp: is_i32_def INT32_MAX_def INT32_MIN_def)

text \<open>Arithmetic on two fixnums is exact or stops the program.\<close>

definition fix_result :: "int \<Rightarrow> scm_value result" where
  "fix_result n =
     (if n > INT32_MAX then Inl (Assert ''Integer overflow'')
      else if n < INT32_MIN then Inl (Assert ''Integer underflow'')
      else Inr (boxi n))"

lemma fix_result_Inr [simp]: "is_i32 n \<Longrightarrow> fix_result n = Inr (boxi n)"
  by (simp add: fix_result_def is_i32_def)

lemma fix_result_Inl: "\<not> is_i32 n \<Longrightarrow> \<exists>m. fix_result n = Inl (Assert m)"
  by (auto simp: fix_result_def is_i32_def)

lemma fixnum_arith:
  assumes "is_i32 i" and "is_i32 j"
  shows "addxx (boxi i) (boxi j) = fix_result (i + j)"
    and "subxx (boxi i) (boxi j) = fix_result (i - j)"
    and "mulxx (boxi i) (boxi j) = fix_result (i * j)"
  using assms make_int_box
  by (auto simp: addxx_def addix_def subxx_def subix_def mulxx_def mulix_def Let_def
      fix_result_def is_i32_def)

lemma fixnum_compare:
  assumes "is_i32 i" and "is_i32 j"
  shows "lessxx (boxi i) (boxi j) = Inr (i < j)"
    and "grxx (boxi i) (boxi j) = Inr (i > j)"
    and "leqxx (boxi i) (boxi j) = Inr (i \<le> j)"
    and "geqxx (boxi i) (boxi j) = Inr (i \<ge> j)"
    and "num_eqxx (boxi i) (boxi j) = Inr (i = j)"
  using assms
  by (simp_all add: lessxx_def lessix_def grxx_def grix_def leqxx_def leqix_def geqxx_def
      geqix_def num_eqxx_def num_eqix_def)

section \<open>The loops over the operands\<close>

lemma fold_n_eq:
  "arg_stk s = rev xs \<Longrightarrow>
     fold_n f (length xs) acc s =
       (case rfold f acc xs of Inl e \<Rightarrow> Inl e | Inr v \<Rightarrow> Inr (v, s\<lparr>arg_stk := []\<rparr>))"
proof (induction xs arbitrary: acc s)
  case (Cons x xs)
  show ?case
  proof (cases "f acc x")
    case (Inr acc')
    have "fold_n f (length xs) acc' (s\<lparr>arg_stk := rev xs\<rparr>) =
        (case rfold f acc' xs of Inl e \<Rightarrow> Inl e | Inr v \<Rightarrow> Inr (v, s\<lparr>arg_stk := []\<rparr>))"
      using Cons.IH [of "s\<lparr>arg_stk := rev xs\<rparr>" acc'] by (cases "rfold f acc' xs") simp_all
    with Inr Cons.prems show ?thesis by simp
  qed (use Cons.prems in simp)
qed simp

lemma fold_args_eq:
  assumes "arg_stk s = rev xs"
  shows "fold_args f acc s =
    (case rfold f acc xs of Inl e \<Rightarrow> Inl e | Inr v \<Rightarrow> Inr (v, s\<lparr>arg_stk := []\<rparr>))"
  using assms fold_n_eq [OF assms, of f acc] by (simp add: fold_args_def)

text \<open>Every partial result stays a 32-bit integer.\<close>

fun partials_ok :: "(int \<Rightarrow> int \<Rightarrow> int) \<Rightarrow> int \<Rightarrow> int list \<Rightarrow> bool" where
  "partials_ok g a [] = True"
| "partials_ok g a (x # xs) \<longleftrightarrow> is_i32 (g a x) \<and> partials_ok g (g a x) xs"

locale fixnum_op =
  fixes op :: "scm_value \<Rightarrow> scm_value \<Rightarrow> scm_value result" and g :: "int \<Rightarrow> int \<Rightarrow> int"
  assumes op_fixnum: "is_i32 i \<Longrightarrow> is_i32 j \<Longrightarrow> op (boxi i) (boxi j) = fix_result (g i j)"
begin

lemma fold_fixnums:
  assumes "is_i32 a" and "\<forall>x\<in>set xs. is_i32 x"
  shows "partials_ok g a xs \<Longrightarrow> rfold op (boxi a) (map boxi xs) = Inr (boxi (foldl g a xs))"
    and "\<not> partials_ok g a xs \<Longrightarrow> \<exists>m. rfold op (boxi a) (map boxi xs) = Inl (Assert m)"
  using assms
proof (induction xs arbitrary: a)
  case (Cons x xs)
  {
    case 1
    then show ?case using Cons.IH(1) [of "g a x"] by (simp add: op_fixnum)
  next
    case 2
    show ?case
    proof (cases "is_i32 (g a x)")
      case True
      then show ?thesis using 2 Cons.IH(2) [of "g a x"] by (simp add: op_fixnum)
    next
      case False
      then obtain m where "fix_result (g a x) = Inl (Assert m)"
        using fix_result_Inl by blast
      then show ?thesis using 2 by (simp add: op_fixnum)
    qed
  }
qed simp_all

lemma fold_args_fixnums:
  assumes "is_i32 a" and "\<forall>x\<in>set xs. is_i32 x" and "arg_stk s = rev (map boxi xs)"
  shows "partials_ok g a xs \<Longrightarrow>
      fold_args op (boxi a) s = Inr (boxi (foldl g a xs), s\<lparr>arg_stk := []\<rparr>)"
    and "\<not> partials_ok g a xs \<Longrightarrow> \<exists>m. fold_args op (boxi a) s = Inl (Assert m)"
  using fold_args_eq [OF assms(3), of op "boxi a"] fold_fixnums [OF assms(1,2)] by auto

end

interpretation addx: fixnum_op addxx "(+)"
  by unfold_locales (rule fixnum_arith(1))

interpretation subx: fixnum_op subxx "(-)"
  by unfold_locales (rule fixnum_arith(2))

interpretation mulx: fixnum_op mulxx "(*)"
  by unfold_locales (rule fixnum_arith(3))

lemma foldl_plus: "foldl (+) (a :: int) xs = a + sum_list xs"
  by (induction xs arbitrary: a) simp_all

lemma foldl_times: "foldl (*) (a :: int) xs = a * prod_list xs"
  by (induction xs arbitrary: a) (simp_all add: mult.assoc)

text \<open>Two and more operands go through different branches with the same result.\<close>

lemma variadic_branches:
  assumes "arg_stk s = rev (a # b # xs)"
  shows "(if length (arg_stk s) = 2
          then bnd pop_arg (\<lambda>x. bnd pop_arg (\<lambda>y. lift (op x y))) s
          else bnd pop_arg (\<lambda>acc. fold_args op acc) s)
       = fold_args op a (s\<lparr>arg_stk := rev (b # xs)\<rparr>)"
  using assms by (cases xs) (simp_all add: fold_args_def lift_def bnd_def split: sum.splits)

lemma primop_add_many:
  assumes "arg_stk s = rev (a # b # xs)"
  shows "primop_add s = fold_args addxx a (s\<lparr>arg_stk := rev (b # xs)\<rparr>)"
  using variadic_branches [OF assms, of addxx] assms
  by (simp add: primop_add_def split: if_splits)

lemma primop_mul_many:
  assumes "arg_stk s = rev (a # b # xs)"
  shows "primop_mul s = fold_args mulxx a (s\<lparr>arg_stk := rev (b # xs)\<rparr>)"
  using variadic_branches [OF assms, of mulxx] assms
  by (simp add: primop_mul_def split: if_splits)

section \<open>Chains of comparisons\<close>

text \<open>The operands a chain leaves on the stack when it stops at its first failure.\<close>

fun chain_rest :: "(int \<Rightarrow> int \<Rightarrow> bool) \<Rightarrow> int \<Rightarrow> int list \<Rightarrow> int list" where
  "chain_rest r x [] = []"
| "chain_rest r x (y # ys) = (if r x y then chain_rest r y ys else ys)"

locale fixnum_order =
  fixes cmp :: "scm_value \<Rightarrow> scm_value \<Rightarrow> bool result" and r :: "int \<Rightarrow> int \<Rightarrow> bool"
  assumes cmp_fixnum: "is_i32 i \<Longrightarrow> is_i32 j \<Longrightarrow> cmp (boxi i) (boxi j) = Inr (r i j)"
begin

lemma chain_fixnums:
  "is_i32 x \<Longrightarrow> \<forall>y\<in>set ys. is_i32 y \<Longrightarrow> arg_stk s = rev (map boxi ys) \<Longrightarrow>
     cmp_chain cmp (length ys) (boxi x) s =
       Inr (ITOBOOL (successively r (x # ys)),
            s\<lparr>arg_stk := rev (map boxi (chain_rest r x ys))\<rparr>)"
proof (induction ys arbitrary: x s)
  case Nil
  then show ?case by (simp add: ITOBOOL_def)
next
  case (Cons y ys)
  show ?case
  proof (cases "r x y")
    case True
    then show ?thesis
      using Cons.prems Cons.IH [of y "s\<lparr>arg_stk := rev (map boxi ys)\<rparr>"]
      by (simp add: cmp_fixnum)
  next
    case False
    then show ?thesis
      using Cons.prems by (simp add: cmp_fixnum ITOBOOL_def)
  qed
qed

lemma compare_fixnums:
  assumes "\<forall>y\<in>set (x # y # ys). is_i32 y" and "arg_stk s = rev (map boxi (x # y # ys))"
  shows "primop_compare cmp s =
    Inr (ITOBOOL (successively r (x # y # ys)),
         s\<lparr>arg_stk := rev (map boxi (chain_rest r x (y # ys)))\<rparr>)"
  using assms chain_fixnums [of x "y # ys" "s\<lparr>arg_stk := rev (map boxi (y # ys))\<rparr>"]
  by (simp add: primop_compare_def del: cmp_chain.simps)

end

interpretation eqx: fixnum_order num_eqxx "(=)"
  by unfold_locales (rule fixnum_compare(5))

interpretation ltx: fixnum_order lessxx "(<)"
  by unfold_locales (rule fixnum_compare(1))

interpretation gtx: fixnum_order grxx "(>)"
  by unfold_locales (rule fixnum_compare(2))

interpretation lex: fixnum_order leqxx "(\<le>)"
  by unfold_locales (rule fixnum_compare(3))

interpretation gex: fixnum_order geqxx "(\<ge>)"
  by unfold_locales (rule fixnum_compare(4))


section \<open>The operands of the primitives\<close>

text \<open>A boxed value taken for an integer is far above the 32 bits.\<close>

lemma boxed_sint:
  assumes "TYPEOF v = NB t" and "boxable t"
  shows "INT32_MAX < sint v"
proof -
  have "unat v div 2 ^ 48 = 0x7ff0 + tag_code t"
    using assms NB_simps [OF assms(2)] unat_drop_bit48 [of v] by (simp add: TYPEOF_def)
  moreover have "tag_code t < 16"
    using assms(2) by (rule boxable_code)
  ultimately have "unat v div 2 ^ 48 < 2 ^ 15" "1 \<le> unat v div 2 ^ 48"
    by simp_all
  then have "unat v < 2 ^ 15 * 2 ^ 48" "1 * 2 ^ 48 \<le> unat v"
    by (simp_all only: div_less_iff_less_mult less_eq_div_iff_mult_less_eq zero_less_power zero_less_numeral)
  then have "unat v < 2 ^ 63" "2 ^ 31 \<le> unat v"
    by simp_all
  then have "int (unat v) < 2 ^ 63" "2 ^ 31 \<le> int (unat v)"
    by (metis of_nat_less_iff of_nat_numeral of_nat_power) (metis \<open>2 ^ 31 \<le> unat v\<close> of_nat_le_iff of_nat_numeral of_nat_power)
  then have "uint v < 2 ^ 63" "2 ^ 31 \<le> uint v"
    by (simp_all only: uint_nat)
  then show ?thesis
    by (simp add: sint_uint signed_take_bit_int_eq_self INT32_MAX_def)
qed

lemma make_int_boxed:
  "TYPEOF v = NB t \<Longrightarrow> boxable t \<Longrightarrow> make_int (sint v) = Inl (Assert ''bigint unimplemented'')"
  using boxed_sint [of v t] by (intro make_int_fault) (simp add: is_i32_def)

lemma return_to_k_fold:
  assumes "arg_stk s = xs @ [k]" and "callable s k" and "op (s\<lparr>arg_stk := xs\<rparr>) = Inr (v, s\<lparr>arg_stk := ys\<rparr>)"
    and "length ys < ARG_STACK_LEN"
  shows "return_to_k op s = Inr (k, s\<lparr>arg_stk := ys @ [v]\<rparr>)"
  using assms push_tail_call [of "s\<lparr>arg_stk := ys\<rparr>" k v] by (simp add: return_to_k_def)

lemma return_to_k_fault:
  assumes "arg_stk s = xs @ [k]" and "op (s\<lparr>arg_stk := xs\<rparr>) = Inl e"
  shows "return_to_k op s = Inl e"
  using assms by (simp add: return_to_k_def)

lemma chain_rest_length: "length (chain_rest r x ys) \<le> length ys - 1"
  by (induction ys arbitrary: x) (auto intro: order_trans [OF _ diff_le_self])

section \<open>Properties\<close>

text \<open>
  With two or more fixnum operands \<open>+\<close> passes their exact sum to the continuation, or,
  where a partial sum leaves the 32 bits of a fixnum, stops with a failed assertion; it never
  returns a wrapped result.
\<close>

theorem prim_add_exact:
  assumes "arg_stk s = rev (map boxi (x # y # zs)) @ [k]" and "callable s k"
    and "\<forall>i\<in>set (x # y # zs). is_i32 i"
  shows "if partials_ok (+) x (y # zs)
    then prim_add self s = Inr (k, s\<lparr>arg_stk := [boxi (sum_list (x # y # zs))]\<rparr>)
    else \<exists>m. prim_add self s = Inl (Assert m)"
proof -
  let ?s = "s\<lparr>arg_stk := rev (map boxi (x # y # zs))\<rparr>"
  have run: "primop_add ?s = fold_args addxx (boxi x) (s\<lparr>arg_stk := rev (map boxi (y # zs))\<rparr>)"
    using primop_add_many [of ?s "boxi x" "boxi y" "map boxi zs"] by simp
  note F = addx.fold_args_fixnums [of x "y # zs" "s\<lparr>arg_stk := rev (map boxi (y # zs))\<rparr>"]
  show ?thesis
  proof (cases "partials_ok (+) x (y # zs)")
    case True
    then have "primop_add ?s = Inr (boxi (x + (y + sum_list zs)), s\<lparr>arg_stk := []\<rparr>)"
      using run F(1) assms(3) by (simp add: foldl_plus add.assoc)
    then show ?thesis
      using True return_to_k_fold [OF assms(1,2), where ys = "[]"]
      by (simp add: prim_add_def ARG_STACK_LEN_def)
  next
    case False
    then obtain m where "primop_add ?s = Inl (Assert m)"
      using run F(2) assms(3) by auto
    then show ?thesis
      using False return_to_k_fault [OF assms(1)] by (auto simp: prim_add_def)
  qed
qed

lemma prim_add_exact_witness:
  "prim_add 0 (rt_zero\<lparr>arg_stk := [boxi 3, boxi 2, boxi 1, make_function 64]\<rparr>)
     = Inr (make_function 64, rt_zero\<lparr>arg_stk := [boxi 6]\<rparr>)"
  using prim_add_exact [of "rt_zero\<lparr>arg_stk := [boxi 3, boxi 2, boxi 1, make_function 64]\<rparr>"
      1 2 "[3]" "make_function 64" 0]
  by (simp add: is_i32_def INT32_MAX_def INT32_MIN_def)

text \<open>
  C26: With two or more fixnum operands \<open>*\<close> passes their exact product to the continuation,
  or stops with a failed assertion where a partial product leaves the 32 bits of a fixnum.
\<close>

theorem prim_mul_exact:
  assumes "arg_stk s = rev (map boxi (x # y # zs)) @ [k]" and "callable s k"
    and "\<forall>i\<in>set (x # y # zs). is_i32 i"
  shows "if partials_ok (*) x (y # zs)
    then prim_mul self s = Inr (k, s\<lparr>arg_stk := [boxi (prod_list (x # y # zs))]\<rparr>)
    else \<exists>m. prim_mul self s = Inl (Assert m)"
proof -
  let ?s = "s\<lparr>arg_stk := rev (map boxi (x # y # zs))\<rparr>"
  have run: "primop_mul ?s = fold_args mulxx (boxi x) (s\<lparr>arg_stk := rev (map boxi (y # zs))\<rparr>)"
    using primop_mul_many [of ?s "boxi x" "boxi y" "map boxi zs"] by simp
  note F = mulx.fold_args_fixnums [of x "y # zs" "s\<lparr>arg_stk := rev (map boxi (y # zs))\<rparr>"]
  show ?thesis
  proof (cases "partials_ok (*) x (y # zs)")
    case True
    then have "primop_mul ?s = Inr (boxi (x * (y * prod_list zs)), s\<lparr>arg_stk := []\<rparr>)"
      using run F(1) assms(3) by (simp add: foldl_times mult.assoc)
    then show ?thesis
      using True return_to_k_fold [OF assms(1,2), where ys = "[]"]
      by (simp add: prim_mul_def ARG_STACK_LEN_def)
  next
    case False
    then obtain m where "primop_mul ?s = Inl (Assert m)"
      using run F(2) assms(3) by auto
    then show ?thesis
      using False return_to_k_fault [OF assms(1)] by (auto simp: prim_mul_def)
  qed
qed

lemma prim_mul_exact_witness:
  "\<exists>m. prim_mul 0 (rt_zero\<lparr>arg_stk := [boxi 2, boxi 65536, boxi 32768, make_function 64]\<rparr>)
     = Inl (Assert m)"
  using prim_mul_exact [of "rt_zero\<lparr>arg_stk := [boxi 2, boxi 65536, boxi 32768, make_function 64]\<rparr>"
      32768 65536 "[2]" "make_function 64" 0]
  by (simp add: is_i32_def INT32_MAX_def INT32_MIN_def)

text \<open>
  Each of \<open>=\<close>, \<open><\<close>, \<open>>\<close>, \<open><=\<close> and \<open>>=\<close> on two or more fixnums
  answers whether every pair of neighbours is in the relation. The chain stops at the first pair
  that is not, and the operands it has not read stay on the argument stack below the answer.
\<close>

theorem comparisons_decide:
  assumes "arg_stk s = rev (map boxi (x # y # zs)) @ [k]" and "callable s k"
    and "\<forall>i\<in>set (x # y # zs). is_i32 i" and "length zs + 2 \<le> ARG_STACK_LEN"
  shows "\<forall>(prim, r) \<in> {(prim_num_eq, (=)), (prim_less, (<)), (prim_gr, (>)), (prim_leq, (\<le>)), (prim_geq, (\<ge>))}.
    prim self s = Inr (k, s\<lparr>arg_stk := rev (map boxi (chain_rest r x (y # zs)))
      @ [ITOBOOL (successively r (x # y # zs))]\<rparr>)"
proof -
  let ?s = "s\<lparr>arg_stk := rev (map boxi (x # y # zs))\<rparr>"
  have stk: "arg_stk ?s = rev (map boxi (x # y # zs))"
    by simp
  have run: "return_to_k (primop_compare cmp) s = Inr (k, s\<lparr>arg_stk :=
      rev (map boxi (chain_rest r x (y # zs))) @ [ITOBOOL (successively r (x # y # zs))]\<rparr>)"
    if "primop_compare cmp ?s = Inr (ITOBOOL (successively r (x # y # zs)),
      ?s\<lparr>arg_stk := rev (map boxi (chain_rest r x (y # zs)))\<rparr>)" for cmp r
    using that assms(4) chain_rest_length [of r x "y # zs"]
    by (intro return_to_k_fold [OF assms(1,2)]) (simp_all del: chain_rest.simps)
  show ?thesis
    using run [OF eqx.compare_fixnums [OF assms(3) stk]] run [OF ltx.compare_fixnums [OF assms(3) stk]]
      run [OF gtx.compare_fixnums [OF assms(3) stk]] run [OF lex.compare_fixnums [OF assms(3) stk]]
      run [OF gex.compare_fixnums [OF assms(3) stk]]
    by (simp add: prim_num_eq_def prim_less_def prim_gr_def prim_leq_def prim_geq_def
        primop_num_eq_def primop_less_def primop_gr_def primop_leq_def primop_geq_def)
qed

lemma comparisons_decide_witness:
  "prim_less 0 (rt_zero\<lparr>arg_stk := [boxi 9, boxi 1, boxi 5, boxi 4, make_function 64]\<rparr>)
     = Inr (make_function 64, rt_zero\<lparr>arg_stk := [boxi 9, SCM_FALSE]\<rparr>)"
  using comparisons_decide [of "rt_zero\<lparr>arg_stk := [boxi 9, boxi 1, boxi 5, boxi 4, make_function 64]\<rparr>"
      4 5 "[1, 9]" "make_function 64" 0]
  by (simp add: is_i32_def INT32_MAX_def INT32_MIN_def ARG_STACK_LEN_def ITOBOOL_def)

text \<open>
  An operation on a fixnum and a flonum that holds an integer agrees with the operation on
  the integers: the sum is the flonum of the integer sum, the order and equality are those of
  the integers.
\<close>

theorem mixed_operands:
  assumes "is_i32 i" and "is_i32 j"
  shows "addxx (boxi i) (make_float (f64_of_int j)) = Inr (make_float (f64_of_int (i + j))) \<and>
    addxx (make_float (f64_of_int i)) (boxi j) = Inr (make_float (f64_of_int (i + j))) \<and>
    lessxx (boxi i) (make_float (f64_of_int j)) = Inr (i < j) \<and>
    lessxx (make_float (f64_of_int i)) (boxi j) = Inr (i < j) \<and>
    num_eqxx (boxi i) (make_float (f64_of_int j)) = Inr (i = j) \<and>
    num_eqxx (make_float (f64_of_int i)) (boxi j) = Inr (i = j)"
proof -
  note F = FLOAT_P_of_int [OF assms(1)] FLOAT_P_of_int [OF assms(2)]
  have "\<not> INTEGER_P (f64_of_int i)" "\<not> INTEGER_P (f64_of_int j)"
    using F INTEGER_P_not_FLOAT_P by blast+
  then show ?thesis
    using F assms f64_add_of_int [OF i32_small i32_small, OF assms]
      f64_lt_of_int [OF i32_small i32_small, OF assms]
    by (simp add: addxx_def addix_def addfx_def lessxx_def lessix_def lessfx_def num_eqxx_def
        num_eqix_def num_eqfx_def make_float_def get_float_def f64_of_i32_def)
qed

lemma mixed_operands_witness:
  "addxx (boxi 1) (make_float (f64_of_int 2)) = Inr (make_float (f64_of_int 3)) \<and>
   lessxx (boxi 1) (make_float (f64_of_int 2)) = Inr True"
  using mixed_operands [of 1 2] by (simp add: is_i32_def INT32_MAX_def INT32_MIN_def)

text \<open>
  \<open>+\<close> and \<open>*\<close> of a single fixnum always stop the program: the boxed value, taken as a
  64-bit integer, goes through \<open>make_int\<close> and is refused as a big integer.
\<close>

theorem one_operand_faults:
  assumes "arg_stk s = [boxi i, k]"
  shows "prim_add self s = Inl (Assert ''bigint unimplemented'') \<and>
    prim_mul self s = Inl (Assert ''bigint unimplemented'')"
  using assms make_int_boxed [of "boxi i" tt_int]
  by (simp add: prim_add_def prim_mul_def return_to_k_def primop_add_def primop_mul_def)

lemma one_operand_faults_witness:
  "prim_add 0 (rt_zero\<lparr>arg_stk := [boxi 7, make_function 64]\<rparr>)
     = Inl (Assert ''bigint unimplemented'')"
  using one_operand_faults [of "rt_zero\<lparr>arg_stk := [boxi 7, make_function 64]\<rparr>" 7 "make_function 64" 0]
  by simp

text \<open>
  \<open>zero?\<close>, \<open>positive?\<close> and \<open>negative?\<close> of a fixnum pass on the C truth value
  unboxed; both of its values count as true for \<open>BOOLTOI\<close>, so no program can see the answer
  \<open>#f\<close>.
\<close>

theorem sign_predicates_truthy:
  assumes "arg_stk s = [boxi i, k]" and "callable s k" and "is_i32 i"
  shows "prim_zero_p self s = Inr (k, s\<lparr>arg_stk := [c_int (i = 0)]\<rparr>) \<and>
    prim_positive_p self s = Inr (k, s\<lparr>arg_stk := [c_int (i > 0)]\<rparr>) \<and>
    prim_negative_p self s = Inr (k, s\<lparr>arg_stk := [c_int (i < 0)]\<rparr>) \<and>
    BOOLTOI (c_int False) \<and> BOOLTOI (c_int True)"
proof -
  have z: "is_i32 0" "make_int 0 = Inr (boxi 0)"
    using make_int_box [of 0] by (simp_all add: is_i32_def INT32_MAX_def INT32_MIN_def)
  have f: "SCM_FALSE \<noteq> 0" "SCM_FALSE \<noteq> 1"
    by (simp_all add: scm_consts)
  note C = fixnum_compare [OF assms(3) z(1)]
  note R = return_to_k_fold [of s "[boxi i]" k _ _ "[]"]
  show ?thesis
    using R [of primop_zero_p "c_int (i = 0)"] R [of primop_positive_p "c_int (i > 0)"]
      R [of primop_negative_p "c_int (i < 0)"] assms C z f
    by (auto simp: prim_zero_p_def prim_positive_p_def prim_negative_p_def primop_zero_p_def
        primop_positive_p_def primop_negative_p_def c_int_def BOOLTOI_def ARG_STACK_LEN_def)
qed

lemma sign_predicates_truthy_witness:
  "prim_zero_p 0 (rt_zero\<lparr>arg_stk := [boxi 5, make_function 64]\<rparr>)
     = Inr (make_function 64, rt_zero\<lparr>arg_stk := [c_int False]\<rparr>) \<and> BOOLTOI (c_int False)"
  using sign_predicates_truthy [of "rt_zero\<lparr>arg_stk := [boxi 5, make_function 64]\<rparr>" 5 "make_function 64" 0]
  by (simp add: is_i32_def INT32_MAX_def INT32_MIN_def)

text \<open>
  \<open>1+\<close> and \<open>1-\<close> stop the program in every state: with the arity they ask for, the
  operand is missing, and with an operand the arity check fails.
\<close>

theorem inc_dec_fault:
  shows "(\<exists>m. prim_inc self s = Inl (Assert m)) \<and> (\<exists>m. prim_dec self s = Inl (Assert m))"
  by (cases "arg_stk s"; cases "tl (arg_stk s)") (auto simp: prim_inc_def prim_dec_def)

end
