(* ===== verification/Scm_Pairs.thy ===== *)
theory Scm_Pairs
  imports Scm_Arith
begin

text \<open>
  Pairs and lists of scheme/scm_runtime.c: construction, selection and mutation, the list
  built from the arguments on the stack, the two-pointer walk behind \<open>list?\<close> and
  \<open>length\<close>, and \<open>list-ref\<close>.
\<close>

section \<open>Pairs\<close>

definition scm_cons :: "scm_value \<Rightarrow> scm_value \<Rightarrow> scm_value rt" where
  "scm_cons a d = bnd (new_obj (HPair a d)) (\<lambda>i. ret (heap_value tt_pair i))"

definition car :: "scm_value \<Rightarrow> scm_value rt" where
  "car p =
     bnd (check (PAIR_P p) ''type error expected <pair>'') (\<lambda>_.
     bnd (deref_pair (GET_OFF p)) (\<lambda>(a, _). ret a))"

definition cdr :: "scm_value \<Rightarrow> scm_value rt" where
  "cdr p =
     bnd (check (PAIR_P p) ''type error expected <pair>'') (\<lambda>_.
     bnd (deref_pair (GET_OFF p)) (\<lambda>(_, d). ret d))"

definition primop_cons :: "scm_value rt" where
  "primop_cons =
     bnd (arity 2 False) (\<lambda>_. bnd pop_arg (\<lambda>a. bnd pop_arg (\<lambda>d. scm_cons a d)))"

definition prim_cons :: "scm_value \<Rightarrow> scm_value rt" where
  "prim_cons self = return_to_k primop_cons"

definition primop_car :: "scm_value rt" where
  "primop_car = bnd (arity 1 False) (\<lambda>_. bnd pop_arg (\<lambda>p. car p))"

definition prim_car :: "scm_value \<Rightarrow> scm_value rt" where
  "prim_car self = return_to_k primop_car"

definition primop_cdr :: "scm_value rt" where
  "primop_cdr = bnd (arity 1 False) (\<lambda>_. bnd pop_arg (\<lambda>p. cdr p))"

definition prim_cdr :: "scm_value \<Rightarrow> scm_value rt" where
  "prim_cdr self = return_to_k primop_cdr"

definition primop_set_car :: "scm_value rt" where
  "primop_set_car =
     bnd (arity 2 False) (\<lambda>_.
     bnd pop_arg (\<lambda>pair.
     bnd pop_arg (\<lambda>val.
     bnd (check (PAIR_P pair) ''type error expected <pair>'') (\<lambda>_.
     bnd (deref_pair (GET_OFF pair)) (\<lambda>(_, d).
     bnd (assign (GET_OFF pair) (HPair val d)) (\<lambda>_.
     ret SCM_VOID))))))"

definition prim_set_car :: "scm_value \<Rightarrow> scm_value rt" where
  "prim_set_car self = return_to_k primop_set_car"

definition primop_set_cdr :: "scm_value rt" where
  "primop_set_cdr =
     bnd (arity 2 False) (\<lambda>_.
     bnd pop_arg (\<lambda>pair.
     bnd pop_arg (\<lambda>val.
     bnd (check (PAIR_P pair) ''type error expected <pair>'') (\<lambda>_.
     bnd (deref_pair (GET_OFF pair)) (\<lambda>(a, _).
     bnd (assign (GET_OFF pair) (HPair a val)) (\<lambda>_.
     ret SCM_VOID))))))"

definition prim_set_cdr :: "scm_value \<Rightarrow> scm_value rt" where
  "prim_set_cdr self = return_to_k primop_set_cdr"

section \<open>Lists from the argument stack\<close>

text \<open>The loop \<open>for (i = 0; i < n; ++i) lst = _cons (arg_stack.stk[i], lst)\<close>.\<close>

fun cons_onto :: "scm_value \<Rightarrow> scm_value list \<Rightarrow> scm_value rt" where
  "cons_onto lst [] = ret lst"
| "cons_onto lst (x # xs) = bnd (scm_cons x lst) (\<lambda>l. cons_onto l xs)"

definition cons_rest :: "scm_value rt" where
  "cons_rest =
     bnd (gets arg_stk) (\<lambda>xs.
     bnd (cons_onto SCM_NULL xs) (\<lambda>rest.
     bnd clear_args (\<lambda>_.
     ret rest)))"

text \<open>
  \<open>list\<close> conses its arguments up, empties the stack and continues; what it built is not
  pushed.
\<close>

definition prim_list :: "scm_value \<Rightarrow> scm_value rt" where
  "prim_list self =
     bnd (arity 1 True) (\<lambda>_.
     bnd pop_arg (\<lambda>k.
     bnd (gets arg_stk) (\<lambda>xs.
     bnd (cons_onto SCM_NULL xs) (\<lambda>lst.
     bnd clear_args (\<lambda>_.
     tail_call k)))))"

section \<open>Walking a list\<close>

text \<open>
  The fast pointer \<open>h\<close> takes two pairs a round and the slow one \<open>t\<close> one; the count
  goes up once a round. The recursion of the source is fuelled.
\<close>

fun race :: "nat \<Rightarrow> scm_value \<Rightarrow> scm_value \<Rightarrow> u32 \<Rightarrow> (bool \<times> u32) rt" where
  "race 0 h t len = fail NoFuel"
| "race (Suc n) h t len =
     (if PAIR_P h then
        bnd (cdr h) (\<lambda>h1.
        if PAIR_P h1 then
          (if h1 = t then ret (False, len)
           else bnd (cdr h1) (\<lambda>h2. bnd (cdr t) (\<lambda>t2. race n h2 t2 (len + 1))))
        else ret (NULL_P h1, len))
      else ret (NULL_P h, len))"

definition prim_list_p :: "nat \<Rightarrow> scm_value \<Rightarrow> scm_value rt" where
  "prim_list_p fuel self =
     bnd (arity 2 False) (\<lambda>_.
     bnd pop_arg (\<lambda>k.
     bnd pop_arg (\<lambda>lst.
     bnd (race fuel lst lst 0) (\<lambda>(b, _).
     bnd (push_arg (ITOBOOL b)) (\<lambda>_.
     tail_call k)))))"

definition prim_length :: "nat \<Rightarrow> scm_value \<Rightarrow> scm_value rt" where
  "prim_length fuel self =
     bnd (arity 2 False) (\<lambda>_.
     bnd pop_arg (\<lambda>k.
     bnd pop_arg (\<lambda>lst.
     bnd (race fuel lst lst 0) (\<lambda>(b, len).
     bnd (check b ''value error expected <list>'') (\<lambda>_.
     bnd (lift (make_int (uint len))) (\<lambda>v.
     bnd (push_arg v) (\<lambda>_.
     tail_call k)))))))"

fun nth_tail :: "nat \<Rightarrow> scm_value \<Rightarrow> scm_value rt" where
  "nth_tail 0 lst = ret lst"
| "nth_tail (Suc n) lst =
     bnd (check (PAIR_P lst) ''type error index out of bounds'') (\<lambda>_.
     bnd (cdr lst) (\<lambda>l. nth_tail n l))"

definition prim_list_ref :: "scm_value \<Rightarrow> scm_value rt" where
  "prim_list_ref self =
     bnd (arity 3 False) (\<lambda>_.
     bnd pop_arg (\<lambda>k.
     bnd pop_arg (\<lambda>lst.
     bnd pop_arg (\<lambda>i.
     bnd (check (INTEGER_P i) ''type error expected <integer>'') (\<lambda>_.
     bnd (nth_tail (unat (GET_INTEGRAL i)) lst) (\<lambda>l.
     bnd (car l) (\<lambda>v.
     bnd (push_arg v) (\<lambda>_.
     tail_call k))))))))"

section \<open>Lists in the heap\<close>

definition pair_at :: "rt_state \<Rightarrow> scm_value \<Rightarrow> (scm_value \<times> scm_value) option" where
  "pair_at s v =
     (if PAIR_P v
      then (case pool_mem (working s) (GET_OFF v) of
              Some (Cell _ (HPair a d)) \<Rightarrow> Some (a, d) | _ \<Rightarrow> None)
      else None)"

lemma pair_at_cong [simp]: "pair_at (s\<lparr>arg_stk := xs\<rparr>) v = pair_at s v"
  by (simp add: pair_at_def)

lemma pair_at_PAIR_P: "pair_at s v = Some (a, d) \<Longrightarrow> PAIR_P v"
  by (auto simp: pair_at_def split: if_splits)

lemma car_cdr_pair_at [simp]:
  assumes "pair_at s v = Some (a, d)"
  shows "car v s = Inr (a, s)" and "cdr v s = Inr (d, s)"
  using assms
  by (auto simp: pair_at_def car_def cdr_def heap_access split: if_splits option.splits
      hcell.splits hobj.splits)

lemma PAIR_P_NULL [simp]: "\<not> PAIR_P SCM_NULL"
  by (simp add: PAIR_P_def NULL_P_def)

lemma NULL_P_NULL [simp]: "NULL_P SCM_NULL"
  by (simp add: NULL_P_def)

fun list_at :: "rt_state \<Rightarrow> scm_value \<Rightarrow> scm_value list \<Rightarrow> bool" where
  "list_at s v [] \<longleftrightarrow> v = SCM_NULL"
| "list_at s v (x # xs) \<longleftrightarrow> (\<exists>d. pair_at s v = Some (x, d) \<and> list_at s d xs)"

lemma list_at_cong [simp]: "list_at (s\<lparr>arg_stk := zs\<rparr>) v xs = list_at s v xs"
  by (induction xs arbitrary: v) simp_all

lemma list_at_unique: "list_at s v xs \<Longrightarrow> list_at s v ys \<Longrightarrow> xs = ys"
proof (induction xs arbitrary: v ys)
  case Nil
  then show ?case
    by (cases ys) (auto simp: pair_at_def)
next
  case (Cons x xs)
  then show ?case
    by (cases ys) (auto simp: pair_at_def)
qed

lemma list_at_NULL [simp]: "list_at s SCM_NULL xs \<longleftrightarrow> xs = []"
  by (cases xs) (auto simp: pair_at_def)

lemma race_proper:
  assumes "list_at s h ys" and "list_at s t zs" and "length ys \<le> length zs"
    and "length ys div 2 < n"
  shows "race n h t len s = Inr ((True, len + of_nat (length ys div 2)), s)"
  using assms
proof (induction n arbitrary: h t ys zs len)
  case (Suc n)
  consider "ys = []" | y where "ys = [y]" | y1 y2 ys' where "ys = y1 # y2 # ys'"
    by (metis neq_Nil_conv)
  then show ?case
  proof cases
    case 1
    with Suc.prems show ?thesis by simp
  next
    case 2
    with Suc.prems obtain d where d: "pair_at s h = Some (y, d)" "d = SCM_NULL" by auto
    then have "PAIR_P h" by (simp add: pair_at_PAIR_P)
    with 2 d show ?thesis by simp
  next
    case 3
    with Suc.prems(1) obtain h1 h2 where h: "pair_at s h = Some (y1, h1)"
      "pair_at s h1 = Some (y2, h2)" "list_at s h2 ys'" by auto
    from 3 Suc.prems(3) obtain z zs' where z: "zs = z # zs'" by (cases zs) auto
    with Suc.prems(2) obtain t2 where t: "pair_at s t = Some (z, t2)" "list_at s t2 zs'" by auto
    have "PAIR_P h" "PAIR_P h1" using h by (simp_all add: pair_at_PAIR_P)
    moreover have "h1 \<noteq> t"
    proof
      assume "h1 = t"
      moreover have "list_at s h1 (y2 # ys')" using h by simp
      ultimately have "y2 # ys' = zs"
        using Suc.prems(2) list_at_unique by blast
      with 3 Suc.prems(3) show False by auto
    qed
    moreover have "race n h2 t2 (len + 1) s
        = Inr ((True, len + 1 + of_nat (length ys' div 2)), s)"
      using Suc.IH [OF h(3) t(2), of "len + 1"] Suc.prems(3,4) 3 z by simp
    ultimately show ?thesis
      using h t 3 by (simp add: add.assoc)
  qed
qed simp

text \<open>The \<open>i\<close>-th tail of a value, and a chain of pairs that comes back on itself.\<close>

fun tail_n :: "rt_state \<Rightarrow> scm_value \<Rightarrow> nat \<Rightarrow> scm_value" where
  "tail_n s v 0 = v"
| "tail_n s v (Suc i) = (case pair_at s (tail_n s v i) of Some (_, d) \<Rightarrow> d | None \<Rightarrow> SCM_NULL)"

definition circular :: "rt_state \<Rightarrow> scm_value \<Rightarrow> nat \<Rightarrow> nat \<Rightarrow> bool" where
  "circular s v m p \<longleftrightarrow> 0 < p \<and> tail_n s v (m + p) = tail_n s v m \<and>
     (\<forall>i < m + p. pair_at s (tail_n s v i) \<noteq> None)"

lemma tail_n_Suc_right: "tail_n s v (Suc i) = tail_n s (tail_n s v 1) i"
  by (induction i) simp_all

lemma tail_n_add: "tail_n s (tail_n s v i) j = tail_n s v (i + j)"
  by (induction j) simp_all

lemma circular_shift:
  assumes "circular s v m p" and "m \<le> i"
  shows "tail_n s v (i + p) = tail_n s v i"
proof -
  have "tail_n s v (i + p) = tail_n s (tail_n s v (m + p)) (i - m)"
    using assms(2) by (simp add: tail_n_add algebra_simps)
  also have "\<dots> = tail_n s v i"
    using assms by (simp add: circular_def tail_n_add)
  finally show ?thesis .
qed

lemma circular_mult:
  assumes "circular s v m p" and "m \<le> i"
  shows "tail_n s v (i + k * p) = tail_n s v i"
proof (induction k)
  case (Suc k)
  have "tail_n s v (i + Suc k * p) = tail_n s v (i + k * p + p)"
    by (simp add: algebra_simps)
  also have "\<dots> = tail_n s v (i + k * p)"
    using assms by (intro circular_shift [OF assms(1)]) simp
  finally show ?case using Suc by simp
qed simp

lemma circular_pairs:
  assumes "circular s v m p"
  shows "\<exists>a. pair_at s (tail_n s v i) = Some (a, tail_n s v (Suc i))"
proof -
  have "pair_at s (tail_n s v i) \<noteq> None"
  proof (induction i rule: less_induct)
    case (less i)
    show ?case
    proof (cases "i < m + p")
      case False
      then have "tail_n s v i = tail_n s v (i - p)"
        using circular_shift [OF assms, of "i - p"] by simp
      moreover have "i - p < i"
        using False assms by (auto simp: circular_def)
      ultimately show ?thesis using less by simp
    qed (use assms in \<open>simp add: circular_def\<close>)
  qed
  then show ?thesis by auto
qed

lemma race_step:
  assumes "pair_at s h = Some (a, h1)" and "pair_at s h1 = Some (b, h2)"
    and "pair_at s t = Some (d, t2)"
  shows "race (Suc n) h t len s =
    (if h1 = t then Inr ((False, len), s) else race n h2 t2 (len + 1) s)"
  using assms by (simp add: pair_at_PAIR_P)

lemma race_circular:
  assumes c: "circular s v m p" and "j \<le> k" and "tail_n s v (2 * k + 1) = tail_n s v k"
    and "k - j < n"
  shows "\<exists>l. race n (tail_n s v (2 * j)) (tail_n s v j) len s = Inr ((False, l), s)"
  using assms(2,4)
proof (induction n arbitrary: j len)
  case (Suc n)
  let ?c = "tail_n s v"
  obtain a where a: "pair_at s (?c (2 * j)) = Some (a, ?c (2 * j + 1))"
    using circular_pairs [OF c, of "2 * j"] by auto
  obtain b where b: "pair_at s (?c (2 * j + 1)) = Some (b, ?c (2 * Suc j))"
    using circular_pairs [OF c, of "2 * j + 1"] by auto
  obtain d where d: "pair_at s (?c j) = Some (d, ?c (Suc j))"
    using circular_pairs [OF c, of j] by auto
  note step = race_step [OF a b d, of n len]
  show ?case
  proof (cases "?c (2 * j + 1) = ?c j")
    case True
    with step show ?thesis by auto
  next
    case False
    then have "j \<noteq> k" using assms(3) by auto
    with Suc.prems have "Suc j \<le> k" "k - Suc j < n" by auto
    then obtain l where "race n (?c (2 * Suc j)) (?c (Suc j)) (len + 1) s = Inr ((False, l), s)"
      using Suc.IH by blast
    with False step show ?thesis by auto
  qed
qed simp

lemma list_at_nth_tail:
  "list_at s v xs \<Longrightarrow> n \<le> length xs \<Longrightarrow>
     \<exists>w. nth_tail n v s = Inr (w, s) \<and> list_at s w (drop n xs)"
proof (induction n arbitrary: v xs)
  case (Suc n)
  then obtain x xs' d where x: "xs = x # xs'" "pair_at s v = Some (x, d)" "list_at s d xs'"
    by (cases xs) auto
  then obtain w where "nth_tail n d s = Inr (w, s)" "list_at s w (drop n xs')"
    using Suc.IH [of d xs'] Suc.prems by auto
  with x show ?case by (simp add: pair_at_PAIR_P)
qed simp

lemma list_at_nth_tail_fault:
  "list_at s v xs \<Longrightarrow> length xs < n \<Longrightarrow>
     nth_tail n v s = Inl (Assert ''type error index out of bounds'')"
proof (induction n arbitrary: v xs)
  case (Suc n)
  then show ?case
    by (cases xs) (auto simp: pair_at_PAIR_P)
qed simp

section \<open>Building lists\<close>

text \<open>
  Offsets left for \<open>n\<close> more bytes of objects; the buffer doubles on the way as it needs to.
\<close>

definition heap_room :: "nat \<Rightarrow> rt_state \<Rightarrow> bool" where
  "heap_room n s \<longleftrightarrow> pool_ok (working s) \<and> pool_idx (working s) + n < 2 ^ 32 \<and>
     pool_sz (working s) < 2 ^ 34 \<and> HEAP_PAGE_SZ \<le> pool_sz (working s)"

lemma heap_room_cong [simp]: "heap_room n (s\<lparr>arg_stk := xs\<rparr>) = heap_room n s"
  by (simp add: heap_room_def)

lemma heap_room_start: "n < 2 ^ 31 \<Longrightarrow> heap_room n (rt_start\<lparr>arg_stk := xs\<rparr>)"
  using pool_ok_start by (simp add: heap_room_def) (simp add: rt_start_def HEAP_PAGE_SZ_def)

lemma new_obj_room:
  assumes "heap_room (aligned (obj_size ob) + n) s" and "aligned (obj_size ob) \<le> HEAP_PAGE_SZ"
  shows "\<exists>t. new_obj ob s = Inr (pool_idx (working s), t) \<and> heap_room n t"
proof -
  let ?k = "aligned (obj_size ob)"
  have S: "pool_ok (working s)" "pool_idx (working s) + ?k + n < 2 ^ 32"
    "pool_sz (working s) < 2 ^ 34" "HEAP_PAGE_SZ \<le> pool_sz (working s)"
    using assms(1) by (simp_all add: heap_room_def)
  obtain t where t: "new_obj ob s = Inr (pool_idx (working s), t)" "pool_ok (working t)"
    using new_obj_ok [OF S(1), of ob] S assms(2) by auto
  have idx: "pool_idx (working t) = pool_idx (working s) + ?k"
    using new_objD(4) [OF t(1)] .
  have un: "unat (of_nat (pool_sz (working s)) - of_nat (pool_idx (working s)) :: u64)
      = pool_sz (working s) - pool_idx (working s)"
    using S by (intro unat_diff_u64) (simp_all add: pool_ok_def)
  have "pool_sz (working t) < 2 ^ 34 \<and> pool_sz (working s) \<le> pool_sz (working t)"
    using t(1) S un assms(2)
    by (auto simp: new_obj_def bnd_eq_Inr scm_heap_alloc_def write_new_def Let_def HEAP_PAGE_SZ_def
        split: if_splits)
  then show ?thesis
    using t idx S by (auto simp: heap_room_def)
qed

lemma scm_heap_alloc_sz:
  "scm_heap_alloc n s = Inr (i, t) \<Longrightarrow>
     pool_sz (working t) = pool_sz (working s) \<or> pool_sz (working t) = 2 * pool_sz (working s)"
  by (auto simp: scm_heap_alloc_def Let_def)

lemma new_obj_keeps:
  assumes "new_obj ob s = Inr (i, t)" and "pool_ok (working s)"
    and "pool_mem (working s) l = Some c"
  shows "pool_mem (working t) l = Some c"
  using new_objD(1,3) [OF assms(1)] pool_ok_below [OF assms(2,3)] assms(3) by simp

lemma pair_at_new_obj:
  assumes "new_obj ob s = Inr (i, t)" and "pool_ok (working s)" and "pair_at s v = Some p"
  shows "pair_at t v = Some p"
proof -
  from assms(3) obtain c where "pool_mem (working s) (GET_OFF v) = Some c"
    by (auto simp: pair_at_def split: if_splits option.splits)
  with new_obj_keeps [OF assms(1,2) this] assms(3) show ?thesis
    by (auto simp: pair_at_def split: if_splits)
qed

lemma list_at_new_obj:
  "new_obj ob s = Inr (i, t) \<Longrightarrow> pool_ok (working s) \<Longrightarrow> list_at s v xs \<Longrightarrow> list_at t v xs"
  by (induction xs arbitrary: v) (auto dest: pair_at_new_obj)

lemma scm_cons_list:
  assumes "scm_cons x v s = Inr (w, t)" and "pool_ok (working s)" and "list_at s v xs"
  shows "list_at t w (x # xs)" and "pair_at t w = Some (x, v)"
proof -
  obtain i where i: "new_obj (HPair x v) s = Inr (i, t)" "w = heap_value tt_pair i"
    using assms(1) by (auto simp: scm_cons_def bnd_eq_Inr)
  note D = new_objD [OF i(1)]
  have "8 \<le> i" using D(1) assms(2) by (simp add: pool_ok_def)
  then have "pair_at t w = Some (x, v)"
    using D(2,3) i(2) by (simp add: pair_at_def)
  then show "pair_at t w = Some (x, v)" .
  with list_at_new_obj [OF i(1) assms(2,3)] show "list_at t w (x # xs)" by simp
qed

lemma scm_cons_keeps:
  assumes "scm_cons x v s = Inr (w, t)"
  shows "arg_stk t = arg_stk s"
  using assms new_objD(5) by (auto simp: scm_cons_def bnd_eq_Inr)

lemma scm_cons_ok:
  assumes "pool_ok (working s)" and "scm_cons x v s = Inr (w, t)"
  shows "pool_ok (working t)"
proof -
  obtain i where i: "new_obj (HPair x v) s = Inr (i, t)"
    using assms(2) by (auto simp: scm_cons_def bnd_eq_Inr)
  note D = new_objD [OF i]
  have "working t = (working s)\<lparr>pool_sz := pool_sz (working t),
      pool_idx := pool_idx (working s) + aligned (obj_size (HPair x v)),
      pool_base := pool_base (working t),
      pool_mem := (pool_mem (working s))(pool_idx (working s) \<mapsto> Cell 0 (HPair x v))\<rparr>"
    using D(1,3,4) by simp
  moreover have "pool_idx (working s) + aligned (obj_size (HPair x v)) \<le> pool_sz (working t)"
    using D(1,6) by simp
  ultimately show ?thesis
    using pool_ok_extend [OF assms(1), of "HPair x v" "pool_sz (working t)"] D(1,2) by metis
qed

lemma cons_onto_list:
  "cons_onto v ys s = Inr (w, t) \<Longrightarrow> pool_ok (working s) \<Longrightarrow> list_at s v xs \<Longrightarrow>
     list_at t w (rev ys @ xs) \<and> arg_stk t = arg_stk s \<and> pool_ok (working t)"
proof (induction ys arbitrary: v s xs)
  case (Cons y ys)
  then obtain u l where u: "scm_cons y v s = Inr (l, u)" "cons_onto l ys u = Inr (w, t)"
    by (auto simp: bnd_eq_Inr)
  have "list_at u l (y # xs)"
    using scm_cons_list [OF u(1) Cons.prems(2,3)] by simp
  then show ?case
    using Cons.IH [OF u(2) scm_cons_ok [OF Cons.prems(2) u(1)], of "y # xs"]
      scm_cons_keeps [OF u(1)] by simp
qed simp

lemma scm_cons_room:
  assumes "heap_room (24 + n) s"
  shows "\<exists>w t. scm_cons x v s = Inr (w, t) \<and> heap_room n t"
  using new_obj_room [of "HPair x v" n s] assms by (auto simp: scm_cons_def HEAP_PAGE_SZ_def)

lemma cons_onto_room:
  "heap_room (24 * length ys + n) s \<Longrightarrow> \<exists>w t. cons_onto v ys s = Inr (w, t) \<and> heap_room n t"
proof (induction ys arbitrary: v s)
  case (Cons y ys)
  have "heap_room (24 + (24 * length ys + n)) s"
    using Cons.prems by (simp add: add.assoc)
  then obtain w t where t: "scm_cons y v s = Inr (w, t)" "heap_room (24 * length ys + n) t"
    using scm_cons_room by blast
  then show ?case
    using Cons.IH [OF t(2)] by simp
qed simp

lemma cons_onto_keeps_list:
  "cons_onto v ys s = Inr (w, t) \<Longrightarrow> pool_ok (working s) \<Longrightarrow> list_at s u xs \<Longrightarrow> list_at t u xs"
proof (induction ys arbitrary: v s)
  case (Cons y ys)
  then obtain u' l where u': "scm_cons y v s = Inr (l, u')" "cons_onto l ys u' = Inr (w, t)"
    by (auto simp: bnd_eq_Inr)
  obtain i where "new_obj (HPair y v) s = Inr (i, u')"
    using u'(1) by (auto simp: scm_cons_def bnd_eq_Inr)
  then show ?case
    using Cons.IH [OF u'(2) scm_cons_ok [OF Cons.prems(2) u'(1)]] list_at_new_obj Cons.prems(2,3) by blast
qed simp

end
