(* ===== verification/Scm_Vectors.thy ===== *)
theory Scm_Vectors
  imports Scm_Pairs
begin

text \<open>
  Vectors, bytevectors and records of scheme/scm_runtime.c, the conversions between
  characters and integers, and the type predicates. An index is the 32-bit payload of its
  value read as unsigned, so a negative one is past every length.
\<close>

section \<open>Characters\<close>

definition prim_char_to_integer :: "scm_value \<Rightarrow> scm_value rt" where
  "prim_char_to_integer self =
     bnd (arity 2 False) (\<lambda>_.
     bnd pop_arg (\<lambda>k.
     bnd pop_arg (\<lambda>ch.
     bnd (lift (char_to_integer ch)) (\<lambda>v.
     bnd (push_arg v) (\<lambda>_.
     tail_call k)))))"

definition prim_integer_to_char :: "scm_value \<Rightarrow> scm_value rt" where
  "prim_integer_to_char self =
     bnd (arity 2 False) (\<lambda>_.
     bnd pop_arg (\<lambda>k.
     bnd pop_arg (\<lambda>i.
     bnd (lift (integer_to_char i)) (\<lambda>v.
     bnd (push_arg v) (\<lambda>_.
     tail_call k)))))"

section \<open>Records\<close>

definition make_record :: "u32 \<Rightarrow> scm_value \<Rightarrow> scm_value rt" where
  "make_record len meta =
     bnd (new_obj (HRecord meta (replicate (unat len) None))) (\<lambda>i.
     ret (heap_value tt_record i))"

definition record_ref :: "scm_value \<Rightarrow> u32 \<Rightarrow> scm_value rt" where
  "record_ref v idx =
     bnd (check (RECORD_P v) ''type error, expected <record>'') (\<lambda>_.
     bnd (deref_record (GET_OFF v)) (\<lambda>(_, xs).
     bnd (check (unat idx < length xs) ''error index out of bounds'') (\<lambda>_.
     elem_at xs (unat idx))))"

definition record_set :: "scm_value \<Rightarrow> u32 \<Rightarrow> scm_value \<Rightarrow> scm_value rt" where
  "record_set r idx v =
     bnd (check (RECORD_P r) ''type error, expected <record>'') (\<lambda>_.
     bnd (deref_record (GET_OFF r)) (\<lambda>(m, xs).
     bnd (check (unat idx < length xs) ''error index out of bounds'') (\<lambda>_.
     bnd (assign (GET_OFF r) (HRecord m (xs[unat idx := Some v]))) (\<lambda>_.
     ret SCM_VOID))))"

definition record_meta_set :: "scm_value \<Rightarrow> scm_value \<Rightarrow> scm_value rt" where
  "record_meta_set r v =
     bnd (check (RECORD_P r) ''type error, expected <record>'') (\<lambda>_.
     bnd (deref_record (GET_OFF r)) (\<lambda>(_, xs).
     bnd (assign (GET_OFF r) (HRecord v xs)) (\<lambda>_.
     ret SCM_VOID)))"

definition prim_make_record :: "scm_value \<Rightarrow> scm_value rt" where
  "prim_make_record self =
     bnd (arity 3 False) (\<lambda>_.
     bnd pop_arg (\<lambda>k.
     bnd pop_arg (\<lambda>len.
     bnd pop_arg (\<lambda>meta.
     bnd (check (INTEGER_P len) ''type error, expected <integer>'') (\<lambda>_.
     bnd (make_record (GET_INTEGRAL len) meta) (\<lambda>v.
     bnd (push_arg v) (\<lambda>_.
     tail_call k)))))))"

definition prim_record_ref :: "scm_value \<Rightarrow> scm_value rt" where
  "prim_record_ref self =
     bnd (arity 3 False) (\<lambda>_.
     bnd pop_arg (\<lambda>k.
     bnd pop_arg (\<lambda>rec.
     bnd pop_arg (\<lambda>idx.
     bnd (check (INTEGER_P idx) ''type error, expected <integer>'') (\<lambda>_.
     bnd (record_ref rec (GET_INTEGRAL idx)) (\<lambda>v.
     bnd (push_arg v) (\<lambda>_.
     tail_call k)))))))"

definition prim_record_set :: "scm_value \<Rightarrow> scm_value rt" where
  "prim_record_set self =
     bnd (arity 4 False) (\<lambda>_.
     bnd pop_arg (\<lambda>k.
     bnd pop_arg (\<lambda>rec.
     bnd pop_arg (\<lambda>idx.
     bnd pop_arg (\<lambda>val.
     bnd (check (INTEGER_P idx) ''type error, expected <integer>'') (\<lambda>_.
     bnd (record_set rec (GET_INTEGRAL idx) val) (\<lambda>v.
     bnd (push_arg v) (\<lambda>_.
     tail_call k))))))))"

definition prim_record_meta_ref :: "scm_value \<Rightarrow> scm_value rt" where
  "prim_record_meta_ref self =
     bnd (arity 2 False) (\<lambda>_.
     bnd pop_arg (\<lambda>k.
     bnd pop_arg (\<lambda>rec.
     bnd (check (RECORD_P rec) ''type error, expected <record>'') (\<lambda>_.
     bnd (deref_record (GET_OFF rec)) (\<lambda>(m, _).
     bnd (push_arg m) (\<lambda>_.
     tail_call k))))))"

definition prim_record_meta_set :: "scm_value \<Rightarrow> scm_value rt" where
  "prim_record_meta_set self =
     bnd (arity 3 False) (\<lambda>_.
     bnd pop_arg (\<lambda>k.
     bnd pop_arg (\<lambda>rec.
     bnd pop_arg (\<lambda>meta.
     bnd (record_meta_set rec meta) (\<lambda>v.
     bnd (push_arg v) (\<lambda>_.
     tail_call k))))))"

section \<open>Vectors\<close>

definition make_vector :: "nat \<Rightarrow> nat rt" where
  "make_vector len = new_obj (HVector (replicate len None))"

text \<open>\<open>vec->elems[i] = x\<close> on a vector whose header says nothing of the index.\<close>

definition vector_store :: "nat \<Rightarrow> scm_value option list \<Rightarrow> unit rt" where
  "vector_store off xs = assign off (HVector xs)"

definition primop_vector :: "scm_value rt" where
  "primop_vector =
     bnd arg_top (\<lambda>top.
     bnd (make_vector top) (\<lambda>i.
     bnd pop_all (\<lambda>xs.
     bnd (vector_store i (map Some xs)) (\<lambda>_.
     ret (heap_value tt_vector i)))))"

definition prim_vector :: "scm_value \<Rightarrow> scm_value rt" where
  "prim_vector self = return_to_k primop_vector"

definition primop_make_vector :: "scm_value rt" where
  "primop_make_vector =
     bnd (arity 1 True) (\<lambda>_.
     bnd pop_arg (\<lambda>vl.
     bnd (check (INTEGER_P vl) ''type error, expected <integer>'') (\<lambda>_.
     (let len = unat (GET_INTEGRAL vl) in
     bnd (make_vector len) (\<lambda>i.
     bnd arg_top (\<lambda>top.
     bnd (if top \<noteq> 0
          then bnd pop_arg (\<lambda>x. vector_store i (replicate len (Some x)))
          else ret ()) (\<lambda>_.
     ret (heap_value tt_vector i))))))))"

definition prim_make_vector :: "scm_value \<Rightarrow> scm_value rt" where
  "prim_make_vector self = return_to_k primop_make_vector"

definition primop_vector_len :: "scm_value rt" where
  "primop_vector_len =
     bnd (arity 1 False) (\<lambda>_.
     bnd pop_arg (\<lambda>v.
     bnd (check (VECTOR_P v) ''type error, expected <vector>'') (\<lambda>_.
     bnd (deref_vector (GET_OFF v)) (\<lambda>xs.
     lift (make_int (int (length xs)))))))"

definition prim_vector_len :: "scm_value \<Rightarrow> scm_value rt" where
  "prim_vector_len self = return_to_k primop_vector_len"

text \<open>The element, a boxed value, goes through \<open>make_int\<close>.\<close>

definition primop_vector_ref :: "scm_value rt" where
  "primop_vector_ref =
     bnd (arity 2 False) (\<lambda>_.
     bnd pop_arg (\<lambda>v.
     bnd pop_arg (\<lambda>i.
     bnd (check (VECTOR_P v) ''type error, expected <vector>'') (\<lambda>_.
     bnd (check (INTEGER_P i) ''type error, expected <integer>'') (\<lambda>_.
     bnd (deref_vector (GET_OFF v)) (\<lambda>xs.
     (let idx = unat (GET_INTEGRAL i) in
     bnd (check (idx < length xs) ''error index out of bounds'') (\<lambda>_.
     bnd (elem_at xs idx) (\<lambda>x.
     lift (make_int (sint x)))))))))))"

definition prim_vector_ref :: "scm_value \<Rightarrow> scm_value rt" where
  "prim_vector_ref self = return_to_k primop_vector_ref"

text \<open>Eight bytes of a value, least significant first, written at a byte offset.\<close>

definition bytes_of_value :: "scm_value \<Rightarrow> u8 list" where
  "bytes_of_value x = map (\<lambda>i. ucast (drop_bit (8 * i) x)) [0..<8]"

definition overwrite :: "nat \<Rightarrow> 'a list \<Rightarrow> 'a option list \<Rightarrow> 'a option list" where
  "overwrite off ys xs = take off xs @ map Some ys @ drop (off + length ys) xs"

text \<open>
  \<open>vector-set!\<close> asks for a bytevector and then writes through a vector pointer: the eight
  bytes from \<open>8 * idx\<close> on, checked against the number of bytes as if it counted values.
\<close>

definition primop_vector_set :: "scm_value rt" where
  "primop_vector_set =
     bnd (arity 3 False) (\<lambda>_.
     bnd pop_arg (\<lambda>v.
     bnd pop_arg (\<lambda>i.
     bnd pop_arg (\<lambda>x.
     bnd (check (BYTEVECTOR_P v) ''type error, expected <bytevector>'') (\<lambda>_.
     bnd (check (INTEGER_P i) ''type error, expected <integer>'') (\<lambda>_.
     bnd (deref_bytevector (GET_OFF v)) (\<lambda>bs.
     (let idx = unat (GET_INTEGRAL i) in
     bnd (check (idx < length bs) ''error index out of bounds'') (\<lambda>_.
     bnd (check_ub (8 * idx + 8 \<le> length bs) ''write past the end of an object'') (\<lambda>_.
     bnd (assign (GET_OFF v) (HBytevector (overwrite (8 * idx) (bytes_of_value x) bs))) (\<lambda>_.
     ret SCM_VOID)))))))))))"

definition prim_vector_set :: "scm_value \<Rightarrow> scm_value rt" where
  "prim_vector_set self = return_to_k primop_vector_set"

section \<open>Bytevectors\<close>

definition make_byevector :: "nat \<Rightarrow> nat rt" where
  "make_byevector len = new_obj (HBytevector (replicate len None))"

definition primop_make_bytevector :: "scm_value rt" where
  "primop_make_bytevector =
     bnd (arity 1 True) (\<lambda>_.
     bnd pop_arg (\<lambda>vl.
     bnd (check (INTEGER_P vl) ''type error, expected <integer>'') (\<lambda>_.
     (let len = unat (GET_INTEGRAL vl) in
     bnd (make_byevector len) (\<lambda>i.
     bnd arg_top (\<lambda>top.
     bnd (if top \<noteq> 0
          then bnd pop_arg (\<lambda>b.
               bnd (check (byte_p b) ''type error, expected <byte>'') (\<lambda>_.
               assign i (HBytevector (replicate len (Some (ucast (GET_INTEGRAL b)))))))
          else ret ()) (\<lambda>_.
     ret (heap_value tt_bytevector i))))))))"

definition prim_make_bytevector :: "scm_value \<Rightarrow> scm_value rt" where
  "prim_make_bytevector self = return_to_k primop_make_bytevector"

definition primop_bytevector_len :: "scm_value rt" where
  "primop_bytevector_len =
     bnd (arity 1 False) (\<lambda>_.
     bnd pop_arg (\<lambda>bv.
     bnd (check (BYTEVECTOR_P bv) ''type error, expected <bytevector>'') (\<lambda>_.
     bnd (deref_bytevector (GET_OFF bv)) (\<lambda>bs.
     lift (make_int (int (length bs)))))))"

definition prim_bytevector_len :: "scm_value \<Rightarrow> scm_value rt" where
  "prim_bytevector_len self = return_to_k primop_bytevector_len"

definition primop_bytevector_u8_ref :: "scm_value rt" where
  "primop_bytevector_u8_ref =
     bnd (arity 2 False) (\<lambda>_.
     bnd pop_arg (\<lambda>bv.
     bnd pop_arg (\<lambda>iv.
     bnd (check (BYTEVECTOR_P bv) ''type error, expected <bytevector>'') (\<lambda>_.
     bnd (check (INTEGER_P iv) ''type error, expected <integer>'') (\<lambda>_.
     bnd (deref_bytevector (GET_OFF bv)) (\<lambda>bs.
     (let idx = unat (GET_INTEGRAL iv) in
     bnd (check (idx < length bs) ''error index out of bounds'') (\<lambda>_.
     bnd (elem_at bs idx) (\<lambda>b.
     lift (make_int (uint b)))))))))))"

definition prim_bytevector_u8_ref :: "scm_value \<Rightarrow> scm_value rt" where
  "prim_bytevector_u8_ref self = return_to_k primop_bytevector_u8_ref"

definition primop_bytevector_u8_set :: "scm_value rt" where
  "primop_bytevector_u8_set =
     bnd (arity 3 False) (\<lambda>_.
     bnd pop_arg (\<lambda>bv.
     bnd pop_arg (\<lambda>iv.
     bnd pop_arg (\<lambda>byte.
     bnd (check (BYTEVECTOR_P bv) ''type error, expected <bytevector>'') (\<lambda>_.
     bnd (check (INTEGER_P iv) ''type error, expected <integer>'') (\<lambda>_.
     bnd (check (byte_p byte) ''type error, expected <byte>'') (\<lambda>_.
     bnd (deref_bytevector (GET_OFF bv)) (\<lambda>bs.
     (let idx = unat (GET_INTEGRAL iv) in
     bnd (check (idx < length bs) ''error index out of bounds'') (\<lambda>_.
     bnd (assign (GET_OFF bv) (HBytevector (bs[idx := Some (ucast (GET_INTEGRAL byte))]))) (\<lambda>_.
     ret SCM_VOID)))))))))))"

definition prim_bytevector_u8_set :: "scm_value \<Rightarrow> scm_value rt" where
  "prim_bytevector_u8_set self = return_to_k primop_bytevector_u8_set"

text \<open>The operands are popped and stored one by one, each checked first.\<close>

fun pop_bytes :: "nat \<Rightarrow> u8 list rt" where
  "pop_bytes 0 = ret []"
| "pop_bytes (Suc n) =
     bnd pop_arg (\<lambda>b.
     bnd (check (byte_p b) ''type error, expected <byte>'') (\<lambda>_.
     bnd (pop_bytes n) (\<lambda>bs.
     ret (ucast (GET_INTEGRAL b) # bs))))"

definition primop_bytevector :: "scm_value rt" where
  "primop_bytevector =
     bnd arg_top (\<lambda>len.
     bnd (make_byevector len) (\<lambda>i.
     bnd (pop_bytes len) (\<lambda>bs.
     bnd (assign i (HBytevector (map Some bs))) (\<lambda>_.
     ret (heap_value tt_bytevector i)))))"

definition prim_bytevector :: "scm_value \<Rightarrow> scm_value rt" where
  "prim_bytevector self = return_to_k primop_bytevector"

section \<open>Type predicates\<close>

definition prim_void :: "scm_value \<Rightarrow> scm_value rt" where
  "prim_void self =
     bnd pop_arg (\<lambda>k. bnd (push_arg SCM_VOID) (\<lambda>_. tail_call k))"

text \<open>
  A predicate macro applied to \<open>pop_arg ()\<close>. Those that name their argument once pop once;
  \<open>PAIR_P\<close>, \<open>NUMBER_P\<close> and \<open>PROCEDURE_P\<close> name it again where the first test does not
  decide.
\<close>

definition once_pop :: "(scm_value \<Rightarrow> bool) \<Rightarrow> bool rt" where
  "once_pop p = bnd pop_arg (\<lambda>v. ret (p v))"

definition PAIR_P_pop :: "bool rt" where
  "PAIR_P_pop =
     bnd pop_arg (\<lambda>v.
     if TYPEOF v = NB tt_pair then bnd pop_arg (\<lambda>w. ret (\<not> NULL_P w)) else ret False)"

definition PROCEDURE_P_pop :: "bool rt" where
  "PROCEDURE_P_pop =
     bnd pop_arg (\<lambda>u.
     if CLOSURE_P u then ret True
     else bnd pop_arg (\<lambda>v.
          if FUNCTION_P v then ret True
          else bnd pop_arg (\<lambda>w.
               if CLOSURE_P w
               then bnd pop_arg (\<lambda>x. bnd (deref_closure (GET_OFF x)) (\<lambda>(is_cont, _, _). ret is_cont))
               else ret False)))"

definition type_pred :: "nat \<Rightarrow> bool rt \<Rightarrow> scm_value rt" where
  "type_pred n test =
     bnd (arity n False) (\<lambda>_.
     bnd pop_arg (\<lambda>k.
     bnd test (\<lambda>b.
     bnd (push_arg (ITOBOOL b)) (\<lambda>_.
     tail_call k))))"

definition prim_boolean_p :: "scm_value \<Rightarrow> scm_value rt" where
  "prim_boolean_p self = type_pred 2 (once_pop BOOLEAN_P)"

definition prim_char_p :: "scm_value \<Rightarrow> scm_value rt" where
  "prim_char_p self = type_pred 2 (once_pop CHAR_P)"

definition prim_null_p :: "scm_value \<Rightarrow> scm_value rt" where
  "prim_null_p self = type_pred 2 (once_pop NULL_P)"

definition prim_pair_p :: "scm_value \<Rightarrow> scm_value rt" where
  "prim_pair_p self = type_pred 2 PAIR_P_pop"

definition prim_procedure_p :: "scm_value \<Rightarrow> scm_value rt" where
  "prim_procedure_p self = type_pred 2 PROCEDURE_P_pop"

definition prim_symbol_p :: "scm_value \<Rightarrow> scm_value rt" where
  "prim_symbol_p self = type_pred 2 (once_pop SYMBOL_P)"

definition prim_bytevector_p :: "scm_value \<Rightarrow> scm_value rt" where
  "prim_bytevector_p self = type_pred 2 (once_pop BYTEVECTOR_P)"

definition prim_number_p :: "scm_value \<Rightarrow> scm_value rt" where
  "prim_number_p self = type_pred 2 NUMBER_P_pop"

definition prim_string_p :: "scm_value \<Rightarrow> scm_value rt" where
  "prim_string_p self = type_pred 1 (once_pop STRING_P)"

definition prim_vector_p :: "scm_value \<Rightarrow> scm_value rt" where
  "prim_vector_p self = type_pred 2 (once_pop VECTOR_P)"

definition prim_record_p :: "scm_value \<Rightarrow> scm_value rt" where
  "prim_record_p self = type_pred 2 (once_pop RECORD_P)"

section \<open>Identity\<close>

definition primop_eq :: "scm_value rt" where
  "primop_eq =
     bnd (arity 2 False) (\<lambda>_.
     bnd pop_arg (\<lambda>obj1.
     bnd pop_arg (\<lambda>obj2.
     if SYMBOL_P obj1 \<and> SYMBOL_P obj2 then
       bnd (deref_symbol (GET_OFF obj1)) (\<lambda>(h1, _).
       bnd (deref_symbol (GET_OFF obj2)) (\<lambda>(h2, _).
       ret (ITOBOOL (h1 = h2))))
     else ret (ITOBOOL (obj1 = obj2)))))"

definition prim_eq :: "scm_value \<Rightarrow> scm_value rt" where
  "prim_eq self = return_to_k primop_eq"

definition primop_eqv :: "scm_value rt" where
  "primop_eqv =
     bnd (arity 2 False) (\<lambda>_.
     bnd pop_arg (\<lambda>x.
     bnd pop_arg (\<lambda>y.
     if NUMBER_P x \<and> NUMBER_P y then bnd (lift (num_eqxx x y)) (\<lambda>b. ret (ITOBOOL b))
     else bnd (push_arg y) (\<lambda>_. bnd (push_arg x) (\<lambda>_. primop_eq)))))"

definition prim_eqv :: "scm_value \<Rightarrow> scm_value rt" where
  "prim_eqv self = return_to_k primop_eqv"

end
