(* ===== verification/Scm_Strings.thy ===== *)
theory Scm_Strings
  imports Scm_Vectors
begin

text \<open>
  Strings of scheme/scm_runtime.c: a header with an offset and a length over a buffer that
  several strings may share, one byte or four to a character. The buffer is reached through
  a C pointer, so every access checks that the block it points into is still the heap's.
\<close>

section \<open>Buffers\<close>

definition CHAR_MAX :: int where
  "CHAR_MAX = 127"

definition char_width :: "bool \<Rightarrow> nat" where
  "char_width wc = (if wc then 4 else 1)"

definition make_sb :: "nat \<Rightarrow> bool \<Rightarrow> bool \<Rightarrow> cptr rt" where
  "make_sb n wc ro =
     (let len = n * char_width wc in
      bnd (new_obj (HBuf \<lparr>sb_len = of_nat len, sb_rc = 1, sb_wc = wc, sb_ro = ro,
                          sb_bytes = replicate len None\<rparr>)) (\<lambda>i.
      bnd cur_base (\<lambda>b. ret (b, i))))"

definition buf_ref :: "cptr \<Rightarrow> shared_buf rt" where
  "buf_ref p = bnd (same_base (fst p)) (\<lambda>_. deref_buf (snd p))"

definition buf_assign :: "cptr \<Rightarrow> shared_buf \<Rightarrow> unit rt" where
  "buf_assign p sb = bnd (same_base (fst p)) (\<lambda>_. assign (snd p) (HBuf sb))"

text \<open>The bytes of one character, least significant first, and back.\<close>

definition wchar_bytes :: "int \<Rightarrow> u8 list" where
  "wchar_bytes ch = map (\<lambda>i. ucast (drop_bit (8 * i) (word_of_int ch :: u32))) [0..<4]"

definition wchar_of_bytes :: "u8 list \<Rightarrow> int" where
  "wchar_of_bytes bs =
     sint (foldr (\<lambda>b acc. push_bit 8 acc OR ucast b) bs 0 :: u32)"

text \<open>\<open>p32[i] = p8[off + i]\<close>: each byte becomes the low byte of a wide character.\<close>

definition sb_narrow_to_wide :: "cptr \<Rightarrow> u32 \<Rightarrow> u32 \<Rightarrow> cptr rt" where
  "sb_narrow_to_wide p off len =
     bnd (buf_ref p) (\<lambda>sb0.
     bnd (make_sb (unat len) True (sb_ro sb0)) (\<lambda>q.
     bnd (buf_ref p) (\<lambda>sb.
     (let n = unat (sb_len sb); o' = unat off in
     bnd (check_ub (o' + n \<le> length (sb_bytes sb)) ''read past the end of an object'') (\<lambda>_.
     bnd (check_ub (n \<le> unat len) ''write past the end of an object'') (\<lambda>_.
     bnd (buf_ref q) (\<lambda>nsb.
     bnd (buf_assign q (nsb\<lparr>sb_bytes :=
            concat (map (\<lambda>b. [b, Some 0, Some 0, Some 0]) (take n (drop o' (sb_bytes sb))))
            @ drop (4 * n) (sb_bytes nsb)\<rparr>)) (\<lambda>_.
     ret q))))))))"

definition sb_copy :: "cptr \<Rightarrow> u32 \<Rightarrow> u32 \<Rightarrow> cptr rt" where
  "sb_copy p off len0 =
     bnd (buf_ref p) (\<lambda>sb0.
     (let w = char_width (sb_wc sb0); len = unat (of_nat (unat len0 * w) :: u32) in
     bnd (make_sb len (sb_wc sb0) False) (\<lambda>q.
     bnd (buf_ref p) (\<lambda>sb.
     (let start = unat off * w in
     bnd (check_ub (start + len \<le> length (sb_bytes sb)) ''read past the end of an object'') (\<lambda>_.
     bnd (buf_ref q) (\<lambda>nsb.
     bnd (buf_assign q (nsb\<lparr>sb_bytes := take len (drop start (sb_bytes sb))
                              @ drop len (sb_bytes nsb)\<rparr>)) (\<lambda>_.
     ret q))))))))"

text \<open>\<open>make_ascii_buf\<close>, for the string constants of a program.\<close>

definition make_ascii_buf :: "u8 list \<Rightarrow> cptr rt" where
  "make_ascii_buf txt =
     bnd (make_sb (length txt) False True) (\<lambda>q.
     bnd (buf_ref q) (\<lambda>sb.
     bnd (buf_assign q (sb\<lparr>sb_len := of_nat (length txt), sb_ro := False, sb_wc := False,
            sb_bytes := map Some txt\<rparr>)) (\<lambda>_.
     ret q)))"

section \<open>Characters of a string\<close>

definition make_string :: "nat \<Rightarrow> bool \<Rightarrow> bool \<Rightarrow> nat rt" where
  "make_string len wc ro =
     bnd (scm_heap_alloc 24) (\<lambda>i.
     bnd cur_base (\<lambda>b.
     bnd (make_sb len wc ro) (\<lambda>p.
     bnd (same_base b) (\<lambda>_.
     bnd (write_new i (HString 0 (of_nat len) p)) (\<lambda>_.
     ret i)))))"

text \<open>A run of bytes that must all have been written.\<close>

definition read_bytes :: "nat \<Rightarrow> nat \<Rightarrow> u8 option list \<Rightarrow> u8 list rt" where
  "read_bytes start n bs =
     (if start + n > length bs then fail (UB ''read past the end of an object'')
      else if None \<in> set (take n (drop start bs)) then fail (UB ''indeterminate value'')
      else ret (map the (take n (drop start bs))))"

definition string_ref :: "nat \<Rightarrow> nat \<Rightarrow> int rt" where
  "string_ref s i =
     bnd (deref_string s) (\<lambda>(off, _, p).
     bnd (buf_ref p) (\<lambda>sb.
     (let w = char_width (sb_wc sb) in
     bnd (read_bytes ((unat off + i) * w) w (sb_bytes sb)) (\<lambda>bs.
     ret (if sb_wc sb then wchar_of_bytes bs else sint (hd bs))))))"

definition string_set :: "nat \<Rightarrow> nat \<Rightarrow> int \<Rightarrow> unit rt" where
  "string_set s i ch =
     bnd cur_base (\<lambda>b.
     bnd (deref_string s) (\<lambda>(off, len, p).
     bnd (buf_ref p) (\<lambda>sb.
     bnd (check (\<not> sb_ro sb) ''Error string is read-only'') (\<lambda>_.
     bnd (if ch > CHAR_MAX \<and> \<not> sb_wc sb then
            bnd (sb_narrow_to_wide p off len) (\<lambda>q.
            bnd (same_base b) (\<lambda>_.
            bnd (assign s (HString off len q)) (\<lambda>_. ret q)))
          else if sb_rc sb > 1 then
            bnd (sb_copy p off len) (\<lambda>q.
            bnd (same_base b) (\<lambda>_.
            bnd (assign s (HString off len q)) (\<lambda>_. ret q)))
          else ret p) (\<lambda>q.
     bnd (buf_ref q) (\<lambda>sb'.
     (let w = char_width (sb_wc sb'); start = (unat off + i) * w in
     bnd (check_ub (start + w \<le> length (sb_bytes sb')) ''write past the end of an object'') (\<lambda>_.
     buf_assign q (sb'\<lparr>sb_bytes :=
       overwrite start (if sb_wc sb' then wchar_bytes ch else [word_of_int ch]) (sb_bytes sb')\<rparr>)))))))))"

section \<open>The string primitives\<close>

text \<open>The scan for a wide character: it stops at the first one, and checks no type after it.\<close>

fun any_wide :: "scm_value list \<Rightarrow> bool result" where
  "any_wide [] = Inr False"
| "any_wide (ch # xs) =
     rbind (rcheck (CHAR_P ch) ''type error, expected <character>'') (\<lambda>_.
     if int_of ch > CHAR_MAX then Inr True else any_wide xs)"

fun pop_chars :: "nat \<Rightarrow> nat \<Rightarrow> nat \<Rightarrow> unit rt" where
  "pop_chars 0 str i = ret ()"
| "pop_chars (Suc n) str i =
     bnd pop_arg (\<lambda>v.
     bnd (string_set str i (int_of v)) (\<lambda>_.
     pop_chars n str (Suc i)))"

definition primop_string :: "scm_value rt" where
  "primop_string =
     bnd (arity 0 True) (\<lambda>_.
     bnd arg_top (\<lambda>len.
     bnd (gets arg_stk) (\<lambda>xs.
     bnd (lift (any_wide xs)) (\<lambda>wc.
     bnd (make_string len wc False) (\<lambda>str.
     bnd (pop_chars len str 0) (\<lambda>_.
     ret (heap_value tt_string str)))))))"

definition prim_string :: "scm_value \<Rightarrow> scm_value rt" where
  "prim_string self = return_to_k primop_string"

fun fill_chars :: "nat \<Rightarrow> nat \<Rightarrow> nat \<Rightarrow> int \<Rightarrow> unit rt" where
  "fill_chars 0 str i ch = ret ()"
| "fill_chars (Suc n) str i ch =
     bnd (string_set str i ch) (\<lambda>_. fill_chars n str (Suc i) ch)"

definition primop_make_string :: "scm_value rt" where
  "primop_make_string =
     bnd (arity 1 True) (\<lambda>_.
     bnd pop_arg (\<lambda>len.
     bnd (check (INTEGER_P len) ''type error, expected <character>'') (\<lambda>_.
     bnd arg_top (\<lambda>top.
     bnd (if top \<noteq> 0
          then bnd pop_arg (\<lambda>ch.
               bnd (check (CHAR_P ch) ''type error, expected <character>'') (\<lambda>_.
               ret (ch, int_of ch > CHAR_MAX)))
          else ret (SCM_FALSE, False)) (\<lambda>(ch, wc).
     (let l = unat (GET_INTEGRAL len) in
     bnd (make_string l wc False) (\<lambda>str.
     bnd (if CHAR_P ch then fill_chars l str 0 (int_of ch) else ret ()) (\<lambda>_.
     ret (heap_value tt_string str)))))))))"

definition prim_make_string :: "scm_value \<Rightarrow> scm_value rt" where
  "prim_make_string self = return_to_k primop_make_string"

definition primop_string_len :: "scm_value rt" where
  "primop_string_len =
     bnd (arity 1 False) (\<lambda>_.
     bnd pop_arg (\<lambda>v.
     bnd (check (STRING_P v) ''type error, expected <string>'') (\<lambda>_.
     bnd (deref_string (GET_OFF v)) (\<lambda>(_, len, _).
     lift (make_int (uint len))))))"

definition prim_string_len :: "scm_value \<Rightarrow> scm_value rt" where
  "prim_string_len self = return_to_k primop_string_len"

definition primop_string_ref :: "scm_value rt" where
  "primop_string_ref =
     bnd (arity 2 False) (\<lambda>_.
     bnd pop_arg (\<lambda>str.
     bnd pop_arg (\<lambda>idx.
     bnd (check (STRING_P str) ''type error, expected <string>'') (\<lambda>_.
     bnd (check (INTEGER_P idx) ''type error, expected <integer>'') (\<lambda>_.
     bnd (deref_string (GET_OFF str)) (\<lambda>(_, len, _).
     bnd (check (int_of idx \<ge> 0) ''value error, index expected to be non-negative integer'') (\<lambda>_.
     bnd (check (int_of idx < uint len) ''value error, index out of bounds'') (\<lambda>_.
     bnd (string_ref (GET_OFF str) (nat (int_of idx))) (\<lambda>c.
     lift (make_char c))))))))))"

definition prim_string_ref :: "scm_value \<Rightarrow> scm_value rt" where
  "prim_string_ref self = return_to_k primop_string_ref"

text \<open>The copy shares the buffer; its reference count is left as it is.\<close>

definition string_copy :: "scm_value \<Rightarrow> u32 \<Rightarrow> u32 \<Rightarrow> scm_value rt" where
  "string_copy str start end' =
     bnd (scm_heap_alloc 24) (\<lambda>i.
     bnd (deref_string (GET_OFF str)) (\<lambda>(_, _, p).
     bnd (write_new i (HString start (end' - start) p)) (\<lambda>_.
     ret (heap_value tt_string i))))"

definition primop_string_copy :: "scm_value rt" where
  "primop_string_copy =
     bnd (arity 1 True) (\<lambda>_.
     bnd pop_arg (\<lambda>str.
     bnd (check (STRING_P str) ''type error expected <string>'') (\<lambda>_.
     bnd (deref_string (GET_OFF str)) (\<lambda>(_, len, _).
     bnd arg_top (\<lambda>top.
     if top = 1 then
       bnd pop_arg (\<lambda>start.
       bnd (check (INTEGER_P start) ''type error expected <integer>'') (\<lambda>_.
       string_copy str (GET_INTEGRAL start) len))
     else if top = 2 then
       bnd pop_arg (\<lambda>start.
       bnd pop_arg (\<lambda>end'.
       bnd (check (INTEGER_P start) ''type error expected <integer>'') (\<lambda>_.
       bnd (check (INTEGER_P end') ''type error expected <integer>'') (\<lambda>_.
       string_copy str (GET_INTEGRAL start) (GET_INTEGRAL end')))))
     else fail (Assert ''arity error''))))))"

definition prim_string_copy :: "scm_value \<Rightarrow> scm_value rt" where
  "prim_string_copy self = return_to_k primop_string_copy"

definition primop_string_set :: "scm_value rt" where
  "primop_string_set =
     bnd (arity 3 False) (\<lambda>_.
     bnd pop_arg (\<lambda>str.
     bnd pop_arg (\<lambda>idx.
     bnd pop_arg (\<lambda>ch.
     bnd (check (STRING_P str) ''type error, expected <string>'') (\<lambda>_.
     bnd (check (INTEGER_P idx) ''type error, expected <integer>'') (\<lambda>_.
     bnd (check (CHAR_P ch) ''type error, expected <character>'') (\<lambda>_.
     bnd (deref_string (GET_OFF str)) (\<lambda>(_, len, _).
     bnd (check (int_of idx \<ge> 0) ''value error, index expected to be non-negative integer'') (\<lambda>_.
     bnd (check (int_of idx < uint len) ''value error, index out of bounds'') (\<lambda>_.
     bnd (string_set (GET_OFF str) (nat (int_of idx)) (int_of ch)) (\<lambda>_.
     ret SCM_VOID)))))))))))"

definition prim_string_set :: "scm_value \<Rightarrow> scm_value rt" where
  "prim_string_set self = return_to_k primop_string_set"

section \<open>Comparison of strings\<close>

text \<open>The first pair of different characters among \<open>n\<close> from index \<open>i\<close> on.\<close>

fun first_diff :: "nat \<Rightarrow> nat \<Rightarrow> nat \<Rightarrow> nat \<Rightarrow> (int \<times> int) option rt" where
  "first_diff 0 i s1 s2 = ret None"
| "first_diff (Suc n) i s1 s2 =
     bnd (string_ref s1 i) (\<lambda>c1.
     bnd (string_ref s2 i) (\<lambda>c2.
     if c1 \<noteq> c2 then ret (Some (c1, c2)) else first_diff n (Suc i) s1 s2))"

definition two_strings :: "scm_value \<Rightarrow> scm_value \<Rightarrow> (u32 \<times> u32) rt" where
  "two_strings v1 v2 =
     bnd (check (STRING_P v1) ''type error, expected <string>'') (\<lambda>_.
     bnd (check (STRING_P v2) ''type error, expected <string>'') (\<lambda>_.
     bnd (deref_string (GET_OFF v1)) (\<lambda>(_, l1, _).
     bnd (deref_string (GET_OFF v2)) (\<lambda>(_, l2, _).
     ret (l1, l2)))))"

definition string_eq :: "scm_value \<Rightarrow> scm_value \<Rightarrow> bool rt" where
  "string_eq v1 v2 =
     bnd (two_strings v1 v2) (\<lambda>(l1, l2).
     if l1 \<noteq> l2 then ret False
     else bnd (first_diff (unat l1) 0 (GET_OFF v1) (GET_OFF v2)) (\<lambda>d. ret (d = None)))"

definition string_less :: "scm_value \<Rightarrow> scm_value \<Rightarrow> bool rt" where
  "string_less v1 v2 =
     bnd (two_strings v1 v2) (\<lambda>(l1, l2).
     bnd (first_diff (min (unat l1) (unat l2)) 0 (GET_OFF v1) (GET_OFF v2)) (\<lambda>d.
     ret (case d of Some (c1, c2) \<Rightarrow> c1 < c2 | None \<Rightarrow> l1 < l2)))"

definition string_gr :: "scm_value \<Rightarrow> scm_value \<Rightarrow> bool rt" where
  "string_gr v1 v2 =
     bnd (two_strings v1 v2) (\<lambda>(l1, l2).
     bnd (first_diff (min (unat l1) (unat l2)) 0 (GET_OFF v1) (GET_OFF v2)) (\<lambda>d.
     ret (case d of Some (c1, c2) \<Rightarrow> c1 > c2 | None \<Rightarrow> l1 > l2)))"

definition string_leq :: "scm_value \<Rightarrow> scm_value \<Rightarrow> bool rt" where
  "string_leq v1 v2 =
     bnd (two_strings v1 v2) (\<lambda>(l1, l2).
     bnd (first_diff (min (unat l1) (unat l2)) 0 (GET_OFF v1) (GET_OFF v2)) (\<lambda>d.
     ret (case d of Some (c1, c2) \<Rightarrow> c1 < c2 | None \<Rightarrow> l1 \<le> l2)))"

definition string_geq :: "scm_value \<Rightarrow> scm_value \<Rightarrow> bool rt" where
  "string_geq v1 v2 =
     bnd (two_strings v1 v2) (\<lambda>(l1, l2).
     bnd (first_diff (min (unat l1) (unat l2)) 0 (GET_OFF v1) (GET_OFF v2)) (\<lambda>d.
     ret (case d of Some (c1, c2) \<Rightarrow> c1 > c2 | None \<Rightarrow> l1 \<ge> l2)))"

text \<open>
  The variadic forms compare the first operand with each of the others, not neighbours.
\<close>

fun drain_strings :: "nat \<Rightarrow> unit rt" where
  "drain_strings 0 = ret ()"
| "drain_strings (Suc n) =
     bnd arg_top (\<lambda>top.
     if top = 0 then ret ()
     else bnd pop_arg (\<lambda>v.
          bnd (check (STRING_P v) ''type error expected <number>'') (\<lambda>_. drain_strings n)))"

fun against_first :: "(scm_value \<Rightarrow> scm_value \<Rightarrow> bool rt) \<Rightarrow> nat \<Rightarrow> scm_value \<Rightarrow> scm_value rt" where
  "against_first cmp 0 x = ret SCM_TRUE"
| "against_first cmp (Suc n) x =
     bnd pop_arg (\<lambda>y.
     bnd (cmp x y) (\<lambda>b.
     if \<not> b then ret SCM_FALSE else against_first cmp n x))"

definition primop_string_compare :: "(scm_value \<Rightarrow> scm_value \<Rightarrow> bool rt) \<Rightarrow> scm_value rt" where
  "primop_string_compare cmp =
     bnd (arity 0 True) (\<lambda>_.
     bnd arg_top (\<lambda>top.
     if top < 2 then bnd (drain_strings top) (\<lambda>_. ret SCM_TRUE)
     else bnd pop_arg (\<lambda>x. bnd arg_top (\<lambda>n. against_first cmp n x))))"

definition primop_string_eq :: "scm_value rt" where
  "primop_string_eq = primop_string_compare string_eq"

definition prim_string_eq :: "scm_value \<Rightarrow> scm_value rt" where
  "prim_string_eq self = return_to_k primop_string_eq"

definition primop_string_less :: "scm_value rt" where
  "primop_string_less = primop_string_compare string_less"

definition prim_string_less :: "scm_value \<Rightarrow> scm_value rt" where
  "prim_string_less self = return_to_k primop_string_less"

definition primop_string_gr :: "scm_value rt" where
  "primop_string_gr = primop_string_compare string_gr"

definition prim_string_gr :: "scm_value \<Rightarrow> scm_value rt" where
  "prim_string_gr self = return_to_k primop_string_gr"

definition primop_string_leq :: "scm_value rt" where
  "primop_string_leq = primop_string_compare string_leq"

definition prim_string_leq :: "scm_value \<Rightarrow> scm_value rt" where
  "prim_string_leq self = return_to_k primop_string_leq"

definition primop_string_geq :: "scm_value rt" where
  "primop_string_geq = primop_string_compare string_geq"

definition prim_string_geq :: "scm_value \<Rightarrow> scm_value rt" where
  "prim_string_geq self = return_to_k primop_string_geq"

section \<open>Structural equality\<close>

text \<open>
  \<open>equal?\<close>: the operands come from the stack and so do those of the recursive calls. Two
  bytevectors are compared through one and the same pointer.
\<close>

fun primop_equal :: "nat \<Rightarrow> scm_value rt"
  and equal_elems :: "nat \<Rightarrow> (scm_value option \<times> scm_value option) list \<Rightarrow> scm_value rt" where
  "primop_equal 0 = fail NoFuel"
| "primop_equal (Suc n) =
     bnd (arity 2 False) (\<lambda>_.
     bnd pop_arg (\<lambda>x.
     bnd pop_arg (\<lambda>y.
     if NUMBER_P x \<and> NUMBER_P y then bnd (lift (num_eqxx x y)) (\<lambda>b. ret (ITOBOOL b))
     else if STRING_P x \<and> STRING_P y then
       bnd (push_arg y) (\<lambda>_. bnd (push_arg x) (\<lambda>_. primop_string_eq))
     else if VECTOR_P x \<and> VECTOR_P y then
       bnd (deref_vector (GET_OFF x)) (\<lambda>xs.
       bnd (deref_vector (GET_OFF y)) (\<lambda>ys.
       if length xs = length ys then equal_elems n (zip xs ys) else ret SCM_FALSE))
     else if BYTEVECTOR_P x \<and> BYTEVECTOR_P y then
       bnd (deref_bytevector (GET_OFF x)) (\<lambda>b1.
       bnd (deref_bytevector (GET_OFF x)) (\<lambda>b2.
       ret (ITOBOOL (length b1 = length b2 \<and> b1 = b2))))
     else bnd (push_arg y) (\<lambda>_. bnd (push_arg x) (\<lambda>_. primop_eqv)))))"
| "equal_elems n [] = ret SCM_TRUE"
| "equal_elems n ((a, b) # ps) =
     bnd (elem_at [b] 0) (\<lambda>y.
     bnd (push_arg y) (\<lambda>_.
     bnd (elem_at [a] 0) (\<lambda>x.
     bnd (push_arg x) (\<lambda>_.
     bnd (primop_equal n) (\<lambda>r.
     if r = SCM_FALSE then ret SCM_FALSE else equal_elems n ps)))))"

definition prim_equal :: "nat \<Rightarrow> scm_value \<Rightarrow> scm_value rt" where
  "prim_equal fuel self = return_to_k (primop_equal fuel)"

end
