(* ===== verification/Scm_Constants.thy ===== *)
theory Scm_Constants
  imports Scm_Strings
begin

text \<open>
  Constants of a compiled program (scheme/scm_runtime.c): \<open>init_constant\<close> builds the heap
  object of a static description, and \<open>scm_intern_constants\<close> fills the module's table of
  values with them. A constant may name another one by its index in the table, so the
  recursion of the source is fuelled.
\<close>

section \<open>The intern table\<close>

text \<open>\<open>interned\<close> is the table entered last; its element 0 is the number of values.\<close>

definition interned_ref :: "nat \<Rightarrow> scm_value rt" where
  "interned_ref idx s =
     (if intern_tbl s \<noteq> [] \<and> idx < length (last (intern_tbl s))
      then Inr (last (intern_tbl s) ! idx, s)
      else Inl (UB ''read past the end of the intern table''))"

definition interned_set :: "nat \<Rightarrow> scm_value \<Rightarrow> unit rt" where
  "interned_set idx v s =
     (if intern_tbl s \<noteq> [] \<and> idx < length (last (intern_tbl s))
      then Inr ((), s\<lparr>intern_tbl := butlast (intern_tbl s) @ [(last (intern_tbl s))[idx := v]]\<rparr>)
      else Inl (UB ''write past the end of the intern table''))"

definition constant_at :: "nat \<Rightarrow> sconst rt" where
  "constant_at i s =
     (if i < length (constants s) then Inr (constants s ! i, s)
      else Inl (UB ''read past the end of the constants''))"

definition load_interned_constant :: "nat \<Rightarrow> scm_value rt" where
  "load_interned_constant idx = interned_ref idx"

section \<open>Building constants\<close>

text \<open>The union holds another member than the tag says.\<close>

definition bad_union :: "'a rt" where
  "bad_union = fail (UB ''constant read through another member'')"

definition init_string :: "u8 list \<Rightarrow> scm_value rt" where
  "init_string txt =
     bnd (scm_heap_alloc 24) (\<lambda>i.
     bnd cur_base (\<lambda>b.
     bnd (make_ascii_buf txt) (\<lambda>p.
     bnd (same_base b) (\<lambda>_.
     bnd (write_new i (HString 0 (of_nat (length txt)) p)) (\<lambda>_.
     ret (heap_value tt_string i))))))"

definition init_symbol :: "u64 \<Rightarrow> u8 list \<Rightarrow> scm_value rt" where
  "init_symbol hash name =
     bnd (new_obj (HSymbol hash name)) (\<lambda>i. ret (heap_value tt_symbol i))"

definition init_bytevector :: "u8 list \<Rightarrow> scm_value rt" where
  "init_bytevector bs =
     bnd (new_obj (HBytevector (map Some bs))) (\<lambda>i. ret (heap_value tt_bytevector i))"

text \<open>\<open>v->elems[i] = x\<close> through the pointer taken when the vector was allocated.\<close>

definition vector_init :: "nat \<Rightarrow> nat \<Rightarrow> nat \<Rightarrow> scm_value \<Rightarrow> unit rt" where
  "vector_init b off i x =
     bnd (same_base b) (\<lambda>_.
     bnd (deref_vector off) (\<lambda>xs.
     assign off (HVector (xs[i := Some x]))))"

fun init_constant :: "nat \<Rightarrow> sconst \<Rightarrow> scm_value rt"
  and init_elems :: "nat \<Rightarrow> nat \<Rightarrow> nat \<Rightarrow> nat \<Rightarrow> sconst list \<Rightarrow> unit rt"
  and init_conses :: "nat \<Rightarrow> scm_value \<Rightarrow> sconst list \<Rightarrow> scm_value rt"
  and make_constant :: "nat \<Rightarrow> nat \<Rightarrow> scm_value rt" where
  "init_constant 0 c = fail NoFuel"
| "init_constant (Suc n) c =
     (case const_tt c of
        tt_inf \<Rightarrow> fail (Assert ''Invalid type'')
      | tt_nan \<Rightarrow> fail (Assert ''Invalid type'')
      | tt_bool \<Rightarrow> (case const_u c of U_int i \<Rightarrow> ret (ITOBOOL (i \<noteq> 0)) | _ \<Rightarrow> bad_union)
      | tt_char \<Rightarrow> (case const_u c of U_int i \<Rightarrow> lift (make_char i) | _ \<Rightarrow> bad_union)
      | tt_int \<Rightarrow> (case const_u c of U_int i \<Rightarrow> lift (make_int i) | _ \<Rightarrow> bad_union)
      | tt_float \<Rightarrow> (case const_u c of U_float f \<Rightarrow> ret (make_float f) | _ \<Rightarrow> bad_union)
      | tt_pair \<Rightarrow>
          (case const_u c of
             U_null \<Rightarrow> ret SCM_NULL
           | U_list cs \<Rightarrow>
               bnd (check (length cs \<ge> 2) ''i >= 2'') (\<lambda>_.
               bnd (init_constant n (last cs)) (\<lambda>v. init_conses n v (rev (butlast cs))))
           | _ \<Rightarrow> bad_union)
      | tt_symbol \<Rightarrow> (case const_u c of U_symbol h nm \<Rightarrow> init_symbol h nm | _ \<Rightarrow> bad_union)
      | tt_bytevector \<Rightarrow> (case const_u c of U_bytevector bs \<Rightarrow> init_bytevector bs | _ \<Rightarrow> bad_union)
      | tt_string \<Rightarrow> (case const_u c of U_string txt \<Rightarrow> init_string txt | _ \<Rightarrow> bad_union)
      | tt_vector \<Rightarrow>
          (case const_u c of
             U_vector cs \<Rightarrow>
               bnd (new_obj (HVector (replicate (length cs) None))) (\<lambda>off.
               bnd cur_base (\<lambda>b.
               bnd (init_elems n b off 0 cs) (\<lambda>_.
               ret (heap_value tt_vector off))))
           | _ \<Rightarrow> bad_union)
      | tt_box \<Rightarrow> (case const_u c of U_int i \<Rightarrow> make_constant n (nat (i mod 2 ^ 64)) | _ \<Rightarrow> bad_union)
      | tt_void \<Rightarrow> ret SCM_VOID
      | tt_record \<Rightarrow> fail (Assert ''unimplemented'')
      | tt_closure \<Rightarrow> fail (Assert ''unimplemented'')
      | tt_bigint \<Rightarrow> fail (Assert ''unimplemented'')
      | tt_function \<Rightarrow> fail (Assert ''unimplemented'')
      | TT_COUNT \<Rightarrow> fail (Assert ''Invalid type''))"
| "init_elems n b off i [] = ret ()"
| "init_elems n b off i (c # cs) =
     bnd (init_constant n c) (\<lambda>x.
     bnd (vector_init b off i x) (\<lambda>_.
     init_elems n b off (Suc i) cs))"
| "init_conses n lst [] = ret lst"
| "init_conses n lst (c # cs) =
     bnd (init_constant n c) (\<lambda>x.
     bnd (scm_cons x lst) (\<lambda>lst'.
     init_conses n lst' cs))"
| "make_constant n idx =
     bnd (interned_ref idx) (\<lambda>c.
     if c \<noteq> 0 then ret c
     else bnd (constant_at (idx - 1)) (\<lambda>cnst.
          (case n of 0 \<Rightarrow> fail NoFuel | Suc m \<Rightarrow>
          bnd (init_constant m cnst) (\<lambda>v.
          bnd (interned_set idx v) (\<lambda>_. ret v)))))"

fun intern_from :: "nat \<Rightarrow> nat \<Rightarrow> nat \<Rightarrow> unit rt" where
  "intern_from fuel 0 i = ret ()"
| "intern_from fuel (Suc k) i =
     bnd (make_constant fuel i) (\<lambda>v.
     bnd (interned_set i v) (\<lambda>_. intern_from fuel k (Suc i)))"

definition scm_intern_constants :: "nat \<Rightarrow> sconst list \<Rightarrow> unit rt" where
  "scm_intern_constants fuel cs =
     bnd (modify (\<lambda>s. s\<lparr>constants := cs,
            intern_tbl := intern_tbl s @ [of_nat (length cs) # replicate (length cs) 0]\<rparr>)) (\<lambda>_.
     intern_from fuel (length cs) 1)"

section \<open>What a built constant is\<close>

text \<open>
  \<open>reps p lo c v\<close>: in pool \<open>p\<close> the value \<open>v\<close> is the constant \<open>c\<close>, made of objects
  at offsets from \<open>lo\<close> on.
\<close>

inductive reps :: "mem_pool \<Rightarrow> nat \<Rightarrow> sconst \<Rightarrow> scm_value \<Rightarrow> bool"
  and reps_list :: "mem_pool \<Rightarrow> nat \<Rightarrow> sconst list \<Rightarrow> scm_value \<Rightarrow> bool" for p lo where
  reps_bool: "reps p lo (Const tt_bool (U_int i)) (ITOBOOL (i \<noteq> 0))"
| reps_char: "is_i32 i \<Longrightarrow> reps p lo (Const tt_char (U_int i)) (box_i32 tt_char i)"
| reps_int: "is_i32 i \<Longrightarrow> reps p lo (Const tt_int (U_int i)) (box_i32 tt_int i)"
| reps_float: "reps p lo (Const tt_float (U_float f)) f"
| reps_void: "reps p lo (Const tt_void u) SCM_VOID"
| reps_null: "reps p lo (Const tt_pair U_null) SCM_NULL"
| reps_symbol: "lo \<le> a \<Longrightarrow> a < 2 ^ 32 \<Longrightarrow> pool_mem p a = Some (Cell f (HSymbol h nm)) \<Longrightarrow>
    reps p lo (Const tt_symbol (U_symbol h nm)) (heap_value tt_symbol a)"
| reps_bytevector: "lo \<le> a \<Longrightarrow> a < 2 ^ 32 \<Longrightarrow>
    pool_mem p a = Some (Cell f (HBytevector (map Some bs))) \<Longrightarrow>
    reps p lo (Const tt_bytevector (U_bytevector bs)) (heap_value tt_bytevector a)"
| reps_string: "lo \<le> a \<Longrightarrow> a < 2 ^ 32 \<Longrightarrow>
    pool_mem p a = Some (Cell f (HString 0 (of_nat (length txt)) (b, q))) \<Longrightarrow> lo \<le> q \<Longrightarrow>
    pool_mem p q = Some (Cell g (HBuf sb)) \<Longrightarrow> sb_bytes sb = map Some txt \<Longrightarrow>
    \<not> sb_wc sb \<Longrightarrow> \<not> sb_ro sb \<Longrightarrow>
    reps p lo (Const tt_string (U_string txt)) (heap_value tt_string a)"
| reps_vector: "lo \<le> a \<Longrightarrow> a < 2 ^ 32 \<Longrightarrow>
    pool_mem p a = Some (Cell f (HVector (map Some xs))) \<Longrightarrow>
    list_all2 (reps p lo) cs xs \<Longrightarrow>
    reps p lo (Const tt_vector (U_vector cs)) (heap_value tt_vector a)"
| reps_lst: "2 \<le> length cs \<Longrightarrow> reps_list p lo cs v \<Longrightarrow> reps p lo (Const tt_pair (U_list cs)) v"
| reps_last: "reps p lo c v \<Longrightarrow> reps_list p lo [c] v"
| reps_cons: "lo \<le> a \<Longrightarrow> a < 2 ^ 32 \<Longrightarrow> pool_mem p a = Some (Cell f (HPair x y)) \<Longrightarrow>
    reps p lo c x \<Longrightarrow> reps_list p lo cs y \<Longrightarrow> reps_list p lo (c # cs) (heap_value tt_pair a)"
monos list_all2_mono

text \<open>It is enough that the pool keeps the objects from \<open>lo\<close> on.\<close>

lemma reps_mono:
  "reps p lo c v \<Longrightarrow> lo' \<le> lo \<Longrightarrow>
     (\<And>a x. lo \<le> a \<Longrightarrow> pool_mem p a = Some x \<Longrightarrow> pool_mem q a = Some x) \<Longrightarrow> reps q lo' c v"
  "reps_list p lo cs v \<Longrightarrow> lo' \<le> lo \<Longrightarrow>
     (\<And>a x. lo \<le> a \<Longrightarrow> pool_mem p a = Some x \<Longrightarrow> pool_mem q a = Some x) \<Longrightarrow> reps_list q lo' cs v"
proof (induction rule: reps_reps_list.inducts)
  case (reps_vector a f xs cs)
  then show ?case
    by (auto intro!: reps_reps_list.reps_vector elim!: list_all2_mono intro: order_trans)
qed (auto intro: reps_reps_list.intros order_trans)

section \<open>Building keeps what is there\<close>

definition below :: "rt_state \<Rightarrow> bool" where
  "below s \<longleftrightarrow> (\<forall>a x. pool_mem (working s) a = Some x \<longrightarrow> a < pool_idx (working s))"

text \<open>\<open>keeps A s t\<close>: the heap has only grown from \<open>s\<close> to \<open>t\<close>, but for the offsets in \<open>A\<close>.\<close>

definition keeps :: "nat set \<Rightarrow> rt_state \<Rightarrow> rt_state \<Rightarrow> bool" where
  "keeps A s t \<longleftrightarrow> pool_idx (working s) \<le> pool_idx (working t) \<and> below t \<and>
     (\<forall>a x. a \<notin> A \<longrightarrow> pool_mem (working s) a = Some x \<longrightarrow> pool_mem (working t) a = Some x)"

lemma below_pool_ok: "pool_ok (working s) \<Longrightarrow> below s"
  by (auto simp: below_def dest: pool_ok_below)

lemma keeps_refl: "below s \<Longrightarrow> keeps A s s"
  by (simp add: keeps_def)

lemma keeps_trans: "keeps A s t \<Longrightarrow> keeps A t u \<Longrightarrow> keeps A s u"
  unfolding keeps_def by (meson order_trans)

lemma keeps_weaken: "keeps A s t \<Longrightarrow> A \<subseteq> B \<Longrightarrow> keeps B s t"
  unfolding keeps_def by blast

text \<open>An offset that held nothing may be left out of the exceptions.\<close>

lemma keeps_fresh: "keeps (insert a A) s t \<Longrightarrow> pool_mem (working s) a = None \<Longrightarrow> keeps A s t"
  unfolding keeps_def by (metis insert_iff option.distinct(1))

lemma keeps_obj: "keeps A s t \<Longrightarrow> pool_mem (working s) a = Some x \<Longrightarrow> a \<notin> A \<Longrightarrow>
    pool_mem (working t) a = Some x"
  by (simp add: keeps_def)

lemma keeps_reps:
  assumes "keeps A s t" and "\<And>a. a \<in> A \<Longrightarrow> a < lo" and "lo' \<le> lo"
    and "reps (working s) lo c v"
  shows "reps (working t) lo' c v"
  using assms by (intro reps_mono(1) [OF assms(4,3)]) (fastforce simp: keeps_def)

lemma keeps_reps_list:
  assumes "keeps A s t" and "\<And>a. a \<in> A \<Longrightarrow> a < lo" and "lo' \<le> lo"
    and "reps_list (working s) lo c v"
  shows "reps_list (working t) lo' c v"
  using assms by (intro reps_mono(2) [OF assms(4,3)]) (fastforce simp: keeps_def)

lemma below_fresh: "below s \<Longrightarrow> pool_mem (working s) (pool_idx (working s)) = None"
  by (metis below_def less_irrefl not_None_eq)

lemma aligned_pos: "0 < aligned (obj_size ob)"
  using aligned_bounds(1) [of "obj_size ob"] obj_size_ge [of ob] by linarith

lemma keeps_new_obj:
  assumes "new_obj ob s = Inr (i, t)" and "below s"
  shows "keeps {} s t" "i = pool_idx (working s)" "i < 2 ^ 32"
    "pool_mem (working t) i = Some (Cell 0 ob)"
proof -
  note D = new_objD [OF assms(1)]
  show "i = pool_idx (working s)" "i < 2 ^ 32" "pool_mem (working t) i = Some (Cell 0 ob)"
    using D(1-3) by simp_all
  have "pool_mem (working s) i = None"
    using below_fresh [OF assms(2)] D(1) by simp
  then show "keeps {} s t"
    using assms(2) D(1,3,4) aligned_pos [of ob] by (fastforce simp: keeps_def below_def)
qed

lemma keeps_assign:
  assumes "assign off ob s = Inr (u, t)" and "below s"
  shows "keeps {off} s t" "\<exists>c. pool_mem (working s) off = Some c \<and>
    pool_mem (working t) off = Some (Cell (cell_fref c) ob)"
    "pool_idx (working t) = pool_idx (working s)"
proof -
  obtain c where c: "pool_mem (working s) off = Some c"
    and t: "t = s\<lparr>working := (working s)\<lparr>pool_mem :=
             (pool_mem (working s))(off \<mapsto> Cell (cell_fref c) ob)\<rparr>\<rparr>"
    using assms(1) by (auto simp: assign_def split: option.splits)
  have "off < pool_idx (working s)"
    using assms(2) c by (auto simp: below_def)
  then show "keeps {off} s t"
    using assms(2) t by (auto simp: keeps_def below_def)
  show "\<exists>c. pool_mem (working s) off = Some c \<and>
      pool_mem (working t) off = Some (Cell (cell_fref c) ob)"
    "pool_idx (working t) = pool_idx (working s)"
    using c t by simp_all
qed

lemma keeps_alloc:
  assumes "scm_heap_alloc n s = Inr (i, t)" and "below s"
  shows "keeps {} s t" "i = pool_idx (working s)"
    "pool_mem (working t) = pool_mem (working s)"
    "pool_idx (working t) = i + aligned n"
  using scm_heap_allocD [OF assms(1)] assms(2) by (fastforce simp: keeps_def below_def)+

lemma keeps_write_new:
  assumes "write_new i ob s = Inr (u, t)" and "below s" and "i < pool_idx (working s)"
    and "pool_mem (working s) i = None"
  shows "keeps {} s t" "pool_mem (working t) i = Some (Cell 0 ob)" "i < 2 ^ 32"
  using assms by (auto simp: write_new_def Let_def keeps_def below_def split: if_splits)

text \<open>One step of a building sequence, then the rest.\<close>

lemma keeps_then: "keeps A s t \<Longrightarrow> below t"
  by (simp add: keeps_def)

lemma buf_ref_Inr: "buf_ref p s = Inr (sb, t) \<Longrightarrow>
    t = s \<and> (\<exists>f. pool_mem (working s) (snd p) = Some (Cell f (HBuf sb)))"
  by (auto simp: buf_ref_def bnd_eq_Inr same_base_def heap_access
      split: if_splits option.splits hobj.splits) (metis hcell.collapse)

lemma make_ascii_buf_keeps:
  assumes "make_ascii_buf txt s = Inr (p, t)" and "below s"
  shows "keeps {} s t" and "\<exists>f sb. snd p = pool_idx (working s) \<and>
    pool_mem (working t) (snd p) = Some (Cell f (HBuf sb)) \<and> sb_bytes sb = map Some txt \<and>
    \<not> sb_wc sb \<and> \<not> sb_ro sb"
    and "a \<noteq> pool_idx (working s) \<Longrightarrow> pool_mem (working t) a = pool_mem (working s) a"
proof -
  let ?n = "HBuf \<lparr>sb_len = of_nat (length txt), sb_rc = 1, sb_wc = False, sb_ro = True,
    sb_bytes = replicate (length txt) None\<rparr>"
  obtain i s1 sb v where s1: "new_obj ?n s = Inr (i, s1)" and p: "snd p = i"
    and sb: "buf_ref p s1 = Inr (sb, s1)"
    and v: "assign (snd p) (HBuf (sb\<lparr>sb_len := of_nat (length txt), sb_ro := False,
             sb_wc := False, sb_bytes := map Some txt\<rparr>)) s1 = Inr (v, t)"
    using assms(1) by (auto simp: make_ascii_buf_def make_sb_def Let_def char_width_def bnd_eq_Inr
        cur_base_def buf_assign_def same_base_def split: if_splits) (metis buf_ref_Inr)
  note K = keeps_new_obj [OF s1 assms(2)]
  note L = keeps_assign [OF v keeps_then [OF K(1)]]
  have "pool_mem (working s) i = None"
    using below_fresh [OF assms(2)] K(2) by simp
  then show "keeps {} s t"
    using keeps_trans [OF keeps_weaken [OF K(1)] L(1)] p by (auto intro: keeps_fresh)
  show "\<exists>f sb. snd p = pool_idx (working s) \<and>
    pool_mem (working t) (snd p) = Some (Cell f (HBuf sb)) \<and> sb_bytes sb = map Some txt \<and>
    \<not> sb_wc sb \<and> \<not> sb_ro sb"
    using L(2) p K(2) by auto
  show "pool_mem (working t) a = pool_mem (working s) a" if "a \<noteq> pool_idx (working s)"
    using v p K(2) that new_objD(3) [OF s1] by (auto simp: assign_def split: option.splits)
qed

lemma init_string_reps:
  assumes "init_string txt s = Inr (v, t)" and "below s"
  shows "keeps {} s t" and
    "reps (working t) (pool_idx (working s)) (Const tt_string (U_string txt)) v"
proof -
  obtain i s1 p s2 u where s1: "scm_heap_alloc 24 s = Inr (i, s1)"
    and p: "make_ascii_buf txt s1 = Inr (p, s2)"
    and u: "write_new i (HString 0 (of_nat (length txt)) p) s2 = Inr (u, t)"
    and v: "v = heap_value tt_string i"
    using assms(1) by (auto simp: init_string_def bnd_eq_Inr cur_base_def same_base_def split: if_splits)
  note A = keeps_alloc [OF s1 assms(2)]
  note B = make_ascii_buf_keeps [OF p keeps_then [OF A(1)]]
  have i: "i < pool_idx (working s1)" "i = pool_idx (working s)"
    using A(2,4) aligned_bounds(1) [of 24] by simp_all
  obtain f sb where q: "snd p = pool_idx (working s1)"
    and sb: "pool_mem (working s2) (snd p) = Some (Cell f (HBuf sb))"
    "sb_bytes sb = map Some txt" "\<not> sb_wc sb" "\<not> sb_ro sb"
    using B(2) by blast
  have "pool_mem (working s2) i = None"
    using B(3) [of i] below_fresh [OF assms(2)] A(3) i by simp
  moreover have "i < pool_idx (working s2)"
    using i(1) B(1) by (simp add: keeps_def)
  ultimately have C: "keeps {} s2 t"
    "pool_mem (working t) i = Some (Cell 0 (HString 0 (of_nat (length txt)) p))" "i < 2 ^ 32"
    using keeps_write_new [OF u keeps_then [OF B(1)]] by blast+
  show "keeps {} s t"
    using C(1) A(1) B(1) by (blast intro: keeps_trans)
  obtain b where b: "p = (b, snd p)"
    by (metis surjective_pairing)
  have "pool_mem (working t) (snd p) = Some (Cell f (HBuf sb))"
    using keeps_obj [OF C(1) sb(1)] by simp
  then show "reps (working t) (pool_idx (working s)) (Const tt_string (U_string txt)) v"
    unfolding v using C(2,3) i q sb b by (intro reps_string [where q = "snd p"]) auto
qed

text \<open>A constant that names no other by its index.\<close>

fun no_refs :: "sconst \<Rightarrow> bool"
  and no_refs_in :: "cdata \<Rightarrow> bool" where
  "no_refs (Const t u) \<longleftrightarrow> t \<noteq> tt_box \<and> no_refs_in u"
| "no_refs_in (U_vector cs) \<longleftrightarrow> (\<forall>c\<in>set cs. no_refs c)"
| "no_refs_in (U_list cs) \<longleftrightarrow> (\<forall>c\<in>set cs. no_refs c)"
| "no_refs_in _ \<longleftrightarrow> True"

lemma make_char_Inr: "make_char i = Inr v \<longleftrightarrow> is_i32 i \<and> v = box_i32 tt_char i"
proof (cases "is_i32 i")
  case False
  then have "make_char i = Inl (Assert ''bigint unimplemented'')"
    by (auto simp: make_char_def is_i32_def rbind_def rcheck_def)
  with False show ?thesis by simp
qed (auto simp: make_char_box)

lemma make_int_Inr: "make_int i = Inr v \<longleftrightarrow> is_i32 i \<and> v = box_i32 tt_int i"
  by (cases "is_i32 i") (auto simp: make_int_box make_int_fault)

lemma vector_init_keeps:
  assumes "vector_init b off i x s = Inr (u, t)" and "below s"
    and "pool_mem (working s) off = Some (Cell 0 (HVector xs))"
  shows "keeps {off} s t" "pool_mem (working t) off = Some (Cell 0 (HVector (xs[i := Some x])))"
    "pool_idx (working t) = pool_idx (working s)"
proof -
  have a: "assign off (HVector (xs[i := Some x])) s = Inr (u, t)"
    using assms(1,3)
    by (auto simp: vector_init_def bnd_eq_Inr same_base_def deref_vector_def deref_def split: if_splits)
  show "keeps {off} s t" "pool_idx (working t) = pool_idx (working s)"
    using keeps_assign [OF a assms(2)] by simp_all
  show "pool_mem (working t) off = Some (Cell 0 (HVector (xs[i := Some x])))"
    using keeps_assign(2) [OF a assms(2)] assms(3) by simp
qed

lemma scm_cons_built:
  assumes "scm_cons x y s = Inr (v, t)" and "below s"
  shows "keeps {} s t" "v = heap_value tt_pair (pool_idx (working s))"
    "pool_idx (working s) < 2 ^ 32"
    "pool_mem (working t) (pool_idx (working s)) = Some (Cell 0 (HPair x y))"
proof -
  obtain i where i: "new_obj (HPair x y) s = Inr (i, t)" "v = heap_value tt_pair i"
    using assms(1) by (auto simp: scm_cons_def bnd_eq_Inr)
  show "keeps {} s t" "v = heap_value tt_pair (pool_idx (working s))"
    "pool_idx (working s) < 2 ^ 32"
    "pool_mem (working t) (pool_idx (working s)) = Some (Cell 0 (HPair x y))"
    using keeps_new_obj [OF i(1) assms(2)] i(2) by auto
qed

lemma init_symbol_reps:
  assumes "init_symbol h nm s = Inr (v, t)" and "below s"
  shows "keeps {} s t" "reps (working t) (pool_idx (working s)) (Const tt_symbol (U_symbol h nm)) v"
proof -
  obtain i where i: "new_obj (HSymbol h nm) s = Inr (i, t)" and v: "v = heap_value tt_symbol i"
    using assms(1) by (auto simp: init_symbol_def bnd_eq_Inr)
  note A = keeps_new_obj [OF i assms(2)]
  show "keeps {} s t" using A(1) .
  show "reps (working t) (pool_idx (working s)) (Const tt_symbol (U_symbol h nm)) v"
    unfolding v using A(2-4) by (intro reps_symbol) simp_all
qed

lemma init_bytevector_reps:
  assumes "init_bytevector bs s = Inr (v, t)" and "below s"
  shows "keeps {} s t"
    "reps (working t) (pool_idx (working s)) (Const tt_bytevector (U_bytevector bs)) v"
proof -
  obtain i where i: "new_obj (HBytevector (map Some bs)) s = Inr (i, t)"
    and v: "v = heap_value tt_bytevector i"
    using assms(1) by (auto simp: init_bytevector_def bnd_eq_Inr)
  note A = keeps_new_obj [OF i assms(2)]
  show "keeps {} s t" using A(1) .
  show "reps (working t) (pool_idx (working s)) (Const tt_bytevector (U_bytevector bs)) v"
    unfolding v using A(2-4) by (intro reps_bytevector) simp_all
qed

text \<open>The three loops, each under the hypothesis that one constant is built as promised.\<close>

definition builds :: "nat \<Rightarrow> sconst \<Rightarrow> bool" where
  "builds n c \<longleftrightarrow> (\<forall>s v t. no_refs c \<longrightarrow> below s \<longrightarrow> init_constant n c s = Inr (v, t) \<longrightarrow>
     keeps {} s t \<and> reps (working t) (pool_idx (working s)) c v)"

lemma buildsD:
  assumes "builds n c" and "no_refs c" and "below s" and "init_constant n c s = Inr (v, t)"
  shows "keeps {} s t" "reps (working t) (pool_idx (working s)) c v"
  using assms unfolding builds_def by blast+

lemma init_conses_builds:
  assumes "init_conses n lst cs s = Inr (v, t)" and "\<forall>c\<in>set cs. builds n c \<and> no_refs c"
    and "below s" and "reps_list (working s) lo ds lst" and "lo \<le> pool_idx (working s)"
  shows "keeps {} s t \<and> reps_list (working t) lo (rev cs @ ds) v"
  using assms
proof (induction cs arbitrary: lst s ds)
  case (Cons c cs)
  then obtain x s1 lst' s2 where s1: "init_constant n c s = Inr (x, s1)"
    and s2: "scm_cons x lst s1 = Inr (lst', s2)" and t: "init_conses n lst' cs s2 = Inr (v, t)"
    by (auto simp: bnd_eq_Inr)
  note A = buildsD [of n c s x s1]
  have A: "keeps {} s s1" "reps (working s1) (pool_idx (working s)) c x"
    using A s1 Cons.prems(2,3) by simp_all
  note B = scm_cons_built [OF s2 keeps_then [OF A(1)]]
  have i: "lo \<le> pool_idx (working s1)"
    using A(1) Cons.prems(5) by (simp add: keeps_def)
  have "reps (working s2) lo c x"
    using A(2) Cons.prems(5) by (intro keeps_reps [OF B(1)]) auto
  moreover have "reps_list (working s2) lo ds lst"
    using Cons.prems(4) by (intro keeps_reps_list [OF keeps_trans [OF A(1) B(1)]]) auto
  ultimately have "reps_list (working s2) lo (c # ds) lst'"
    unfolding B(2) using B(3,4) i by (intro reps_cons)
  then have "keeps {} s2 t \<and> reps_list (working t) lo (rev cs @ c # ds) v"
    using Cons.prems(2) i B(1) by (intro Cons.IH [OF t]) (auto simp: keeps_def)
  then show ?case
    using keeps_trans [OF keeps_trans [OF A(1) B(1)]] by simp
qed (auto intro: keeps_refl)

lemma init_elems_builds:
  assumes "init_elems n b off i cs s = Inr (u, t)" and "\<forall>c\<in>set cs. builds n c \<and> no_refs c"
    and "below s" and "off < pool_idx (working s)"
    and "pool_mem (working s) off = Some (Cell 0 (HVector xs))" and "i + length cs = length xs"
  shows "keeps {off} s t \<and> (\<exists>ys.
    pool_mem (working t) off = Some (Cell 0 (HVector (take i xs @ map Some ys))) \<and>
    list_all2 (reps (working t) (pool_idx (working s))) cs ys)"
  using assms
proof (induction cs arbitrary: i xs s)
  case (Cons c cs)
  then obtain x s1 u1 s2 where s1: "init_constant n c s = Inr (x, s1)"
    and s2: "vector_init b off i x s1 = Inr (u1, s2)"
    and t: "init_elems n b off (Suc i) cs s2 = Inr (u, t)"
    by (auto simp: bnd_eq_Inr)
  note A = buildsD [of n c s x s1]
  have A: "keeps {} s s1" "reps (working s1) (pool_idx (working s)) c x"
    using A s1 Cons.prems(2,3) by simp_all
  have off: "pool_mem (working s1) off = Some (Cell 0 (HVector xs))"
    using keeps_obj [OF A(1) Cons.prems(5)] by simp
  note B = vector_init_keeps [OF s2 keeps_then [OF A(1)] off]
  have idx: "pool_idx (working s) \<le> pool_idx (working s2)" "off < pool_idx (working s2)"
    using A(1) B(3) Cons.prems(4) by (simp_all add: keeps_def)
  obtain ys where t2: "keeps {off} s2 t"
    and ys: "pool_mem (working t) off
      = Some (Cell 0 (HVector (take (Suc i) (xs[i := Some x]) @ map Some ys)))"
    "list_all2 (reps (working t) (pool_idx (working s2))) cs ys"
    using Cons.IH [OF t _ keeps_then [OF B(1)] idx(2) B(2)] Cons.prems(2,6) by auto
  have K: "keeps {off} s1 t"
    using keeps_trans [OF B(1) t2] .
  have "reps (working t) (pool_idx (working s)) c x"
    using Cons.prems(4) A(2) by (intro keeps_reps [OF K]) auto
  moreover have "list_all2 (reps (working t) (pool_idx (working s))) cs ys"
    using ys(2) by (rule list_all2_mono) (auto intro: reps_mono(1) simp: idx)
  moreover have "take (Suc i) (xs[i := Some x]) = take i xs @ [Some x]"
    using Cons.prems(6) by (simp add: take_Suc_conv_app_nth)
  ultimately show ?case
    using ys(1) keeps_trans [OF keeps_weaken [OF A(1)] K] by (intro conjI exI [of _ "x # ys"]) auto
qed (auto intro: keeps_refl)

lemma init_constant_builds: "builds n c"
proof (induction n arbitrary: c)
  case 0
  then show ?case by (simp add: builds_def)
next
  case (Suc n)
  show ?case
    unfolding builds_def
  proof (intro allI impI)
    fix s v t
    assume nr: "no_refs c" and bel: "below s" and v: "init_constant (Suc n) c s = Inr (v, t)"
    obtain tt u where c: "c = Const tt u" by (cases c)
    show "keeps {} s t \<and> reps (working t) (pool_idx (working s)) c v"
    proof (cases tt)
      case tt_pair
      show ?thesis
      proof (cases u)
        case (U_list cs)
        then obtain v1 s1 where cs: "2 \<le> length cs" and s1: "init_constant n (last cs) s = Inr (v1, s1)"
          and t: "init_conses n v1 (rev (butlast cs)) s1 = Inr (v, t)"
          using v c tt_pair by (auto simp: bnd_eq_Inr check_eq_Inr)
        have ne: "cs \<noteq> []" using cs by auto
        have nrs: "\<forall>c\<in>set cs. no_refs c" using nr c U_list by simp
        note A = buildsD [OF Suc.IH _ bel s1]
        have A: "keeps {} s s1" "reps (working s1) (pool_idx (working s)) (last cs) v1"
          using A nrs ne by simp_all
        have "keeps {} s1 t \<and> reps_list (working t) (pool_idx (working s))
            (rev (rev (butlast cs)) @ [last cs]) v"
          using A nrs Suc.IH
          by (intro init_conses_builds [OF t]) (auto intro: reps_last simp: keeps_def dest: in_set_butlastD)
        then show ?thesis
          using c tt_pair U_list ne cs keeps_trans [OF A(1)] by (auto intro: reps_lst)
      qed (use v c tt_pair bel in \<open>auto simp: bad_union_def intro: keeps_refl reps_null\<close>)
    next
      case tt_vector
      show ?thesis
      proof (cases u)
        case (U_vector cs)
        then obtain off s1 b where s1: "new_obj (HVector (replicate (length cs) None)) s = Inr (off, s1)"
          and t: "init_elems n b off 0 cs s1 = Inr ((), t)" and v: "v = heap_value tt_vector off"
          using v c tt_vector by (auto simp: bnd_eq_Inr cur_base_def)
        note A = keeps_new_obj [OF s1 bel]
        have off: "off < pool_idx (working s1)"
          using A(4) keeps_then [OF A(1)] by (auto simp: below_def)
        obtain ys where B: "keeps {off} s1 t"
          and ys: "pool_mem (working t) off = Some (Cell 0 (HVector (map Some ys)))"
          "list_all2 (reps (working t) (pool_idx (working s1))) cs ys"
          using init_elems_builds [OF t _ keeps_then [OF A(1)] off A(4)] nr c U_vector Suc.IH by auto
        have "keeps {} s t"
          using keeps_trans [OF keeps_weaken [OF A(1)] B] below_fresh [OF bel] A(2)
          by (auto intro: keeps_fresh)
        moreover have "list_all2 (reps (working t) (pool_idx (working s))) cs ys"
          using ys(2) A(1) by (elim list_all2_mono) (auto intro: reps_mono(1) simp: keeps_def)
        ultimately show ?thesis
          unfolding c tt_vector U_vector v using ys(1) A(2,3) by (auto intro: reps_vector)
      qed (use v c tt_vector in \<open>auto simp: bad_union_def\<close>)
    next
      case tt_string
      then show ?thesis
        using v c bel by (cases u) (auto simp: bad_union_def dest: init_string_reps)
    next
      case tt_symbol
      then show ?thesis
        using v c bel by (cases u) (auto simp: bad_union_def dest: init_symbol_reps)
    next
      case tt_bytevector
      then show ?thesis
        using v c bel by (cases u) (auto simp: bad_union_def dest: init_bytevector_reps)
    qed (use v c bel nr in \<open>auto simp: bad_union_def lift_eq_Inr make_char_Inr make_int_Inr make_float_def
      intro: keeps_refl reps_reps_list.intros split: cdata.splits\<close>)
  qed
qed

section \<open>Fuel\<close>


lemma no_fuel_simps [simp]:
  "lift (make_int i) s \<noteq> Inl NoFuel" "lift (make_char i) s \<noteq> Inl NoFuel"
  "check p m s \<noteq> Inl NoFuel" "new_obj ob s \<noteq> Inl NoFuel" "write_new a ob s \<noteq> Inl NoFuel"
  "assign a ob s \<noteq> Inl NoFuel" "deref a s \<noteq> Inl NoFuel" "same_base b s \<noteq> Inl NoFuel"
  "scm_heap_alloc k s \<noteq> Inl NoFuel" "deref_vector a s \<noteq> Inl NoFuel" "buf_ref q s \<noteq> Inl NoFuel"
  by (auto simp: make_int_def make_char_def rbind_def rcheck_def lift_def check_def new_obj_def
      write_new_def scm_heap_alloc_def Let_def bnd_def assign_def deref_def same_base_def
      deref_vector_def buf_ref_def deref_buf_def confusion_def
      split: sum.splits option.splits if_splits hobj.splits prod.splits)

lemma no_fuel_parts [simp]:
  "vector_init b off i x s \<noteq> Inl NoFuel" "scm_cons x y s \<noteq> Inl NoFuel"
  "init_symbol h nm s \<noteq> Inl NoFuel" "init_bytevector bs s \<noteq> Inl NoFuel"
  "make_ascii_buf txt s \<noteq> Inl NoFuel" "init_string txt s \<noteq> Inl NoFuel"
  by (auto simp: vector_init_def scm_cons_def init_symbol_def init_bytevector_def bnd_eq_Inl
      make_ascii_buf_def make_sb_def Let_def cur_base_def buf_assign_def init_string_def)




section \<open>Constants that are always built\<close>

text \<open>
  Well-formed constants made of immediates, symbols, bytevectors and lists, none of them larger
  than a page; and the bytes their objects take.
\<close>

fun plain_const :: "sconst \<Rightarrow> bool" where
  "plain_const (Const tt u) \<longleftrightarrow>
     (case u of
        U_int i \<Rightarrow> tt = tt_bool \<or> (tt = tt_char \<or> tt = tt_int) \<and> is_i32 i
      | U_float f \<Rightarrow> tt = tt_float
      | U_null \<Rightarrow> tt = tt_pair
      | U_string txt \<Rightarrow> False
      | U_symbol h nm \<Rightarrow> tt = tt_symbol \<and> 24 + length nm \<le> HEAP_PAGE_SZ
      | U_bytevector bs \<Rightarrow> tt = tt_bytevector \<and> 16 + length bs \<le> HEAP_PAGE_SZ
      | U_vector cs \<Rightarrow> False
      | U_list cs \<Rightarrow> tt = tt_pair \<and> 2 \<le> length cs \<and> (\<forall>c\<in>set cs. plain_const c))"

fun const_bytes :: "sconst \<Rightarrow> nat" where
  "const_bytes (Const tt u) =
     (case u of
        U_symbol h nm \<Rightarrow> aligned (16 + length nm)
      | U_bytevector bs \<Rightarrow> aligned (8 + length bs)
      | U_list cs \<Rightarrow> sum_list (map (\<lambda>c. 24 + const_bytes c) cs)
      | _ \<Rightarrow> 0)"

lemma plain_no_refs: "plain_const c \<Longrightarrow> no_refs c"
proof (induction c rule: plain_const.induct)
  case (1 tt u)
  then show ?case by (cases u) auto
qed

definition ready_to_build :: "nat \<Rightarrow> sconst \<Rightarrow> bool" where
  "ready_to_build n c \<longleftrightarrow> (\<forall>s m. heap_room (const_bytes c + m) s \<longrightarrow>
     (\<exists>v t. init_constant n c s = Inr (v, t) \<and> heap_room m t))"

lemma init_conses_room:
  assumes "\<forall>c\<in>set cs. ready_to_build n c"
    and "heap_room (sum_list (map (\<lambda>c. 24 + const_bytes c) cs) + m) s"
  shows "\<exists>v t. init_conses n lst cs s = Inr (v, t) \<and> heap_room m t"
  using assms
proof (induction cs arbitrary: lst s)
  case (Cons c cs)
  let ?m = "sum_list (map (\<lambda>c. 24 + const_bytes c) cs) + m"
  have r: "heap_room (const_bytes c + (24 + ?m)) s"
    using Cons.prems(2) by (simp add: ac_simps)
  obtain x t where t: "init_constant n c s = Inr (x, t)" "heap_room (24 + ?m) t"
    using Cons.prems(1) r unfolding ready_to_build_def by (metis list.set_intros(1))
  obtain l u where u: "scm_cons x lst t = Inr (l, u)" "heap_room ?m u"
    using scm_cons_room [OF t(2)] by blast
  then show ?case
    using Cons.IH [of u l] Cons.prems(1) t(1) by simp
qed simp

lemma plain_built: "plain_const c \<Longrightarrow> size c < n \<Longrightarrow> ready_to_build n c"
proof (induction n arbitrary: c)
  case (Suc n)
  obtain tt u where c: "c = Const tt u" by (cases c)
  show ?case
  proof (cases u)
    case (U_symbol h nm)
    have "\<exists>t. new_obj (HSymbol h nm) s = Inr (pool_idx (working s), t) \<and> heap_room m t"
      if "heap_room (const_bytes c + m) s" for s m
      using new_obj_room [of "HSymbol h nm" m s] that Suc.prems(1) aligned_bounds(2) [of "16 + length nm"] c U_symbol
      by simp
    then show ?thesis
      using c U_symbol Suc.prems(1) by (fastforce simp: ready_to_build_def init_symbol_def)
  next
    case (U_bytevector bs)
    have "\<exists>t. new_obj (HBytevector (map Some bs)) s = Inr (pool_idx (working s), t) \<and> heap_room m t"
      if "heap_room (const_bytes c + m) s" for s m
      using new_obj_room [of "HBytevector (map Some bs)" m s] that Suc.prems(1)
        aligned_bounds(2) [of "8 + length bs"] c U_bytevector by simp
    then show ?thesis
      using c U_bytevector Suc.prems(1) by (fastforce simp: ready_to_build_def init_bytevector_def)
  next
    case (U_list cs)
    have "size d < n" if "d \<in> set cs" for d
      using size_list_estimation' [OF that order_refl, of size] Suc.prems(2) c U_list by simp
    then have cs: "2 \<le> length cs" "\<And>d. d \<in> set cs \<Longrightarrow> ready_to_build n d"
      using Suc.IH Suc.prems(1) U_list c by auto
    then obtain ds d where ds: "cs = ds @ [d]"
      by (cases cs rule: rev_cases) auto
    have "\<exists>v t. init_constant (Suc n) c s = Inr (v, t) \<and> heap_room m t"
      if r: "heap_room (const_bytes c + m) s" for s m
    proof -
      let ?m = "sum_list (map (\<lambda>c. 24 + const_bytes c) (rev ds)) + (24 + m)"
      have "heap_room (const_bytes d + ?m) s"
        using r c U_list ds by (simp add: ac_simps sum_list_rev flip: rev_map)
      then obtain x t where t: "init_constant n d s = Inr (x, t)" "heap_room ?m t"
        using cs(2) [of d] ds unfolding ready_to_build_def by (metis in_set_conv_decomp)
      then obtain v w where "init_conses n x (rev ds) t = Inr (v, w)" "heap_room (24 + m) w"
        using init_conses_room [of "rev ds" n "24 + m" t x] cs(2) ds by auto
      moreover then have "heap_room m w"
        by (simp add: heap_room_def)
      ultimately show ?thesis
        using t(1) cs(1) Suc.prems(1) c U_list ds by simp
    qed
    then show ?thesis
      by (simp add: ready_to_build_def)
  qed (use c Suc.prems make_int_box make_char_box in \<open>auto simp: ready_to_build_def\<close>)
qed simp

text \<open>
  A constant of immediates, symbols, bytevectors and lists is always built, given fuel for its
  nesting and room for its objects: the value is the constant, spelled out in new objects, and every
  object that was there is as it was.
\<close>

theorem plain_constant_built:
  assumes "plain_const c" and "size c < n" and "heap_room (const_bytes c) s"
  shows "\<exists>v t. init_constant n c s = Inr (v, t) \<and> reps (working t) (pool_idx (working s)) c v \<and>
    (\<forall>l x. pool_mem (working s) l = Some x \<longrightarrow> pool_mem (working t) l = Some x)"
proof -
  obtain v t where t: "init_constant n c s = Inr (v, t)"
    using plain_built [OF assms(1,2)] assms(3) unfolding ready_to_build_def
    by (metis add.right_neutral)
  have "below s"
    using assms(3) by (intro below_pool_ok) (simp add: heap_room_def)
  from buildsD [OF init_constant_builds plain_no_refs [OF assms(1)] this t] show ?thesis
    using t by (auto simp: keeps_def)
qed

lemma plain_constant_built_witness:
  "\<exists>v t. init_constant 99 (Const tt_pair (U_list [Const tt_int (U_int 1), Const tt_pair U_null])) rt_start
     = Inr (v, t) \<and>
     reps (working t) 8 (Const tt_pair (U_list [Const tt_int (U_int 1), Const tt_pair U_null])) v"
proof -
  have "heap_room 48 rt_start"
    using heap_room_start [of 48 "[]"] by (simp add: rt_start_def rt_zero_def)
  then show ?thesis
    using plain_constant_built [of "Const tt_pair (U_list [Const tt_int (U_int 1), Const tt_pair U_null])" 99 rt_start]
    by (auto simp: is_i32_def INT32_MAX_def INT32_MIN_def rt_start_def)
qed



text \<open>
  A vector constant keeps a pointer to its object while its elements are allocated; when one of
  them makes the buffer grow, the element is stored through a pointer that \<open>realloc\<close> has made
  invalid.
\<close>

theorem vector_constant_stale:
  "init_constant (Suc (Suc 0)) (Const tt_vector (U_vector [Const tt_bytevector (U_bytevector [1, 2, 3])]))
     (rt_start\<lparr>working := (working rt_start)\<lparr>pool_idx := 4064\<rparr>\<rparr>)
   = Inl (UB ''pointer into a block freed by realloc'')"
  by (simp add: rt_start_def rt_zero_def init_bytevector_def new_obj_def scm_heap_alloc_def Let_def
      write_new_def HEAP_PAGE_SZ_def vector_init_def cur_base_def same_base_def aligned_eq)

end
