(* ===== verification/Scm_Print.thy ===== *)
theory Scm_Print
  imports Scm_Strings
begin

text \<open>
  The printer of scheme/scm_runtime.c and the primitives that write to the standard output.
  What \<open>printf\<close> makes of a double with \<open>%g\<close> is a parameter; the other conversions are
  written out.
\<close>

section \<open>Conversions\<close>

fun dec_nat :: "nat \<Rightarrow> string" where
  "dec_nat n =
     (if n < 10 then [char_of (48 + n)] else dec_nat (n div 10) @ [char_of (48 + n mod 10)])"

declare dec_nat.simps [simp del]

definition dec_int :: "int \<Rightarrow> string" where
  "dec_int i = (if i < 0 then CHR ''-'' # dec_nat (nat (- i)) else dec_nat (nat i))"

fun hex_nat :: "nat \<Rightarrow> string" where
  "hex_nat n =
     (let d = \<lambda>k. char_of (if k < 10 then 48 + k else 87 + k) in
      if n < 16 then [d n] else hex_nat (n div 16) @ [d (n mod 16)])"

declare hex_nat.simps [simp del]

definition printf :: "string \<Rightarrow> unit rt" where
  "printf txt = modify (\<lambda>s. s\<lparr>stdout := stdout s @ txt\<rparr>)"

text \<open>\<open>putchar\<close> writes its argument as an unsigned char.\<close>

definition putchar :: "int \<Rightarrow> unit rt" where
  "putchar c = printf [char_of (nat (c mod 256))]"

text \<open>The bytes of \<open>"%.*s"\<close> end at a zero byte.\<close>

definition chars_of_bytes :: "u8 list \<Rightarrow> string" where
  "chars_of_bytes bs = map (\<lambda>b. char_of (unat b)) (takeWhile (\<lambda>b. b \<noteq> 0) bs)"

section \<open>The printer\<close>

definition char_name :: "int \<Rightarrow> string" where
  "char_name c =
     (if c = 0x0 then ''nul'' else if c = 0x7 then ''alarm'' else if c = 0x8 then ''backspace''
      else if c = 0x9 then ''tab'' else if c = 0xa then ''newline'' else if c = 0xb then ''vtab''
      else if c = 0xc then ''page'' else if c = 0xd then ''return'' else if c = 0x1b then ''esc''
      else if c = 0x20 then ''space'' else if c = 0x7f then ''delete''
      else [char_of (nat (c mod 256))])"

fun put_string :: "nat \<Rightarrow> nat \<Rightarrow> nat \<Rightarrow> unit rt" where
  "put_string 0 str i = ret ()"
| "put_string (Suc n) str i =
     bnd (string_ref str i) (\<lambda>ch.
     bnd (putchar ch) (\<lambda>_. put_string n str (Suc i)))"

fun print_bytes :: "u8 list \<Rightarrow> string" where
  "print_bytes [] = '')''"
| "print_bytes [b] = dec_nat (unat b) @ '')''"
| "print_bytes (b # bs) = dec_nat (unat b) @ '' '' @ print_bytes bs"

fun scm_print :: "(u64 \<Rightarrow> string) \<Rightarrow> nat \<Rightarrow> scm_value \<Rightarrow> bool \<Rightarrow> unit rt"
  and print_pairs :: "(u64 \<Rightarrow> string) \<Rightarrow> nat \<Rightarrow> nat \<Rightarrow> bool \<Rightarrow> unit rt"
  and print_elems :: "(u64 \<Rightarrow> string) \<Rightarrow> nat \<Rightarrow> scm_value option list \<Rightarrow> bool \<Rightarrow> unit rt" where
  "scm_print fmt_g 0 value quote_p = fail NoFuel"
| "scm_print fmt_g (Suc n) value quote_p =
     (if VOID_P value then printf ''#<void>''
      else if INTEGER_P value then printf (dec_int (sint (GET_INTEGRAL value)))
      else if FLOAT_P value then printf (fmt_g (get_float value))
      else if CHAR_P value then
        (let c = sint (GET_INTEGRAL value) in
         if quote_p then printf (''#'' @ [char_of (92 :: nat)] @ char_name c) else putchar c)
      else if value = SCM_TRUE then printf ''#t''
      else if value = SCM_FALSE then printf ''#f''
      else if STRING_P value then
        bnd (deref_string (GET_OFF value)) (\<lambda>(_, len, _).
        bnd (if quote_p then putchar 34 else ret ()) (\<lambda>_.
        bnd (put_string (unat len) (GET_OFF value) 0) (\<lambda>_.
        if quote_p then putchar 34 else ret ())))
      else if SYMBOL_P value then
        bnd (deref_symbol (GET_OFF value)) (\<lambda>(_, name). printf (chars_of_bytes name))
      else if PAIR_P value then
        bnd (printf ''('') (\<lambda>_. print_pairs fmt_g n (GET_OFF value) quote_p)
      else if PROCEDURE_P value then
        bnd (closure_fn value) (\<lambda>fn. printf (''#<procedure @ #x'' @ hex_nat (unat fn) @ ''>''))
      else if VECTOR_P value then
        bnd (deref_vector (GET_OFF value)) (\<lambda>xs.
        bnd (printf ''#('') (\<lambda>_.
        bnd (print_elems fmt_g n xs quote_p) (\<lambda>_. printf '')'')))
      else if BYTEVECTOR_P value then
        bnd (deref_bytevector (GET_OFF value)) (\<lambda>bs.
        bnd (read_bytes 0 (length bs) bs) (\<lambda>ys. printf (''#u8('' @ print_bytes ys)))
      else
        bnd (printf (''0x'' @ hex_nat (unat value) @ ''\<newline>'')) (\<lambda>_. fail (Assert ''unimplemented'')))"
| "print_pairs fmt_g 0 p quote_p = fail NoFuel"
| "print_pairs fmt_g (Suc n) p quote_p =
     bnd (deref_pair p) (\<lambda>(a, d).
     if PAIR_P d then
       bnd (scm_print fmt_g n a quote_p) (\<lambda>_.
       bnd (printf '' '') (\<lambda>_. print_pairs fmt_g n (GET_OFF d) quote_p))
     else if NULL_P d then
       bnd (scm_print fmt_g n a quote_p) (\<lambda>_. printf '')'')
     else
       bnd (scm_print fmt_g n a quote_p) (\<lambda>_.
       bnd (printf '' . '') (\<lambda>_.
       bnd (scm_print fmt_g n d quote_p) (\<lambda>_. printf '')''))))"
| "print_elems fmt_g n [] quote_p = ret ()"
| "print_elems fmt_g n [x] quote_p =
     bnd (elem_at [x] 0) (\<lambda>v. scm_print fmt_g n v quote_p)"
| "print_elems fmt_g n (x # y # ys) quote_p =
     bnd (elem_at [x] 0) (\<lambda>v.
     bnd (scm_print fmt_g n v quote_p) (\<lambda>_.
     bnd (printf '' '') (\<lambda>_. print_elems fmt_g n (y # ys) quote_p)))"

section \<open>Output primitives\<close>

text \<open>
  A record whose meta object is a record is printed by the procedure in its third field.
  \<open>write\<close> pushes the operands before it looks at that field, \<open>display\<close> after.
\<close>

definition prim_write :: "(u64 \<Rightarrow> string) \<Rightarrow> nat \<Rightarrow> scm_value \<Rightarrow> scm_value rt" where
  "prim_write fmt_g fuel self =
     bnd (arity 2 False) (\<lambda>_.
     bnd pop_arg (\<lambda>k.
     bnd pop_arg (\<lambda>value.
     (let finish = bnd (push_arg SCM_VOID) (\<lambda>_. tail_call k) in
      if RECORD_P value then
        bnd (deref_record (GET_OFF value)) (\<lambda>(meta, _).
        if RECORD_P meta then
          bnd (deref_record (GET_OFF meta)) (\<lambda>(_, elems).
          bnd (push_arg value) (\<lambda>_.
          bnd (push_arg k) (\<lambda>_.
          bnd (elem_at elems 2) (\<lambda>writer.
          if PROCEDURE_P writer then tail_call writer
          else bnd (printf ''($ N/A)'') (\<lambda>_. finish)))))
        else bnd (printf ''($ N/A)'') (\<lambda>_. finish))
      else bnd (scm_print fmt_g fuel value True) (\<lambda>_. finish)))))"

definition prim_display :: "(u64 \<Rightarrow> string) \<Rightarrow> nat \<Rightarrow> scm_value \<Rightarrow> scm_value rt" where
  "prim_display fmt_g fuel self =
     bnd (arity 2 False) (\<lambda>_.
     bnd pop_arg (\<lambda>k.
     bnd pop_arg (\<lambda>value.
     (let finish = bnd (push_arg SCM_VOID) (\<lambda>_. tail_call k) in
      if RECORD_P value then
        bnd (deref_record (GET_OFF value)) (\<lambda>(meta, _).
        if RECORD_P meta then
          bnd (deref_record (GET_OFF meta)) (\<lambda>(_, elems).
          bnd (elem_at elems 2) (\<lambda>writer.
          if PROCEDURE_P writer then
            bnd (push_arg value) (\<lambda>_.
            bnd (push_arg k) (\<lambda>_. tail_call writer))
          else bnd (printf ''($ N/A)'') (\<lambda>_. finish)))
        else bnd (printf ''($ N/A)'') (\<lambda>_. finish))
      else bnd (scm_print fmt_g fuel value False) (\<lambda>_. finish)))))"

definition primop_newline :: "scm_value rt" where
  "primop_newline = bnd (arity 0 False) (\<lambda>_. bnd (putchar 10) (\<lambda>_. ret SCM_VOID))"

definition prim_newline :: "scm_value \<Rightarrow> scm_value rt" where
  "prim_newline self = return_to_k primop_newline"

text \<open>The bytes a C function is given for a string: \<open>len\<close> bytes from byte \<open>off\<close> on.\<close>

definition string_to_cstr :: "scm_value \<Rightarrow> u8 list rt" where
  "string_to_cstr s =
     bnd (check (STRING_P s) ''type error expected <string>'') (\<lambda>_.
     bnd (deref_string (GET_OFF s)) (\<lambda>(off, len, p).
     bnd (buf_ref p) (\<lambda>sb.
     read_bytes (unat off) (unat len) (sb_bytes sb))))"

end
