(* ===== verification/Scm_IO.thy ===== *)
theory Scm_IO
  imports Scm_Print Scm_Vectors
begin

text \<open>
  The file primitives of scheme/scm_runtime.c. The calls of the operating system are a parameter: functions on a
  state of the system that is passed along. The message of a failed call is the system's, and left out.
\<close>

section \<open>The operating system\<close>

text \<open>
  \<open>open\<close> for reading answers a descriptor, or a negative number; \<open>close\<close> zero or -1; \<open>read\<close> the bytes it has
  read, at most as many as were asked for, or nothing when it fails; \<open>fopen\<close> an address, or zero.
\<close>

record 'o os_calls =
  os_open :: "u8 list \<Rightarrow> 'o \<Rightarrow> int \<times> 'o"
  os_close :: "int \<Rightarrow> 'o \<Rightarrow> int \<times> 'o"
  os_read :: "int \<Rightarrow> nat \<Rightarrow> 'o \<Rightarrow> u8 list option \<times> 'o"
  os_fopen :: "u8 list \<Rightarrow> u8 list \<Rightarrow> 'o \<Rightarrow> u64 \<times> 'o"
  os_fclose :: "u64 \<Rightarrow> 'o \<Rightarrow> 'o"

text \<open>The C string of a value: its bytes up to the first zero byte.\<close>

definition c_path :: "scm_value \<Rightarrow> u8 list rt" where
  "c_path s = bnd (string_to_cstr s) (\<lambda>bs. ret (takeWhile (\<lambda>b. b \<noteq> 0) bs))"

section \<open>Descriptors\<close>

text \<open>The path is printed; descriptor zero counts as a failure.\<close>

definition prim_open_fd_ro :: "'o os_calls \<Rightarrow> 'o \<Rightarrow> scm_value \<Rightarrow> (scm_value \<times> 'o) rt" where
  "prim_open_fd_ro os w self =
     bnd (arity 2 False) (\<lambda>_.
     bnd pop_arg (\<lambda>k.
     bnd pop_arg (\<lambda>file_path.
     bnd (check (STRING_P file_path) ''type error expected <string>'') (\<lambda>_.
     bnd (c_path file_path) (\<lambda>fp.
     bnd (printf (chars_of_bytes fp @ ''\<newline>'')) (\<lambda>_.
     (let (fd, w') = os_open os fp w in
      bnd (check (fd > 0) ''strerror'') (\<lambda>_.
      bnd (lift (make_int fd)) (\<lambda>v.
      bnd (push_arg v) (\<lambda>_.
      bnd (tail_call k) (\<lambda>next. ret (next, w'))))))))))))"

definition prim_close_fd :: "'o os_calls \<Rightarrow> 'o \<Rightarrow> scm_value \<Rightarrow> (scm_value \<times> 'o) rt" where
  "prim_close_fd os w self =
     bnd (arity 2 False) (\<lambda>_.
     bnd pop_arg (\<lambda>k.
     bnd pop_arg (\<lambda>val.
     bnd (check (INTEGER_P val) ''type error expected <integer>'') (\<lambda>_.
     (let (r, w') = os_close os (sint (GET_INTEGRAL val)) w in
      bnd (check (r = 0) ''strerror'') (\<lambda>_.
      bnd (tail_call k) (\<lambda>next. ret (next, w'))))))))"

text \<open>The bytes are stored from the start; how many there were is not passed on.\<close>

definition prim_read_fd :: "'o os_calls \<Rightarrow> 'o \<Rightarrow> scm_value \<Rightarrow> (scm_value \<times> 'o) rt" where
  "prim_read_fd os w self =
     bnd (arity 3 False) (\<lambda>_.
     bnd pop_arg (\<lambda>k.
     bnd pop_arg (\<lambda>fd.
     bnd pop_arg (\<lambda>val.
     bnd (check (INTEGER_P fd) ''type error expected <integer>'') (\<lambda>_.
     bnd (check (BYTEVECTOR_P val) ''type error expected <bytevector>'') (\<lambda>_.
     bnd (deref_bytevector (GET_OFF val)) (\<lambda>bs.
     (let (r, w') = os_read os (sint (GET_INTEGRAL fd)) (length bs) w in
      case r of
        None \<Rightarrow> fail (Assert ''strerror'')
      | Some new \<Rightarrow>
          bnd (assign (GET_OFF val) (HBytevector (map Some new @ drop (length new) bs))) (\<lambda>_.
          bnd (push_arg val) (\<lambda>_.
          bnd (tail_call k) (\<lambda>next. ret (next, w'))))))))))))"

section \<open>FILE objects\<close>

text \<open>The address is pushed as it is: a value whose bits are those of a small double.\<close>

definition prim_c_open_file_object :: "'o os_calls \<Rightarrow> 'o \<Rightarrow> scm_value \<Rightarrow> (scm_value \<times> 'o) rt" where
  "prim_c_open_file_object os w self =
     bnd (arity 3 False) (\<lambda>_.
     bnd pop_arg (\<lambda>k.
     bnd pop_arg (\<lambda>file_path.
     bnd pop_arg (\<lambda>mode.
     bnd (check (STRING_P file_path) ''type error expected <string>'') (\<lambda>_.
     bnd (check (STRING_P mode) ''type error expected <string>'') (\<lambda>_.
     bnd (c_path file_path) (\<lambda>fp.
     bnd (c_path mode) (\<lambda>m.
     (let (file, w') = os_fopen os fp m w in
      bnd (check (file \<noteq> 0) ''strerror'') (\<lambda>_.
      bnd (push_arg file) (\<lambda>_.
      bnd (tail_call k) (\<lambda>next. ret (next, w')))))))))))))"

definition prim_c_close_file_object :: "'o os_calls \<Rightarrow> 'o \<Rightarrow> scm_value \<Rightarrow> (scm_value \<times> 'o) rt" where
  "prim_c_close_file_object os w self =
     bnd (arity 2 False) (\<lambda>_.
     bnd pop_arg (\<lambda>k.
     bnd pop_arg (\<lambda>f.
     bnd (tail_call k) (\<lambda>next. ret (next, os_fclose os f w)))))"

text \<open>Closing a descriptor passes the void value on, which the tail call supplies.\<close>

lemma close_passes_void:
  assumes "arg_stk s = [v, k]" and "callable s k" and "INTEGER_P v" and "os_close os (sint (GET_INTEGRAL v)) w = (0, w')"
  shows "prim_close_fd os w self s = Inr ((k, w'), s\<lparr>arg_stk := [SCM_VOID]\<rparr>)"
  using assms tail_call_callable [of "s\<lparr>arg_stk := []\<rparr>" k] by (simp add: prim_close_fd_def)

end
