(* ===== verification/Scm_GC.thy ===== *)
theory Scm_GC
  imports Scm_Strings
begin

text \<open>
  The copying collector of scheme/scm_runtime.c (\<open>scm_copy_mem\<close>, \<open>scm_collect_value\<close>,
  \<open>scm_gc\<close>, \<open>scm_chk_heap\<close>), which walks the heap depth first from the intern tables, the
  argument stack and the current continuation. That it is correct is proved in
  \<open>Scm_GC_Correct\<close>.
\<close>

section \<open>Copying\<close>

text \<open>The values \<open>scm_collect_value\<close> returns from at once.\<close>

definition gc_immediate :: "scm_value \<Rightarrow> bool" where
  "gc_immediate v \<longleftrightarrow> NUMBER_P v \<or> BOOLEAN_P v \<or> CHAR_P v \<or> NULL_P v \<or> VOID_P v \<or> FUNCTION_P v"

definition gc_redirect :: "scm_value \<Rightarrow> u32 \<Rightarrow> scm_value" where
  "gc_redirect v fref = (v XOR (v AND (push_bit 32 1 - 1))) OR ucast fref"

text \<open>\<open>(enum type_tag)(TYPEOF(v) & 0xf)\<close>.\<close>

definition gc_tag :: "scm_value \<Rightarrow> type_tag" where
  "gc_tag v = [tt_inf, tt_void, tt_bool, tt_char, tt_int, tt_bigint, tt_pair, tt_symbol, tt_nan,
     tt_bytevector, tt_string, tt_vector, tt_record, tt_box, tt_closure, tt_function]
     ! unat (TYPEOF v AND 0xf)"

text \<open>\<open>*(u32 * )GET_WORKING_PTR(v)\<close>.\<close>

definition fref_of :: "nat \<Rightarrow> u32 rt" where
  "fref_of off s =
     (case pool_mem (working s) off of
        None \<Rightarrow> Inl (UB ''no object at this offset'')
      | Some c \<Rightarrow> Inr (cell_fref c, s))"

definition scm_copy_mem :: "scm_value \<Rightarrow> u32 \<Rightarrow> nat \<Rightarrow> scm_value rt" where
  "scm_copy_mem v fref sz s =
     (case pool_mem (working s) (GET_OFF v) of
        None \<Rightarrow> Inl (UB ''no object at this offset'')
      | Some c \<Rightarrow>
          if unat fref + sz \<le> pool_sz (free_pool s)
          then Inr (gc_redirect v fref,
            s\<lparr>free_pool := (free_pool s)\<lparr>
                 pool_mem := (pool_mem (free_pool s))(unat fref \<mapsto> Cell (cell_fref c) (cell_obj c)),
                 pool_idx := pool_idx (free_pool s) + sz\<rparr>,
              working := (working s)\<lparr>
                 pool_mem := (pool_mem (working s))(GET_OFF v \<mapsto> Cell fref (cell_obj c))\<rparr>\<rparr>)
          else Inl (UB ''write past the end of to-space''))"

text \<open>Objects of to-space.\<close>

definition free_obj :: "nat \<Rightarrow> hobj rt" where
  "free_obj off s =
     (case pool_mem (free_pool s) off of
        None \<Rightarrow> Inl (UB ''no object at this offset'')
      | Some c \<Rightarrow> Inr (cell_obj c, s))"

definition free_assign :: "nat \<Rightarrow> hobj \<Rightarrow> unit rt" where
  "free_assign off ob s =
     (case pool_mem (free_pool s) off of
        None \<Rightarrow> Inl (UB ''no object at this offset'')
      | Some c \<Rightarrow> Inr ((), s\<lparr>free_pool := (free_pool s)\<lparr>pool_mem :=
          (pool_mem (free_pool s))(off \<mapsto> Cell (cell_fref c) ob)\<rparr>\<rparr>))"

text \<open>The fields of an object that hold values, in the order the collector visits them.\<close>

fun slots :: "hobj \<Rightarrow> scm_value option list" where
  "slots (HPair a d) = [Some a, Some d]"
| "slots (HVector xs) = xs"
| "slots (HRecord meta xs) = Some meta # xs"
| "slots (HBox v) = [Some v]"
| "slots (HClosure _ _ fv) = fv"
| "slots _ = []"

fun put_slots :: "hobj \<Rightarrow> scm_value option list \<Rightarrow> hobj" where
  "put_slots (HPair a d) xs = HPair (the (xs ! 0)) (the (xs ! 1))"
| "put_slots (HVector _) xs = HVector xs"
| "put_slots (HRecord _ _) xs = HRecord (the (hd xs)) (tl xs)"
| "put_slots (HBox _) xs = HBox (the (hd xs))"
| "put_slots (HClosure c f _) xs = HClosure c f xs"
| "put_slots ob _ = ob"

text \<open>The reference count is an \<open>i8\<close>.\<close>

definition i8_wrap :: "int \<Rightarrow> int" where
  "i8_wrap x = sint (word_of_int x :: 8 word)"

text \<open>
  The buffer of a string already copied to \<open>str\<close> in to-space: a buffer copied earlier is
  shared, any other one follows the string. \<open>memcpy\<close> takes four times the bytes of a wide
  buffer; the surplus is overwritten later, or lies outside the blocks.
\<close>

definition share_buf :: "nat \<Rightarrow> u32 \<Rightarrow> u32 \<Rightarrow> nat \<Rightarrow> u32 \<Rightarrow> unit rt" where
  "share_buf str off len fb g =
     bnd (free_assign str (HString off len (fb, unat g))) (\<lambda>_.
     bnd (free_obj (unat g)) (\<lambda>bob.
     (case bob of HBuf sb \<Rightarrow> free_assign (unat g) (HBuf (sb\<lparr>sb_rc := i8_wrap (sb_rc sb + 1)\<rparr>))
      | _ \<Rightarrow> confusion)))"

definition copy_buf :: "nat \<Rightarrow> u32 \<Rightarrow> u32 \<Rightarrow> nat \<Rightarrow> nat \<Rightarrow> u32 \<Rightarrow> unit rt" where
  "copy_buf str off len fb prev fref =
     bnd (deref_buf prev) (\<lambda>sb.
     (let sz = aligned (12 + unat (sb_len sb));
          n = unat (sb_len sb) * char_width (sb_wc sb) in
     bnd (\<lambda>s. check_ub (prev + 12 + n \<le> pool_sz (working s)) ''read past the end of from-space'' s) (\<lambda>_.
     bnd (\<lambda>s. check_ub (unat fref + 12 + n \<le> pool_sz (free_pool s)) ''write past the end of to-space'' s) (\<lambda>_.
     bnd (modify (\<lambda>s. s\<lparr>
       working := (working s)\<lparr>pool_mem := (pool_mem (working s))(prev \<mapsto> Cell fref (HBuf sb))\<rparr>,
       free_pool := (free_pool s)\<lparr>
         pool_mem := (pool_mem (free_pool s))(unat fref \<mapsto>
           Cell 0 (HBuf (sb\<lparr>sb_rc := 1, sb_bytes := take n (sb_bytes sb)\<rparr>))),
         pool_idx := pool_idx (free_pool s) + sz\<rparr>\<rparr>)) (\<lambda>_.
     free_assign str (HString off len (fb, unat fref)))))))"

definition collect_buf :: "nat \<Rightarrow> u32 \<Rightarrow> unit rt" where
  "collect_buf str fref =
     bnd (free_obj str) (\<lambda>ob.
     (case ob of HString off len p \<Rightarrow>
        bnd (same_base (fst p)) (\<lambda>_.
        bnd (fref_of (snd p)) (\<lambda>g.
        bnd (gets (\<lambda>s. pool_base (free_pool s))) (\<lambda>fb.
        if g \<noteq> 0 then share_buf str off len fb g
        else copy_buf str off len fb (snd p) fref)))
      | _ \<Rightarrow> confusion))"

text \<open>
  \<open>scm_collect_value\<close> returns the value it stores through its argument. The size of each
  kind of object is that of its struct and flexible array.
\<close>

fun scm_collect_value :: "nat \<Rightarrow> scm_value \<Rightarrow> scm_value rt"
  and collect_slots :: "nat \<Rightarrow> nat \<Rightarrow> nat \<Rightarrow> nat \<Rightarrow> unit rt" where
  "scm_collect_value 0 v = fail NoFuel"
| "scm_collect_value (Suc n) v =
     (if gc_immediate v then ret v
      else bnd (fref_of (GET_OFF v)) (\<lambda>fref0.
      if fref0 \<noteq> 0 then ret (gc_redirect v fref0)
      else bnd (gets (\<lambda>s. of_nat (pool_idx (free_pool s)))) (\<lambda>fref.
      (case gc_tag v of
         tt_bigint \<Rightarrow> fail (Assert ''unimplemented'')
       | tt_pair \<Rightarrow>
           bnd (deref_pair (GET_OFF v)) (\<lambda>_.
           bnd (scm_copy_mem v fref 24) (\<lambda>v'.
           bnd (collect_slots n (unat fref) 0 2) (\<lambda>_. ret v')))
       | tt_symbol \<Rightarrow>
           bnd (deref_symbol (GET_OFF v)) (\<lambda>(_, name).
           scm_copy_mem v fref (aligned (16 + length name)))
       | tt_bytevector \<Rightarrow>
           bnd (deref_bytevector (GET_OFF v)) (\<lambda>bs.
           scm_copy_mem v fref (aligned (8 + length bs)))
       | tt_string \<Rightarrow>
           bnd (deref_string (GET_OFF v)) (\<lambda>_.
           bnd (scm_copy_mem v fref (aligned 24)) (\<lambda>v'.
           bnd (collect_buf (unat fref) (fref + of_nat (aligned 24))) (\<lambda>_. ret v')))
       | tt_vector \<Rightarrow>
           bnd (deref_vector (GET_OFF v)) (\<lambda>xs.
           bnd (scm_copy_mem v fref (8 + 8 * length xs)) (\<lambda>v'.
           bnd (collect_slots n (unat fref) 0 (length xs)) (\<lambda>_. ret v')))
       | tt_record \<Rightarrow>
           bnd (deref_record (GET_OFF v)) (\<lambda>(_, xs).
           bnd (scm_copy_mem v fref (16 + 8 * length xs)) (\<lambda>v'.
           bnd (collect_slots n (unat fref) 0 (1 + length xs)) (\<lambda>_. ret v')))
       | tt_box \<Rightarrow>
           bnd (deref_box (GET_OFF v)) (\<lambda>_.
           bnd (scm_copy_mem v fref 16) (\<lambda>v'.
           bnd (collect_slots n (unat fref) 0 1) (\<lambda>_. ret v')))
       | tt_closure \<Rightarrow>
           bnd (deref_closure (GET_OFF v)) (\<lambda>(_, _, fv).
           bnd (scm_copy_mem v fref (24 + 8 * length fv)) (\<lambda>v'.
           bnd (collect_slots n (unat fref) 0 (length fv)) (\<lambda>_. ret v')))
       | _ \<Rightarrow> fail (Assert ''Unreachable'')))))"
| "collect_slots n a i 0 = ret ()"
| "collect_slots n a i (Suc k) =
     bnd (free_obj a) (\<lambda>ob.
     bnd (elem_at (slots ob) i) (\<lambda>v.
     bnd (scm_collect_value n v) (\<lambda>v'.
     bnd (free_obj a) (\<lambda>ob'.
     bnd (free_assign a (put_slots ob' ((slots ob')[i := Some v']))) (\<lambda>_.
     collect_slots n a (Suc i) k)))))"

section \<open>A collection\<close>

definition collect_table :: "nat \<Rightarrow> scm_value list \<Rightarrow> scm_value list rt" where
  "collect_table fuel tbl =
     bnd (check_ub (tbl \<noteq> [] \<and> unat (hd tbl) < length tbl) ''read past the end of the intern table'') (\<lambda>_.
     bnd (mmap (scm_collect_value fuel) (take (unat (hd tbl)) (tl tbl))) (\<lambda>xs.
     ret (hd tbl # xs @ drop (unat (hd tbl)) (tl tbl))))"

text \<open>
  The roots are written back after each loop over them; nothing reads them before. The last
  line of the source carries the stray characters of a merge before the assignment.
\<close>

definition scm_gc :: "nat \<Rightarrow> scm_value \<Rightarrow> scm_value rt" where
  "scm_gc fuel cc =
     bnd (modify (\<lambda>s. s\<lparr>free_pool := \<lparr>pool_sz = pool_sz (working s), pool_idx = 8,
            pool_base = next_base s, pool_mem = \<lambda>_. None\<rparr>, next_base := next_base s + 1\<rparr>)) (\<lambda>_.
     bnd (gets intern_tbl) (\<lambda>tbls.
     bnd (mmap (collect_table fuel) tbls) (\<lambda>tbls'.
     bnd (modify (\<lambda>s. s\<lparr>intern_tbl := tbls'\<rparr>)) (\<lambda>_.
     bnd (gets arg_stk) (\<lambda>xs.
     bnd (mmap (scm_collect_value fuel) xs) (\<lambda>xs'.
     bnd (modify (\<lambda>s. s\<lparr>arg_stk := xs'\<rparr>)) (\<lambda>_.
     bnd (scm_collect_value fuel cc) (\<lambda>cc'.
     bnd (modify (\<lambda>s. s\<lparr>working := free_pool s, free_pool := empty_pool,
            gc_threashold := pool_idx (free_pool s)\<rparr>)) (\<lambda>_.
     ret cc')))))))))"

definition scm_chk_heap :: "nat \<Rightarrow> scm_value \<Rightarrow> scm_value rt" where
  "scm_chk_heap fuel cc =
     bnd (gets (\<lambda>s. pool_idx (working s) > gc_threashold s + gc_threashold s div 2)) (\<lambda>full.
     if full
     then bnd (modify (\<lambda>s. s\<lparr>gc_cycles := gc_cycles s + 1\<rparr>)) (\<lambda>_. scm_gc fuel cc)
     else ret cc)"

section \<open>Redirected values\<close>

lemma bit_gc_redirect:
  "bit (gc_redirect v f) n \<longleftrightarrow> (if n < 32 then bit f n else bit v n)"
proof (cases "n < 64")
  case True
  then show ?thesis
    unfolding gc_redirect_def low32 using bit_imp_le_length [of f n] by (auto simp: bit_simps)
qed (use not_bit_length [where 'a = 64] bit_imp_le_length in \<open>fastforce\<close>)

lemma GET_INTEGRAL_redirect [simp]: "GET_INTEGRAL (gc_redirect v f) = f"
  unfolding GET_INTEGRAL_ucast by (rule bit_word_eqI) (simp add: bit_simps bit_gc_redirect)

lemma GET_OFF_redirect [simp]: "GET_OFF (gc_redirect v f) = unat f"
  by (simp add: GET_OFF_def)

lemma TYPEOF_redirect [simp]: "TYPEOF (gc_redirect v f) = TYPEOF v"
  unfolding TYPEOF_def by (rule bit_word_eqI) (simp add: bit_simps bit_gc_redirect)

lemma gc_tag_redirect [simp]: "gc_tag (gc_redirect v f) = gc_tag v"
  by (simp add: gc_tag_def)

lemma FLOAT_P_TYPEOF: "FLOAT_P v \<longleftrightarrow> (drop_bit 4 (TYPEOF v) AND 0x7ff) XOR 0x7ff \<noteq> 0"
  by (simp add: FLOAT_P_def TYPEOF_def)

lemma GET_OFF_NULL [simp]: "GET_OFF SCM_NULL = 0"
  using GET_INTEGRAL_box [of "NB tt_pair" 0] by (simp add: GET_OFF_def SCM_NULL_def)

text \<open>Values with the empty list's tag and nonzero offset, and heap values, stay heap values.\<close>

lemma gc_immediate_redirect [simp]:
  assumes "\<not> gc_immediate v" and "f \<noteq> 0"
  shows "\<not> gc_immediate (gc_redirect v f)"
proof -
  have "GET_OFF (gc_redirect v f) \<noteq> 0"
    using assms(2) by (simp add: unat_eq_0)
  then have "\<not> NULL_P (gc_redirect v f)"
    unfolding NULL_P_def using GET_OFF_NULL by metis
  moreover have "\<not> VOID_P (gc_redirect v f)"
  proof
    have "TYPEOF v \<noteq> TYPEOF SCM_VOID \<or> v \<noteq> SCM_VOID"
      using assms(1) by (auto simp: gc_immediate_def VOID_P_def)
    assume "VOID_P (gc_redirect v f)"
    then have "GET_OFF (gc_redirect v f) = GET_OFF SCM_VOID"
      by (simp add: VOID_P_def)
    moreover have "GET_OFF SCM_VOID = 0"
      using GET_INTEGRAL_box [of "NB tt_void" 0] by (simp add: GET_OFF_def SCM_VOID_def)
    ultimately show False
      using \<open>GET_OFF (gc_redirect v f) \<noteq> 0\<close> by simp
  qed
  ultimately show ?thesis
    using assms(1)
    by (simp add: gc_immediate_def NUMBER_P_def INTEGER_P_def BOOLEAN_P_def CHAR_P_def
        FUNCTION_P_def FLOAT_P_TYPEOF)
qed

section \<open>Heaps\<close>

text \<open>What a heap value points to, as the tag says.\<close>

fun obj_tag :: "hobj \<Rightarrow> type_tag option" where
  "obj_tag (HPair _ _) = Some tt_pair"
| "obj_tag (HSymbol _ _) = Some tt_symbol"
| "obj_tag (HString _ _ _) = Some tt_string"
| "obj_tag (HBytevector _) = Some tt_bytevector"
| "obj_tag (HVector _) = Some tt_vector"
| "obj_tag (HRecord _ _) = Some tt_record"
| "obj_tag (HBox _) = Some tt_box"
| "obj_tag (HClosure _ _ _) = Some tt_closure"
| "obj_tag (HBuf _) = None"

type_synonym heap_view = "nat \<Rightarrow> hobj option"

definition objs :: "mem_pool \<Rightarrow> heap_view" where
  "objs p l = map_option cell_obj (pool_mem p l)"

definition value_ok :: "heap_view \<Rightarrow> scm_value \<Rightarrow> bool" where
  "value_ok h v \<longleftrightarrow> gc_immediate v \<or> (\<exists>ob. h (GET_OFF v) = Some ob \<and> obj_tag ob = Some (gc_tag v))"

text \<open>
  Every element has been written and is a value; the buffer of a string lies in the block in
  use and is narrow, and a buffer's length is that of its bytes.
\<close>

fun str_ok :: "heap_view \<Rightarrow> nat \<Rightarrow> hobj \<Rightarrow> bool" where
  "str_ok h b (HString _ _ p) \<longleftrightarrow> fst p = b \<and> (\<exists>sb. h (snd p) = Some (HBuf sb))"
| "str_ok h b (HBuf sb) \<longleftrightarrow> unat (sb_len sb) = length (sb_bytes sb) \<and> \<not> sb_wc sb"
| "str_ok h b _ \<longleftrightarrow> True"

definition obj_ok :: "heap_view \<Rightarrow> nat \<Rightarrow> hobj \<Rightarrow> bool" where
  "obj_ok h b ob \<longleftrightarrow> str_ok h b ob \<and> (\<forall>x\<in>set (slots ob). \<exists>v. x = Some v \<and> value_ok h v)"

definition heap_ok :: "mem_pool \<Rightarrow> bool" where
  "heap_ok p \<longleftrightarrow> (\<forall>l ob. objs p l = Some ob \<longrightarrow> obj_ok (objs p) (pool_base p) ob)"

text \<open>An object moved by \<open>\<phi>\<close> to the block \<open>b\<close>, up to the reference count of a buffer.\<close>

definition reloc :: "(nat \<Rightarrow> u32) \<Rightarrow> scm_value \<Rightarrow> scm_value" where
  "reloc \<phi> v = (if gc_immediate v then v else gc_redirect v (\<phi> (GET_OFF v)))"

fun reloc_obj :: "(nat \<Rightarrow> u32) \<Rightarrow> nat \<Rightarrow> hobj \<Rightarrow> hobj" where
  "reloc_obj \<phi> b (HString off len p) = HString off len (b, unat (\<phi> (snd p)))"
| "reloc_obj \<phi> b ob = put_slots ob (map (map_option (reloc \<phi>)) (slots ob))"

fun norc :: "hobj \<Rightarrow> hobj" where
  "norc (HBuf sb) = HBuf (sb\<lparr>sb_rc := 0\<rparr>)"
| "norc ob = ob"

lemma norc_nonbuf: "norc x = norc y \<Longrightarrow> \<forall>sb. x \<noteq> HBuf sb \<Longrightarrow> y = x"
  by (cases x; cases y) auto

lemma norc_buf: "norc x = norc (HBuf sb) \<Longrightarrow> \<exists>sb'. x = HBuf sb' \<and> sb'\<lparr>sb_rc := 0\<rparr> = sb\<lparr>sb_rc := 0\<rparr>"
  by (cases x) auto

lemma norc_simps [simp]: "norc (HBuf (sb\<lparr>sb_rc := r\<rparr>)) = norc (HBuf sb)" "norc (norc x) = norc x"
  by (simp, cases x) simp_all

lemma length_slots_put: "length xs = length (slots ob) \<Longrightarrow> None \<notin> set xs \<Longrightarrow> slots (put_slots ob xs) = xs"
proof (cases ob)
  case (HPair a d)
  assume "length xs = length (slots ob)" "None \<notin> set xs"
  then obtain x y where "xs = [x, y]" "x \<noteq> None" "y \<noteq> None"
    using HPair by (cases xs; cases "tl xs") (auto simp: eq_commute [of None])
  then show ?thesis using HPair by auto
next
  case (HRecord m ys)
  assume "length xs = length (slots ob)" "None \<notin> set xs"
  then show ?thesis using HRecord by (cases xs; cases "hd xs") auto
next
  case (HBox v)
  assume "length xs = length (slots ob)" "None \<notin> set xs"
  then show ?thesis using HBox by (cases xs; cases "hd xs") auto
qed auto

lemma put_slots_put [simp]:
  "length xs = length (slots ob) \<Longrightarrow> put_slots (put_slots ob ys) xs = put_slots ob xs"
  by (cases ob) auto

lemma put_slots_id: "put_slots ob (slots ob) = ob"
  by (cases ob) auto

lemma put_slots_size [simp]:
  "length xs = length (slots ob) \<Longrightarrow> obj_size (put_slots ob xs) = obj_size ob"
  by (cases ob) auto

lemma put_slots_tag [simp]: "obj_tag (put_slots ob xs) = obj_tag ob"
  by (cases ob) auto

lemma norc_size: "norc x = norc y \<Longrightarrow> obj_size x = obj_size y"
proof (cases "\<exists>sb. x = HBuf sb")
  case True
  assume "norc x = norc y"
  then obtain sb sb' where "x = HBuf sb" "y = HBuf sb'" "sb'\<lparr>sb_rc := 0\<rparr> = sb\<lparr>sb_rc := 0\<rparr>"
    using True norc_buf [of y] by metis
  then show ?thesis
    by (metis norc.simps(1) obj_size.simps(9) shared_buf.surjective shared_buf.update_convs(2)
        shared_buf.select_convs(5))
qed (metis norc_nonbuf)

end
