(* ===== verification/Scm_GC_Correct.thy ===== *)
theory Scm_GC_Correct
  imports Scm_GC
begin

text \<open>
  Correctness of the copying collector of scheme/scm_runtime.c. The forwarding references
  in from-space are a map from old to new offsets; the proof is an induction on the fuel,
  which exceeds the number of objects not copied yet, over a relation \<open>ext\<close> that says what a
  run of the collector may change.
\<close>

section \<open>Views of the two spaces\<close>

definition fwd :: "rt_state \<Rightarrow> nat \<Rightarrow> u32" where
  "fwd s l = (case pool_mem (working s) l of Some c \<Rightarrow> cell_fref c | None \<Rightarrow> 0)"

text \<open>To-space up to reference counts.\<close>

definition tosp :: "rt_state \<Rightarrow> nat \<Rightarrow> (u32 \<times> hobj) option" where
  "tosp s a = map_option (\<lambda>c. (cell_fref c, norc (cell_obj c))) (pool_mem (free_pool s) a)"

abbreviation fidx :: "rt_state \<Rightarrow> nat" where
  "fidx s \<equiv> pool_idx (free_pool s)"

abbreviation from_objs :: "rt_state \<Rightarrow> heap_view" where
  "from_objs s \<equiv> objs (working s)"

text \<open>Everything a collection of one value leaves alone.\<close>

definition skel :: "rt_state \<Rightarrow> rt_state" where
  "skel s = s\<lparr>working := (working s)\<lparr>pool_mem := \<lambda>_. None\<rparr>,
     free_pool := (free_pool s)\<lparr>pool_mem := \<lambda>_. None, pool_idx := 0\<rparr>\<rparr>"

lemma skelD:
  assumes "skel s = skel t"
  shows "pool_idx (working s) = pool_idx (working t)" "pool_sz (working s) = pool_sz (working t)"
    "pool_base (working s) = pool_base (working t)" "pool_sz (free_pool s) = pool_sz (free_pool t)"
    "pool_base (free_pool s) = pool_base (free_pool t)" "arg_stk s = arg_stk t"
    "intern_tbl s = intern_tbl t"
proof -
  have w: "working (skel s) = working (skel t)" and f: "free_pool (skel s) = free_pool (skel t)"
    and a: "arg_stk (skel s) = arg_stk (skel t)" and i: "intern_tbl (skel s) = intern_tbl (skel t)"
    using assms by simp_all
  show "pool_idx (working s) = pool_idx (working t)" "pool_sz (working s) = pool_sz (working t)"
    "pool_base (working s) = pool_base (working t)"
    using arg_cong [OF w, of pool_idx] arg_cong [OF w, of pool_sz] arg_cong [OF w, of pool_base]
    by (simp_all add: skel_def)
  show "pool_sz (free_pool s) = pool_sz (free_pool t)" "pool_base (free_pool s) = pool_base (free_pool t)"
    using arg_cong [OF f, of pool_sz] arg_cong [OF f, of pool_base] by (simp_all add: skel_def)
  show "arg_stk s = arg_stk t" "intern_tbl s = intern_tbl t"
    using a i by (simp_all add: skel_def)
qed

text \<open>What an object refers to has been copied; and an object whose copy is finished.\<close>

definition settled :: "(nat \<Rightarrow> u32) \<Rightarrow> hobj \<Rightarrow> bool" where
  "settled \<phi> ob \<longleftrightarrow>
     (\<forall>v. Some v \<in> set (slots ob) \<longrightarrow> \<not> gc_immediate v \<longrightarrow> \<phi> (GET_OFF v) \<noteq> 0) \<and>
     (\<forall>off len p. ob = HString off len p \<longrightarrow> \<phi> (snd p) \<noteq> 0)"

definition black :: "rt_state \<Rightarrow> nat \<Rightarrow> bool" where
  "black s l \<longleftrightarrow> (\<forall>ob. from_objs s l = Some ob \<longrightarrow> settled (fwd s) ob \<and>
     tosp s (unat (fwd s l)) = Some (0, norc (reloc_obj (fwd s) (pool_base (free_pool s)) ob)))"

definition moved :: "rt_state \<Rightarrow> scm_value \<Rightarrow> bool" where
  "moved s v \<longleftrightarrow> gc_immediate v \<or> fwd s (GET_OFF v) \<noteq> 0"

lemma reloc_mono:
  "moved s v \<Longrightarrow> (\<And>l. fwd s l \<noteq> 0 \<Longrightarrow> fwd t l = fwd s l) \<Longrightarrow> reloc (fwd t) v = reloc (fwd s) v"
  by (auto simp: reloc_def moved_def)

lemma settled_mono:
  assumes "settled \<phi> ob" and "\<And>l. \<phi> l \<noteq> 0 \<Longrightarrow> \<psi> l = \<phi> l"
  shows "settled \<psi> ob" and "reloc_obj \<psi> b ob = reloc_obj \<phi> b ob"
proof -
  show "settled \<psi> ob"
    using assms unfolding settled_def by metis
  have "map_option (reloc \<psi>) x = map_option (reloc \<phi>) x" if "x \<in> set (slots ob)" for x
  proof (cases x)
    case (Some v)
    then have "gc_immediate v \<or> \<psi> (GET_OFF v) = \<phi> (GET_OFF v)"
      using assms that unfolding settled_def by blast
    then show ?thesis using Some by (auto simp: reloc_def)
  qed simp
  then have m: "map (map_option (reloc \<psi>)) (slots ob) = map (map_option (reloc \<phi>)) (slots ob)"
    by simp
  show "reloc_obj \<psi> b ob = reloc_obj \<phi> b ob"
  proof (cases ob)
    case (HString off len p)
    then have "\<phi> (snd p) \<noteq> 0"
      using assms(1) unfolding settled_def by blast
    then have "\<psi> (snd p) = \<phi> (snd p)"
      by (rule assms(2))
    then show ?thesis using HString by simp
  qed (use m in \<open>simp_all del: map_map\<close>)
qed

section \<open>What a run of the collector may change\<close>

definition ext :: "nat set \<Rightarrow> rt_state \<Rightarrow> rt_state \<Rightarrow> bool" where
  "ext X s t \<longleftrightarrow>
     from_objs t = from_objs s \<and> skel t = skel s \<and> fidx s \<le> fidx t \<and>
     (\<forall>l. fwd s l \<noteq> 0 \<longrightarrow> fwd t l = fwd s l) \<and>
     (\<forall>a. a < fidx s \<longrightarrow> a \<notin> X \<longrightarrow> tosp t a = tosp s a) \<and>
     (\<forall>l. fwd s l = 0 \<longrightarrow> fwd t l \<noteq> 0 \<longrightarrow>
        fidx s \<le> unat (fwd t l) \<and> unat (fwd t l) < fidx t \<and> black t l) \<and>
     (\<forall>l l'. fwd s l = 0 \<longrightarrow> fwd s l' = 0 \<longrightarrow> fwd t l \<noteq> 0 \<longrightarrow> fwd t l = fwd t l' \<longrightarrow> l = l')"

lemma extD:
  assumes "ext X s t"
  shows "from_objs t = from_objs s" "skel t = skel s" "fidx s \<le> fidx t"
    and "fwd s l \<noteq> 0 \<Longrightarrow> fwd t l = fwd s l"
    and "a < fidx s \<Longrightarrow> a \<notin> X \<Longrightarrow> tosp t a = tosp s a"
    and "fwd s l = 0 \<Longrightarrow> fwd t l \<noteq> 0 \<Longrightarrow> fidx s \<le> unat (fwd t l)"
    and "fwd s l = 0 \<Longrightarrow> fwd t l \<noteq> 0 \<Longrightarrow> unat (fwd t l) < fidx t"
    and "fwd s l = 0 \<Longrightarrow> fwd t l \<noteq> 0 \<Longrightarrow> black t l"
    and "fwd s l = 0 \<Longrightarrow> fwd s l' = 0 \<Longrightarrow> fwd t l \<noteq> 0 \<Longrightarrow> fwd t l = fwd t l' \<Longrightarrow> l = l'"
  using assms unfolding ext_def by blast+

lemma ext_refl: "ext X s s"
  by (simp add: ext_def)

lemma ext_weaken: "ext X s t \<Longrightarrow> X \<subseteq> Y \<Longrightarrow> ext Y s t"
  unfolding ext_def by blast

lemma moved_ext: "ext X s t \<Longrightarrow> moved s v \<Longrightarrow> moved t v"
  unfolding moved_def using extD(4) by metis

lemma black_ext:
  assumes "ext X t u" and "black t l" and "fwd t l \<noteq> 0" and "unat (fwd t l) < fidx t"
    and "unat (fwd t l) \<notin> X"
  shows "black u l"
  unfolding black_def
proof (intro allI impI)
  fix ob assume ob: "from_objs u l = Some ob"
  note E = extD [OF assms(1)]
  have old: "settled (fwd t) ob"
    "tosp t (unat (fwd t l)) = Some (0, norc (reloc_obj (fwd t) (pool_base (free_pool t)) ob))"
    using assms(2) ob E(1) by (auto simp: black_def)
  have "pool_base (free_pool u) = pool_base (free_pool t)"
    using skelD(5) [OF E(2)] .
  moreover have "tosp u (unat (fwd u l)) = tosp t (unat (fwd t l))"
    using E(4) [OF assms(3)] E(5) [OF assms(4,5)] by simp
  ultimately show "settled (fwd u) ob \<and>
      tosp u (unat (fwd u l)) = Some (0, norc (reloc_obj (fwd u) (pool_base (free_pool u)) ob))"
    using settled_mono [OF old(1), of "fwd u"] E(4) old(2) by simp
qed

lemma ext_trans:
  assumes st: "ext X s t" and tu: "ext X t u" and X: "\<And>a. a \<in> X \<Longrightarrow> a < fidx s"
  shows "ext X s u"
  unfolding ext_def
proof (intro conjI allI impI)
  note S = extD [OF st] and T = extD [OF tu]
  show "from_objs u = from_objs s" "skel u = skel s" "fidx s \<le> fidx u"
    using S T by (simp_all add: order_trans [OF S(3) T(3)])
  show "fwd u l = fwd s l" if "fwd s l \<noteq> 0" for l
    using S(4) [OF that] T(4) [of l] that by simp
  show "tosp u a = tosp s a" if "a < fidx s" "a \<notin> X" for a
    using S(5) [OF that] T(5) [OF less_le_trans [OF that(1) S(3)] that(2)] by simp
  fix l assume l: "fwd s l = 0" "fwd u l \<noteq> 0"
  show "black u l"
  proof (cases "fwd t l = 0")
    case False
    then have "unat (fwd t l) < fidx t" "fidx s \<le> unat (fwd t l)" "black t l"
      using S(6,7,8) [OF l(1)] by simp_all
    then show ?thesis
      using False X by (intro black_ext [OF tu]) force+
  qed (use T(8) l(2) in blast)
  show "fidx s \<le> unat (fwd u l)"
    using S(6) [OF l(1)] T(4) [of l] T(6) [of l] l(2) S(3) by (cases "fwd t l = 0") auto
  show "unat (fwd u l) < fidx u"
    using S(7) [OF l(1)] T(3) T(4) [of l] T(7) [of l] l(2) by (cases "fwd t l = 0") auto
next
  note S = extD [OF st] and T = extD [OF tu]
  fix l l' assume l: "fwd s l = 0" "fwd s l' = 0" "fwd u l \<noteq> 0" "fwd u l = fwd u l'"
  consider "fwd t l = 0" "fwd t l' = 0" | "fwd t l \<noteq> 0" "fwd t l' \<noteq> 0"
    | "fwd t l = 0" "fwd t l' \<noteq> 0" | "fwd t l \<noteq> 0" "fwd t l' = 0"
    by blast
  then show "l = l'"
  proof cases
    case 1 then show ?thesis using T(9) l by blast
  next
    case 2 then show ?thesis using T(4) S(9) l by metis
  next
    case 3
    then have "fidx t \<le> unat (fwd u l)" "unat (fwd u l') < fidx t"
      using T(6) [of l] T(4) [of l'] S(7) [of l'] l by auto
    then show ?thesis using l(4) by simp
  next
    case 4
    then have "fidx t \<le> unat (fwd u l')" "unat (fwd u l) < fidx t"
      using T(6) [of l'] T(4) [of l] S(7) [of l] l by auto
    then show ?thesis using l(4) by simp
  qed
qed

text \<open>
  An object copied first and finished after a run that was allowed to write its copy.
\<close>

lemma ext_close:
  assumes l: "fwd s l = 0" "fwd s1 = (fwd s)(l := of_nat (fidx s))"
    and s1: "from_objs s1 = from_objs s" "skel s1 = skel s" "fidx s < fidx s1"
      "\<And>a. a < fidx s \<Longrightarrow> tosp s1 a = tosp s a" "fidx s < 2 ^ 32" "0 < fidx s"
    and t: "ext {fidx s} s1 t" and b: "black t l"
  shows "ext {} s t"
  unfolding ext_def
proof (intro conjI allI impI)
  note T = extD [OF t]
  have nz: "(of_nat (fidx s) :: u32) \<noteq> 0" and un: "unat (of_nat (fidx s) :: u32) = fidx s"
    using s1(5,6) by (simp_all add: unat_eq_0 [symmetric])
  show "from_objs t = from_objs s" "skel t = skel s" "fidx s \<le> fidx t"
    using T(1-3) s1(1-3) by simp_all
  show "fwd t k = fwd s k" if "fwd s k \<noteq> 0" for k
    using T(4) [of k] that l by (cases "k = l") simp_all
  show "tosp t a = tosp s a" if "a < fidx s" "a \<notin> {}" for a
    using T(5) [of a] s1(3,4) that by simp
  have tl: "fwd t l = of_nat (fidx s)"
    using T(4) [of l] l(2) nz by simp
  fix k assume k: "fwd s k = 0" "fwd t k \<noteq> 0"
  have new: "fidx s1 \<le> unat (fwd t k) \<and> unat (fwd t k) < fidx t \<and> black t k" if "k \<noteq> l"
    using T(6,7,8) [of k] that k l(2) by simp
  show "fidx s \<le> unat (fwd t k)"
    using new tl un s1(3) by (cases "k = l") auto
  show "unat (fwd t k) < fidx t"
    using new tl un s1(3) T(3) by (cases "k = l") auto
  show "black t k"
    using new b by (cases "k = l") auto
next
  note T = extD [OF t]
  have nz: "(of_nat (fidx s) :: u32) \<noteq> 0" and un: "unat (of_nat (fidx s) :: u32) = fidx s"
    using s1(5,6) by (simp_all add: unat_eq_0 [symmetric])
  have tl: "fwd t l = of_nat (fidx s)"
    using T(4) [of l] l(2) nz by simp
  fix k k' assume k: "fwd s k = 0" "fwd s k' = 0" "fwd t k \<noteq> 0" "fwd t k = fwd t k'"
  have new: "fidx s1 \<le> unat (fwd t j)" if "j \<noteq> l" "j = k \<or> j = k'" for j
    using T(6) [of j] that k l(2) by auto
  show "k = k'"
  proof (cases "k = l \<or> k' = l")
    case True
    then show ?thesis
      using new [of k] new [of k'] tl un s1(3) k(4) by (metis not_le)
  next
    case False
    then show ?thesis
      using T(9) [of k k'] k l(2) by simp
  qed
qed

section \<open>The invariant\<close>

text \<open>The objects not copied yet, and the room they still need in to-space.\<close>

definition uncopied :: "rt_state \<Rightarrow> nat set" where
  "uncopied s = {l. \<exists>ob. pool_mem (working s) l = Some (Cell 0 ob)}"

definition asize :: "rt_state \<Rightarrow> nat \<Rightarrow> nat" where
  "asize s l = aligned (obj_size (the (from_objs s l)))"

definition gc_inv :: "rt_state \<Rightarrow> bool" where
  "gc_inv s \<longleftrightarrow> pool_ok (working s) \<and> heap_ok (working s) \<and> pool_idx (working s) \<le> 2 ^ 32 \<and>
     pool_sz (working s) \<le> pool_sz (free_pool s) \<and> pool_ok (free_pool s) \<and>
     fidx s + (\<Sum>l\<in>uncopied s. asize s l) \<le> pool_idx (working s) \<and>
     (\<forall>l sb. from_objs s l = Some (HBuf sb) \<longrightarrow> fwd s l \<noteq> 0 \<longrightarrow>
        tosp s (unat (fwd s l)) = Some (0, norc (HBuf sb))) \<and>
     (\<forall>a. pool_mem (free_pool s) a \<noteq> None \<longrightarrow> (\<exists>l. from_objs s l \<noteq> None \<and> fwd s l \<noteq> 0 \<and> unat (fwd s l) = a))"

lemma gc_invD:
  assumes "gc_inv s"
  shows "pool_ok (working s)" "heap_ok (working s)" "pool_idx (working s) \<le> 2 ^ 32"
    "pool_sz (working s) \<le> pool_sz (free_pool s)" "pool_ok (free_pool s)"
    "fidx s + (\<Sum>l\<in>uncopied s. asize s l) \<le> pool_idx (working s)"
    "from_objs s l = Some (HBuf sb) \<Longrightarrow> fwd s l \<noteq> 0 \<Longrightarrow>
       tosp s (unat (fwd s l)) = Some (0, norc (HBuf sb))"
    "pool_mem (free_pool s) a \<noteq> None \<Longrightarrow>
       \<exists>l. from_objs s l \<noteq> None \<and> fwd s l \<noteq> 0 \<and> unat (fwd s l) = a"
  using assms unfolding gc_inv_def by blast+

lemma uncopied_finite: "gc_inv s \<Longrightarrow> finite (uncopied s)"
proof -
  assume "gc_inv s"
  then have "uncopied s \<subseteq> {..< pool_idx (working s)}"
    using pool_ok_below gc_invD(1) unfolding uncopied_def by blast
  then show ?thesis
    by (rule finite_subset) simp
qed

lemma uncopied_iff: "l \<in> uncopied s \<longleftrightarrow> from_objs s l \<noteq> None \<and> fwd s l = 0"
  by (auto simp: uncopied_def objs_def fwd_def split: option.splits) (metis hcell.collapse)

lemma uncopied_room:
  assumes "gc_inv s" and "from_objs s l = Some ob" and "fwd s l = 0"
  shows "fidx s + aligned (obj_size ob) \<le> pool_idx (working s)" and "fidx s < 2 ^ 32"
    and "l + aligned (obj_size ob) \<le> pool_idx (working s)"
proof -
  have "l \<in> uncopied s"
    using assms by (simp add: uncopied_iff)
  then have "asize s l \<le> (\<Sum>l\<in>uncopied s. asize s l)"
    using uncopied_finite [OF assms(1)] by (intro member_le_sum) auto
  then show r: "fidx s + aligned (obj_size ob) \<le> pool_idx (working s)"
    using gc_invD(6) [OF assms(1)] assms(2) by (simp add: asize_def)
  then show "fidx s < 2 ^ 32"
    using gc_invD(3) [OF assms(1)] aligned_bounds(1) [of "obj_size ob"] obj_size_ge [of ob] by linarith
  obtain c where "pool_mem (working s) l = Some c" "cell_obj c = ob"
    using assms(2) by (auto simp: objs_def)
  then show "l + aligned (obj_size ob) \<le> pool_idx (working s)"
    using pool_ok_objD(4) [OF gc_invD(1) [OF assms(1)]] by metis
qed

section \<open>One object copied\<close>

definition copied :: "nat \<Rightarrow> hobj \<Rightarrow> rt_state \<Rightarrow> rt_state" where
  "copied l ob' s = s\<lparr>
     working := (working s)\<lparr>pool_mem :=
       (pool_mem (working s))(l \<mapsto> Cell (of_nat (fidx s)) (the (from_objs s l)))\<rparr>,
     free_pool := (free_pool s)\<lparr>
       pool_mem := (pool_mem (free_pool s))(fidx s \<mapsto> Cell 0 ob'),
       pool_idx := fidx s + aligned (obj_size ob')\<rparr>\<rparr>"

lemma copied_views:
  assumes "from_objs s l = Some ob"
  shows "from_objs (copied l ob' s) = from_objs s"
    and "fwd (copied l ob' s) = (fwd s)(l := of_nat (fidx s))"
    and "skel (copied l ob' s) = skel s"
    and "fidx (copied l ob' s) = fidx s + aligned (obj_size ob')"
    and "tosp (copied l ob' s) = (tosp s)(fidx s \<mapsto> (0, norc ob'))"
    and "pool_mem (free_pool (copied l ob' s)) = (pool_mem (free_pool s))(fidx s \<mapsto> Cell 0 ob')"
  using assms by (auto simp: copied_def objs_def fwd_def tosp_def skel_def fun_eq_iff)

lemma copied_uncopied:
  assumes "from_objs s l = Some ob" and "0 < fidx s" and "fidx s < 2 ^ 32"
  shows "uncopied (copied l ob' s) = uncopied s - {l}"
proof -
  have "(of_nat (fidx s) :: u32) \<noteq> 0"
    using assms(2,3) by (simp add: unat_eq_0 [symmetric])
  then show ?thesis
    using copied_views [OF assms(1), of ob'] by (auto simp: uncopied_iff split: if_splits)
qed

lemma inv_copied:
  assumes gc_inv: "gc_inv s" and ob: "from_objs s l = Some ob" and unc: "fwd s l = 0"
    and ob': "norc ob' = norc ob"
  shows "gc_inv (copied l ob' s)"
proof -
  let ?t = "copied l ob' s"
  note I = gc_invD [OF gc_inv]
  have size: "obj_size ob' = obj_size ob"
    by (rule norc_size [OF ob'])
  note R = uncopied_room [OF gc_inv ob unc]
  have f8: "8 \<le> fidx s"
    using I(5) by (simp add: pool_ok_def)
  note V = copied_views [OF ob, of ob']
  have unc': "uncopied ?t = uncopied s - {l}"
    using copied_uncopied [OF ob _ R(2)] f8 by simp
  obtain c where c: "pool_mem (working s) l = Some c" "cell_obj c = ob"
    using ob by (auto simp: objs_def)
  have w: "pool_ok (working ?t)"
    using pool_ok_assign [OF I(1) c(1), of ob] c(2) ob by (simp add: copied_def)
  have "pool_base (working ?t) = pool_base (working s)"
    using skelD(3) [OF V(3)] .
  then have h: "heap_ok (working ?t)"
    using I(2) V(1) by (simp add: heap_ok_def)
  have f: "pool_ok (free_pool ?t)"
    using pool_ok_extend [OF I(5) R(2), where ob = ob' and sz' = "pool_sz (free_pool s)"
        and b = "pool_base (free_pool s)" and f = 0]
      R(1) I(1,4) by (simp add: size copied_def pool_ok_def)
  have lin: "l \<in> uncopied s"
    using ob unc by (simp add: uncopied_iff)
  have "asize ?t = asize s"
    by (rule ext) (simp add: asize_def V(1))
  then have "(\<Sum>l\<in>uncopied s. asize s l) = aligned (obj_size ob) + (\<Sum>l\<in>uncopied ?t. asize ?t l)"
    using sum.remove [OF uncopied_finite [OF gc_inv] lin, of "asize s"] ob by (simp add: unc' asize_def)
  then have room: "fidx ?t + (\<Sum>l\<in>uncopied ?t. asize ?t l) \<le> pool_idx (working ?t)"
    using I(6) V(4) size skelD(1) [OF V(3)] by simp
  have bufs: "tosp ?t (unat (fwd ?t k)) = Some (0, norc (HBuf sb))"
    if "from_objs ?t k = Some (HBuf sb)" "fwd ?t k \<noteq> 0" for k sb
  proof (cases "k = l")
    case True
    then show ?thesis
      using that V R(2) ob ob' by simp
  next
    case False
    then have k: "tosp s (unat (fwd s k)) = Some (0, norc (HBuf sb))"
      using that V I(7) by simp
    then have "unat (fwd s k) \<noteq> fidx s"
      using pool_ok_fresh [OF I(5), of "fidx s"] by (auto simp: tosp_def)
    then show ?thesis
      using k V False by simp
  qed
  have "\<exists>k. from_objs ?t k \<noteq> None \<and> fwd ?t k \<noteq> 0 \<and> unat (fwd ?t k) = a"
    if "pool_mem (free_pool ?t) a \<noteq> None" for a
  proof (cases "a = fidx s")
    case True
    have "unat (of_nat (fidx s) :: u32) = fidx s"
      using R(2) by simp
    then show ?thesis
      using True f8 V(1,2) ob by (intro exI [of _ l]) (auto simp: unat_eq_0 [symmetric])
  next
    case False
    then have "pool_mem (free_pool s) a \<noteq> None"
      using that V(6) by simp
    then obtain k where "from_objs s k \<noteq> None" "fwd s k \<noteq> 0" "unat (fwd s k) = a"
      using I(8) by blast
    then show ?thesis
      using V(1,2) unc by (intro exI [of _ k]) auto
  qed
  then show ?thesis
    unfolding gc_inv_def
    using w h f room bufs I(3,4) skelD(1,2,4) [OF V(3)] by auto
qed

lemma scm_copy_mem_copied:
  assumes gc_inv: "gc_inv s" and ob: "from_objs s (GET_OFF v) = Some ob" and unc: "fwd s (GET_OFF v) = 0"
    and sz: "sz = aligned (obj_size ob)"
  shows "scm_copy_mem v (of_nat (fidx s)) sz s
    = Inr (gc_redirect v (of_nat (fidx s)), copied (GET_OFF v) ob s)"
proof -
  obtain c where c: "pool_mem (working s) (GET_OFF v) = Some c" "cell_obj c = ob" "cell_fref c = 0"
    using ob unc by (auto simp: objs_def fwd_def)
  note R = uncopied_room [OF gc_inv ob unc]
  have "fidx s + sz \<le> pool_sz (free_pool s)"
    using R(1) gc_invD(1,4) [OF gc_inv] sz by (simp add: pool_ok_def)
  then show ?thesis
    using c R(2) sz ob by (simp add: scm_copy_mem_def copied_def)
qed

section \<open>One slot written\<close>

definition put_copy :: "nat \<Rightarrow> hobj \<Rightarrow> rt_state \<Rightarrow> rt_state" where
  "put_copy a ob s = s\<lparr>free_pool := (free_pool s)\<lparr>pool_mem :=
     (pool_mem (free_pool s))(a \<mapsto> Cell 0 ob)\<rparr>\<rparr>"

lemma put_copy_views:
  "from_objs (put_copy a ob s) = from_objs s" "fwd (put_copy a ob s) = fwd s"
  "skel (put_copy a ob s) = skel s" "fidx (put_copy a ob s) = fidx s"
  "uncopied (put_copy a ob s) = uncopied s"
  "pool_mem (free_pool (put_copy a ob s)) = (pool_mem (free_pool s))(a \<mapsto> Cell 0 ob)"
  "tosp (put_copy a ob s) = (tosp s)(a \<mapsto> (0, norc ob))"
  by (auto simp: put_copy_def fwd_def skel_def uncopied_def tosp_def)

lemma ext_put_copy: "ext {a} s (put_copy a ob s)"
  by (simp add: ext_def put_copy_views)

definition is_buf :: "hobj \<Rightarrow> bool" where
  "is_buf ob \<longleftrightarrow> (\<exists>sb. ob = HBuf sb)"

lemma is_buf_simps [simp]:
  "is_buf (HBuf sb)" "\<not> is_buf (HPair a d)" "\<not> is_buf (HVector xs)" "\<not> is_buf (HRecord m xs)"
  "\<not> is_buf (HBox v)" "\<not> is_buf (HClosure c f fv)" "\<not> is_buf (HString i j p)"
  "\<not> is_buf (HSymbol h nm)" "\<not> is_buf (HBytevector bs)" "is_buf (put_slots ob xs) = is_buf ob"
  by (auto simp: is_buf_def) (cases ob; auto)+

lemma inv_put_copy:
  assumes gc_inv: "gc_inv s" and a: "pool_mem (free_pool s) a = Some (Cell 0 ob0)"
    and size: "obj_size ob = obj_size ob0"
    and buf: "\<not> is_buf ob0 \<or> norc ob = norc ob0"
  shows "gc_inv (put_copy a ob s)"
proof -
  note I = gc_invD [OF gc_inv] and V = put_copy_views [of a ob s]
  have "pool_ok (free_pool (put_copy a ob s))"
    using pool_ok_assign [OF I(5) a, of ob] size by (simp add: put_copy_def)
  moreover have "working (put_copy a ob s) = working s" "pool_sz (free_pool (put_copy a ob s)) = pool_sz (free_pool s)"
    by (simp_all add: put_copy_def)
  moreover have "asize (put_copy a ob s) = asize s"
    by (rule ext) (simp add: asize_def V)
  moreover have "tosp (put_copy a ob s) (unat (fwd s l)) = Some (0, norc (HBuf sb))"
    if "from_objs s l = Some (HBuf sb)" "fwd s l \<noteq> 0" for l sb
  proof (cases "unat (fwd s l) = a")
    case True
    then have "norc ob0 = norc (HBuf sb)"
      using I(7) [OF that] a by (simp add: tosp_def)
    then have "norc ob = norc (HBuf sb)"
      using buf norc_buf [of ob0 sb] by (auto simp: is_buf_def)
    then show ?thesis
      using True V(7) by simp
  next
    case False
    then show ?thesis
      using I(7) [OF that] V(7) by simp
  qed
  moreover have "\<exists>k. from_objs s k \<noteq> None \<and> fwd s k \<noteq> 0 \<and> unat (fwd s k) = x"
    if "pool_mem (free_pool (put_copy a ob s)) x \<noteq> None" for x
    using I(8) [of x] that V(6) a by (cases "x = a") auto
  ultimately show ?thesis
    using I(1-6) V unfolding gc_inv_def by simp
qed

lemma free_obj_app: "pool_mem (free_pool s) a = Some (Cell f ob) \<Longrightarrow> free_obj a s = Inr (ob, s)"
  by (simp add: free_obj_def)

lemma free_assign_app:
  "pool_mem (free_pool s) a = Some (Cell 0 ob0) \<Longrightarrow> free_assign a ob s = Inr ((), put_copy a ob s)"
  by (simp add: free_assign_def put_copy_def)

text \<open>A run leaves the copies it may not write exactly as they are, buffers apart.\<close>

lemma ext_copy_same:
  assumes "ext X s t" and "pool_mem (free_pool s) a = Some (Cell 0 ob)" and "\<not> is_buf ob"
    and "a < fidx s" and "a \<notin> X"
  shows "pool_mem (free_pool t) a = Some (Cell 0 ob)"
proof -
  have "tosp t a = Some (0, norc ob)"
    using extD(5) [OF assms(1,4,5)] assms(2) by (simp add: tosp_def)
  then obtain c where c: "pool_mem (free_pool t) a = Some c" "cell_fref c = 0" "norc (cell_obj c) = norc ob"
    by (auto simp: tosp_def)
  have "cell_obj c = ob"
    using norc_nonbuf [of ob "cell_obj c"] c(3) assms(3) by (auto simp: is_buf_def)
  then show ?thesis
    using c(1,2) by (cases c) simp
qed

lemma ext_uncopied: "ext X s t \<Longrightarrow> uncopied t \<subseteq> uncopied s"
  by (auto simp: uncopied_iff dest: extD)
    (metis extD(1), metis extD(4))

lemma ext_card: "gc_inv s \<Longrightarrow> ext X s t \<Longrightarrow> card (uncopied t) \<le> card (uncopied s)"
  using uncopied_finite ext_uncopied by (metis card_mono)

section \<open>The walk\<close>

definition collects :: "nat \<Rightarrow> bool" where
  "collects n \<longleftrightarrow> (\<forall>s v. gc_inv s \<longrightarrow> value_ok (from_objs s) v \<longrightarrow> card (uncopied s) < n \<longrightarrow>
     (\<exists>t. scm_collect_value n v s = Inr (reloc (fwd t) v, t) \<and> gc_inv t \<and> ext {} s t \<and> moved t v))"

lemma collectsE:
  assumes "collects n" and "gc_inv s" and "value_ok (from_objs s) v" and "card (uncopied s) < n"
  obtains t where "scm_collect_value n v s = Inr (reloc (fwd t) v, t)" "gc_inv t" "ext {} s t" "moved t v"
  using assms unfolding collects_def by blast

definition filled :: "rt_state \<Rightarrow> hobj \<Rightarrow> scm_value list \<Rightarrow> nat \<Rightarrow> hobj" where
  "filled s ob vs i = put_slots ob (map Some (map (reloc (fwd s)) (take i vs) @ drop i vs))"

lemma collect_slots_ok:
  assumes "collects n" and "slots ob = map Some vs" and "\<not> is_buf ob"
    and "gc_inv s" and "a < fidx s" and "pool_mem (free_pool s) a = Some (Cell 0 (filled s ob vs i))"
    and "\<forall>v\<in>set vs. value_ok (from_objs s) v" and "\<forall>v\<in>set (take i vs). moved s v"
    and "card (uncopied s) < n" and "i + k = length vs"
  shows "\<exists>t. collect_slots n a i k s = Inr ((), t) \<and> gc_inv t \<and> ext {a} s t \<and>
    pool_mem (free_pool t) a = Some (Cell 0 (filled t ob vs (length vs))) \<and> (\<forall>v\<in>set vs. moved t v)"
  using assms(4-)
proof (induction k arbitrary: s i)
  case 0
  then show ?case
    by (auto simp: filled_def intro: ext_refl)
next
  case (Suc k)
  have i: "i < length vs"
    using Suc.prems(7) by simp
  have sl: "slots (filled s ob vs i) = map Some (map (reloc (fwd s)) (take i vs) @ drop i vs)"
    unfolding filled_def using assms(2) i by (intro length_slots_put) auto
  have v: "elem_at (slots (filled s ob vs i)) i s = Inr (vs ! i, s)"
    using i by (simp add: elem_at_def sl nth_append)
  obtain s1 where s1: "scm_collect_value n (vs ! i) s = Inr (reloc (fwd s1) (vs ! i), s1)"
    "gc_inv s1" "ext {} s s1" "moved s1 (vs ! i)"
    using collectsE [OF assms(1) Suc.prems(1), of "vs ! i"] Suc.prems(4,6) i by auto
  have a1: "pool_mem (free_pool s1) a = Some (Cell 0 (filled s ob vs i))"
    using ext_copy_same [OF s1(3) Suc.prems(3)] assms(3) Suc.prems(2) by (simp add: filled_def)
  have fl: "put_slots (filled s ob vs i) ((slots (filled s ob vs i))[i := Some (reloc (fwd s1) (vs ! i))])
      = filled s1 ob vs (Suc i)" (is "?new = _")
  proof -
    have "map (reloc (fwd s)) (take i vs) = map (reloc (fwd s1)) (take i vs)"
    proof (rule map_cong [OF refl])
      fix v assume "v \<in> set (take i vs)"
      then show "reloc (fwd s) v = reloc (fwd s1) v"
        using Suc.prems(5) extD(4) [OF s1(3)] by (intro reloc_mono [symmetric]) auto
    qed
    then have "(slots (filled s ob vs i))[i := Some (reloc (fwd s1) (vs ! i))]
        = map Some (map (reloc (fwd s1)) (take (Suc i) vs) @ drop (Suc i) vs)"
      using i unfolding sl
      by (simp add: list_update_append take_Suc_conv_app_nth Cons_nth_drop_Suc [symmetric]
          min_absorb2 del: map_map)
    then show ?thesis
      using assms(2) i by (simp add: filled_def)
  qed
  let ?s2 = "put_copy a (filled s1 ob vs (Suc i)) s1"
  have as: "free_assign a (filled s1 ob vs (Suc i)) s1 = Inr ((), ?s2)"
    using free_assign_app [OF a1] by simp
  have inv2: "gc_inv ?s2"
    using assms(2,3) i by (intro inv_put_copy [OF s1(2) a1]) (simp_all add: filled_def)
  have e2: "ext {a} s ?s2"
    using ext_put_copy Suc.prems(2) by (intro ext_trans [OF ext_weaken [OF s1(3)]]) auto
  have f2: "filled ?s2 ob vs (Suc i) = filled s1 ob vs (Suc i)"
    by (simp add: filled_def put_copy_views)
  have mv: "\<forall>v\<in>set (take (Suc i) vs). moved ?s2 v"
    using Suc.prems(5) s1(3,4) i moved_ext [OF s1(3)]
    by (auto simp: take_Suc_conv_app_nth moved_def put_copy_views)
  obtain t where t: "collect_slots n a (Suc i) k ?s2 = Inr ((), t)" "gc_inv t" "ext {a} ?s2 t"
    "pool_mem (free_pool t) a = Some (Cell 0 (filled t ob vs (length vs)))" "\<forall>v\<in>set vs. moved t v"
    using Suc.IH [OF inv2, of "Suc i"] mv f2 Suc.prems(2,4,6,7) extD(1,3) [OF e2] ext_card [OF Suc.prems(1) e2]
    by (auto simp: put_copy_views)
  show ?case
    using t v s1(1) free_obj_app [OF Suc.prems(3)] free_obj_app [OF a1] fl as
      ext_trans [OF e2 t(3)] Suc.prems(2) by simp
qed

text \<open>What the two kinds of walk promise for one uncopied value.\<close>

definition walked :: "scm_value rt \<Rightarrow> rt_state \<Rightarrow> scm_value \<Rightarrow> bool" where
  "walked m s v \<longleftrightarrow> (\<exists>t. m s = Inr (reloc (fwd t) v, t) \<and> gc_inv t \<and> ext {} s t \<and> moved t v)"

lemma obj_okD:
  assumes "gc_inv s" and "from_objs s l = Some ob"
  shows "obj_ok (from_objs s) (pool_base (working s)) ob"
  using assms gc_invD(2) unfolding heap_ok_def by blast

lemma obj_ok_slots:
  assumes "obj_ok h b ob"
  obtains vs where "slots ob = map Some vs" "\<forall>v\<in>set vs. value_ok h v"
proof
  have some: "\<exists>v. x = Some v \<and> value_ok h v" if "x \<in> set (slots ob)" for x
    using assms that by (auto simp: obj_ok_def)
  then show "slots ob = map Some (map the (slots ob))"
    by (intro nth_equalityI) (force simp: in_set_conv_nth)+
  show "\<forall>v\<in>set (map the (slots ob)). value_ok h v"
    using some by fastforce
qed

lemma copied_close:
  assumes gc_inv: "gc_inv s" and ob: "from_objs s l = Some ob" and unc: "fwd s l = 0"
    and ext: "ext {fidx s} (copied l ob s) t" and b: "black t l"
  shows "ext {} s t"
proof -
  note V = copied_views [OF ob, of ob] and R = uncopied_room [OF gc_inv ob unc]
  have "8 \<le> fidx s"
    using gc_invD(5) [OF gc_inv] by (simp add: pool_ok_def)
  then show ?thesis
    using V R(2) aligned_bounds(1) [of "obj_size ob"] obj_size_ge [of ob]
    by (intro ext_close [OF unc _ _ _ _ _ _ _ ext b]) auto
qed

lemma reloc_forwarded:
  "\<not> gc_immediate v \<Longrightarrow> fwd t (GET_OFF v) = f \<Longrightarrow> reloc (fwd t) v = gc_redirect v f"
  by (simp add: reloc_def)

lemma walk_slots:
  assumes cn: "collects n" and gc_inv: "gc_inv s" and imm: "\<not> gc_immediate v"
    and ob: "from_objs s (GET_OFF v) = Some ob" and unc: "fwd s (GET_OFF v) = 0"
    and kind: "\<not> is_buf ob" "\<forall>i j p. ob \<noteq> HString i j p"
    and card: "card (uncopied s) < Suc n" and sz: "sz = aligned (obj_size ob)"
    and k: "k = length (slots ob)"
  shows "walked (bnd (scm_copy_mem v (of_nat (fidx s)) sz)
    (\<lambda>v'. bnd (collect_slots n (fidx s) 0 k) (\<lambda>_. ret v'))) s v"
proof -
  let ?l = "GET_OFF v" and ?a = "fidx s"
  let ?s1 = "copied ?l ob s"
  note V = copied_views [OF ob, of ob] and R = uncopied_room [OF gc_inv ob unc]
  have a8: "8 \<le> ?a"
    using gc_invD(5) [OF gc_inv] by (simp add: pool_ok_def)
  have nz: "(of_nat ?a :: u32) \<noteq> 0" and un: "unat (of_nat ?a :: u32) = ?a"
    using a8 R(2) by (simp_all add: unat_eq_0 [symmetric])
  obtain vs where vs: "slots ob = map Some vs" "\<forall>v\<in>set vs. value_ok (from_objs s) v"
    using obj_ok_slots [OF obj_okD [OF gc_inv ob]] .
  have "uncopied ?s1 = uncopied s - {?l}"
    using copied_uncopied [OF ob _ R(2)] a8 by simp
  then have card1: "card (uncopied ?s1) < n"
    using card ob unc uncopied_finite [OF gc_inv]
    by (metis Suc_le_eq card_Diff1_less less_Suc_eq_le less_le_trans option.distinct(1) uncopied_iff)
  have f1: "pool_mem (free_pool ?s1) ?a = Some (Cell 0 (filled ?s1 ob vs 0))"
    using V(6) vs(1) put_slots_id [of ob] by (simp add: filled_def)
  have a1: "?a < fidx ?s1"
    using V(4) aligned_bounds(1) [of "obj_size ob"] obj_size_ge [of ob] by linarith
  obtain t where t: "collect_slots n ?a 0 k ?s1 = Inr ((), t)" "gc_inv t" "ext {?a} ?s1 t"
    and ft: "pool_mem (free_pool t) ?a = Some (Cell 0 (filled t ob vs (length vs)))"
    and mv: "\<forall>v\<in>set vs. moved t v"
    using collect_slots_ok [OF cn vs(1) kind(1) inv_copied [OF gc_inv ob unc refl] a1 f1 _ _ card1, of k]
      vs(2) V(1) k vs(1) by auto
  have fl: "fwd t ?l = of_nat ?a"
    using extD(4) [OF t(3), of ?l] V(2) nz by simp
  have "black t ?l"
    unfolding black_def
  proof (intro allI impI)
    fix ob' assume "from_objs t ?l = Some ob'"
    then have "ob' = ob"
      using extD(1) [OF t(3)] V(1) ob by simp
    moreover have "settled (fwd t) ob"
      using mv vs(1) kind(2) by (auto simp: settled_def moved_def)
    moreover have "filled t ob vs (length vs) = reloc_obj (fwd t) (pool_base (free_pool t)) ob"
      using vs(1) kind(2) by (cases ob) (auto simp: filled_def comp_def)
    ultimately show "settled (fwd t) ob' \<and> tosp t (unat (fwd t ?l)) =
        Some (0, norc (reloc_obj (fwd t) (pool_base (free_pool t)) ob'))"
      using ft fl un by (simp add: tosp_def)
  qed
  then have "ext {} s t"
    using copied_close [OF gc_inv ob unc t(3)] by simp
  moreover have "moved t v"
    using fl nz by (simp add: moved_def)
  ultimately show ?thesis
    unfolding walked_def using scm_copy_mem_copied [OF gc_inv ob unc sz] t(1,2) imm fl
    by (auto simp: reloc_def)
qed

lemma bnd_ret: "bnd m (\<lambda>x. bnd (ret u) (\<lambda>_. ret x)) = m"
  by (rule ext) (simp add: bnd_def split: sum.splits)

section \<open>Strings\<close>

lemma ext_put_same:
  "pool_mem (free_pool s) a = Some (Cell 0 ob0) \<Longrightarrow> norc ob = norc ob0 \<Longrightarrow> ext {} s (put_copy a ob s)"
  by (auto simp: ext_def put_copy_views tosp_def)

lemma ext_copied_leaf:
  assumes gc_inv: "gc_inv s" and ob: "from_objs s l = Some ob" and unc: "fwd s l = 0"
    and ob': "norc ob' = norc ob" and leaf: "is_buf ob"
  shows "ext {} s (copied l ob' s)"
proof -
  let ?t = "copied l ob' s"
  note V = copied_views [OF ob, of ob'] and R = uncopied_room [OF gc_inv ob unc]
  have "8 \<le> fidx s"
    using gc_invD(5) [OF gc_inv] by (simp add: pool_ok_def)
  moreover have "black ?t l"
    using V ob R(2) ob' leaf by (auto simp: black_def settled_def is_buf_def)
  ultimately show ?thesis
    using V R(2) aligned_bounds(1) [of "obj_size ob'"] obj_size_ge [of ob']
    by (intro ext_close [OF unc _ _ _ _ _ _ _ ext_refl]) auto
qed

lemma fref_of_fwd: "from_objs s l = Some ob \<Longrightarrow> fref_of l s = Inr (fwd s l, s)"
  by (auto simp: fref_of_def fwd_def objs_def)

lemma collect_buf_ok:
  assumes gc_inv: "gc_inv s" and a: "pool_mem (free_pool s) a = Some (Cell 0 (HString off len (b, q)))"
    and al: "a < fidx s" and b: "b = pool_base (working s)"
    and q: "from_objs s q = Some (HBuf sb)" and fr: "f = of_nat (fidx s)"
  shows "\<exists>t. collect_buf a f s = Inr ((), t) \<and> gc_inv t \<and> ext {a} s t \<and> fwd t q \<noteq> 0 \<and>
    pool_mem (free_pool t) a
      = Some (Cell 0 (HString off len (pool_base (free_pool s), unat (fwd t q))))"
proof (cases "fwd s q = 0")
  case False
  let ?fb = "pool_base (free_pool s)" and ?g = "fwd s q"
  let ?s1 = "put_copy a (HString off len (?fb, unat ?g)) s"
  note V1 = put_copy_views [of a "HString off len (?fb, unat ?g)" s]
  have inv1: "gc_inv ?s1"
    by (rule inv_put_copy [OF gc_inv a]) simp_all
  have "tosp ?s1 (unat ?g) = Some (0, norc (HBuf sb))"
    using gc_invD(7) [OF inv1, of q sb] q False V1 by simp
  then obtain c where c: "pool_mem (free_pool ?s1) (unat ?g) = Some c" "cell_fref c = 0"
    "norc (cell_obj c) = norc (HBuf sb)"
    by (auto simp: tosp_def)
  then obtain sb' where sb': "cell_obj c = HBuf sb'"
    using norc_buf by blast
  have cell: "pool_mem (free_pool ?s1) (unat ?g) = Some (Cell 0 (HBuf sb'))"
    using c(1,2) sb' by (cases c) simp
  let ?nb = "HBuf (sb'\<lparr>sb_rc := i8_wrap (sb_rc sb' + 1)\<rparr>)"
  let ?t = "put_copy (unat ?g) ?nb ?s1"
  have inv2: "gc_inv ?t"
    by (rule inv_put_copy [OF inv1 cell]) simp_all
  have e: "ext {a} s ?t"
  proof (rule ext_trans [OF ext_put_copy])
    show "ext {a} ?s1 ?t"
      by (rule ext_weaken [OF ext_put_same [OF cell]]) simp_all
    show "x < fidx s" if "x \<in> {a}" for x
      using that al by simp
  qed
  have ne: "unat ?g \<noteq> a"
    using cell V1(6) by auto
  have run: "collect_buf a f s = Inr ((), ?t)"
  proof -
    have "share_buf a off len ?fb ?g s = Inr ((), ?t)"
      by (simp add: share_buf_def free_assign_app [OF a] free_obj_app [OF cell] free_assign_app [OF cell])
    then show ?thesis
      using False b by (simp add: collect_buf_def free_obj_app [OF a] same_base_def fref_of_fwd [OF q])
  qed
  show ?thesis
    using run inv2 e False ne by (intro exI [of _ ?t]) (simp add: put_copy_views)
next
  case True
  let ?fb = "pool_base (free_pool s)"
  let ?n = "unat (sb_len sb) * char_width (sb_wc sb)"
  let ?nb = "HBuf (sb\<lparr>sb_rc := 1, sb_bytes := take ?n (sb_bytes sb)\<rparr>)"
  let ?s1 = "copied q ?nb s"
  have sb: "unat (sb_len sb) = length (sb_bytes sb)" "\<not> sb_wc sb"
    using obj_okD [OF gc_inv q] by (simp_all add: obj_ok_def)
  then have n: "?n = length (sb_bytes sb)"
    by (simp add: char_width_def)
  then have nb: "norc ?nb = norc (HBuf sb)"
    by simp
  note V1 = copied_views [OF q, of ?nb] and R = uncopied_room [OF gc_inv q True]
  note I = gc_invD [OF gc_inv]
  have size: "12 + ?n \<le> aligned (obj_size (HBuf sb))"
    using aligned_bounds(1) [of "obj_size (HBuf sb)"] n by simp
  have un: "unat f = fidx s"
    using fr R(2) by simp
  have bounds: "q + 12 + ?n \<le> pool_sz (working s)" "fidx s + 12 + ?n \<le> pool_sz (free_pool s)"
    using R(1,3) size I(1,4) by (simp_all add: pool_ok_def)
  obtain c where c: "pool_mem (working s) q = Some c" "cell_obj c = HBuf sb" "cell_fref c = 0"
    using q True by (auto simp: objs_def fwd_def)
  have inv1: "gc_inv ?s1"
    by (rule inv_copied [OF gc_inv q True nb])
  have e1: "ext {} s ?s1"
    using ext_copied_leaf [OF gc_inv q True nb] by simp
  let ?ns = "HString off len (?fb, fidx s)"
  have a1: "pool_mem (free_pool ?s1) a = Some (Cell 0 (HString off len (b, q)))"
    using a al V1(6) by simp
  let ?t = "put_copy a ?ns ?s1"
  have inv2: "gc_inv ?t"
    by (rule inv_put_copy [OF inv1 a1]) simp_all
  have e: "ext {a} s ?t"
  proof (rule ext_trans [OF _ ext_put_copy])
    show "ext {a} s ?s1"
      by (rule ext_weaken [OF e1]) simp
    show "x < fidx s" if "x \<in> {a}" for x
      using that al by simp
  qed
  have fq: "fwd ?t q = f"
    using V1(2) fr by (simp add: put_copy_views)
  have "8 \<le> fidx s"
    using I(5) by (simp add: pool_ok_def)
  then have nz: "f \<noteq> 0"
    using un by (auto simp: unat_eq_0 [symmetric])
  have st: "s\<lparr>working := (working s)\<lparr>pool_mem := (pool_mem (working s))(q \<mapsto> Cell f (HBuf sb))\<rparr>,
      free_pool := (free_pool s)\<lparr>pool_mem := (pool_mem (free_pool s))(unat f \<mapsto> Cell 0 ?nb),
        pool_idx := fidx s + aligned (12 + unat (sb_len sb))\<rparr>\<rparr> = ?s1"
    using fr un q n sb by (simp add: copied_def char_width_def)
  have run: "collect_buf a f s = free_assign a (HString off len (?fb, unat f)) ?s1"
  proof -
    have "deref_buf q s = Inr (sb, s)"
      using c by (simp add: deref_buf_def deref_def)
    then have "copy_buf a off len ?fb q f s = free_assign a (HString off len (?fb, unat f)) ?s1"
      unfolding copy_buf_def Let_def using bounds un by (simp add: st [unfolded un])
    then show ?thesis
      using True b by (simp add: collect_buf_def free_obj_app [OF a] same_base_def fref_of_fwd [OF q])
  qed
  show ?thesis
    using run inv2 e nz fq un free_assign_app [OF a1] by (intro exI [of _ ?t]) (simp add: put_copy_views)
qed

lemma walk_string:
  assumes gc_inv: "gc_inv s" and imm: "\<not> gc_immediate v"
    and ob: "from_objs s (GET_OFF v) = Some (HString off len p)" and unc: "fwd s (GET_OFF v) = 0"
  shows "walked (bnd (scm_copy_mem v (of_nat (fidx s)) (aligned 24))
    (\<lambda>v'. bnd (collect_buf (fidx s) (of_nat (fidx s) + of_nat (aligned 24))) (\<lambda>_. ret v'))) s v"
proof -
  let ?l = "GET_OFF v" and ?a = "fidx s" and ?ob = "HString off len p"
  let ?s1 = "copied ?l ?ob s"
  note V = copied_views [OF ob, of ?ob] and R = uncopied_room [OF gc_inv ob unc]
  have a8: "8 \<le> ?a"
    using gc_invD(5) [OF gc_inv] by (simp add: pool_ok_def)
  have nz: "(of_nat ?a :: u32) \<noteq> 0" and un: "unat (of_nat ?a :: u32) = ?a"
    using a8 R(2) by (simp_all add: unat_eq_0 [symmetric])
  obtain sb where p: "fst p = pool_base (working s)" "from_objs s (snd p) = Some (HBuf sb)"
    using obj_okD [OF gc_inv ob] by (auto simp: obj_ok_def)
  have inv1: "gc_inv ?s1"
    by (rule inv_copied [OF gc_inv ob unc refl])
  have a1: "?a < fidx ?s1"
    using V(4) aligned_bounds(1) [of "obj_size ?ob"] by simp
  have copy1: "pool_mem (free_pool ?s1) ?a = Some (Cell 0 (HString off len (pool_base (working ?s1), snd p)))"
    using V(6) p(1) skelD(3) [OF V(3)] by (metis fun_upd_same prod.collapse)
  have f: "of_nat ?a + of_nat (aligned 24) = (of_nat (fidx ?s1) :: u32)"
    using V(4) by simp
  obtain t where t: "collect_buf ?a (of_nat ?a + of_nat (aligned 24)) ?s1 = Inr ((), t)" "gc_inv t"
    "ext {?a} ?s1 t" "fwd t (snd p) \<noteq> 0"
    and ft: "pool_mem (free_pool t) ?a
      = Some (Cell 0 (HString off len (pool_base (free_pool ?s1), unat (fwd t (snd p)))))"
    using collect_buf_ok [OF inv1 copy1 a1 refl, of sb] p(2) V(1) f by auto
  have fl: "fwd t ?l = of_nat ?a"
    using extD(4) [OF t(3), of ?l] V(2) nz by simp
  have "black t ?l"
    using ft fl un t(4) ob extD(1) [OF t(3)] V(1) skelD(5) [OF extD(2) [OF t(3)]]
    by (auto simp: black_def settled_def tosp_def)
  then have "ext {} s t"
    using copied_close [OF gc_inv ob unc t(3)] by simp
  moreover have "moved t v"
    using fl nz by (simp add: moved_def)
  moreover have "scm_copy_mem v (of_nat ?a) (aligned 24) s = Inr (gc_redirect v (of_nat ?a), ?s1)"
    using scm_copy_mem_copied [OF gc_inv ob unc, of "aligned 24"] by simp
  ultimately show ?thesis
    unfolding walked_def using t(1,2) imm fl by (auto simp: reloc_def)
qed

section \<open>One value\<close>

lemma obj_size_aligned:
  "aligned (24::nat) = 24" "aligned (16::nat) = 16" "aligned (8 + 8 * n) = 8 + 8 * n"
  "aligned (16 + 8 * n) = 16 + 8 * n" "aligned (24 + 8 * n) = 24 + 8 * n"
proof -
  have "8 dvd 8 + 8 * n" "8 dvd 16 + 8 * n" "8 dvd 24 + 8 * n"
    by presburger+
  then show "aligned (24::nat) = 24" "aligned (16::nat) = 16" "aligned (8 + 8 * n) = 8 + 8 * n"
    "aligned (16 + 8 * n) = 16 + 8 * n" "aligned (24 + 8 * n) = 24 + 8 * n"
    by simp_all
qed

lemma collect_slots_0: "collect_slots n a i 0 = ret ()"
  by simp

lemma deref_objs: "from_objs s l = Some ob \<Longrightarrow> deref l s = Inr (ob, s)"
  by (auto simp: objs_def deref_def)

lemma collect_uncopied:
  assumes cn: "collects n" and inv: "gc_inv s" and imm: "\<not> gc_immediate v"
    and ob: "from_objs s (GET_OFF v) = Some ob" and tag: "obj_tag ob = Some (gc_tag v)"
    and unc: "fwd s (GET_OFF v) = 0" and card: "card (uncopied s) < Suc n"
  shows "walked (scm_collect_value (Suc n) v) s v"
proof -
  have un: "unat (of_nat (fidx s) :: u32) = fidx s"
    using uncopied_room(2) [OF inv ob unc] by simp
  have tag': "gc_tag v = the (obj_tag ob)"
    using tag by simp
  let ?walk = "\<lambda>sz k. bnd (scm_copy_mem v (of_nat (fidx s)) sz)
    (\<lambda>v'. bnd (collect_slots n (fidx s) 0 k) (\<lambda>_. ret v'))"
  have by_slots: ?thesis
    if "scm_collect_value (Suc n) v s = ?walk sz k s" "sz = aligned (obj_size ob)"
      "k = length (slots ob)" "\<not> is_buf ob" "\<forall>i j p. ob \<noteq> HString i j p" for sz k
    using walk_slots [OF cn inv imm ob unc that(4,5) card that(2,3)] that(1) by (simp add: walked_def)
  have step: "scm_collect_value (Suc n) v s =
      (case ob of
         HPair a d \<Rightarrow> ?walk 24 2 s
       | HSymbol h nm \<Rightarrow> ?walk (aligned (16 + length nm)) 0 s
       | HBytevector bs \<Rightarrow> ?walk (aligned (8 + length bs)) 0 s
       | HString off len p \<Rightarrow> bnd (scm_copy_mem v (of_nat (fidx s)) (aligned 24))
           (\<lambda>v'. bnd (collect_buf (fidx s) (of_nat (fidx s) + of_nat (aligned 24))) (\<lambda>_. ret v')) s
       | HVector xs \<Rightarrow> ?walk (8 + 8 * length xs) (length xs) s
       | HRecord m xs \<Rightarrow> ?walk (16 + 8 * length xs) (1 + length xs) s
       | HBox x \<Rightarrow> ?walk 16 1 s
       | HClosure c fn fv \<Rightarrow> ?walk (24 + 8 * length fv) (length fv) s
       | HBuf sb \<Rightarrow> scm_collect_value (Suc n) v s)"
    using fref_of_fwd [OF ob] unc imm deref_objs [OF ob] un tag' tag
    by (cases ob) (simp_all del: collect_slots.simps aligned_id add: collect_slots_0 bnd_ret
        deref_pair_def deref_symbol_def deref_string_def deref_bytevector_def deref_vector_def
        deref_record_def deref_box_def deref_closure_def)
  show ?thesis
  proof (cases ob)
    case (HPair a d)
    then show ?thesis using step by (intro by_slots [of 24 2]) simp_all
  next
    case (HSymbol h nm)
    then show ?thesis
      using step by (intro by_slots [of "aligned (16 + length nm)" 0]) simp_all
  next
    case (HString off len p)
    then show ?thesis
      using walk_string [OF inv imm _ unc] ob step by (simp add: walked_def)
  next
    case (HBytevector bs)
    then show ?thesis
      using step by (intro by_slots [of "aligned (8 + length bs)" 0]) simp_all
  next
    case (HVector xs)
    then show ?thesis
      using step by (intro by_slots [of "8 + 8 * length xs" "length xs"]) (simp_all add: obj_size_aligned)
  next
    case (HRecord m xs)
    then show ?thesis
      using step by (intro by_slots [of "16 + 8 * length xs" "1 + length xs"])
        (simp_all add: obj_size_aligned)
  next
    case (HBox x)
    then show ?thesis using step by (intro by_slots [of 16 1]) (simp_all add: obj_size_aligned)
  next
    case (HClosure c fn fv)
    then show ?thesis
      using step by (intro by_slots [of "24 + 8 * length fv" "length fv"]) (simp_all add: obj_size_aligned)
  next
    case (HBuf sb)
    then show ?thesis using tag by simp
  qed
qed

theorem collects_all: "collects n"
proof (induction n)
  case (Suc n)
  show ?case
    unfolding collects_def
  proof (intro allI impI)
    fix s v assume s: "gc_inv s" "value_ok (from_objs s) v" "card (uncopied s) < Suc n"
    have "walked (scm_collect_value (Suc n) v) s v"
    proof (cases "gc_immediate v")
      case True
      then show ?thesis
        using s(1) by (simp add: walked_def reloc_def ext_refl moved_def)
    next
      case False
      then obtain ob where ob: "from_objs s (GET_OFF v) = Some ob" "obj_tag ob = Some (gc_tag v)"
        using s(2) by (auto simp: value_ok_def)
      show ?thesis
      proof (cases "fwd s (GET_OFF v) = 0")
        case True
        then show ?thesis
          using collect_uncopied [OF Suc.IH s(1) False ob] s(3) by simp
      next
        case fw: False
        then show ?thesis
          using False s(1) fref_of_fwd [OF ob(1)]
          by (auto simp: walked_def reloc_def moved_def intro!: exI [of _ s] ext_refl)
      qed
    qed
    then show "\<exists>t. scm_collect_value (Suc n) v s = Inr (reloc (fwd t) v, t) \<and> gc_inv t \<and> ext {} s t \<and> moved t v"
      by (simp add: walked_def)
  qed
qed (simp add: collects_def)

section \<open>The start of a collection\<close>

text \<open>
  The objects of a well-formed pool lie apart below its index, so together they take no more
  room than it says.
\<close>

lemma pool_ok_apart:
  "pool_ok p \<Longrightarrow> pool_mem p l = Some c \<Longrightarrow> pool_mem p l' = Some c' \<Longrightarrow> l < l' \<Longrightarrow>
     l + aligned (obj_size (cell_obj c)) \<le> l'"
  unfolding pool_ok_def by blast

lemma pool_extents:
  assumes ok: "pool_ok p" and K: "K \<subseteq> dom (pool_mem p)"
  shows "8 + (\<Sum>l\<in>K. aligned (obj_size (cell_obj (the (pool_mem p l))))) \<le> pool_idx p"
proof -
  let ?sz = "\<lambda>l. aligned (obj_size (cell_obj (the (pool_mem p l))))"
  have obj: "8 \<le> l \<and> l + ?sz l \<le> pool_idx p" if "l \<in> K" for l
  proof -
    obtain c where "pool_mem p l = Some c"
      using \<open>l \<in> K\<close> K by blast
    then show ?thesis
      using pool_ok_objD(1,4) [OF ok, of l c] by simp
  qed
  have "dom (pool_mem p) \<subseteq> {..< pool_idx p}"
  proof
    fix l assume "l \<in> dom (pool_mem p)"
    then obtain c where "pool_mem p l = Some c"
      by blast
    then show "l \<in> {..< pool_idx p}"
      using pool_ok_below [OF ok] by simp
  qed
  then have fin: "finite K"
    using finite_subset [OF subset_trans [OF K]] by simp
  have "l + ?sz l \<le> l'" if "l \<in> K" "l' \<in> K" "l < l'" for l l'
  proof -
    obtain c c' where "pool_mem p l = Some c" "pool_mem p l' = Some c'"
      using \<open>l \<in> K\<close> \<open>l' \<in> K\<close> K by blast
    then show ?thesis
      using pool_ok_apart [OF ok] \<open>l < l'\<close> by simp
  qed
  then have "{l..<l + ?sz l} \<inter> {l'..<l' + ?sz l'} = {}" if "l \<in> K" "l' \<in> K" "l \<noteq> l'" for l l'
    using that by (cases "l < l'") force+
  then have "card (\<Union>l\<in>K. {l..<l + ?sz l}) = (\<Sum>l\<in>K. card {l..<l + ?sz l})"
    using fin by (intro card_UN_disjoint) auto
  moreover have "(\<Union>l\<in>K. {l..<l + ?sz l}) \<subseteq> {8..<pool_idx p}"
    using obj by fastforce
  then have "card (\<Union>l\<in>K. {l..<l + ?sz l}) \<le> card {8..<pool_idx p}"
    by (intro card_mono) simp_all
  moreover have "8 \<le> pool_idx p"
    using ok by (simp add: pool_ok_def)
  ultimately show ?thesis
    by simp
qed

definition unmarked :: "mem_pool \<Rightarrow> bool" where
  "unmarked p \<longleftrightarrow> (\<forall>l c. pool_mem p l = Some c \<longrightarrow> cell_fref c = 0)"

definition table_ok :: "heap_view \<Rightarrow> scm_value list \<Rightarrow> bool" where
  "table_ok h tbl \<longleftrightarrow> tbl \<noteq> [] \<and> unat (hd tbl) = length (tl tbl) \<and> (\<forall>v\<in>set (tl tbl). value_ok h v)"

text \<open>A heap between two collections, with the roots the collector starts from.\<close>

definition gc_ready :: "rt_state \<Rightarrow> scm_value \<Rightarrow> bool" where
  "gc_ready s cc \<longleftrightarrow> pool_ok (working s) \<and> heap_ok (working s) \<and> unmarked (working s) \<and>
     pool_idx (working s) \<le> 2 ^ 32 \<and> value_ok (from_objs s) cc \<and>
     (\<forall>v\<in>set (arg_stk s). value_ok (from_objs s) v) \<and>
     (\<forall>tbl\<in>set (intern_tbl s). table_ok (from_objs s) tbl)"

definition gc_start :: "rt_state \<Rightarrow> rt_state" where
  "gc_start s = s\<lparr>free_pool := \<lparr>pool_sz = pool_sz (working s), pool_idx = 8,
     pool_base = next_base s, pool_mem = \<lambda>_. None\<rparr>, next_base := next_base s + 1\<rparr>"

lemma fwd_start: "unmarked (working s) \<Longrightarrow> fwd (gc_start s) l = 0"
  by (auto simp: fwd_def gc_start_def unmarked_def split: option.splits)

lemma gc_inv_start:
  assumes "gc_ready s cc"
  shows "gc_inv (gc_start s)"
proof -
  have ok: "pool_ok (working s)" "unmarked (working s)"
    using assms by (simp_all add: gc_ready_def)
  have d: "uncopied (gc_start s) = dom (pool_mem (working s))"
    using ok(2) by (auto simp: uncopied_def gc_start_def unmarked_def) (metis hcell.collapse)
  have "asize (gc_start s) l = aligned (obj_size (cell_obj (the (pool_mem (working s) l))))"
    if "l \<in> dom (pool_mem (working s))" for l
    using that by (auto simp: asize_def gc_start_def objs_def)
  then have "(\<Sum>l\<in>uncopied (gc_start s). asize (gc_start s) l)
      = (\<Sum>l\<in>dom (pool_mem (working s)). aligned (obj_size (cell_obj (the (pool_mem (working s) l)))))"
    unfolding d by (intro sum.cong) auto
  then have room: "8 + (\<Sum>l\<in>uncopied (gc_start s). asize (gc_start s) l) \<le> pool_idx (working s)"
    using pool_extents [OF ok(1) subset_refl] by simp
  have "pool_ok (free_pool (gc_start s))"
    using ok(1) by (auto simp: pool_ok_def gc_start_def)
  then show ?thesis
    using assms room fwd_start [OF ok(2)]
    by (auto simp: gc_inv_def gc_ready_def gc_start_def)
qed

section \<open>The roots\<close>

lemma collect_list:
  assumes "gc_inv s" and "\<forall>v\<in>set vs. value_ok (from_objs s) v" and "card (uncopied s) < n"
  shows "\<exists>t. mmap (scm_collect_value n) vs s = Inr (map (reloc (fwd t)) vs, t) \<and> gc_inv t \<and>
    ext {} s t \<and> (\<forall>v\<in>set vs. moved t v)"
  using assms
proof (induction vs arbitrary: s)
  case Nil
  then show ?case by (auto intro: ext_refl)
next
  case (Cons v vs)
  obtain s1 where s1: "scm_collect_value n v s = Inr (reloc (fwd s1) v, s1)" "gc_inv s1"
    "ext {} s s1" "moved s1 v"
    using collectsE [OF collects_all Cons.prems(1), of v] Cons.prems(2,3) by auto
  obtain t where t: "mmap (scm_collect_value n) vs s1 = Inr (map (reloc (fwd t)) vs, t)" "gc_inv t"
    "ext {} s1 t" "\<forall>v\<in>set vs. moved t v"
    using Cons.IH [OF s1(2)] Cons.prems extD(1) [OF s1(3)] ext_card [OF Cons.prems(1) s1(3)] by auto
  have "reloc (fwd t) v = reloc (fwd s1) v"
    using s1(4) extD(4) [OF t(3)] by (rule reloc_mono)
  moreover have "ext {} s t"
    using ext_trans [OF s1(3) t(3)] by simp
  ultimately show ?case
    using s1(1) t moved_ext [OF t(3) s1(4)] by simp
qed

definition reloc_table :: "(nat \<Rightarrow> u32) \<Rightarrow> scm_value list \<Rightarrow> scm_value list" where
  "reloc_table \<phi> tbl = hd tbl # map (reloc \<phi>) (tl tbl)"

lemma collect_table_ok:
  assumes "gc_inv s" and "table_ok (from_objs s) tbl" and "card (uncopied s) < n"
  shows "\<exists>t. collect_table n tbl s = Inr (reloc_table (fwd t) tbl, t) \<and> gc_inv t \<and> ext {} s t \<and>
    (\<forall>v\<in>set (tl tbl). moved t v)"
proof -
  have tbl: "tbl \<noteq> []" "unat (hd tbl) = length (tl tbl)" "\<forall>v\<in>set (tl tbl). value_ok (from_objs s) v"
    using assms(2) by (auto simp: table_ok_def)
  have "length (tl tbl) < length tbl"
    using tbl(1) by simp
  then show ?thesis
    using collect_list [OF assms(1) tbl(3) assms(3)] tbl(1,2)
    by (auto simp: collect_table_def reloc_table_def)
qed

lemma collect_tables:
  assumes "gc_inv s" and "\<forall>tbl\<in>set tbls. table_ok (from_objs s) tbl" and "card (uncopied s) < n"
  shows "\<exists>t. mmap (collect_table n) tbls s = Inr (map (reloc_table (fwd t)) tbls, t) \<and> gc_inv t \<and>
    ext {} s t \<and> (\<forall>tbl\<in>set tbls. \<forall>v\<in>set (tl tbl). moved t v)"
  using assms
proof (induction tbls arbitrary: s)
  case Nil
  then show ?case by (auto intro: ext_refl)
next
  case (Cons tbl tbls)
  obtain s1 where s1: "collect_table n tbl s = Inr (reloc_table (fwd s1) tbl, s1)" "gc_inv s1"
    "ext {} s s1" "\<forall>v\<in>set (tl tbl). moved s1 v"
    using collect_table_ok [OF Cons.prems(1) _ Cons.prems(3), of tbl] Cons.prems(2) by auto
  obtain t where t: "mmap (collect_table n) tbls s1 = Inr (map (reloc_table (fwd t)) tbls, t)"
    "gc_inv t" "ext {} s1 t" "\<forall>tbl\<in>set tbls. \<forall>v\<in>set (tl tbl). moved t v"
    using Cons.IH [OF s1(2)] Cons.prems extD(1) [OF s1(3)] ext_card [OF Cons.prems(1) s1(3)] by auto
  have "reloc_table (fwd t) tbl = reloc_table (fwd s1) tbl"
    using s1(4) reloc_mono [OF _ extD(4) [OF t(3)]] by (auto simp: reloc_table_def)
  moreover have "ext {} s t"
    using ext_trans [OF s1(3) t(3)] by simp
  ultimately show ?case
    using s1(1,4) t moved_ext [OF t(3)] by simp
qed

text \<open>The walk neither reads nor writes the roots, so they may change between two walks.\<close>

definition sans_roots :: "rt_state \<Rightarrow> rt_state" where
  "sans_roots s = s\<lparr>arg_stk := [], intern_tbl := []\<rparr>"

lemma roots_views:
  "from_objs (s\<lparr>arg_stk := a\<rparr>) = from_objs s" "from_objs (s\<lparr>intern_tbl := i\<rparr>) = from_objs s"
  "fwd (s\<lparr>arg_stk := a\<rparr>) = fwd s" "fwd (s\<lparr>intern_tbl := i\<rparr>) = fwd s"
  "tosp (s\<lparr>arg_stk := a\<rparr>) = tosp s" "tosp (s\<lparr>intern_tbl := i\<rparr>) = tosp s"
  "uncopied (s\<lparr>arg_stk := a\<rparr>) = uncopied s" "uncopied (s\<lparr>intern_tbl := i\<rparr>) = uncopied s"
  "asize (s\<lparr>arg_stk := a\<rparr>) = asize s" "asize (s\<lparr>intern_tbl := i\<rparr>) = asize s"
  by (auto simp: fwd_def tosp_def uncopied_def asize_def fun_eq_iff)

lemma sans_roots_views:
  "from_objs (sans_roots s) = from_objs s" "fwd (sans_roots s) = fwd s"
  "tosp (sans_roots s) = tosp s" "free_pool (sans_roots s) = free_pool s"
  "sans_roots (s\<lparr>arg_stk := a\<rparr>) = sans_roots s" "sans_roots (s\<lparr>intern_tbl := i\<rparr>) = sans_roots s"
  by (auto simp: sans_roots_def roots_views)

lemma black_sans: "black (sans_roots s) l = black s l"
  by (simp add: black_def sans_roots_views)

lemma ext_sans: "ext X s t \<Longrightarrow> ext X (sans_roots s) (sans_roots t)"
proof -
  assume e: "ext X s t"
  have "skel (sans_roots x) = sans_roots (skel x)" for x
    by (simp add: skel_def sans_roots_def)
  then have "skel (sans_roots t) = skel (sans_roots s)"
    using extD(2) [OF e] by simp
  then show ?thesis
    using e unfolding ext_def black_sans sans_roots_views by simp
qed

lemma gc_inv_roots: "gc_inv (s\<lparr>arg_stk := a\<rparr>) = gc_inv s" "gc_inv (s\<lparr>intern_tbl := i\<rparr>) = gc_inv s"
  unfolding gc_inv_def by (simp_all add: roots_views)

section \<open>The heap after a collection\<close>

text \<open>
  \<open>\<phi>\<close> is a bijection between some objects of \<open>p\<close> and all objects of \<open>q\<close>; each object of \<open>q\<close> is
  the one it comes from with its references followed, all of which \<open>\<phi>\<close> has moved.
\<close>

definition heap_image :: "(nat \<Rightarrow> u32) \<Rightarrow> mem_pool \<Rightarrow> mem_pool \<Rightarrow> bool" where
  "heap_image \<phi> p q \<longleftrightarrow>
     (\<forall>l l'. \<phi> l \<noteq> 0 \<longrightarrow> \<phi> l = \<phi> l' \<longrightarrow> l = l') \<and>
     (\<forall>l. \<phi> l \<noteq> 0 \<longrightarrow> (\<exists>ob ob'. objs p l = Some ob \<and> objs q (unat (\<phi> l)) = Some ob' \<and>
        settled \<phi> ob \<and> norc ob' = norc (reloc_obj \<phi> (pool_base q) ob))) \<and>
     (\<forall>a. objs q a \<noteq> None \<longrightarrow> (\<exists>l. \<phi> l \<noteq> 0 \<and> unat (\<phi> l) = a))"

definition root_moved :: "(nat \<Rightarrow> u32) \<Rightarrow> scm_value \<Rightarrow> bool" where
  "root_moved \<phi> v \<longleftrightarrow> gc_immediate v \<or> \<phi> (GET_OFF v) \<noteq> 0"

lemma obj_tag_norc: "obj_tag (norc ob) = obj_tag ob"
  by (cases ob) simp_all

lemma slots_norc: "slots (norc ob) = slots ob"
  by (cases ob) simp_all

lemma obj_tag_reloc: "obj_tag (reloc_obj \<phi> b ob) = obj_tag ob"
  by (cases ob) simp_all

lemma slots_reloc:
  "None \<notin> set (slots ob) \<Longrightarrow> slots (reloc_obj \<phi> b ob) = map (map_option (reloc \<phi>)) (slots ob)"
  by (cases ob) (auto simp: length_slots_put)

lemma heap_imageE:
  assumes "heap_image \<phi> p q" and "\<phi> l \<noteq> 0"
  obtains ob ob' where "objs p l = Some ob" "objs q (unat (\<phi> l)) = Some ob'" "settled \<phi> ob"
    "norc ob' = norc (reloc_obj \<phi> (pool_base q) ob)"
  using assms unfolding heap_image_def by blast

lemma heap_image_value:
  assumes im: "heap_image \<phi> p q" and v: "value_ok (objs p) v" "root_moved \<phi> v"
  shows "value_ok (objs q) (reloc \<phi> v)"
proof (cases "gc_immediate v")
  case True
  then show ?thesis by (simp add: reloc_def value_ok_def)
next
  case False
  then have "\<phi> (GET_OFF v) \<noteq> 0"
    using v(2) by (simp add: root_moved_def)
  then obtain ob ob' where ob: "objs p (GET_OFF v) = Some ob" "objs q (unat (\<phi> (GET_OFF v))) = Some ob'"
    "norc ob' = norc (reloc_obj \<phi> (pool_base q) ob)"
    by (rule heap_imageE [OF im]) blast
  have "obj_tag ob' = obj_tag ob"
    using ob(3) obj_tag_norc obj_tag_reloc by metis
  moreover have "obj_tag ob = Some (gc_tag v)"
    using v(1) False ob(1) by (simp add: value_ok_def)
  ultimately show ?thesis
    using False ob(2) by (auto simp: value_ok_def reloc_def)
qed

lemma heap_image_str:
  assumes im: "heap_image \<phi> p q" and l: "settled \<phi> ob" "norc ob' = norc (reloc_obj \<phi> (pool_base q) ob)"
    and ok: "str_ok (objs p) b ob"
  shows "str_ok (objs q) (pool_base q) ob'"
proof (cases ob)
  case (HString off len r)
  then have ob': "ob' = HString off len (pool_base q, unat (\<phi> (snd r)))"
    using norc_nonbuf [OF l(2) [symmetric]] by simp
  obtain sb where sb: "objs p (snd r) = Some (HBuf sb)"
    using ok HString by auto
  have "\<phi> (snd r) \<noteq> 0"
    using l(1) HString unfolding settled_def by blast
  then obtain o1 o2 where "objs p (snd r) = Some o1" "objs q (unat (\<phi> (snd r))) = Some o2"
    "norc o2 = norc (reloc_obj \<phi> (pool_base q) o1)"
    by (rule heap_imageE [OF im]) blast
  then show ?thesis
    using ob' sb norc_buf [of o2 sb] by auto
next
  case (HBuf sb)
  then obtain sb' where sb': "ob' = HBuf sb'" "sb'\<lparr>sb_rc := 0\<rparr> = sb\<lparr>sb_rc := 0\<rparr>"
    using norc_buf [of ob' sb] l(2) by auto
  have "sb_len sb' = sb_len sb" "sb_bytes sb' = sb_bytes sb" "sb_wc sb' = sb_wc sb"
    using arg_cong [OF sb'(2), of sb_len] arg_cong [OF sb'(2), of sb_bytes]
      arg_cong [OF sb'(2), of sb_wc] by simp_all
  then show ?thesis
    using ok HBuf sb'(1) by simp
qed (use norc_nonbuf [OF l(2) [symmetric]] in simp_all)

lemma heap_image_ok:
  assumes im: "heap_image \<phi> p q" and ok: "heap_ok p"
  shows "heap_ok q"
  unfolding heap_ok_def
proof (intro allI impI)
  fix a ob' assume a: "objs q a = Some ob'"
  then obtain l where l: "\<phi> l \<noteq> 0" "unat (\<phi> l) = a"
    using im unfolding heap_image_def by blast
  obtain ob where ob: "objs p l = Some ob" "settled \<phi> ob"
    "norc ob' = norc (reloc_obj \<phi> (pool_base q) ob)"
    using heap_imageE [OF im l(1)] a l(2) by (metis option.inject)
  have obok: "obj_ok (objs p) (pool_base p) ob"
    using ok ob(1) by (auto simp: heap_ok_def)
  then have none: "None \<notin> set (slots ob)"
    by (auto simp: obj_ok_def)
  have sl: "slots ob' = map (map_option (reloc \<phi>)) (slots ob)"
    using slots_reloc [OF none, of \<phi> "pool_base q"] slots_norc ob(3) by metis
  have "\<exists>v. x = Some v \<and> value_ok (objs q) v" if "x \<in> set (slots ob')" for x
  proof -
    obtain y where y: "y \<in> set (slots ob)" "x = map_option (reloc \<phi>) y"
      using \<open>x \<in> set (slots ob')\<close> sl by auto
    then obtain v where v: "Some v \<in> set (slots ob)" "x = Some (reloc \<phi> v)" "value_ok (objs p) v"
      using obok unfolding obj_ok_def by (metis option.map(2))
    then have "root_moved \<phi> v"
      using ob(2) by (auto simp: settled_def root_moved_def)
    then show ?thesis
      using heap_image_value [OF im v(3)] v(2) by blast
  qed
  moreover have "str_ok (objs q) (pool_base q) ob'"
    using obok unfolding obj_ok_def by (intro heap_image_str [OF im ob(2,3), of "pool_base p"]) simp
  ultimately show "obj_ok (objs q) (pool_base q) ob'"
    by (simp add: obj_ok_def)
qed

section \<open>A whole collection\<close>

lemma ext_start_image:
  assumes "unmarked (working s)" and e: "ext {} (sans_roots (gc_start s)) t" and inv: "gc_inv t"
  shows "heap_image (fwd t) (working s) (free_pool t)"
proof -
  note E = extD [OF e]
  have f0: "fwd (sans_roots (gc_start s)) l = 0" for l
    using fwd_start [OF assms(1)] by (simp add: sans_roots_views)
  have objs: "from_objs t = objs (working s)"
    using E(1) by (simp add: sans_roots_views) (simp add: gc_start_def)
  have "\<exists>ob ob'. objs (working s) l = Some ob \<and> objs (free_pool t) (unat (fwd t l)) = Some ob' \<and>
      settled (fwd t) ob \<and> norc ob' = norc (reloc_obj (fwd t) (pool_base (free_pool t)) ob)"
    if "fwd t l \<noteq> 0" for l
  proof -
    obtain ob where ob: "from_objs t l = Some ob"
      using \<open>fwd t l \<noteq> 0\<close> by (auto simp: fwd_def objs_def split: option.splits)
    have "settled (fwd t) ob"
      "tosp t (unat (fwd t l)) = Some (0, norc (reloc_obj (fwd t) (pool_base (free_pool t)) ob))"
      using E(8) [OF f0 that] ob unfolding black_def by blast+
    then show ?thesis
      using ob objs by (auto simp: tosp_def objs_def)
  qed
  moreover have "\<exists>l. fwd t l \<noteq> 0 \<and> unat (fwd t l) = a" if "objs (free_pool t) a \<noteq> None" for a
    using gc_invD(8) [OF inv, of a] that by (auto simp: objs_def)
  ultimately show ?thesis
    unfolding heap_image_def using E(9) [OF f0 f0] by blast
qed

lemma ext_start_unmarked:
  assumes "unmarked (working s)" and e: "ext {} (sans_roots (gc_start s)) t" and inv: "gc_inv t"
  shows "unmarked (free_pool t)"
  unfolding unmarked_def
proof (intro allI impI)
  fix a c assume c: "pool_mem (free_pool t) a = Some c"
  obtain l where l: "from_objs t l \<noteq> None" "fwd t l \<noteq> 0" "unat (fwd t l) = a"
    using gc_invD(8) [OF inv, of a] c by auto
  have "fwd (sans_roots (gc_start s)) l = 0"
    using fwd_start [OF assms(1)] by (simp add: sans_roots_views)
  then have "black t l"
    using extD(8) [OF e] l(2) by blast
  then show "cell_fref c = 0"
    using l c by (auto simp: black_def tosp_def)
qed

definition gc_result :: "(nat \<Rightarrow> u32) \<Rightarrow> rt_state \<Rightarrow> scm_value \<Rightarrow> rt_state \<Rightarrow> bool" where
  "gc_result \<phi> s cc t \<longleftrightarrow>
     heap_image \<phi> (working s) (working t) \<and> root_moved \<phi> cc \<and>
     (\<forall>v\<in>set (arg_stk s). root_moved \<phi> v) \<and> arg_stk t = map (reloc \<phi>) (arg_stk s) \<and>
     (\<forall>tbl\<in>set (intern_tbl s). \<forall>v\<in>set (tl tbl). root_moved \<phi> v) \<and>
     intern_tbl t = map (reloc_table \<phi>) (intern_tbl s)"

lemma moved_root: "moved t v = root_moved (fwd t) v"
  by (simp add: moved_def root_moved_def)

lemma scm_gc_run:
  assumes ready: "gc_ready s cc" and fuel: "card (dom (pool_mem (working s))) < n"
  shows "\<exists>\<phi> t. scm_gc n cc s = Inr (reloc \<phi> cc, t) \<and> gc_result \<phi> s cc t \<and>
    pool_ok (working t) \<and> unmarked (working t) \<and> pool_idx (working t) \<le> pool_idx (working s) \<and>
    gc_threashold t = pool_idx (working t)"
proof -
  let ?s0 = "gc_start s"
  have um: "unmarked (working s)"
    using ready by (simp add: gc_ready_def)
  have inv0: "gc_inv ?s0"
    by (rule gc_inv_start [OF ready])
  have views0: "from_objs ?s0 = objs (working s)" "arg_stk ?s0 = arg_stk s" "intern_tbl ?s0 = intern_tbl s"
    by (simp_all add: gc_start_def)
  have "uncopied ?s0 \<subseteq> dom (pool_mem (working s))"
    by (auto simp: uncopied_def gc_start_def)
  moreover have "finite (dom (pool_mem (working s)))"
  proof (rule finite_subset)
    show "dom (pool_mem (working s)) \<subseteq> {..< pool_idx (working s)}"
      using ready pool_ok_below [of "working s"] by (force simp: gc_ready_def)
  qed simp
  ultimately have c0: "card (uncopied ?s0) < n"
    using fuel by (meson card_mono le_less_trans)
  obtain t1 where t1: "mmap (collect_table n) (intern_tbl ?s0) ?s0
      = Inr (map (reloc_table (fwd t1)) (intern_tbl s), t1)" "gc_inv t1" "ext {} ?s0 t1"
    "\<forall>tbl\<in>set (intern_tbl s). \<forall>v\<in>set (tl tbl). moved t1 v"
    using collect_tables [OF inv0 _ c0, of "intern_tbl s"] ready views0 by (auto simp: gc_ready_def)
  let ?t1 = "t1\<lparr>intern_tbl := map (reloc_table (fwd t1)) (intern_tbl s)\<rparr>"
  have inv1: "gc_inv ?t1" and c1: "card (uncopied ?t1) < n"
    using t1(2) ext_card [OF inv0 t1(3)] c0 by (simp_all add: gc_inv_roots roots_views)
  have o1: "from_objs ?t1 = objs (working s)" and a1: "arg_stk ?t1 = arg_stk s"
    using extD(1) [OF t1(3)] skelD(6) [OF extD(2) [OF t1(3)]] views0 by (simp_all add: roots_views)
  obtain t2 where t2: "mmap (scm_collect_value n) (arg_stk s) ?t1
      = Inr (map (reloc (fwd t2)) (arg_stk s), t2)" "gc_inv t2" "ext {} ?t1 t2"
    "\<forall>v\<in>set (arg_stk s). moved t2 v"
    using collect_list [OF inv1 _ c1, of "arg_stk s"] ready o1 by (auto simp: gc_ready_def)
  let ?t2 = "t2\<lparr>arg_stk := map (reloc (fwd t2)) (arg_stk s)\<rparr>"
  have inv2: "gc_inv ?t2" and c2: "card (uncopied ?t2) < n"
    using t2(2) ext_card [OF inv1 t2(3)] c1 by (simp_all add: gc_inv_roots roots_views)
  have o2: "from_objs ?t2 = objs (working s)"
    using extD(1) [OF t2(3)] o1 by (simp add: roots_views)
  obtain t3 where t3: "scm_collect_value n cc ?t2 = Inr (reloc (fwd t3) cc, t3)" "gc_inv t3"
    "ext {} ?t2 t3" "moved t3 cc"
    using collectsE [OF collects_all inv2 _ c2, of cc] ready o2 by (auto simp: gc_ready_def)
  have e: "ext {} (sans_roots ?s0) (sans_roots t3)"
    using ext_trans [OF ext_trans [OF ext_sans [OF t1(3)]], of "sans_roots t2" "sans_roots t3"]
      ext_sans [OF t2(3)] ext_sans [OF t3(3)] by (simp add: sans_roots_views)
  have inv3: "gc_inv (sans_roots t3)"
    using t3(2) by (simp add: sans_roots_def gc_inv_roots)
  let ?\<phi> = "fwd t3" and ?t = "t3\<lparr>working := free_pool t3, free_pool := empty_pool,
    gc_threashold := pool_idx (free_pool t3)\<rparr>"
  have im: "heap_image ?\<phi> (working s) (working ?t)" and um3: "unmarked (working ?t)"
    using ext_start_image [OF um e inv3] ext_start_unmarked [OF um e inv3]
    by (simp_all add: sans_roots_views)
  have m2: "fwd t3 l = fwd t2 l" if "fwd t2 l \<noteq> 0" for l
    using extD(4) [OF t3(3), of l] that by (simp add: roots_views)
  have m1: "fwd t3 l = fwd t1 l" if "fwd t1 l \<noteq> 0" for l
    using extD(4) [OF t2(3), of l] that m2 [of l] by (simp add: roots_views)
  have st: "arg_stk t3 = map (reloc (fwd t3)) (arg_stk s)"
    using skelD(6) [OF extD(2) [OF t3(3)]] t2(4) reloc_mono [OF _ m2] by simp
  have "intern_tbl t3 = map (reloc_table (fwd t1)) (intern_tbl s)"
    using skelD(7) [OF extD(2) [OF t3(3)]] skelD(7) [OF extD(2) [OF t2(3)]] by simp
  moreover have "reloc_table (fwd t1) tbl = reloc_table (fwd t3) tbl" if "tbl \<in> set (intern_tbl s)" for tbl
    using t1(4) that reloc_mono [OF _ m1] by (auto simp: reloc_table_def)
  ultimately have it: "intern_tbl t3 = map (reloc_table (fwd t3)) (intern_tbl s)"
    by simp
  have mv: "moved t3 v" if "moved t1 v \<or> moved t2 v" for v
    using that m1 m2 unfolding moved_def by metis
  have res: "gc_result ?\<phi> s cc ?t"
    unfolding gc_result_def moved_root [symmetric]
    using im st it t3(4) t1(4) t2(4) mv by (auto simp flip: moved_root)
  have run: "scm_gc n cc s = Inr (reloc ?\<phi> cc, ?t)"
    unfolding scm_gc_def using t1(1) t2(1) t3(1) a1 by (simp add: gc_start_def)
  have idx: "pool_idx (working s) = pool_idx (working t3)"
    using skelD(1) [OF extD(2) [OF e]] by (simp add: sans_roots_def gc_start_def)
  show ?thesis
    using run res um3 gc_invD(5,6) [OF t3(2)] idx by (intro exI [of _ ?\<phi>] exI [of _ ?t]) simp
qed

section \<open>What a collection means for the program\<close>

lemma heap_image_pair:
  assumes im: "heap_image \<phi> (working s) (working t)" and v: "root_moved \<phi> v"
    and p: "pair_at s v = Some (x, d)"
  shows "pair_at t (reloc \<phi> v) = Some (reloc \<phi> x, reloc \<phi> d)" "root_moved \<phi> x" "root_moved \<phi> d"
proof -
  have pv: "PAIR_P v"
    using p by (rule pair_at_PAIR_P)
  have h: "objs (working s) (GET_OFF v) = Some (HPair x d)"
    using p by (auto simp: pair_at_def objs_def split: if_splits option.splits hcell.splits hobj.splits)
  have nb: "NB tt_pair \<noteq> NB u" if "boxable u" "u \<noteq> tt_pair" for u
    using that by simp
  have nf: "\<not> FLOAT_P v"
    using pv TYPEOF_not_FLOAT_P [of tt_pair v] by (simp add: PAIR_P_def)
  have nv: "\<not> VOID_P v"
  proof
    assume "VOID_P v"
    then have "TYPEOF v = NB tt_void"
      by (simp add: VOID_P_def)
    then show False
      using pv by (simp add: PAIR_P_def)
  qed
  have imm: "\<not> gc_immediate v"
    using pv nf nv by (simp add: gc_immediate_def NUMBER_P_def INTEGER_P_def BOOLEAN_P_def CHAR_P_def
        FUNCTION_P_def PAIR_P_def)
  then have nz: "\<phi> (GET_OFF v) \<noteq> 0"
    using v by (simp add: root_moved_def)
  obtain ob ob' where ob: "objs (working s) (GET_OFF v) = Some ob"
    "objs (working t) (unat (\<phi> (GET_OFF v))) = Some ob'" "settled \<phi> ob"
    "norc ob' = norc (reloc_obj \<phi> (pool_base (working t)) ob)"
    by (rule heap_imageE [OF im nz]) blast
  have ob': "ob' = HPair (reloc \<phi> x) (reloc \<phi> d)"
  proof -
    have "ob = HPair x d"
      using ob(1) h by simp
    then show ?thesis
      using norc_nonbuf [OF ob(4) [symmetric]] by simp
  qed
  have rel: "reloc \<phi> v = gc_redirect v (\<phi> (GET_OFF v))"
    using imm by (simp add: reloc_def)
  have "PAIR_P (reloc \<phi> v)"
    using pv imm nz gc_immediate_redirect [OF imm nz] unfolding rel PAIR_P_def
    by (simp add: gc_immediate_def)
  then show "pair_at t (reloc \<phi> v) = Some (reloc \<phi> x, reloc \<phi> d)"
    using ob(2) ob' unfolding pair_at_def rel by (auto simp: objs_def split: hcell.splits)
  show "root_moved \<phi> x" "root_moved \<phi> d"
    using ob(1,3) h by (auto simp: settled_def root_moved_def)
qed

lemma heap_image_list:
  assumes im: "heap_image \<phi> (working s) (working t)"
  shows "root_moved \<phi> v \<Longrightarrow> list_at s v xs \<Longrightarrow> list_at t (reloc \<phi> v) (map (reloc \<phi>) xs)"
proof (induction xs arbitrary: v)
  case Nil
  then show ?case
    by (simp add: reloc_def gc_immediate_def)
next
  case (Cons x xs)
  then obtain d where d: "pair_at s v = Some (x, d)" "list_at s d xs"
    by auto
  note P = heap_image_pair [OF im Cons.prems(1) d(1)]
  show ?case
    using P(1) Cons.IH [OF P(3) d(2)] by auto
qed

lemma gc_ready_again:
  assumes "gc_ready s cc" and "gc_result \<phi> s cc t" and "pool_ok (working t)"
    and "unmarked (working t)" and "pool_idx (working t) \<le> pool_idx (working s)"
  shows "gc_ready t (reloc \<phi> cc)"
proof -
  have im: "heap_image \<phi> (working s) (working t)"
    using assms(2) by (simp add: gc_result_def)
  have tbl: "table_ok (from_objs t) (reloc_table \<phi> tbl)" if "tbl \<in> set (intern_tbl s)" for tbl
    using assms(1,2) that heap_image_value [OF im]
    by (auto simp: gc_ready_def gc_result_def table_ok_def reloc_table_def)
  show ?thesis
    unfolding gc_ready_def
    using assms heap_image_ok [OF im] heap_image_value [OF im] tbl
    by (auto simp: gc_ready_def gc_result_def)
qed

end
