(* ===== verification/Scm_GC_Program.thy ===== *)
theory Scm_GC_Program
  imports Scm_GC_Correct
begin

text \<open>
  What the collector means for a program: its properties, stated of \<open>scm_gc\<close> as a whole, with a
  small heap on which each of them is tried.
\<close>

section \<open>Collections and the program\<close>

text \<open>A heap with a list of one element and a closure that only the handler refers to.\<close>

definition gc_demo :: rt_state where
  "gc_demo = rt_start\<lparr>
     working := (working rt_start)\<lparr>pool_idx := 56,
       pool_mem := [8 \<mapsto> Cell 0 (HPair (boxi 1) SCM_NULL), 32 \<mapsto> Cell 0 (HClosure False 64 [])]\<rparr>,
     arg_stk := [heap_value tt_pair 8], exception_handler := heap_value tt_closure 32\<rparr>"

lemma gc_immediate_boxi [simp]: "gc_immediate (boxi x)"
  by (simp add: gc_immediate_def NUMBER_P_def)

lemma gc_immediate_null [simp]: "gc_immediate SCM_NULL"
  by (simp add: gc_immediate_def NULL_P_def)

lemma gc_tag_heap_value:
  assumes "boxable t" and "off < 2 ^ 32"
  shows "gc_tag (heap_value t off) = t"
proof -
  have "NB t AND 0xf = of_nat (tag_code t)"
    using assms(1) by (cases t) (simp_all add: NB_def NAN_BITS_def boxable_def less_type_tag_def)
  then show ?thesis
    using assms by (cases t) (simp_all add: gc_tag_def)
qed

lemma gc_demo_ready: "gc_ready gc_demo SCM_NULL"
proof -
  have "aligned 24 = 24"
    by (simp add: aligned_eq)
  then have "pool_ok (working gc_demo)"
    by (auto simp: pool_ok_def gc_demo_def rt_start_def HEAP_PAGE_SZ_def split: if_splits)
  moreover have "heap_ok (working gc_demo)"
    by (auto simp: heap_ok_def gc_demo_def rt_start_def objs_def obj_ok_def value_ok_def split: if_splits)
  moreover have "unmarked (working gc_demo)" "pool_idx (working gc_demo) \<le> 2 ^ 32" "intern_tbl gc_demo = []"
    by (auto simp: unmarked_def gc_demo_def rt_start_def rt_zero_def split: if_splits)
  moreover have "\<forall>v\<in>set (arg_stk gc_demo). value_ok (from_objs gc_demo) v"
    by (simp add: gc_demo_def value_ok_def objs_def gc_tag_heap_value)
  ultimately show ?thesis
    by (simp add: gc_ready_def value_ok_def)
qed

lemma gc_demo_list: "list_at gc_demo (arg_stk gc_demo ! 0) (map boxi [1])"
  by (simp add: gc_demo_def pair_at_def)

lemma gc_demo_len: "0 < length (arg_stk gc_demo)"
  by (simp add: gc_demo_def)

lemma gc_demo_card: "card (dom (pool_mem (working gc_demo))) < 3"
  by (simp add: gc_demo_def)

text \<open>
  C11: Given fuel for one step per object, a collection of a well-formed heap always succeeds, in
  to-space of the same size. There is a one-to-one map from the objects it kept to all objects of
  the new heap under which every kept object is the old one with its references followed (buffers
  up to their reference count), everything a root refers to is kept, and the argument stack, the
  intern tables and the procedure to run next are those of before with their references followed.
\<close>

theorem collection_isomorphic:
  assumes "gc_ready s cc" and "card (dom (pool_mem (working s))) < n"
  shows "\<exists>\<phi> t. scm_gc n cc s = Inr (reloc \<phi> cc, t) \<and> heap_image \<phi> (working s) (working t) \<and>
    root_moved \<phi> cc \<and> (\<forall>v\<in>set (arg_stk s). root_moved \<phi> v) \<and>
    (\<forall>tbl\<in>set (intern_tbl s). \<forall>v\<in>set (tl tbl). root_moved \<phi> v) \<and>
    arg_stk t = map (reloc \<phi>) (arg_stk s) \<and> intern_tbl t = map (reloc_table \<phi>) (intern_tbl s)"
  using scm_gc_run [OF assms] unfolding gc_result_def by blast

lemma collection_isomorphic_witness:
  "\<exists>\<phi> t. scm_gc 3 SCM_NULL gc_demo = Inr (SCM_NULL, t) \<and> heap_image \<phi> (working gc_demo) (working t) \<and>
     root_moved \<phi> (heap_value tt_pair 8)"
proof -
  obtain \<phi> t where "scm_gc 3 SCM_NULL gc_demo = Inr (reloc \<phi> SCM_NULL, t)"
    "heap_image \<phi> (working gc_demo) (working t)" "\<forall>v\<in>set (arg_stk gc_demo). root_moved \<phi> v"
    using collection_isomorphic [OF gc_demo_ready gc_demo_card] by blast
  then show ?thesis
    by (intro exI [of _ \<phi>] exI [of _ t]) (simp add: reloc_def gc_demo_def)
qed

text \<open>
  C12: A collection leaves the heap as the next one needs it: well formed, every reference of an
  object or a root to an object of the right kind, no forwarding mark, no larger than before, and
  with the threshold of the next collection at the space in use.
\<close>

theorem collection_keeps_invariant:
  assumes "gc_ready s cc" and "card (dom (pool_mem (working s))) < n"
  shows "\<exists>cc' t. scm_gc n cc s = Inr (cc', t) \<and> gc_ready t cc' \<and>
    pool_idx (working t) \<le> pool_idx (working s) \<and> gc_threashold t = pool_idx (working t)"
  using scm_gc_run [OF assms] gc_ready_again [OF assms(1)] by blast

lemma collection_keeps_invariant_witness:
  "\<exists>cc' t. scm_gc 3 SCM_NULL gc_demo = Inr (cc', t) \<and> gc_ready t cc'"
  using collection_keeps_invariant [OF gc_demo_ready gc_demo_card] by blast

lemma reloc_boxi [simp]: "reloc \<phi> (boxi x) = boxi x"
  by (simp add: reloc_def)

text \<open>
  C13: A list of fixnums on the argument stack is the same list after a collection, in its place
  on the stack.
\<close>

theorem collection_keeps_lists:
  assumes "gc_ready s cc" and "card (dom (pool_mem (working s))) < n"
    and "i < length (arg_stk s)" and "list_at s (arg_stk s ! i) (map boxi ns)"
  shows "\<exists>cc' t. scm_gc n cc s = Inr (cc', t) \<and> length (arg_stk t) = length (arg_stk s) \<and>
    list_at t (arg_stk t ! i) (map boxi ns)"
proof -
  obtain \<phi> t where t: "scm_gc n cc s = Inr (reloc \<phi> cc, t)" "gc_result \<phi> s cc t"
    using scm_gc_run [OF assms(1,2)] by blast
  then have "list_at t (reloc \<phi> (arg_stk s ! i)) (map (reloc \<phi>) (map boxi ns))"
    using assms(3,4) by (intro heap_image_list) (auto simp: gc_result_def)
  then show ?thesis
    using t assms(3) by (auto simp: gc_result_def comp_def)
qed

lemma collection_keeps_lists_witness:
  "\<exists>cc' t. scm_gc 3 SCM_NULL gc_demo = Inr (cc', t) \<and> list_at t (arg_stk t ! 0) (map boxi [1])"
  using collection_keeps_lists [OF gc_demo_ready gc_demo_card gc_demo_len gc_demo_list] by blast

lemma collect_immediates: "\<forall>v\<in>set xs. gc_immediate v \<Longrightarrow> mmap (scm_collect_value (Suc n)) xs s = Inr (xs, s)"
  by (induction xs) simp_all

text \<open>
  C29: The exception handler is not a root: it keeps its offset through a collection while the heap
  moves. Where the roots refer to no object the new heap is empty, so the closure that every failed
  assertion goes through is gone.
\<close>

theorem handler_not_a_root:
  assumes "\<forall>v\<in>set (arg_stk s). gc_immediate v" and "gc_immediate cc" and "intern_tbl s = []" and "0 < n"
  shows "\<exists>t. scm_gc n cc s = Inr (cc, t) \<and> exception_handler t = exception_handler s \<and>
    (\<forall>off. deref off t = Inl (UB ''no object at this offset''))"
proof -
  obtain m where n: "n = Suc m"
    using assms(4) by (cases n) simp_all
  have "mmap (scm_collect_value n) (arg_stk s) u = Inr (arg_stk s, u)" "scm_collect_value n cc u = Inr (cc, u)" for u
    using assms(1,2) collect_immediates unfolding n by simp_all
  then show ?thesis
    using assms(3) by (simp add: scm_gc_def deref_def)
qed

lemma handler_not_a_root_witness:
  "deref 32 (gc_demo\<lparr>arg_stk := []\<rparr>) = Inr (HClosure False 64 [], gc_demo\<lparr>arg_stk := []\<rparr>) \<and>
   (\<exists>t. scm_gc 1 SCM_NULL (gc_demo\<lparr>arg_stk := []\<rparr>) = Inr (SCM_NULL, t) \<and>
     exception_handler t = heap_value tt_closure 32 \<and> deref 32 t = Inl (UB ''no object at this offset''))"
  using handler_not_a_root [of "gc_demo\<lparr>arg_stk := []\<rparr>" SCM_NULL 1]
  by (auto simp: gc_demo_def rt_start_def rt_zero_def deref_def)

end
