(* ===== verification/Scm_Text.thy ===== *)
theory Scm_Text
  imports Scm_Strings
begin

text \<open>
  What the strings of \<open>Scm_Strings\<close> hold, and what their operations do to it.  A string is a
  window into a shared buffer of one-byte or four-byte characters; \<open>str_at\<close> reads the window as
  a list of characters, and the lemmas follow that list through comparison, \<open>string-ref\<close>,
  \<open>string-set!\<close> and \<open>string-copy\<close>.
\<close>

section \<open>The characters of a string\<close>

definition char_in :: "shared_buf \<Rightarrow> nat \<Rightarrow> int option" where
  "char_in sb i =
     (let w = char_width (sb_wc sb); bs = take w (drop (i * w) (sb_bytes sb)) in
      if length bs = w \<and> None \<notin> set bs
      then Some (if sb_wc sb then wchar_of_bytes (map the bs) else sint (hd (map the bs)))
      else None)"

definition str_in :: "rt_state \<Rightarrow> scm_value \<Rightarrow> nat \<Rightarrow> nat \<Rightarrow> shared_buf \<Rightarrow> int list \<Rightarrow> bool" where
  "str_in s v off q sb cs \<longleftrightarrow> STRING_P v \<and>
     (\<exists>f o' len g. pool_mem (working s) (GET_OFF v) = Some (Cell f (HString o' len (pool_base (working s), q))) \<and>
       pool_mem (working s) q = Some (Cell g (HBuf sb)) \<and> unat o' = off \<and> unat len = length cs \<and>
       (\<forall>i<length cs. char_in sb (off + i) = Some (cs ! i)))"

definition str_at :: "rt_state \<Rightarrow> scm_value \<Rightarrow> int list \<Rightarrow> bool" where
  "str_at s v cs \<longleftrightarrow> (\<exists>off q sb. str_in s v off q sb cs)"

lemma str_in_cong [simp]: "str_in (s\<lparr>arg_stk := zs\<rparr>) v off q sb cs = str_in s v off q sb cs"
  by (simp add: str_in_def)

lemma str_at_cong [simp]: "str_at (s\<lparr>arg_stk := zs\<rparr>) v cs = str_at s v cs"
  by (simp add: str_at_def)

lemma char_width_pos [simp]: "0 < char_width wc"
  by (simp add: char_width_def)

lemma read_char:
  assumes "char_in sb k = Some c"
  shows "bnd (read_bytes (k * char_width (sb_wc sb)) (char_width (sb_wc sb)) (sb_bytes sb))
    (\<lambda>bs. ret (if sb_wc sb then wchar_of_bytes bs else sint (hd bs))) s = Inr (c, s)"
  using assms by (auto simp: char_in_def read_bytes_def char_width_def Let_def split: if_splits)

lemma str_in_ref:
  assumes "str_in s v off q sb cs" and "i < length cs"
  shows "string_ref (GET_OFF v) i s = Inr (cs ! i, s)"
proof -
  obtain f o' len g where m: "pool_mem (working s) (GET_OFF v) = Some (Cell f (HString o' len (pool_base (working s), q)))"
    "pool_mem (working s) q = Some (Cell g (HBuf sb))" "unat o' = off"
    and c: "char_in sb (off + i) = Some (cs ! i)"
    using assms unfolding str_in_def by blast
  show ?thesis
    using m read_char [OF c, of s] by (simp add: string_ref_def heap_access buf_ref_def same_base_def Let_def)
qed

lemma str_at_ref: "str_at s v cs \<Longrightarrow> i < length cs \<Longrightarrow> string_ref (GET_OFF v) i s = Inr (cs ! i, s)"
  unfolding str_at_def using str_in_ref by blast

lemma str_at_deref:
  assumes "str_at s v cs"
  obtains o' len p where "deref_string (GET_OFF v) s = Inr ((o', len, p), s)" "unat len = length cs" "STRING_P v"
  using assms by (auto simp: str_at_def str_in_def heap_access)

section \<open>Order of strings\<close>

lemma first_diff_find:
  assumes "\<And>j. j < length xs \<Longrightarrow> string_ref a (i + j) s = Inr (xs ! j, s)"
    and "\<And>j. j < length ys \<Longrightarrow> string_ref b (i + j) s = Inr (ys ! j, s)"
    and "length xs = n" and "length ys = n"
  shows "first_diff n i a b s = Inr (find (\<lambda>(c, d). c \<noteq> d) (zip xs ys), s)"
  using assms
proof (induction n arbitrary: i xs ys)
  case (Suc n)
  obtain x xs' y ys' where xs: "xs = x # xs'" "ys = y # ys'"
    using Suc.prems(3,4) by (cases xs; cases ys) auto
  have "string_ref a i s = Inr (x, s)" "string_ref b i s = Inr (y, s)"
    using Suc.prems(1) [of 0] Suc.prems(2) [of 0] xs by simp_all
  moreover have "first_diff n (Suc i) a b s = Inr (find (\<lambda>(c, d). c \<noteq> d) (zip xs' ys'), s)"
    using Suc.prems(1) [of "Suc _"] Suc.prems(2) [of "Suc _"] Suc.prems(3,4) xs
    by (intro Suc.IH) simp_all
  ultimately show ?case
    using xs by simp
qed simp

lemma first_diff_strings:
  assumes "str_at s v xs" and "str_at s w ys" and "n = min (length xs) (length ys)"
  shows "first_diff n 0 (GET_OFF v) (GET_OFF w) s = Inr (find (\<lambda>(c, d). c \<noteq> d) (zip xs ys), s)"
proof -
  have "first_diff n 0 (GET_OFF v) (GET_OFF w) s
      = Inr (find (\<lambda>(c, d). c \<noteq> d) (zip (take n xs) (take n ys)), s)"
    using assms by (intro first_diff_find) (simp_all add: str_at_ref)
  moreover have "zip (take n xs) (take n ys) = zip xs ys"
    using assms(3) by (simp add: take_zip [symmetric])
  ultimately show ?thesis
    by simp
qed

lemma find_diff_eq: "length xs = length ys \<Longrightarrow> find (\<lambda>(c, d). c \<noteq> d) (zip xs ys) = None \<longleftrightarrow> xs = ys"
  by (induction xs ys rule: list_induct2) auto

lemma find_diff_less:
  "(case find (\<lambda>(c, d). c \<noteq> d) (zip xs ys) of Some (c, d) \<Rightarrow> c < d | None \<Rightarrow> length xs < length ys)
    \<longleftrightarrow> ord_class.lexordp xs (ys :: int list)"
  by (induction xs ys rule: list_induct2') (auto split: option.splits)

lemma find_diff_swap:
  "find (\<lambda>(c, d). c \<noteq> d) (zip ys xs) = map_option prod.swap (find (\<lambda>(c, d). c \<noteq> d) (zip xs ys))"
  by (induction xs ys rule: list_induct2') auto

lemma find_diffD: "find (\<lambda>(c, d). c \<noteq> d) (zip xs ys) = Some (c, d) \<Longrightarrow> c \<noteq> d"
  by (auto simp: find_Some_iff)

lemma string_order:
  assumes "str_at s v xs" and "str_at s w ys"
  shows "string_eq v w s = Inr (xs = ys, s)"
    and "string_less v w s = Inr (ord_class.lexordp xs ys, s)"
    and "string_gr v w s = Inr (ord_class.lexordp ys xs, s)"
    and "string_leq v w s = Inr (\<not> ord_class.lexordp ys xs, s)"
    and "string_geq v w s = Inr (\<not> ord_class.lexordp xs ys, s)"
proof -
  obtain o1 l1 p1 where v: "deref_string (GET_OFF v) s = Inr ((o1, l1, p1), s)" "unat l1 = length xs" "STRING_P v"
    using assms(1) by (rule str_at_deref)
  obtain o2 l2 p2 where w: "deref_string (GET_OFF w) s = Inr ((o2, l2, p2), s)" "unat l2 = length ys" "STRING_P w"
    using assms(2) by (rule str_at_deref)
  let ?f = "find (\<lambda>(c, d). c \<noteq> d) (zip xs ys)"
  have two: "two_strings v w s = Inr ((l1, l2), s)"
    using v w by (simp add: two_strings_def)
  have fd: "first_diff (min (unat l1) (unat l2)) 0 (GET_OFF v) (GET_OFF w) s = Inr (?f, s)"
    using first_diff_strings [OF assms refl] v(2) w(2) by simp
  have len: "l1 < l2 \<longleftrightarrow> length xs < length ys" "l2 < l1 \<longleftrightarrow> length ys < length xs" "l1 = l2 \<longleftrightarrow> length xs = length ys"
    "l1 \<le> l2 \<longleftrightarrow> length xs \<le> length ys" "l2 \<le> l1 \<longleftrightarrow> length ys \<le> length xs"
    using v(2) w(2) by (simp_all add: word_less_nat_alt word_le_nat_alt word_unat_eq_iff)
  have lt: "ord_class.lexordp xs ys = (case ?f of Some (c, d) \<Rightarrow> c < d | None \<Rightarrow> length xs < length ys)"
    and gt: "ord_class.lexordp ys xs = (case ?f of Some (c, d) \<Rightarrow> d < c | None \<Rightarrow> length ys < length xs)"
    using find_diff_less [of xs ys] find_diff_less [of ys xs] find_diff_swap [of ys xs]
    by (simp, cases ?f) auto
  show "string_less v w s = Inr (ord_class.lexordp xs ys, s)" "string_gr v w s = Inr (ord_class.lexordp ys xs, s)"
    using two fd len by (auto simp: string_less_def string_gr_def lt gt split: option.splits)
  have "(case ?f of Some (c, d) \<Rightarrow> c < d | None \<Rightarrow> l1 \<le> l2) \<longleftrightarrow> \<not> ord_class.lexordp ys xs"
    "(case ?f of Some (c, d) \<Rightarrow> c > d | None \<Rightarrow> l1 \<ge> l2) \<longleftrightarrow> \<not> ord_class.lexordp xs ys"
    unfolding lt gt by (cases ?f; use len(4,5) in \<open>auto simp: not_less dest: find_diffD\<close>)+
  then show "string_leq v w s = Inr (\<not> ord_class.lexordp ys xs, s)" "string_geq v w s = Inr (\<not> ord_class.lexordp xs ys, s)"
    using two fd by (simp_all add: string_leq_def string_geq_def)
  show "string_eq v w s = Inr (xs = ys, s)"
  proof (cases "length xs = length ys")
    case True
    then show ?thesis
      using two fd len(3) v(2) find_diff_eq [OF True] by (simp add: string_eq_def)
  next
    case False
    then show ?thesis
      using two len(3) by (auto simp: string_eq_def)
  qed
qed

section \<open>Writing a character\<close>

lemma wchar_round_trip: "is_i32 c \<Longrightarrow> wchar_of_bytes (wchar_bytes c) = c"
proof -
  assume c: "is_i32 c"
  let ?w = "word_of_int c :: u32"
  have u: "[0..<4] = [0, 1, 2, 3 :: nat]"
    by (simp add: upt_rec)
  have "foldr (\<lambda>b acc. push_bit 8 acc OR ucast b) (wchar_bytes c) 0 = ?w"
    unfolding wchar_bytes_def u
    by (rule bit_word_eqI) (auto simp: bit_simps)
  then show ?thesis
    using c by (simp add: wchar_of_bytes_def sint32_of_int)
qed

lemma length_wchar_bytes [simp]: "length (wchar_bytes c) = 4"
  by (simp add: wchar_bytes_def)

lemma take_full: "0 < n \<Longrightarrow> length (take n (drop m xs)) = n \<Longrightarrow> m + n \<le> length xs"
  by (simp add: min_def split: if_splits)

lemma overwrite_length [simp]: "k + length ys \<le> length xs \<Longrightarrow> length (overwrite k ys xs) = length xs"
  by (simp add: overwrite_def)

lemma overwrite_same: "k + length ys \<le> length xs \<Longrightarrow> take (length ys) (drop k (overwrite k ys xs)) = map Some ys"
  by (simp add: overwrite_def)

lemma overwrite_other:
  assumes "k + length ys \<le> length xs" and "j + n \<le> k \<or> k + length ys \<le> j"
  shows "take n (drop j (overwrite k ys xs)) = take n (drop j xs)"
proof (rule nth_equalityI)
  show "length (take n (drop j (overwrite k ys xs))) = length (take n (drop j xs))"
    using assms(1) by simp
next
  fix i
  assume "i < length (take n (drop j (overwrite k ys xs)))"
  then have "i < n" "i < length xs - j"
    using assms(1) by simp_all
  then have "i < n" "j + i < length xs"
    by linarith+
  then show "take n (drop j (overwrite k ys xs)) ! i = take n (drop j xs) ! i"
    using assms by (auto simp: overwrite_def nth_append)
qed

lemma blocks_apart:
  fixes j k w :: nat
  assumes "j \<noteq> k"
  shows "j * w + w \<le> k * w \<or> k * w + w \<le> j * w"
proof (cases "j < k")
  case True
  then show ?thesis
    using mult_le_mono1 [of "Suc j" k w] by simp
next
  case False
  then show ?thesis
    using assms mult_le_mono1 [of "Suc k" j w] by simp
qed

text \<open>The bytes \<open>string_set\<close> stores for a character in a buffer of either width.\<close>

definition put_char :: "nat \<Rightarrow> int \<Rightarrow> shared_buf \<Rightarrow> shared_buf" where
  "put_char k ch sb = sb\<lparr>sb_bytes := overwrite (k * char_width (sb_wc sb))
     (if sb_wc sb then wchar_bytes ch else [word_of_int ch]) (sb_bytes sb)\<rparr>"

lemma put_char_wc [simp]: "sb_wc (put_char k ch sb) = sb_wc sb"
  by (simp add: put_char_def)

definition char_fits :: "bool \<Rightarrow> int \<Rightarrow> bool" where
  "char_fits wc ch \<longleftrightarrow> (if wc then is_i32 ch else - 128 \<le> ch \<and> ch \<le> CHAR_MAX)"

lemma char_inI:
  "take (char_width (sb_wc sb)) (drop (k * char_width (sb_wc sb)) (sb_bytes sb)) = map Some bs \<Longrightarrow>
     length bs = char_width (sb_wc sb) \<Longrightarrow>
     char_in sb k = Some (if sb_wc sb then wchar_of_bytes bs else sint (hd bs))"
  unfolding char_in_def Let_def by (simp only:) (auto simp: comp_def hd_map)

lemma char_in_cong:
  "sb_wc sb = sb_wc sb' \<Longrightarrow>
     take (char_width (sb_wc sb')) (drop (j * char_width (sb_wc sb')) (sb_bytes sb)) =
       take (char_width (sb_wc sb')) (drop (j * char_width (sb_wc sb')) (sb_bytes sb')) \<Longrightarrow>
     char_in sb j = char_in sb' j"
  by (simp only: char_in_def Let_def)

lemma char_in_put:
  assumes "char_in sb k = Some c0" and "char_fits (sb_wc sb) ch"
  shows "char_in (put_char k ch sb) k = Some ch"
    and "j \<noteq> k \<Longrightarrow> char_in (put_char k ch sb) j = char_in sb j"
proof -
  let ?w = "char_width (sb_wc sb)" and ?b = "if sb_wc sb then wchar_bytes ch else [word_of_int ch]"
  have len: "length ?b = ?w"
    by (simp add: char_width_def)
  have "length (take ?w (drop (k * ?w) (sb_bytes sb))) = ?w"
    using assms(1) by (auto simp: char_in_def Let_def split: if_splits)
  then have fit: "k * ?w + length ?b \<le> length (sb_bytes sb)"
    unfolding len by (intro take_full) simp_all
  have "sint (word_of_int ch :: 8 word) = ch" if "\<not> sb_wc sb"
    using that assms(2)
    by (simp add: char_fits_def CHAR_MAX_def sint_sbintrunc' signed_take_bit_int_eq_self)
  moreover have "wchar_of_bytes (wchar_bytes ch) = ch" if "sb_wc sb"
    using that assms(2) wchar_round_trip by (simp add: char_fits_def)
  moreover have T: "take ?w (drop (k * ?w) (sb_bytes (put_char k ch sb))) = map Some ?b"
    using overwrite_same [OF fit] unfolding len by (simp add: put_char_def)
  ultimately show "char_in (put_char k ch sb) k = Some ch"
    using char_inI [of "put_char k ch sb" k ?b] len by auto
  show "char_in (put_char k ch sb) j = char_in sb j" if "j \<noteq> k"
  proof -
    have "j * ?w + ?w \<le> k * ?w \<or> k * ?w + length ?b \<le> j * ?w"
      using blocks_apart [OF that] unfolding len .
    from overwrite_other [OF fit this] show ?thesis
      by (intro char_in_cong) (simp_all add: put_char_def)
  qed
qed

text \<open>A buffer that is written in place: not read-only, and not counted as shared.\<close>

definition in_place :: "shared_buf \<Rightarrow> int \<Rightarrow> bool" where
  "in_place sb ch \<longleftrightarrow> \<not> sb_ro sb \<and> sb_rc sb \<le> 1 \<and> char_fits (sb_wc sb) ch"

lemma str_in_apart: "str_in s v off q sb cs \<Longrightarrow> GET_OFF v \<noteq> q"
  by (auto simp: str_in_def)

lemma string_set_run:
  assumes v: "str_in s v off q sb cs" and "i < length cs" and "in_place sb ch"
  shows "\<exists>t. string_set (GET_OFF v) i ch s = Inr ((), t) \<and>
    (\<forall>l. l \<noteq> q \<longrightarrow> pool_mem (working t) l = pool_mem (working s) l) \<and>
    (\<exists>g. pool_mem (working t) q = Some (Cell g (HBuf (put_char (off + i) ch sb)))) \<and>
    pool_base (working t) = pool_base (working s) \<and> arg_stk t = arg_stk s"
proof -
  obtain f o' len g where m: "pool_mem (working s) (GET_OFF v) = Some (Cell f (HString o' len (pool_base (working s), q)))"
    "pool_mem (working s) q = Some (Cell g (HBuf sb))" "unat o' = off"
    and c: "char_in sb (off + i) = Some (cs ! i)"
    using assms(1,2) unfolding str_in_def by blast
  let ?w = "char_width (sb_wc sb)"
  have "length (take ?w (drop ((off + i) * ?w) (sb_bytes sb))) = ?w"
    using c by (auto simp: char_in_def Let_def split: if_splits)
  then have "(off + i) * ?w + ?w \<le> length (sb_bytes sb)"
    by (intro take_full) simp_all
  moreover have "\<not> (ch > CHAR_MAX \<and> \<not> sb_wc sb)" "\<not> sb_rc sb > 1" "\<not> sb_ro sb"
    using assms(3) by (auto simp: in_place_def char_fits_def split: if_splits)
  ultimately show ?thesis
    using m str_in_apart [OF v]
    by (cases "sb_wc sb") (simp_all add: string_set_def cur_base_def heap_access buf_ref_def
        same_base_def Let_def buf_assign_def put_char_def)
qed

lemma str_in_set:
  assumes v: "str_in s v off q sb cs" and i: "i < length cs" and fits: "char_fits (sb_wc sb) ch"
    and keep: "\<And>l. l \<noteq> q \<Longrightarrow> pool_mem (working t) l = pool_mem (working s) l"
    and q: "pool_mem (working t) q = Some (Cell g (HBuf (put_char (off + i) ch sb)))"
    and "pool_base (working t) = pool_base (working s)"
  shows "str_in t v off q (put_char (off + i) ch sb) (cs[i := ch])"
proof -
  have "char_in sb (off + i) = Some (cs ! i)"
    using v i by (auto simp: str_in_def)
  note P = char_in_put [OF this fits]
  have "char_in (put_char (off + i) ch sb) (off + j) = Some (cs[i := ch] ! j)" if "j < length cs" for j
    using P(1) P(2) [of "off + j"] that v by (cases "j = i") (auto simp: str_in_def)
  then show ?thesis
    using assms str_in_apart [OF v] by (auto simp: str_in_def)
qed

lemma callable_buf:
  assumes "callable s k" and "\<And>l. l \<noteq> q \<Longrightarrow> pool_mem (working t) l = pool_mem (working s) l"
    and "pool_mem (working s) q = Some (Cell g (HBuf sb))"
  shows "callable t k"
  using assms unfolding callable_def plain_closure_def by (metis hcell.inject hobj.distinct(71) option.inject)

section \<open>Properties of strings\<close>

text \<open>
  C35: The string comparisons on two strings, of whatever widths and whatever parts of their
  buffers, answer equality and the lexicographic order of their characters.
\<close>

theorem string_compare_lexical:
  assumes "arg_stk s = [w, v, k]" and "callable s k" and "str_at s v xs" and "str_at s w ys"
  shows "prim_string_eq self s = Inr (k, s\<lparr>arg_stk := [ITOBOOL (xs = ys)]\<rparr>) \<and>
    prim_string_less self s = Inr (k, s\<lparr>arg_stk := [ITOBOOL (ord_class.lexordp xs ys)]\<rparr>) \<and>
    prim_string_gr self s = Inr (k, s\<lparr>arg_stk := [ITOBOOL (ord_class.lexordp ys xs)]\<rparr>) \<and>
    prim_string_leq self s = Inr (k, s\<lparr>arg_stk := [ITOBOOL (\<not> ord_class.lexordp ys xs)]\<rparr>) \<and>
    prim_string_geq self s = Inr (k, s\<lparr>arg_stk := [ITOBOOL (\<not> ord_class.lexordp xs ys)]\<rparr>)"
proof -
  have stk: "arg_stk s = [w, v] @ [k]"
    using assms(1) by simp
  have "return_to_k (primop_string_compare cmp) s = Inr (k, s\<lparr>arg_stk := [ITOBOOL b]\<rparr>)"
    if "cmp v w (s\<lparr>arg_stk := []\<rparr>) = Inr (b, s\<lparr>arg_stk := []\<rparr>)" for cmp b
    using that return_to_k_fold [OF stk assms(2), of _ "ITOBOOL b" "[]"]
    by (simp add: primop_string_compare_def ITOBOOL_def ARG_STACK_LEN_def)
  then show ?thesis
    using string_order [of "s\<lparr>arg_stk := []\<rparr>" v xs w ys] assms(3,4)
    by (simp add: prim_string_eq_def prim_string_less_def prim_string_gr_def prim_string_leq_def
        prim_string_geq_def primop_string_eq_def primop_string_less_def primop_string_gr_def
        primop_string_leq_def primop_string_geq_def)
qed

text \<open>
  \<open>string-set!\<close> on a string whose buffer it may write in place changes the character at the
  index and no other, and \<open>string-ref\<close> then reads it back; an index out of range stops the program.
\<close>

theorem string_set_ref:
  assumes "arg_stk s = [box_i32 tt_char ch, boxi i, v, k]" and "callable s k"
    and "str_in s v off q sb cs" and "in_place sb ch" and "is_i32 i"
  shows "if 0 \<le> i \<and> nat i < length cs
    then \<exists>t. prim_string_set self s = Inr (k, t) \<and> arg_stk t = [SCM_VOID] \<and> str_at t v (cs[nat i := ch]) \<and>
      primop_string_ref (t\<lparr>arg_stk := [boxi i, v]\<rparr>) = Inr (box_i32 tt_char ch, t\<lparr>arg_stk := []\<rparr>)
    else \<exists>m. prim_string_set self s = Inl (Assert m)"
proof -
  let ?s = "s\<lparr>arg_stk := []\<rparr>"
  obtain f o' len g where m: "pool_mem (working s) (GET_OFF v) = Some (Cell f (HString o' len (pool_base (working s), q)))"
    "pool_mem (working s) q = Some (Cell g (HBuf sb))" "unat len = length cs" and sp: "STRING_P v"
    using assms(3) unfolding str_in_def by blast
  have ulen: "uint len = int (length cs)"
    using m(3) by (simp add: uint_nat)
  have ch: "is_i32 ch" "CHAR_P (box_i32 tt_char ch)" "int_of (box_i32 tt_char ch) = ch"
  proof -
    show "is_i32 ch"
      using assms(4) by (auto simp: in_place_def char_fits_def is_i32_def INT32_MAX_def INT32_MIN_def CHAR_MAX_def
          split: if_splits)
    then show "CHAR_P (box_i32 tt_char ch)" "int_of (box_i32 tt_char ch) = ch"
      by (simp_all add: CHAR_P_def int_of_def sint32_of_int)
  qed
  show ?thesis
  proof (cases "0 \<le> i \<and> nat i < length cs")
    case True
    obtain t g' where t: "string_set (GET_OFF v) (nat i) ch ?s = Inr ((), t)"
      "\<And>l. l \<noteq> q \<Longrightarrow> pool_mem (working t) l = pool_mem (working s) l"
      "pool_mem (working t) q = Some (Cell g' (HBuf (put_char (off + nat i) ch sb)))"
      "pool_base (working t) = pool_base (working s)" "arg_stk t = []"
      using string_set_run [of ?s v off q sb cs "nat i" ch] True assms(3,4) by auto
    have "str_in t v off q (put_char (off + nat i) ch sb) (cs[nat i := ch])"
      using str_in_set [OF assms(3) _ _ t(2,3,4)] True assms(4) by (simp add: in_place_def)
    then have str: "str_at t v (cs[nat i := ch])"
      by (auto simp: str_at_def)
    have "0 \<le> i" "i < int (length cs)"
      using True by linarith+
    then have "prim_string_set self s = bnd (push_arg SCM_VOID) (\<lambda>_. tail_call k) t"
      using assms(1,5) ch t(1) m sp ulen
      by (simp add: prim_string_set_def return_to_k_def primop_string_set_def deref_string_def deref_def)
    moreover have "callable t k"
      by (rule callable_buf [OF assms(2) t(2) m(2)])
    ultimately have set: "prim_string_set self s = Inr (k, t\<lparr>arg_stk := [SCM_VOID]\<rparr>)"
      using push_tail_call [of t k SCM_VOID] t(5) by (simp add: ARG_STACK_LEN_def)
    have "string_ref (GET_OFF v) (nat i) (t\<lparr>arg_stk := []\<rparr>) = Inr (ch, t\<lparr>arg_stk := []\<rparr>)"
      using str_at_ref [of "t\<lparr>arg_stk := []\<rparr>" v "cs[nat i := ch]" "nat i"] str True by simp
    moreover have "pool_mem (working t) (GET_OFF v) = Some (Cell f (HString o' len (pool_base (working s), q)))"
      using t(2) [of "GET_OFF v"] str_in_apart [OF assms(3)] m(1) by simp
    ultimately have "primop_string_ref (t\<lparr>arg_stk := [boxi i, v]\<rparr>) = Inr (box_i32 tt_char ch, t\<lparr>arg_stk := []\<rparr>)"
      using sp assms(5) True \<open>i < int (length cs)\<close> ulen make_char_box [OF ch(1)]
      by (simp add: primop_string_ref_def deref_string_def deref_def)
    then show ?thesis
      using True set str by (intro if_P [THEN iffD2, rotated] exI [of _ "t\<lparr>arg_stk := [SCM_VOID]\<rparr>"]) auto
  next
    case False
    then show ?thesis
      using assms(1,5) ch m sp ulen
      by (cases "0 \<le> i") (auto simp: prim_string_set_def return_to_k_def primop_string_set_def deref_string_def deref_def)
  qed
qed

text \<open>A heap with two narrow strings: "abc" at offset 8 and "abd" at offset 48.\<close>

definition str_demo :: "scm_value list \<Rightarrow> rt_state" where
  "str_demo xs = rt_start\<lparr>
     working := (working rt_start)\<lparr>pool_idx := 88,
       pool_mem := [8 \<mapsto> Cell 0 (HString 0 3 (1, 32)),
         32 \<mapsto> Cell 0 (HBuf \<lparr>sb_len = 3, sb_rc = 1, sb_wc = False, sb_ro = False, sb_bytes = [Some 97, Some 98, Some 99]\<rparr>),
         48 \<mapsto> Cell 0 (HString 0 3 (1, 72)),
         72 \<mapsto> Cell 0 (HBuf \<lparr>sb_len = 3, sb_rc = 1, sb_wc = False, sb_ro = False, sb_bytes = [Some 97, Some 98, Some 100]\<rparr>)]\<rparr>,
     arg_stk := xs\<rparr>"

definition abc_buf :: shared_buf where
  "abc_buf = \<lparr>sb_len = 3, sb_rc = 1, sb_wc = False, sb_ro = False, sb_bytes = [Some 97, Some 98, Some 99]\<rparr>"

lemma less_3: "(i :: nat) < 3 \<longleftrightarrow> i = 0 \<or> i = 1 \<or> i = 2"
  by linarith

lemma narrow_char:
  "char_in \<lparr>sb_len = n, sb_rc = r, sb_wc = False, sb_ro = ro, sb_bytes = map Some bs\<rparr> i =
     (if i < length bs then Some (sint (bs ! i)) else None)"
  by (cases "i < length bs") (simp_all add: char_in_def char_width_def take_Suc_conv_app_nth hd_drop_conv_nth)

lemma str_demo_strings:
  "str_in (str_demo xs) (heap_value tt_string 8) 0 32 abc_buf [97, 98, 99]"
  "str_at (str_demo xs) (heap_value tt_string 8) [97, 98, 99]"
  "str_at (str_demo xs) (heap_value tt_string 48) [97, 98, 100]"
proof -
  let ?buf = "\<lambda>bs. \<lparr>sb_len = 3, sb_rc = 1, sb_wc = False, sb_ro = False, sb_bytes = map Some bs\<rparr>"
  have abc: "abc_buf = ?buf [97, 98, 99]"
    by (simp add: abc_buf_def)
  have chars: "\<forall>i<3. char_in (?buf [97, 98, c]) i = Some ([97, 98, sint c] ! i)" for c
    unfolding narrow_char less_3 by auto
  have "\<forall>i<3. char_in (?buf [97, 98, 99]) i = Some ([97, 98, 99 :: int] ! i)"
    "\<forall>i<3. char_in (?buf [97, 98, 100]) i = Some ([97, 98, 100 :: int] ! i)"
    using chars [of 99] chars [of 100] by simp_all
  note chars = this
  have len: "length [97, 98, c :: int] = 3" for c
    by simp
  show s1: "str_in (str_demo xs) (heap_value tt_string 8) 0 32 abc_buf [97, 98, 99]"
    unfolding str_in_def len abc using chars(1)
    by (simp add: str_demo_def rt_start_def STRING_P_def)
  then show "str_at (str_demo xs) (heap_value tt_string 8) [97, 98, 99]"
    unfolding str_at_def by blast
  have "str_in (str_demo xs) (heap_value tt_string 48) 0 72 (?buf [97, 98, 100]) [97, 98, 100]"
    unfolding str_in_def len using chars(2)
    by (simp add: str_demo_def rt_start_def STRING_P_def)
  then show "str_at (str_demo xs) (heap_value tt_string 48) [97, 98, 100]"
    unfolding str_at_def by blast
qed

lemma str_demo_upd [simp]: "str_demo xs\<lparr>arg_stk := ys\<rparr> = str_demo ys" "arg_stk (str_demo xs) = xs"
  by (simp_all add: str_demo_def)

lemma string_compare_lexical_witness:
  "prim_string_less 0 (str_demo [heap_value tt_string 48, heap_value tt_string 8, make_function 64])
     = Inr (make_function 64, str_demo [SCM_TRUE])"
  using string_compare_lexical [OF _ _ str_demo_strings(2,3), of
      "[heap_value tt_string 48, heap_value tt_string 8, make_function 64]" "make_function 64" 0]
  by (simp add: ITOBOOL_def)

lemma string_set_ref_witness:
  "\<exists>t. prim_string_set 0 (str_demo [box_i32 tt_char 120, boxi 1, heap_value tt_string 8, make_function 64])
     = Inr (make_function 64, t) \<and> str_at t (heap_value tt_string 8) [97, 120, 99]"
  using string_set_ref [OF _ _ str_demo_strings(1), of
      "[box_i32 tt_char 120, boxi 1, heap_value tt_string 8, make_function 64]" 120 1 "make_function 64" 0]
  by (auto simp: in_place_def abc_buf_def char_fits_def CHAR_MAX_def is_i32_def INT32_MAX_def INT32_MIN_def)

text \<open>
  A copy made by \<open>string-copy\<close> shares the buffer without counting the sharing, so setting a
  character of the copy also sets it in the original.
\<close>

theorem string_copy_aliases:
  assumes "str_in s v 0 q sb cs" and "in_place sb ch" and "i < length cs" and "length cs < 2 ^ 32"
    and "pool_ok (working s)" and "pool_idx (working s) + 24 < pool_sz (working s)"
    and "pool_idx (working s) < 2 ^ 32" and "pool_sz (working s) < 2 ^ 63"
  shows "\<exists>w t u. string_copy v 0 (of_nat (length cs)) s = Inr (w, t) \<and> w \<noteq> v \<and> str_at t w cs \<and>
    string_set (GET_OFF w) i ch t = Inr ((), u) \<and> str_at u w (cs[i := ch]) \<and> str_at u v (cs[i := ch])"
proof -
  let ?i = "pool_idx (working s)" and ?w = "heap_value tt_string (pool_idx (working s))"
  obtain f len g where m: "pool_mem (working s) (GET_OFF v) = Some (Cell f (HString 0 len (pool_base (working s), q)))"
    "pool_mem (working s) q = Some (Cell g (HBuf sb))" "unat len = length cs"
    and c: "\<forall>j<length cs. char_in sb (0 + j) = Some (cs ! j)" and sp: "STRING_P v"
    using assms(1) by (auto simp: str_in_def unat_eq_0)
  have new: "pool_mem (working s) ?i = None"
    using pool_ok_fresh [OF assms(5)] by simp
  have ni: "GET_OFF v \<noteq> ?i" "q \<noteq> ?i"
    using new m by auto
  let ?t = "s\<lparr>working := (working s)\<lparr>pool_idx := ?i + 24, pool_mem := (pool_mem (working s))(?i \<mapsto>
      Cell 0 (HString 0 (of_nat (length cs)) (pool_base (working s), q)))\<rparr>,
    bytes_allocated := bytes_allocated s + 24\<rparr>"
  have un: "unat (of_nat (pool_sz (working s)) - of_nat ?i :: u64) = pool_sz (working s) - ?i"
    using assms(6,8) by (intro unat_diff_u64) simp_all
  have "scm_heap_alloc 24 s = Inr (?i, s\<lparr>working := (working s)\<lparr>pool_idx := ?i + 24\<rparr>,
      bytes_allocated := bytes_allocated s + 24\<rparr>)"
    using assms(6) un by (simp add: scm_heap_alloc_def Let_def aligned_eq)
  then have copy: "string_copy v 0 (of_nat (length cs)) s = Inr (?w, ?t)"
    using m(1) assms(6,7) by (simp add: string_copy_def deref_string_def deref_def write_new_def Let_def)
  have tw: "str_in ?t ?w 0 q sb cs" and tv: "str_in ?t v 0 q sb cs"
    using m c sp ni assms(4,7) by (auto simp: str_in_def STRING_P_def)
  obtain u g' where u: "string_set (GET_OFF ?w) i ch ?t = Inr ((), u)"
    "\<And>l. l \<noteq> q \<Longrightarrow> pool_mem (working u) l = pool_mem (working ?t) l"
    "pool_mem (working u) q = Some (Cell g' (HBuf (put_char (0 + i) ch sb)))"
    "pool_base (working u) = pool_base (working ?t)"
    using string_set_run [OF tw assms(3,2)] by blast
  have fits: "char_fits (sb_wc sb) ch"
    using assms(2) by (simp add: in_place_def)
  have "str_at u ?w (cs[i := ch])" "str_at u v (cs[i := ch])" "str_at ?t ?w cs"
    using str_in_set [OF tw assms(3) fits u(2-4)] str_in_set [OF tv assms(3) fits u(2-4)] tw
    unfolding str_at_def by blast+
  moreover have "?w \<noteq> v"
    using ni(1) assms(7) by auto
  ultimately show ?thesis
    using copy u(1) by blast
qed

lemma string_copy_aliases_witness:
  "\<exists>w t u. string_copy (heap_value tt_string 8) 0 3 (str_demo []) = Inr (w, t) \<and>
     string_set (GET_OFF w) 1 120 t = Inr ((), u) \<and> str_at u (heap_value tt_string 8) [97, 120, 99]"
proof -
  have "pool_ok (working (str_demo []))"
    by (auto simp: pool_ok_def str_demo_def rt_start_def HEAP_PAGE_SZ_def aligned_eq split: if_splits)
  then show ?thesis
    using string_copy_aliases [OF str_demo_strings(1), of 120 1 "[]"]
    by (fastforce simp: in_place_def abc_buf_def char_fits_def CHAR_MAX_def str_demo_def rt_start_def HEAP_PAGE_SZ_def)
qed

end
