(* ===== verification/Scm_Lists.thy ===== *)
theory Scm_Lists
  imports Scm_Pairs
begin

text \<open>
  The list primitives as a program meets them: \<open>list\<close>, \<open>list?\<close>, \<open>length\<close> and \<open>list-ref\<close> of
  scheme/scm_runtime.c on proper and circular lists, and the list made for a rest parameter.
\<close>

section \<open>What the walks do\<close>


lemma unat_word_of_int_i32: "is_i32 i \<Longrightarrow> 0 \<le> i \<Longrightarrow> unat (word_of_int i :: u32) = nat i"
  by (simp add: unat_eq_nat_uint is_i32_def INT32_MAX_def uint_word_of_int_eq take_bit_int_eq_self)

lemma unat_word_of_int_neg: "is_i32 i \<Longrightarrow> i < 0 \<Longrightarrow> 2 ^ 31 \<le> unat (word_of_int i :: u32)"
proof -
  assume i: "is_i32 i" "i < 0"
  have "uint (word_of_int i :: u32) = (i + 2 ^ 32) mod 2 ^ 32"
    by (simp add: uint_word_of_int)
  also have "\<dots> = i + 2 ^ 32"
    using i by (intro mod_pos_pos_trivial) (simp_all add: is_i32_def INT32_MIN_def)
  finally show ?thesis
    using i by (simp add: unat_eq_nat_uint is_i32_def INT32_MIN_def le_nat_iff)
qed

lemma cons_onto_keeps:
  "cons_onto v ys s = Inr (w, t) \<Longrightarrow> pool_ok (working s) \<Longrightarrow> pool_mem (working s) l = Some c \<Longrightarrow>
     pool_mem (working t) l = Some c"
proof (induction ys arbitrary: v s)
  case (Cons y ys)
  then obtain u' l' where u': "scm_cons y v s = Inr (l', u')" "cons_onto l' ys u' = Inr (w, t)"
    by (auto simp: bnd_eq_Inr)
  obtain i where "new_obj (HPair y v) s = Inr (i, u')"
    using u'(1) by (auto simp: scm_cons_def bnd_eq_Inr)
  then show ?case
    using Cons.IH [OF u'(2) scm_cons_ok [OF Cons.prems(2) u'(1)]] new_obj_keeps Cons.prems(2,3) by blast
qed simp

lemma callable_keeps:
  assumes "callable s k" and "\<And>l c. pool_mem (working s) l = Some c \<Longrightarrow> pool_mem (working t) l = Some c"
  shows "callable t k"
  using assms unfolding callable_def plain_closure_def by blast

lemma cons_onto_idx: "cons_onto v ys s = Inr (w, t) \<Longrightarrow> pool_idx (working t) = pool_idx (working s) + 24 * length ys"
proof (induction ys arbitrary: v s)
  case (Cons y ys)
  then obtain u l i where "new_obj (HPair y v) s = Inr (i, u)" "cons_onto l ys u = Inr (w, t)"
    by (auto simp: bnd_eq_Inr scm_cons_def)
  then show ?case
    using Cons.IH new_objD(1,4) by (fastforce simp: aligned_eq)
qed simp

lemma list_at_tail_n: "list_at s v xs \<Longrightarrow> i \<le> length xs \<Longrightarrow> list_at s (tail_n s v i) (drop i xs)"
proof (induction i)
  case (Suc i)
  then have "list_at s (tail_n s v i) (xs ! i # drop (Suc i) xs)"
    by (simp add: Cons_nth_drop_Suc)
  then show ?case
    by auto
qed simp

lemma circular_not_list:
  assumes "circular s v m p"
  shows "\<not> list_at s v xs"
proof
  assume "list_at s v xs"
  then have "tail_n s v (length xs) = SCM_NULL"
    using list_at_tail_n [of s v xs "length xs"] by simp
  then show False
    using circular_pairs [OF assms, of "length xs"] by (simp add: pair_at_def)
qed

lemma tail_n_cong [simp]: "tail_n (s\<lparr>arg_stk := zs\<rparr>) v i = tail_n s v i"
  by (induction i) simp_all

lemma circular_cong [simp]: "circular (s\<lparr>arg_stk := zs\<rparr>) v m p = circular s v m p"
  by (simp add: circular_def)

lemma race_circular_bound:
  assumes "circular s v m p" and "(m + 1) * p \<le> n"
  shows "\<exists>l. race n v v len s = Inr ((False, l), s)"
proof -
  define q where "q = (m + 1) * p"
  let ?k = "q - 1"
  have p: "0 < p"
    using assms(1) by (simp add: circular_def)
  have "(m + 1) * 1 \<le> (m + 1) * p"
    using p by (intro mult_le_mono2) simp
  then have "m + 1 \<le> q"
    by (simp add: q_def)
  then have k: "?k + 1 = (m + 1) * p" "m \<le> ?k"
    unfolding q_def [symmetric] by linarith+
  have "tail_n s v (2 * ?k + 1) = tail_n s v (?k + (m + 1) * p)"
    using k(1) by (metis add.assoc mult_2)
  also have "\<dots> = tail_n s v ?k"
    by (rule circular_mult [OF assms(1) k(2)])
  finally show ?thesis
    using race_circular [OF assms(1), of 0 ?k n len] k(1) assms(2) by simp
qed

section \<open>Lists and the primitives\<close>

text \<open>
  The arguments collected for a rest parameter are a proper list of them, last pushed first;
  the stack is emptied and the heap stays well formed.
\<close>

theorem cons_rest_list:
  assumes "heap_room (24 * length (arg_stk s)) s"
  shows "\<exists>v t. cons_rest s = Inr (v, t) \<and> list_at t v (rev (arg_stk s)) \<and> arg_stk t = [] \<and>
    pool_ok (working t)"
proof -
  obtain w t where t: "cons_onto SCM_NULL (arg_stk s) s = Inr (w, t)"
    using cons_onto_room [of "arg_stk s" 0 s SCM_NULL] assms by auto
  have "list_at t w (rev (arg_stk s) @ [])" "pool_ok (working t)"
    using cons_onto_list [OF t, of "[]"] assms by (simp_all add: heap_room_def)
  then show ?thesis
    using t by (simp add: cons_rest_def)
qed

lemma cons_rest_list_witness:
  "\<exists>v t. cons_rest (rt_start\<lparr>arg_stk := [3, 2, 1]\<rparr>) = Inr (v, t) \<and> list_at t v [1, 2, 3]"
  using cons_rest_list [of "rt_start\<lparr>arg_stk := [3, 2, 1]\<rparr>"] heap_room_start [of 72 "[3, 2, 1]"]
  by auto

text \<open>
  The primitive \<open>list\<close> allocates its list and loses it: its continuation is entered with
  the void value on an otherwise empty stack.
\<close>

theorem list_result_lost:
  assumes "arg_stk s = xs @ [k]" and "callable s k" and "heap_room (24 * length xs) s"
  shows "\<exists>t. prim_list self s = Inr (k, t) \<and> arg_stk t = [SCM_VOID] \<and>
    pool_idx (working s) + 24 * length xs \<le> pool_idx (working t)"
proof -
  let ?s = "s\<lparr>arg_stk := xs\<rparr>"
  have ok: "pool_ok (working s)"
    using assms(3) by (simp add: heap_room_def)
  obtain w t where t: "cons_onto SCM_NULL xs ?s = Inr (w, t)"
    using cons_onto_room [of xs 0 ?s SCM_NULL] assms(3) by auto
  have "callable t k"
    using callable_keeps [OF assms(2)] cons_onto_keeps [OF t] ok by simp
  then have "prim_list self s = Inr (k, t\<lparr>arg_stk := [SCM_VOID]\<rparr>)"
    using assms(1) t by (simp add: prim_list_def tail_call_callable)
  then show ?thesis
    using cons_onto_idx [OF t] by simp
qed

text \<open>
  C30: \<open>list?\<close> answers \<open>#t\<close> for every proper list and \<open>#f\<close> for every chain of pairs that comes
  back on itself, after at most half the length, or the start times the period, rounds.
\<close>

theorem list_p_decides:
  assumes "arg_stk s = [lst, k]" and "callable s k"
    and "list_at s lst xs \<and> length xs < 2 * fuel \<or> circular s lst m p \<and> (m + 1) * p \<le> fuel"
  shows "prim_list_p fuel self s = Inr (k, s\<lparr>arg_stk := [ITOBOOL (\<exists>xs. list_at s lst xs)]\<rparr>)"
proof -
  let ?s = "s\<lparr>arg_stk := []\<rparr>"
  obtain b l where r: "race fuel lst lst 0 ?s = Inr ((b, l), ?s)" "b = (\<exists>xs. list_at s lst xs)"
  proof (cases "\<exists>xs. list_at s lst xs")
    case True
    then obtain ys where ys: "list_at s lst ys" by blast
    have "\<not> circular s lst m p"
      using circular_not_list [of s lst m p ys] ys by blast
    then obtain xs' where "list_at s lst xs'" "length xs' < 2 * fuel"
      using assms(3) by blast
    then have "length ys div 2 < fuel"
      using list_at_unique [OF ys] by auto
    then show ?thesis
      using race_proper [of ?s lst ys lst ys fuel 0] ys True by (intro that [of True]) simp_all
  next
    case False
    then have c: "circular ?s lst m p" "(m + 1) * p \<le> fuel"
      using assms(3) by (auto simp: circular_cong)
    obtain l where "race fuel lst lst 0 ?s = Inr ((False, l), ?s)"
      using race_circular_bound [OF c] by blast
    then show ?thesis
      using False by (intro that [of False l]) simp_all
  qed
  show ?thesis
    using assms(1) r push_tail_call [of ?s k "ITOBOOL b"] assms(2)
    by (simp add: prim_list_p_def ARG_STACK_LEN_def)
qed

text \<open>A heap with the list (10 20 30), whose last pair may be made to point to its first.\<close>

definition list_demo :: "bool \<Rightarrow> scm_value list \<Rightarrow> rt_state" where
  "list_demo loop xs = rt_start\<lparr>
     working := (working rt_start)\<lparr>pool_idx := 80,
       pool_mem := [8 \<mapsto> Cell 0 (HPair (boxi 10) (heap_value tt_pair 32)),
         32 \<mapsto> Cell 0 (HPair (boxi 20) (heap_value tt_pair 56)),
         56 \<mapsto> Cell 0 (HPair (boxi 30) (if loop then heap_value tt_pair 8 else SCM_NULL))]\<rparr>,
     arg_stk := xs\<rparr>"

abbreviation demo_list :: scm_value where
  "demo_list \<equiv> heap_value tt_pair 8"

lemma list_demo_list: "list_at (list_demo False xs) demo_list (map boxi [10, 20, 30])"
  by (simp add: list_demo_def pair_at_def)

lemma list_demo_circular: "circular (list_demo True xs) demo_list 0 3"
proof -
  have p: "pair_at (list_demo True xs) (heap_value tt_pair 8) = Some (boxi 10, heap_value tt_pair 32)"
    "pair_at (list_demo True xs) (heap_value tt_pair 32) = Some (boxi 20, heap_value tt_pair 56)"
    "pair_at (list_demo True xs) (heap_value tt_pair 56) = Some (boxi 30, heap_value tt_pair 8)"
    by (simp_all add: list_demo_def pair_at_def)
  let ?c = "tail_n (list_demo True xs) demo_list"
  have c: "?c 0 = demo_list" "?c 1 = heap_value tt_pair 32" "?c 2 = heap_value tt_pair 56" "?c 3 = demo_list"
    using p by (simp_all add: numeral_2_eq_2 numeral_3_eq_3)
  have "pair_at (list_demo True xs) (?c i) \<noteq> None" if "i < 3" for i
  proof -
    have "i = 0 \<or> i = 1 \<or> i = 2"
      using that by linarith
    then show ?thesis
      using p c by (elim disjE) simp_all
  qed
  then show ?thesis
    using c by (simp add: circular_def)
qed

lemma list_demo_stk [simp]: "arg_stk (list_demo loop xs) = xs"
  by (simp add: list_demo_def)

lemma list_demo_upd [simp]: "list_demo loop xs\<lparr>arg_stk := ys\<rparr> = list_demo loop ys"
  by (simp add: list_demo_def)

lemma list_p_decides_witness:
  "prim_list_p 3 0 (list_demo False [demo_list, make_function 64])
     = Inr (make_function 64, list_demo False [SCM_TRUE]) \<and>
   prim_list_p 3 0 (list_demo True [demo_list, make_function 64])
     = Inr (make_function 64, list_demo True [SCM_FALSE])"
proof -
  have n: "\<not> (\<exists>xs. list_at (list_demo True ys) demo_list xs)" and l: "\<exists>xs. list_at (list_demo False ys) demo_list xs" for ys
    using circular_not_list [OF list_demo_circular] list_demo_list by blast+
  show ?thesis
    using list_p_decides [of "list_demo False [demo_list, make_function 64]" demo_list "make_function 64"
        "map boxi [10, 20, 30]" 3 0 3 0]
      list_p_decides [of "list_demo True [demo_list, make_function 64]" demo_list "make_function 64" "[]" 3 0 3 0]
      list_demo_list list_demo_circular n l by (simp add: ITOBOOL_def)
qed

lemma list_result_lost_witness:
  "\<exists>t. prim_list 0 (rt_start\<lparr>arg_stk := [2, 1, make_function 64]\<rparr>) = Inr (make_function 64, t) \<and>
     arg_stk t = [SCM_VOID]"
  using list_result_lost [of "rt_start\<lparr>arg_stk := [2, 1, make_function 64]\<rparr>" "[2, 1]" "make_function 64"]
    heap_room_start [of 48 "[2, 1, make_function 64]"] by auto

text \<open>
  \<open>length\<close> of a proper list answers half its length, rounded down: the walk counts the rounds
  of its fast pointer, which takes two pairs at a time.
\<close>

theorem length_halves:
  assumes "arg_stk s = [lst, k]" and "callable s k" and "list_at s lst xs"
    and "length xs < 2 * fuel" and "length xs < 2 ^ 32"
  shows "prim_length fuel self s = Inr (k, s\<lparr>arg_stk := [boxi (int (length xs div 2))]\<rparr>)"
proof -
  let ?s = "s\<lparr>arg_stk := []\<rparr>" and ?n = "length xs div 2"
  have r: "race fuel lst lst 0 ?s = Inr ((True, of_nat ?n), ?s)"
    using race_proper [of ?s lst xs lst xs fuel 0] assms(3,4) by simp
  have n: "?n < 2 ^ 31"
    using assms(5) by simp
  then have "uint (of_nat ?n :: u32) = int ?n"
    by (simp add: uint_nat)
  moreover have "is_i32 (int ?n)"
    using n by (simp add: is_i32_def INT32_MAX_def INT32_MIN_def)
  ultimately have "make_int (uint (of_nat ?n :: u32)) = Inr (boxi (int ?n))"
    using make_int_box by simp
  then show ?thesis
    using assms(1,2) r push_tail_call [of ?s k "boxi (int ?n)"]
    by (simp add: prim_length_def ARG_STACK_LEN_def)
qed

lemma length_halves_witness:
  "prim_length 3 0 (list_demo False [demo_list, make_function 64])
     = Inr (make_function 64, list_demo False [boxi 1])"
  using length_halves [of "list_demo False [demo_list, make_function 64]" demo_list "make_function 64"
      "map boxi [10, 20, 30]" 3 0] list_demo_list by simp

text \<open>
  \<open>list-ref\<close> with an index in range passes on the element, and with one past the end, or a
  negative one, stops with a failed assertion.
\<close>

theorem list_ref_element:
  assumes "arg_stk s = [boxi i, lst, k]" and "callable s k" and "list_at s lst xs"
    and "is_i32 i" and "length xs < 2 ^ 31"
  shows "if 0 \<le> i \<and> nat i < length xs
    then prim_list_ref self s = Inr (k, s\<lparr>arg_stk := [xs ! nat i]\<rparr>)
    else \<exists>m. prim_list_ref self s = Inl (Assert m)"
proof -
  let ?s = "s\<lparr>arg_stk := []\<rparr>" and ?n = "unat (word_of_int i :: u32)"
  have l: "list_at ?s lst xs"
    using assms(3) by simp
  have run: "prim_list_ref self s =
      bnd (nth_tail ?n lst) (\<lambda>l. bnd (car l) (\<lambda>v. bnd (push_arg v) (\<lambda>_. tail_call k))) ?s"
    using assms(1) by (simp add: prim_list_ref_def)
  show ?thesis
  proof (cases "0 \<le> i \<and> nat i < length xs")
    case True
    then have n: "?n = nat i" "?n < length xs"
      using assms(4) by (simp_all add: unat_word_of_int_i32)
    then obtain w where w: "nth_tail ?n lst ?s = Inr (w, ?s)" "list_at ?s w (xs ! ?n # drop (Suc ?n) xs)"
      using list_at_nth_tail [OF l, of ?n] by (auto simp: Cons_nth_drop_Suc)
    then have "car w ?s = Inr (xs ! ?n, ?s)"
      by auto
    then show ?thesis
      using True run w(1) n(1) push_tail_call [of ?s k "xs ! ?n"] assms(2) by (simp add: ARG_STACK_LEN_def)
  next
    case False
    have "length xs \<le> ?n"
    proof (cases "0 \<le> i")
      case True
      then show ?thesis
        using False assms(4) by (simp add: unat_word_of_int_i32)
    next
      case neg: False
      then show ?thesis
        using assms(4,5) unat_word_of_int_neg [of i] by simp
    qed
    then consider "?n = length xs" | "length xs < ?n"
      by linarith
    then show ?thesis
    proof cases
      case 1
      then obtain w where "nth_tail ?n lst ?s = Inr (w, ?s)" "list_at ?s w []"
        using list_at_nth_tail [OF l, of ?n] by auto
      then show ?thesis
        using run False by (simp add: car_def)
    next
      case 2
      then show ?thesis
        using run False list_at_nth_tail_fault [OF l] by simp
    qed
  qed
qed

lemma list_ref_element_witness:
  "prim_list_ref 0 (list_demo False [boxi 2, demo_list, make_function 64])
     = Inr (make_function 64, list_demo False [boxi 30])"
  using list_ref_element [of "list_demo False [boxi 2, demo_list, make_function 64]" 2 demo_list
      "make_function 64" "map boxi [10, 20, 30]" 0] list_demo_list
  by (simp add: is_i32_def INT32_MAX_def INT32_MIN_def)

end
