(* ===== verification/Scm_Control.thy ===== *)
theory Scm_Control
  imports Scm_Vectors Scm_Lists
begin

text \<open>
  Control in scheme/scm_runtime.c: continuations, multiple values, \<open>apply\<close>, the table of
  primitives a program is handed at start-up, and the trampoline. The compiled code is a
  parameter: a function from code addresses to what the code there does.
\<close>

section \<open>Continuations and multiple values\<close>

definition closure_to_continuation :: "scm_value \<Rightarrow> scm_value rt" where
  "closure_to_continuation cc =
     bnd (check (CLOSURE_P cc) ''Type error expected a closure'') (\<lambda>_.
     bnd (deref_closure (GET_OFF cc)) (\<lambda>(_, code, fv).
     bnd (assign (GET_OFF cc) (HClosure True code fv)) (\<lambda>_.
     ret cc)))"

definition prim_call_with_current_continuation :: "scm_value \<Rightarrow> scm_value rt" where
  "prim_call_with_current_continuation self =
     bnd (\<lambda>s. check (chk_args 2 False s) ''arity_error'' s) (\<lambda>_.
     bnd pop_arg (\<lambda>k.
     bnd pop_arg (\<lambda>f.
     bnd (check (PROCEDURE_P f) ''Error Expected Procedure'') (\<lambda>_.
     bnd (closure_to_continuation k) (\<lambda>cc.
     bnd (push_arg cc) (\<lambda>_.
     bnd (push_ref k) (\<lambda>_.
     tail_call f)))))))"

definition call_consumer_with_values :: "scm_value \<Rightarrow> scm_value rt" where
  "call_consumer_with_values self =
     bnd (closure_ref self 0) (\<lambda>k.
     bnd (closure_ref self 1) (\<lambda>consumer.
     bnd (push_ref k) (\<lambda>_.
     tail_call consumer)))"

text \<open>\<open>ccwv\<close> is the address of \<open>call_consumer_with_values\<close>.\<close>

definition prim_call_with_values :: "u64 \<Rightarrow> scm_value \<Rightarrow> scm_value rt" where
  "prim_call_with_values ccwv self =
     bnd (\<lambda>s. check (chk_args 3 False s) ''arity_error'' s) (\<lambda>_.
     bnd pop_arg (\<lambda>k.
     bnd pop_arg (\<lambda>producer.
     bnd pop_arg (\<lambda>consumer.
     bnd (check (PROCEDURE_P producer) ''type error, expected <procedure>'') (\<lambda>_.
     bnd (check (PROCEDURE_P consumer) ''type error, expected <procedure>'') (\<lambda>_.
     bnd (push_arg consumer) (\<lambda>_.
     bnd (push_arg k) (\<lambda>_.
     bnd (push_arg ccwv) (\<lambda>_.
     bnd make_closure (\<lambda>c.
     bnd (push_arg c) (\<lambda>_.
     tail_call producer)))))))))))"

section \<open>Apply\<close>

text \<open>The rest of the list is pushed first, so its first element ends on top.\<close>

fun push_list_args :: "nat \<Rightarrow> scm_value \<Rightarrow> unit rt" where
  "push_list_args 0 lst = fail NoFuel"
| "push_list_args (Suc n) lst =
     (if NULL_P lst then ret ()
      else if PAIR_P lst then
        bnd (deref_pair (GET_OFF lst)) (\<lambda>(_, d).
        bnd (push_list_args n d) (\<lambda>_.
        bnd (deref_pair (GET_OFF lst)) (\<lambda>(a, _).
        push_arg a)))
      else fail (Assert ''type error expected <pair>''))"

definition prim_apply :: "nat \<Rightarrow> scm_value \<Rightarrow> scm_value rt" where
  "prim_apply fuel self =
     bnd (\<lambda>s. check (chk_args 2 True s) ''arity_error'' s) (\<lambda>_.
     bnd pop_arg (\<lambda>k.
     bnd pop_arg (\<lambda>proc.
     bnd (gets arg_stk) (\<lambda>xs.
     if xs = [] then bnd (push_arg k) (\<lambda>_. tail_call proc)
     else
       bnd (cons_onto (hd xs) (tl xs)) (\<lambda>args.
       bnd clear_args (\<lambda>_.
       bnd (push_list_args fuel args) (\<lambda>_.
       bnd (push_arg k) (\<lambda>_.
       tail_call proc))))))))"

section \<open>The table of primitives\<close>

text \<open>The names a program sees, in the order they are pushed, with the functions they name.\<close>

definition module_table :: "(string \<times> string) list" where
  "module_table =
     [(''cons'', ''prim_cons''), (''car'', ''prim_car''), (''cdr'', ''prim_cdr''),
      (''void'', ''prim_void''), (''boolean?'', ''prim_boolean_p''), (''char?'', ''prim_char_p''),
      (''null?'', ''prim_null_p''), (''pair?'', ''prim_pair_p''),
      (''procedure?'', ''prim_procedure_p''), (''symbol?'', ''prim_symbol_p''),
      (''bytevector?'', ''prim_bytevector_p''), (''number?'', ''prim_number_p''),
      (''string?'', ''prim_string_p''), (''vector?'', ''prim_vector_p''),
      (''eq?'', ''prim_eq''), (''eqv?'', ''prim_eqv''), (''equal?'', ''prim_equal''),
      (''+'', ''prim_add''), (''-'', ''prim_sub''), (''*'', ''prim_mul''), (''/'', ''prim_div''),
      (''='', ''prim_num_eq''), (''<'', ''prim_less''), (''>'', ''prim_gr''),
      (''<='', ''prim_leq''), (''>='', ''prim_geq''), (''zero?'', ''prim_zero_p''),
      (''positive?'', ''prim_positive_p''), (''negative?'', ''prim_negative_p''),
      (''char->integer'', ''prim_char_to_integer''), (''integer->char'', ''prim_integer_to_char''),
      (''list'', ''prim_list''), (''list?'', ''prim_list_p''), (''length'', ''prim_length''),
      (''list-ref'', ''prim_list_ref''), (''string'', ''prim_string''),
      (''make-string'', ''prim_make_string''), (''string-copy'', ''prim_string_copy''),
      (''string-length'', ''prim_string_len''), (''string-ref'', ''prim_string_ref''),
      (''string-set!'', ''prim_string_set''), (''string=?'', ''prim_string_eq''),
      (''string<?'', ''prim_string_less''), (''string>?'', ''prim_string_gr''),
      (''string<=?'', ''prim_string_leq''), (''string>=?'', ''prim_string_geq''),
      (''bytevector'', ''prim_bytevector''), (''make-bytevector'', ''prim_make_bytevector''),
      (''bytevector-length'', ''prim_bytevector_len''),
      (''bytevector-u8-ref'', ''prim_bytevector_u8_ref''),
      (''bytevector-u8-set!'', ''prim_bytevector_u8_set''), (''vector'', ''prim_vector''),
      (''make-vector'', ''prim_make_vector''), (''vector-length'', ''prim_vector_len''),
      (''vector-ref'', ''prim_vector_ref''), (''vector-set!'', ''prim_vector_set''),
      (''make-record'', ''prim_make_record''), (''record-ref'', ''prim_record_ref''),
      (''record-set!'', ''prim_record_set''), (''record-meta-ref'', ''prim_record_meta_ref''),
      (''record-meta-set!'', ''prim_record_meta_set''), (''open-fd-ro'', ''prim_open_fd_ro''),
      (''read-fd'', ''prim_read_fd''), (''close-fd'', ''prim_close_fd''),
      (''c/open-file-object'', ''prim_c_open_file_object''),
      (''c/close-file-object'', ''prim_c_close_file_object''), (''newline'', ''prim_newline''),
      (''display'', ''prim_display''), (''write'', ''prim_write''),
      (''call-with-current-continuation'', ''prim_call_with_current_continuation''),
      (''call/cc'', ''prim_call_with_current_continuation''),
      (''call-with-values'', ''prim_call_with_values''), (''apply'', ''prim_apply'')]"

text \<open>\<open>lit\<close> gives the address of a string literal, \<open>fn_addr\<close> that of a function.\<close>

fun push_entries :: "(string \<Rightarrow> u64) \<Rightarrow> (string \<Rightarrow> u64) \<Rightarrow> (string \<times> string) list \<Rightarrow> unit rt" where
  "push_entries lit fn_addr [] = ret ()"
| "push_entries lit fn_addr ((name, fn) # es) =
     bnd (scm_cons (lit name) (make_function (fn_addr fn))) (\<lambda>e.
     bnd (push_arg e) (\<lambda>_.
     push_entries lit fn_addr es))"

definition scm_runtime_load_dynamic :: "(string \<Rightarrow> u64) \<Rightarrow> (string \<Rightarrow> u64) \<Rightarrow> scm_value rt" where
  "scm_runtime_load_dynamic lit fn_addr =
     bnd (push_entries lit fn_addr module_table) (\<lambda>_. primop_vector)"

text \<open>\<open>cstring\<close> reads the string at an address; the entries' names are such addresses.\<close>

fun lookup_from :: "(u64 \<Rightarrow> string) \<Rightarrow> string \<Rightarrow> scm_value option list \<Rightarrow> scm_value rt" where
  "lookup_from cstring name [] = fail (Assert ''error undefined identifier'')"
| "lookup_from cstring name (x # xs) =
     bnd (elem_at [x] 0) (\<lambda>e.
     bnd (deref_pair (GET_OFF e)) (\<lambda>(a, d).
     if cstring a = name then ret d else lookup_from cstring name xs))"

definition scm_module_lookup :: "(u64 \<Rightarrow> string) \<Rightarrow> string \<Rightarrow> scm_value \<Rightarrow> scm_value rt" where
  "scm_module_lookup cstring name m =
     bnd (check (VECTOR_P m) ''type error expected <vector>'') (\<lambda>_.
     bnd (deref_vector (GET_OFF m)) (lookup_from cstring name))"

section \<open>The trampoline\<close>

text \<open>What calling a piece of code does: hand over the next procedure, or leave the loop.\<close>

datatype outcome = Next scm_value | Exit

type_synonym code = "u64 \<Rightarrow> scm_value \<Rightarrow> outcome rt"

definition tl_exit :: "scm_value \<Rightarrow> outcome rt" where
  "tl_exit self = bnd (arity 1 False) (\<lambda>_. ret Exit)"

text \<open>The default handler leaves the process; so does every failed assertion.\<close>

definition default_excption_handler :: "scm_value \<Rightarrow> outcome rt" where
  "default_excption_handler self = fail (Assert ''exit(1)'')"

inductive bounce :: "code \<Rightarrow> scm_value \<times> rt_state \<Rightarrow> scm_value \<times> rt_state \<Rightarrow> bool" for code where
  bounce: "procedure_fn cc s = Inr (fn, s) \<Longrightarrow> code fn cc s = Inr (Next cc', t) \<Longrightarrow>
     bounce code (cc, s) (cc', t)"

inductive_cases bounceE: "bounce code (cc, s) (cc', t)"
inductive_simps bounce_iff: "bounce code (cc, s) (cc', t)"

inductive leaves :: "code \<Rightarrow> scm_value \<times> rt_state \<Rightarrow> rt_state \<Rightarrow> bool" for code where
  leaves: "procedure_fn cc s = Inr (fn, s) \<Longrightarrow> code fn cc s = Inr (Exit, t) \<Longrightarrow>
     leaves code (cc, s) t"

inductive_simps leaves_iff: "leaves code (cc, s) t"

text \<open>The loop of the source, which need not end.\<close>

fun bounce_loop :: "nat \<Rightarrow> code \<Rightarrow> scm_value \<Rightarrow> unit rt" where
  "bounce_loop 0 code cc = fail NoFuel"
| "bounce_loop (Suc n) code cc =
     bnd (procedure_fn cc) (\<lambda>fn.
     bnd (code fn cc) (\<lambda>r. case r of Next cc' \<Rightarrow> bounce_loop n code cc' | Exit \<Rightarrow> ret ()))"

definition trampoline :: "(string \<Rightarrow> u64) \<Rightarrow> (string \<Rightarrow> u64) \<Rightarrow> nat \<Rightarrow> code \<Rightarrow> scm_value \<Rightarrow> unit rt" where
  "trampoline lit fn_addr fuel code cc =
     bnd (scm_runtime_load_dynamic lit fn_addr) (\<lambda>m.
     bnd (push_arg (fn_addr ''tl_exit'')) (\<lambda>_.
     bnd make_closure (\<lambda>kexit.
     bnd (push_arg (fn_addr ''default_excption_handler'')) (\<lambda>_.
     bnd make_closure (\<lambda>h.
     bnd (modify (\<lambda>s. s\<lparr>exception_handler := h\<rparr>)) (\<lambda>_.
     bnd (push_arg m) (\<lambda>_.
     bnd (push_arg kexit) (\<lambda>_.
     bounce_loop fuel code cc))))))))"

section \<open>Lists back on the stack\<close>

lemma push_list_args_list:
  assumes "list_at s v xs" and "length xs < n" and "length (arg_stk s) + length xs \<le> ARG_STACK_LEN"
  shows "push_list_args n v s = Inr ((), s\<lparr>arg_stk := arg_stk s @ rev xs\<rparr>)"
  using assms
proof (induction xs arbitrary: n v)
  case Nil
  then show ?case by (cases n) simp_all
next
  case (Cons x xs)
  then obtain m where m: "n = Suc m" by (cases n) simp_all
  obtain d where d: "pair_at s v = Some (x, d)" "list_at s d xs"
    using Cons.prems(1) by auto
  have dp: "deref_pair (GET_OFF v) u = Inr ((x, d), u)" if "working u = working s" for u
    using d(1) that by (auto simp: pair_at_def deref_pair_def deref_def
        split: if_splits option.splits hcell.splits hobj.splits)
  have "PAIR_P v" "\<not> NULL_P v"
    using pair_at_PAIR_P [OF d(1)] by (simp_all add: PAIR_P_def)
  moreover have "push_list_args m d s = Inr ((), s\<lparr>arg_stk := arg_stk s @ rev xs\<rparr>)"
    using Cons.IH [OF d(2)] Cons.prems(2,3) m by simp
  ultimately show ?case
    using m dp Cons.prems(3) by simp
qed

lemma apply_args:
  assumes stk: "arg_stk s = lst # extra @ [proc, k]" and lst: "list_at s lst ys"
    and room: "heap_room (24 * length extra) s" and fuel: "length extra + length ys < n"
    and fits: "length extra + length ys < ARG_STACK_LEN"
  shows "\<exists>t. prim_apply n self s = tail_call proc t \<and> arg_stk t = rev ys @ extra @ [k] \<and>
    (\<forall>v xs. list_at s v xs \<longrightarrow> list_at t v xs) \<and> heap_room 0 t \<and>
    (\<forall>l c. pool_mem (working s) l = Some c \<longrightarrow> pool_mem (working t) l = Some c)"
proof -
  let ?s1 = "s\<lparr>arg_stk := lst # extra\<rparr>"
  have ok: "pool_ok (working ?s1)" and l1: "list_at ?s1 lst ys"
    using room lst by (simp_all add: heap_room_def)
  obtain w t where t: "cons_onto lst extra ?s1 = Inr (w, t)" "heap_room 0 t"
    using cons_onto_room [of extra 0 ?s1 lst] room by auto
  have w: "list_at t w (rev extra @ ys)" "arg_stk t = lst # extra"
    using cons_onto_list [OF t(1) ok l1] by simp_all
  let ?t1 = "t\<lparr>arg_stk := []\<rparr>"
  have "push_list_args n w ?t1 = Inr ((), ?t1\<lparr>arg_stk := rev (rev extra @ ys)\<rparr>)"
    using push_list_args_list [of ?t1 w "rev extra @ ys" n] w(1) fuel fits by simp
  then have run: "prim_apply n self s = tail_call proc (t\<lparr>arg_stk := rev ys @ extra @ [k]\<rparr>)"
    using stk t(1) w fits by (simp add: prim_apply_def chk_args_def pop_arg_def butlast_append)
  have "list_at t v xs" if "list_at s v xs" for v xs
    using cons_onto_keeps_list [OF t(1) ok, of v xs] that by simp
  moreover have "pool_mem (working t) l = Some c" if "pool_mem (working s) l = Some c" for l c
    using cons_onto_keeps [OF t(1) ok] that by simp
  ultimately show ?thesis
    using run t(2) by (intro exI [of _ "t\<lparr>arg_stk := rev ys @ extra @ [k]\<rparr>"]) simp
qed

section \<open>Closures\<close>

lemma pool_ok_slack:
  "pool_ok p \<Longrightarrow> pool_idx p \<le> i \<Longrightarrow> 8 dvd i \<Longrightarrow> i \<le> pool_sz p \<Longrightarrow> pool_ok (p\<lparr>pool_idx := i\<rparr>)"
  unfolding pool_ok_def by fastforce

text \<open>
  The block is allocated while the code is still on the stack, so it is eight bytes longer
  than the closure.
\<close>

lemma make_closure_room:
  assumes stk: "arg_stk s = fv @ [code]" and room: "heap_room (32 + 8 * length fv + n) s"
    and small: "32 + 8 * length fv \<le> HEAP_PAGE_SZ"
  shows "\<exists>t. make_closure s = Inr (heap_value tt_closure (pool_idx (working s)), t) \<and>
    arg_stk t = [] \<and> pool_idx (working s) < 2 ^ 32 \<and> heap_room n t \<and>
    pool_mem (working t) = (pool_mem (working s))(pool_idx (working s) \<mapsto>
      Cell 0 (HClosure False code (map Some (rev fv))))"
proof -
  let ?ob = "HClosure False code (map Some (rev fv))" and ?i = "pool_idx (working s)"
  let ?k = "32 + 8 * length fv"
  have "8 dvd ?k"
    by presburger
  then have k: "aligned ?k = ?k" "aligned (obj_size ?ob) = obj_size ?ob" "obj_size ?ob + 8 = ?k"
    by (auto simp: aligned_id simp del: aligned_div)
  have S: "pool_ok (working s)" "?i + ?k + n < 2 ^ 32" "pool_sz (working s) < 2 ^ 34"
    "HEAP_PAGE_SZ \<le> pool_sz (working s)"
    using room by (simp_all add: heap_room_def)
  obtain t where t: "scm_heap_alloc ?k s = Inr (?i, t)"
    using scm_heap_alloc_total scm_heap_allocD(1) by metis
  note D = scm_heap_allocD [OF t]
  have fits: "?i + ?k \<le> pool_sz (working t)"
    using scm_heap_alloc_fits [OF t S(1)] S small k(1) by simp
  have un: "unat (of_nat (pool_sz (working s)) - of_nat ?i :: u64) = pool_sz (working s) - ?i"
    using S by (intro unat_diff_u64) (simp_all add: pool_ok_def)
  have sz: "pool_sz (working t) < 2 ^ 34" "pool_sz (working s) \<le> pool_sz (working t)"
    using t S un small k(1) by (auto simp: scm_heap_alloc_def Let_def HEAP_PAGE_SZ_def split: if_splits)
  let ?w = "(working t)\<lparr>pool_mem := (pool_mem (working s))(?i \<mapsto> Cell 0 ?ob)\<rparr>"
  let ?t = "t\<lparr>arg_stk := [], working := ?w\<rparr>"
  have "write_new ?i ?ob (t\<lparr>arg_stk := []\<rparr>) = Inr ((), ?t)"
    using fits k(3) S(2) D(3) by (simp add: write_new_def Let_def)
  moreover have "length (arg_stk s) = length fv + 1"
    using stk by simp
  ultimately have run: "make_closure s = Inr (heap_value tt_closure ?i, ?t)"
    using t D(4) stk by (simp add: make_closure_def add.assoc)
  have "?w = (working s)\<lparr>pool_sz := pool_sz (working t), pool_idx := ?i + aligned (obj_size ?ob),
      pool_base := pool_base (working t), pool_mem := (pool_mem (working s))(?i \<mapsto> Cell 0 ?ob)\<rparr>
      \<lparr>pool_idx := ?i + ?k\<rparr>"
    using D(2) k(1) by simp
  moreover have "pool_ok \<dots>"
    using pool_ok_extend [OF S(1), where ob = ?ob and sz' = "pool_sz (working t)"
        and b = "pool_base (working t)" and f = 0] S(2) fits k(2,3)
    by (intro pool_ok_slack) (auto simp: pool_ok_def)
  ultimately have "pool_ok ?w"
    by simp
  then have "heap_room n ?t"
    using sz S D(2) k(1) by (simp add: heap_room_def)
  then show ?thesis
    using run S(2) by (intro exI [of _ ?t]) simp
qed

section \<open>Continuations\<close>

lemma tail_call_continuation:
  assumes "CLOSURE_P k" and "pool_mem (working u) (GET_OFF k) = Some (Cell g (HClosure True code fv))"
  shows "tail_call k u =
    (case arg_stk u of
       [] \<Rightarrow> Inl (Assert ''ARG STACK UNDERFLOW'')
     | x # xs \<Rightarrow> Inr (k, u\<lparr>arg_stk := (if xs = [] then [SCM_VOID] else butlast (x # xs))\<rparr>))"
proof -
  have "\<not> BOX_P k" "PROCEDURE_P k"
    using assms(1) by (simp_all add: scm_preds PROCEDURE_P_def)
  moreover have "CONTINUATION_P k u = Inr (True, u)"
    using assms by (simp add: CONTINUATION_P_def heap_access)
  ultimately show ?thesis
    by (auto simp: tail_call_def pop_arg_def push_arg_def ARG_STACK_LEN_def split: list.splits)
qed

lemma call_cc_run:
  assumes stk: "arg_stk s = [f, k]" and f: "callable s f" and fk: "GET_OFF f \<noteq> GET_OFF k \<or> FUNCTION_P f"
    and k: "CLOSURE_P k" "pool_mem (working s) (GET_OFF k) = Some (Cell g (HClosure c code fv))"
  shows "\<exists>t. prim_call_with_current_continuation self s = Inr (f, t) \<and> arg_stk t = [k, k] \<and>
    pool_mem (working t) (GET_OFF k) = Some (Cell g (HClosure True code fv)) \<and>
    (\<forall>l. l \<noteq> GET_OFF k \<longrightarrow> pool_mem (working t) l = pool_mem (working s) l)"
proof -
  let ?w = "(working s)\<lparr>pool_mem := (pool_mem (working s))(GET_OFF k \<mapsto> Cell g (HClosure True code fv))\<rparr>"
  let ?t = "s\<lparr>working := ?w, arg_stk := [k, k]\<rparr>"
  have nb: "\<not> BOX_P k"
    using k(1) by (simp add: scm_preds)
  have pf: "PROCEDURE_P f"
    using f by (auto simp: callable_def plain_closure_def PROCEDURE_P_def)
  have "callable ?t f"
    using f fk by (auto simp: callable_def plain_closure_def)
  then have tc: "tail_call f ?t = Inr (f, ?t)"
    by (simp add: tail_call_callable)
  have "prim_call_with_current_continuation self s = tail_call f ?t"
    using stk k nb pf by (simp add: prim_call_with_current_continuation_def chk_args_def
        closure_to_continuation_def push_ref_def heap_access ARG_STACK_LEN_def push_arg_def)
  then show ?thesis
    using tc by (intro exI [of _ ?t]) simp
qed

section \<open>Several values\<close>

lemma call_with_values_run:
  assumes stk: "arg_stk s = [consumer, producer, k]" and room: "heap_room (48 + n) s"
    and p: "callable s producer" and c: "PROCEDURE_P consumer"
  shows "\<exists>t off. prim_call_with_values ccwv self s = Inr (producer, t) \<and>
    arg_stk t = [heap_value tt_closure off] \<and> off < 2 ^ 32 \<and> heap_room n t \<and>
    pool_mem (working t) off = Some (Cell 0 (HClosure False ccwv [Some k, Some consumer])) \<and>
    (\<forall>l x. pool_mem (working s) l = Some x \<longrightarrow> pool_mem (working t) l = Some x)"
proof -
  let ?ob = "HClosure False ccwv [Some k, Some consumer]"
  let ?s3 = "s\<lparr>arg_stk := [consumer, k, ccwv]\<rparr>" and ?off = "pool_idx (working s)"
  have r: "heap_room (32 + 8 * length [consumer, k] + n) ?s3"
    using room by (simp add: eval_nat_numeral)
  obtain t where mc: "make_closure ?s3 = Inr (heap_value tt_closure ?off, t)" and t: "arg_stk t = []"
    "?off < 2 ^ 32" "heap_room n t"
    "pool_mem (working t) = (pool_mem (working s))(?off \<mapsto> Cell 0 ?ob)"
    using make_closure_room [OF _ r, of ccwv] by (auto simp: HEAP_PAGE_SZ_def)
  have ok: "pool_ok (working s)"
    using room by (simp add: heap_room_def)
  have old: "pool_mem (working t) l = Some x" if "pool_mem (working s) l = Some x" for l x
    using that t(4) pool_ok_below [OF ok that] by simp
  have pt: "callable (t\<lparr>arg_stk := ys\<rparr>) producer" for ys
    using p old by (auto simp: callable_def plain_closure_def)
  have pp: "PROCEDURE_P producer"
    using p by (auto simp: callable_def plain_closure_def PROCEDURE_P_def)
  have "prim_call_with_values ccwv self s = Inr (producer, t\<lparr>arg_stk := [heap_value tt_closure ?off]\<rparr>)"
    using stk pp c mc t(1) tail_call_callable [OF pt [of "[heap_value tt_closure ?off]"]]
    by (simp add: prim_call_with_values_def chk_args_def push_arg_def ARG_STACK_LEN_def)
  then show ?thesis
    using old t
    by (intro exI [of _ "t\<lparr>arg_stk := [heap_value tt_closure ?off]\<rparr>"] exI [of _ ?off]) simp
qed

lemma consumer_called:
  assumes c: "pool_mem (working u) off = Some (Cell g (HClosure False ccwv [Some k, Some consumer]))"
    and off: "off < 2 ^ 32" and k: "\<not> BOX_P k" and cons: "callable u consumer"
    and room: "length (arg_stk u) < ARG_STACK_LEN"
  shows "call_consumer_with_values (heap_value tt_closure off) u =
    Inr (consumer, u\<lparr>arg_stk := arg_stk u @ [k]\<rparr>)"
  using assms tail_call_callable [of "u\<lparr>arg_stk := arg_stk u @ [k]\<rparr>" consumer]
  by (simp add: call_consumer_with_values_def closure_ref_def push_ref_def deref_closure_def deref_def
      elem_at_def)

section \<open>The table of primitives, loaded\<close>

abbreviation entry_at :: "(string \<Rightarrow> u64) \<Rightarrow> (string \<Rightarrow> u64) \<Rightarrow> rt_state \<Rightarrow> scm_value \<Rightarrow> string \<times> string \<Rightarrow> bool" where
  "entry_at lit fn_addr s v e \<equiv> pair_at s v = Some (lit (fst e), make_function (fn_addr (snd e)))"

lemma entries_mono:
  "list_all2 (entry_at lit fn_addr s) vs es \<Longrightarrow>
     (\<And>v p. pair_at s v = Some p \<Longrightarrow> pair_at t v = Some p) \<Longrightarrow> list_all2 (entry_at lit fn_addr t) vs es"
  by (erule list_all2_mono) auto

lemma push_entries_run:
  assumes "heap_room (24 * length es + n) s" and "length (arg_stk s) + length es \<le> ARG_STACK_LEN"
  shows "\<exists>t vs. push_entries lit fn_addr es s = Inr ((), t) \<and> heap_room n t \<and>
    arg_stk t = arg_stk s @ vs \<and> list_all2 (entry_at lit fn_addr t) vs es \<and>
    (\<forall>v p. pair_at s v = Some p \<longrightarrow> pair_at t v = Some p)"
  using assms
proof (induction es arbitrary: s)
  case Nil
  then show ?case by auto
next
  case (Cons e es)
  obtain nm fn where e: "e = (nm, fn)"
    by (cases e)
  have "heap_room (24 + (24 * length es + n)) s"
    using Cons.prems(1) by (simp add: add.assoc)
  then obtain w u where u: "scm_cons (lit nm) (make_function (fn_addr fn)) s = Inr (w, u)"
    "heap_room (24 * length es + n) u"
    using scm_cons_room by blast
  have ok: "pool_ok (working s)"
    using Cons.prems(1) by (simp add: heap_room_def)
  obtain i where i: "new_obj (HPair (lit nm) (make_function (fn_addr fn))) s = Inr (i, u)"
    "w = heap_value tt_pair i"
    using u(1) by (auto simp: scm_cons_def bnd_eq_Inr)
  have pw: "pair_at u w = Some (lit nm, make_function (fn_addr fn))"
  proof -
    have "8 \<le> i"
      using new_objD(1) [OF i(1)] ok by (simp add: pool_ok_def)
    then show ?thesis
      using new_objD(2,3) [OF i(1)] i(2) by (simp add: pair_at_def)
  qed
  have su: "arg_stk u = arg_stk s"
    using scm_cons_keeps [OF u(1)] .
  let ?u = "u\<lparr>arg_stk := arg_stk s @ [w]\<rparr>"
  obtain t vs where t: "push_entries lit fn_addr es ?u = Inr ((), t)" "heap_room n t"
    "arg_stk t = arg_stk ?u @ vs" "list_all2 (entry_at lit fn_addr t) vs es"
    "\<forall>v p. pair_at ?u v = Some p \<longrightarrow> pair_at t v = Some p"
    using Cons.IH [of ?u] u(2) Cons.prems(2) by auto
  have "push_arg w u = Inr ((), ?u)"
    using su Cons.prems(2) by simp
  then have "push_entries lit fn_addr (e # es) s = Inr ((), t)"
    using u(1) t(1) e by simp
  moreover have "pair_at t v = Some p" if "pair_at s v = Some p" for v p
    using pair_at_new_obj [OF i(1) ok that] t(5) by (cases p) simp
  ultimately show ?case
    using t(2,3,4,5) pw e by (intro exI [of _ t] exI [of _ "w # vs"]) auto
qed

lemma primop_vector_run:
  assumes "heap_room (8 + 8 * length (arg_stk s) + n) s" and "8 + 8 * length (arg_stk s) \<le> HEAP_PAGE_SZ"
  shows "\<exists>t i. primop_vector s = Inr (heap_value tt_vector i, t) \<and> i < 2 ^ 32 \<and> arg_stk t = [] \<and>
    (\<exists>f. pool_mem (working t) i = Some (Cell f (HVector (map Some (rev (arg_stk s)))))) \<and>
    (\<forall>v p. pair_at s v = Some p \<longrightarrow> pair_at t v = Some p) \<and> heap_room n t"
proof -
  let ?ob = "HVector (replicate (length (arg_stk s)) None)" and ?i = "pool_idx (working s)"
  have "8 dvd 8 + 8 * length (arg_stk s)"
    by presburger
  then have a: "aligned (obj_size ?ob) = 8 + 8 * length (arg_stk s)"
    by simp
  obtain t where t: "new_obj ?ob s = Inr (?i, t)" "heap_room n t"
    using new_obj_room [of ?ob n s] assms a by auto
  note D = new_objD [OF t(1)]
  have ok: "pool_ok (working s)"
    using assms(1) by (simp add: heap_room_def)
  let ?t = "t\<lparr>arg_stk := [], working := (working t)\<lparr>pool_mem :=
    (pool_mem (working t))(?i \<mapsto> Cell 0 (HVector (map Some (rev (arg_stk s)))))\<rparr>\<rparr>"
  have run: "primop_vector s = Inr (heap_value tt_vector ?i, ?t)"
    using t(1) D(3,5) by (simp add: primop_vector_def make_vector_def vector_store_def assign_def)
  have "pair_at ?t v = Some p" if p: "pair_at s v = Some p" for v p
  proof -
    obtain c where "pool_mem (working s) (GET_OFF v) = Some c"
      using p by (auto simp: pair_at_def split: if_splits option.splits)
    then have "GET_OFF v \<noteq> ?i"
      using pool_ok_below [OF ok] by fastforce
    then show ?thesis
      using p D(3) by (auto simp: pair_at_def split: if_splits)
  qed
  moreover have "heap_room n ?t"
    using t(2) D(3) pool_ok_assign [of "working t" ?i "Cell 0 ?ob" "HVector (map Some (rev (arg_stk s)))" 0]
    by (simp add: heap_room_def)
  ultimately show ?thesis
    using run D(2) by (intro exI [of _ ?t] exI [of _ ?i]) auto
qed

lemma deref_pair_at: "pair_at s v = Some p \<Longrightarrow> deref_pair (GET_OFF v) s = Inr (p, s)"
  by (auto simp: pair_at_def deref_pair_def deref_def split: if_splits option.splits hcell.splits hobj.splits)

lemma lookup_from_entries:
  assumes "list_all2 (entry_at lit fn_addr s) vs es" and "\<And>nm. nm \<in> fst ` set es \<Longrightarrow> cstring (lit nm) = nm"
  shows "lookup_from cstring name (map Some vs) s =
    (case map_of es name of
       Some fn \<Rightarrow> Inr (make_function (fn_addr fn), s)
     | None \<Rightarrow> Inl (Assert ''error undefined identifier''))"
  using assms
proof (induction vs es rule: list_all2_induct)
  case (Cons v vs e es)
  have "cstring (lit (fst e)) = fst e"
    using Cons.prems by simp
  then show ?case
    using Cons deref_pair_at [of s v] by (cases e) (auto simp: elem_at_def)
qed simp

lemma module_table_distinct: "distinct (map fst module_table)"
  by code_simp

lemma map_of_rev_eq: "distinct (map fst xs) \<Longrightarrow> map_of (rev xs) = map_of xs"
proof -
  assume d: "distinct (map fst xs)"
  then have "distinct (map fst (rev xs))"
    by (simp add: rev_map [symmetric])
  then show ?thesis
    using d map_of_inject_set [of "rev xs" xs] by simp
qed

lemma module_table_length: "length module_table = 73"
  by (simp add: module_table_def)

lemma load_dynamic_run:
  assumes room: "heap_room 4000 s" and stk: "arg_stk s = []"
    and lit: "\<And>nm. nm \<in> fst ` set module_table \<Longrightarrow> cstring (lit nm) = nm"
  shows "\<exists>m t. scm_runtime_load_dynamic lit fn_addr s = Inr (m, t) \<and> arg_stk t = [] \<and> heap_room 500 t \<and>
    (\<forall>name u. (\<forall>l c. pool_mem (working t) l = Some c \<longrightarrow> pool_mem (working u) l = Some c) \<longrightarrow> scm_module_lookup cstring name m u =
      (case map_of module_table name of
         Some fn \<Rightarrow> Inr (make_function (fn_addr fn), u)
       | None \<Rightarrow> Inl (Assert ''error undefined identifier'')))"
proof -
  have r: "heap_room (24 * length module_table + 2000) s"
    using room by (simp add: module_table_length heap_room_def)
  obtain u vs where u: "push_entries lit fn_addr module_table s = Inr ((), u)" "heap_room 2000 u"
    "arg_stk u = vs" "list_all2 (entry_at lit fn_addr u) vs module_table"
    using push_entries_run [OF r, of lit fn_addr] stk by (auto simp: module_table_length ARG_STACK_LEN_def)
  have len: "length vs = 73"
    using list_all2_lengthD [OF u(4)] by (simp add: module_table_length)
  have r2: "heap_room (8 + 8 * length (arg_stk u) + 500) u"
    using u(2) len u(3) by (simp add: heap_room_def)
  obtain t i where t: "primop_vector u = Inr (heap_value tt_vector i, t)" "i < 2 ^ 32"
    "\<exists>f. pool_mem (working t) i = Some (Cell f (HVector (map Some (rev vs))))"
    "\<forall>v p. pair_at u v = Some p \<longrightarrow> pair_at t v = Some p" "arg_stk t = []" "heap_room 500 t"
    using primop_vector_run [OF r2] len u(3) by (auto simp: HEAP_PAGE_SZ_def)
  have "map_of (rev module_table) = map_of module_table"
    using map_of_rev_eq [OF module_table_distinct] .
  then have "scm_module_lookup cstring name (heap_value tt_vector i) w =
      (case map_of module_table name of
         Some fn \<Rightarrow> Inr (make_function (fn_addr fn), w)
       | None \<Rightarrow> Inl (Assert ''error undefined identifier''))"
    if w: "\<And>l c. pool_mem (working t) l = Some c \<Longrightarrow> pool_mem (working w) l = Some c" for name w
  proof -
    have "pair_at w v = Some p" if "pair_at t v = Some p" for v p
      using that w [of "GET_OFF v"] by (auto simp: pair_at_def split: if_splits option.splits)
    then have "list_all2 (entry_at lit fn_addr w) vs module_table"
      using entries_mono [OF entries_mono [OF u(4)], of t w] t(4) by blast
    then have es: "list_all2 (entry_at lit fn_addr w) (rev vs) (rev module_table)"
      by simp
    have vec: "deref_vector i w = Inr (map Some (rev vs), w)"
      using t(3) w [of i] by (auto simp: deref_vector_def deref_def)
    show ?thesis
      using lookup_from_entries [OF es, of cstring name] lit vec t(2) \<open>map_of (rev module_table) = _\<close>
      by (simp add: scm_module_lookup_def VECTOR_P_def)
  qed
  moreover have "scm_runtime_load_dynamic lit fn_addr s = Inr (heap_value tt_vector i, t)"
    using u(1) t(1) by (simp add: scm_runtime_load_dynamic_def)
  ultimately show ?thesis
    using t(5,6) by blast
qed

section \<open>The loop as a sequence of bounces\<close>

lemma procedure_fn_state: "procedure_fn cc s = Inr (fn, t) \<Longrightarrow> t = s"
  by (auto simp: procedure_fn_def bnd_eq_Inr deref_closure_def deref_def confusion_def
      split: if_splits option.splits hobj.splits)

lemma bounce_det: "bounce code x y \<Longrightarrow> bounce code x z \<Longrightarrow> y = z"
  by (cases x) (auto elim!: bounce.cases)

lemma bounce_not_leaves: "bounce code x y \<Longrightarrow> \<not> leaves code x t"
  by (auto elim!: bounce.cases leaves.cases)

lemma bounce_loop_Suc:
  "bounce_loop (Suc n) code cc s = Inr ((), t) \<longleftrightarrow>
     leaves code (cc, s) t \<or>
     (\<exists>cc' u. bounce code (cc, s) (cc', u) \<and> bounce_loop n code cc' u = Inr ((), t))"
proof (cases "procedure_fn cc s")
  case (Inr p)
  then obtain fn where fn: "procedure_fn cc s = Inr (fn, s)"
    using procedure_fn_state by (cases p) blast
  show ?thesis
  proof (cases "code fn cc s")
    case (Inr q)
    then show ?thesis
      using fn by (cases q; cases "fst q") (auto simp: bounce_iff leaves_iff)
  qed (use fn in \<open>auto simp: bounce_iff leaves_iff\<close>)
qed (auto simp: bounce_iff leaves_iff)

lemma bounce_loop_reaches:
  "bounce_loop n code cc s = Inr ((), t) \<Longrightarrow>
     \<exists>x. (bounce code)\<^sup>*\<^sup>* (cc, s) x \<and> leaves code x t"
proof (induction n arbitrary: cc s)
  case (Suc n)
  then show ?case
    using bounce_loop_Suc [of n code cc s t] by (meson converse_rtranclp_into_rtranclp rtranclp.rtrancl_refl)
qed simp

lemma reaches_bounce_loop:
  "(bounce code)\<^sup>*\<^sup>* (cc, s) x \<Longrightarrow> leaves code x t \<Longrightarrow> \<exists>n. bounce_loop n code cc s = Inr ((), t)"
proof (induction "(cc, s)" arbitrary: cc s rule: converse_rtranclp_induct)
  case base
  then show ?case
    using bounce_loop_Suc [of 0] by blast
next
  case (step z)
  obtain cc' u where z: "z = (cc', u)"
    by (cases z)
  then obtain n where "bounce_loop n code cc' u = Inr ((), t)"
    using step by blast
  then show ?case
    using bounce_loop_Suc [of n code cc s t] step(1) z by blast
qed

lemma bounce_loop_more:
  "bounce_loop n code cc s = Inr ((), t) \<Longrightarrow> n \<le> m \<Longrightarrow> bounce_loop m code cc s = Inr ((), t)"
proof (induction n arbitrary: m cc s)
  case (Suc n)
  then obtain k where "m = Suc k" "n \<le> k"
    by (cases m) auto
  then show ?case
    using Suc bounce_loop_Suc by blast
qed simp

text \<open>What every piece of code keeps, the trampoline keeps.\<close>

lemma bounce_invariant:
  assumes "\<And>fn cc s r t. P s \<Longrightarrow> code fn cc s = Inr (r, t) \<Longrightarrow> P t"
    and "(bounce code)\<^sup>*\<^sup>* (cc, s) (cc', t)" and "P s"
  shows "P t"
proof -
  have "(bounce code)\<^sup>*\<^sup>* x y \<Longrightarrow> P (snd x) \<Longrightarrow> P (snd y)" for x y
    by (induction rule: rtranclp_induct) (auto elim!: bounce.cases dest: assms(1))
  from this [OF assms(2)] assms(3) show ?thesis
    by simp
qed

end
