(* ===== verification/Scm_Program.thy ===== *)
theory Scm_Program
  imports Scm_Control
begin

text \<open>
  What control in scheme/scm_runtime.c means for a program: \<open>apply\<close>, continuations, several
  values, the lookup of primitives, and the run of the trampoline from its start to its end.
\<close>


section \<open>Properties of control\<close>

text \<open>
  C31: \<open>apply\<close> enters the procedure with its continuation on top of the stack and below it the
  arguments in the order a direct call leaves them: first the operands between the procedure and the
  list, then the elements of the list.
\<close>

theorem apply_spreads:
  assumes "arg_stk s = lst # extra @ [proc, k]" and "list_at s lst ys" and "callable s proc"
    and "heap_room (24 * length extra) s" and "length extra + length ys < n"
    and "length extra + length ys < ARG_STACK_LEN"
  shows "\<exists>t. prim_apply n self s = Inr (proc, t) \<and> arg_stk t = rev (k # rev extra @ ys)"
proof -
  obtain t where t: "prim_apply n self s = tail_call proc t" "arg_stk t = rev ys @ extra @ [k]"
    "\<And>l c. pool_mem (working s) l = Some c \<Longrightarrow> pool_mem (working t) l = Some c"
    using apply_args [OF assms(1,2,4-6)] by blast
  have "callable t proc"
    using callable_keeps [OF assms(3)] t(3) by blast
  then have "tail_call proc t = Inr (proc, t\<lparr>arg_stk := (if arg_stk t = [] then [SCM_VOID] else arg_stk t)\<rparr>)"
    by (rule tail_call_callable)
  then show ?thesis
    using t(1,2) by simp
qed

lemma apply_spreads_witness:
  "\<exists>t. prim_apply 5 0 (list_demo False [demo_list, boxi 5, make_function 72, make_function 64])
     = Inr (make_function 72, t) \<and> arg_stk t = [boxi 30, boxi 20, boxi 10, boxi 5, make_function 64]"
proof -
  have "pool_ok (working (list_demo False xs))" for xs
    by (auto simp: pool_ok_def list_demo_def rt_start_def HEAP_PAGE_SZ_def aligned_eq split: if_splits)
  then have "heap_room 24 (list_demo False xs)" for xs
    by (simp add: heap_room_def) (simp add: list_demo_def rt_start_def HEAP_PAGE_SZ_def)
  then show ?thesis
    using apply_spreads [of "list_demo False [demo_list, boxi 5, make_function 72, make_function 64]"
        demo_list "[boxi 5]" "make_function 72" "make_function 64" "map boxi [10, 20, 30]" 5 0]
      list_demo_list by (simp add: ARG_STACK_LEN_def)
qed

text \<open>
  C32: \<open>call/cc\<close> enters its procedure with the current continuation as both its argument and its
  continuation, now marked as one. From any later state in which it still is marked, a call of it
  with one value drops the continuation of the caller and passes on the value alone.
\<close>

theorem call_cc_escapes:
  assumes "arg_stk s = [f, k]" and "callable s f" and "GET_OFF f \<noteq> GET_OFF k \<or> FUNCTION_P f"
    and "CLOSURE_P k" and "pool_mem (working s) (GET_OFF k) = Some (Cell g (HClosure c code fv))"
  shows "\<exists>t. prim_call_with_current_continuation self s = Inr (f, t) \<and> arg_stk t = [k, k] \<and>
    (\<forall>u v k'. pool_mem (working u) (GET_OFF k) = pool_mem (working t) (GET_OFF k) \<longrightarrow>
      arg_stk u = [v, k'] \<longrightarrow> tail_call k u = Inr (k, u\<lparr>arg_stk := [v]\<rparr>))"
proof -
  obtain t where t: "prim_call_with_current_continuation self s = Inr (f, t)" "arg_stk t = [k, k]"
    "pool_mem (working t) (GET_OFF k) = Some (Cell g (HClosure True code fv))"
    using call_cc_run [OF assms] by blast
  then show ?thesis
    using tail_call_continuation [OF assms(4)] by auto
qed

text \<open>
  The procedure given to \<open>call/cc\<close> cannot return a value the ordinary way: its continuation
  is the marked one, so a return (push the value, tail-call the continuation) drops the value, and
  what follows sees the void value.
\<close>

theorem call_cc_return_lost:
  assumes "arg_stk s = [f, k]" and "callable s f" and "GET_OFF f \<noteq> GET_OFF k \<or> FUNCTION_P f"
    and "CLOSURE_P k" and "pool_mem (working s) (GET_OFF k) = Some (Cell g (HClosure c code fv))"
  shows "\<exists>t. prim_call_with_current_continuation self s = Inr (f, t) \<and>
    (\<forall>u v. pool_mem (working u) (GET_OFF k) = pool_mem (working t) (GET_OFF k) \<longrightarrow>
      arg_stk u = [] \<longrightarrow> bnd (push_arg v) (\<lambda>_. tail_call k) u = Inr (k, u\<lparr>arg_stk := [SCM_VOID]\<rparr>))"
proof -
  obtain t where t: "prim_call_with_current_continuation self s = Inr (f, t)"
    "pool_mem (working t) (GET_OFF k) = Some (Cell g (HClosure True code fv))"
    using call_cc_run [OF assms] by blast
  have "bnd (push_arg v) (\<lambda>_. tail_call k) u = Inr (k, u\<lparr>arg_stk := [SCM_VOID]\<rparr>)"
    if "pool_mem (working u) (GET_OFF k) = pool_mem (working t) (GET_OFF k)" "arg_stk u = []" for u v
    using tail_call_continuation [OF assms(4), of "u\<lparr>arg_stk := [v]\<rparr>" g code fv] that t(2)
    by (simp add: ARG_STACK_LEN_def)
  then show ?thesis
    using t(1) by blast
qed

text \<open>A heap with one closure, at offset 8, and the values on the stack.\<close>

definition clos_demo :: "scm_value list \<Rightarrow> rt_state" where
  "clos_demo xs = rt_start\<lparr>working := (working rt_start)\<lparr>pool_idx := 32,
     pool_mem := [8 \<mapsto> Cell 0 (HClosure False 64 [])]\<rparr>, arg_stk := xs\<rparr>"

lemma clos_demo_k: "CLOSURE_P (heap_value tt_closure 8)"
  "pool_mem (working (clos_demo xs)) (GET_OFF (heap_value tt_closure 8)) = Some (Cell 0 (HClosure False 64 []))"
  by (simp_all add: CLOSURE_P_def clos_demo_def)

lemma FUNCTION_P_make [simp]: "unat a < 2 ^ 48 \<Longrightarrow> FUNCTION_P (make_function a)"
  by (simp add: FUNCTION_P_def make_function_def)

lemma call_cc_escapes_witness:
  "\<exists>t. prim_call_with_current_continuation 0 (clos_demo [make_function 72, heap_value tt_closure 8])
       = Inr (make_function 72, t) \<and>
     tail_call (heap_value tt_closure 8) (t\<lparr>arg_stk := [boxi 7, 99]\<rparr>)
       = Inr (heap_value tt_closure 8, t\<lparr>arg_stk := [boxi 7]\<rparr>)"
proof -
  obtain t where t: "prim_call_with_current_continuation 0 (clos_demo [make_function 72, heap_value tt_closure 8])
      = Inr (make_function 72, t)"
    "\<forall>u v k'. pool_mem (working u) (GET_OFF (heap_value tt_closure 8)) = pool_mem (working t) (GET_OFF (heap_value tt_closure 8)) \<longrightarrow>
      arg_stk u = [v, k'] \<longrightarrow> tail_call (heap_value tt_closure 8) u = Inr (heap_value tt_closure 8, u\<lparr>arg_stk := [v]\<rparr>)"
    using call_cc_escapes [OF _ _ _ clos_demo_k, of "[make_function 72, heap_value tt_closure 8]" "make_function 72" 0]
    by (auto simp: clos_demo_def)
  then show ?thesis
    by (intro exI [of _ t]) auto
qed

lemma call_cc_return_lost_witness:
  "\<exists>t. prim_call_with_current_continuation 0 (clos_demo [make_function 72, heap_value tt_closure 8])
       = Inr (make_function 72, t) \<and>
     bnd (push_arg (boxi 7)) (\<lambda>_. tail_call (heap_value tt_closure 8)) (t\<lparr>arg_stk := []\<rparr>)
       = Inr (heap_value tt_closure 8, t\<lparr>arg_stk := [SCM_VOID]\<rparr>)"
proof -
  obtain t where t: "prim_call_with_current_continuation 0 (clos_demo [make_function 72, heap_value tt_closure 8])
      = Inr (make_function 72, t)"
    "\<forall>u v. pool_mem (working u) (GET_OFF (heap_value tt_closure 8)) = pool_mem (working t) (GET_OFF (heap_value tt_closure 8)) \<longrightarrow>
      arg_stk u = [] \<longrightarrow> bnd (push_arg v) (\<lambda>_. tail_call (heap_value tt_closure 8)) u
        = Inr (heap_value tt_closure 8, u\<lparr>arg_stk := [SCM_VOID]\<rparr>)"
    using call_cc_return_lost [OF _ _ _ clos_demo_k, of "[make_function 72, heap_value tt_closure 8]" "make_function 72" 0]
    by (auto simp: clos_demo_def)
  then show ?thesis
    by (intro exI [of _ t]) auto
qed

text \<open>
  \<open>call-with-values\<close> enters the producer with a fresh continuation. In any later state that
  keeps the heap, whatever values the producer leaves on the stack, that continuation calls the
  consumer on them with the original continuation on top.
\<close>

theorem call_with_values_joins:
  assumes "arg_stk s = [consumer, producer, k]" and "heap_room 48 s"
    and "callable s producer" and "callable s consumer" and "\<not> BOX_P k"
  shows "\<exists>c t. prim_call_with_values ccwv self s = Inr (producer, t) \<and> arg_stk t = [c] \<and>
    closure_fn c t = Inr (ccwv, t) \<and>
    (\<forall>u. (\<forall>l x. pool_mem (working t) l = Some x \<longrightarrow> pool_mem (working u) l = Some x) \<longrightarrow>
      length (arg_stk u) < ARG_STACK_LEN \<longrightarrow>
      call_consumer_with_values c u = Inr (consumer, u\<lparr>arg_stk := arg_stk u @ [k]\<rparr>))"
proof -
  have pc: "PROCEDURE_P consumer"
    using assms(4) by (auto simp: callable_def plain_closure_def PROCEDURE_P_def)
  have room: "heap_room (48 + 0) s"
    using assms(2) by simp
  obtain t off where t: "prim_call_with_values ccwv self s = Inr (producer, t)"
    "arg_stk t = [heap_value tt_closure off]" "off < 2 ^ 32"
    "pool_mem (working t) off = Some (Cell 0 (HClosure False ccwv [Some k, Some consumer]))"
    "\<And>l x. pool_mem (working s) l = Some x \<Longrightarrow> pool_mem (working t) l = Some x"
    using call_with_values_run [OF assms(1) room assms(3) pc, of ccwv self] by blast
  have "call_consumer_with_values (heap_value tt_closure off) u = Inr (consumer, u\<lparr>arg_stk := arg_stk u @ [k]\<rparr>)"
    if "\<And>l x. pool_mem (working t) l = Some x \<Longrightarrow> pool_mem (working u) l = Some x"
      "length (arg_stk u) < ARG_STACK_LEN" for u
    using consumer_called [OF that(1) [OF t(4)] t(3) assms(5) _ that(2)]
      callable_keeps [OF assms(4), of u] t(5) that(1) by blast
  then show ?thesis
    using t(1-4) by (intro exI [of _ "heap_value tt_closure off"] exI [of _ t])
      (simp add: closure_fn_def CLOSURE_P_def heap_access)
qed

lemma call_with_values_joins_witness:
  "\<exists>c t. prim_call_with_values 88 0 (rt_start\<lparr>arg_stk := [make_function 72, make_function 80, make_function 64]\<rparr>)
      = Inr (make_function 80, t) \<and>
    call_consumer_with_values c (t\<lparr>arg_stk := [2, 1]\<rparr>)
      = Inr (make_function 72, t\<lparr>arg_stk := [2, 1, make_function 64]\<rparr>)"
proof -
  let ?s = "rt_start\<lparr>arg_stk := [make_function 72, make_function 80, make_function 64]\<rparr>"
  have nb: "\<not> BOX_P (make_function 64)"
    using FUNCTION_P_make [of 64] by (simp add: FUNCTION_P_def BOX_P_def)
  have room: "heap_room 48 ?s"
    by (rule heap_room_start) simp
  obtain c t where t: "prim_call_with_values 88 0 ?s = Inr (make_function 80, t)"
    "\<forall>u. (\<forall>l x. pool_mem (working t) l = Some x \<longrightarrow> pool_mem (working u) l = Some x) \<longrightarrow>
      length (arg_stk u) < ARG_STACK_LEN \<longrightarrow>
      call_consumer_with_values c u = Inr (make_function 72, u\<lparr>arg_stk := arg_stk u @ [make_function 64]\<rparr>)"
    using call_with_values_joins [of ?s "make_function 72" "make_function 80" "make_function 64" 88 0] room nb
    by auto
  then show ?thesis
    by (intro exI [of _ c] exI [of _ t]) (simp add: ARG_STACK_LEN_def)
qed

text \<open>
  C33: Looking a name up in the table of primitives gives the function the table was built with, for
  each of its names and whatever the heap has grown to meanwhile; any other name stops the program.
\<close>

theorem module_lookup_correct:
  assumes "heap_room 4000 s" and "arg_stk s = []"
    and "\<forall>nm \<in> fst ` set module_table. cstring (lit nm) = nm"
  shows "\<exists>m t. scm_runtime_load_dynamic lit fn_addr s = Inr (m, t) \<and>
    (\<forall>name u. (\<forall>l c. pool_mem (working t) l = Some c \<longrightarrow> pool_mem (working u) l = Some c) \<longrightarrow>
      scm_module_lookup cstring name m u =
        (case map_of module_table name of
           Some fn \<Rightarrow> Inr (make_function (fn_addr fn), u)
         | None \<Rightarrow> Inl (Assert ''error undefined identifier'')))"
  using load_dynamic_run [OF assms(1,2), of cstring lit fn_addr] assms(3) by blast

lemma rt_start_stk: "arg_stk rt_start = []"
  by (simp add: rt_start_def rt_zero_def)

lemma room_start: "heap_room 4000 rt_start"
  using heap_room_start [of 4000 "[]"] by (simp add: rt_start_def rt_zero_def)

text \<open>The strings of the table at the addresses of their positions in it.\<close>

definition lit_demo :: "string \<Rightarrow> u64" where
  "lit_demo nm = of_nat (length (takeWhile (\<lambda>e. fst e \<noteq> nm) module_table))"

definition cstring_demo :: "u64 \<Rightarrow> string" where
  "cstring_demo a = fst (module_table ! unat a)"

lemma lit_demo_ok: "nm \<in> fst ` set module_table \<Longrightarrow> cstring_demo (lit_demo nm) = nm"
proof -
  let ?n = "length (takeWhile (\<lambda>e. fst e \<noteq> nm) module_table)"
  assume "nm \<in> fst ` set module_table"
  then have "takeWhile (\<lambda>e. fst e \<noteq> nm) module_table \<noteq> module_table"
    unfolding takeWhile_eq_all_conv by auto
  then have "?n < length module_table"
    using takeWhile_eq_take [of "\<lambda>e. fst e \<noteq> nm" module_table] by (metis not_less take_all)
  then have "fst (module_table ! ?n) = nm" "?n < 73"
    using nth_length_takeWhile [of "\<lambda>e. fst e \<noteq> nm" module_table] by (simp_all add: module_table_length)
  then show ?thesis
    by (simp add: cstring_demo_def lit_demo_def)
qed

lemma module_lookup_correct_witness:
  "\<exists>m t. scm_runtime_load_dynamic lit_demo (\<lambda>_. 64) rt_start = Inr (m, t) \<and>
     scm_module_lookup cstring_demo ''car'' m t = Inr (make_function 64, t) \<and>
     scm_module_lookup cstring_demo ''cadr'' m t = Inl (Assert ''error undefined identifier'')"
proof -
  obtain m t where t: "scm_runtime_load_dynamic lit_demo (\<lambda>_. 64) rt_start = Inr (m, t)"
    "\<forall>name u. (\<forall>l c. pool_mem (working t) l = Some c \<longrightarrow> pool_mem (working u) l = Some c) \<longrightarrow>
      scm_module_lookup cstring_demo name m u =
        (case map_of module_table name of
           Some fn \<Rightarrow> Inr (make_function 64, u)
         | None \<Rightarrow> Inl (Assert ''error undefined identifier''))"
    using module_lookup_correct [OF room_start rt_start_stk, of cstring_demo lit_demo "\<lambda>_. 64"] lit_demo_ok
    by blast
  have "map_of module_table ''car'' = Some ''prim_car''" "map_of module_table ''cadr'' = None"
    by (simp_all add: module_table_def)
  then show ?thesis
    using t by auto
qed

text \<open>
  The trampoline's loop returns exactly when some sequence of calls, each handing over the next
  procedure, ends in one that leaves the loop, and then in the state that one leaves.
\<close>

theorem trampoline_loop_bounces:
  "(\<exists>n. bounce_loop n code cc s = Inr ((), t)) \<longleftrightarrow>
     (\<exists>x. (bounce code)\<^sup>*\<^sup>* (cc, s) x \<and> leaves code x t)"
  using bounce_loop_reaches reaches_bounce_loop by blast

text \<open>
  Whatever every piece of code keeps, the trampoline's loop keeps: an invariant of all calls
  holds of the state in which the program ends.
\<close>

lemma trampoline_loop_invariant:
  assumes "\<And>fn cc s r t. P s \<Longrightarrow> code fn cc s = Inr (r, t) \<Longrightarrow> P t"
    and "bounce_loop n code cc s = Inr ((), t)" and "P s"
  shows "P t"
proof -
  obtain cc' u where u: "(bounce code)\<^sup>*\<^sup>* (cc, s) (cc', u)" "leaves code (cc', u) t"
    using bounce_loop_reaches [OF assms(2)] by (metis surj_pair)
  have "P u"
    using bounce_invariant [where P = P and code = code, OF assms(1) u(1) assms(3)] .
  then show ?thesis
    using u(2) assms(1) by (auto simp: leaves_iff)
qed

text \<open>Code at address 64 that hands over to the function at 72, which leaves.\<close>

definition code_demo :: code where
  "code_demo fn cc = (if fn = 64 then ret (Next (make_function 72)) else ret Exit)"

lemma procedure_fn_function: "unat a < 2 ^ 48 \<Longrightarrow> procedure_fn (make_function a) s = Inr (a, s)"
proof -
  assume a: "unat a < 2 ^ 48"
  then have "\<not> CLOSURE_P (make_function a)"
    using FUNCTION_P_make [OF a] by (simp add: FUNCTION_P_def CLOSURE_P_def)
  then show ?thesis
    using a FUNCTION_P_make [OF a] by (simp add: procedure_fn_def) (simp add: make_function_def)
qed

text \<open>
  The trampoline starts the program with two values on the stack, the exit continuation on top
  of the table of primitives, and the handler of failed assertions set up; entering the exit
  continuation with one value leaves the loop.
\<close>

theorem program_start:
  assumes "heap_room 4000 s" and "arg_stk s = []"
    and "\<forall>nm \<in> fst ` set module_table. cstring (lit nm) = nm"
  shows "\<exists>m kexit t. trampoline lit fn_addr fuel code cc s = bounce_loop fuel code cc t \<and>
    arg_stk t = [m, kexit] \<and> closure_fn kexit t = Inr (fn_addr ''tl_exit'', t) \<and>
    closure_fn (exception_handler t) t = Inr (fn_addr ''default_excption_handler'', t) \<and>
    scm_module_lookup cstring ''cons'' m t = Inr (make_function (fn_addr ''prim_cons''), t) \<and>
    tl_exit kexit (t\<lparr>arg_stk := [v]\<rparr>) = Inr (Exit, t\<lparr>arg_stk := [v]\<rparr>)"
proof -
  obtain m t0 where t0: "scm_runtime_load_dynamic lit fn_addr s = Inr (m, t0)" "arg_stk t0 = []"
    "heap_room 500 t0"
    "\<forall>name u. (\<forall>l c. pool_mem (working t0) l = Some c \<longrightarrow> pool_mem (working u) l = Some c) \<longrightarrow>
      scm_module_lookup cstring name m u =
        (case map_of module_table name of
           Some fn \<Rightarrow> Inr (make_function (fn_addr fn), u)
         | None \<Rightarrow> Inl (Assert ''error undefined identifier''))"
    using load_dynamic_run [OF assms(1,2), of cstring lit fn_addr] assms(3) by blast
  let ?a = "t0\<lparr>arg_stk := [fn_addr ''tl_exit'']\<rparr>"
  have r1: "heap_room (32 + 8 * length ([] :: scm_value list) + 400) ?a"
    using t0(3) by (simp add: heap_room_def)
  obtain t1 where t1: "make_closure ?a = Inr (heap_value tt_closure (pool_idx (working t0)), t1)"
    "arg_stk t1 = []" "pool_idx (working t0) < 2 ^ 32" "heap_room 400 t1"
    "pool_mem (working t1) = (pool_mem (working t0))(pool_idx (working t0) \<mapsto>
      Cell 0 (HClosure False (fn_addr ''tl_exit'') []))"
    using make_closure_room [OF _ r1, of "fn_addr ''tl_exit''"] by (auto simp: HEAP_PAGE_SZ_def)
  let ?b = "t1\<lparr>arg_stk := [fn_addr ''default_excption_handler'']\<rparr>"
  have r2: "heap_room (32 + 8 * length ([] :: scm_value list) + 300) ?b"
    using t1(4) by (simp add: heap_room_def)
  obtain t2 where t2: "make_closure ?b = Inr (heap_value tt_closure (pool_idx (working t1)), t2)"
    "arg_stk t2 = []" "pool_idx (working t1) < 2 ^ 32"
    "pool_mem (working t2) = (pool_mem (working t1))(pool_idx (working t1) \<mapsto>
      Cell 0 (HClosure False (fn_addr ''default_excption_handler'') []))"
    using make_closure_room [OF _ r2, of "fn_addr ''default_excption_handler''"] by (auto simp: HEAP_PAGE_SZ_def)
  have k0: "pool_mem (working t1) l = Some c" if "pool_mem (working t0) l = Some c" for l c
    using that t1(5) pool_ok_below [of "working t0" l c] t0(3) by (auto simp: heap_room_def)
  have k1: "pool_mem (working t2) l = Some c" if "pool_mem (working t1) l = Some c" for l c
    using that t2(4) pool_ok_below [of "working t1" l c] t1(4) by (auto simp: heap_room_def)
  let ?k = "heap_value tt_closure (pool_idx (working t0))" and ?h = "heap_value tt_closure (pool_idx (working t1))"
  let ?t = "t2\<lparr>exception_handler := ?h, arg_stk := [m, ?k]\<rparr>"
  have "trampoline lit fn_addr fuel code cc s = bounce_loop fuel code cc ?t"
    using t0(1,2) t1(1,2) t2(1,2) by (simp add: trampoline_def ARG_STACK_LEN_def)
  moreover have "closure_fn ?k ?t = Inr (fn_addr ''tl_exit'', ?t)"
    using k1 [of "pool_idx (working t0)"] t1(3,5)
    by (simp add: closure_fn_def CLOSURE_P_def deref_closure_def deref_def)
  moreover have "closure_fn ?h ?t = Inr (fn_addr ''default_excption_handler'', ?t)"
    using t2(3,4) by (simp add: closure_fn_def CLOSURE_P_def deref_closure_def deref_def)
  moreover have "scm_module_lookup cstring ''cons'' m ?t = Inr (make_function (fn_addr ''prim_cons''), ?t)"
  proof -
    have "map_of module_table ''cons'' = Some ''prim_cons''"
      by (simp add: module_table_def)
    then show ?thesis
      using t0(4) k0 k1 by simp
  qed
  moreover have "tl_exit ?k (?t\<lparr>arg_stk := [v]\<rparr>) = Inr (Exit, ?t\<lparr>arg_stk := [v]\<rparr>)"
    by (simp add: tl_exit_def)
  ultimately show ?thesis
    by (intro exI [of _ m] exI [of _ ?k] exI [of _ ?t]) simp
qed

lemma program_start_witness:
  "\<exists>m kexit t. trampoline lit_demo (\<lambda>_. 64) 2 code_demo (make_function 64) rt_start
      = bounce_loop 2 code_demo (make_function 64) t \<and> arg_stk t = [m, kexit]"
  using program_start [OF room_start rt_start_stk, of cstring_demo lit_demo "\<lambda>_. 64" 2 code_demo
      "make_function 64"] lit_demo_ok by blast

end
