(* ===== verification/Sly_Values.thy ===== *)
theory Sly_Values
  imports Prelude Floats
begin

text \<open>
  Values of the interpreter and compiler (src/sly_types.h, src/sly_types.c): a 64-bit word is
  the address of a heap object, a small number with its type in the fourth byte, or one of the
  constants. Objects live in the C heap of the garbage collector library, here a map from
  addresses to objects that only grows: the library is taken never to fail and never to
  reclaim an object that is used.
\<close>

section \<open>Objects and state\<close>

type_synonym sly_value = "64 word"

text \<open>The kinds of token the reader knows (src/lexer.h), kept with a syntax object.\<close>

datatype tok_kind =
    tok_any | tok_quote | tok_quasiquote | tok_unquote_splice | tok_unquote
  | tok_syntax_quote | tok_syntax_quasiquote | tok_syntax_unquote_splice | tok_syntax_unquote
  | tok_comment | tok_lbracket | tok_rbracket | tok_dot | tok_vector | tok_byte_vector
  | tok_dictionary | tok_bool | tok_sexp_comment | tok_hex | tok_float | tok_int | tok_char
  | tok_keyword | tok_ident | tok_string | tok_max | tok_nomatch | tok_eof

record token =
  tok_tag :: tok_kind
  tok_so :: int
  tok_eo :: int
  tok_ln :: int
  tok_cn :: int

text \<open>A function compiled to byte code, and an activation of one.\<close>

record prototype =
  p_uplist :: sly_value
  p_K :: sly_value
  p_code :: sly_value
  p_entry :: nat
  p_nregs :: nat
  p_nargs :: nat
  p_nvars :: nat
  p_has_varg :: bool
  p_syntax_info :: sly_value
  p_binding :: sly_value

record stack_frame =
  f_cont :: sly_value
  f_K :: sly_value
  f_code :: sly_value
  f_U :: sly_value
  f_R :: sly_value
  f_clos :: sly_value
  f_pc :: nat
  f_level :: "32 word"

text \<open>
  What an upvalue holds: while it is open, the place of a register (the vector of the registers
  and the index in it), and its own value once it is closed.
\<close>

datatype upcell = Open sly_value nat | Closed sly_value

text \<open>
  The objects of the intermediate language of the C back end (src/cps.h): continuations, terms,
  expressions, and what is known of a variable.  They refer to each other by their addresses.
\<close>

datatype cps_kont_u =
    KArgs sly_value sly_value                             \<comment> \<open>\<open>vars\<close>, \<open>term\<close>\<close>
  | KReceive sly_value sly_value sly_value                \<comment> \<open>\<open>arity.req\<close>, \<open>arity.rest\<close>, \<open>k\<close>\<close>
  | KProc sly_value sly_value sly_value sly_value sly_value \<comment> \<open>\<open>arity.req\<close>, \<open>arity.rest\<close>, \<open>binding\<close>, \<open>tail\<close>, \<open>body\<close>\<close>
  | KTail

datatype cps_term =
    TContinue sly_value sly_value                         \<comment> \<open>\<open>k\<close>, \<open>expr\<close>\<close>
  | TBranch sly_value sly_value sly_value                 \<comment> \<open>\<open>arg\<close>, \<open>kt\<close>, \<open>kf\<close>\<close>

datatype cps_expr =
    EConst sly_value
  | ECall sly_value sly_value                             \<comment> \<open>\<open>proc\<close>, \<open>args\<close>\<close>
  | EKcall sly_value sly_value sly_value
  | EProc sly_value
  | EPrim sly_value
  | EPrimcall sly_value sly_value
  | EValues sly_value
  | EMakeRecord int
  | ERecord sly_value
  | ERecordSet sly_value sly_value int
  | ESelect sly_value int
  | EOffset sly_value int
  | ECode sly_value
  | EBox sly_value
  | EUnbox sly_value
  | ESet sly_value sly_value                              \<comment> \<open>\<open>var\<close>, \<open>val\<close>\<close>
  | EFix sly_value sly_value                              \<comment> \<open>\<open>names\<close>, \<open>procs\<close>\<close>

record cps_var_info =
  vi_used :: int
  vi_escapes :: int
  vi_updates :: int
  vi_isarg :: bool
  vi_isalias :: bool
  vi_which :: int
  vi_binding :: sly_value
  vi_alt :: sly_value

datatype sly_obj =
    is_SPair: SPair sly_value sly_value
  | is_SInt: SInt int                                     \<comment> \<open>a \<open>number\<close> of type \<open>tt_int\<close>, its \<open>i64\<close>\<close>
  | is_SFloat: SFloat "64 word"                             \<comment> \<open>a \<open>number\<close> of type \<open>tt_float\<close>\<close>
  | is_SVector: SVector nat "sly_value option list"          \<comment> \<open>\<open>len\<close>, and \<open>elems\<close>, whose length is \<open>cap\<close>\<close>
  | is_SSymbol: SSymbol "64 word" "8 word list" sly_value    \<comment> \<open>\<open>hash\<close>, \<open>name\<close>, \<open>alias\<close>\<close>
  | is_SBytes: SBytes "8 word list"                         \<comment> \<open>a byte vector: \<open>len\<close> is \<open>cap\<close>\<close>
  | is_SString: SString "8 word list"
  | is_SDict: SDict nat "sly_value list"                   \<comment> \<open>\<open>len\<close>, the number of keys, and the slots\<close>
  | is_SProto: SProto prototype
  | is_SClosure: SClosure sly_value sly_value                 \<comment> \<open>\<open>upvals\<close>, \<open>proto\<close>\<close>
  | is_SCClosure: SCClosure bool nat nat                       \<comment> \<open>\<open>has_varg\<close>, \<open>nargs\<close>, the C function\<close>
  | is_SUpvalue: SUpvalue sly_value upcell                    \<comment> \<open>\<open>next\<close>, \<open>u\<close>\<close>
  | is_SCont: SCont sly_value nat nat nat bool             \<comment> \<open>\<open>frame\<close>, \<open>pc\<close>, \<open>ret_slot\<close>, \<open>nargs\<close>, \<open>has_varg\<close>\<close>
  | is_SSyntax: SSyntax token sly_value sly_value "32 word"  \<comment> \<open>\<open>tok\<close>, \<open>scope_set\<close>, \<open>datum\<close>, \<open>context\<close>\<close>
  | is_SFrame: SFrame stack_frame
  | is_SUserData: SUserData sly_value "8 word list"            \<comment> \<open>\<open>properties\<close>, \<open>data_bytes\<close>\<close>
  | is_SKont: SKont sly_value cps_kont_u                     \<comment> \<open>\<open>name\<close>, \<open>u\<close>\<close>
  | is_STerm: STerm cps_term
  | is_SExpr: SExpr cps_expr
  | is_SVarInfo: SVarInfo cps_var_info
  | is_SOther: SOther nat                                   \<comment> \<open>the tag of an object not looked into\<close>

text \<open>A scope of the compiler (\<open>struct scope\<close>): its parent is the next one of the list that holds it.\<close>

record scope =
  sc_proto :: sly_value
  sc_symtable :: sly_value
  sc_level :: "32 word"

text \<open>
  A stream of the C library: where its bytes are, its position, and whether what is written goes to the
  end.  The bytes of a memory stream are kept here, with the object that gets their address and length.
  The standard streams are pipes; what is written is not delayed.
\<close>

datatype stream_kind = Std_in | Std_out | Std_err | Disk_file "8 word list" | Memory sly_value

record stream =
  st_kind :: stream_kind
  st_data :: "8 word list"
  st_pos :: nat
  st_append :: bool

text \<open>
  The state of the program: the heap, \<open>Sly_State\<close> and its \<open>struct compile\<close>, and the static variables of
  the compiler.
\<close>

record sly_state =
  sly_heap :: "nat \<Rightarrow> sly_obj option"
  sly_next :: nat                                \<comment> \<open>next address the allocator returns\<close>
  sly_interned :: sly_value                      \<comment> \<open>the dictionary of symbols by name\<close>
  open_upvals :: sly_value                       \<comment> \<open>head of the list of open upvalues, or 0\<close>
  cur_frame :: sly_value                         \<comment> \<open>\<open>ss->frame\<close>\<close>
  handle_except :: bool
  gensym_counter :: nat
  rand_source :: "nat \<Rightarrow> 8 word"               \<comment> \<open>the bytes \<open>rand_byte\<close> will return\<close>
  rand_taken :: nat
  cc_globals :: sly_value
  cc_builtins :: sly_value
  cc_scopes :: "scope list"                      \<comment> \<open>\<open>cc->cscope\<close> and its parents\<close>
  kw_symbols :: "sly_value list"
  last_compiled_prototype :: sly_value
  entry_point :: sly_value
  file_path :: "8 word list"
  core_forms :: sly_value                        \<comment> \<open>static variables of the expander\<close>
  core_scope :: sly_value
  var_mark :: sly_value                          \<comment> \<open>\<open>variable\<close>\<close>
  undef_mark :: sly_value                        \<comment> \<open>\<open>undefined\<close>\<close>
  all_bindings :: sly_value
  primop_names :: "sly_value list"               \<comment> \<open>\<open>primops[i].name\<close>\<close>
  click_delta :: nat
  const_idx :: nat
  std_out :: "8 word list"                       \<comment> \<open>what has been printed\<close>
  disk :: "8 word list \<Rightarrow> (8 word list) option"   \<comment> \<open>the files by path\<close>
  streams :: "nat \<Rightarrow> stream option"              \<comment> \<open>the open streams; 1, 2, 3 are the standard ones\<close>
  next_stream :: nat

type_synonym 'a sly = "(sly_state, 'a) prog"

text \<open>\<open>GC_MALLOC\<close>: addresses are multiples of sixteen; memory never runs out below 2^63.\<close>

definition gc_malloc :: "sly_obj \<Rightarrow> sly_value sly" where
  "gc_malloc ob s =
     (if sly_next s < 2 ^ 63
      then Inr (of_nat (sly_next s),
        s\<lparr>sly_heap := (sly_heap s)(sly_next s \<mapsto> ob), sly_next := sly_next s + 16\<rparr>)
      else Inl (Assert ''out of memory''))"

definition st_null :: sly_value where "st_null = 1"
definition st_imm :: sly_value where "st_imm = 2"
definition st_false :: sly_value where "st_false = 3"
definition st_true :: sly_value where "st_true = 4"
definition TAG_MASK :: sly_value where "TAG_MASK = 7"

definition SLY_NULL :: sly_value where "SLY_NULL = st_null"
definition SLY_VOID :: sly_value where "SLY_VOID = 0"
definition SLY_FALSE :: sly_value where "SLY_FALSE = st_false"
definition SLY_TRUE :: sly_value where "SLY_TRUE = st_true"

definition ctobool :: "bool \<Rightarrow> sly_value" where
  "ctobool b = (if b then SLY_TRUE else SLY_FALSE)"

definition booltoc :: "sly_value \<Rightarrow> bool" where
  "booltoc b \<longleftrightarrow> b \<noteq> SLY_FALSE"

datatype imm_type = imm_int | imm_byte | imm_float

fun imm_code :: "imm_type \<Rightarrow> 8 word" where
  "imm_code imm_int = 0"
| "imm_code imm_byte = 1"
| "imm_code imm_float = 2"

definition null_p :: "sly_value \<Rightarrow> bool" where "null_p v \<longleftrightarrow> v = SLY_NULL"
definition void_p :: "sly_value \<Rightarrow> bool" where "void_p v \<longleftrightarrow> v = SLY_VOID"
definition imm_p :: "sly_value \<Rightarrow> bool" where "imm_p v \<longleftrightarrow> v AND TAG_MASK = st_imm"
definition ptr_p :: "sly_value \<Rightarrow> bool" where "ptr_p v \<longleftrightarrow> \<not> void_p v \<and> v AND TAG_MASK = 0"
definition true_p :: "sly_value \<Rightarrow> bool" where "true_p v \<longleftrightarrow> v AND TAG_MASK = st_true"
definition false_p :: "sly_value \<Rightarrow> bool" where "false_p v \<longleftrightarrow> v AND TAG_MASK = st_false"
definition bool_p :: "sly_value \<Rightarrow> bool" where "bool_p v \<longleftrightarrow> true_p v \<or> false_p v"

text \<open>The fields of \<open>union imm_value\<close> on a little-endian machine.\<close>

definition imm_val_type :: "sly_value \<Rightarrow> 8 word" where
  "imm_val_type v = ucast (drop_bit 24 v)"

definition imm_val :: "sly_value \<Rightarrow> 32 word" where
  "imm_val v = ucast (drop_bit 32 v)"

definition make_imm :: "imm_type \<Rightarrow> 32 word \<Rightarrow> sly_value" where
  "make_imm t x =
     (push_bit 32 (ucast x) OR push_bit 24 (ucast (imm_code t))) AND NOT TAG_MASK OR st_imm"

definition GET_ADDR :: "sly_value \<Rightarrow> nat" where
  "GET_ADDR v = unat (v AND NOT TAG_MASK)"

definition sly_obj_at :: "sly_value \<Rightarrow> sly_obj sly" where
  "sly_obj_at v s =
     (case sly_heap s (GET_ADDR v) of
        None \<Rightarrow> Inl (UB ''no object at this address'')
      | Some ob \<Rightarrow> Inr (ob, s))"

definition sly_obj_set :: "sly_value \<Rightarrow> sly_obj \<Rightarrow> unit sly" where
  "sly_obj_set v ob s =
     (case sly_heap s (GET_ADDR v) of
        None \<Rightarrow> Inl (UB ''no object at this address'')
      | Some _ \<Rightarrow> Inr ((), s\<lparr>sly_heap := (sly_heap s)(GET_ADDR v \<mapsto> ob)\<rparr>))"

text \<open>\<open>ptr_p (v) && TYPEOF (v) == t\<close>, the test given as one on the object.\<close>

definition heap_p :: "(sly_obj \<Rightarrow> bool) \<Rightarrow> sly_value \<Rightarrow> bool sly" where
  "heap_p is_t v =
     (if ptr_p v then bnd (sly_obj_at v) (\<lambda>ob. ret (is_t ob)) else ret False)"

definition pair_p :: "sly_value \<Rightarrow> bool sly" where
  "pair_p = heap_p (\<lambda>ob. case ob of SPair _ _ \<Rightarrow> True | _ \<Rightarrow> False)"

definition vector_p :: "sly_value \<Rightarrow> bool sly" where
  "vector_p = heap_p (\<lambda>ob. case ob of SVector _ _ \<Rightarrow> True | _ \<Rightarrow> False)"

definition number_kind_p :: "imm_type \<Rightarrow> (sly_obj \<Rightarrow> bool) \<Rightarrow> sly_value \<Rightarrow> bool sly" where
  "number_kind_p t is_t val =
     (if null_p val \<or> void_p val then ret False
      else if imm_p val then ret (imm_val_type val = imm_code t)
      else if val AND TAG_MASK \<noteq> 0 then ret False
      else bnd (sly_obj_at val) (\<lambda>ob. ret (is_t ob)))"

definition int_p :: "sly_value \<Rightarrow> bool sly" where
  "int_p = number_kind_p imm_int (\<lambda>ob. case ob of SInt _ \<Rightarrow> True | _ \<Rightarrow> False)"

definition float_p :: "sly_value \<Rightarrow> bool sly" where
  "float_p = number_kind_p imm_float (\<lambda>ob. case ob of SFloat _ \<Rightarrow> True | _ \<Rightarrow> False)"

text \<open>No object of the program has the type \<open>tt_byte\<close>.\<close>

definition sly_byte_p :: "sly_value \<Rightarrow> bool sly" where
  "sly_byte_p = number_kind_p imm_byte (\<lambda>ob. ob = SOther 1)"

definition number_p :: "sly_value \<Rightarrow> bool sly" where
  "number_p v =
     bnd (int_p v) (\<lambda>i. if i then ret True else
     bnd (float_p v) (\<lambda>f. if f then ret True else sly_byte_p v))"

definition symbol_p :: "sly_value \<Rightarrow> bool sly" where "symbol_p = heap_p is_SSymbol"
definition byte_vector_p :: "sly_value \<Rightarrow> bool sly" where "byte_vector_p = heap_p is_SBytes"
definition string_p :: "sly_value \<Rightarrow> bool sly" where "string_p = heap_p is_SString"
definition dictionary_p :: "sly_value \<Rightarrow> bool sly" where "dictionary_p = heap_p is_SDict"
definition prototype_p :: "sly_value \<Rightarrow> bool sly" where "prototype_p = heap_p is_SProto"
definition closure_p :: "sly_value \<Rightarrow> bool sly" where "closure_p = heap_p is_SClosure"
definition cclosure_p :: "sly_value \<Rightarrow> bool sly" where "cclosure_p = heap_p is_SCClosure"
definition upvalue_p :: "sly_value \<Rightarrow> bool sly" where "upvalue_p = heap_p is_SUpvalue"
definition continuation_p :: "sly_value \<Rightarrow> bool sly" where "continuation_p = heap_p is_SCont"
definition syntax_p :: "sly_value \<Rightarrow> bool sly" where "syntax_p = heap_p is_SSyntax"
definition user_data_p :: "sly_value \<Rightarrow> bool sly" where "user_data_p = heap_p is_SUserData"

text \<open>\<open>sly_assert (p (v), msg)\<close>.\<close>

definition expect :: "bool sly \<Rightarrow> string \<Rightarrow> unit sly" where
  "expect p msg = bnd p (\<lambda>b. check b msg)"

definition get_int :: "sly_value \<Rightarrow> int sly" where
  "get_int v =
     bnd (expect (int_p v) ''Type Error: Expected Integer'') (\<lambda>_.
     if imm_p v then ret (sint (imm_val v))
     else bnd (sly_obj_at v) (\<lambda>ob.
          case ob of SInt i \<Rightarrow> ret i | _ \<Rightarrow> fail (UB ''object of another type'')))"

definition get_byte :: "sly_value \<Rightarrow> int sly" where
  "get_byte v =
     bnd (expect (sly_byte_p v) ''Type Error: Expected Byte'') (\<lambda>_.
     ret (sint (ucast (imm_val v) :: 8 word)))"

definition sly_get_float :: "sly_value \<Rightarrow> (64 word) sly" where
  "sly_get_float v =
     bnd (expect (float_p v) ''Type Error: Expected Float'') (\<lambda>_.
     if imm_p v then ret (f64_of_f32 (imm_val v))
     else bnd (sly_obj_at v) (\<lambda>ob.
          case ob of SFloat f \<Rightarrow> ret f | _ \<Rightarrow> fail (UB ''object of another type'')))"

definition is_i64 :: "int \<Rightarrow> bool" where
  "is_i64 i \<longleftrightarrow> - (2 ^ 63) \<le> i \<and> i < 2 ^ 63"

definition fits_i32 :: "int \<Rightarrow> bool" where
  "fits_i32 i \<longleftrightarrow> - (2 ^ 31) \<le> i \<and> i < 2 ^ 31"

definition sly_make_int :: "int \<Rightarrow> sly_value sly" where
  "sly_make_int i =
     (if fits_i32 i then ret (make_imm imm_int (word_of_int i)) else gc_malloc (SInt i))"

text \<open>The union is not initialised: its other bytes are those of \<open>junk\<close>.\<close>

definition make_byte :: "sly_value \<Rightarrow> int \<Rightarrow> sly_value" where
  "make_byte junk i =
     ((junk AND NOT (push_bit 24 0xffff)) OR push_bit 32 (ucast (word_of_int i :: 8 word))
        OR push_bit 24 (ucast (imm_code imm_byte))) AND NOT TAG_MASK OR st_imm"

definition make_big_float :: "64 word \<Rightarrow> sly_value sly" where
  "make_big_float f = gc_malloc (SFloat f)"

definition make_small_float :: "32 word \<Rightarrow> sly_value" where
  "make_small_float f = make_imm imm_float f"

definition f32_inf :: "32 word" where
  "f32_inf = 0x7f800000"

definition sly_make_float :: "64 word \<Rightarrow> sly_value sly" where
  "sly_make_float f =
     (if f32_of_f64 f = f32_inf then make_big_float f
      else ret (make_small_float (f32_of_f64 f)))"

section \<open>Small numbers\<close>

lemma TAG_MASK_mask: "TAG_MASK = mask 3"
  by (simp add: TAG_MASK_def mask_eq_exp_minus_1)

lemma bit_TAG_MASK: "bit TAG_MASK n \<longleftrightarrow> n < 3"
  unfolding TAG_MASK_mask by (auto simp: bit_mask_iff)

lemma bit_st_imm: "bit st_imm n \<longleftrightarrow> n = 1"
proof -
  have e: "st_imm = 2 ^ 1"
    by (simp add: st_imm_def)
  show ?thesis
    unfolding e bit_exp_iff by auto
qed

lemma bit_make_imm:
  "bit (make_imm t x) n \<longleftrightarrow>
     n < 64 \<and> (if n < 3 then n = 1 else if n < 24 then False
                else if n < 32 then bit (imm_code t) (n - 24) else bit x (n - 32))"
proof (cases "n < 64")
  case True
  then show ?thesis
    unfolding make_imm_def using bit_imp_le_length [of "imm_code t" "n - 24"]
    by (auto simp: bit_or_iff bit_and_iff bit_not_iff bit_push_bit_iff bit_unsigned_iff
        bit_TAG_MASK bit_st_imm)
qed (use bit_imp_le_length [of "make_imm t x" n] in auto)

lemma imm_p_make_imm [simp]: "imm_p (make_imm t x)"
  unfolding imm_p_def
  by (intro bit_word_eqI) (auto simp: bit_and_iff bit_TAG_MASK bit_st_imm bit_make_imm)

lemma imm_val_type_make_imm [simp]: "imm_val_type (make_imm t x) = imm_code t"
  unfolding imm_val_type_def by (rule bit_word_eqI) (simp add: bit_unsigned_iff bit_drop_bit_eq bit_make_imm)

lemma imm_val_make_imm [simp]: "imm_val (make_imm t x) = x"
  unfolding imm_val_def by (rule bit_word_eqI) (simp add: bit_unsigned_iff bit_drop_bit_eq bit_make_imm)

lemma imm_code_inj [simp]: "imm_code s = imm_code t \<longleftrightarrow> s = t"
  by (cases s; cases t) simp_all

lemma imm_not_null [simp]: "imm_p v \<Longrightarrow> \<not> null_p v" "imm_p v \<Longrightarrow> \<not> void_p v"
  by (auto simp: imm_p_def null_p_def void_p_def SLY_NULL_def SLY_VOID_def st_null_def st_imm_def TAG_MASK_def)

section \<open>The heap\<close>

definition heap_fine :: "sly_state \<Rightarrow> bool" where
  "heap_fine s \<longleftrightarrow> 16 dvd sly_next s \<and> 0 < sly_next s \<and> sly_next s < 2 ^ 63 \<and>
     (\<forall>a ob. sly_heap s a = Some ob \<longrightarrow> a < sly_next s)"

lemma address_bits:
  assumes "16 dvd a" and "0 < a" and "a < 2 ^ 63"
  shows "GET_ADDR (of_nat a) = a" "ptr_p (of_nat a)" "\<not> imm_p (of_nat a)"
    "of_nat a AND TAG_MASK = 0"
proof -
  have un: "unat (of_nat a :: 64 word) = a"
    using assms(3) by simp
  obtain k where k: "a = 16 * k"
    using assms(1) ..
  have tag: "of_nat a AND TAG_MASK = (0 :: 64 word)"
  proof -
    have "(of_nat a :: 64 word) = push_bit 4 (of_nat k)"
      by (simp add: k push_bit_eq_mult)
    then show ?thesis
      by (intro bit_word_eqI) (auto simp: bit_and_iff bit_TAG_MASK bit_push_bit_iff)
  qed
  then show "of_nat a AND TAG_MASK = (0 :: 64 word)" .
  have "of_nat a AND NOT TAG_MASK = (of_nat a :: 64 word)"
  proof (rule bit_word_eqI)
    fix n
    show "bit (of_nat a AND NOT TAG_MASK :: 64 word) n \<longleftrightarrow> bit (of_nat a :: 64 word) n" if "n < LENGTH(64)"
      using arg_cong [OF tag, of "\<lambda>w. bit w n"] that by (auto simp: bit_and_iff bit_not_iff)
  qed
  then show "GET_ADDR (of_nat a) = a"
    using un by (simp add: GET_ADDR_def)
  have nz: "of_nat a \<noteq> (0 :: 64 word)"
    using un assms(2) by (metis less_irrefl unat_0)
  then show "ptr_p (of_nat a)"
    using tag by (simp add: ptr_p_def void_p_def SLY_VOID_def)
  show "\<not> imm_p (of_nat a)"
    using tag by (simp add: imm_p_def st_imm_def)
qed

definition grows :: "sly_state \<Rightarrow> sly_state \<Rightarrow> bool" where
  "grows s t \<longleftrightarrow> (\<forall>a ob. sly_heap s a = Some ob \<longrightarrow> sly_heap t a = Some ob)"

lemma grows_refl [simp]: "grows s s"
  by (simp add: grows_def)

lemma grows_trans: "grows s t \<Longrightarrow> grows t u \<Longrightarrow> grows s u"
  by (simp add: grows_def)

lemma gc_malloc_run:
  assumes "heap_fine s"
  shows "\<exists>v t. gc_malloc ob s = Inr (v, t) \<and> ptr_p v \<and> \<not> imm_p v \<and> v AND TAG_MASK = 0 \<and>
    sly_heap t (GET_ADDR v) = Some ob \<and> grows s t \<and> sly_next t = sly_next s + 16 \<and>
    GET_ADDR v = sly_next s \<and> sly_heap t = (sly_heap s)(GET_ADDR v \<mapsto> ob)"
proof -
  have h: "16 dvd sly_next s" "0 < sly_next s" "sly_next s < 2 ^ 63"
    using assms by (simp_all add: heap_fine_def)
  have "sly_heap s (sly_next s) = None"
    using assms by (metis heap_fine_def less_irrefl not_Some_eq)
  then show ?thesis
    using address_bits [OF h] h(3) by (auto simp: gc_malloc_def grows_def)
qed

lemma heap_fine_next:
  assumes "heap_fine s" and "sly_next t = sly_next s + 16" and "sly_next s + 16 < 2 ^ 63"
    and "sly_heap t = (sly_heap s)(sly_next s \<mapsto> ob)"
  shows "heap_fine t"
  using assms by (fastforce simp: heap_fine_def)

lemma ptr_not_null: "ptr_p v \<Longrightarrow> \<not> null_p v" "ptr_p v \<Longrightarrow> \<not> void_p v"
  by (auto simp: ptr_p_def null_p_def SLY_NULL_def st_null_def TAG_MASK_def)

section \<open>Integers\<close>

text \<open>\<open>v\<close> is the integer \<open>i\<close>, small or boxed.\<close>

definition int_at :: "sly_state \<Rightarrow> sly_value \<Rightarrow> int \<Rightarrow> bool" where
  "int_at s v i \<longleftrightarrow>
     (imm_p v \<and> imm_val_type v = imm_code imm_int \<and> i = sint (imm_val v)) \<or>
     (ptr_p v \<and> \<not> imm_p v \<and> sly_heap s (GET_ADDR v) = Some (SInt i))"

lemma int_at_run [simp]:
  assumes "int_at s v i"
  shows "int_p v s = Inr (True, s)" "get_int v s = Inr (i, s)" "number_p v s = Inr (True, s)"
proof -
  show "int_p v s = Inr (True, s)"
    using assms ptr_not_null
    by (auto simp: int_at_def int_p_def number_kind_p_def sly_obj_at_def ptr_p_def)
  then show "get_int v s = Inr (i, s)" "number_p v s = Inr (True, s)"
    using assms by (auto simp: int_at_def get_int_def expect_def sly_obj_at_def number_p_def)
qed

lemma int_at_grows: "int_at s v i \<Longrightarrow> grows s t \<Longrightarrow> int_at t v i"
  by (auto simp: int_at_def grows_def)

lemma sly_make_int_run:
  assumes "heap_fine s" and "is_i64 i"
  shows "\<exists>v t. sly_make_int i s = Inr (v, t) \<and> int_at t v i \<and> grows s t"
proof (cases "fits_i32 i")
  case True
  then have "sint (word_of_int i :: 32 word) = i"
    by (simp add: fits_i32_def sint_sbintrunc' signed_take_bit_int_eq_self)
  then show ?thesis
    using True by (simp add: sly_make_int_def int_at_def)
next
  case False
  then show ?thesis
    using gc_malloc_run [OF assms(1), of "SInt i"] by (auto simp: sly_make_int_def int_at_def)
qed

section \<open>A first state\<close>

definition sly_start :: sly_state where
  "sly_start = \<lparr>sly_heap = \<lambda>_. None, sly_next = 16, sly_interned = SLY_NULL, open_upvals = 0,
     cur_frame = 0, handle_except = False, gensym_counter = 0, rand_source = \<lambda>_. 0, rand_taken = 0,
     cc_globals = 0, cc_builtins = 0, cc_scopes = [], kw_symbols = [], last_compiled_prototype = SLY_NULL,
     entry_point = 0, file_path = [], core_forms = SLY_NULL, core_scope = SLY_NULL, var_mark = SLY_NULL,
     undef_mark = SLY_NULL, all_bindings = SLY_NULL, primop_names = [], click_delta = 0, const_idx = 0, std_out = [],
     disk = \<lambda>_. None, streams = \<lambda>_. None, next_stream = 4\<rparr>"

lemma sly_start_fine [simp]: "heap_fine sly_start"
  by (simp add: heap_fine_def sly_start_def)

end
