(* ===== verification/Sly_Numbers.thy ===== *)
theory Sly_Numbers
  imports Sly_Values
begin

text \<open>
  Arithmetic and comparison of the interpreter's numbers (src/sly_types.c): 64-bit integers
  whose overflow is caught, and floats that are rounded to single precision when they are
  stored.
\<close>

section \<open>Arithmetic\<close>

text \<open>The results of the overflow builtins.\<close>

definition checked_int :: "int \<Rightarrow> sly_value sly" where
  "checked_int res = bnd (check (is_i64 res) ''Error overflow'') (\<lambda>_. sly_make_int res)"

definition sly_addfx :: "64 word \<Rightarrow> sly_value \<Rightarrow> sly_value sly" where
  "sly_addfx x y =
     bnd (expect (number_p y) ''Type Error expected number'') (\<lambda>_.
     bnd (int_p y) (\<lambda>yi.
     if yi then bnd (get_int y) (\<lambda>i. sly_make_float (f64_add x (f64_of_int i)))
     else bnd (float_p y) (\<lambda>yf.
     if yf then bnd (sly_get_float y) (\<lambda>f. sly_make_float (f64_add x f))
     else fail (Assert ''Error Unreachable''))))"

definition sly_addix :: "int \<Rightarrow> sly_value \<Rightarrow> sly_value sly" where
  "sly_addix x y =
     bnd (expect (number_p y) ''Type Error expected number'') (\<lambda>_.
     bnd (int_p y) (\<lambda>yi.
     if yi then bnd (get_int y) (\<lambda>i. checked_int (x + i))
     else bnd (float_p y) (\<lambda>yf.
     if yf then bnd (sly_get_float y) (\<lambda>f. sly_make_float (f64_add (f64_of_int x) f))
     else fail (Assert ''Error Unreachable''))))"

definition sly_add :: "sly_value \<Rightarrow> sly_value \<Rightarrow> sly_value sly" where
  "sly_add x y =
     bnd (expect (number_p x) ''Type Error expected number'') (\<lambda>_.
     bnd (int_p x) (\<lambda>xi.
     if xi then bnd (get_int x) (\<lambda>i. sly_addix i y)
     else bnd (float_p x) (\<lambda>xf.
     if xf then bnd (sly_get_float x) (\<lambda>f. sly_addfx f y)
     else fail (Assert ''Error Unreachable''))))"

definition sly_subfx :: "64 word \<Rightarrow> sly_value \<Rightarrow> sly_value sly" where
  "sly_subfx x y =
     bnd (expect (number_p y) ''Type Error expected number'') (\<lambda>_.
     bnd (int_p y) (\<lambda>yi.
     if yi then bnd (get_int y) (\<lambda>i. sly_make_float (f64_sub x (f64_of_int i)))
     else bnd (float_p y) (\<lambda>yf.
     if yf then bnd (sly_get_float y) (\<lambda>f. sly_make_float (f64_sub x f))
     else fail (Assert ''Error Unreachable''))))"

definition sly_subix :: "int \<Rightarrow> sly_value \<Rightarrow> sly_value sly" where
  "sly_subix x y =
     bnd (expect (number_p y) ''Type Error expected number'') (\<lambda>_.
     bnd (int_p y) (\<lambda>yi.
     if yi then bnd (get_int y) (\<lambda>i. checked_int (x - i))
     else bnd (float_p y) (\<lambda>yf.
     if yf then bnd (sly_get_float y) (\<lambda>f. sly_make_float (f64_sub (f64_of_int x) f))
     else fail (Assert ''Error Unreachable''))))"

definition sly_sub :: "sly_value \<Rightarrow> sly_value \<Rightarrow> sly_value sly" where
  "sly_sub x y =
     bnd (expect (number_p x) ''Type Error expected number'') (\<lambda>_.
     bnd (int_p x) (\<lambda>xi.
     if xi then bnd (get_int x) (\<lambda>i. sly_subix i y)
     else bnd (float_p x) (\<lambda>xf.
     if xf then bnd (sly_get_float x) (\<lambda>f. sly_subfx f y)
     else fail (Assert ''Error Unreachable''))))"

definition sly_mulfx :: "64 word \<Rightarrow> sly_value \<Rightarrow> sly_value sly" where
  "sly_mulfx x y =
     bnd (expect (number_p y) ''Type Error expected number'') (\<lambda>_.
     bnd (int_p y) (\<lambda>yi.
     if yi then bnd (get_int y) (\<lambda>i. sly_make_float (f64_mul x (f64_of_int i)))
     else bnd (float_p y) (\<lambda>yf.
     if yf then bnd (sly_get_float y) (\<lambda>f. sly_make_float (f64_mul x f))
     else fail (Assert ''Error Unreachable''))))"

definition sly_mulix :: "int \<Rightarrow> sly_value \<Rightarrow> sly_value sly" where
  "sly_mulix x y =
     bnd (expect (number_p y) ''Type Error expected number'') (\<lambda>_.
     bnd (int_p y) (\<lambda>yi.
     if yi then bnd (get_int y) (\<lambda>i. checked_int (x * i))
     else bnd (float_p y) (\<lambda>yf.
     if yf then bnd (sly_get_float y) (\<lambda>f. sly_make_float (f64_mul (f64_of_int x) f))
     else fail (Assert ''Error Unreachable''))))"

definition sly_mul :: "sly_value \<Rightarrow> sly_value \<Rightarrow> sly_value sly" where
  "sly_mul x y =
     bnd (expect (number_p x) ''Type Error expected number'') (\<lambda>_.
     bnd (int_p x) (\<lambda>xi.
     if xi then bnd (get_int x) (\<lambda>i. sly_mulix i y)
     else bnd (float_p x) (\<lambda>xf.
     if xf then bnd (sly_get_float x) (\<lambda>f. sly_mulfx f y)
     else fail (Assert ''Error Unreachable''))))"

text \<open>Division is always in floating point.\<close>

definition sly_divfx :: "64 word \<Rightarrow> sly_value \<Rightarrow> sly_value sly" where
  "sly_divfx x y =
     bnd (expect (number_p y) ''Type Error expected number'') (\<lambda>_.
     bnd (int_p y) (\<lambda>yi.
     if yi then bnd (get_int y) (\<lambda>i. sly_make_float (f64_div x (f64_of_int i)))
     else bnd (float_p y) (\<lambda>yf.
     if yf then bnd (sly_get_float y) (\<lambda>f. sly_make_float (f64_div x f))
     else fail (Assert ''Error Unreachable''))))"

definition sly_divix :: "int \<Rightarrow> sly_value \<Rightarrow> sly_value sly" where
  "sly_divix x y =
     bnd (expect (number_p y) ''Type Error expected number'') (\<lambda>_.
     bnd (int_p y) (\<lambda>yi.
     if yi then bnd (get_int y) (\<lambda>i. sly_make_float (f64_div (f64_of_int x) (f64_of_int i)))
     else bnd (float_p y) (\<lambda>yf.
     if yf then bnd (sly_get_float y) (\<lambda>f. sly_make_float (f64_div (f64_of_int x) f))
     else fail (Assert ''Error Unreachable''))))"

definition sly_div :: "sly_value \<Rightarrow> sly_value \<Rightarrow> sly_value sly" where
  "sly_div x y =
     bnd (expect (number_p x) ''Type Error expected number'') (\<lambda>_.
     bnd (int_p x) (\<lambda>xi.
     if xi then bnd (get_int x) (\<lambda>i. sly_divix i y)
     else bnd (float_p x) (\<lambda>xf.
     if xf then bnd (sly_get_float x) (\<lambda>f. sly_divfx f y)
     else fail (Assert ''Error Unreachable''))))"

text \<open>\<open>(i64)floor (d)\<close>, which is undefined when the result does not fit.\<close>

definition i64_floor :: "64 word \<Rightarrow> int sly" where
  "i64_floor d =
     (case f64_decode d of
        Fin sg m e \<Rightarrow>
          (let v = signed_nat sg m;
               n = (if 0 \<le> e then v * 2 ^ nat e else v div 2 ^ nat (- e)) in
           bnd (check_ub (is_i64 n) ''conversion out of range'') (\<lambda>_. ret n))
      | _ \<Rightarrow> fail (UB ''conversion out of range''))"

definition sly_floor_div :: "sly_value \<Rightarrow> sly_value \<Rightarrow> sly_value sly" where
  "sly_floor_div x y =
     bnd (sly_div x y) (\<lambda>q.
     bnd (sly_get_float q) (\<lambda>d.
     bnd (i64_floor d) sly_make_int))"

text \<open>C's remainder takes the sign of the dividend.\<close>

definition c_rem :: "int \<Rightarrow> int \<Rightarrow> int" where
  "c_rem a b = (if a < 0 then - (\<bar>a\<bar> mod \<bar>b\<bar>) else \<bar>a\<bar> mod \<bar>b\<bar>)"

definition sly_mod :: "sly_value \<Rightarrow> sly_value \<Rightarrow> sly_value sly" where
  "sly_mod x y =
     bnd (get_int x) (\<lambda>a.
     bnd (get_int y) (\<lambda>b.
     bnd (check_ub (b \<noteq> 0 \<and> \<not> (a = - (2 ^ 63) \<and> b = - 1)) ''remainder undefined'') (\<lambda>_.
     sly_make_int (c_rem a b))))"

definition sly_bitwise :: "(int \<Rightarrow> int \<Rightarrow> int) \<Rightarrow> sly_value \<Rightarrow> sly_value \<Rightarrow> sly_value sly" where
  "sly_bitwise f x y = bnd (get_int x) (\<lambda>a. bnd (get_int y) (\<lambda>b. sly_make_int (f a b)))"

definition sly_bitwise_and :: "sly_value \<Rightarrow> sly_value \<Rightarrow> sly_value sly" where
  "sly_bitwise_and = sly_bitwise (\<lambda>a b. a AND b)"

definition sly_bitwise_ior :: "sly_value \<Rightarrow> sly_value \<Rightarrow> sly_value sly" where
  "sly_bitwise_ior = sly_bitwise (\<lambda>a b. a OR b)"

definition sly_bitwise_xor :: "sly_value \<Rightarrow> sly_value \<Rightarrow> sly_value sly" where
  "sly_bitwise_xor = sly_bitwise (\<lambda>a b. a XOR b)"

definition sly_bitwise_eqv :: "sly_value \<Rightarrow> sly_value \<Rightarrow> sly_value sly" where
  "sly_bitwise_eqv = sly_bitwise (\<lambda>a b. NOT (a XOR b))"

definition sly_bitwise_nand :: "sly_value \<Rightarrow> sly_value \<Rightarrow> sly_value sly" where
  "sly_bitwise_nand = sly_bitwise (\<lambda>a b. NOT (a AND b))"

definition sly_bitwise_nor :: "sly_value \<Rightarrow> sly_value \<Rightarrow> sly_value sly" where
  "sly_bitwise_nor = sly_bitwise (\<lambda>a b. NOT (a OR b))"

definition sly_bitwise_not :: "sly_value \<Rightarrow> sly_value sly" where
  "sly_bitwise_not x = bnd (get_int x) (\<lambda>a. sly_make_int (NOT a))"

text \<open>
  A shift by 64 or more is undefined; bits shifted out at the top are lost, as the compiler
  of the build defines it.
\<close>

definition sly_arithmetic_shift :: "sly_value \<Rightarrow> sly_value \<Rightarrow> sly_value sly" where
  "sly_arithmetic_shift v count =
     bnd (get_int v) (\<lambda>i.
     bnd (get_int count) (\<lambda>c.
     if c = 0 then ret v
     else if c > 0 then
       bnd (check_ub (c < 64) ''shift count too large'') (\<lambda>_.
       sly_make_int (sint (push_bit (nat c) (word_of_int i :: 64 word))))
     else
       bnd (check_ub (- c < 64) ''shift count too large'') (\<lambda>_.
       sly_make_int (i div 2 ^ nat (- c)))))"

section \<open>Comparison\<close>

text \<open>Only \<open>=\<close> knows bytes; \<open><\<close> and \<open>>\<close> stop at \<open>Unreachable\<close>.\<close>

definition sly_num_eqfx :: "64 word \<Rightarrow> sly_value \<Rightarrow> bool sly" where
  "sly_num_eqfx x y =
     bnd (expect (number_p y) ''Type Error expected number'') (\<lambda>_.
     bnd (int_p y) (\<lambda>yi.
     if yi then bnd (get_int y) (\<lambda>i. ret (f64_eq x (f64_of_int i)))
     else bnd (float_p y) (\<lambda>yf.
     if yf then bnd (sly_get_float y) (\<lambda>f. ret (f64_eq x f))
     else bnd (sly_byte_p y) (\<lambda>yb.
     if yb then bnd (get_byte y) (\<lambda>i. ret (f64_eq x (f64_of_int i)))
     else fail (Assert ''Error Unreachable'')))))"

definition sly_num_eqix :: "int \<Rightarrow> sly_value \<Rightarrow> bool sly" where
  "sly_num_eqix x y =
     bnd (expect (number_p y) ''Type Error expected number'') (\<lambda>_.
     bnd (int_p y) (\<lambda>yi.
     if yi then bnd (get_int y) (\<lambda>i. ret (x = i))
     else bnd (float_p y) (\<lambda>yf.
     if yf then bnd (sly_get_float y) (\<lambda>f. ret (f64_eq (f64_of_int x) f))
     else bnd (sly_byte_p y) (\<lambda>yb.
     if yb then bnd (get_byte y) (\<lambda>i. ret (x = i))
     else fail (Assert ''Error Unreachable'')))))"

definition sly_num_eq :: "sly_value \<Rightarrow> sly_value \<Rightarrow> bool sly" where
  "sly_num_eq x y =
     bnd (expect (number_p x) ''Type Error expected number'') (\<lambda>_.
     bnd (int_p x) (\<lambda>xi.
     if xi then bnd (get_int x) (\<lambda>i. sly_num_eqix i y)
     else bnd (float_p x) (\<lambda>xf.
     if xf then bnd (sly_get_float x) (\<lambda>f. sly_num_eqfx f y)
     else bnd (sly_byte_p x) (\<lambda>xb.
     if xb then bnd (get_byte x) (\<lambda>i. sly_num_eqix i y) else ret False))))"

definition sly_num_ltfx :: "64 word \<Rightarrow> sly_value \<Rightarrow> bool sly" where
  "sly_num_ltfx x y =
     bnd (expect (number_p y) ''Type Error expected number'') (\<lambda>_.
     bnd (int_p y) (\<lambda>yi.
     if yi then bnd (get_int y) (\<lambda>i. ret (f64_lt x (f64_of_int i)))
     else bnd (float_p y) (\<lambda>yf.
     if yf then bnd (sly_get_float y) (\<lambda>f. ret (f64_lt x f))
     else fail (Assert ''Error Unreachable''))))"

definition sly_num_ltix :: "int \<Rightarrow> sly_value \<Rightarrow> bool sly" where
  "sly_num_ltix x y =
     bnd (expect (number_p y) ''Type Error expected number'') (\<lambda>_.
     bnd (int_p y) (\<lambda>yi.
     if yi then bnd (get_int y) (\<lambda>i. ret (x < i))
     else bnd (float_p y) (\<lambda>yf.
     if yf then bnd (sly_get_float y) (\<lambda>f. ret (f64_lt (f64_of_int x) f))
     else fail (Assert ''Error Unreachable''))))"

definition sly_num_lt :: "sly_value \<Rightarrow> sly_value \<Rightarrow> bool sly" where
  "sly_num_lt x y =
     bnd (expect (number_p x) ''Type Error expected number'') (\<lambda>_.
     bnd (int_p x) (\<lambda>xi.
     if xi then bnd (get_int x) (\<lambda>i. sly_num_ltix i y)
     else bnd (float_p x) (\<lambda>xf.
     if xf then bnd (sly_get_float x) (\<lambda>f. sly_num_ltfx f y)
     else fail (Assert ''Error Unreachable''))))"

definition sly_num_gtfx :: "64 word \<Rightarrow> sly_value \<Rightarrow> bool sly" where
  "sly_num_gtfx x y =
     bnd (expect (number_p y) ''Type Error expected number'') (\<lambda>_.
     bnd (int_p y) (\<lambda>yi.
     if yi then bnd (get_int y) (\<lambda>i. ret (f64_lt (f64_of_int i) x))
     else bnd (float_p y) (\<lambda>yf.
     if yf then bnd (sly_get_float y) (\<lambda>f. ret (f64_lt f x))
     else fail (Assert ''Error Unreachable''))))"

definition sly_num_gtix :: "int \<Rightarrow> sly_value \<Rightarrow> bool sly" where
  "sly_num_gtix x y =
     bnd (expect (number_p y) ''Type Error expected number'') (\<lambda>_.
     bnd (int_p y) (\<lambda>yi.
     if yi then bnd (get_int y) (\<lambda>i. ret (x > i))
     else bnd (float_p y) (\<lambda>yf.
     if yf then bnd (sly_get_float y) (\<lambda>f. ret (f64_lt f (f64_of_int x)))
     else fail (Assert ''Error Unreachable''))))"

definition sly_num_gt :: "sly_value \<Rightarrow> sly_value \<Rightarrow> bool sly" where
  "sly_num_gt x y =
     bnd (expect (number_p x) ''Type Error expected number'') (\<lambda>_.
     bnd (int_p x) (\<lambda>xi.
     if xi then bnd (get_int x) (\<lambda>i. sly_num_gtix i y)
     else bnd (float_p x) (\<lambda>xf.
     if xf then bnd (sly_get_float x) (\<lambda>f. sly_num_gtfx f y)
     else fail (Assert ''Error Unreachable''))))"

section \<open>Integer operations share one contract\<close>

locale sly_int_op =
  fixes op :: "sly_value \<Rightarrow> sly_value \<Rightarrow> sly_value sly" and f :: "int \<Rightarrow> int \<Rightarrow> int"
  assumes on_ints: "int_at s x a \<Longrightarrow> int_at s y b \<Longrightarrow> op x y s = checked_int (f a b) s"
begin

lemma exact:
  assumes "heap_fine s" and "int_at s x a" and "int_at s y b" and "is_i64 (f a b)"
  shows "\<exists>v t. op x y s = Inr (v, t) \<and> int_at t v (f a b) \<and> grows s t"
  using sly_make_int_run [OF assms(1,4)] assms by (simp add: on_ints checked_int_def)

lemma overflow:
  assumes "int_at s x a" and "int_at s y b" and "\<not> is_i64 (f a b)"
  shows "op x y s = Inl (Assert ''Error overflow'')"
  using assms by (simp add: on_ints checked_int_def bnd_def)

end

interpretation adds: sly_int_op sly_add "(+)"
  by unfold_locales (simp add: sly_add_def sly_addix_def expect_def)

interpretation subs: sly_int_op sly_sub "(-)"
  by unfold_locales (simp add: sly_sub_def sly_subix_def expect_def)

interpretation muls: sly_int_op sly_mul "(*)"
  by unfold_locales (simp add: sly_mul_def sly_mulix_def expect_def)

lemma num_on_ints:
  assumes "int_at s x a" and "int_at s y b"
  shows "sly_num_eq x y s = Inr (a = b, s)" "sly_num_lt x y s = Inr (a < b, s)"
    "sly_num_gt x y s = Inr (a > b, s)"
  using assms
  by (simp_all add: sly_num_eq_def sly_num_lt_def sly_num_gt_def sly_num_eqix_def sly_num_ltix_def
      sly_num_gtix_def expect_def)

lemma is_i64_bit: "is_i64 a \<longleftrightarrow> (\<forall>n\<ge>63. bit a n \<longleftrightarrow> a < 0)"
proof -
  have "is_i64 a \<longleftrightarrow> signed_take_bit 63 a = a"
    by (simp add: is_i64_def signed_take_bit_int_eq_self_iff)
  also have "\<dots> \<longleftrightarrow> (\<forall>n\<ge>63. bit a n \<longleftrightarrow> a < 0)"
  proof
    assume e: "signed_take_bit 63 a = a"
    have "bit a n = bit a 63" if "63 \<le> n" for n
      using arg_cong [OF e, of "\<lambda>x. bit x n"] that by (auto simp: bit_signed_take_bit_iff min_def)
    moreover have "bit a 63 \<longleftrightarrow> a < 0"
      using e by (metis signed_take_bit_negative_iff)
    ultimately show "\<forall>n\<ge>63. bit a n \<longleftrightarrow> a < 0"
      by blast
  next
    assume "\<forall>n\<ge>63. bit a n \<longleftrightarrow> a < 0"
    then show "signed_take_bit 63 a = a"
      by (intro bit_eqI) (auto simp: bit_signed_take_bit_iff min_def)
  qed
  finally show ?thesis .
qed

lemma is_i64_bitwise:
  assumes "is_i64 a" and "is_i64 b"
  shows "is_i64 (a AND b)" "is_i64 (a OR b)" "is_i64 (a XOR b)" "is_i64 (NOT a)"
proof -
  show "is_i64 (a AND b)"
    using assms by (simp add: is_i64_bit bit_and_iff)
  show "is_i64 (a OR b)"
    using assms by (simp add: is_i64_bit bit_or_iff)
  show "is_i64 (a XOR b)"
    using assms by (auto simp: is_i64_bit bit_xor_iff)
  show "is_i64 (NOT a)"
    using assms(1) by (simp add: is_i64_def not_int_def)
qed

end
