(* ===== verification/Sly_Lists.thy ===== *)
theory Sly_Lists
  imports Sly_Values
begin

text \<open>
  Pairs, lists and growing vectors of src/sly_types.c. A list operation of the source
  recurses down the list and need not end on a circular one, so it is fuelled here. The
  element array of a vector is part of its object; the collector's allocator hands out
  cleared memory, its reallocation leaves the new part unspecified.
\<close>

section \<open>Pairs\<close>

definition sly_pair :: "string \<Rightarrow> sly_value \<Rightarrow> (sly_value \<times> sly_value) sly" where
  "sly_pair msg obj =
     bnd (expect (pair_p obj) msg) (\<lambda>_.
     bnd (sly_obj_at obj) (\<lambda>ob.
     case ob of SPair a d \<Rightarrow> ret (a, d) | _ \<Rightarrow> fail (UB ''object of another type'')))"

definition sly_cons :: "sly_value \<Rightarrow> sly_value \<Rightarrow> sly_value sly" where
  "sly_cons a d = gc_malloc (SPair a d)"

definition sly_car :: "sly_value \<Rightarrow> sly_value sly" where
  "sly_car obj = bnd (sly_pair ''Type Error (car): Expected Pair'' obj) (\<lambda>(a, d). ret a)"

definition sly_cdr :: "sly_value \<Rightarrow> sly_value sly" where
  "sly_cdr obj = bnd (sly_pair ''Type Error (cdr): Expected Pair'' obj) (\<lambda>(a, d). ret d)"

definition sly_set_car :: "sly_value \<Rightarrow> sly_value \<Rightarrow> unit sly" where
  "sly_set_car obj v =
     bnd (sly_pair ''Type Error: Expected Pair'' obj) (\<lambda>(a, d). sly_obj_set obj (SPair v d))"

definition sly_set_cdr :: "sly_value \<Rightarrow> sly_value \<Rightarrow> unit sly" where
  "sly_set_cdr obj v =
     bnd (sly_pair ''Type Error: Expected Pair'' obj) (\<lambda>(a, d). sly_obj_set obj (SPair a v))"

section \<open>Lists\<close>

fun tail_loop :: "nat \<Rightarrow> sly_value \<Rightarrow> sly_value sly" where
  "tail_loop 0 obj = fail NoFuel"
| "tail_loop (Suc n) obj =
     bnd (sly_cdr obj) (\<lambda>d.
     bnd (pair_p d) (\<lambda>p. if p then tail_loop n d else ret obj))"

definition sly_tail :: "nat \<Rightarrow> sly_value \<Rightarrow> sly_value sly" where
  "sly_tail n obj = bnd (pair_p obj) (\<lambda>p. if p then tail_loop n obj else ret obj)"

fun list_append :: "nat \<Rightarrow> sly_value \<Rightarrow> sly_value \<Rightarrow> sly_value sly" where
  "list_append 0 p v = fail NoFuel"
| "list_append (Suc n) p v =
     (if null_p p then ret v
      else bnd (pair_p p) (\<lambda>b.
        if b then
          bnd (sly_car p) (\<lambda>a.
          bnd (sly_cdr p) (\<lambda>d.
          bnd (list_append n d v) (\<lambda>r.
          sly_cons a r)))
        else fail (Assert ''Type Error expected list'')))"

text \<open>The destructive one: the last pair of \<open>p\<close> is made to end in \<open>v\<close>.\<close>

definition sly_append :: "nat \<Rightarrow> sly_value \<Rightarrow> sly_value \<Rightarrow> unit sly" where
  "sly_append n p v = bnd (sly_tail n p) (\<lambda>t. sly_set_cdr t v)"

fun list_p :: "nat \<Rightarrow> sly_value \<Rightarrow> bool sly" where
  "list_p 0 l = fail NoFuel"
| "list_p (Suc n) l =
     (if null_p l then ret True
      else bnd (pair_p l) (\<lambda>b. if b then bnd (sly_cdr l) (list_p n) else ret False))"

fun make_list_from :: "nat \<Rightarrow> sly_value \<Rightarrow> sly_value list \<Rightarrow> sly_value sly" where
  "make_list_from n xs [] = ret xs"
| "make_list_from n xs (e # es) =
     bnd (sly_cons e SLY_NULL) (\<lambda>c.
     bnd (list_append n xs c) (\<lambda>xs'. make_list_from n xs' es))"

text \<open>The variadic arguments are a list.\<close>

definition make_list :: "sly_value list \<Rightarrow> sly_value sly" where
  "make_list es = make_list_from (length es + 1) SLY_NULL es"

fun copy_list :: "nat \<Rightarrow> sly_value \<Rightarrow> sly_value sly" where
  "copy_list 0 l = fail NoFuel"
| "copy_list (Suc n) l =
     bnd (pair_p l) (\<lambda>b.
     if b then
       bnd (sly_car l) (\<lambda>a. bnd (copy_list n a) (\<lambda>a'.
       bnd (sly_cdr l) (\<lambda>d. bnd (copy_list n d) (\<lambda>d'.
       sly_cons a' d'))))
     else ret l)"

fun list_len :: "nat \<Rightarrow> sly_value \<Rightarrow> nat sly" where
  "list_len 0 l = fail NoFuel"
| "list_len (Suc n) l =
     bnd (pair_p l) (\<lambda>b.
     if b then bnd (sly_cdr l) (\<lambda>d. bnd (list_len n d) (\<lambda>k. ret (k + 1))) else ret 0)"

fun list_ref :: "sly_value \<Rightarrow> nat \<Rightarrow> sly_value sly" where
  "list_ref l 0 =
     (if null_p l then fail (Assert ''Error Index out of bounds (list-ref)'') else sly_car l)"
| "list_ref l (Suc i) =
     (if null_p l then fail (Assert ''Error Index out of bounds (list-ref)'')
      else bnd (sly_cdr l) (\<lambda>d. list_ref d i))"

fun list_reverse :: "nat \<Rightarrow> sly_value \<Rightarrow> sly_value sly" where
  "list_reverse 0 l = fail NoFuel"
| "list_reverse (Suc n) l =
     (if null_p l then ret l
      else bnd (sly_cdr l) (\<lambda>d.
        if null_p d then ret l
        else bnd (list_reverse n d) (\<lambda>r.
          bnd (sly_car l) (\<lambda>a.
          bnd (sly_cons a SLY_NULL) (\<lambda>c.
          list_append (Suc n) r c)))))"

section \<open>Vectors\<close>

definition sly_vec :: "sly_value \<Rightarrow> (nat \<times> sly_value option list) sly" where
  "sly_vec v =
     bnd (expect (vector_p v) ''Type Error: Expected vector'') (\<lambda>_.
     bnd (sly_obj_at v) (\<lambda>ob.
     case ob of SVector len els \<Rightarrow> ret (len, els) | _ \<Rightarrow> fail (UB ''object of another type'')))"

definition sly_make_vector :: "nat \<Rightarrow> nat \<Rightarrow> sly_value sly" where
  "sly_make_vector len cap =
     bnd (check (len \<le> cap) ''Error vector length may not exceed its capacity'') (\<lambda>_.
     gc_malloc (SVector len (replicate cap (Some 0))))"

text \<open>\<open>vec->elems[i]\<close>, whose block has room for \<open>cap\<close> of them.\<close>

definition elem_read :: "sly_value option list \<Rightarrow> nat \<Rightarrow> sly_value sly" where
  "elem_read els i =
     (if i < length els
      then (case els ! i of Some x \<Rightarrow> ret x | None \<Rightarrow> fail (UB ''indeterminate value''))
      else fail (UB ''read past the end of the elements''))"

definition elem_write :: "sly_value \<Rightarrow> nat \<Rightarrow> sly_value option list \<Rightarrow> nat \<Rightarrow> sly_value \<Rightarrow> unit sly" where
  "elem_write v len els i x =
     bnd (check_ub (i < length els) ''write past the end of the elements'') (\<lambda>_.
     sly_obj_set v (SVector len (els[i := Some x])))"

definition vector_ref :: "sly_value \<Rightarrow> nat \<Rightarrow> sly_value sly" where
  "vector_ref v idx =
     bnd (sly_vec v) (\<lambda>(len, els).
     bnd (check (idx < len) ''Error: Index out of bounds'') (\<lambda>_. elem_read els idx))"

definition vector_set :: "sly_value \<Rightarrow> nat \<Rightarrow> sly_value \<Rightarrow> unit sly" where
  "vector_set v idx x =
     bnd (sly_vec v) (\<lambda>(len, els).
     bnd (check (idx < len) ''Error: Index out of bounds'') (\<lambda>_. elem_write v len els idx x))"

definition vector_len :: "sly_value \<Rightarrow> nat sly" where
  "vector_len v = bnd (sly_vec v) (\<lambda>(len, els). ret len)"

definition vector_grow :: "sly_value \<Rightarrow> unit sly" where
  "vector_grow v =
     bnd (sly_vec v) (\<lambda>(len, els). sly_obj_set v (SVector len (els @ replicate (length els) None)))"

definition vector_append :: "sly_value \<Rightarrow> sly_value \<Rightarrow> unit sly" where
  "vector_append v x =
     bnd (sly_vec v) (\<lambda>(len0, els0).
     bnd (if len0 \<ge> length els0 then vector_grow v else ret ()) (\<lambda>_.
     bnd (sly_vec v) (\<lambda>(len, els). elem_write v (len + 1) els len x)))"

definition vector_remove :: "sly_value \<Rightarrow> nat \<Rightarrow> unit sly" where
  "vector_remove v idx =
     bnd (sly_vec v) (\<lambda>(len, els).
     bnd (check (idx < len) ''Error index out of range (vector_remove)'') (\<lambda>_.
     sly_obj_set v (SVector (len - 1)
       (take idx els @ take (len - idx - 1) (drop (idx + 1) els) @ drop (len - 1) els))))"

definition vector_pop :: "sly_value \<Rightarrow> sly_value sly" where
  "vector_pop v =
     bnd (sly_vec v) (\<lambda>(len, els).
     bnd (check (len > 0) ''Type Error: Expected vector'') (\<lambda>_.
     bnd (sly_obj_set v (SVector (len - 1) els)) (\<lambda>_.
     elem_read els (len - 1))))"

definition vector_discard_values :: "sly_value \<Rightarrow> sly_value sly" where
  "vector_discard_values v =
     bnd (sly_vec v) (\<lambda>(len, els).
     bnd (sly_obj_set v (SVector 0 (replicate (length els) (Some 0)))) (\<lambda>_. ret SLY_VOID))"

fun copy_elems :: "nat \<Rightarrow> nat \<Rightarrow> sly_value \<Rightarrow> sly_value \<Rightarrow> unit sly" where
  "copy_elems 0 i p v = ret ()"
| "copy_elems (Suc k) i p v =
     bnd (vector_ref v i) (\<lambda>x. bnd (vector_set p i x) (\<lambda>_. copy_elems k (Suc i) p v))"

definition copy_vector :: "sly_value \<Rightarrow> sly_value sly" where
  "copy_vector v =
     bnd (sly_vec v) (\<lambda>(len, els).
     bnd (sly_make_vector len (length els)) (\<lambda>p.
     bnd (copy_elems len 0 p v) (\<lambda>_. ret p)))"

fun append_all :: "nat \<Rightarrow> sly_value \<Rightarrow> sly_value \<Rightarrow> unit sly" where
  "append_all 0 v l = fail NoFuel"
| "append_all (Suc n) v l =
     (if null_p l then ret ()
      else bnd (sly_car l) (\<lambda>a.
        bnd (vector_append v a) (\<lambda>_.
        bnd (sly_cdr l) (append_all n v))))"

definition list_to_vector :: "nat \<Rightarrow> sly_value \<Rightarrow> sly_value sly" where
  "list_to_vector n l =
     bnd (sly_make_vector 0 8) (\<lambda>v. bnd (append_all n v l) (\<lambda>_. ret v))"

fun cons_elems :: "nat \<Rightarrow> sly_value \<Rightarrow> sly_value \<Rightarrow> sly_value sly" where
  "cons_elems 0 v l = ret l"
| "cons_elems (Suc i) v l =
     bnd (vector_ref v i) (\<lambda>x. bnd (sly_cons x l) (\<lambda>l'. cons_elems i v l'))"

definition vector_to_list :: "sly_value \<Rightarrow> sly_value sly" where
  "vector_to_list v =
     bnd (vector_len v) (\<lambda>len.
     if len = 0 then ret SLY_NULL else cons_elems len v SLY_NULL)"

section \<open>What a list is\<close>

definition spair_at :: "sly_state \<Rightarrow> sly_value \<Rightarrow> sly_value \<Rightarrow> sly_value \<Rightarrow> bool" where
  "spair_at s v a d \<longleftrightarrow> ptr_p v \<and> sly_heap s (GET_ADDR v) = Some (SPair a d)"

fun slist_at :: "sly_state \<Rightarrow> sly_value \<Rightarrow> sly_value list \<Rightarrow> bool" where
  "slist_at s v [] \<longleftrightarrow> v = SLY_NULL"
| "slist_at s v (x # xs) \<longleftrightarrow> (\<exists>d. spair_at s v x d \<and> slist_at s d xs)"

definition sly_room :: "nat \<Rightarrow> sly_state \<Rightarrow> bool" where
  "sly_room n s \<longleftrightarrow> heap_fine s \<and> sly_next s + 16 * n < 2 ^ 63"

lemma room_obj_set:
  assumes "sly_room n s" and "sly_heap s a = Some ob"
  shows "sly_room n (s\<lparr>sly_heap := (sly_heap s)(a \<mapsto> ob')\<rparr>)"
  using assms by (fastforce simp: sly_room_def heap_fine_def)

lemma room_mono: "sly_room n s \<Longrightarrow> m \<le> n \<Longrightarrow> sly_room m s"
  by (auto simp: sly_room_def)

lemma sly_room_fine: "sly_room n s \<Longrightarrow> heap_fine s"
  by (simp add: sly_room_def)

lemma sly_malloc_room:
  assumes "sly_room (Suc n) s"
  shows "\<exists>v t. gc_malloc ob s = Inr (v, t) \<and> ptr_p v \<and> sly_heap t (GET_ADDR v) = Some ob \<and> grows s t \<and>
    sly_room n t \<and> GET_ADDR v = sly_next s \<and> sly_heap t = (sly_heap s)(GET_ADDR v \<mapsto> ob)"
proof -
  have f: "heap_fine s" and m: "sly_next s + 16 * Suc n < 2 ^ 63"
    using assms by (simp_all add: sly_room_def)
  obtain v t where t: "gc_malloc ob s = Inr (v, t)" "ptr_p v" "sly_heap t (GET_ADDR v) = Some ob" "grows s t"
    "sly_next t = sly_next s + 16" "GET_ADDR v = sly_next s" "sly_heap t = (sly_heap s)(GET_ADDR v \<mapsto> ob)"
    using gc_malloc_run [OF f, of ob] by blast
  have "heap_fine t"
    using heap_fine_next [OF f t(5)] t(6,7) m by simp
  then show ?thesis
    using t m by (auto simp: sly_room_def)
qed

lemma sly_start_room [simp]: "n < 2 ^ 50 \<Longrightarrow> sly_room n sly_start"
  by (simp add: sly_room_def sly_start_def heap_fine_def)

lemma spair_at_run [simp]:
  assumes "spair_at s v a d"
  shows "pair_p v s = Inr (True, s)" "sly_car v s = Inr (a, s)" "sly_cdr v s = Inr (d, s)"
    "null_p v = False"
  using assms ptr_not_null
  by (simp_all add: spair_at_def pair_p_def heap_p_def sly_obj_at_def sly_car_def sly_cdr_def
      sly_pair_def expect_def)

lemma null_p_NULL [simp]: "null_p SLY_NULL"
  by (simp add: null_p_def)

lemma pair_p_NULL [simp]: "pair_p SLY_NULL s = Inr (False, s)"
  by (simp add: pair_p_def heap_p_def ptr_p_def SLY_NULL_def st_null_def TAG_MASK_def)

lemma spair_at_grows: "spair_at s v a d \<Longrightarrow> grows s t \<Longrightarrow> spair_at t v a d"
  by (simp add: spair_at_def grows_def)

lemma slist_at_grows: "slist_at s v xs \<Longrightarrow> grows s t \<Longrightarrow> slist_at t v xs"
  by (induction xs arbitrary: v) (auto dest: spair_at_grows)

lemma sly_cons_run:
  assumes "sly_room (Suc n) s"
  shows "\<exists>v t. sly_cons a d s = Inr (v, t) \<and> spair_at t v a d \<and> grows s t \<and> sly_room n t"
proof -
  have f: "heap_fine s" and m: "sly_next s + 16 * Suc n < 2 ^ 63"
    using assms by (simp_all add: sly_room_def)
  obtain v t where t: "gc_malloc (SPair a d) s = Inr (v, t)" "ptr_p v"
    "sly_heap t (GET_ADDR v) = Some (SPair a d)" "grows s t" "sly_next t = sly_next s + 16"
    "GET_ADDR v = sly_next s" "sly_heap t = (sly_heap s)(GET_ADDR v \<mapsto> SPair a d)"
    using gc_malloc_run [OF f, of "SPair a d"] by blast
  have "heap_fine t"
    using heap_fine_next [OF f t(5)] t(6,7) m by simp
  then show ?thesis
    using t m by (auto simp: sly_cons_def spair_at_def sly_room_def)
qed

lemma list_append_run:
  assumes "slist_at s p xs" and "slist_at s v ys" and "sly_room (length xs + n) s" and "length xs < k"
  shows "\<exists>w t. list_append k p v s = Inr (w, t) \<and> slist_at t w (xs @ ys) \<and> grows s t \<and> sly_room n t"
  using assms
proof (induction xs arbitrary: p k n)
  case Nil
  then show ?case by (cases k) auto
next
  case (Cons x xs)
  obtain d where d: "spair_at s p x d" "slist_at s d xs"
    using Cons.prems(1) by auto
  obtain m where k: "k = Suc m" "length xs < m"
    using Cons.prems(4) by (cases k) auto
  obtain r u where u: "list_append m d v s = Inr (r, u)" "slist_at u r (xs @ ys)" "grows s u"
    "sly_room (Suc n) u"
    using Cons.IH [OF d(2) Cons.prems(2), of "Suc n" m] Cons.prems(3) k(2) by auto
  obtain w t where t: "sly_cons x r u = Inr (w, t)" "spair_at t w x r" "grows u t" "sly_room n t"
    using sly_cons_run [OF u(4)] by blast
  have "slist_at t w (x # xs @ ys)"
    using t(2) slist_at_grows [OF u(2) t(3)] by auto
  then show ?case
    using d k u t grows_trans [OF u(3) t(3)] by auto
qed

lemma list_len_run: "slist_at s v xs \<Longrightarrow> length xs < k \<Longrightarrow> list_len k v s = Inr (length xs, s)"
proof (induction xs arbitrary: v k)
  case Nil
  then show ?case by (cases k) auto
next
  case (Cons x xs)
  then show ?case by (cases k) auto
qed

lemma list_p_run: "slist_at s v xs \<Longrightarrow> length xs < k \<Longrightarrow> list_p k v s = Inr (True, s)"
proof (induction xs arbitrary: v k)
  case Nil
  then show ?case by (cases k) auto
next
  case (Cons x xs)
  then show ?case by (cases k) auto
qed

lemma list_ref_run:
  "slist_at s v xs \<Longrightarrow> list_ref v i s =
     (if i < length xs then Inr (xs ! i, s) else Inl (Assert ''Error Index out of bounds (list-ref)''))"
proof (induction xs arbitrary: v i)
  case Nil
  then show ?case by (cases i) auto
next
  case (Cons x xs)
  then show ?case by (cases i) auto
qed

text \<open>Each level of the recursion copies the list built so far, a quadratic number of pairs.\<close>

fun reverse_pairs :: "nat \<Rightarrow> nat" where
  "reverse_pairs 0 = 0"
| "reverse_pairs (Suc n) = reverse_pairs n + n + 1"

lemma list_reverse_run:
  assumes "slist_at s l xs" and "sly_room (reverse_pairs (length xs) + n) s" and "length xs < k"
  shows "\<exists>w t. list_reverse k l s = Inr (w, t) \<and> slist_at t w (rev xs) \<and> grows s t \<and> sly_room n t"
  using assms
proof (induction xs arbitrary: l k n)
  case Nil
  then show ?case by (cases k) auto
next
  case (Cons x xs)
  obtain d where d: "spair_at s l x d" "slist_at s d xs"
    using Cons.prems(1) by auto
  obtain m where k: "k = Suc m" "length xs < m"
    using Cons.prems(3) by (cases k) auto
  show ?case
  proof (cases xs)
    case Nil
    then show ?thesis
      using d k Cons.prems(1,2) by (auto simp: sly_room_def)
  next
    case (Cons y ys)
    then have nn: "\<not> null_p d"
      using d(2) by auto
    obtain r u where u: "list_reverse m d s = Inr (r, u)" "slist_at u r (rev xs)" "grows s u"
      "sly_room (Suc (length xs + n)) u"
      using Cons.IH [OF d(2), of "Suc (length xs + n)" m] Cons.prems(2) k(2) by (auto simp: add.assoc)
    obtain c t where t: "sly_cons x SLY_NULL u = Inr (c, t)" "spair_at t c x SLY_NULL" "grows u t"
      "sly_room (length xs + n) t"
      using sly_cons_run [OF u(4)] by blast
    have "slist_at t c [x]"
      using t(2) by simp
    then obtain w t' where t': "list_append (Suc m) r c t = Inr (w, t')"
      "slist_at t' w (rev xs @ [x])" "grows t t'" "sly_room n t'"
      using list_append_run [OF slist_at_grows [OF u(2) t(3)], of c "[x]" n "Suc m"] t(4) k(2) by auto
    have "sly_car l u = Inr (x, u)"
      using spair_at_grows [OF d(1) u(3)] by simp
    then show ?thesis
      using d k u t t' nn grows_trans [OF u(3) grows_trans [OF t(3) t'(3)]] by auto
  qed
qed

section \<open>What a vector is\<close>

definition vec_at :: "sly_state \<Rightarrow> sly_value \<Rightarrow> sly_value list \<Rightarrow> bool" where
  "vec_at s v xs \<longleftrightarrow> ptr_p v \<and> (\<exists>els. sly_heap s (GET_ADDR v) = Some (SVector (length xs) els) \<and>
     els \<noteq> [] \<and> length xs \<le> length els \<and> take (length xs) els = map Some xs)"

text \<open>Only the object \<open>v\<close> differs.\<close>

definition only_at :: "sly_value \<Rightarrow> sly_state \<Rightarrow> sly_state \<Rightarrow> bool" where
  "only_at v s t \<longleftrightarrow> sly_next t = sly_next s \<and> (\<forall>a. a \<noteq> GET_ADDR v \<longrightarrow> sly_heap t a = sly_heap s a)"

lemma only_at_trans: "only_at v s t \<Longrightarrow> only_at v t u \<Longrightarrow> only_at v s u"
  by (simp add: only_at_def)

lemma vec_at_object:
  assumes "ptr_p v" and "sly_heap s (GET_ADDR v) = Some (SVector len els)"
  shows "sly_vec v s = Inr ((len, els), s)"
    and "sly_obj_set v ob s = Inr ((), s\<lparr>sly_heap := (sly_heap s)(GET_ADDR v \<mapsto> ob)\<rparr>)"
  using assms by (simp_all add: sly_vec_def vector_p_def heap_p_def expect_def sly_obj_at_def sly_obj_set_def)

lemma slist_at_only_at:
  assumes "only_at v s t" and "vec_at s v xs"
  shows "slist_at s l ys \<Longrightarrow> slist_at t l ys"
proof (induction ys arbitrary: l)
  case (Cons y ys)
  then obtain d where d: "spair_at s l y d" "slist_at s d ys"
    by auto
  then have "GET_ADDR l \<noteq> GET_ADDR v"
    using assms(2) by (auto simp: spair_at_def vec_at_def)
  then have "spair_at t l y d"
    using d(1) assms(1) by (simp add: spair_at_def only_at_def)
  then show ?case
    using Cons.IH [OF d(2)] by auto
qed simp

lemma vec_at_ref:
  "vec_at s v xs \<Longrightarrow> vector_ref v i s =
     (if i < length xs then Inr (xs ! i, s) else Inl (Assert ''Error: Index out of bounds''))"
proof -
  assume v: "vec_at s v xs"
  then obtain els where els: "ptr_p v" "sly_heap s (GET_ADDR v) = Some (SVector (length xs) els)"
    "length xs \<le> length els" "take (length xs) els = map Some xs"
    by (auto simp: vec_at_def)
  have "els ! i = Some (xs ! i)" if "i < length xs"
    using arg_cong [OF els(4), of "\<lambda>l. l ! i"] that by simp
  then show ?thesis
    using els vec_at_object(1) [OF els(1,2)]
    by (auto simp: vector_ref_def elem_read_def)
qed

lemma vec_at_append:
  assumes "vec_at s v xs"
  shows "\<exists>t. vector_append v x s = Inr ((), t) \<and> vec_at t v (xs @ [x]) \<and> only_at v s t"
proof -
  obtain els where els: "ptr_p v" "sly_heap s (GET_ADDR v) = Some (SVector (length xs) els)" "els \<noteq> []"
    "length xs \<le> length els" "take (length xs) els = map Some xs"
    using assms by (auto simp: vec_at_def)
  define els' where "els' = (if length xs < length els then els else els @ replicate (length els) None)"
  define s1 where "s1 = s\<lparr>sly_heap := (sly_heap s)(GET_ADDR v \<mapsto> SVector (length xs) els')\<rparr>"
  have e': "length xs < length els'" "take (length xs) els' = map Some xs"
    using els by (auto simp: els'_def)
  have grown: "bnd (if length xs \<ge> length els then vector_grow v else ret ()) (\<lambda>_. m) s = m s1"
    for m :: "unit sly"
    using els vec_at_object [OF els(1,2)]
    by (auto simp: s1_def els'_def vector_grow_def fun_upd_idem)
  let ?t = "s1\<lparr>sly_heap := (sly_heap s1)(GET_ADDR v \<mapsto> SVector (length xs + 1) (els'[length xs := Some x]))\<rparr>"
  have h1: "sly_heap s1 (GET_ADDR v) = Some (SVector (length xs) els')"
    by (simp add: s1_def)
  have "vector_append v x s = Inr ((), ?t)"
    unfolding vector_append_def
    using vec_at_object [OF els(1,2)] vec_at_object [OF els(1) h1] grown e'(1)
    by (simp add: elem_write_def)
  moreover have "take (length xs + 1) (els'[length xs := Some x]) = map Some (xs @ [x])"
    using e' by (simp add: take_Suc_conv_app_nth)
  moreover have "only_at v s ?t"
    by (simp add: only_at_def s1_def)
  moreover have "els'[length xs := Some x] \<noteq> []"
    using e'(1) by auto
  ultimately show ?thesis
    using els(1) e'(1) by (intro exI [of _ ?t]) (simp add: vec_at_def)
qed

lemma vec_at_pop:
  assumes "vec_at s v (xs @ [x])"
  shows "\<exists>t. vector_pop v s = Inr (x, t) \<and> vec_at t v xs \<and> only_at v s t"
proof -
  obtain els where els: "ptr_p v" "sly_heap s (GET_ADDR v) = Some (SVector (length xs + 1) els)"
    "els \<noteq> []" "length xs + 1 \<le> length els" "take (length xs + 1) els = map Some (xs @ [x])"
    using assms by (auto simp: vec_at_def)
  have "els ! length xs = Some x"
    using arg_cong [OF els(5), of "\<lambda>l. l ! length xs"] by (simp add: nth_append)
  moreover have "take (length xs) els = map Some xs"
    using arg_cong [OF els(5), of "take (length xs)"] by (simp add: min_def)
  ultimately show ?thesis
    using els vec_at_object [OF els(1,2)]
    by (auto simp: vector_pop_def elem_read_def vec_at_def only_at_def)
qed

lemma append_all_run:
  assumes "vec_at s v xs" and "slist_at s l ys" and "length ys < n"
  shows "\<exists>t. append_all n v l s = Inr ((), t) \<and> vec_at t v (xs @ ys) \<and> only_at v s t"
  using assms
proof (induction ys arbitrary: l n s xs)
  case Nil
  then show ?case by (cases n) (auto simp: only_at_def)
next
  case (Cons y ys)
  obtain m where m: "n = Suc m" "length ys < m"
    using Cons.prems(3) by (cases n) auto
  obtain d where d: "spair_at s l y d" "slist_at s d ys"
    using Cons.prems(2) by auto
  obtain u where u: "vector_append v y s = Inr ((), u)" "vec_at u v (xs @ [y])" "only_at v s u"
    using vec_at_append [OF Cons.prems(1)] by blast
  have du: "slist_at u d ys" "slist_at u l (y # ys)"
    using slist_at_only_at [OF u(3) Cons.prems(1)] d(2) Cons.prems(2) by blast+
  then obtain d' where "spair_at u l y d'"
    by auto
  moreover have "d' = d"
  proof -
    have "GET_ADDR l \<noteq> GET_ADDR v"
      using d(1) Cons.prems(1) by (auto simp: spair_at_def vec_at_def)
    then show ?thesis
      using \<open>spair_at u l y d'\<close> d(1) u(3) by (simp add: spair_at_def only_at_def)
  qed
  ultimately have cdr: "sly_cdr l u = Inr (d, u)"
    by simp
  obtain t where t: "append_all m v d u = Inr ((), t)" "vec_at t v ((xs @ [y]) @ ys)" "only_at v u t"
    using Cons.IH [OF u(2) du(1) m(2)] by blast
  show ?case
    using m d u(1) cdr t only_at_trans [OF u(3) t(3)] by auto
qed

lemma cons_elems_run:
  assumes "vec_at s v xs" and "slist_at s l ys" and "i \<le> length xs" and "sly_room (i + n) s"
  shows "\<exists>w t. cons_elems i v l s = Inr (w, t) \<and> slist_at t w (take i xs @ ys) \<and> grows s t"
  using assms
proof (induction i arbitrary: s l ys n)
  case (Suc i)
  have ref: "vector_ref v i s = Inr (xs ! i, s)"
    using vec_at_ref [OF Suc.prems(1)] Suc.prems(3) by simp
  obtain c u where u: "sly_cons (xs ! i) l s = Inr (c, u)" "spair_at u c (xs ! i) l" "grows s u"
    "sly_room (i + n) u"
    using sly_cons_run [of "i + n" s "xs ! i" l] Suc.prems(4) by auto
  have "vec_at u v xs"
    using Suc.prems(1) u(3) by (auto simp: vec_at_def grows_def)
  moreover have "slist_at u c (xs ! i # ys)"
    using u(2) slist_at_grows [OF Suc.prems(2) u(3)] by auto
  ultimately obtain w t where t: "cons_elems i v c u = Inr (w, t)"
    "slist_at t w (take i xs @ xs ! i # ys)" "grows u t"
    using Suc.IH [of u c "xs ! i # ys" n] Suc.prems(3) u(4) by auto
  have "take (Suc i) xs = take i xs @ [xs ! i]"
    using Suc.prems(3) by (simp add: take_Suc_conv_app_nth)
  then show ?case
    using ref u(1) t grows_trans [OF u(3) t(3)] by auto
qed auto

lemma list_vector_list:
  assumes "slist_at s l xs" and "sly_room (1 + length xs) s" and "length xs < k"
  shows "\<exists>v t w u. list_to_vector k l s = Inr (v, t) \<and> vec_at t v xs \<and>
    vector_to_list v t = Inr (w, u) \<and> slist_at u w xs"
proof -
  have f: "heap_fine s" and m: "sly_next s + 16 * (1 + length xs) < 2 ^ 63"
    using assms(2) by (simp_all add: sly_room_def)
  obtain v s1 where s1: "gc_malloc (SVector 0 (replicate 8 (Some 0))) s = Inr (v, s1)" "ptr_p v"
    "sly_heap s1 (GET_ADDR v) = Some (SVector 0 (replicate 8 (Some 0)))" "grows s s1"
    "sly_next s1 = sly_next s + 16" "GET_ADDR v = sly_next s"
    "sly_heap s1 = (sly_heap s)(GET_ADDR v \<mapsto> SVector 0 (replicate 8 (Some 0)))"
    using gc_malloc_run [OF f, of "SVector 0 (replicate 8 (Some 0))"] by blast
  have v1: "vec_at s1 v []"
    using s1(2,3) by (auto simp: vec_at_def)
  obtain t where t: "append_all k v l s1 = Inr ((), t)" "vec_at t v ([] @ xs)" "only_at v s1 t"
    using append_all_run [OF v1 slist_at_grows [OF assms(1) s1(4)] assms(3)] by blast
  have lv: "list_to_vector k l s = Inr (v, t)"
    using s1(1) t(1) by (simp add: list_to_vector_def sly_make_vector_def)
  have fine1: "heap_fine s1"
    using heap_fine_next [OF f s1(5)] s1(6,7) m by simp
  have "a < sly_next t" if "sly_heap t a = Some ob" for a ob
    using that t(3) fine1 s1(3) by (cases "a = GET_ADDR v") (auto simp: only_at_def heap_fine_def)
  then have room: "sly_room (length xs + 0) t"
    using fine1 t(3) s1(5) m by (auto simp: sly_room_def heap_fine_def only_at_def)
  obtain w u where u: "cons_elems (length xs) v SLY_NULL t = Inr (w, u)" "slist_at u w (take (length xs) xs @ [])"
    using cons_elems_run [of t v xs SLY_NULL "[]" "length xs" 0] t(2) room by auto
  have "vector_len v t = Inr (length xs, t)"
    using t(2) vec_at_object(1) [of v t] by (auto simp: vec_at_def vector_len_def)
  then have "vector_to_list v t = Inr (w, u)"
    using u by (cases "length xs = 0") (auto simp: vector_to_list_def)
  then show ?thesis
    using lv t(2) u(2) by auto
qed

end
