(* ===== verification/Sly_Exact.thy ===== *)
theory Sly_Exact
  imports Sly_Numbers Sly_Lists
begin

text \<open>
  Properties of the compiler's numbers and lists: integer arithmetic is exact or stops, flooring
  division goes through single precision and is not, and lists survive the way through a vector.
\<close>

section \<open>Integers\<close>

lemma fixnum_at: "fits_i32 i \<Longrightarrow> int_at s (make_imm imm_int (word_of_int i)) i"
  by (simp add: int_at_def fits_i32_def sint_sbintrunc' signed_take_bit_int_eq_self)

text \<open>Making an integer uses the room of one object at most.\<close>

lemma make_int_room:
  assumes "sly_room (Suc n) s" and "is_i64 i"
  shows "\<exists>v t. sly_make_int i s = Inr (v, t) \<and> int_at t v i \<and> grows s t \<and> sly_room n t"
proof (cases "fits_i32 i")
  case True
  then show ?thesis
    using sly_make_int_run [OF sly_room_fine [OF assms(1)] assms(2)] room_mono [OF assms(1), of n] by (auto simp: sly_make_int_def)
next
  case False
  obtain v t where t: "gc_malloc (SInt i) s = Inr (v, t)" "ptr_p v" "sly_heap t (GET_ADDR v) = Some (SInt i)" "grows s t" "sly_room n t"
    using sly_malloc_room [OF assms(1)] by blast
  then have "int_at t v i"
    using assms(2) by (auto simp: int_at_def ptr_p_def imm_p_def st_imm_def)
  then show ?thesis
    using t False by (auto simp: sly_make_int_def)
qed

text \<open>
  C25: Addition, subtraction and multiplication of two integers, small or boxed, give the exact result
  when it fits 64 bits and stop with an overflow otherwise, and the three comparisons are those of the
  integers.
\<close>

theorem sly_integers_exact:
  assumes "heap_fine s" and "int_at s x a" and "int_at s y b"
    and "(op, f) \<in> {(sly_add, (+)), (sly_sub, (-)), (sly_mul, (*))}"
  shows "(if is_i64 (f a b) then \<exists>v t. op x y s = Inr (v, t) \<and> int_at t v (f a b) \<and> grows s t
      else op x y s = Inl (Assert ''Error overflow'')) \<and>
    sly_num_eq x y s = Inr (a = b, s) \<and> sly_num_lt x y s = Inr (a < b, s) \<and> sly_num_gt x y s = Inr (b < a, s)"
  using adds.exact [OF assms(1-3)] adds.overflow [OF assms(2,3)] subs.exact [OF assms(1-3)]
    subs.overflow [OF assms(2,3)] muls.exact [OF assms(1-3)] muls.overflow [OF assms(2,3)]
    num_on_ints [OF assms(2,3)] assms(4) by auto

definition boxed_demo :: sly_state where
  "boxed_demo = sly_start\<lparr>sly_next := 32, sly_heap := [16 \<mapsto> SInt 9223372036854775807]\<rparr>"

lemma sly_integers_exact_witness:
  "sly_add 16 (make_imm imm_int 1) boxed_demo = Inl (Assert ''Error overflow'') \<and>
   sly_num_gt 16 (make_imm imm_int 1) boxed_demo = Inr (True, boxed_demo)"
proof -
  have "heap_fine boxed_demo"
    by (simp add: boxed_demo_def sly_start_def heap_fine_def)
  moreover have "int_at boxed_demo 16 9223372036854775807"
    by (simp add: boxed_demo_def int_at_def ptr_p_def imm_p_def void_p_def SLY_VOID_def GET_ADDR_def TAG_MASK_def st_imm_def)
  moreover have "int_at boxed_demo (make_imm imm_int 1) 1"
    using fixnum_at [of 1 boxed_demo] by (simp add: fits_i32_def)
  ultimately show ?thesis
    using sly_integers_exact [of boxed_demo 16 9223372036854775807 "make_imm imm_int 1" 1 sly_add "(+)"]
    by (simp add: is_i64_def)
qed

section \<open>Flooring division\<close>

lemma bitlen_numeral [simp]: "bitlen (numeral n) = Suc (bitlen (numeral n div 2))"
  by (subst bitlen.simps) simp

lemma bitlen_01 [simp]: "bitlen 0 = 0" "bitlen (Suc 0) = 1"
  by (subst bitlen.simps, simp)+

lemma big1: "f64_of_int 16777217 = 0x4170000010000000"
  by (simp add: f64_of_int_def f64_pack_def fp_round_def fp_emin_def Let_def)

lemma one1: "f64_of_int 1 = 0x3FF0000000000000"
  by (simp add: f64_of_int_def f64_pack_def fp_round_def fp_emin_def Let_def)

lemma dec1: "f64_decode 0x4170000010000000 = Fin False 0x10000010000000 (- 28)"
  by (simp add: f64_decode_def fp_decode_def fp_emin_def Let_def)
lemma dec2: "f64_decode 0x3FF0000000000000 = Fin False 0x10000000000000 (- 52)"
  by (simp add: f64_decode_def fp_decode_def fp_emin_def Let_def)
lemma bl: "bitlen 4503599895805952 = 53" "bitlen 4503599627370496 = 53"
  by simp_all
lemma bl2: "bitlen 649037146002479681234445631750144 = 110"
  by simp
lemma rne1: "rne 4503599895805952 29 = 8388608"
  by (simp add: rne_def)
lemma rne2: "rne 649037146002479681234445631750144 57 = 4503599895805952"
  by (simp add: rne_def)
lemma quot: "f64_div 0x4170000010000000 0x3FF0000000000000 = 0x4170000010000000"
proof -
  have "fp_round 52 11 False 649037146002479681234445631750144 (- 85) = 0x4170000010000000"
    unfolding fp_round_def bl2 by (simp add: fp_emin_def Let_def rne2)
  then have "fp_quot False 4503599895805952 (- 28) 4503599627370496 (- 52) = 0x4170000010000000"
    unfolding fp_quot_def bl by (simp add: f64_pack_def)
  then show ?thesis
    by (simp add: f64_div_def dec1 dec2)
qed
lemma narrow: "f32_of_f64 0x4170000010000000 = 0x4B800000"
proof -
  have "fp_round 23 8 False 4503599895805952 (- 28) = 0x4B800000"
    unfolding fp_round_def bl by (simp add: fp_emin_def Let_def rne1)
  then show ?thesis
    by (simp add: f32_of_f64_def dec1)
qed
lemma widen: "f64_of_f32 0x4B800000 = 0x4170000000000000"
  by (simp add: f64_of_f32_def fp_decode_def f64_pack_def fp_round_def fp_emin_def Let_def rne_def)
lemma dec3: "f64_decode 0x4170000000000000 = Fin False 0x10000000000000 (- 28)"
  by (simp add: f64_decode_def fp_decode_def fp_emin_def Let_def)

text \<open>
  The quotient of a flooring division of integers goes through single precision: 16777217 divided by
  1 is 16777216.
\<close>

theorem floor_div_inexact:
  "sly_floor_div (make_imm imm_int 16777217) (make_imm imm_int 1) s = Inr (make_imm imm_int 16777216, s)"
proof -
  have i: "int_at s (make_imm imm_int 16777217) 16777217" "int_at s (make_imm imm_int 1) 1"
    using fixnum_at [of 16777217 s] fixnum_at [of 1 s] by (simp_all add: fits_i32_def)
  have "sly_div (make_imm imm_int 16777217) (make_imm imm_int 1) s = Inr (make_small_float 0x4B800000, s)"
    using i by (simp add: sly_div_def sly_divix_def expect_def big1 one1 quot sly_make_float_def narrow f32_inf_def)
  moreover have "sly_get_float (make_small_float 0x4B800000) s = Inr (0x4170000000000000, s)"
    by (simp add: sly_get_float_def expect_def float_p_def number_kind_p_def make_small_float_def widen)
  moreover have "i64_floor 0x4170000000000000 s = Inr (16777216, s)"
    by (simp add: i64_floor_def dec3 Let_def signed_nat_def is_i64_def)
  ultimately show ?thesis
    by (simp add: sly_floor_div_def sly_make_int_def fits_i32_def)
qed

section \<open>Lists and vectors\<close>

text \<open>
  A list copied into a vector gives the vector of its elements, and the vector copied back a list of
  the same elements.
\<close>

theorem list_vector_round_trip:
  assumes "slist_at s l xs" and "sly_room (1 + length xs) s" and "length xs < k"
  shows "\<exists>v t w u. list_to_vector k l s = Inr (v, t) \<and> vec_at t v xs \<and>
    vector_to_list v t = Inr (w, u) \<and> slist_at u w xs"
  by (rule list_vector_list [OF assms])

text \<open>
  Reversing a list gives a list of the same elements in the opposite order; each level copies what
  is below it, so it takes a quadratic number of pairs.
\<close>

theorem list_reverse_reverses:
  assumes "slist_at s l xs" and "sly_room (reverse_pairs (length xs)) s" and "length xs < k"
  shows "\<exists>w t. list_reverse k l s = Inr (w, t) \<and> slist_at t w (rev xs) \<and> grows s t \<and>
    reverse_pairs (length xs) * 2 = length xs * (length xs + 1)"
proof -
  have "reverse_pairs n * 2 = n * (n + 1)" for n
    by (induction n) simp_all
  then show ?thesis
    using list_reverse_run [OF assms(1), of 0 k] assms(2,3) by auto
qed

definition lists_demo :: sly_state where
  "lists_demo = sly_start\<lparr>sly_next := 48, sly_heap := [16 \<mapsto> SPair SLY_TRUE 32, 32 \<mapsto> SPair SLY_FALSE SLY_NULL]\<rparr>"

lemma lists_demo_list: "slist_at lists_demo 16 [SLY_TRUE, SLY_FALSE]" "sly_room 3 lists_demo"
  by (auto simp: lists_demo_def sly_start_def spair_at_def sly_room_def heap_fine_def ptr_p_def void_p_def SLY_VOID_def
      GET_ADDR_def TAG_MASK_def)

lemma list_vector_round_trip_witness:
  "\<exists>v t w u. list_to_vector 3 16 lists_demo = Inr (v, t) \<and> vec_at t v [SLY_TRUE, SLY_FALSE] \<and>
    vector_to_list v t = Inr (w, u) \<and> slist_at u w [SLY_TRUE, SLY_FALSE]"
  by (rule list_vector_round_trip [OF lists_demo_list(1)]) (use lists_demo_list(2) in \<open>simp_all add: numeral_3_eq_3\<close>)

lemma list_reverse_reverses_witness:
  "\<exists>w t. list_reverse 3 16 lists_demo = Inr (w, t) \<and> slist_at t w [SLY_FALSE, SLY_TRUE] \<and> grows lists_demo t"
  using list_reverse_reverses [OF lists_demo_list(1), of 3] lists_demo_list(2) by (simp add: numeral_3_eq_3)

end
