(* ===== verification/Sly_Equal.thy ===== *)
theory Sly_Equal
  imports Sly_Numbers Sly_Lists
begin

text \<open>
  Hashing and equality of the interpreter's values, and what rests on them: the search of a
  dictionary's slots, and the list and vector operations that compare elements
  (src/sly_types.c).  Hash and equality descend into the data, which may be circular, so they
  are fuelled.  The two messages the source prints before it stops are left out.
\<close>

section \<open>Access to objects\<close>

definition ifM :: "bool sly \<Rightarrow> 'a sly \<Rightarrow> 'a sly \<Rightarrow> 'a sly" where
  "ifM p a b = bnd p (\<lambda>c. if c then a else b)"

lemma ifM_run [simp]: "p s = Inr (c, t) \<Longrightarrow> ifM p a b s = (if c then a t else b t)"
  by (simp add: ifM_def)

lemma ifM_False [simp]: "p s = Inr (False, t) \<Longrightarrow> ifM p a b s = b t"
  by (simp add: ifM_def)

lemma ifM_fault [simp]: "p s = Inl e \<Longrightarrow> ifM p a b s = Inl e"
  by (simp add: ifM_def)

text \<open>\<open>p (x) && p (y)\<close>.\<close>

definition both :: "(sly_value \<Rightarrow> bool sly) \<Rightarrow> sly_value \<Rightarrow> sly_value \<Rightarrow> bool sly" where
  "both p x y = ifM (p x) (p y) (ret False)"

text \<open>The fields of an object whose type has been checked.\<close>

definition as_symbol :: "sly_value \<Rightarrow> (64 word \<times> 8 word list \<times> sly_value) sly" where
  "as_symbol v = bnd (sly_obj_at v) (\<lambda>ob.
     case ob of SSymbol h nm al \<Rightarrow> ret (h, nm, al) | _ \<Rightarrow> fail (UB ''object of another type''))"

definition as_bytes :: "sly_value \<Rightarrow> (8 word list) sly" where
  "as_bytes v = bnd (sly_obj_at v) (\<lambda>ob.
     case ob of SBytes bs \<Rightarrow> ret bs | SString bs \<Rightarrow> ret bs | _ \<Rightarrow> fail (UB ''object of another type''))"

definition as_vector :: "sly_value \<Rightarrow> (nat \<times> sly_value option list) sly" where
  "as_vector v = bnd (sly_obj_at v) (\<lambda>ob.
     case ob of SVector len els \<Rightarrow> ret (len, els) | _ \<Rightarrow> fail (UB ''object of another type''))"

definition as_dict :: "sly_value \<Rightarrow> (nat \<times> sly_value list) sly" where
  "as_dict v = bnd (sly_obj_at v) (\<lambda>ob.
     case ob of SDict len slots \<Rightarrow> ret (len, slots) | _ \<Rightarrow> fail (UB ''object of another type''))"

definition as_syntax :: "sly_value \<Rightarrow> (token \<times> sly_value \<times> sly_value \<times> 32 word) sly" where
  "as_syntax v = bnd (sly_obj_at v) (\<lambda>ob.
     case ob of SSyntax tok sc d ctx \<Rightarrow> ret (tok, sc, d, ctx) | _ \<Rightarrow> fail (UB ''object of another type''))"

section \<open>Hashing\<close>

definition DH :: "64 word \<Rightarrow> 8 word \<Rightarrow> 64 word" where
  "DH h c = (push_bit 5 h + h) + ucast c"

definition hash_bytes :: "8 word list \<Rightarrow> 64 word" where
  "hash_bytes bs = foldl DH 5381 bs"

text \<open>The bytes of a word as they lie in memory.\<close>

definition word_bytes :: "64 word \<Rightarrow> 8 word list" where
  "word_bytes x = map (\<lambda>i. ucast (drop_bit (8 * i) x)) [0..<8]"

definition hash_hash :: "64 word \<Rightarrow> 64 word \<Rightarrow> 64 word" where
  "hash_hash h x = foldl DH h (word_bytes x)"

text \<open>The conversion of a double to \<open>u64\<close>: undefined unless the integer part fits.\<close>

definition u64_of_f64 :: "64 word \<Rightarrow> (64 word) sly" where
  "u64_of_f64 d =
     (case f64_decode d of
        Fin sg m e \<Rightarrow>
          (let k = (if 0 \<le> e then m * 2 ^ nat e else m div 2 ^ nat (- e)) in
           bnd (check_ub ((sg \<longrightarrow> k = 0) \<and> k < 2 ^ 64) ''conversion out of range'') (\<lambda>_.
           ret (of_nat k)))
      | _ \<Rightarrow> fail (UB ''conversion out of range''))"

definition slot_is_free :: "sly_value \<Rightarrow> bool sly" where
  "slot_is_free slot = (if null_p slot then ret True else bnd (sly_car slot) (\<lambda>a. ret (null_p a)))"

fun hash_elems :: "(sly_value \<Rightarrow> (64 word) sly) \<Rightarrow> 64 word \<Rightarrow> sly_value option list \<Rightarrow> (64 word) sly" where
  "hash_elems hf h [] = ret h"
| "hash_elems hf h (x # xs) =
     bnd (elem_read [x] 0) (\<lambda>v. bnd (hf v) (\<lambda>k. hash_elems hf (hash_hash h k) xs))"

fun hash_slots :: "(sly_value \<Rightarrow> (64 word) sly) \<Rightarrow> 64 word \<Rightarrow> sly_value list \<Rightarrow> (64 word) sly" where
  "hash_slots hf h [] = ret h"
| "hash_slots hf h (x # xs) =
     ifM (slot_is_free x) (hash_slots hf h xs)
       (bnd (hf x) (\<lambda>k. hash_slots hf (hash_hash h k) xs))"

definition hash_vector :: "(sly_value \<Rightarrow> (64 word) sly) \<Rightarrow> sly_value \<Rightarrow> (64 word) sly" where
  "hash_vector hf v = bnd (as_vector v) (\<lambda>(len, els). hash_elems hf 5381 (take len els))"

definition hash_dict :: "(sly_value \<Rightarrow> (64 word) sly) \<Rightarrow> sly_value \<Rightarrow> (64 word) sly" where
  "hash_dict hf v = bnd (as_dict v) (\<lambda>(len, slots). hash_slots hf 5381 slots)"

definition hash_syntax :: "(sly_value \<Rightarrow> (64 word) sly) \<Rightarrow> sly_value \<Rightarrow> (64 word) sly" where
  "hash_syntax hf v =
     bnd (as_syntax v) (\<lambda>(_, sc, d, _).
     bnd (hf d) (\<lambda>h. bnd (hf sc) (\<lambda>k. ret (hash_hash h k))))"

text \<open>A pair is hashed by the words it holds, not by the data behind them.\<close>

definition hash_pair :: "sly_value \<Rightarrow> (64 word) sly" where
  "hash_pair v = bnd (sly_car v) (\<lambda>a. bnd (sly_cdr v) (\<lambda>d. ret (hash_hash a d)))"

fun sly_hash :: "nat \<Rightarrow> sly_value \<Rightarrow> (64 word) sly" where
  "sly_hash 0 v = fail NoFuel"
| "sly_hash (Suc n) v =
     (if null_p v then ret 0
      else ifM (int_p v) (bnd (get_int v) (\<lambda>i. ret (word_of_int i)))
      (ifM (float_p v) (bnd (sly_get_float v) u64_of_f64)
      (ifM (symbol_p v) (bnd (as_symbol v) (\<lambda>(h, _, _). ret h))
      (ifM (string_p v) (bnd (as_bytes v) (\<lambda>bs. ret (hash_bytes (take 32 bs))))
      (ifM (byte_vector_p v) (bnd (as_bytes v) (\<lambda>bs. ret (hash_bytes bs)))
      (ifM (vector_p v) (hash_vector (sly_hash n) v)
      (ifM (dictionary_p v) (hash_dict (sly_hash n) v)
      (ifM (syntax_p v) (hash_syntax (sly_hash n) v)
      (ifM (pair_p v) (hash_pair v)
      (fail (Assert ''Hash unemplemented for type'')))))))))))"

section \<open>The slots of a dictionary\<close>

text \<open>
  A slot is null, or a pair of a key and its value; the key of a removed entry is null.  The
  search goes from the hash index to the end and then from the start to the hash index.  It
  ends at a null slot, and then prefers the first removed entry it met.
\<close>

definition probe_order :: "nat \<Rightarrow> nat \<Rightarrow> nat list" where
  "probe_order cap idx = [idx..<cap] @ [0..<idx]"

fun dict_scan :: "(sly_value \<Rightarrow> sly_value \<Rightarrow> bool sly) \<Rightarrow> sly_value \<Rightarrow> sly_value list \<Rightarrow> nat option \<Rightarrow>
    nat list \<Rightarrow> nat sly" where
  "dict_scan eq key slots free [] = fail (Assert ''Dictionary Key Error key not found'')"
| "dict_scan eq key slots free (i # is) =
     (if null_p (slots ! i) then ret (case free of None \<Rightarrow> i | Some j \<Rightarrow> j)
      else bnd (sly_car (slots ! i)) (\<lambda>k.
        if null_p k then dict_scan eq key slots (case free of None \<Rightarrow> Some i | Some j \<Rightarrow> Some j) is
        else ifM (eq key k) (ret i) (dict_scan eq key slots free is)))"

definition slot_search :: "(sly_value \<Rightarrow> (64 word) sly) \<Rightarrow> (sly_value \<Rightarrow> sly_value \<Rightarrow> bool sly) \<Rightarrow>
    sly_value \<Rightarrow> sly_value \<Rightarrow> nat sly" where
  "slot_search hf eq d key =
     bnd (as_dict d) (\<lambda>(len, slots).
     bnd (hf key) (\<lambda>h.
     bnd (check_ub (slots \<noteq> []) ''division by zero'') (\<lambda>_.
     dict_scan eq key slots None (probe_order (length slots) (unat h mod length slots)))))"

definition entry_search :: "(sly_value \<Rightarrow> (64 word) sly) \<Rightarrow> (sly_value \<Rightarrow> sly_value \<Rightarrow> bool sly) \<Rightarrow>
    sly_value \<Rightarrow> sly_value \<Rightarrow> sly_value sly" where
  "entry_search hf eq d key =
     bnd (expect (dictionary_p d) ''Type Error expected <dictionary>'') (\<lambda>_.
     bnd (check (\<not> null_p key) ''Type Error key cannot be <null>'') (\<lambda>_.
     bnd (check (\<not> void_p key) ''Type Error key cannot be <void>'') (\<lambda>_.
     bnd (slot_search hf eq d key) (\<lambda>i.
     bnd (as_dict d) (\<lambda>(len, slots). ret (slots ! i))))))"

section \<open>Equality\<close>

definition symbol_eq :: "sly_value \<Rightarrow> sly_value \<Rightarrow> bool sly" where
  "symbol_eq o1 o2 =
     bnd (expect (symbol_p o1) ''Type Error: Expected symbol'') (\<lambda>_.
     bnd (expect (symbol_p o2) ''Type Error: Expected symbol'') (\<lambda>_.
     bnd (as_symbol o1) (\<lambda>(h1, _, _).
     bnd (as_symbol o2) (\<lambda>(h2, _, _). ret (h1 = h2)))))"

text \<open>
  The first bytes are compared before the lengths are known not to be zero, and the rest with
  a length of \<open>SIZE_MAX\<close> when they are zero.
\<close>

definition bytes_eq :: "sly_value \<Rightarrow> sly_value \<Rightarrow> bool sly" where
  "bytes_eq s1 s2 =
     bnd (expect (ifM (both string_p s1 s2) (ret True) (both byte_vector_p s1 s2))
       ''Type error expected <string>'') (\<lambda>_.
     bnd (as_bytes s1) (\<lambda>bs1.
     bnd (as_bytes s2) (\<lambda>bs2.
     if length bs1 \<noteq> length bs2 then ret False
     else bnd (check_ub (bs1 \<noteq> []) ''comparison past the end of an object'') (\<lambda>_. ret (bs1 = bs2)))))"

definition sly_eq :: "sly_value \<Rightarrow> sly_value \<Rightarrow> bool sly" where
  "sly_eq o1 o2 = ifM (both symbol_p o1 o2) (symbol_eq o1 o2) (ret (o1 = o2))"

definition sly_eqv :: "sly_value \<Rightarrow> sly_value \<Rightarrow> bool sly" where
  "sly_eqv o1 o2 = ifM (both number_p o1 o2) (sly_num_eq o1 o2) (sly_eq o1 o2)"

fun elems_eq :: "(sly_value \<Rightarrow> sly_value \<Rightarrow> bool sly) \<Rightarrow> sly_value option list \<Rightarrow>
    sly_value option list \<Rightarrow> bool sly" where
  "elems_eq eq (x # xs) (y # ys) =
     bnd (elem_read [x] 0) (\<lambda>a. bnd (elem_read [y] 0) (\<lambda>b.
     ifM (eq a b) (elems_eq eq xs ys) (ret False)))"
| "elems_eq eq _ _ = ret True"

definition vector_eq_by :: "(sly_value \<Rightarrow> sly_value \<Rightarrow> bool sly) \<Rightarrow> sly_value \<Rightarrow> sly_value \<Rightarrow> bool sly" where
  "vector_eq_by eq o1 o2 =
     ifM (both vector_p o1 o2)
       (bnd (as_vector o1) (\<lambda>(l1, e1).
        bnd (as_vector o2) (\<lambda>(l2, e2).
        if l1 \<noteq> l2 then ret False else elems_eq eq (take l1 e1) (take l2 e2))))
       (ret False)"

fun list_eq_by :: "(sly_value \<Rightarrow> sly_value \<Rightarrow> bool sly) \<Rightarrow> nat \<Rightarrow> sly_value \<Rightarrow> sly_value \<Rightarrow> bool sly" where
  "list_eq_by eq 0 o1 o2 = fail NoFuel"
| "list_eq_by eq (Suc m) o1 o2 =
     ifM (both pair_p o1 o2)
       (bnd (sly_car o1) (\<lambda>a. bnd (sly_car o2) (\<lambda>b.
        ifM (eq a b) (bnd (sly_cdr o1) (\<lambda>x. bnd (sly_cdr o2) (\<lambda>y. list_eq_by eq m x y))) (ret False))))
       (eq o1 o2)"

fun keys_in :: "(sly_value \<Rightarrow> (64 word) sly) \<Rightarrow> (sly_value \<Rightarrow> sly_value \<Rightarrow> bool sly) \<Rightarrow> sly_value \<Rightarrow>
    sly_value list \<Rightarrow> bool sly" where
  "keys_in hf eq set1 [] = ret True"
| "keys_in hf eq set1 (e # es) =
     ifM (slot_is_free e) (keys_in hf eq set1 es)
       (bnd (sly_car e) (\<lambda>k. bnd (entry_search hf eq set1 k) (\<lambda>found.
        ifM (slot_is_free found) (ret False) (keys_in hf eq set1 es))))"

definition is_subset :: "(sly_value \<Rightarrow> (64 word) sly) \<Rightarrow> (sly_value \<Rightarrow> sly_value \<Rightarrow> bool sly) \<Rightarrow>
    sly_value \<Rightarrow> sly_value \<Rightarrow> bool sly" where
  "is_subset hf eq set1 set2 =
     ifM (both dictionary_p set1 set2)
       (bnd (as_dict set1) (\<lambda>(l1, _). bnd (as_dict set2) (\<lambda>(l2, slots).
        if l1 \<noteq> l2 then ret False else keys_in hf eq set1 slots)))
       (ret False)"

fun sly_equal :: "nat \<Rightarrow> sly_value \<Rightarrow> sly_value \<Rightarrow> bool sly" where
  "sly_equal 0 o1 o2 = fail NoFuel"
| "sly_equal (Suc n) o1 o2 =
     ifM (both syntax_p o1 o2)
       (bnd (as_syntax o1) (\<lambda>(_, sc1, d1, _).
        bnd (as_syntax o2) (\<lambda>(_, sc2, d2, _).
        bnd (list_len (Suc n) sc1) (\<lambda>l1. bnd (list_len (Suc n) sc2) (\<lambda>l2.
        if l1 \<noteq> l2 then ret False
        else ifM (is_subset (sly_hash n) (sly_equal n) sc1 sc2) (sly_equal n d1 d2) (ret False))))))
     (ifM (both symbol_p o1 o2) (symbol_eq o1 o2)
     (ifM (both number_p o1 o2) (sly_num_eq o1 o2)
     (ifM (both string_p o1 o2) (bytes_eq o1 o2)
     (ifM (both byte_vector_p o1 o2) (bytes_eq o1 o2)
     (ifM (both vector_p o1 o2) (vector_eq_by (sly_equal n) o1 o2)
     (ifM (both pair_p o1 o2) (list_eq_by (sly_equal n) n o1 o2)
     (ret (o1 = o2))))))))"

definition vector_eq :: "nat \<Rightarrow> sly_value \<Rightarrow> sly_value \<Rightarrow> bool sly" where
  "vector_eq n = vector_eq_by (sly_equal n)"

definition list_eq :: "nat \<Rightarrow> sly_value \<Rightarrow> sly_value \<Rightarrow> bool sly" where
  "list_eq n = list_eq_by (sly_equal n) n"

definition dict_get_slot :: "nat \<Rightarrow> sly_value \<Rightarrow> sly_value \<Rightarrow> nat sly" where
  "dict_get_slot n = slot_search (sly_hash n) (sly_equal n)"

definition dictionary_entry_ref :: "nat \<Rightarrow> sly_value \<Rightarrow> sly_value \<Rightarrow> sly_value sly" where
  "dictionary_entry_ref n = entry_search (sly_hash n) (sly_equal n)"

definition set_contains :: "nat \<Rightarrow> sly_value \<Rightarrow> sly_value \<Rightarrow> bool sly" where
  "set_contains n st v =
     bnd (dictionary_entry_ref n st v) (\<lambda>e. bnd (slot_is_free e) (\<lambda>b. ret (\<not> b)))"

text \<open>An identifier is a syntax object around a symbol.\<close>

definition syntax_to_datum :: "sly_value \<Rightarrow> sly_value sly" where
  "syntax_to_datum v =
     bnd (expect (syntax_p v) ''Type Error expected <syntax>'') (\<lambda>_.
     bnd (as_syntax v) (\<lambda>(_, _, d, _). ret d))"

definition identifier_p :: "sly_value \<Rightarrow> bool sly" where
  "identifier_p v = ifM (syntax_p v) (bnd (syntax_to_datum v) symbol_p) (ret False)"

definition syntax_pair_p :: "sly_value \<Rightarrow> bool sly" where
  "syntax_pair_p v = ifM (syntax_p v) (bnd (syntax_to_datum v) pair_p) (ret False)"

definition identifier_eq :: "sly_value \<Rightarrow> sly_value \<Rightarrow> bool sly" where
  "identifier_eq o1 o2 =
     ifM (both identifier_p o1 o2)
       (bnd (as_syntax o1) (\<lambda>(_, _, d1, _). bnd (as_syntax o2) (\<lambda>(_, _, d2, _). symbol_eq d1 d2)))
       (ret False)"

section \<open>Lists as sets\<close>

fun list_member :: "nat \<Rightarrow> sly_value \<Rightarrow> sly_value \<Rightarrow> bool sly" where
  "list_member 0 v xs = fail NoFuel"
| "list_member (Suc n) v xs =
     (if null_p xs then ret False
      else bnd (sly_car xs) (\<lambda>a.
        ifM (sly_equal (Suc n) v a) (ret True) (bnd (sly_cdr xs) (list_member n v))))"

fun list_nub :: "nat \<Rightarrow> sly_value \<Rightarrow> sly_value sly" where
  "list_nub 0 xs = fail NoFuel"
| "list_nub (Suc n) xs =
     (if null_p xs then ret xs
      else bnd (sly_car xs) (\<lambda>a. bnd (sly_cdr xs) (\<lambda>d.
        ifM (list_member n a d) (list_nub n d)
          (bnd (list_nub n d) (\<lambda>r. sly_cons a r)))))"

definition list_union :: "nat \<Rightarrow> sly_value \<Rightarrow> sly_value \<Rightarrow> sly_value sly" where
  "list_union n xs ys = bnd (list_append n xs ys) (list_nub n)"

fun index_from :: "nat \<Rightarrow> int \<Rightarrow> sly_value \<Rightarrow> sly_value \<Rightarrow> int sly" where
  "index_from 0 i list v = fail NoFuel"
| "index_from (Suc n) i list v =
     (if null_p list then ret (- 1)
      else bnd (sly_car list) (\<lambda>a.
        ifM (sly_equal (Suc n) a v) (ret i) (bnd (sly_cdr list) (\<lambda>d. index_from n (i + 1) d v))))"

definition list_index_of :: "nat \<Rightarrow> sly_value \<Rightarrow> sly_value \<Rightarrow> int sly" where
  "list_index_of n list v = index_from n 0 list v"

fun list_remove :: "nat \<Rightarrow> sly_value \<Rightarrow> sly_value \<Rightarrow> sly_value sly" where
  "list_remove 0 xs v = fail NoFuel"
| "list_remove (Suc n) xs v =
     (if null_p xs then ret SLY_NULL
      else bnd (sly_car xs) (\<lambda>a. bnd (sly_cdr xs) (\<lambda>d.
        ifM (sly_equal (Suc n) a v) (list_remove n d v)
          (bnd (list_remove n d v) (\<lambda>r. sly_cons a r)))))"

fun list_subtract :: "nat \<Rightarrow> sly_value \<Rightarrow> sly_value \<Rightarrow> sly_value sly" where
  "list_subtract 0 xs ys = fail NoFuel"
| "list_subtract (Suc n) xs ys =
     (if null_p xs \<or> null_p ys then ret xs
      else bnd (sly_car ys) (\<lambda>a. bnd (list_remove (Suc n) xs a) (\<lambda>xs'.
        bnd (sly_cdr ys) (list_subtract n xs'))))"

fun contains_from :: "nat \<Rightarrow> nat \<Rightarrow> nat \<Rightarrow> sly_value \<Rightarrow> sly_value \<Rightarrow> bool sly" where
  "contains_from n i 0 vec v = ret False"
| "contains_from n i (Suc k) vec v =
     bnd (vector_ref vec i) (\<lambda>x. ifM (sly_equal n x v) (ret True) (contains_from n (Suc i) k vec v))"

definition vector_contains :: "nat \<Rightarrow> sly_value \<Rightarrow> sly_value \<Rightarrow> bool sly" where
  "vector_contains n vec v = bnd (vector_len vec) (\<lambda>len. contains_from n 0 len vec v)"

end
