(* ===== verification/Sly_Dict.thy ===== *)
theory Sly_Dict
  imports Sly_Equal
begin

text \<open>
  The dictionaries of src/sly_types.c: open addressing with linear probing over a power of two
  of slots, removed entries kept as pairs with a null key, and doubling past a load of 0.70.
  The operations take the hash and the equality of the keys as arguments where their proofs
  need no more than the laws of the locale \<open>dict_keys\<close>; the source's are those of \<open>Sly_Equal\<close>.
\<close>

section \<open>Operations\<close>

definition DICT_INIT_SIZE :: nat where
  "DICT_INIT_SIZE = 32"

definition make_dictionary_sz :: "nat \<Rightarrow> sly_value sly" where
  "make_dictionary_sz sz = gc_malloc (SDict 0 (replicate sz SLY_NULL))"

definition make_dictionary :: "sly_value sly" where
  "make_dictionary = make_dictionary_sz DICT_INIT_SIZE"

text \<open>
  \<open>((f64)len / (f64)cap) > 0.70\<close>. Every capacity is a power of two, so the quotient is exact,
  and none lies between 7/10 and the double nearest to it.
\<close>

definition over_load :: "nat \<Rightarrow> nat \<Rightarrow> bool" where
  "over_load len cap \<longleftrightarrow> 7 * cap < 10 * len"

fun set_slots :: "(sly_value \<Rightarrow> sly_value \<Rightarrow> sly_value \<Rightarrow> unit sly) \<Rightarrow> sly_value \<Rightarrow> sly_value list \<Rightarrow> unit sly" where
  "set_slots setf d [] = ret ()"
| "set_slots setf d (e # es) =
     ifM (slot_is_free e) (set_slots setf d es)
       (bnd (sly_car e) (\<lambda>k. bnd (sly_cdr e) (\<lambda>v.
        bnd (setf d k v) (\<lambda>_. set_slots setf d es))))"

text \<open>The new table takes the old one's slots in exchange, and is dropped.\<close>

definition dict_resize_by :: "(sly_value \<Rightarrow> sly_value \<Rightarrow> sly_value \<Rightarrow> unit sly) \<Rightarrow> sly_value \<Rightarrow> unit sly" where
  "dict_resize_by setf d =
     bnd (as_dict d) (\<lambda>(_, slots).
     bnd (make_dictionary_sz (2 * length slots)) (\<lambda>nd.
     bnd (set_slots setf nd slots) (\<lambda>_.
     bnd (as_dict nd) (\<lambda>(len', slots').
     bnd (sly_obj_set d (SDict len' slots')) (\<lambda>_.
     sly_obj_set nd (SDict len' slots))))))"

definition dict_key_ok :: "sly_value \<Rightarrow> sly_value \<Rightarrow> unit sly" where
  "dict_key_ok d key =
     bnd (expect (dictionary_p d) ''Type Error expected <dictionary>'') (\<lambda>_.
     bnd (check (\<not> null_p key) ''Type Error key cannot be <null>'') (\<lambda>_.
     check (\<not> void_p key) ''Type Error key cannot be <void>''))"

fun dict_set_by :: "(sly_value \<Rightarrow> (64 word) sly) \<Rightarrow> (sly_value \<Rightarrow> sly_value \<Rightarrow> bool sly) \<Rightarrow> nat \<Rightarrow>
    sly_value \<Rightarrow> sly_value \<Rightarrow> sly_value \<Rightarrow> unit sly" where
  "dict_set_by hf eq 0 d key v = fail NoFuel"
| "dict_set_by hf eq (Suc m) d key v =
     bnd (dict_key_ok d key) (\<lambda>_.
     bnd (slot_search hf eq d key) (\<lambda>i.
     bnd (as_dict d) (\<lambda>(len, slots).
     ifM (slot_is_free (slots ! i))
       (bnd (sly_cons key v) (\<lambda>c.
        bnd (sly_obj_set d (SDict (len + 1) (slots[i := c]))) (\<lambda>_.
        if over_load (len + 1) (length slots) then dict_resize_by (dict_set_by hf eq m) d
        else ret ())))
       (sly_set_cdr (slots ! i) v))))"

definition dictionary_set :: "nat \<Rightarrow> sly_value \<Rightarrow> sly_value \<Rightarrow> sly_value \<Rightarrow> unit sly" where
  "dictionary_set n = dict_set_by (sly_hash n) (sly_equal n) n"

definition dict_resize :: "nat \<Rightarrow> sly_value \<Rightarrow> unit sly" where
  "dict_resize n d = dict_resize_by (dictionary_set n) d"

definition dict_ref_by :: "(sly_value \<Rightarrow> (64 word) sly) \<Rightarrow> (sly_value \<Rightarrow> sly_value \<Rightarrow> bool sly) \<Rightarrow>
    sly_value \<Rightarrow> sly_value \<Rightarrow> sly_value \<Rightarrow> sly_value sly" where
  "dict_ref_by hf eq d key not_found =
     bnd (entry_search hf eq d key) (\<lambda>e. ifM (slot_is_free e) (ret not_found) (sly_cdr e))"

definition dictionary_ref :: "nat \<Rightarrow> sly_value \<Rightarrow> sly_value \<Rightarrow> sly_value \<Rightarrow> sly_value sly" where
  "dictionary_ref n = dict_ref_by (sly_hash n) (sly_equal n)"

definition dict_remove_by :: "(sly_value \<Rightarrow> (64 word) sly) \<Rightarrow> (sly_value \<Rightarrow> sly_value \<Rightarrow> bool sly) \<Rightarrow>
    sly_value \<Rightarrow> sly_value \<Rightarrow> unit sly" where
  "dict_remove_by hf eq d key =
     bnd (dict_key_ok d key) (\<lambda>_.
     bnd (slot_search hf eq d key) (\<lambda>i.
     bnd (as_dict d) (\<lambda>(_, slots).
     bnd (expect (bnd (slot_is_free (slots ! i)) (\<lambda>b. ret (\<not> b))) ''Dictionary Key Error key not found'') (\<lambda>_.
     bnd (sly_set_car (slots ! i) SLY_NULL) (\<lambda>_.
     bnd (as_dict d) (\<lambda>(len, slots'). sly_obj_set d (SDict (len - 1) slots')))))))"

definition dictionary_remove :: "nat \<Rightarrow> sly_value \<Rightarrow> sly_value \<Rightarrow> unit sly" where
  "dictionary_remove n = dict_remove_by (sly_hash n) (sly_equal n)"

definition dict_of :: "sly_value \<Rightarrow> string \<Rightarrow> (nat \<times> sly_value list) sly" where
  "dict_of d msg = bnd (expect (dictionary_p d) msg) (\<lambda>_. as_dict d)"

definition dictionary_len :: "sly_value \<Rightarrow> nat sly" where
  "dictionary_len d = bnd (dict_of d ''Type error expected dictionary'') (\<lambda>(len, slots). ret len)"

definition dictionary_cap :: "sly_value \<Rightarrow> nat sly" where
  "dictionary_cap d = bnd (dict_of d ''Type error expected dictionary'') (\<lambda>(len, slots). ret (length slots))"

definition dictionary_import :: "nat \<Rightarrow> sly_value \<Rightarrow> sly_value \<Rightarrow> unit sly" where
  "dictionary_import n dst src =
     bnd (expect (dictionary_p dst) ''Type Error expected <dictionary>'') (\<lambda>_.
     bnd (dict_of src ''Type Error expected <dictionary>'') (\<lambda>(_, slots).
     set_slots (dictionary_set n) dst slots))"

definition copy_dictionary :: "nat \<Rightarrow> sly_value \<Rightarrow> sly_value sly" where
  "copy_dictionary n d =
     bnd (expect (dictionary_p d) ''Type error expected dictionary'') (\<lambda>_.
     bnd make_dictionary (\<lambda>cpy.
     bnd (as_dict d) (\<lambda>(_, slots).
     bnd (set_slots (dictionary_set n) cpy slots) (\<lambda>_. ret cpy))))"

definition dictionary_union :: "nat \<Rightarrow> sly_value \<Rightarrow> sly_value \<Rightarrow> sly_value sly" where
  "dictionary_union n d1 d2 =
     bnd (copy_dictionary n d1) (\<lambda>d. bnd (dictionary_import n d d2) (\<lambda>_. ret d))"

text \<open>The lists of entries, keys and values: the last slot's comes first.\<close>

fun gather :: "(sly_value \<Rightarrow> sly_value sly) \<Rightarrow> sly_value \<Rightarrow> sly_value list \<Rightarrow> sly_value sly" where
  "gather part acc [] = ret acc"
| "gather part acc (e # es) =
     ifM (slot_is_free e) (gather part acc es)
       (bnd (part e) (\<lambda>x. bnd (sly_cons x acc) (\<lambda>acc'. gather part acc' es)))"

definition dictionary_to_alist :: "sly_value \<Rightarrow> sly_value sly" where
  "dictionary_to_alist d =
     bnd (dict_of d ''Type error expected dictionary'') (\<lambda>(_, slots).
     gather (\<lambda>e. bnd (sly_car e) (\<lambda>a. bnd (sly_cdr e) (\<lambda>v. sly_cons a v))) SLY_NULL slots)"

definition dictionary_get_entries :: "sly_value \<Rightarrow> sly_value sly" where
  "dictionary_get_entries d =
     bnd (dict_of d ''Type Error expected <dictionary>'') (\<lambda>(_, slots). gather ret SLY_NULL slots)"

definition dictionary_get_keys :: "sly_value \<Rightarrow> sly_value sly" where
  "dictionary_get_keys d =
     bnd (dict_of d ''Type Error expected <dictionary>'') (\<lambda>(_, slots). gather sly_car SLY_NULL slots)"

definition dictionary_get_values :: "sly_value \<Rightarrow> sly_value sly" where
  "dictionary_get_values d =
     bnd (dict_of d ''Type Error expected <dictionary>'') (\<lambda>(_, slots). gather sly_cdr SLY_NULL slots)"

end
