(* ===== verification/Sly_Probe.thy ===== *)
theory Sly_Probe
  imports Sly_Dict
begin

text \<open>
  Linear probing on views of the slots of a dictionary: where a search ends, and the invariant
  under which a table of slots stands for a map.
\<close>

section \<open>Probing, on views of the slots\<close>

datatype 'k slot_view = Empty | Dead | Live 'k sly_value

fun live_of :: "'k slot_view list \<Rightarrow> ('k \<times> sly_value) list" where
  "live_of [] = []"
| "live_of (Live k v # vs) = (k, v) # live_of vs"
| "live_of (_ # vs) = live_of vs"

text \<open>What a table of slots holds.\<close>

definition vmap :: "'k slot_view list \<Rightarrow> 'k \<rightharpoonup> sly_value" where
  "vmap vs = map_of (live_of vs)"

fun scan :: "'k \<Rightarrow> 'k slot_view list \<Rightarrow> nat option \<Rightarrow> nat list \<Rightarrow> nat option" where
  "scan k vs free [] = None"
| "scan k vs free (i # is) =
     (case vs ! i of
        Empty \<Rightarrow> Some (case free of None \<Rightarrow> i | Some j \<Rightarrow> j)
      | Dead \<Rightarrow> scan k vs (case free of None \<Rightarrow> Some i | Some j \<Rightarrow> Some j) is
      | Live k' _ \<Rightarrow> if k = k' then Some i else scan k vs free is)"

text \<open>The slots the search for a key visits before slot \<open>i\<close>.\<close>

definition before :: "nat \<Rightarrow> nat list \<Rightarrow> nat list" where
  "before i is = takeWhile (\<lambda>j. j \<noteq> i) is"

text \<open>
  Every key is found from its hash: no empty slot lies on the way to it, and no other slot
  holds the same key.
\<close>

definition probe_inv :: "('k \<Rightarrow> nat) \<Rightarrow> 'k slot_view list \<Rightarrow> bool" where
  "probe_inv h vs \<longleftrightarrow> vs \<noteq> [] \<and>
     (\<forall>i k v. i < length vs \<longrightarrow> vs ! i = Live k v \<longrightarrow>
        (\<forall>j \<in> set (before i (probe_order (length vs) (h k mod length vs))). vs ! j \<noteq> Empty) \<and>
        (\<forall>j v'. j < length vs \<longrightarrow> vs ! j = Live k v' \<longrightarrow> j = i))"

lemma set_probe_order: "idx \<le> cap \<Longrightarrow> set (probe_order cap idx) = {..<cap}"
  by (auto simp: probe_order_def)

lemma before_subset: "set (before i is) \<subseteq> set is"
  unfolding before_def by (auto dest: set_takeWhileD)

lemma before_Cons: "before i (j # is) = (if j = i then [] else j # before i is)"
  by (simp add: before_def)

lemma scan_live:
  assumes "i \<in> set is" and "vs ! i = Live k v" and "\<And>j. j \<in> set (before i is) \<Longrightarrow> vs ! j \<noteq> Empty"
    and "\<And>j v'. j \<in> set is \<Longrightarrow> vs ! j = Live k v' \<Longrightarrow> j = i"
  shows "scan k vs free is = Some i"
  using assms
proof (induction "is" arbitrary: free)
  case Nil
  from Nil.prems(1) show ?case by simp
next
  case (Cons j js)
  show ?case
  proof (cases "j = i")
    case True
    then show ?thesis
      using Cons.prems(2) by simp
  next
    case False
    have ne: "vs ! j \<noteq> Empty"
      using Cons.prems(3) [of j] False by (simp add: before_Cons)
    have IH: "scan k vs f js = Some i" for f
    proof (rule Cons.IH)
      show "i \<in> set js"
        using Cons.prems(1) False by simp
      show "vs ! m \<noteq> Empty" if "m \<in> set (before i js)" for m
        using Cons.prems(3) [of m] that False by (simp add: before_Cons)
      show "m = i" if "m \<in> set js" "vs ! m = Live k v'" for m v'
        using Cons.prems(4) [of m v'] that by simp
    qed (rule Cons.prems(2))
    show ?thesis
    proof (cases "vs ! j")
      case (Live k' v')
      then have "k' \<noteq> k"
        using Cons.prems(4) [of j v'] False by auto
      then show ?thesis
        using Live IH by simp
    qed (use ne IH in simp_all)
  qed
qed

lemma scan_free:
  assumes "\<And>j v'. j \<in> set is \<Longrightarrow> vs ! j \<noteq> Live k v'" and "Empty \<in> (!) vs ` set is"
  shows "scan k vs (Some f) is = Some f"
  using assms
proof (induction "is")
  case (Cons j js)
  have IH: "scan k vs (Some f) js = Some f" if "vs ! j \<noteq> Empty"
    using Cons.prems that by (intro Cons.IH) auto
  show ?case
  proof (cases "vs ! j")
    case (Live k' v')
    then have "k \<noteq> k'"
      using Cons.prems(1) [of j v'] by auto
    then show ?thesis
      using Live IH by simp
  qed (use IH in simp_all)
qed simp

lemma scan_new:
  assumes "\<And>j v'. j \<in> set is \<Longrightarrow> vs ! j \<noteq> Live k v'" and "Empty \<in> (!) vs ` set is"
  obtains i where "scan k vs None is = Some i" "vs ! i = Empty \<or> vs ! i = Dead" "i \<in> set is"
    "Empty \<notin> (!) vs ` set (before i is)"
  using assms
proof (induction "is" arbitrary: thesis)
  case (Cons j js)
  show ?case
  proof (cases "vs ! j")
    case Empty
    then show ?thesis
      using Cons.prems(1) [of j] by (simp add: before_Cons)
  next
    case Dead
    have "Empty \<in> (!) vs ` set js"
      using Cons.prems(3) Dead by auto
    then have "scan k vs (Some j) js = Some j"
      using Cons.prems(2) by (intro scan_free) auto
    then show ?thesis
      using Cons.prems(1) [of j] Dead by (simp add: before_Cons)
  next
    case (Live k' v')
    have "Empty \<in> (!) vs ` set js"
      using Cons.prems(3) Live by auto
    then obtain i where i: "scan k vs None js = Some i" "vs ! i = Empty \<or> vs ! i = Dead" "i \<in> set js"
      "Empty \<notin> (!) vs ` set (before i js)"
      using Cons.IH Cons.prems(2) by (metis list.set_intros(2))
    moreover have "k \<noteq> k'"
      using Cons.prems(2) [of j v'] Live by auto
    moreover have "j \<noteq> i"
      using i(2) Live by auto
    ultimately show ?thesis
      using Cons.prems(1) [of i] Live by (simp add: before_Cons)
  qed
qed simp

lemma live_of_set: "set (live_of vs) = {(k, v). Live k v \<in> set vs}"
  by (induction vs rule: live_of.induct) auto

lemma live_keys: "k \<in> fst ` set (live_of vs) \<longleftrightarrow> (\<exists>v. Live k v \<in> set vs)"
  by (force simp: live_of_set)

lemma vmap_None: "vmap vs k = None \<longleftrightarrow> (\<forall>v. Live k v \<notin> set vs)"
  by (simp add: vmap_def map_of_eq_None_iff live_keys)

lemma vmap_Some:
  assumes "probe_inv h vs"
  shows "vmap vs k = Some v \<longleftrightarrow> Live k v \<in> set vs"
proof
  assume "vmap vs k = Some v"
  then show "Live k v \<in> set vs"
    using map_of_SomeD [of "live_of vs" k v] by (simp add: vmap_def live_of_set)
next
  assume v: "Live k v \<in> set vs"
  then obtain w where w: "vmap vs k = Some w"
    using vmap_None [of vs k] by (cases "vmap vs k") auto
  then have "Live k w \<in> set vs"
    using map_of_SomeD [of "live_of vs" k w] by (simp add: vmap_def live_of_set)
  then show "vmap vs k = Some v"
    using v w assms unfolding probe_inv_def in_set_conv_nth by fastforce
qed

lemma probe_inv_key:
  assumes "probe_inv h vs" and "i < length vs" and "vs ! i = Live k v"
  shows "scan k vs None (probe_order (length vs) (h k mod length vs)) = Some i"
proof -
  let ?order = "probe_order (length vs) (h k mod length vs)"
  have "h k mod length vs < length vs"
    using assms(2) by (intro mod_less_divisor) auto
  then have s: "set (probe_order (length vs) (h k mod length vs)) = {..<length vs}"
    by (simp add: set_probe_order)
  show ?thesis
  proof (rule scan_live)
    show "i \<in> set ?order"
      using assms(2) s by simp
    show "vs ! i = Live k v"
      by (rule assms(3))
    show "vs ! j \<noteq> Empty" if "j \<in> set (before i ?order)" for j
      using assms that unfolding probe_inv_def by blast
    show "j = i" if "j \<in> set ?order" "vs ! j = Live k v'" for j v'
      using assms that s unfolding probe_inv_def by blast
  qed
qed

lemma before_empty_slot:
  assumes "probe_inv h vs" and "vs' = vs[i := x]" and "x \<noteq> Empty"
    and "vs ! m = Live k v" and "m < length vs"
  shows "\<forall>j \<in> set (before m (probe_order (length vs) (h k mod length vs))). vs' ! j \<noteq> Empty"
  using assms unfolding probe_inv_def by (metis nth_list_update_eq nth_list_update_neq list_update_beyond not_less)

text \<open>
  The search finds a key that is there, and for one that is not a slot where it can be put.
\<close>

lemma scan_spec:
  assumes "probe_inv h vs" and "Empty \<in> set vs"
  shows "\<exists>i<length vs. scan k vs None (probe_order (length vs) (h k mod length vs)) = Some i \<and>
    (case vmap vs k of
       Some v \<Rightarrow> vs ! i = Live k v
     | None \<Rightarrow> (vs ! i = Empty \<or> vs ! i = Dead) \<and> (\<forall>v. probe_inv h (vs[i := Live k v])))"
proof (cases "vmap vs k")
  case (Some v)
  then obtain i where i: "i < length vs" "vs ! i = Live k v"
    using vmap_Some [OF assms(1)] by (metis in_set_conv_nth)
  then show ?thesis
    using probe_inv_key [OF assms(1) i] Some by auto
next
  case None
  let ?order = "probe_order (length vs) (h k mod length vs)"
  have "vs \<noteq> []"
    using assms(1) by (simp add: probe_inv_def)
  then have "h k mod length vs < length vs"
    by simp
  then have s: "set ?order = {..<length vs}"
    by (simp add: set_probe_order)
  have absent: "vs ! j \<noteq> Live k v" if "j < length vs" for j v
    using None that vmap_None [of vs k] by (metis nth_mem)
  obtain i where i: "scan k vs None ?order = Some i" "vs ! i = Empty \<or> vs ! i = Dead" "i < length vs"
    "\<forall>j \<in> set (before i ?order). vs ! j \<noteq> Empty"
  proof -
    have "Empty \<in> (!) vs ` set ?order"
      using assms(2) s by (metis image_eqI in_set_conv_nth lessThan_iff)
    then obtain i where "scan k vs None ?order = Some i" "vs ! i = Empty \<or> vs ! i = Dead" "i \<in> set ?order"
      "Empty \<notin> (!) vs ` set (before i ?order)"
      using scan_new [of ?order vs k] absent s by (metis lessThan_iff)
    then show ?thesis
      using that [of i] s by (metis image_eqI lessThan_iff)
  qed
  have "probe_inv h (vs[i := Live k v])" for v
  proof -
    have "(\<forall>j \<in> set (before m (probe_order (length vs) (h k' mod length vs))). vs[i := Live k v] ! j \<noteq> Empty) \<and>
        (\<forall>j v''. j < length vs \<longrightarrow> vs[i := Live k v] ! j = Live k' v'' \<longrightarrow> j = m)"
      if m: "m < length vs" "vs[i := Live k v] ! m = Live k' v'" for m k' v'
    proof (cases "m = i")
      case True
      then have "k' = k"
        using m i(3) by simp
      moreover have "vs[i := Live k v] ! j \<noteq> Empty" if "j \<in> set (before i ?order)" for j
        using i(3,4) that by (cases "j = i") auto
      moreover have "j = i" if "j < length vs" "vs[i := Live k v] ! j = Live k v''" for j v''
        using absent that by (cases "j = i") auto
      ultimately show ?thesis
        using True by blast
    next
      case False
      then have m': "vs ! m = Live k' v'"
        using m by simp
      then have "k' \<noteq> k"
        using absent m(1) by blast
      then have "j = m" if "j < length vs" "vs[i := Live k v] ! j = Live k' v''" for j v''
        using that m' m(1) i(3) assms(1) unfolding probe_inv_def by (cases "j = i") auto
      moreover have "\<forall>j \<in> set (before m (probe_order (length vs) (h k' mod length vs))). vs[i := Live k v] ! j \<noteq> Empty"
        using before_empty_slot [OF assms(1) refl _ m' m(1)] by simp
      ultimately show ?thesis
        by blast
    qed
    then show ?thesis
      using assms(1) by (simp add: probe_inv_def)
  qed
  then show ?thesis
    using i None by auto
qed

lemma probe_inv_replace:
  assumes "probe_inv h vs" and "i < length vs" and "vs ! i = Live k w" and "x = Live k v \<or> x = Dead"
  shows "probe_inv h (vs[i := x])"
proof -
  have "(\<forall>j \<in> set (before m (probe_order (length vs) (h k' mod length vs))). vs[i := x] ! j \<noteq> Empty) \<and>
      (\<forall>j v''. j < length vs \<longrightarrow> vs[i := x] ! j = Live k' v'' \<longrightarrow> j = m)"
    if m: "m < length vs" "vs[i := x] ! m = Live k' v'" for m k' v'
  proof -
    obtain v0 where v0: "vs ! m = Live k' v0"
      using m assms(2-4) by (cases "m = i") auto
    have "j = m" if "j < length vs" "vs[i := x] ! j = Live k' v''" for j v''
    proof -
      have "\<exists>u. vs ! j = Live k' u"
        using that assms(2-4) by (cases "j = i") auto
      then show ?thesis
        using v0 m(1) that(1) assms(1) unfolding probe_inv_def by blast
    qed
    moreover have "x \<noteq> Empty"
      using assms(4) by auto
    ultimately show ?thesis
      using before_empty_slot [OF assms(1) refl _ v0 m(1)] by blast
  qed
  then show ?thesis
    using assms(1) by (simp add: probe_inv_def)
qed

lemma vmap_nth:
  assumes "probe_inv h vs"
  shows "vmap vs k = Some v \<longleftrightarrow> (\<exists>i<length vs. vs ! i = Live k v)"
  using vmap_Some [OF assms] by (auto simp: in_set_conv_nth)

lemma map_eqI: "(\<And>k v. f k = Some v \<longleftrightarrow> g k = Some v) \<Longrightarrow> f = g"
  by (metis not_None_eq ext)

lemma vmap_update:
  assumes "probe_inv h vs" and "probe_inv h (vs[i := Live k v])" and "i < length vs"
    and "case vmap vs k of Some w \<Rightarrow> vs ! i = Live k w | None \<Rightarrow> vs ! i = Empty \<or> vs ! i = Dead"
  shows "vmap (vs[i := Live k v]) = (vmap vs)(k \<mapsto> v)"
proof (rule map_eqI)
  fix k' v'
  have old: "vs ! i = Live k'' w \<Longrightarrow> k'' = k" for k'' w
    using assms(4) by (auto split: option.splits)
  have only: "j = i" if "j < length vs" "vs ! j = Live k w" for j w
  proof -
    have "vmap vs k = Some w"
      using that vmap_nth [OF assms(1)] by blast
    then have "vs ! i = Live k w"
      using assms(4) by simp
    then show ?thesis
      using that assms(1,3) unfolding probe_inv_def by blast
  qed
  have "(\<exists>j<length vs. vs[i := Live k v] ! j = Live k' v') \<longleftrightarrow> ((vmap vs)(k \<mapsto> v)) k' = Some v'"
  proof (cases "k' = k")
    case True
    have "v' = v" if "j < length vs" "vs[i := Live k v] ! j = Live k v'" for j
      using only [of j v'] that assms(3) by (cases "j = i") simp_all
    moreover have "vs[i := Live k v] ! i = Live k v"
      using assms(3) by simp
    ultimately show ?thesis
      using True assms(3) by (auto simp del: nth_list_update_eq)
  next
    case False
    then have "vs[i := Live k v] ! j = Live k' v' \<longleftrightarrow> vs ! j = Live k' v'" if "j < length vs" for j
      using old that by (cases "j = i") auto
    then show ?thesis
      using False vmap_nth [OF assms(1), of k' v'] by auto
  qed
  then show "vmap (vs[i := Live k v]) k' = Some v' \<longleftrightarrow> ((vmap vs)(k \<mapsto> v)) k' = Some v'"
    by (simp add: vmap_nth [OF assms(2)])
qed

lemma vmap_remove:
  assumes "probe_inv h vs" and "i < length vs" and "vs ! i = Live k w"
  shows "vmap (vs[i := Dead]) = (vmap vs)(k := None)"
proof (rule map_eqI)
  fix k' v'
  have only: "j = i" if "j < length vs" "vs ! j = Live k u" for j u
    using that assms unfolding probe_inv_def by blast
  have inv: "probe_inv h (vs[i := Dead])"
    using probe_inv_replace [OF assms] by blast
  have "(\<exists>j<length vs. vs[i := Dead] ! j = Live k' v') \<longleftrightarrow> ((vmap vs)(k := None)) k' = Some v'"
  proof (cases "k' = k")
    case True
    have "vs[i := Dead] ! j \<noteq> Live k v'" if "j < length vs" for j
      using only [OF that] that by (cases "j = i") auto
    then show ?thesis
      using True by auto
  next
    case False
    then have "vs[i := Dead] ! j = Live k' v' \<longleftrightarrow> vs ! j = Live k' v'" if "j < length vs" for j
      using assms(3) that by (cases "j = i") auto
    then show ?thesis
      using False vmap_nth [OF assms(1), of k' v'] by auto
  qed
  then show "vmap (vs[i := Dead]) k' = Some v' \<longleftrightarrow> ((vmap vs)(k := None)) k' = Some v'"
    by (simp add: vmap_nth [OF inv])
qed

end
