(* ===== verification/Sly_DictMap.thy ===== *)
theory Sly_DictMap
  imports Sly_Probe
begin

text \<open>
  The dictionary operations on the heap, against the views of \<open>Sly_Probe\<close>. The locale
  \<open>dict_keys\<close> is what they need of the hash and the equality of the keys; it is interpreted on
  \<open>sly_hash\<close> and \<open>sly_equal\<close> for integers, symbols and strings.
\<close>

section \<open>What a dictionary is\<close>

text \<open>Every object but pairs and dictionaries is as it was: keys are made of such objects.\<close>

definition data_kept :: "sly_state \<Rightarrow> sly_state \<Rightarrow> bool" where
  "data_kept s t \<longleftrightarrow> (\<forall>a ob. sly_heap s a = Some ob \<longrightarrow> \<not> is_SPair ob \<longrightarrow> \<not> is_SDict ob \<longrightarrow>
     sly_heap t a = Some ob)"

lemma data_kept_refl [simp]: "data_kept s s"
  by (simp add: data_kept_def)

lemma data_kept_trans: "data_kept s t \<Longrightarrow> data_kept t u \<Longrightarrow> data_kept s u"
  by (simp add: data_kept_def)

definition grows_but :: "sly_value \<Rightarrow> sly_state \<Rightarrow> sly_state \<Rightarrow> bool" where
  "grows_but d s t \<longleftrightarrow> (\<forall>a ob. a \<noteq> GET_ADDR d \<longrightarrow> sly_heap s a = Some ob \<longrightarrow> sly_heap t a = Some ob)"

lemma grows_but_trans: "grows_but d s t \<Longrightarrow> grows_but d t u \<Longrightarrow> grows_but d s u"
  by (simp add: grows_but_def)

lemma grows_but_kept:
  "grows_but d s t \<Longrightarrow> sly_heap s (GET_ADDR d) = Some (SDict len slots) \<Longrightarrow> data_kept s t"
  unfolding grows_but_def data_kept_def by (intro allI impI) (metis option.inject is_SDict_def)

fun slot_at :: "(sly_state \<Rightarrow> sly_value \<Rightarrow> 'k \<Rightarrow> bool) \<Rightarrow> sly_state \<Rightarrow> sly_value \<Rightarrow> 'k slot_view \<Rightarrow> bool" where
  "slot_at key s w Empty \<longleftrightarrow> w = SLY_NULL"
| "slot_at key s w Dead \<longleftrightarrow> (\<exists>d. spair_at s w SLY_NULL d)"
| "slot_at key s w (Live k v) \<longleftrightarrow> (\<exists>a. spair_at s w a v \<and> key s a k)"

definition entries_apart :: "sly_value list \<Rightarrow> bool" where
  "entries_apart slots \<longleftrightarrow> (\<forall>i<length slots. \<forall>j<length slots. slots ! i \<noteq> SLY_NULL \<longrightarrow>
     slots ! j \<noteq> SLY_NULL \<longrightarrow> GET_ADDR (slots ! i) = GET_ADDR (slots ! j) \<longrightarrow> i = j)"

definition slots_at :: "(sly_state \<Rightarrow> sly_value \<Rightarrow> 'k \<Rightarrow> bool) \<Rightarrow> sly_state \<Rightarrow> sly_value list \<Rightarrow>
    'k slot_view list \<Rightarrow> bool" where
  "slots_at key s slots vs \<longleftrightarrow> entries_apart slots \<and> length slots = length vs \<and>
     (\<forall>i<length vs. slot_at key s (slots ! i) (vs ! i))"

definition dict_at :: "(sly_state \<Rightarrow> sly_value \<Rightarrow> 'k \<Rightarrow> bool) \<Rightarrow> ('k \<Rightarrow> nat) \<Rightarrow> sly_state \<Rightarrow> sly_value \<Rightarrow>
    'k slot_view list \<Rightarrow> bool" where
  "dict_at key h s d vs \<longleftrightarrow> ptr_p d \<and> probe_inv h vs \<and>
     (\<exists>slots. sly_heap s (GET_ADDR d) = Some (SDict (length (live_of vs)) slots) \<and> slots_at key s slots vs)"

lemma dict_object:
  assumes "ptr_p d" and "sly_heap s (GET_ADDR d) = Some (SDict len slots)"
  shows "as_dict d s = Inr ((len, slots), s)" "dictionary_p d s = Inr (True, s)"
    "sly_obj_set d ob s = Inr ((), s\<lparr>sly_heap := (sly_heap s)(GET_ADDR d \<mapsto> ob)\<rparr>)"
  using assms by (simp_all add: as_dict_def dictionary_p_def heap_p_def sly_obj_at_def sly_obj_set_def)

lemma pair_object:
  assumes "spair_at s w a d"
  shows "sly_set_car w x s = Inr ((), s\<lparr>sly_heap := (sly_heap s)(GET_ADDR w \<mapsto> SPair x d)\<rparr>)"
    and "sly_set_cdr w x s = Inr ((), s\<lparr>sly_heap := (sly_heap s)(GET_ADDR w \<mapsto> SPair a x)\<rparr>)"
  using assms spair_at_run(1) [OF assms]
  by (simp_all add: sly_set_car_def sly_set_cdr_def sly_pair_def expect_def sly_obj_at_def spair_at_def
      sly_obj_set_def)

lemma null_p_iff: "null_p v \<longleftrightarrow> v = SLY_NULL"
  by (simp add: null_p_def)

lemma slot_null: "slot_at key s w x \<Longrightarrow> w = SLY_NULL \<longleftrightarrow> x = Empty"
  using spair_at_run(4) null_p_NULL by (cases x) (auto simp: null_p_iff)

lemma live_of_append: "live_of (xs @ ys) = live_of xs @ live_of ys"
  by (induction xs rule: live_of.induct) auto

lemma live_of_update:
  assumes "i < length vs" and "vs ! i = Empty \<or> vs ! i = Dead"
  shows "length (live_of (vs[i := Live k v])) = Suc (length (live_of vs))"
    and "length (live_of (vs[i := Dead])) = length (live_of vs)"
proof -
  have u: "vs[i := x] = take i vs @ x # drop (Suc i) vs" "vs = take i vs @ vs ! i # drop (Suc i) vs" for x
    using assms(1) by (simp_all add: upd_conv_take_nth_drop id_take_nth_drop)
  show "length (live_of (vs[i := Live k v])) = Suc (length (live_of vs))"
    using assms(2) by (subst u(1), subst (2) u(2)) (auto simp: live_of_append)
  show "length (live_of (vs[i := Dead])) = length (live_of vs)"
    using assms(2) by (subst u(1), subst (2) u(2)) (auto simp: live_of_append)
qed

lemma live_of_replace:
  assumes "i < length vs" and "vs ! i = Live k v"
  shows "length (live_of (vs[i := Live k w])) = length (live_of vs)"
    and "Suc (length (live_of (vs[i := Dead]))) = length (live_of vs)"
proof -
  have u: "vs[i := x] = take i vs @ x # drop (Suc i) vs" "vs = take i vs @ vs ! i # drop (Suc i) vs" for x
    using assms(1) by (simp_all add: upd_conv_take_nth_drop id_take_nth_drop)
  show "length (live_of (vs[i := Live k w])) = length (live_of vs)"
    using assms(2) by (subst u(1), subst (2) u(2)) (auto simp: live_of_append)
  show "Suc (length (live_of (vs[i := Dead]))) = length (live_of vs)"
    using assms(2) by (subst u(1), subst (2) u(2)) (auto simp: live_of_append)
qed

lemma Empty_left: "Dead \<notin> set vs \<Longrightarrow> length (live_of vs) < length vs \<Longrightarrow> Empty \<in> set vs"
  by (induction vs rule: live_of.induct) auto

section \<open>The contract of hash and equality\<close>

locale dict_keys =
  fixes hf :: "sly_value \<Rightarrow> (64 word) sly" and eq :: "sly_value \<Rightarrow> sly_value \<Rightarrow> bool sly"
    and key :: "sly_state \<Rightarrow> sly_value \<Rightarrow> 'k \<Rightarrow> bool" and h :: "'k \<Rightarrow> nat"
  assumes hash_key: "key s a k \<Longrightarrow> \<exists>w. hf a s = Inr (w, s) \<and> unat w = h k"
    and eq_keys: "key s a k \<Longrightarrow> key s b k' \<Longrightarrow> eq a b s = Inr (k = k', s)"
    and key_kept: "key s a k \<Longrightarrow> data_kept s t \<Longrightarrow> key t a k"
    and key_proper: "key s a k \<Longrightarrow> \<not> null_p a \<and> \<not> void_p a"
begin

lemma slot_kept:
  assumes "slot_at key s w x" and "data_kept s t" and "sly_heap t (GET_ADDR w) = sly_heap s (GET_ADDR w)"
  shows "slot_at key t w x"
  using assms key_kept by (cases x) (auto simp: spair_at_def)

lemma slot_free:
  assumes "slot_at key s w x"
  shows "slot_is_free w s = Inr (x = Empty \<or> x = Dead, s)"
proof (cases x)
  case (Live k v)
  then obtain a where "spair_at s w a v" "key s a k"
    using assms by auto
  then show ?thesis
    using Live key_proper [of s a k] by (simp add: slot_is_free_def)
qed (use assms in \<open>auto simp: slot_is_free_def\<close>)

lemma slot_pair: "slot_at key s w x \<Longrightarrow> w \<noteq> SLY_NULL \<Longrightarrow> \<exists>a d. spair_at s w a d"
  by (cases x) auto

lemma scan_run:
  assumes "slots_at key s slots vs" and "key s a k" and "\<And>j. j \<in> set is \<Longrightarrow> j < length vs"
    and "scan k vs free is = Some i"
  shows "dict_scan eq a slots free is s = Inr (i, s)"
  using assms(3,4)
proof (induction "is" arbitrary: free)
  case (Cons j js)
  have slot: "slot_at key s (slots ! j) (vs ! j)"
    using assms(1) Cons.prems(1) [of j] by (simp add: slots_at_def)
  have IH: "scan k vs f js = Some i \<Longrightarrow> dict_scan eq a slots f js s = Inr (i, s)" for f
    using Cons.IH Cons.prems(1) by simp
  show ?case
  proof (cases "vs ! j")
    case Empty
    then show ?thesis
      using slot Cons.prems(2) by simp
  next
    case Dead
    then obtain d where "spair_at s (slots ! j) SLY_NULL d"
      using slot by auto
    then show ?thesis
      using Dead Cons.prems(2) IH by (simp split: option.splits)
  next
    case (Live k' v)
    then obtain b where b: "spair_at s (slots ! j) b v" "key s b k'"
      using slot by auto
    then show ?thesis
      using Live Cons.prems(2) IH eq_keys [OF assms(2) b(2)] key_proper [OF b(2)] by (auto split: if_splits)
  qed
qed simp

lemma search_run:
  assumes "dict_at key h s d vs" and "key s a k" and "Empty \<in> set vs"
  shows "\<exists>i<length vs. slot_search hf eq d a s = Inr (i, s) \<and>
    scan k vs None (probe_order (length vs) (h k mod length vs)) = Some i \<and>
    (case vmap vs k of
       Some v \<Rightarrow> vs ! i = Live k v
     | None \<Rightarrow> (vs ! i = Empty \<or> vs ! i = Dead) \<and> (\<forall>v. probe_inv h (vs[i := Live k v])))"
proof -
  obtain slots where sl: "ptr_p d" "probe_inv h vs" "slots_at key s slots vs"
    "sly_heap s (GET_ADDR d) = Some (SDict (length (live_of vs)) slots)"
    using assms(1) by (auto simp: dict_at_def)
  obtain w where w: "hf a s = Inr (w, s)" "unat w = h k"
    using hash_key [OF assms(2)] by blast
  have len: "length slots = length vs" and ne: "vs \<noteq> []"
    using sl(2,3) by (auto simp: slots_at_def probe_inv_def)
  then have "h k mod length vs \<le> length vs"
    by (simp add: less_imp_le)
  then have order: "\<And>j. j \<in> set (probe_order (length vs) (h k mod length vs)) \<Longrightarrow> j < length vs"
    using set_probe_order by blast
  obtain i where i: "i < length vs" "scan k vs None (probe_order (length vs) (h k mod length vs)) = Some i"
    "case vmap vs k of
       Some v \<Rightarrow> vs ! i = Live k v
     | None \<Rightarrow> (vs ! i = Empty \<or> vs ! i = Dead) \<and> (\<forall>v. probe_inv h (vs[i := Live k v]))"
    using scan_spec [OF sl(2) assms(3)] by blast
  have "slots \<noteq> []"
    using len ne by auto
  then have "slot_search hf eq d a s = Inr (i, s)"
    using dict_object(1) [OF sl(1,4)] w scan_run [OF sl(3) assms(2) order i(2)] len
    by (simp add: slot_search_def)
  then show ?thesis
    using i by blast
qed

lemma search_lost:
  assumes "dict_at key h s d vs" and "key s a k"
    and "\<And>j. j < length vs \<Longrightarrow> vs ! j \<noteq> Empty \<and> (\<forall>v. vs ! j \<noteq> Live k v)"
  shows "slot_search hf eq d a s = Inl (Assert ''Dictionary Key Error key not found'')"
proof -
  obtain slots where sl: "ptr_p d" "probe_inv h vs" "slots_at key s slots vs"
    "sly_heap s (GET_ADDR d) = Some (SDict (length (live_of vs)) slots)"
    using assms(1) by (auto simp: dict_at_def)
  obtain w where w: "hf a s = Inr (w, s)" "unat w = h k"
    using hash_key [OF assms(2)] by blast
  have len: "length slots = length vs" "slots \<noteq> []"
    using sl(2,3) by (auto simp: slots_at_def probe_inv_def)
  have "dict_scan eq a slots free is s = Inl (Assert ''Dictionary Key Error key not found'')"
    if "\<forall>j \<in> set is. j < length vs" for free "is"
    using that
  proof (induction "is" arbitrary: free)
    case (Cons j js)
    have slot: "slot_at key s (slots ! j) (vs ! j)"
      using sl(3) Cons.prems by (simp add: slots_at_def)
    show ?case
    proof (cases "vs ! j")
      case (Live k' v)
      then obtain b where "spair_at s (slots ! j) b v" "key s b k'"
        using slot by auto
      moreover have "k \<noteq> k'"
        using assms(3) [of j] Cons.prems Live by auto
      ultimately show ?thesis
        using Cons eq_keys [OF assms(2), of b k'] key_proper [of s b k'] by simp
    qed (use Cons slot assms(3) [of j] in auto)
  qed simp
  moreover have "h k mod length slots \<le> length slots"
    using len(2) by (simp add: less_imp_le)
  then have "\<forall>j \<in> set (probe_order (length slots) (h k mod length slots)). j < length vs"
    using len(1) by (simp add: set_probe_order)
  ultimately show ?thesis
    using dict_object(1) [OF sl(1,4)] w len by (simp add: slot_search_def)
qed

lemma dict_at_slot:
  assumes "dict_at key h s d vs"
  obtains slots where "ptr_p d" "sly_heap s (GET_ADDR d) = Some (SDict (length (live_of vs)) slots)"
    "slots_at key s slots vs" "probe_inv h vs" "length slots = length vs"
    "\<forall>i<length vs. slot_at key s (slots ! i) (vs ! i)"
  using assms by (auto simp: dict_at_def slots_at_def)

lemma dict_key_ok_run:
  assumes "dict_at key h s d vs" and "key s a k"
  shows "dict_key_ok d a s = Inr ((), s)"
  using assms key_proper [OF assms(2)]
  by (auto simp: dict_at_def dict_key_ok_def expect_def dict_object(2))

lemma ref_run:
  assumes "dict_at key h s d vs" and "key s a k" and "Empty \<in> set vs"
  shows "dict_ref_by hf eq d a nf s = Inr (case vmap vs k of Some v \<Rightarrow> v | None \<Rightarrow> nf, s)"
proof -
  obtain slots where sl: "ptr_p d" "sly_heap s (GET_ADDR d) = Some (SDict (length (live_of vs)) slots)"
    "slots_at key s slots vs" "probe_inv h vs" "length slots = length vs"
    "\<forall>i<length vs. slot_at key s (slots ! i) (vs ! i)"
    using assms(1) by (rule dict_at_slot)
  obtain i where i: "i < length vs" "slot_search hf eq d a s = Inr (i, s)"
    "case vmap vs k of Some v \<Rightarrow> vs ! i = Live k v
     | None \<Rightarrow> (vs ! i = Empty \<or> vs ! i = Dead) \<and> (\<forall>v. probe_inv h (vs[i := Live k v]))"
    using search_run [OF assms] by blast
  have e: "entry_search hf eq d a s = Inr (slots ! i, s)"
    using dict_object [OF sl(1,2)] i(2) key_proper [OF assms(2)] by (simp add: entry_search_def expect_def)
  show ?thesis
  proof (cases "vmap vs k")
    case None
    then show ?thesis
      using e slot_free [OF sl(6) [rule_format, OF i(1)]] i(3) by (auto simp: dict_ref_by_def)
  next
    case (Some v)
    then obtain b where "spair_at s (slots ! i) b v"
      using sl(6) [rule_format, OF i(1)] i(3) by auto
    then show ?thesis
      using e slot_free [OF sl(6) [rule_format, OF i(1)]] i(3) Some by (simp add: dict_ref_by_def)
  qed
qed

lemma slots_kept:
  assumes "slots_at key s slots vs" and "data_kept s t"
    and "\<And>i. i < length vs \<Longrightarrow> slots ! i \<noteq> SLY_NULL \<Longrightarrow> sly_heap t (GET_ADDR (slots ! i)) = sly_heap s (GET_ADDR (slots ! i))"
  shows "slots_at key t slots vs"
  unfolding slots_at_def
proof (intro conjI allI impI)
  fix i
  assume i: "i < length vs"
  then have slot: "slot_at key s (slots ! i) (vs ! i)"
    using assms(1) by (simp add: slots_at_def)
  show "slot_at key t (slots ! i) (vs ! i)"
  proof (cases "vs ! i = Empty")
    case False
    then have "slots ! i \<noteq> SLY_NULL"
      using slot_null [OF slot] by simp
    then show ?thesis
      using slot_kept [OF slot assms(2)] assms(3) [OF i] by blast
  qed (use slot in simp)
qed (use assms(1) in \<open>simp_all add: slots_at_def\<close>)

text \<open>The pair of an entry is replaced, and no other object.\<close>

lemma entry_set:
  assumes d: "ptr_p d" "sly_heap s (GET_ADDR d) = Some (SDict len slots)" and sl: "slots_at key s slots vs"
    and i: "i < length vs" "spair_at s (slots ! i) a v"
    and t: "sly_heap t = (sly_heap s)(GET_ADDR (slots ! i) \<mapsto> SPair a' v')"
    and x: "x = Dead \<and> a' = SLY_NULL \<or> (\<exists>k. x = Live k v' \<and> key s a' k)"
  shows "slots_at key t slots (vs[i := x])" and "data_kept s t"
    and "sly_heap t (GET_ADDR d) = Some (SDict len slots)"
proof -
  have p: "sly_heap s (GET_ADDR (slots ! i)) = Some (SPair a v)" "ptr_p (slots ! i)"
    using i(2) by (simp_all add: spair_at_def)
  then show kept: "data_kept s t" and "sly_heap t (GET_ADDR d) = Some (SDict len slots)"
    using d(2) t by (auto simp: data_kept_def)
  have apart: "entries_apart slots" "length slots = length vs"
    using sl by (simp_all add: slots_at_def)
  have nn: "slots ! i \<noteq> SLY_NULL"
    using p(2) ptr_not_null by (auto simp: null_p_iff)
  have slot: "slot_at key t (slots ! j) (vs[i := x] ! j)" if j: "j < length vs" for j
  proof (cases "j = i")
    case True
    have "spair_at t (slots ! i) a' v'"
      using p(2) t by (simp add: spair_at_def)
    moreover have "vs[i := x] ! j = x"
      using True i(1) by simp
    ultimately show ?thesis
      using True x key_kept [OF _ kept] by (elim disjE conjE exE; simp; blast)
  next
    case False
    have old: "slot_at key s (slots ! j) (vs ! j)"
      using sl j by (simp add: slots_at_def)
    show ?thesis
    proof (cases "slots ! j = SLY_NULL")
      case True
      then have "vs ! j = Empty"
        using slot_null [OF old] by simp
      then show ?thesis
        using True False by simp
    next
      case nj: False
      then have "GET_ADDR (slots ! j) \<noteq> GET_ADDR (slots ! i)"
        using apart False j i(1) nn by (auto simp: entries_apart_def)
      then show ?thesis
        using slot_kept [OF old kept] t False by simp
    qed
  qed
  then show "slots_at key t slots (vs[i := x])"
    using apart by (simp add: slots_at_def)
qed

lemma remove_run:
  assumes "dict_at key h s d vs" and "key s a k" and "Empty \<in> set vs" and "vmap vs k = Some v"
  shows "\<exists>t i. dict_remove_by hf eq d a s = Inr ((), t) \<and> i < length vs \<and> dict_at key h t d (vs[i := Dead]) \<and>
    vmap (vs[i := Dead]) = (vmap vs)(k := None) \<and> vs ! i = Live k v \<and> data_kept s t \<and>
    (\<forall>n. sly_room n s \<longrightarrow> sly_room n t)"
proof -
  obtain slots where sl: "ptr_p d" "sly_heap s (GET_ADDR d) = Some (SDict (length (live_of vs)) slots)"
    "slots_at key s slots vs" "probe_inv h vs" "length slots = length vs"
    "\<forall>i<length vs. slot_at key s (slots ! i) (vs ! i)"
    using assms(1) by (rule dict_at_slot)
  obtain i where i: "i < length vs" "slot_search hf eq d a s = Inr (i, s)" "vs ! i = Live k v"
    using search_run [OF assms(1-3)] assms(4) by auto
  obtain b where b: "spair_at s (slots ! i) b v" "key s b k"
    using sl(6) [rule_format, OF i(1)] i(3) by auto
  let ?t1 = "s\<lparr>sly_heap := (sly_heap s)(GET_ADDR (slots ! i) \<mapsto> SPair SLY_NULL v)\<rparr>"
  note E = entry_set [OF sl(1,2,3) i(1) b(1), of ?t1 SLY_NULL v Dead]
  have t1: "slots_at key ?t1 slots (vs[i := Dead])" "data_kept s ?t1"
    "sly_heap ?t1 (GET_ADDR d) = Some (SDict (length (live_of vs)) slots)"
    using E by simp_all
  let ?n = "length (live_of vs) - 1"
  let ?t = "?t1\<lparr>sly_heap := (sly_heap ?t1)(GET_ADDR d \<mapsto> SDict ?n slots)\<rparr>"
  have "dict_remove_by hf eq d a s = Inr ((), ?t)"
    using dict_key_ok_run [OF assms(1,2)] i dict_object [OF sl(1,2)] dict_object [OF sl(1) t1(3)]
      slot_free [OF sl(6) [rule_format, OF i(1)]] pair_object [OF b(1)]
    by (simp add: dict_remove_by_def expect_def)
  moreover have kept: "data_kept ?t1 ?t"
    using t1(3) by (auto simp: data_kept_def)
  moreover have "slots_at key ?t slots (vs[i := Dead])"
  proof (rule slots_kept [OF t1(1) kept])
    fix j
    assume "j < length (vs[i := Dead])" "slots ! j \<noteq> SLY_NULL"
    then obtain a' d' where "spair_at ?t1 (slots ! j) a' d'"
      using slot_pair [of ?t1 "slots ! j" "vs[i := Dead] ! j"] t1(1) by (auto simp: slots_at_def)
    then show "sly_heap ?t (GET_ADDR (slots ! j)) = sly_heap ?t1 (GET_ADDR (slots ! j))"
      using t1(3) by (auto simp: spair_at_def split: if_splits)
  qed
  moreover have "?n = length (live_of (vs[i := Dead]))"
    using live_of_replace(2) [OF i(1,3)] by simp
  moreover have "probe_inv h (vs[i := Dead])"
    using probe_inv_replace [OF sl(4) i(1,3)] by blast
  ultimately have "dict_at key h ?t d (vs[i := Dead])"
    using sl(1) by (auto simp: dict_at_def)
  moreover have "\<forall>n. sly_room n s \<longrightarrow> sly_room n ?t"
    using room_obj_set [OF room_obj_set _] b(1) t1(3) by (auto simp: spair_at_def)
  ultimately show ?thesis
    using \<open>dict_remove_by hf eq d a s = Inr ((), ?t)\<close> vmap_remove [OF sl(4) i(1,3)] i data_kept_trans [OF t1(2) kept]
    by (intro exI [of _ ?t] exI [of _ i]) simp
qed

end

lemma grows_kept: "grows s t \<Longrightarrow> data_kept s t"
  by (simp add: grows_def data_kept_def)

lemma distinct_live:
  assumes "\<And>i j k v w. i < length vs \<Longrightarrow> j < length vs \<Longrightarrow> vs ! i = Live k v \<Longrightarrow> vs ! j = Live k w \<Longrightarrow> i = j"
  shows "distinct (map fst (live_of vs))"
  using assms
proof (induction vs)
  case (Cons x xs)
  have IH: "distinct (map fst (live_of xs))"
  proof (rule Cons.IH)
    fix i j k v w
    assume "i < length xs" "j < length xs" "xs ! i = Live k v" "xs ! j = Live k w"
    then show "i = j"
      using Cons.prems [of "Suc i" "Suc j" k v w] by simp
  qed
  show ?case
  proof (cases x)
    case (Live k v)
    have "Live k w \<notin> set xs" for w
    proof
      assume "Live k w \<in> set xs"
      then obtain j where "j < length xs" "xs ! j = Live k w"
        by (metis in_set_conv_nth)
      then show False
        using Cons.prems [of 0 "Suc j" k v w] Live by simp
    qed
    then have "k \<notin> fst ` set (live_of xs)"
      by (simp add: live_keys)
    then show ?thesis
      using IH Live by simp
  qed (use IH in simp_all)
qed simp

lemma probe_inv_distinct: "probe_inv h vs \<Longrightarrow> distinct (map fst (live_of vs))"
  unfolding probe_inv_def by (intro distinct_live) metis

lemma live_of_replicate [simp]: "live_of (replicate n Empty) = []"
  by (induction n) auto

lemma probe_inv_empty: "0 < n \<Longrightarrow> probe_inv h (replicate n Empty)"
  by (simp add: probe_inv_def)

lemma length_live_le: "length (live_of vs) \<le> length vs"
  by (induction vs rule: live_of.induct) auto

definition usable :: "'k slot_view list \<Rightarrow> bool" where
  "usable vs \<longleftrightarrow> Dead \<notin> set vs \<and> \<not> over_load (length (live_of vs)) (length vs) \<and> vs \<noteq> []"

lemma usable_empty_left: "usable vs \<Longrightarrow> Empty \<in> set vs"
proof -
  assume u: "usable vs"
  then have "length (live_of vs) < length vs"
    by (cases vs) (auto simp: usable_def over_load_def)
  then show ?thesis
    using u Empty_left by (auto simp: usable_def)
qed

context dict_keys begin

lemma slot_grows_but:
  assumes "slot_at key s w x" and "grows_but d s t" and "sly_heap s (GET_ADDR d) = Some (SDict len slots)"
  shows "slot_at key t w x"
proof -
  note kept = grows_but_kept [OF assms(2,3)]
  have "spair_at t w a v" if "spair_at s w a v" for a v
  proof -
    have "GET_ADDR w \<noteq> GET_ADDR d"
      using that assms(3) by (auto simp: spair_at_def)
    then show ?thesis
      using that assms(2) by (simp add: spair_at_def grows_but_def)
  qed
  then show ?thesis
    using assms(1) key_kept [OF _ kept] by (cases x) (simp, simp, blast, simp, blast)
qed

lemma add_entry:
  assumes "dict_at key h s d vs" and "key s a k" and "i < length vs"
    and "vs ! i = Empty \<or> vs ! i = Dead" and "probe_inv h (vs[i := Live k v])" and "sly_room (Suc n) s"
    and sl: "sly_heap s (GET_ADDR d) = Some (SDict (length (live_of vs)) slots)" "slots_at key s slots vs" "ptr_p d"
  shows "\<exists>c s1 t. sly_cons a v s = Inr (c, s1) \<and> as_dict d s1 = Inr ((length (live_of vs), slots), s1) \<and>
    sly_obj_set d (SDict (length (live_of vs) + 1) (slots[i := c])) s1 = Inr ((), t) \<and>
    dict_at key h t d (vs[i := Live k v]) \<and> grows_but d s t \<and> sly_room n t"
proof -
  obtain c s1 where c: "gc_malloc (SPair a v) s = Inr (c, s1)" "ptr_p c" "sly_heap s1 (GET_ADDR c) = Some (SPair a v)"
    "grows s s1" "sly_room n s1" "GET_ADDR c = sly_next s"
    using sly_malloc_room [OF assms(6), of "SPair a v"] by blast
  have d1: "sly_heap s1 (GET_ADDR d) = Some (SDict (length (live_of vs)) slots)"
    using c(4) sl(1) by (simp add: grows_def)
  let ?t = "s1\<lparr>sly_heap := (sly_heap s1)(GET_ADDR d \<mapsto> SDict (length (live_of vs) + 1) (slots[i := c]))\<rparr>"
  have g: "grows_but d s ?t"
    using c(4) by (simp add: grows_def grows_but_def)
  have len: "length slots = length vs" and apart: "entries_apart slots"
    using sl(2) by (simp_all add: slots_at_def)
  have old: "slot_at key s (slots ! j) (vs ! j)" if "j < length vs" for j
    using sl(2) that by (simp add: slots_at_def)
  have below: "GET_ADDR (slots ! j) \<noteq> GET_ADDR c" if "j < length vs" "slots ! j \<noteq> SLY_NULL" for j
  proof -
    have "\<exists>x y. spair_at s (slots ! j) x y"
      by (rule slot_pair [OF old [OF that(1)] that(2)])
    then show ?thesis
      using c(6) sly_room_fine [OF assms(6)] by (auto simp: spair_at_def heap_fine_def)
  qed
  have "GET_ADDR c \<noteq> GET_ADDR d"
    using c(3) d1 by auto
  then have cp: "spair_at ?t c a v"
    using c(2,3) by (simp add: spair_at_def)
  have "slot_at key ?t (slots[i := c] ! j) (vs[i := Live k v] ! j)" if "j < length vs" for j
  proof (cases "j = i")
    case True
    have "key ?t a k"
      using key_kept [OF assms(2) grows_but_kept [OF g sl(1)]] .
    then have "slot_at key ?t c (Live k v)"
      using cp unfolding slot_at.simps by blast
    then show ?thesis
      using True that len by simp
  next
    case False
    then show ?thesis
      using slot_grows_but [OF old [OF that] g sl(1)] by simp
  qed
  moreover have "entries_apart (slots[i := c])"
    unfolding entries_apart_def
  proof (intro allI impI)
    fix j m
    assume jm: "j < length (slots[i := c])" "m < length (slots[i := c])" "slots[i := c] ! j \<noteq> SLY_NULL"
      "slots[i := c] ! m \<noteq> SLY_NULL" "GET_ADDR (slots[i := c] ! j) = GET_ADDR (slots[i := c] ! m)"
    show "j = m"
    proof (cases "j = i \<or> m = i")
      case True
      then show ?thesis
        using jm below [of j] below [of m] len by (cases "j = i"; cases "m = i") auto
    next
      case False
      then show ?thesis
        using jm apart by (auto simp: entries_apart_def)
    qed
  qed
  ultimately have "slots_at key ?t (slots[i := c]) (vs[i := Live k v])"
    using len by (simp add: slots_at_def)
  moreover have "length (live_of vs) + 1 = length (live_of (vs[i := Live k v]))"
    using live_of_update(1) [OF assms(3,4)] by simp
  ultimately have "dict_at key h ?t d (vs[i := Live k v])"
    using sl(3) assms(5) unfolding dict_at_def by (intro conjI exI [of _ "slots[i := c]"]) simp_all
  moreover have "sly_room n ?t"
    using room_obj_set [OF c(5) d1] .
  ultimately show ?thesis
    using c(1) dict_object [OF sl(3) d1] g
    by (intro exI [of _ c] exI [of _ s1] exI [of _ ?t]) (simp add: sly_cons_def)
qed

lemma set_new:
  assumes "dict_at key h s d vs" and "key s a k" and "Empty \<in> set vs" and "vmap vs k = None"
    and "sly_room (Suc n) s"
  shows "\<exists>t i. dict_set_by hf eq (Suc m) d a v s =
      (if over_load (length (live_of vs) + 1) (length vs) then dict_resize_by (dict_set_by hf eq m) d t
       else Inr ((), t)) \<and>
    i < length vs \<and> (vs ! i = Empty \<or> vs ! i = Dead) \<and> dict_at key h t d (vs[i := Live k v]) \<and>
    scan k vs None (probe_order (length vs) (h k mod length vs)) = Some i \<and>
    vmap (vs[i := Live k v]) = (vmap vs)(k \<mapsto> v) \<and> grows_but d s t \<and> sly_room n t"
proof -
  obtain slots where sl: "ptr_p d" "sly_heap s (GET_ADDR d) = Some (SDict (length (live_of vs)) slots)"
    "slots_at key s slots vs" "probe_inv h vs" "length slots = length vs"
    "\<forall>i<length vs. slot_at key s (slots ! i) (vs ! i)"
    using assms(1) by (rule dict_at_slot)
  obtain i where i: "i < length vs" "slot_search hf eq d a s = Inr (i, s)" "vs ! i = Empty \<or> vs ! i = Dead"
    "\<forall>v. probe_inv h (vs[i := Live k v])" "scan k vs None (probe_order (length vs) (h k mod length vs)) = Some i"
    using search_run [OF assms(1-3)] assms(4) by auto
  obtain c s1 t where t: "sly_cons a v s = Inr (c, s1)"
    "sly_obj_set d (SDict (length (live_of vs) + 1) (slots[i := c])) s1 = Inr ((), t)"
    "dict_at key h t d (vs[i := Live k v])" "grows_but d s t" "sly_room n t"
    using add_entry [OF assms(1,2) i(1,3) i(4) [rule_format] assms(5) sl(2,3,1), of v] by blast
  have "dict_set_by hf eq (Suc m) d a v s =
      (if over_load (length (live_of vs) + 1) (length vs) then dict_resize_by (dict_set_by hf eq m) d t
       else Inr ((), t))"
    using dict_key_ok_run [OF assms(1,2)] i(2,3) dict_object [OF sl(1,2)] slot_free [OF sl(6) [rule_format, OF i(1)]]
      t(1,2) sl(5) by simp
  moreover have "vmap (vs[i := Live k v]) = (vmap vs)(k \<mapsto> v)"
    using vmap_update [OF sl(4) i(4) [rule_format] i(1)] assms(4) i(3) by simp
  ultimately show ?thesis
    using i t by blast
qed

lemma set_old:
  assumes "dict_at key h s d vs" and "key s a k" and "Empty \<in> set vs" and "vmap vs k = Some w" and "sly_room n s"
  shows "\<exists>t i. dict_set_by hf eq (Suc m) d a v s = Inr ((), t) \<and> i < length vs \<and> vs ! i = Live k w \<and>
    dict_at key h t d (vs[i := Live k v]) \<and> vmap (vs[i := Live k v]) = (vmap vs)(k \<mapsto> v) \<and> data_kept s t \<and> sly_room n t"
proof -
  obtain slots where sl: "ptr_p d" "sly_heap s (GET_ADDR d) = Some (SDict (length (live_of vs)) slots)"
    "slots_at key s slots vs" "probe_inv h vs" "length slots = length vs"
    "\<forall>i<length vs. slot_at key s (slots ! i) (vs ! i)"
    using assms(1) by (rule dict_at_slot)
  obtain i where i: "i < length vs" "slot_search hf eq d a s = Inr (i, s)" "vs ! i = Live k w"
    using search_run [OF assms(1-3)] assms(4) by auto
  obtain b where b: "spair_at s (slots ! i) b w" "key s b k"
    using sl(6) [rule_format, OF i(1)] i(3) by auto
  let ?t = "s\<lparr>sly_heap := (sly_heap s)(GET_ADDR (slots ! i) \<mapsto> SPair b v)\<rparr>"
  note E = entry_set [OF sl(1,2,3) i(1) b(1), of ?t b v "Live k v"]
  have t: "slots_at key ?t slots (vs[i := Live k v])" "data_kept s ?t"
    "sly_heap ?t (GET_ADDR d) = Some (SDict (length (live_of vs)) slots)"
    using E b(2) by simp_all
  have p: "probe_inv h (vs[i := Live k v])"
    using probe_inv_replace [OF sl(4) i(1,3)] by blast
  have "dict_at key h ?t d (vs[i := Live k v])"
    using sl(1) t p live_of_replace(1) [OF i(1,3), of v] by (auto simp: dict_at_def)
  moreover have "dict_set_by hf eq (Suc m) d a v s = Inr ((), ?t)"
    using dict_key_ok_run [OF assms(1,2)] i dict_object [OF sl(1,2)] pair_object [OF b(1)]
      slot_free [OF sl(6) [rule_format, OF i(1)]] by simp
  moreover have "vmap (vs[i := Live k v]) = (vmap vs)(k \<mapsto> v)"
    using vmap_update [OF sl(4) p i(1)] assms(4) i(3) by simp
  moreover have "sly_room n ?t"
    using room_obj_set [OF assms(5)] b(1) by (simp add: spair_at_def)
  ultimately show ?thesis
    using i t(2) by blast
qed

end

context dict_keys begin

lemma import_run:
  assumes "dict_at key h s nd ws" and "Dead \<notin> set ws" and "list_all2 (slot_at key s) slots vs"
    and "distinct (map fst (live_of vs))" and "\<forall>k \<in> fst ` set (live_of vs). vmap ws k = None"
    and "2 * (length (live_of ws) + length (live_of vs)) \<le> length ws" and "sly_room (length (live_of vs) + n) s"
  shows "\<exists>t ws'. set_slots (dict_set_by hf eq (Suc m)) nd slots s = Inr ((), t) \<and> dict_at key h t nd ws' \<and>
    Dead \<notin> set ws' \<and> length ws' = length ws \<and> vmap ws' = vmap ws ++ map_of (live_of vs) \<and>
    length (live_of ws') = length (live_of ws) + length (live_of vs) \<and> grows_but nd s t \<and> sly_room n t"
  using assms
proof (induction slots arbitrary: vs s ws)
  case Nil
  then show ?case
    by (auto simp: grows_but_def)
next
  case (Cons w slots)
  obtain x vs' where vs: "vs = x # vs'" "slot_at key s w x" "list_all2 (slot_at key s) slots vs'"
    using Cons.prems(3) by (auto simp: list_all2_Cons1)
  show ?case
  proof (cases "x = Empty \<or> x = Dead")
    case True
    then have same: "live_of vs = live_of vs'"
      using vs(1) by auto
    have "\<exists>t ws'. set_slots (dict_set_by hf eq (Suc m)) nd slots s = Inr ((), t) \<and> dict_at key h t nd ws' \<and>
      Dead \<notin> set ws' \<and> length ws' = length ws \<and> vmap ws' = vmap ws ++ map_of (live_of vs') \<and>
      length (live_of ws') = length (live_of ws) + length (live_of vs') \<and> grows_but nd s t \<and> sly_room n t"
      using Cons.IH [OF Cons.prems(1,2) vs(3)] Cons.prems(4-7) unfolding same by blast
    then show ?thesis
      using slot_free [OF vs(2)] True same by (simp del: dict_set_by.simps)
  next
    case False
    then obtain k v where x: "x = Live k v"
      by (cases x) auto
    then obtain a where a: "spair_at s w a v" "key s a k"
      using vs(2) by auto
    have live: "live_of vs = (k, v) # live_of vs'"
      using vs(1) x by simp
    obtain osl where nd: "sly_heap s (GET_ADDR nd) = Some (SDict (length (live_of ws)) osl)"
      using Cons.prems(1) by (auto simp: dict_at_def)
    have len: "length (live_of ws) < length ws"
      using Cons.prems(6) live by simp
    have new: "vmap ws k = None"
      using Cons.prems(5) live by simp
    have room: "sly_room (Suc (length (live_of vs') + n)) s"
      using Cons.prems(7) live by simp
    obtain t1 i where t1: "dict_set_by hf eq (Suc m) nd a v s =
        (if over_load (length (live_of ws) + 1) (length ws) then dict_resize_by (dict_set_by hf eq m) nd t1
         else Inr ((), t1))" "i < length ws" "ws ! i = Empty \<or> ws ! i = Dead"
      "dict_at key h t1 nd (ws[i := Live k v])" "vmap (ws[i := Live k v]) = (vmap ws)(k \<mapsto> v)" "grows_but nd s t1"
      "sly_room (length (live_of vs') + n) t1"
      using set_new [OF Cons.prems(1) a(2) Empty_left [OF Cons.prems(2) len] new room] by blast
    have l1: "length (live_of (ws[i := Live k v])) = Suc (length (live_of ws))"
      using live_of_update(1) [OF t1(2,3)] .
    have "\<not> over_load (length (live_of ws) + 1) (length ws)"
      using Cons.prems(6) live by (simp add: over_load_def)
    then have set1: "dict_set_by hf eq (Suc m) nd a v s = Inr ((), t1)"
      using t1(1) by simp
    have slots1: "list_all2 (slot_at key t1) slots vs'"
      by (rule list_all2_mono [OF vs(3)]) (rule slot_grows_but [OF _ t1(6) nd])
    have d1: "Dead \<notin> set (ws[i := Live k v])"
      using Cons.prems(2) set_update_subset_insert [of ws i "Live k v"] by auto
    have k1: "distinct (map fst (live_of vs'))" "k \<notin> fst ` set (live_of vs')"
      using Cons.prems(4) live by simp_all
    have new1: "\<forall>k' \<in> fst ` set (live_of vs'). vmap (ws[i := Live k v]) k' = None"
      using Cons.prems(5) live k1(2) t1(5) by auto
    have c1: "2 * (length (live_of (ws[i := Live k v])) + length (live_of vs')) \<le> length (ws[i := Live k v])"
      using Cons.prems(6) live l1 by simp
    obtain t ws' where t: "set_slots (dict_set_by hf eq (Suc m)) nd slots t1 = Inr ((), t)" "dict_at key h t nd ws'"
      "Dead \<notin> set ws'" "length ws' = length (ws[i := Live k v])"
      "vmap ws' = vmap (ws[i := Live k v]) ++ map_of (live_of vs')"
      "length (live_of ws') = length (live_of (ws[i := Live k v])) + length (live_of vs')" "grows_but nd t1 t"
      "sly_room n t"
      using Cons.IH [OF t1(4) d1 slots1 k1(1) new1 c1 t1(7)] by blast
    have "set_slots (dict_set_by hf eq (Suc m)) nd (w # slots) s = Inr ((), t)"
      using slot_free [OF vs(2)] False a(1) set1 t(1) by (simp del: dict_set_by.simps)
    moreover have "vmap ws' = vmap ws ++ map_of (live_of vs)"
      using t(5) t1(5) live k1(2) by (simp add: map_add_upd_left dom_map_of_conv_image_fst)
    moreover have "length ws' = length ws" "length (live_of ws') = length (live_of ws) + length (live_of vs)"
      using t(4,6) l1 live by simp_all
    ultimately show ?thesis
      using t(2,3,8) grows_but_trans [OF t1(6) t(7)] by blast
  qed
qed

lemma resize_run:
  assumes "dict_at key h s d vs" and "sly_room (Suc (length vs + n)) s"
  shows "\<exists>t ws. dict_resize_by (dict_set_by hf eq (Suc m)) d s = Inr ((), t) \<and> dict_at key h t d ws \<and>
    usable ws \<and> length ws = 2 * length vs \<and> vmap ws = vmap vs \<and> length (live_of ws) = length (live_of vs) \<and>
    data_kept s t \<and> sly_room n t"
proof -
  obtain slots where sl: "ptr_p d" "sly_heap s (GET_ADDR d) = Some (SDict (length (live_of vs)) slots)"
    "slots_at key s slots vs" "probe_inv h vs" "length slots = length vs"
    "\<forall>i<length vs. slot_at key s (slots ! i) (vs ! i)"
    using assms(1) by (rule dict_at_slot)
  let ?ws0 = "replicate (2 * length vs) Empty :: 'k slot_view list"
  have ne: "0 < length vs"
    using sl(4) by (simp add: probe_inv_def)
  obtain nd s1 where nd: "gc_malloc (SDict 0 (replicate (2 * length vs) SLY_NULL)) s = Inr (nd, s1)" "ptr_p nd"
    "sly_heap s1 (GET_ADDR nd) = Some (SDict 0 (replicate (2 * length vs) SLY_NULL))" "grows s s1"
    "sly_room (length vs + n) s1" "GET_ADDR nd = sly_next s"
    using sly_malloc_room [OF assms(2)] by blast
  have d_nd: "GET_ADDR d \<noteq> GET_ADDR nd"
    using sl(2) nd(6) sly_room_fine [OF assms(2)] by (auto simp: heap_fine_def)
  have D0: "dict_at key h s1 nd ?ws0"
    using nd(2,3) ne by (simp add: dict_at_def probe_inv_empty slots_at_def entries_apart_def)
  have kept1: "data_kept s s1"
    by (rule grows_kept [OF nd(4)])
  have "slot_at key s1 (slots ! i) (vs ! i)" if "i < length vs" for i
  proof -
    have "sly_heap s1 (GET_ADDR (slots ! i)) = sly_heap s (GET_ADDR (slots ! i)) \<or> vs ! i = Empty"
    proof (cases "slots ! i = SLY_NULL")
      case True
      then show ?thesis
        using slot_null [OF sl(6) [rule_format, OF that]] by simp
    next
      case False
      then have "\<exists>a b. spair_at s (slots ! i) a b"
        by (rule slot_pair [OF sl(6) [rule_format, OF that]])
      then show ?thesis
        using nd(4) by (auto simp: spair_at_def grows_def)
    qed
    then show ?thesis
      using slot_kept [OF sl(6) [rule_format, OF that] kept1] sl(6) that by (cases "vs ! i = Empty") force+
  qed
  then have all: "list_all2 (slot_at key s1) slots vs"
    using sl(5) by (simp add: list_all2_conv_all_nth)
  have l: "2 * (length (live_of ?ws0) + length (live_of vs)) \<le> length ?ws0"
    using length_live_le [of vs] by simp
  have room1: "sly_room (length (live_of vs) + n) s1"
    using room_mono [OF nd(5)] length_live_le [of vs] by simp
  have none: "\<forall>k \<in> fst ` set (live_of vs). vmap ?ws0 k = None"
    by (simp add: vmap_def)
  have d0: "Dead \<notin> set ?ws0"
    by simp
  obtain t1 ws where t1: "set_slots (dict_set_by hf eq (Suc m)) nd slots s1 = Inr ((), t1)" "dict_at key h t1 nd ws"
    "Dead \<notin> set ws" "length ws = length ?ws0" "vmap ws = vmap ?ws0 ++ map_of (live_of vs)"
    "length (live_of ws) = length (live_of ?ws0) + length (live_of vs)" "grows_but nd s1 t1" "sly_room n t1"
    using import_run [where m = m, OF D0 d0 all probe_inv_distinct [OF sl(4)] none l room1] by blast
  obtain slots' where sl': "sly_heap t1 (GET_ADDR nd) = Some (SDict (length (live_of ws)) slots')"
    "slots_at key t1 slots' ws" "probe_inv h ws"
    using t1(2) by (auto simp: dict_at_def)
  have d1: "sly_heap t1 (GET_ADDR d) = Some (SDict (length (live_of vs)) slots)"
    using t1(7) nd(4) sl(2) d_nd by (simp add: grows_but_def grows_def)
  let ?t2 = "t1\<lparr>sly_heap := (sly_heap t1)(GET_ADDR d \<mapsto> SDict (length (live_of ws)) slots')\<rparr>"
  let ?t = "?t2\<lparr>sly_heap := (sly_heap ?t2)(GET_ADDR nd \<mapsto> SDict (length (live_of ws)) slots)\<rparr>"
  have nd2: "sly_heap ?t2 (GET_ADDR nd) = Some (SDict (length (live_of ws)) slots')"
    using sl'(1) d_nd by simp
  have "dict_resize_by (dict_set_by hf eq (Suc m)) d s = Inr ((), ?t)"
    using dict_object [OF sl(1,2)] nd(1) t1(1) dict_object(1) [OF nd(2) sl'(1)] dict_object(3) [OF sl(1) d1]
      dict_object(3) [OF nd(2) nd2] sl(5) by (simp add: dict_resize_by_def make_dictionary_sz_def)
  moreover have kept2: "data_kept t1 ?t"
    using d1 sl'(1) by (auto simp: data_kept_def)
  moreover have "dict_at key h ?t d ws"
  proof -
    have "slots_at key ?t slots' ws"
    proof (rule slots_kept [OF sl'(2) kept2])
      fix i
      assume i: "i < length ws" "slots' ! i \<noteq> SLY_NULL"
      then have "slot_at key t1 (slots' ! i) (ws ! i)"
        using sl'(2) by (simp add: slots_at_def)
      then obtain a b where "spair_at t1 (slots' ! i) a b"
        using slot_pair i(2) by blast
      then show "sly_heap ?t (GET_ADDR (slots' ! i)) = sly_heap t1 (GET_ADDR (slots' ! i))"
        using d1 sl'(1) by (auto simp: spair_at_def)
    qed
    then show ?thesis
      using sl(1) sl'(3) d_nd by (simp add: dict_at_def)
  qed
  moreover have "sly_room n ?t"
    by (rule room_obj_set [OF room_obj_set [OF t1(8) d1] nd2])
  moreover have "data_kept s ?t"
    using data_kept_trans [OF kept1 data_kept_trans [OF grows_but_kept [OF t1(7) nd(3)] kept2]] .
  moreover have "usable ws"
    using t1(3,4,6) length_live_le [of vs] ne by (auto simp: usable_def over_load_def)
  moreover have "vmap ws = vmap vs"
    using t1(5) by (simp add: vmap_def)
  ultimately show ?thesis
    using t1(4,6) by (intro exI [of _ ?t] exI [of _ ws]) simp
qed

text \<open>Setting a key, whichever of the three ways it goes.\<close>

lemma set_run:
  assumes "dict_at key h s d vs" and "key s a k" and "Empty \<in> set vs"
    and "sly_room (Suc (Suc (length vs + n))) s"
  shows "\<exists>t ws. dict_set_by hf eq (Suc (Suc m)) d a v s = Inr ((), t) \<and> dict_at key h t d ws \<and>
    vmap ws = (vmap vs)(k \<mapsto> v) \<and> data_kept s t \<and> sly_room n t \<and>
    (usable ws \<or> (\<exists>i<length vs. ws = vs[i := Live k v] \<and>
      (vmap vs k = None \<longrightarrow> \<not> over_load (length (live_of ws)) (length ws)) \<and>
      (vmap vs k \<noteq> None \<longrightarrow> length (live_of ws) = length (live_of vs) \<and> vs ! i \<noteq> Empty)))"
proof (cases "vmap vs k")
  case None
  obtain t1 i where t1: "dict_set_by hf eq (Suc (Suc m)) d a v s =
      (if over_load (length (live_of vs) + 1) (length vs) then dict_resize_by (dict_set_by hf eq (Suc m)) d t1
       else Inr ((), t1))" "i < length vs" "vs ! i = Empty \<or> vs ! i = Dead" "dict_at key h t1 d (vs[i := Live k v])"
    "vmap (vs[i := Live k v]) = (vmap vs)(k \<mapsto> v)" "grows_but d s t1" "sly_room (Suc (length vs + n)) t1"
    using set_new [OF assms(1-3) None assms(4)] by blast
  have l1: "length (live_of (vs[i := Live k v])) = length (live_of vs) + 1"
    using live_of_update(1) [OF t1(2,3)] by simp
  obtain slots where "sly_heap s (GET_ADDR d) = Some (SDict (length (live_of vs)) slots)"
    using assms(1) by (auto simp: dict_at_def)
  then have kept: "data_kept s t1"
    by (rule grows_but_kept [OF t1(6)])
  show ?thesis
  proof (cases "over_load (length (live_of vs) + 1) (length vs)")
    case True
    have "sly_room (Suc (length (vs[i := Live k v]) + n)) t1"
      using t1(7) by simp
    then obtain t ws where "dict_resize_by (dict_set_by hf eq (Suc m)) d t1 = Inr ((), t)" "dict_at key h t d ws"
      "usable ws" "vmap ws = vmap (vs[i := Live k v])" "data_kept t1 t" "sly_room n t"
      using resize_run [where m = m, OF t1(4)] by blast
    then show ?thesis
      using t1(1,5) True data_kept_trans [OF kept] by (intro exI [of _ t] exI [of _ ws]) simp
  next
    case False
    then show ?thesis
      using t1 kept room_mono [OF t1(7)] None l1
      by (intro exI [of _ t1] exI [of _ "vs[i := Live k v]"]) (auto simp del: dict_set_by.simps)
  qed
next
  case (Some w)
  have "sly_room n s"
    using room_mono [OF assms(4)] by simp
  then obtain t i where "dict_set_by hf eq (Suc (Suc m)) d a v s = Inr ((), t)" "i < length vs" "vs ! i = Live k w"
    "dict_at key h t d (vs[i := Live k v])" "vmap (vs[i := Live k v]) = (vmap vs)(k \<mapsto> v)" "data_kept s t" "sly_room n t"
    using set_old [OF assms(1-3) Some] by blast
  then show ?thesis
    using Some live_of_replace(1) [of i vs k w v]
    by (intro exI [of _ t] exI [of _ "vs[i := Live k v]"]) (auto simp del: dict_set_by.simps)
qed

end

section \<open>Numbers, symbols and strings as keys\<close>

datatype atom = is_KInt: KInt int | is_KSym: KSym "64 word" | is_KStr: KStr "8 word list"

fun key_at :: "sly_state \<Rightarrow> sly_value \<Rightarrow> atom \<Rightarrow> bool" where
  "key_at s v (KInt i) \<longleftrightarrow> int_at s v i"
| "key_at s v (KSym h) \<longleftrightarrow> ptr_p v \<and> (\<exists>nm al. sly_heap s (GET_ADDR v) = Some (SSymbol h nm al))"
| "key_at s v (KStr bs) \<longleftrightarrow> ptr_p v \<and> sly_heap s (GET_ADDR v) = Some (SString bs) \<and> bs \<noteq> []"

fun atom_hash :: "atom \<Rightarrow> nat" where
  "atom_hash (KInt i) = nat (i mod 2 ^ 64)"
| "atom_hash (KSym h) = unat h"
| "atom_hash (KStr bs) = unat (hash_bytes (take 32 bs))"

text \<open>The predicates of the source on a value at a known object.\<close>

lemma ptr_imm: "ptr_p v \<Longrightarrow> \<not> imm_p v" "ptr_p v \<Longrightarrow> v AND TAG_MASK = 0"
  by (auto simp: ptr_p_def imm_p_def st_imm_def)

lemma imm_not_ptr: "imm_p v \<Longrightarrow> \<not> ptr_p v"
  using ptr_imm by blast

lemma heap_p_run:
  "ptr_p v \<Longrightarrow> sly_heap s (GET_ADDR v) = Some ob \<Longrightarrow> heap_p f v s = Inr (f ob, s)"
  "\<not> ptr_p v \<Longrightarrow> heap_p f v s = Inr (False, s)"
  by (simp_all add: heap_p_def sly_obj_at_def)

lemma number_kind_run:
  "ptr_p v \<Longrightarrow> sly_heap s (GET_ADDR v) = Some ob \<Longrightarrow> number_kind_p t f v s = Inr (f ob, s)"
  using ptr_not_null ptr_imm by (auto simp: number_kind_p_def sly_obj_at_def)

lemmas kind_defs = symbol_p_def byte_vector_p_def string_p_def dictionary_p_def syntax_p_def
  vector_p_def pair_p_def

lemma int_at_kinds:
  assumes "int_at s v i"
  shows "float_p v s = Inr (False, s)" "symbol_p v s = Inr (False, s)" "string_p v s = Inr (False, s)"
    "byte_vector_p v s = Inr (False, s)" "vector_p v s = Inr (False, s)" "pair_p v s = Inr (False, s)"
    "dictionary_p v s = Inr (False, s)" "syntax_p v s = Inr (False, s)" "\<not> null_p v" "\<not> void_p v"
proof -
  consider "imm_p v" "imm_val_type v = imm_code imm_int" | "ptr_p v" "sly_heap s (GET_ADDR v) = Some (SInt i)"
    using assms by (auto simp: int_at_def)
  note cases = this
  show "float_p v s = Inr (False, s)"
    by (cases rule: cases) (simp_all add: float_p_def number_kind_run, simp add: number_kind_p_def)
  show "symbol_p v s = Inr (False, s)" "string_p v s = Inr (False, s)"
    "byte_vector_p v s = Inr (False, s)" "vector_p v s = Inr (False, s)" "pair_p v s = Inr (False, s)"
    "dictionary_p v s = Inr (False, s)" "syntax_p v s = Inr (False, s)"
    by (cases rule: cases; simp add: kind_defs heap_p_run imm_not_ptr)+
  show "\<not> null_p v" "\<not> void_p v"
    by (cases rule: cases; simp add: ptr_not_null)+
qed

lemma symbol_kinds:
  assumes "ptr_p v" and "sly_heap s (GET_ADDR v) = Some (SSymbol h nm al)"
  shows "int_p v s = Inr (False, s)" "float_p v s = Inr (False, s)" "number_p v s = Inr (False, s)"
    "symbol_p v s = Inr (True, s)" "string_p v s = Inr (False, s)"
    "byte_vector_p v s = Inr (False, s)" "vector_p v s = Inr (False, s)" "pair_p v s = Inr (False, s)"
    "dictionary_p v s = Inr (False, s)" "syntax_p v s = Inr (False, s)"
    "as_symbol v s = Inr ((h, nm, al), s)"
proof -
  show n: "int_p v s = Inr (False, s)" "float_p v s = Inr (False, s)"
    by (simp_all add: int_p_def float_p_def number_kind_run [OF assms])
  have "sly_byte_p v s = Inr (False, s)"
    by (simp add: sly_byte_p_def number_kind_run [OF assms])
  then show "number_p v s = Inr (False, s)"
    using n by (simp add: number_p_def)
qed (use assms in \<open>simp_all add: kind_defs heap_p_run as_symbol_def sly_obj_at_def\<close>)

lemma string_kinds:
  assumes "ptr_p v" and "sly_heap s (GET_ADDR v) = Some (SString bs)"
  shows "int_p v s = Inr (False, s)" "float_p v s = Inr (False, s)" "number_p v s = Inr (False, s)"
    "symbol_p v s = Inr (False, s)" "string_p v s = Inr (True, s)"
    "byte_vector_p v s = Inr (False, s)" "vector_p v s = Inr (False, s)" "pair_p v s = Inr (False, s)"
    "dictionary_p v s = Inr (False, s)" "syntax_p v s = Inr (False, s)" "as_bytes v s = Inr (bs, s)"
proof -
  show n: "int_p v s = Inr (False, s)" "float_p v s = Inr (False, s)"
    by (simp_all add: int_p_def float_p_def number_kind_run [OF assms])
  have "sly_byte_p v s = Inr (False, s)"
    by (simp add: sly_byte_p_def number_kind_run [OF assms])
  then show "number_p v s = Inr (False, s)"
    using n by (simp add: number_p_def)
qed (use assms in \<open>simp_all add: kind_defs heap_p_run as_bytes_def sly_obj_at_def\<close>)

lemma key_at_hash:
  assumes "key_at s a k"
  shows "\<exists>w. sly_hash (Suc n) a s = Inr (w, s) \<and> unat w = atom_hash k"
proof (cases k)
  case (KInt i)
  then show ?thesis
    using assms int_at_kinds [of s a i] by (simp add: unsigned_of_int nat_take_bit_eq take_bit_eq_mod)
next
  case (KSym h)
  then obtain nm al where "ptr_p a" "sly_heap s (GET_ADDR a) = Some (SSymbol h nm al)"
    using assms by auto
  then show ?thesis
    using KSym symbol_kinds ptr_not_null by simp
next
  case (KStr bs)
  then have "ptr_p a" "sly_heap s (GET_ADDR a) = Some (SString bs)"
    using assms by auto
  then show ?thesis
    using KStr string_kinds ptr_not_null by simp
qed

lemma key_at_kinds:
  assumes "key_at s v k"
  shows "syntax_p v s = Inr (False, s)" "symbol_p v s = Inr (is_KSym k, s)" "number_p v s = Inr (is_KInt k, s)"
    "string_p v s = Inr (is_KStr k, s)" "byte_vector_p v s = Inr (False, s)" "vector_p v s = Inr (False, s)"
    "pair_p v s = Inr (False, s)" "\<not> null_p v \<and> \<not> void_p v"
  using assms
  by (cases k; auto simp: int_at_kinds symbol_kinds string_kinds ptr_not_null)+

lemma key_at_equal:
  assumes "key_at s a k" and "key_at s b k'"
  shows "sly_equal (Suc n) a b s = Inr (k = k', s)"
proof -
  note ka = key_at_kinds [OF assms(1)] and kb = key_at_kinds [OF assms(2)]
  show ?thesis
  proof (cases "is_KInt k \<and> is_KInt k'")
    case True
    then obtain i j where ij: "k = KInt i" "k' = KInt j"
      by (cases k; cases k') auto
    then show ?thesis
      using assms num_on_ints [of s a i b j] by (simp add: both_def ka kb)
  next
    case not_int: False
    show ?thesis
    proof (cases "is_KSym k \<and> is_KSym k'")
      case True
      then obtain g h where gh: "k = KSym g" "k' = KSym h"
        by (cases k; cases k') auto
      then obtain nm al nm' al' where "ptr_p a" "sly_heap s (GET_ADDR a) = Some (SSymbol g nm al)"
        "ptr_p b" "sly_heap s (GET_ADDR b) = Some (SSymbol h nm' al')"
        using assms by auto
      then show ?thesis
        using gh symbol_kinds by (simp add: both_def ka kb symbol_eq_def expect_def)
    next
      case not_sym: False
      show ?thesis
      proof (cases "is_KStr k \<and> is_KStr k'")
        case True
        then obtain xs ys where xy: "k = KStr xs" "k' = KStr ys"
          by (cases k; cases k') auto
        then have "ptr_p a" "sly_heap s (GET_ADDR a) = Some (SString xs)" "xs \<noteq> []"
          "ptr_p b" "sly_heap s (GET_ADDR b) = Some (SString ys)"
          using assms by auto
        then show ?thesis
          using xy string_kinds by (auto simp: both_def ka kb bytes_eq_def expect_def)
      next
        case not_str: False
        have "both symbol_p a b s = Inr (False, s)" "both number_p a b s = Inr (False, s)"
          "both string_p a b s = Inr (False, s)"
          using not_int not_sym not_str by (auto simp: both_def ka kb)
        moreover have "k \<noteq> k'"
          using not_int not_sym not_str by (cases k) auto
        moreover have "a \<noteq> b"
          using ka(2-4) kb(2-4) not_int not_sym not_str by (cases k) auto
        ultimately show ?thesis
          by (simp add: both_def [of syntax_p] both_def [of byte_vector_p] both_def [of vector_p]
              both_def [of pair_p] ka kb)
      qed
    qed
  qed
qed

lemma key_at_kept: "key_at s a k \<Longrightarrow> data_kept s t \<Longrightarrow> key_at t a k"
  by (cases k) (fastforce simp: int_at_def data_kept_def)+

interpretation atoms: dict_keys "sly_hash (Suc n)" "sly_equal (Suc n)" key_at atom_hash for n
  by unfold_locales (use key_at_hash key_at_equal key_at_kept key_at_kinds(8) in blast)+

end
