(* ===== verification/Sly_DictProps.thy ===== *)
theory Sly_DictProps
  imports Sly_DictMap
begin

text \<open>
  What a dictionary promises (a map, as long as nothing is removed; one removal), and two ways
  in which it fails to: removed entries wear it out, and equal lists have different hashes.
\<close>

section \<open>Properties of dictionaries\<close>

text \<open>A dictionary from which nothing was removed, its capacity and the map it stands for.\<close>

definition dict_rep :: "sly_state \<Rightarrow> sly_value \<Rightarrow> nat \<Rightarrow> (atom \<rightharpoonup> sly_value) \<Rightarrow> bool" where
  "dict_rep s d cap m \<longleftrightarrow> (\<exists>vs. dict_at key_at atom_hash s d vs \<and> vmap vs = m \<and> usable vs \<and> length vs = cap)"

lemma usable_update:
  assumes "usable vs" and "i < length vs" and "ws = vs[i := Live k v]"
    and "\<not> over_load (length (live_of ws)) (length ws)"
  shows "usable ws"
proof -
  have "Dead \<notin> set ws"
    using assms(1,3) set_update_subset_insert [of vs i "Live k v"] by (auto simp: usable_def)
  then show ?thesis
    using assms by (auto simp: usable_def)
qed

lemma make_dictionary_run:
  assumes "sly_room (Suc n) s"
  shows "\<exists>d t. make_dictionary s = Inr (d, t) \<and> dict_at key_at atom_hash t d (replicate 32 Empty) \<and>
    dict_rep t d 32 (\<lambda>_. None) \<and> grows s t \<and> sly_room n t"
proof -
  obtain d t where t: "gc_malloc (SDict 0 (replicate 32 SLY_NULL)) s = Inr (d, t)" "ptr_p d"
    "sly_heap t (GET_ADDR d) = Some (SDict 0 (replicate 32 SLY_NULL))" "grows s t" "sly_room n t"
    using sly_malloc_room [OF assms] by blast
  have "dict_at key_at atom_hash t d (replicate 32 Empty)"
    using t(2,3) by (auto simp: dict_at_def probe_inv_empty slots_at_def entries_apart_def)
  moreover have "usable (replicate 32 Empty)"
    by (simp add: usable_def over_load_def)
  moreover have "vmap (replicate 32 Empty) = (\<lambda>_. None)"
    by (simp add: vmap_def fun_eq_iff)
  ultimately show ?thesis
    using t unfolding dict_rep_def
    by (intro exI [of _ d] exI [of _ t]) (auto simp: make_dictionary_def make_dictionary_sz_def DICT_INIT_SIZE_def)
qed

lemma dict_rep_set:
  assumes "dict_rep s d cap m" and "key_at s a k" and "sly_room (cap + 2 + r) s" and "2 \<le> n"
  shows "\<exists>t cap'. dictionary_set n d a v s = Inr ((), t) \<and> dict_rep t d cap' (m(k \<mapsto> v)) \<and> data_kept s t \<and> sly_room r t"
proof -
  obtain vs where vs: "dict_at key_at atom_hash s d vs" "vmap vs = m" "usable vs" "length vs = cap"
    using assms(1) by (auto simp: dict_rep_def)
  obtain j where n: "n = Suc (Suc j)"
    using assms(4) by (metis Suc_le_D numeral_2_eq_2 Suc_le_mono)
  have room: "sly_room (Suc (Suc (length vs + r))) s"
    using assms(3) vs(4) by simp
  note R = atoms.set_run [OF vs(1) assms(2) usable_empty_left [OF vs(3)] room, of "Suc j" j v,
      folded n, folded dictionary_set_def]
  obtain t ws where t: "dictionary_set n d a v s = Inr ((), t)" "dict_at key_at atom_hash t d ws"
    "vmap ws = (vmap vs)(k \<mapsto> v)" "data_kept s t" "sly_room r t"
    "usable ws \<or> (\<exists>i<length vs. ws = vs[i := Live k v] \<and>
      (vmap vs k = None \<longrightarrow> \<not> over_load (length (live_of ws)) (length ws)) \<and>
      (vmap vs k \<noteq> None \<longrightarrow> length (live_of ws) = length (live_of vs) \<and> vs ! i \<noteq> Empty))"
    using R by (elim exE conjE) (rule that)
  have "usable ws"
    using t(6)
  proof
    assume "\<exists>i<length vs. ws = vs[i := Live k v] \<and>
      (vmap vs k = None \<longrightarrow> \<not> over_load (length (live_of ws)) (length ws)) \<and>
      (vmap vs k \<noteq> None \<longrightarrow> length (live_of ws) = length (live_of vs) \<and> vs ! i \<noteq> Empty)"
    then obtain i where i: "i < length vs" "ws = vs[i := Live k v]"
      "\<not> over_load (length (live_of ws)) (length ws)"
      using vs(3) unfolding usable_def by (metis length_list_update)
    then show ?thesis
      using usable_update [OF vs(3) i] by simp
  qed
  then show ?thesis
    using t(1-5) vs(2) unfolding dict_rep_def by blast
qed

lemma dict_rep_ref:
  assumes "dict_rep s d cap m" and "key_at s b k" and "1 \<le> n"
  shows "dictionary_ref n d b nf s = Inr (case m k of Some w \<Rightarrow> w | None \<Rightarrow> nf, s)"
proof -
  obtain vs where vs: "dict_at key_at atom_hash s d vs" "vmap vs = m" "usable vs"
    using assms(1) by (auto simp: dict_rep_def)
  obtain j where n: "n = Suc j"
    using assms(3) by (cases n) auto
  show ?thesis
    using atoms.ref_run [OF vs(1) assms(2) usable_empty_left [OF vs(3)], of j nf] vs(2) unfolding dictionary_ref_def n by simp
qed

text \<open>
  C22: A dictionary from which no key was removed implements a finite map on integers, symbols and
  strings: setting a key updates the map, whether the key is new, replaced, or makes the table grow,
  and every later lookup answers as the map does.
\<close>

theorem dictionary_set_ref:
  assumes "dict_rep s d cap m" and "key_at s a k" and "sly_room (cap + 2) s" and "2 \<le> n"
  shows "\<exists>t cap'. dictionary_set n d a v s = Inr ((), t) \<and> dict_rep t d cap' (m(k \<mapsto> v)) \<and>
    (\<forall>b k' nf. key_at t b k' \<longrightarrow>
      dictionary_ref n d b nf t = Inr (case (m(k \<mapsto> v)) k' of Some w \<Rightarrow> w | None \<Rightarrow> nf, t))"
proof -
  obtain t cap' where t: "dictionary_set n d a v s = Inr ((), t)" "dict_rep t d cap' (m(k \<mapsto> v))"
    using dict_rep_set [OF assms(1,2), of 0 n v] assms(3,4) by auto
  then show ?thesis
    using dict_rep_ref [OF t(2)] assms(4) by (intro exI [of _ t] exI [of _ cap']) simp
qed

text \<open>
  C23: Removing a key takes it out of the map and leaves the others; removing an absent key stops the
  program.
\<close>

theorem dictionary_remove_key:
  assumes "dict_rep s d cap m" and "key_at s a k" and "1 \<le> n"
  shows "case m k of
      None \<Rightarrow> dictionary_remove n d a s = Inl (Assert ''Dictionary Key Error key not found'')
    | Some v \<Rightarrow> \<exists>t. dictionary_remove n d a s = Inr ((), t) \<and>
        (\<forall>b k' nf. key_at t b k' \<longrightarrow>
          dictionary_ref n d b nf t = Inr (case (m(k := None)) k' of Some w \<Rightarrow> w | None \<Rightarrow> nf, t))"
proof -
  obtain vs where vs: "dict_at key_at atom_hash s d vs" "vmap vs = m" "usable vs"
    using assms(1) by (auto simp: dict_rep_def)
  obtain j where n: "n = Suc j"
    using assms(3) by (cases n) auto
  note e = usable_empty_left [OF vs(3)]
  show ?thesis
  proof (cases "m k")
    case None
    then obtain i where i: "i < length vs" "slot_search (sly_hash n) (sly_equal n) d a s = Inr (i, s)"
      "vs ! i = Empty \<or> vs ! i = Dead"
      using atoms.search_run [OF vs(1) assms(2) e, of j] vs(2) unfolding n by auto
    obtain slots where sl: "ptr_p d" "sly_heap s (GET_ADDR d) = Some (SDict (length (live_of vs)) slots)"
      "slot_at key_at s (slots ! i) (vs ! i)"
      using vs(1) i(1) by (auto simp: dict_at_def slots_at_def)
    have "slot_is_free (slots ! i) s = Inr (True, s)"
      using atoms.slot_free [OF sl(3)] i(3) by simp
    then have "dictionary_remove n d a s = Inl (Assert ''Dictionary Key Error key not found'')"
      using atoms.dict_key_ok_run [OF vs(1) assms(2)] i(2) dict_object [OF sl(1,2)]
      unfolding dictionary_remove_def dict_remove_by_def by (simp add: expect_def)
    then show ?thesis
      using None by simp
  next
    case (Some v)
    obtain t i where t: "dictionary_remove n d a s = Inr ((), t)" "dict_at key_at atom_hash t d (vs[i := Dead])"
      "vmap (vs[i := Dead]) = m(k := None)" "vs ! i = Live k v" "i < length vs"
      using atoms.remove_run [OF vs(1) assms(2) e, of v j] Some vs(2) unfolding dictionary_remove_def n by blast
    have "Empty \<in> set (vs[i := Dead])"
    proof -
      obtain j where "j < length vs" "vs ! j = Empty"
        using e by (metis in_set_conv_nth)
      then show ?thesis
        using t(4) by (metis in_set_conv_nth length_list_update nth_list_update_neq slot_view.distinct(3))
    qed
    from atoms.ref_run [OF t(2) _ this, of _ _ j] show ?thesis
      using t(1,3) Some unfolding dictionary_ref_def n by auto
  qed
qed

text \<open>Keys set and removed again, one after the other.\<close>

fun churn :: "nat \<Rightarrow> sly_value \<Rightarrow> sly_value list \<Rightarrow> unit sly" where
  "churn n d [] = ret ()"
| "churn n d (a # as) =
     bnd (dictionary_set n d a a) (\<lambda>_. bnd (dictionary_remove n d a) (\<lambda>_. churn n d as))"

definition small_int :: "nat \<Rightarrow> sly_value" where
  "small_int i = make_imm imm_int (of_nat i)"

definition worn :: "nat \<Rightarrow> nat \<Rightarrow> atom slot_view list" where
  "worn i cap = replicate i Dead @ replicate (cap - i) Empty"

lemma small_int_key: "i < 2 ^ 31 \<Longrightarrow> key_at s (small_int i) (KInt (int i))"
  by (simp add: small_int_def int_at_def sint_uint unat_of_nat uint_nat signed_take_bit_int_eq_self)

lemma live_of_dead [simp]: "live_of (replicate n Dead) = []"
  by (induction n) auto

lemma worn_props: "length (worn i cap) = (if i \<le> cap then cap else i)" "live_of (worn i cap) = []"
  "i < cap \<Longrightarrow> worn i cap ! i = Empty" "vmap (worn i cap) k = None"
  by (auto simp: worn_def live_of_append vmap_def nth_append)

lemma worn_nth: "m < cap \<Longrightarrow> worn i cap ! m = (if m < i then Dead else Empty)"
  by (auto simp: worn_def nth_append)

lemma churn_step:
  assumes "dict_at key_at atom_hash s d (worn i cap)" and "Suc i < cap" and "cap < 2 ^ 31"
    and "sly_room (Suc r) s" and "2 \<le> n"
  shows "\<exists>t u. dictionary_set n d (small_int i) (small_int i) s = Inr ((), t) \<and>
    dictionary_remove n d (small_int i) t = Inr ((), u) \<and> dict_at key_at atom_hash u d (worn (Suc i) cap) \<and> sly_room r u"
proof -
  let ?vs = "worn i cap" and ?a = "small_int i" and ?k = "KInt (int i)"
  have i: "i < cap"
    using assms(2) by simp
  obtain j where n: "n = Suc (Suc j)"
    using assms(5) by (metis Suc_le_D numeral_2_eq_2 Suc_le_mono)
  have key: "key_at s ?a ?k" for s
    using small_int_key i assms(3) by simp
  have e: "Empty \<in> set ?vs"
    using i by (simp add: worn_def)
  have len: "length ?vs = cap"
    using i by (simp add: worn_props)
  have order: "probe_order cap (atom_hash ?k mod cap) = i # [Suc i..<cap] @ [0..<i]"
    using i assms(3) by (simp add: probe_order_def upt_rec)
  have at_i: "scan ?k ?vs None (probe_order (length ?vs) (atom_hash ?k mod length ?vs)) = Some i"
    unfolding len order using worn_props(3) [OF i] by simp
  obtain t where t: "dictionary_set n d ?a ?a s = Inr ((), t)" "dict_at key_at atom_hash t d (?vs[i := Live ?k ?a])"
    "vmap (?vs[i := Live ?k ?a]) = (vmap ?vs)(?k \<mapsto> ?a)" "sly_room r t"
  proof -
    obtain t m where t: "dict_set_by (sly_hash n) (sly_equal n) n d ?a ?a s =
        (if over_load (length (live_of ?vs) + 1) (length ?vs)
         then dict_resize_by (dict_set_by (sly_hash n) (sly_equal n) (Suc j)) d t else Inr ((), t))"
      "scan ?k ?vs None (probe_order (length ?vs) (atom_hash ?k mod length ?vs)) = Some m"
      "dict_at key_at atom_hash t d (?vs[m := Live ?k ?a])" "vmap (?vs[m := Live ?k ?a]) = (vmap ?vs)(?k \<mapsto> ?a)"
      "sly_room r t"
      using atoms.set_new [OF assms(1) key e worn_props(4) assms(4), of "Suc j" "Suc j" ?a] unfolding n by blast
    moreover have "\<not> over_load (length (live_of ?vs) + 1) (length ?vs)"
      using assms(2) unfolding len worn_props(2) by (simp add: over_load_def)
    moreover have "m = i"
      using t(2) at_i by simp
    ultimately show ?thesis
      using that [of t] unfolding dictionary_set_def by auto
  qed
  have live: "?vs[i := Live ?k ?a] ! i = Live ?k ?a"
    using i len by simp
  have upd: "?vs[i := Live ?k ?a, i := Dead] = worn (Suc i) cap"
  proof (rule nth_equalityI)
    fix m
    assume "m < length (?vs[i := Live ?k ?a, i := Dead])"
    then have "m < cap"
      using len by simp
    then show "?vs[i := Live ?k ?a, i := Dead] ! m = worn (Suc i) cap ! m"
      using i len by (cases "m = i") (auto simp: worn_nth)
  qed (use assms(2) in \<open>simp add: worn_props\<close>)
  have "Empty \<in> set (?vs[i := Live ?k ?a])"
    using assms(2) len by (auto simp: in_set_conv_nth worn_nth intro!: exI [of _ "Suc i"])
  then obtain u m where u: "dictionary_remove n d ?a t = Inr ((), u)" "m < length ?vs"
    "dict_at key_at atom_hash u d (?vs[i := Live ?k ?a, m := Dead])" "?vs[i := Live ?k ?a] ! m = Live ?k ?a"
    "sly_room r u"
    using atoms.remove_run [OF t(2) key, of ?a "Suc j"] t(3,4) unfolding dictionary_remove_def n by auto
  have "m = i"
    using u(2,4) i len by (cases "m = i") (auto simp: worn_nth split: if_splits)
  then have "dict_at key_at atom_hash u d (worn (Suc i) cap)"
    using u(3) upd by simp
  then show ?thesis
    using t(1) u(1,5) by blast
qed

lemma churn_run:
  assumes "dict_at key_at atom_hash s d (worn i cap)" and "i + k < cap" and "cap < 2 ^ 31"
    and "sly_room (k + r) s" and "2 \<le> n"
  shows "\<exists>t. churn n d (map small_int [i..<i + k]) s = Inr ((), t) \<and>
    dict_at key_at atom_hash t d (worn (i + k) cap) \<and> sly_room r t"
  using assms
proof (induction k arbitrary: i s)
  case (Suc k)
  obtain t u where u: "dictionary_set n d (small_int i) (small_int i) s = Inr ((), t)"
    "dictionary_remove n d (small_int i) t = Inr ((), u)" "dict_at key_at atom_hash u d (worn (Suc i) cap)"
    "sly_room (k + r) u"
    using churn_step [OF Suc.prems(1) _ Suc.prems(3) _ Suc.prems(5), of "k + r"] Suc.prems(2,4) by auto
  obtain w where w: "churn n d (map small_int [Suc i..<Suc i + k]) u = Inr ((), w)"
    "dict_at key_at atom_hash w d (worn (Suc i + k) cap)" "sly_room r w"
    using Suc.IH [OF u(3) _ Suc.prems(3) u(4) Suc.prems(5)] Suc.prems(2) by auto
  have "[i..<i + Suc k] = i # [Suc i..<Suc i + k]"
    by (simp add: upt_rec [of i])
  then show ?case
    using u(1,2) w by simp
qed simp

text \<open>
  C24: Removed entries are never reclaimed as empty slots: on a new dictionary, setting and removing 31
  keys in turn and setting one more leaves it with a single key and no empty slot, and from then on
  looking up any key it does not hold stops the program, as setting a new one does.
\<close>

theorem removals_exhaust:
  assumes "sly_room 40 s" and "2 \<le> n"
  shows "\<exists>d t u. bnd make_dictionary (\<lambda>d. bnd (churn n d (map small_int [0..<31])) (\<lambda>_. ret d)) s = Inr (d, t) \<and>
    dictionary_set n d (small_int 31) v t = Inr ((), u) \<and>
    (\<forall>b k nf. key_at u b k \<longrightarrow> k \<noteq> KInt 31 \<longrightarrow>
      dictionary_ref n d b nf u = Inl (Assert ''Dictionary Key Error key not found'') \<and>
      dictionary_set n d b nf u = Inl (Assert ''Dictionary Key Error key not found''))"
proof -
  obtain j where n: "n = Suc (Suc j)"
    using assms(2) by (metis Suc_le_D numeral_2_eq_2 Suc_le_mono)
  have "sly_room (Suc 39) s"
    using assms(1) by simp
  then obtain d s1 where d: "make_dictionary s = Inr (d, s1)" "dict_at key_at atom_hash s1 d (worn 0 32)" "sly_room 39 s1"
    using make_dictionary_run unfolding worn_def by fastforce
  have "sly_room (31 + 8) s1"
    using d(3) by simp
  then obtain t where t: "churn n d (map small_int [0..<31]) s1 = Inr ((), t)"
    "dict_at key_at atom_hash t d (worn 31 32)" "sly_room 8 t"
    using churn_run [OF d(2), of 31 8 n] assms(2) by auto
  let ?vs = "worn 31 32" and ?k = "KInt (int 31)"
  have key: "key_at t (small_int 31) ?k"
    by (rule small_int_key) simp
  have e: "Empty \<in> set ?vs"
    by (simp add: worn_def)
  have "sly_room (Suc 7) t"
    using t(3) by simp
  then obtain u i where u: "dictionary_set n d (small_int 31) v t =
      (if over_load (length (live_of ?vs) + 1) (length ?vs)
       then dict_resize_by (dict_set_by (sly_hash n) (sly_equal n) (Suc j)) d u else Inr ((), u))"
    "scan ?k ?vs None (probe_order (length ?vs) (atom_hash ?k mod length ?vs)) = Some i"
    "dict_at key_at atom_hash u d (?vs[i := Live ?k v])"
    using atoms.set_new [OF t(2) key e worn_props(4), of 7 "Suc j" "Suc j" v]
    unfolding dictionary_set_def n by blast
  have len: "length ?vs = 32" "length (live_of ?vs) = 0"
    by (simp_all add: worn_props)
  have "atom_hash ?k = 31"
    by simp
  then have "probe_order (length ?vs) (atom_hash ?k mod length ?vs) = 31 # [0..<31]"
    unfolding len by (simp add: probe_order_def upt_rec [of 31])
  then have i: "i = 31"
    using u(2) worn_props(3) [of 31 32] by simp
  have set: "dictionary_set n d (small_int 31) v t = Inr ((), u)"
    using u(1) unfolding len by (simp add: over_load_def)
  let ?ws = "?vs[i := Live ?k v]"
  have full: "?ws ! m = Dead \<or> ?ws ! m = Live ?k v" if "m < 32" for m
    using that i len(1) by (cases "m = 31") (auto simp: worn_nth)
  have lost: "slot_search (sly_hash n) (sly_equal n) d b u = (\<lambda>_. Inl (Assert ''Dictionary Key Error key not found'')) u"
    if "key_at u b k" "k \<noteq> KInt 31" for b k
  proof -
    have "?ws ! m \<noteq> Empty \<and> (\<forall>v'. ?ws ! m \<noteq> Live k v')" if "m < length ?ws" for m
      using full [of m] that len(1) \<open>k \<noteq> KInt 31\<close> by auto
    then show ?thesis
      using atoms.search_lost [OF u(3) that(1), of "Suc j"] unfolding n by blast
  qed
  have "dictionary_ref n d b nf u = Inl (Assert ''Dictionary Key Error key not found'') \<and>
      dictionary_set n d b nf u = Inl (Assert ''Dictionary Key Error key not found'')"
    if "key_at u b k" "k \<noteq> KInt 31" for b k nf
  proof -
    have "dict_key_ok d b u = Inr ((), u)"
      by (rule atoms.dict_key_ok_run [OF u(3) that(1)])
    moreover have "dictionary_p d u = Inr (True, u)" "\<not> null_p b" "\<not> void_p b"
      using u(3) key_at_kinds(8) [OF that(1)] by (auto simp: dict_at_def dict_object(2))
    ultimately show ?thesis
      using lost [OF that] unfolding dictionary_ref_def dict_ref_by_def entry_search_def dictionary_set_def n
      by (simp add: expect_def)
  qed
  then show ?thesis
    using d(1) t(1) set by (intro exI [of _ d] exI [of _ t] exI [of _ u]) simp
qed

section \<open>Inputs on which the theorems apply\<close>

lemma dictionary_set_ref_witness:
  "\<exists>d s t. make_dictionary sly_start = Inr (d, s) \<and> dictionary_set 2 d (small_int 7) SLY_TRUE s = Inr ((), t) \<and>
     dictionary_ref 2 d (small_int 7) SLY_VOID t = Inr (SLY_TRUE, t)"
proof -
  have "sly_room (Suc 34) sly_start"
    by simp
  from make_dictionary_run [OF this] obtain d s where d: "make_dictionary sly_start = Inr (d, s)"
    "dict_rep s d 32 (\<lambda>_. None)" "sly_room (32 + 2) s"
    by auto
  have "key_at s (small_int 7) (KInt (int 7))" for s
    by (rule small_int_key) simp
  then show ?thesis
    using dictionary_set_ref [OF d(2) _ d(3), of "small_int 7" "KInt 7" 2 SLY_TRUE] d(1) by fastforce
qed

lemma dictionary_remove_key_witness:
  "\<exists>d s. make_dictionary sly_start = Inr (d, s) \<and>
     dictionary_remove 1 d (small_int 7) s = Inl (Assert ''Dictionary Key Error key not found'')"
proof -
  have "sly_room (Suc 34) sly_start"
    by simp
  from make_dictionary_run [OF this] obtain d s where d: "make_dictionary sly_start = Inr (d, s)"
    "dict_rep s d 32 (\<lambda>_. None)"
    by auto
  have "key_at s (small_int 7) (KInt (int 7))" for s
    by (rule small_int_key) simp
  then show ?thesis
    using dictionary_remove_key [OF d(2), of "small_int 7" "KInt 7" 1] d(1) by simp
qed

lemma removals_exhaust_witness:
  "\<exists>d u. dictionary_ref 2 d (small_int 32) SLY_VOID u = Inl (Assert ''Dictionary Key Error key not found'')"
proof -
  have "key_at u (small_int 32) (KInt (int 32))" for u
    by (rule small_int_key) simp
  then show ?thesis
    using removals_exhaust [of sly_start 2 SLY_TRUE] by fastforce
qed

section \<open>Hashes of pairs\<close>

lemma DH_inj: "DH g c = DH h c \<longleftrightarrow> g = h"
proof
  assume "DH g c = DH h c"
  then have "33 * g = 33 * h"
    by (simp add: DH_def push_bit_eq_mult algebra_simps)
  then have "0xf83e0f83e0f83e1 * (33 * g) = 0xf83e0f83e0f83e1 * (33 * h)"
    by (rule arg_cong)
  moreover have "(0xf83e0f83e0f83e1 * 33 :: 64 word) = 1"
    by simp
  ultimately show "g = h"
    unfolding mult.assoc [symmetric] by (simp only: mult_1)
qed simp

lemma hash_hash_inj: "hash_hash g x = hash_hash h x \<longleftrightarrow> g = h"
proof -
  have "foldl DH g bs = foldl DH h bs \<longleftrightarrow> g = h" for bs
    by (induction bs arbitrary: g h) (simp_all add: DH_inj)
  then show ?thesis
    by (simp add: hash_hash_def)
qed

lemma null_kinds:
  "int_p SLY_NULL s = Inr (False, s)" "float_p SLY_NULL s = Inr (False, s)" "number_p SLY_NULL s = Inr (False, s)"
  "symbol_p SLY_NULL s = Inr (False, s)" "string_p SLY_NULL s = Inr (False, s)"
  "byte_vector_p SLY_NULL s = Inr (False, s)" "vector_p SLY_NULL s = Inr (False, s)"
  "dictionary_p SLY_NULL s = Inr (False, s)" "syntax_p SLY_NULL s = Inr (False, s)"
proof -
  have "\<not> ptr_p SLY_NULL"
    using ptr_not_null by fastforce
  then show "symbol_p SLY_NULL s = Inr (False, s)" "string_p SLY_NULL s = Inr (False, s)"
    "byte_vector_p SLY_NULL s = Inr (False, s)" "vector_p SLY_NULL s = Inr (False, s)"
    "dictionary_p SLY_NULL s = Inr (False, s)" "syntax_p SLY_NULL s = Inr (False, s)"
    by (simp_all add: kind_defs heap_p_run)
  show i: "int_p SLY_NULL s = Inr (False, s)" "float_p SLY_NULL s = Inr (False, s)"
    by (simp_all add: int_p_def float_p_def number_kind_p_def)
  then show "number_p SLY_NULL s = Inr (False, s)"
    by (simp add: number_p_def sly_byte_p_def number_kind_p_def)
qed

lemma pair_kinds:
  assumes "spair_at s v a d"
  shows "int_p v s = Inr (False, s)" "float_p v s = Inr (False, s)" "number_p v s = Inr (False, s)"
    "symbol_p v s = Inr (False, s)" "string_p v s = Inr (False, s)"
    "byte_vector_p v s = Inr (False, s)" "vector_p v s = Inr (False, s)"
    "dictionary_p v s = Inr (False, s)" "syntax_p v s = Inr (False, s)"
proof -
  have v: "ptr_p v" "sly_heap s (GET_ADDR v) = Some (SPair a d)"
    using assms by (simp_all add: spair_at_def)
  show n: "int_p v s = Inr (False, s)" "float_p v s = Inr (False, s)"
    by (simp_all add: int_p_def float_p_def number_kind_run [OF v])
  have "sly_byte_p v s = Inr (False, s)"
    by (simp add: sly_byte_p_def number_kind_run [OF v])
  then show "number_p v s = Inr (False, s)"
    using n by (simp add: number_p_def)
qed (use assms in \<open>simp_all add: kind_defs heap_p_run spair_at_def\<close>)

text \<open>
  Two lists of one element each whose elements are equal but not the same word are equal, and yet
  they never have the same hash: a dictionary does not find a list by an equal one.
\<close>

theorem equal_lists_hash_apart:
  assumes "spair_at s v a SLY_NULL" and "spair_at s w b SLY_NULL" and "a \<noteq> b"
    and "sly_equal (Suc (Suc n)) a b s = Inr (True, s)"
  shows "sly_equal (Suc (Suc (Suc n))) v w s = Inr (True, s) \<and>
    (\<exists>g h. sly_hash (Suc m) v s = Inr (g, s) \<and> sly_hash (Suc m) w s = Inr (h, s) \<and> g \<noteq> h)"
proof -
  have "sly_equal (Suc (Suc n)) SLY_NULL SLY_NULL s = Inr (True, s)"
    by (simp add: both_def null_kinds)
  then have "list_eq_by (sly_equal (Suc (Suc n))) (Suc (Suc n)) v w s = Inr (True, s)"
    using assms by (simp add: both_def del: sly_equal.simps)
  then have "sly_equal (Suc (Suc (Suc n))) v w s = Inr (True, s)"
    using assms(1,2) by (subst sly_equal.simps)
      (simp add: both_def pair_kinds [OF assms(1)] pair_kinds [OF assms(2)] del: sly_equal.simps list_eq_by.simps)
  moreover have "sly_hash (Suc m) u s = Inr (hash_hash x SLY_NULL, s)" if "spair_at s u x SLY_NULL" for u x
    using that pair_kinds [OF that] by (simp add: hash_pair_def)
  ultimately show ?thesis
    using assms(1-3) hash_hash_inj by blast
qed

definition nested_demo :: sly_state where
  "nested_demo = sly_start\<lparr>sly_next := 80, sly_heap := [16 \<mapsto> SString [97], 32 \<mapsto> SString [97],
     48 \<mapsto> SPair 16 SLY_NULL, 64 \<mapsto> SPair 32 SLY_NULL]\<rparr>"

lemma equal_lists_hash_apart_witness:
  "sly_equal 3 48 64 nested_demo = Inr (True, nested_demo) \<and>
   (\<exists>g h. sly_hash 1 48 nested_demo = Inr (g, nested_demo) \<and> sly_hash 1 64 nested_demo = Inr (h, nested_demo) \<and> g \<noteq> h)"
proof -
  have p: "spair_at nested_demo 48 16 SLY_NULL" "spair_at nested_demo 64 32 SLY_NULL"
    by (simp_all add: spair_at_def nested_demo_def ptr_p_def void_p_def SLY_VOID_def TAG_MASK_def GET_ADDR_def)
  have "key_at nested_demo 16 (KStr [97])" "key_at nested_demo 32 (KStr [97])"
    by (simp_all add: nested_demo_def ptr_p_def void_p_def SLY_VOID_def TAG_MASK_def GET_ADDR_def)
  from key_at_equal [OF this, of "Suc 0"]
  have "sly_equal (Suc (Suc 0)) 16 32 nested_demo = Inr (True, nested_demo)"
    by (simp del: sly_equal.simps key_at.simps)
  from equal_lists_hash_apart [OF p _ this, of 0] show ?thesis
    by (simp add: numeral_3_eq_3 del: sly_equal.simps sly_hash.simps)
qed

end
