(* ===== verification/Sly_Opcodes.thy ===== *)
theory Sly_Opcodes
  imports Sly_Values
begin

text \<open>
  The instructions of the virtual machine (src/opcodes.h): the opcodes, the packing of an
  instruction into a word, and the fields read back from it.
\<close>

section \<open>Opcodes\<close>

datatype opcode =
    OP_NOP | OP_MOVE | OP_LOADI | OP_LOADK | OP_LOADFALSE | OP_LOADTRUE | OP_LOADNULL | OP_LOADVOID
  | OP_LOADCONT | OP_GETUPVAL | OP_SETUPVAL | OP_GETUPDICT | OP_SETUPDICT | OP_DICTREF | OP_DICTSET
  | OP_JMP | OP_FJMP | OP_CALL | OP_TAILCALL | OP_CALLWCC | OP_CALLWVALUES | OP_CALLWVALUES0
  | OP_APPLY | OP_EXIT | OP_CLOSURE | OP_COUNT

text \<open>The enumeration in its order.\<close>

definition opcodes :: "opcode list" where
  "opcodes =
     [OP_NOP, OP_MOVE, OP_LOADI, OP_LOADK, OP_LOADFALSE, OP_LOADTRUE, OP_LOADNULL, OP_LOADVOID,
      OP_LOADCONT, OP_GETUPVAL, OP_SETUPVAL, OP_GETUPDICT, OP_SETUPDICT, OP_DICTREF, OP_DICTSET,
      OP_JMP, OP_FJMP, OP_CALL, OP_TAILCALL, OP_CALLWCC, OP_CALLWVALUES, OP_CALLWVALUES0,
      OP_APPLY, OP_EXIT, OP_CLOSURE, OP_COUNT]"

fun op_num :: "opcode \<Rightarrow> 8 word" where
  "op_num OP_NOP = 0" | "op_num OP_MOVE = 1" | "op_num OP_LOADI = 2" | "op_num OP_LOADK = 3"
| "op_num OP_LOADFALSE = 4" | "op_num OP_LOADTRUE = 5" | "op_num OP_LOADNULL = 6"
| "op_num OP_LOADVOID = 7" | "op_num OP_LOADCONT = 8" | "op_num OP_GETUPVAL = 9"
| "op_num OP_SETUPVAL = 10" | "op_num OP_GETUPDICT = 11" | "op_num OP_SETUPDICT = 12"
| "op_num OP_DICTREF = 13" | "op_num OP_DICTSET = 14" | "op_num OP_JMP = 15" | "op_num OP_FJMP = 16"
| "op_num OP_CALL = 17" | "op_num OP_TAILCALL = 18" | "op_num OP_CALLWCC = 19"
| "op_num OP_CALLWVALUES = 20" | "op_num OP_CALLWVALUES0 = 21" | "op_num OP_APPLY = 22"
| "op_num OP_EXIT = 23" | "op_num OP_CLOSURE = 24" | "op_num OP_COUNT = 25"

text \<open>A byte past the enumeration is no opcode; the machine treats it as it treats \<open>OP_COUNT\<close>.\<close>

definition op_of :: "8 word \<Rightarrow> opcode" where
  "op_of b = (if unat b < length opcodes then opcodes ! unat b else OP_COUNT)"

section \<open>Instructions\<close>

type_synonym INSTR = "64 word"

definition AxMAX :: "32 word" where "AxMAX = 16777215"
definition sAxMAX :: int where "sAxMAX = 8388607"
definition sAxMIN :: int where "sAxMIN = - 8388608"
definition REG_MAX :: nat where "REG_MAX = 255"

text \<open>The four bytes of the operands are the low half of the word, the line the high half.\<close>

definition instr :: "32 word \<Rightarrow> 32 word \<Rightarrow> INSTR" where
  "instr u lno = ucast u OR push_bit 32 (ucast lno)"

definition as_u32 :: "INSTR \<Rightarrow> 32 word" where
  "as_u32 v = ucast v"

definition GET_LN :: "INSTR \<Rightarrow> 32 word" where
  "GET_LN v = ucast (drop_bit 32 v)"

definition as_u8 :: "nat \<Rightarrow> INSTR \<Rightarrow> 8 word" where
  "as_u8 i v = ucast (drop_bit (8 * i) v)"

definition GET_OP :: "INSTR \<Rightarrow> opcode" where "GET_OP v = op_of (as_u8 0 v)"
definition GET_A :: "INSTR \<Rightarrow> 8 word" where "GET_A v = as_u8 1 v"
definition GET_B :: "INSTR \<Rightarrow> 8 word" where "GET_B v = as_u8 2 v"
definition GET_C :: "INSTR \<Rightarrow> 8 word" where "GET_C v = as_u8 3 v"
definition GET_Ax :: "INSTR \<Rightarrow> 32 word" where "GET_Ax v = drop_bit 8 (as_u32 v)"
definition GET_sAx :: "INSTR \<Rightarrow> int" where "GET_sAx v = sint (as_u32 v) div 2 ^ 8"
definition GET_Bx :: "INSTR \<Rightarrow> 16 word" where "GET_Bx v = ucast (drop_bit 16 v)"
definition GET_sBx :: "INSTR \<Rightarrow> int" where "GET_sBx v = sint (GET_Bx v)"

text \<open>Setting one byte of the operands of a word that is zero there.\<close>

definition byte_at :: "nat \<Rightarrow> 8 word \<Rightarrow> 32 word" where
  "byte_at i b = push_bit (8 * i) (ucast b)"

definition iA :: "8 word \<Rightarrow> 8 word \<Rightarrow> 32 word \<Rightarrow> INSTR" where
  "iA i a lno = instr (byte_at 0 i OR byte_at 1 a) lno"

definition iAx :: "8 word \<Rightarrow> 32 word \<Rightarrow> 32 word \<Rightarrow> INSTR result" where
  "iAx i ax lno =
     rbind (rcheck (ax \<le> AxMAX) ''Error (op encode) operand outside of accepted range.'') (\<lambda>_.
     Inr (instr (push_bit 8 (ax AND 0x00ffffff) OR byte_at 0 i) lno))"

definition isAx :: "8 word \<Rightarrow> int \<Rightarrow> 32 word \<Rightarrow> INSTR result" where
  "isAx i ax lno =
     rbind (rcheck (ax \<ge> sAxMIN \<and> ax \<le> sAxMAX) ''Error (op encode) operand outside of accepted range.'') (\<lambda>_.
     Inr (instr (push_bit 8 (word_of_int ax AND 0x00ffffff) OR byte_at 0 i) lno))"

definition iAB :: "8 word \<Rightarrow> 8 word \<Rightarrow> 8 word \<Rightarrow> 32 word \<Rightarrow> INSTR" where
  "iAB i a b lno = instr (byte_at 0 i OR byte_at 1 a OR byte_at 2 b) lno"

definition iABx :: "8 word \<Rightarrow> 8 word \<Rightarrow> 16 word \<Rightarrow> 32 word \<Rightarrow> INSTR" where
  "iABx i a bx lno = instr (byte_at 0 i OR byte_at 1 a OR push_bit 16 (ucast bx)) lno"

definition iAsBx :: "8 word \<Rightarrow> 8 word \<Rightarrow> 16 word \<Rightarrow> 32 word \<Rightarrow> INSTR" where
  "iAsBx i a bx lno = iABx i a bx lno"

definition iABC :: "8 word \<Rightarrow> 8 word \<Rightarrow> 8 word \<Rightarrow> 8 word \<Rightarrow> 32 word \<Rightarrow> INSTR" where
  "iABC i a b c lno = instr (byte_at 0 i OR byte_at 1 a OR byte_at 2 b OR byte_at 3 c) lno"

section \<open>Reading back what was packed\<close>

lemma op_of_num [simp]: "op_of (op_num op) = op"
  by (cases op) (simp_all add: op_of_def opcodes_def)

named_theorems encoding "the packings and the fields, unfolded to bits"

lemmas [encoding] = as_u8_def as_u32_def GET_LN_def GET_Bx_def instr_def byte_at_def iA_def iAB_def
  iABx_def iAsBx_def iABC_def bit_simps

lemma as_u32_instr [simp]: "as_u32 (instr u l) = u"
  by (rule bit_word_eqI) (auto simp: encoding)

lemma GET_LN_instr [simp]: "GET_LN (instr u l) = l"
  by (rule bit_word_eqI) (auto simp: encoding dest: bit_imp_le_length)

lemma iA_fields: "as_u8 0 (iA i a l) = i" "as_u8 1 (iA i a l) = a"
  by (rule bit_word_eqI; auto simp: encoding dest: bit_imp_le_length)+

lemma iAB_fields: "as_u8 0 (iAB i a b l) = i" "as_u8 1 (iAB i a b l) = a" "as_u8 2 (iAB i a b l) = b"
  by (rule bit_word_eqI; auto simp: encoding dest: bit_imp_le_length)+

lemma iABx_fields: "as_u8 0 (iABx i a bx l) = i" "as_u8 1 (iABx i a bx l) = a" "GET_Bx (iABx i a bx l) = bx"
  by (rule bit_word_eqI; auto simp: encoding dest: bit_imp_le_length)+

lemma iABC_fields:
  "as_u8 0 (iABC i a b c l) = i" "as_u8 1 (iABC i a b c l) = a" "as_u8 2 (iABC i a b c l) = b"
  "as_u8 3 (iABC i a b c l) = c"
  by (rule bit_word_eqI; auto simp: encoding dest: bit_imp_le_length)+

lemma mask_24: "(0x00ffffff :: 32 word) = mask 24"
  by (simp add: mask_eq_exp_minus_1)

lemma Ax_fields:
  "as_u8 0 (instr (push_bit 8 (x AND 0x00ffffff) OR byte_at 0 i) l) = i"
  "GET_Ax (instr (push_bit 8 (x AND 0x00ffffff) OR byte_at 0 i) l) = x AND 0x00ffffff"
  by (rule bit_word_eqI; auto simp: encoding GET_Ax_def mask_24 dest: bit_imp_le_length)+

lemma bit_small:
  fixes a :: int
  assumes "sAxMIN \<le> a" and "a \<le> sAxMAX" and "23 \<le> n"
  shows "bit a n = bit a 23"
proof -
  have "signed_take_bit 23 a = a"
    using assms(1,2) by (simp add: signed_take_bit_int_eq_self sAxMIN_def sAxMAX_def)
  moreover have "bit (signed_take_bit 23 a) n = bit (signed_take_bit 23 a) 23"
    using assms(3) by (simp add: bit_signed_take_bit_iff min_def)
  ultimately show ?thesis
    by simp
qed

lemma bit_sint_u32: "bit (sint (u :: 32 word)) m = bit u (min m 31)"
  by (auto simp: sint_uint bit_signed_take_bit_iff bit_uint_iff min.commute min_def)

lemma bit_div_256: "bit (k div 2 ^ 8) n = bit (k :: int) (n + 8)"
  unfolding drop_bit_eq_div [symmetric] by (simp only: bit_drop_bit_eq comp_apply add.commute)

lemma sAx_field:
  assumes "sAxMIN \<le> a" and "a \<le> sAxMAX"
  shows "GET_sAx (instr (push_bit 8 (word_of_int a AND 0x00ffffff) OR byte_at 0 i) l) = a"
proof -
  let ?u = "push_bit 8 (word_of_int a AND 0x00ffffff) OR byte_at 0 i :: 32 word"
  have "bit (sint ?u div 2 ^ 8) n = bit a n" for n
  proof -
    have "bit (sint ?u div 2 ^ 8) n = bit (sint ?u) (n + 8)"
      by (rule bit_div_256)
    also have "\<dots> = bit ?u (min (n + 8) 31)"
      by (rule bit_sint_u32)
    also have "\<dots> = bit a (min n 23)"
      by (auto simp: mask_24 byte_at_def bit_simps min_def dest: bit_imp_le_length)
    also have "\<dots> = bit a n"
      using bit_small [OF assms, of n] by (auto simp: min_def)
    finally show ?thesis .
  qed
  then show ?thesis
    by (simp add: GET_sAx_def bit_eq_iff)
qed

text \<open>
  C21: Every instruction the compiler packs is read back as it was packed: the opcode, each operand in
  its field, signed where it is signed, and the line; the packings of wide operands stop on exactly
  those that do not fit.
\<close>

theorem instructions_round_trip:
  "(let v = iABC (op_num op) a b c l in GET_OP v = op \<and> GET_A v = a \<and> GET_B v = b \<and> GET_C v = c \<and> GET_LN v = l) \<and>
   (let v = iAB (op_num op) a b l in GET_OP v = op \<and> GET_A v = a \<and> GET_B v = b \<and> GET_LN v = l) \<and>
   (let v = iA (op_num op) a l in GET_OP v = op \<and> GET_A v = a \<and> GET_LN v = l) \<and>
   (let v = iABx (op_num op) a bx l in GET_OP v = op \<and> GET_A v = a \<and> GET_Bx v = bx \<and> GET_LN v = l) \<and>
   (let v = iAsBx (op_num op) a bx l in GET_OP v = op \<and> GET_A v = a \<and> GET_sBx v = sint bx \<and> GET_LN v = l) \<and>
   (case iAx (op_num op) ax l of Inr v \<Rightarrow> GET_OP v = op \<and> GET_Ax v = ax \<and> GET_LN v = l | Inl _ \<Rightarrow> AxMAX < ax) \<and>
   (case isAx (op_num op) sax l of Inr v \<Rightarrow> GET_OP v = op \<and> GET_sAx v = sax \<and> GET_LN v = l
      | Inl _ \<Rightarrow> sax < sAxMIN \<or> sAxMAX < sax)"
proof -
  have "ax \<le> AxMAX \<Longrightarrow> ax AND 0x00ffffff = ax"
  proof -
    assume "ax \<le> AxMAX"
    then have "unat ax < 2 ^ 24"
      by (simp add: AxMAX_def word_le_nat_alt)
    then have "take_bit 24 ax = ax"
      by (simp add: word_unat_eq_iff unsigned_take_bit_eq take_bit_nat_eq_self)
    then show ?thesis
      by (simp add: mask_24 flip: take_bit_eq_mask)
  qed
  then have "ax \<le> AxMAX \<Longrightarrow> GET_OP (instr (push_bit 8 (ax AND 0x00ffffff) OR byte_at 0 (op_num op)) l) = op \<and>
      GET_Ax (instr (push_bit 8 (ax AND 0x00ffffff) OR byte_at 0 (op_num op)) l) = ax"
    unfolding GET_OP_def Ax_fields by simp
  then have "case iAx (op_num op) ax l of Inr v \<Rightarrow> GET_OP v = op \<and> GET_Ax v = ax \<and> GET_LN v = l | Inl _ \<Rightarrow> AxMAX < ax"
    by (cases "ax \<le> AxMAX") (simp_all add: iAx_def not_le)
  moreover have "case isAx (op_num op) sax l of Inr v \<Rightarrow> GET_OP v = op \<and> GET_sAx v = sax \<and> GET_LN v = l
      | Inl _ \<Rightarrow> sax < sAxMIN \<or> sAxMAX < sax"
    by (cases "sax \<ge> sAxMIN \<and> sax \<le> sAxMAX") (simp_all only: isAx_def rcheck_True rcheck_False rbind_Inr rbind_Inl
        sum.case GET_OP_def Ax_fields sAx_field GET_LN_instr op_of_num, auto)
  moreover have "GET_LN (iABC i a b c l) = l" "GET_LN (iAB i a b l) = l" "GET_LN (iA i a l) = l"
    "GET_LN (iABx i a bx l) = l" for i
    by (simp_all add: iABC_def iAB_def iA_def iABx_def)
  ultimately show ?thesis
    by (simp add: Let_def GET_OP_def GET_A_def GET_B_def GET_C_def GET_sBx_def iAsBx_def iABC_fields iAB_fields
        iA_fields iABx_fields del: One_nat_def)
qed

end
