(* ===== verification/Sly_Closures.thy ===== *)
theory Sly_Closures
  imports Sly_Dict Sly_Opcodes
begin

text \<open>
  Prototypes, closures, continuations and upvalues (src/sly_types.c), and the frames they run in
  (src/opcodes.c, src/eval.c).  An open upvalue points to a register of a frame that is still
  running; closing it moves the register's value into the upvalue.  The open ones are linked in a
  list from the state, searched in a number of steps bounded by fuel.
\<close>

section \<open>Prototypes and closures\<close>

definition as_proto :: "sly_value \<Rightarrow> prototype sly" where
  "as_proto v = bnd (sly_obj_at v) (\<lambda>ob.
     case ob of SProto p \<Rightarrow> ret p | _ \<Rightarrow> fail (UB ''object of another type''))"

definition as_closure :: "sly_value \<Rightarrow> (sly_value \<times> sly_value) sly" where
  "as_closure v = bnd (sly_obj_at v) (\<lambda>ob.
     case ob of SClosure u p \<Rightarrow> ret (u, p) | _ \<Rightarrow> fail (UB ''object of another type''))"

definition as_cclosure :: "sly_value \<Rightarrow> (bool \<times> nat \<times> nat) sly" where
  "as_cclosure v = bnd (sly_obj_at v) (\<lambda>ob.
     case ob of SCClosure va n f \<Rightarrow> ret (va, n, f) | _ \<Rightarrow> fail (UB ''object of another type''))"

definition as_cont :: "sly_value \<Rightarrow> (sly_value \<times> nat \<times> nat \<times> nat \<times> bool) sly" where
  "as_cont v = bnd (sly_obj_at v) (\<lambda>ob.
     case ob of SCont f pc slot n va \<Rightarrow> ret (f, pc, slot, n, va) | _ \<Rightarrow> fail (UB ''object of another type''))"

definition as_frame :: "sly_value \<Rightarrow> stack_frame sly" where
  "as_frame v = bnd (sly_obj_at v) (\<lambda>ob.
     case ob of SFrame f \<Rightarrow> ret f | _ \<Rightarrow> fail (UB ''object of another type''))"

definition make_prototype :: "sly_value \<Rightarrow> sly_value \<Rightarrow> sly_value \<Rightarrow> nat \<Rightarrow> nat \<Rightarrow> nat \<Rightarrow> bool \<Rightarrow> sly_value sly" where
  "make_prototype uplist constants code nregs nargs entry has_varg =
     bnd (sly_make_vector 0 8) (\<lambda>si.
     gc_malloc (SProto \<lparr>p_uplist = uplist, p_K = constants, p_code = code, p_entry = entry,
       p_nregs = nregs, p_nargs = nargs, p_nvars = 0, p_has_varg = has_varg, p_syntax_info = si,
       p_binding = SLY_NULL\<rparr>))"

definition sly_make_closure :: "sly_value \<Rightarrow> sly_value sly" where
  "sly_make_closure pr =
     bnd (expect (prototype_p pr) ''Type Error expected prototype'') (\<lambda>_.
     bnd (as_proto pr) (\<lambda>p.
     bnd (vector_len (p_uplist p)) (\<lambda>len.
     (let cap = 1 + len + (if p_has_varg p then 1 else 0) in
      bnd (sly_make_vector cap cap) (\<lambda>u. gc_malloc (SClosure u pr))))))"

definition make_cclosure :: "nat \<Rightarrow> nat \<Rightarrow> bool \<Rightarrow> sly_value sly" where
  "make_cclosure fn nargs has_varg = gc_malloc (SCClosure has_varg nargs fn)"

definition make_continuation :: "sly_value \<Rightarrow> nat \<Rightarrow> nat \<Rightarrow> sly_value sly" where
  "make_continuation frame pc ret_slot = gc_malloc (SCont frame pc ret_slot 1 False)"

definition get_prototype :: "sly_value \<Rightarrow> sly_value sly" where
  "get_prototype clos =
     bnd (expect (closure_p clos) ''Type Error expected closure'') (\<lambda>_.
     bnd (as_closure clos) (\<lambda>(_, p). ret p))"

text \<open>Arguments that may be left out make the arity negative.\<close>

definition arity_of :: "nat \<Rightarrow> bool \<Rightarrow> int" where
  "arity_of nargs has_varg = (if has_varg then - (int nargs + 1) else int nargs)"

definition sly_arity :: "sly_value \<Rightarrow> int sly" where
  "sly_arity proc =
     ifM (cclosure_p proc) (bnd (as_cclosure proc) (\<lambda>(va, n, _). ret (arity_of n va)))
     (ifM (prototype_p proc) (bnd (as_proto proc) (\<lambda>p. ret (arity_of (p_nargs p) (p_has_varg p))))
     (ifM (closure_p proc)
       (bnd (as_closure proc) (\<lambda>(_, pr). bnd (as_proto pr) (\<lambda>p. ret (arity_of (p_nargs p) (p_has_varg p)))))
       (fail (Assert ''Type Error value must be a procedure type''))))"

section \<open>Upvalues\<close>

definition as_upvalue :: "sly_value \<Rightarrow> (sly_value \<times> upcell) sly" where
  "as_upvalue v = bnd (sly_obj_at v) (\<lambda>ob.
     case ob of SUpvalue nx c \<Rightarrow> ret (nx, c) | _ \<Rightarrow> fail (UB ''object of another type''))"

text \<open>\<open>*ptr\<close>, for a pointer into the registers \<open>R\<close>.\<close>

definition reg_read :: "sly_value \<Rightarrow> nat \<Rightarrow> sly_value sly" where
  "reg_read R i = bnd (as_vector R) (\<lambda>(_, els). elem_read els i)"

definition reg_write :: "sly_value \<Rightarrow> nat \<Rightarrow> sly_value \<Rightarrow> unit sly" where
  "reg_write R i x = bnd (as_vector R) (\<lambda>(len, els). elem_write R len els i x)"

definition upvalue_get :: "sly_value \<Rightarrow> sly_value sly" where
  "upvalue_get uv =
     bnd (expect (upvalue_p uv) ''Type Error expected <upvalue>'') (\<lambda>_.
     bnd (as_upvalue uv) (\<lambda>(_, c).
     case c of Closed v \<Rightarrow> ret v | Open R i \<Rightarrow> reg_read R i))"

definition upvalue_set :: "sly_value \<Rightarrow> sly_value \<Rightarrow> unit sly" where
  "upvalue_set uv x =
     bnd (expect (upvalue_p uv) ''Type Error expected <upvalue>'') (\<lambda>_.
     bnd (as_upvalue uv) (\<lambda>(nx, c).
     case c of Closed _ \<Rightarrow> sly_obj_set uv (SUpvalue nx (Closed x)) | Open R i \<Rightarrow> reg_write R i x))"

definition upvalue_isclosed :: "sly_value \<Rightarrow> bool sly" where
  "upvalue_isclosed uv =
     bnd (expect (upvalue_p uv) ''Type Error expected <upvalue>'') (\<lambda>_.
     bnd (as_upvalue uv) (\<lambda>(_, c). ret (case c of Closed _ \<Rightarrow> True | _ \<Rightarrow> False)))"

definition make_closed_upvalue :: "sly_value \<Rightarrow> sly_value sly" where
  "make_closed_upvalue v = gc_malloc (SUpvalue 0 (Closed v))"

definition close_upvalue :: "sly_value \<Rightarrow> unit sly" where
  "close_upvalue uv =
     bnd (expect (upvalue_p uv) ''Type Error expected <upvalue>'') (\<lambda>_.
     bnd (as_upvalue uv) (\<lambda>(_, c).
     case c of
       Closed _ \<Rightarrow> fail (Assert ''Error upvalue is already closed'')
     | Open R i \<Rightarrow> bnd (reg_read R i) (\<lambda>v. sly_obj_set uv (SUpvalue 0 (Closed v)))))"

text \<open>
  The search for the open upvalue of a register: its address, or 0, and what it assigns to
  \<open>*parent\<close>, if it does.  The union of a closed upvalue holds a value, and no value is the
  address of a register.
\<close>

fun find_open_from :: "nat \<Rightarrow> sly_value \<Rightarrow> sly_value \<Rightarrow> nat \<Rightarrow> (sly_value \<times> sly_value option) sly" where
  "find_open_from 0 lst R i = fail NoFuel"
| "find_open_from (Suc n) lst R i =
     bnd (as_upvalue lst) (\<lambda>(uv, _).
     if uv = 0 then ret (0, None)
     else bnd (as_upvalue uv) (\<lambda>(_, c).
       if c = Open R i then ret (uv, Some lst) else find_open_from n uv R i))"

definition find_open_upvalue :: "nat \<Rightarrow> sly_value \<Rightarrow> nat \<Rightarrow> (sly_value \<times> sly_value option) sly" where
  "find_open_upvalue n R i =
     bnd (gets open_upvals) (\<lambda>lst.
     if lst = 0 then ret (0, None)
     else bnd (as_upvalue lst) (\<lambda>(_, c).
       if c = Open R i then ret (lst, None) else find_open_from n lst R i))"

definition make_open_upvalue :: "nat \<Rightarrow> sly_value \<Rightarrow> nat \<Rightarrow> sly_value sly" where
  "make_open_upvalue n R i =
     bnd (find_open_upvalue n R i) (\<lambda>(uv, _).
     if uv \<noteq> 0 then ret uv
     else bnd (gets open_upvals) (\<lambda>lst.
       bnd (gc_malloc (SUpvalue lst (Open R i))) (\<lambda>uv'.
       bnd (modify (\<lambda>s. s\<lparr>open_upvals := uv'\<rparr>)) (\<lambda>_. ret uv'))))"

section \<open>Frames\<close>

definition sly_raise_exception :: "nat \<Rightarrow> string \<Rightarrow> 'a sly" where
  "sly_raise_exception excpt msg s =
     (if handle_except s then Inl (Raised excpt msg) else Inl (Assert msg))"

definition EXC_ALLOC :: nat where "EXC_ALLOC = 5"

definition blank_frame :: stack_frame where
  "blank_frame = \<lparr>f_cont = SLY_NULL, f_K = 0, f_code = 0, f_U = 0, f_R = 0, f_clos = 0, f_pc = 0, f_level = 0\<rparr>"

text \<open>The loop that stores \<open>SLY_VOID\<close> in the registers stores zeros over zeros.\<close>

definition make_stack :: "nat \<Rightarrow> sly_value sly" where
  "make_stack nregs =
     bnd (if nregs \<ge> REG_MAX then sly_raise_exception EXC_ALLOC ''Stack too big'' else ret ()) (\<lambda>_.
     bnd (sly_make_vector (nregs * 2) (nregs * 2)) (\<lambda>R.
     gc_malloc (SFrame (blank_frame\<lparr>f_R := R\<rparr>))))"

definition make_eval_stack :: "sly_value \<Rightarrow> sly_value sly" where
  "make_eval_stack regs =
     bnd (sly_make_vector 0 4) (\<lambda>code.
     gc_malloc (SFrame (blank_frame\<lparr>f_R := regs, f_code := code, f_clos := SLY_NULL\<rparr>)))"

text \<open>\<open>TOP_LEVEL_P\<close>\<close>

definition TOP_LEVEL_P :: "stack_frame \<Rightarrow> bool" where
  "TOP_LEVEL_P f \<longleftrightarrow> f_level f = 0 \<or> f_cont f = SLY_NULL"

text \<open>
  Closing the upvalues of a frame's variables. \<open>parent\<close> is set to null once, before the loop, and
  the search leaves it alone when it finds the head of the list.
\<close>

fun close_from :: "nat \<Rightarrow> sly_value \<Rightarrow> nat \<Rightarrow> nat \<Rightarrow> sly_value \<Rightarrow> unit sly" where
  "close_from n R i 0 parent = ret ()"
| "close_from n R i (Suc k) parent =
     bnd (find_open_upvalue n R i) (\<lambda>(uv, found).
     (let parent' = (case found of Some p \<Rightarrow> p | None \<Rightarrow> parent) in
      if uv = 0 then close_from n R (Suc i) k parent'
      else
        bnd (as_upvalue uv) (\<lambda>(nx, _).
        bnd (if parent' = 0 then modify (\<lambda>s. s\<lparr>open_upvals := nx\<rparr>)
             else bnd (as_upvalue parent') (\<lambda>(_, c). sly_obj_set parent' (SUpvalue nx c))) (\<lambda>_.
        bnd (close_upvalue uv) (\<lambda>_.
        close_from n R (Suc i) k parent')))))"

definition close_upvalues :: "nat \<Rightarrow> stack_frame \<Rightarrow> unit sly" where
  "close_upvalues n f =
     (if null_p (f_clos f) then ret ()
      else
        bnd (as_closure (f_clos f)) (\<lambda>(_, pr).
        bnd (as_proto pr) (\<lambda>p.
        close_from n (f_R f) 0 (p_nvars p + (if p_has_varg p then 1 else 0)) 0)))"

end
