(* ===== verification/Sly_VM.thy ===== *)
theory Sly_VM
  imports Sly_Closures
begin

text \<open>
  The virtual machine (src/sly_vm.c): registers, calls of functions, primitives and continuations,
  and the interpreter's loop.  Functions written in C are a parameter, by the number kept in their
  closures.  The data an instruction walks over (a list, an entry of a dictionary) is bounded by
  the fuel \<open>n\<close>, the loop by its own.  What the source prints before it stops is left out.
\<close>

type_synonym cfuncs = "nat \<Rightarrow> sly_value \<Rightarrow> sly_value sly"

section \<open>The current frame\<close>

definition frame :: "stack_frame sly" where
  "frame = bnd (gets cur_frame) as_frame"

definition set_frame :: "sly_value \<Rightarrow> stack_frame \<Rightarrow> unit sly" where
  "set_frame v f = sly_obj_set v (SFrame f)"

definition next_instr :: "INSTR sly" where
  "next_instr =
     bnd (gets cur_frame) (\<lambda>v. bnd (as_frame v) (\<lambda>f.
     bnd (set_frame v (f\<lparr>f_pc := f_pc f + 1\<rparr>)) (\<lambda>_.
     vector_ref (f_code f) (f_pc f))))"

definition get_const :: "nat \<Rightarrow> sly_value sly" where
  "get_const i = bnd frame (\<lambda>f. vector_ref (f_K f) i)"

definition get_reg :: "nat \<Rightarrow> sly_value sly" where
  "get_reg i = bnd frame (\<lambda>f. vector_ref (f_R f) i)"

definition set_reg :: "nat \<Rightarrow> sly_value \<Rightarrow> unit sly" where
  "set_reg i v = bnd frame (\<lambda>f. vector_set (f_R f) i v)"

definition get_upval :: "nat \<Rightarrow> sly_value sly" where
  "get_upval i = bnd frame (\<lambda>f. bnd (vector_ref (f_U f) i) upvalue_get)"

definition set_upval :: "nat \<Rightarrow> sly_value \<Rightarrow> unit sly" where
  "set_upval i v = bnd frame (\<lambda>f. bnd (vector_ref (f_U f) i) (\<lambda>uv. upvalue_set uv v))"

definition set_pc :: "nat \<Rightarrow> unit sly" where
  "set_pc pc = bnd (gets cur_frame) (\<lambda>v. bnd (as_frame v) (\<lambda>f. set_frame v (f\<lparr>f_pc := pc\<rparr>)))"

definition enter :: "sly_value \<Rightarrow> unit sly" where
  "enter v = modify (\<lambda>s. s\<lparr>cur_frame := v\<rparr>)"

section \<open>Closures\<close>

text \<open>An entry of \<open>uplist\<close>: whether it names an upvalue of the enclosing function, and which.\<close>

definition up_isup :: "sly_value \<Rightarrow> bool" where
  "up_isup v \<longleftrightarrow> (ucast v :: 8 word) \<noteq> 0"

definition up_reg :: "sly_value \<Rightarrow> nat" where
  "up_reg v = unat (ucast (drop_bit 8 v) :: 8 word)"

fun capture :: "nat \<Rightarrow> stack_frame \<Rightarrow> sly_value \<Rightarrow> sly_value \<Rightarrow> nat \<Rightarrow> nat \<Rightarrow> unit sly" where
  "capture n f upvals uplist i 0 = ret ()"
| "capture n f upvals uplist i (Suc k) =
     bnd (vector_ref uplist i) (\<lambda>info.
     bnd (if up_isup info then reg_read (f_U f) (up_reg info)
          else make_open_upvalue n (f_R f) (up_reg info)) (\<lambda>uv.
     bnd (vector_set upvals (i + 1) uv) (\<lambda>_.
     capture n f upvals uplist (Suc i) k)))"

definition form_closure :: "nat \<Rightarrow> sly_value \<Rightarrow> sly_value sly" where
  "form_closure n pr =
     bnd (sly_make_closure pr) (\<lambda>clos.
     bnd (as_closure clos) (\<lambda>(upvals, _).
     bnd (as_proto pr) (\<lambda>p.
     bnd frame (\<lambda>f.
     bnd (vector_ref (f_U f) 0) (\<lambda>g.
     bnd (vector_set upvals 0 g) (\<lambda>_.
     bnd (vector_len (p_uplist p)) (\<lambda>len.
     bnd (capture n f upvals (p_uplist p) 0 len) (\<lambda>_. ret clos))))))))"

section \<open>Calls\<close>

text \<open>
  Appending to a full vector moves its elements, which would leave the open upvalues of the
  registers behind; a move while there are some is reported.
\<close>

definition has_open :: "sly_value \<Rightarrow> sly_state \<Rightarrow> bool" where
  "has_open R s \<longleftrightarrow> list_ex (\<lambda>a. case sly_heap s a of Some (SUpvalue _ (Open R' _)) \<Rightarrow> R' = R | _ \<Rightarrow> False)
     [0..<sly_next s]"

definition vector_force :: "sly_value \<Rightarrow> nat \<Rightarrow> sly_value \<Rightarrow> unit sly" where
  "vector_force v idx x =
     bnd (vector_len v) (\<lambda>len.
     if idx < len then vector_set v idx x
     else bnd (\<lambda>s. check_ub (\<not> has_open v s) ''pointer into a block freed by realloc'' s) (\<lambda>_.
       vector_append v x))"

fun collect_rest :: "nat \<Rightarrow> nat \<Rightarrow> sly_value \<Rightarrow> sly_value sly" where
  "collect_rest 0 i acc = ret acc"
| "collect_rest (Suc k) i acc =
     bnd (get_reg i) (\<lambda>x. bnd (sly_cons x acc) (\<lambda>acc'. collect_rest k (i - 1) acc'))"

fun copy_args :: "sly_value \<Rightarrow> nat \<Rightarrow> nat \<Rightarrow> nat \<Rightarrow> unit sly" where
  "copy_args dst a i 0 = ret ()"
| "copy_args dst a i (Suc k) =
     bnd (get_reg (a + 1 + i)) (\<lambda>x. bnd (vector_set dst i x) (\<lambda>_. copy_args dst a (Suc i) k))"

definition call_cclosure :: "cfuncs \<Rightarrow> sly_value \<Rightarrow> nat \<Rightarrow> nat \<Rightarrow> unit sly" where
  "call_cclosure prims val a nargs =
     bnd (as_cclosure val) (\<lambda>(va, cn, fn).
     bnd (if va then
            bnd (check (nargs \<ge> cn) ''Error wrong number of arguments (152)'') (\<lambda>_.
            bnd (sly_make_vector (cn + 1) (cn + 1)) (\<lambda>args.
            bnd (collect_rest (nargs - cn) (a + nargs) SLY_NULL) (\<lambda>vargs.
            bnd (vector_set args cn vargs) (\<lambda>_. ret args))))
          else
            bnd (check (nargs = cn) ''Error wrong number of arguments (163)'') (\<lambda>_.
            sly_make_vector cn cn)) (\<lambda>args.
     bnd (copy_args args a 0 cn) (\<lambda>_.
     bnd (prims fn args) (\<lambda>r.
     set_reg a r))))"

text \<open>The frame of a closure that is about to run, with its code and upvalues.\<close>

definition frame_of :: "sly_value \<Rightarrow> stack_frame \<Rightarrow> sly_value \<Rightarrow> prototype \<Rightarrow> stack_frame" where
  "frame_of val nf upvals p = nf\<lparr>f_clos := val, f_U := upvals, f_K := p_K p, f_code := p_code p, f_pc := p_entry p\<rparr>"

text \<open>A frame that returns where the current one does, or one that returns to it in register \<open>a\<close>.\<close>

definition link_frame :: "nat \<Rightarrow> sly_value \<Rightarrow> stack_frame \<Rightarrow> nat \<Rightarrow> bool \<Rightarrow> sly_value sly" where
  "link_frame n nv nf a tail =
     bnd (gets cur_frame) (\<lambda>cv. bnd (as_frame cv) (\<lambda>cur.
     if \<not> TOP_LEVEL_P cur \<and> tail then
       bnd (set_frame nv (nf\<lparr>f_level := f_level cur, f_cont := f_cont cur\<rparr>)) (\<lambda>_.
       bnd (close_upvalues n cur) (\<lambda>_. ret (f_cont cur)))
     else
       bnd (make_continuation cv (f_pc cur) a) (\<lambda>k.
       bnd (set_frame nv (nf\<lparr>f_cont := k, f_level := f_level cur + 1\<rparr>)) (\<lambda>_. ret k))))"

definition call_closure :: "nat \<Rightarrow> sly_value \<Rightarrow> nat \<Rightarrow> nat \<Rightarrow> bool \<Rightarrow> unit sly" where
  "call_closure n val a nargs tail =
     bnd (as_closure val) (\<lambda>(upvals, pr).
     bnd (as_proto pr) (\<lambda>p.
     bnd (make_stack (p_nregs p)) (\<lambda>nv.
     bnd (as_frame nv) (\<lambda>nf.
     bnd (if p_has_varg p then
            bnd (check (nargs \<ge> p_nargs p) ''Error wrong number of arguments (179)'') (\<lambda>_.
            bnd (collect_rest (nargs - p_nargs p) (a + nargs) SLY_NULL) (\<lambda>vargs.
            vector_set (f_R nf) (p_nargs p) vargs))
          else check (nargs = p_nargs p) ''Error wrong number of arguments (188)'') (\<lambda>_.
     bnd (copy_args (f_R nf) a 0 (p_nargs p)) (\<lambda>_.
     bnd (link_frame n nv (frame_of val nf upvals p) a tail) (\<lambda>_.
     enter nv)))))))"

text \<open>
  Handing values to a continuation: into the registers of its frame from \<open>ret_slot\<close> on, and the
  rest, when it takes any number, as a list in the register after the counted ones.
\<close>

fun force_args :: "sly_value \<Rightarrow> nat \<Rightarrow> nat \<Rightarrow> nat \<Rightarrow> nat \<Rightarrow> unit sly" where
  "force_args R slot a i 0 = ret ()"
| "force_args R slot a i (Suc k) =
     bnd (get_reg (a + 1 + i)) (\<lambda>x. bnd (vector_force R (slot + i) x) (\<lambda>_. force_args R slot a (Suc i) k))"

definition call_continuation :: "nat \<Rightarrow> sly_value \<Rightarrow> nat \<Rightarrow> nat \<Rightarrow> bool \<Rightarrow> unit sly" where
  "call_continuation n val a nargs tail =
     bnd (as_cont val) (\<lambda>(cf, pc, slot, cn, va).
     bnd (as_frame cf) (\<lambda>target.
     bnd (force_args (f_R target) slot a 0 cn) (\<lambda>_.
     bnd (if va then
            bnd (collect_rest (nat (sint (of_nat nargs :: 32 word) - int cn)) (a + nargs) SLY_NULL) (\<lambda>lst.
            vector_force (f_R target) cn lst)
          else ret ()) (\<lambda>_.
     bnd (gets cur_frame) (\<lambda>cv. bnd (as_frame cv) (\<lambda>cur.
     bnd (if f_cont cur = val then close_upvalues n cur
          else if \<not> TOP_LEVEL_P cur \<and> tail then
            bnd (as_frame cf) (\<lambda>f. set_frame cf (f\<lparr>f_cont := f_cont cur\<rparr>))
          else
            bnd (make_continuation cv (f_pc cur) a) (\<lambda>k.
            bnd (as_frame cf) (\<lambda>f. set_frame cf (f\<lparr>f_cont := k\<rparr>)))) (\<lambda>_.
     bnd (close_upvalues n cur) (\<lambda>_.
     bnd (enter cf) (\<lambda>_.
     set_pc pc)))))))))"

definition funcall :: "nat \<Rightarrow> cfuncs \<Rightarrow> nat \<Rightarrow> nat \<Rightarrow> bool \<Rightarrow> unit sly" where
  "funcall n prims a nargs tail =
     bnd (get_reg a) (\<lambda>val.
     ifM (cclosure_p val) (call_cclosure prims val a nargs)
     (ifM (closure_p val) (call_closure n val a nargs tail)
     (ifM (continuation_p val) (call_continuation n val a nargs tail)
     (fail (Assert ''Type Error expected procedure'')))))"

text \<open>The count of arguments of a call is an unsigned difference of two bytes.\<close>

definition arg_count :: "8 word \<Rightarrow> 8 word \<Rightarrow> nat" where
  "arg_count a b = unat (word_of_int (uint b - uint a - 1) :: 32 word)"

definition call_cc :: "nat \<Rightarrow> nat \<Rightarrow> nat \<Rightarrow> bool \<Rightarrow> unit sly" where
  "call_cc n a b tail =
     bnd (get_reg b) (\<lambda>proc.
     ifM (closure_p proc)
       (bnd (as_closure proc) (\<lambda>(upvals, pr).
        bnd (as_proto pr) (\<lambda>p0.
        bnd (sly_obj_set pr (SProto (p0\<lparr>p_nargs := 1\<rparr>))) (\<lambda>_.
        bnd (as_proto pr) (\<lambda>p.
        bnd (make_stack (p_nregs p)) (\<lambda>nv.
        bnd (as_frame nv) (\<lambda>nf.
        bnd (link_frame n nv (frame_of proc nf upvals p) a tail) (\<lambda>cc.
        bnd (vector_set (f_R nf) 0 cc) (\<lambda>_.
        enter nv)))))))))
       (fail (Assert ''CALL/CC Not implemented for procedure type'')))"

definition call_values :: "nat \<Rightarrow> nat \<Rightarrow> nat \<Rightarrow> nat \<Rightarrow> bool \<Rightarrow> unit sly" where
  "call_values n a b c tail =
     bnd (get_reg b) (\<lambda>producer.
     bnd (get_reg c) (\<lambda>receiver.
     bnd (expect (closure_p receiver) ''Type Error expected <closure>'') (\<lambda>_.
     bnd (as_closure receiver) (\<lambda>(rup, rpr).
     bnd (as_proto rpr) (\<lambda>rp.
     bnd (make_stack (p_nregs rp)) (\<lambda>rv.
     bnd (as_frame rv) (\<lambda>rf.
     bnd (link_frame n rv (frame_of receiver rf rup rp) a tail) (\<lambda>_.
     bnd (as_frame rv) (\<lambda>rf'.
     bnd (as_closure producer) (\<lambda>(pup, ppr).
     bnd (as_proto ppr) (\<lambda>pp.
     bnd (make_stack (p_nregs pp)) (\<lambda>pv.
     bnd (as_frame pv) (\<lambda>pf.
     bnd (gc_malloc (SCont rv (f_pc rf') 0 (p_nargs rp) (p_has_varg rp))) (\<lambda>k.
     bnd (set_frame pv ((frame_of producer pf pup pp)\<lparr>f_level := f_level rf' + 1, f_cont := k\<rparr>)) (\<lambda>_.
     enter pv)))))))))))))))"

fun append_regs :: "sly_value \<Rightarrow> nat \<Rightarrow> nat \<Rightarrow> unit sly" where
  "append_regs args i 0 = ret ()"
| "append_regs args i (Suc k) =
     bnd (get_reg i) (\<lambda>x. bnd (vector_append args x) (\<lambda>_. append_regs args (Suc i) k))"

text \<open>The list is copied behind the other arguments, and their number is counted on.\<close>

fun append_list :: "nat \<Rightarrow> sly_value \<Rightarrow> sly_value \<Rightarrow> nat \<Rightarrow> nat sly" where
  "append_list 0 args lst k = fail NoFuel"
| "append_list (Suc n) args lst k =
     (if null_p lst then ret k
      else bnd (sly_car lst) (\<lambda>x. bnd (vector_append args x) (\<lambda>_.
        bnd (sly_cdr lst) (\<lambda>d. append_list n args d (k + 1)))))"

definition apply_call :: "nat \<Rightarrow> 8 word \<Rightarrow> 8 word \<Rightarrow> bool \<Rightarrow> unit sly" where
  "apply_call n a b tail =
     bnd (sly_make_vector 0 8) (\<lambda>args.
     bnd (vector_append args SLY_NULL) (\<lambda>_.
     bnd (append_regs args (unat a) (unat b - 1 - unat a)) (\<lambda>_.
     bnd (get_reg (if b = 0 then 2 ^ 64 - 1 else unat b - 1)) (\<lambda>lst.
     bnd (expect (ifM (pair_p lst) (ret True) (ret (null_p lst))) ''Error Expected list'') (\<lambda>_.
     bnd (append_list n args lst (unat b - 1 - unat a)) (\<lambda>nargs.
     bnd (make_eval_stack args) (\<lambda>nv.
     bnd (as_frame nv) (\<lambda>nf.
     bnd (vector_append (f_code nf) (iA (op_num OP_LOADCONT) 0 (- 1))) (\<lambda>_.
     bnd (vector_append (f_code nf) (iAB (op_num OP_TAILCALL) 1 (of_nat (nargs + 1)) (- 1))) (\<lambda>_.
     bnd (vector_append (f_code nf) (iAB (op_num OP_TAILCALL) 0 1 (- 1))) (\<lambda>_.
     bnd (link_frame n nv nf (unat a) tail) (\<lambda>_.
     enter nv))))))))))))"

section \<open>The interpreter\<close>

text \<open>One instruction: the value the machine leaves with, or none when it goes on.\<close>

definition go_on :: "unit sly \<Rightarrow> sly_value option sly" where
  "go_on m = bnd m (\<lambda>_. ret None)"

definition call_or_leave :: "nat \<Rightarrow> cfuncs \<Rightarrow> 8 word \<Rightarrow> 8 word \<Rightarrow> bool \<Rightarrow> sly_value option sly" where
  "call_or_leave n prims a b tail =
     bnd (get_reg (unat a)) (\<lambda>f.
     if null_p f then bnd (get_reg (unat a + 1)) (\<lambda>v. ret (Some v))
     else go_on (funcall n prims (unat a) (arg_count a b) tail))"

definition exec :: "nat \<Rightarrow> cfuncs \<Rightarrow> INSTR \<Rightarrow> sly_value option sly" where
  "exec n prims v =
     (let a = unat (GET_A v); b = unat (GET_B v); c = unat (GET_C v); bx = unat (GET_Bx v) in
      case GET_OP v of
        OP_NOP \<Rightarrow> ret None
      | OP_MOVE \<Rightarrow> go_on (bnd (get_reg b) (set_reg a))
      | OP_LOADI \<Rightarrow> go_on (bnd (sly_make_int (GET_sBx v)) (set_reg a))
      | OP_LOADK \<Rightarrow> go_on (bnd (get_const bx) (\<lambda>x. bnd (ifM (pair_p x) (copy_list n x) (ret x)) (set_reg a)))
      | OP_LOADFALSE \<Rightarrow> go_on (set_reg a SLY_FALSE)
      | OP_LOADTRUE \<Rightarrow> go_on (set_reg a SLY_TRUE)
      | OP_LOADNULL \<Rightarrow> go_on (set_reg a SLY_NULL)
      | OP_LOADVOID \<Rightarrow> go_on (set_reg a SLY_VOID)
      | OP_LOADCONT \<Rightarrow> go_on (bnd frame (\<lambda>f. set_reg a (f_cont f)))
      | OP_GETUPVAL \<Rightarrow> go_on (bnd (get_upval b) (set_reg a))
      | OP_SETUPVAL \<Rightarrow> go_on (bnd (get_reg b) (set_upval a))
      | OP_GETUPDICT \<Rightarrow> go_on (bnd (get_upval b) (\<lambda>d. bnd (get_reg c) (\<lambda>k.
          bnd (dictionary_ref n d k SLY_VOID) (set_reg a))))
      | OP_SETUPDICT \<Rightarrow> go_on (bnd (get_upval a) (\<lambda>d. bnd (get_reg b) (\<lambda>k. bnd (get_reg c) (dictionary_set n d k))))
      | OP_DICTREF \<Rightarrow> go_on (bnd (get_reg b) (\<lambda>d. bnd (get_reg c) (\<lambda>k.
          bnd (dictionary_ref n d k SLY_VOID) (set_reg a))))
      | OP_DICTSET \<Rightarrow> go_on (bnd (get_reg a) (\<lambda>d. bnd (get_reg b) (\<lambda>k. bnd (get_reg c) (dictionary_set n d k))))
      | OP_JMP \<Rightarrow> go_on (set_pc (unat (GET_Ax v)))
      | OP_FJMP \<Rightarrow> go_on (bnd (get_reg a) (\<lambda>x. if x = SLY_FALSE then set_pc bx else ret ()))
      | OP_CALL \<Rightarrow> call_or_leave n prims (GET_A v) (GET_B v) False
      | OP_TAILCALL \<Rightarrow> call_or_leave n prims (GET_A v) (GET_B v) True
      | OP_CALLWCC \<Rightarrow> go_on (call_cc n a b (c \<noteq> 0))
      | OP_CALLWVALUES0 \<Rightarrow> go_on (call_values n a b c True)
      | OP_CALLWVALUES \<Rightarrow> go_on (call_values n a b c False)
      | OP_APPLY \<Rightarrow> go_on (apply_call n (GET_A v) (GET_B v) (c \<noteq> 0))
      | OP_EXIT \<Rightarrow> bnd frame (\<lambda>f. if TOP_LEVEL_P f then bnd (get_reg a) (\<lambda>x. ret (Some x))
          else fail (Assert ''Exit from non toplevel''))
      | OP_CLOSURE \<Rightarrow> go_on (bnd (get_const bx) (\<lambda>pr. bnd (form_closure n pr) (set_reg a)))
      | OP_COUNT \<Rightarrow> fail (Assert ''Error invalid opcode''))"

definition vm_step :: "nat \<Rightarrow> cfuncs \<Rightarrow> sly_value option sly" where
  "vm_step n prims = bnd next_instr (exec n prims)"

fun vm_loop :: "nat \<Rightarrow> nat \<Rightarrow> cfuncs \<Rightarrow> sly_value sly" where
  "vm_loop 0 n prims = fail NoFuel"
| "vm_loop (Suc k) n prims =
     bnd (vm_step n prims) (\<lambda>r. case r of Some v \<Rightarrow> ret v | None \<Rightarrow> vm_loop k n prims)"

definition vm_run :: "nat \<Rightarrow> nat \<Rightarrow> cfuncs \<Rightarrow> sly_value sly" where
  "vm_run k n prims =
     bnd frame (\<lambda>f. bnd (vector_len (f_code f)) (\<lambda>len. if len = 0 then ret SLY_VOID else vm_loop k n prims))"

text \<open>The entry points of src/eval.c: a call of a procedure with a list of values, and a closure's code.\<close>

definition eval_call_closure :: "nat \<Rightarrow> nat \<Rightarrow> cfuncs \<Rightarrow> sly_value \<Rightarrow> sly_value sly" where
  "eval_call_closure k n prims call_list =
     bnd (make_eval_stack call_list) (\<lambda>nv.
     bnd (as_frame nv) (\<lambda>nf.
     bnd (vector_len (f_R nf)) (\<lambda>len.
     bnd (vector_append (f_code nf) (iAB (op_num OP_CALL) 0 (of_nat len) (- 1))) (\<lambda>_.
     bnd (gets cur_frame) (\<lambda>tmp.
     bnd (enter nv) (\<lambda>_.
     bnd (vector_ref call_list 0) (\<lambda>clos.
     bnd (as_closure clos) (\<lambda>(upvals, _).
     bnd (set_frame nv (nf\<lparr>f_clos := clos, f_U := upvals\<rparr>)) (\<lambda>_.
     bnd (vm_run k n prims) (\<lambda>v.
     bnd (enter tmp) (\<lambda>_. ret v)))))))))))"

fun copy_into :: "sly_value \<Rightarrow> sly_value \<Rightarrow> nat \<Rightarrow> nat \<Rightarrow> unit sly" where
  "copy_into R args i 0 = ret ()"
| "copy_into R args i (Suc k) =
     bnd (vector_ref args i) (\<lambda>x. bnd (vector_set R i x) (\<lambda>_. copy_into R args (Suc i) k))"

definition eval_closure :: "nat \<Rightarrow> nat \<Rightarrow> cfuncs \<Rightarrow> sly_value \<Rightarrow> sly_value \<Rightarrow> sly_value sly" where
  "eval_closure k n prims clos args =
     bnd (gets cur_frame) (\<lambda>tmp.
     bnd (as_closure clos) (\<lambda>(upvals, pr).
     bnd (as_proto pr) (\<lambda>p.
     (let va = (if p_has_varg p then 1 else 0) in
      bnd (sly_make_vector (p_nregs p + va) (p_nregs p + va)) (\<lambda>R.
      bnd (copy_into R args 0 (p_nargs p + va)) (\<lambda>_.
      bnd (gc_malloc (SFrame (frame_of clos (blank_frame\<lparr>f_R := R\<rparr>) upvals p))) (\<lambda>nv.
      bnd (enter nv) (\<lambda>_.
      bnd (vm_run k n prims) (\<lambda>v.
      bnd (enter tmp) (\<lambda>_. ret v))))))))))"

end
