(* ===== verification/Sly_Upvalues.thy ===== *)
theory Sly_Upvalues
  imports Sly_VM
begin

text \<open>
  Properties of upvalues: captures of one register share an upvalue, closing keeps the value, and
  the loop that closes the upvalues of a frame can lose those of the frames outside.
\<close>

section \<open>The list of open upvalues\<close>

text \<open>The open upvalues from \<open>lst\<close> on, each with the register it points to.\<close>

fun open_list :: "sly_state \<Rightarrow> sly_value \<Rightarrow> (sly_value \<times> sly_value \<times> nat) list \<Rightarrow> bool" where
  "open_list s lst [] \<longleftrightarrow> lst = 0"
| "open_list s lst ((uv, R, i) # us) \<longleftrightarrow> lst = uv \<and> ptr_p uv \<and>
     (\<exists>nx. sly_heap s (GET_ADDR uv) = Some (SUpvalue nx (Open R i)) \<and> open_list s nx us)"

lemma sly_obj_at_run: "sly_heap s (GET_ADDR v) = Some ob \<Longrightarrow> sly_obj_at v s = Inr (ob, s)"
  by (simp add: sly_obj_at_def)

lemma upvalue_object:
  assumes "sly_heap s (GET_ADDR uv) = Some (SUpvalue nx c)"
  shows "as_upvalue uv s = Inr ((nx, c), s)" "ptr_p uv \<Longrightarrow> upvalue_p uv s = Inr (True, s)"
    "sly_obj_set uv ob s = Inr ((), s\<lparr>sly_heap := (sly_heap s)(GET_ADDR uv \<mapsto> ob)\<rparr>)"
  using assms by (simp_all add: as_upvalue_def upvalue_p_def heap_p_def sly_obj_at_def sly_obj_set_def)

lemma ptr_nonzero: "ptr_p v \<Longrightarrow> v \<noteq> 0"
  by (auto simp: ptr_p_def void_p_def SLY_VOID_def)

definition lookup_open :: "(sly_value \<times> sly_value \<times> nat) list \<Rightarrow> sly_value \<Rightarrow> nat \<Rightarrow> sly_value" where
  "lookup_open us R i = (case find (\<lambda>(_, R', i'). R' = R \<and> i' = i) us of None \<Rightarrow> 0 | Some (uv, _) \<Rightarrow> uv)"

lemma lookup_open_simps [simp]:
  "lookup_open [] R i = 0"
  "lookup_open ((uv, R', i') # us) R i = (if R' = R \<and> i' = i then uv else lookup_open us R i)"
  by (simp_all add: lookup_open_def)

lemma find_from_run:
  assumes "open_list s lst us" and "sly_heap s (GET_ADDR prev) = Some (SUpvalue lst c0)" and "length us < n"
  shows "\<exists>p. find_open_from n prev R i s = Inr ((lookup_open us R i, p), s)"
  using assms
proof (induction us arbitrary: n lst prev c0)
  case Nil
  then show ?case
    by (cases n) (auto simp: upvalue_object)
next
  case (Cons u us)
  obtain uv R' i' where u: "u = (uv, R', i')"
    by (cases u)
  obtain nx where nx: "lst = uv" "ptr_p uv" "sly_heap s (GET_ADDR uv) = Some (SUpvalue nx (Open R' i'))"
    "open_list s nx us"
    using Cons.prems(1) u by auto
  obtain m where m: "n = Suc m" "length us < m"
    using Cons.prems(3) by (cases n) auto
  obtain p where "find_open_from m uv R i s = Inr ((lookup_open us R i, p), s)"
    using Cons.IH [OF nx(4,3) m(2)] by blast
  then show ?case
    using Cons.prems(2) nx(1,3) m(1) u ptr_nonzero [OF nx(2)] by (simp add: upvalue_object)
qed

lemma find_open_run:
  assumes "open_list s (open_upvals s) us" and "length us \<le> n"
  shows "\<exists>p. find_open_upvalue n R i s = Inr ((lookup_open us R i, p), s)"
proof (cases us)
  case Nil
  then show ?thesis
    using assms(1) by (simp add: find_open_upvalue_def)
next
  case (Cons u us')
  obtain uv R' i' where u: "u = (uv, R', i')"
    by (cases u)
  obtain nx where nx: "open_upvals s = uv" "ptr_p uv" "sly_heap s (GET_ADDR uv) = Some (SUpvalue nx (Open R' i'))"
    "open_list s nx us'"
    using assms(1) Cons u by auto
  have "length us' < n"
    using assms(2) Cons by simp
  then obtain p where "find_open_from n uv R i s = Inr ((lookup_open us' R i, p), s)"
    using find_from_run [OF nx(4,3)] by blast
  then show ?thesis
    using nx(1,3) Cons u ptr_nonzero [OF nx(2)] by (simp add: find_open_upvalue_def upvalue_object)
qed

lemma lookup_open_found:
  "open_list s lst us \<Longrightarrow> lookup_open us R i \<noteq> 0 \<Longrightarrow> ptr_p (lookup_open us R i) \<and>
     (\<exists>nx. sly_heap s (GET_ADDR (lookup_open us R i)) = Some (SUpvalue nx (Open R i)))"
  by (induction us arbitrary: lst) (auto split: if_splits)

lemma open_list_keep:
  "open_list s lst us \<Longrightarrow> (\<And>a nx c. sly_heap s a = Some (SUpvalue nx c) \<Longrightarrow> sly_heap t a = sly_heap s a) \<Longrightarrow>
     open_list t lst us"
  by (induction us arbitrary: lst) fastforce+

lemma gc_malloc_eq:
  assumes "heap_fine s"
  shows "gc_malloc ob s = Inr (of_nat (sly_next s),
      s\<lparr>sly_heap := (sly_heap s)(sly_next s \<mapsto> ob), sly_next := sly_next s + 16\<rparr>)"
    and "GET_ADDR (of_nat (sly_next s)) = sly_next s" and "ptr_p (of_nat (sly_next s))"
    and "sly_heap s (sly_next s) = None"
proof -
  have h: "16 dvd sly_next s" "0 < sly_next s" "sly_next s < 2 ^ 63"
    using assms by (simp_all add: heap_fine_def)
  show "GET_ADDR (of_nat (sly_next s)) = sly_next s" "ptr_p (of_nat (sly_next s))"
    using address_bits [OF h] by simp_all
  show "sly_heap s (sly_next s) = None"
    using assms by (metis heap_fine_def less_irrefl not_Some_eq)
qed (use assms in \<open>simp add: gc_malloc_def heap_fine_def\<close>)

lemma vec_at_reg:
  assumes "vec_at s R xs" and "i < length xs"
  shows "reg_read R i s = Inr (xs ! i, s)"
    and "\<exists>len els. sly_heap s (GET_ADDR R) = Some (SVector len els) \<and> i < length els \<and>
      reg_write R i x s = Inr ((), s\<lparr>sly_heap := (sly_heap s)(GET_ADDR R \<mapsto> SVector len (els[i := Some x]))\<rparr>) \<and>
      vec_at (s\<lparr>sly_heap := (sly_heap s)(GET_ADDR R \<mapsto> SVector len (els[i := Some x]))\<rparr>) R (xs[i := x])"
proof -
  obtain els where els: "ptr_p R" "sly_heap s (GET_ADDR R) = Some (SVector (length xs) els)"
    "els \<noteq> []" "length xs \<le> length els" "take (length xs) els = map Some xs"
    using assms(1) by (auto simp: vec_at_def)
  have v: "as_vector R s = Inr ((length xs, els), s)"
    using els(2) by (simp add: as_vector_def sly_obj_at_def)
  have "els ! i = Some (xs ! i)"
    using arg_cong [OF els(5), of "\<lambda>l. l ! i"] assms(2) by simp
  then show "reg_read R i s = Inr (xs ! i, s)"
    using v els(4) assms(2) by (simp add: reg_read_def elem_read_def)
  have "take (length xs) (els[i := Some x]) = map Some (xs[i := x])"
    using els(5) by (simp add: take_update_swap map_update)
  then show "\<exists>len els. sly_heap s (GET_ADDR R) = Some (SVector len els) \<and> i < length els \<and>
      reg_write R i x s = Inr ((), s\<lparr>sly_heap := (sly_heap s)(GET_ADDR R \<mapsto> SVector len (els[i := Some x]))\<rparr>) \<and>
      vec_at (s\<lparr>sly_heap := (sly_heap s)(GET_ADDR R \<mapsto> SVector len (els[i := Some x]))\<rparr>) R (xs[i := x])"
    using els v assms(2)
    by (intro exI [of _ "length xs"] exI [of _ els])
      (simp add: reg_write_def elem_write_def sly_obj_set_def vec_at_def)
qed

definition upvalue_demo :: sly_state where
  "upvalue_demo = sly_start\<lparr>sly_next := 96, open_upvals := 48, sly_heap := [16 \<mapsto> SVector 2 [Some SLY_TRUE, Some SLY_FALSE],
     32 \<mapsto> SVector 1 [Some SLY_NULL], 48 \<mapsto> SUpvalue 64 (Open 16 1), 64 \<mapsto> SUpvalue 80 (Open 16 0),
     80 \<mapsto> SUpvalue 0 (Open 32 0)]\<rparr>"

lemma upvalue_demo_facts:
  "open_list upvalue_demo (open_upvals upvalue_demo) [(48, 16, 1), (64, 16, 0), (80, 32, 0)]"
  "heap_fine upvalue_demo" "vec_at upvalue_demo 16 [SLY_TRUE, SLY_FALSE]" "open_upvals upvalue_demo = 48"
  "sly_heap upvalue_demo (GET_ADDR 48) = Some (SUpvalue 64 (Open 16 1))"
  "sly_heap upvalue_demo (GET_ADDR 64) = Some (SUpvalue 80 (Open 16 0))"
  "sly_heap upvalue_demo (GET_ADDR 80) = Some (SUpvalue 0 (Open 32 0))"
  "ptr_p (48 :: sly_value)" "ptr_p (64 :: sly_value)" "ptr_p (80 :: sly_value)"
  by (auto simp: upvalue_demo_def sly_start_def heap_fine_def vec_at_def ptr_p_def void_p_def SLY_VOID_def
      GET_ADDR_def TAG_MASK_def)

text \<open>
  C19: Two captures of the same register give the same upvalue, so a value stored through one is read
  through the other, and is the register's.
\<close>

theorem captures_share:
  assumes "open_list s (open_upvals s) us" and "length us < n" and "heap_fine s"
    and "vec_at s R xs" and "i < length xs"
  shows "\<exists>uv t u. make_open_upvalue n R i s = Inr (uv, t) \<and> make_open_upvalue n R i t = Inr (uv, t) \<and>
    upvalue_get uv t = Inr (xs ! i, t) \<and>
    upvalue_set uv x t = Inr ((), u) \<and> upvalue_get uv u = Inr (x, u) \<and> vector_ref R i u = Inr (x, u)"
proof -
  obtain uv t nx where t: "make_open_upvalue n R i s = Inr (uv, t)" "make_open_upvalue n R i t = Inr (uv, t)"
    "ptr_p uv" "sly_heap t (GET_ADDR uv) = Some (SUpvalue nx (Open R i))" "vec_at t R xs"
  proof (cases "lookup_open us R i = 0")
    case True
    let ?a = "of_nat (sly_next s) :: sly_value"
    let ?t1 = "s\<lparr>sly_heap := (sly_heap s)(sly_next s \<mapsto> SUpvalue (open_upvals s) (Open R i)), sly_next := sly_next s + 16\<rparr>"
    let ?t = "?t1\<lparr>open_upvals := ?a\<rparr>"
    note new = gc_malloc_eq [OF assms(3)]
    obtain p where "find_open_upvalue n R i s = Inr ((0, p), s)"
      using find_open_run [OF assms(1), of n R i] True assms(2) by auto
    then have m: "make_open_upvalue n R i s = Inr (?a, ?t)"
      using new(1) by (simp add: make_open_upvalue_def)
    have "open_list ?t (open_upvals s) us"
      by (rule open_list_keep [OF assms(1)]) (use new(4) in auto)
    then have l: "open_list ?t (open_upvals ?t) ((?a, R, i) # us)"
      using new(2,3) by simp
    obtain p where "find_open_upvalue n R i ?t = Inr ((?a, p), ?t)"
      using find_open_run [OF l, of n R i] assms(2) by auto
    then have m2: "make_open_upvalue n R i ?t = Inr (?a, ?t)"
      using ptr_nonzero [OF new(3)] by (simp add: make_open_upvalue_def)
    have "vec_at ?t R xs"
      using assms(4) new(4) by (auto simp: vec_at_def)
    then show ?thesis
      using that [OF m m2] new(2,3) by simp
  next
    case False
    obtain p where "find_open_upvalue n R i s = Inr ((lookup_open us R i, p), s)"
      using find_open_run [OF assms(1), of n R i] assms(2) by auto
    then have "make_open_upvalue n R i s = Inr (lookup_open us R i, s)"
      using False by (simp add: make_open_upvalue_def)
    then show ?thesis
      using that lookup_open_found [OF assms(1) False] assms(4) by blast
  qed
  obtain len els where w: "sly_heap t (GET_ADDR R) = Some (SVector len els)"
    "reg_write R i x t = Inr ((), t\<lparr>sly_heap := (sly_heap t)(GET_ADDR R \<mapsto> SVector len (els[i := Some x]))\<rparr>)"
    "vec_at (t\<lparr>sly_heap := (sly_heap t)(GET_ADDR R \<mapsto> SVector len (els[i := Some x]))\<rparr>) R (xs[i := x])"
    using vec_at_reg(2) [OF t(5) assms(5)] by blast
  let ?u = "t\<lparr>sly_heap := (sly_heap t)(GET_ADDR R \<mapsto> SVector len (els[i := Some x]))\<rparr>"
  have set: "upvalue_set uv x t = Inr ((), ?u)"
    using upvalue_object(1,2) [OF t(4)] t(3) w(2) by (simp add: upvalue_set_def expect_def)
  have uv: "sly_heap ?u (GET_ADDR uv) = Some (SUpvalue nx (Open R i))"
    using t(4) w(1) by auto
  have "upvalue_get uv t = Inr (xs ! i, t)"
    using upvalue_object(1,2) [OF t(4)] t(3) vec_at_reg(1) [OF t(5) assms(5)] by (simp add: upvalue_get_def expect_def)
  moreover have "upvalue_get uv ?u = Inr (x, ?u)"
    using upvalue_object(1,2) [OF uv] t(3) vec_at_reg(1) [OF w(3), of i] assms(5) by (simp add: upvalue_get_def expect_def)
  moreover have "vector_ref R i ?u = Inr (x, ?u)"
    using vec_at_ref [OF w(3), of i] assms(5) by simp
  ultimately show ?thesis
    using t(1,2) set by blast
qed

lemma captures_share_witness:
  "\<exists>uv t u. make_open_upvalue 4 16 1 upvalue_demo = Inr (uv, t) \<and> make_open_upvalue 4 16 1 t = Inr (uv, t) \<and>
    upvalue_get uv t = Inr (SLY_FALSE, t) \<and>
    upvalue_set uv SLY_NULL t = Inr ((), u) \<and> upvalue_get uv u = Inr (SLY_NULL, u) \<and> vector_ref 16 1 u = Inr (SLY_NULL, u)"
  using captures_share [OF upvalue_demo_facts(1) _ upvalue_demo_facts(2,3), of 4 1 SLY_NULL] by simp

text \<open>
  Closing an upvalue keeps its value: what it read from the register it goes on reading, whatever
  becomes of the register, and the register's vector is as it was.
\<close>

theorem closing_keeps_value:
  assumes "ptr_p uv" and "sly_heap s (GET_ADDR uv) = Some (SUpvalue nx (Open R i))" and "vec_at s R xs" and "i < length xs"
  shows "\<exists>t. close_upvalue uv s = Inr ((), t) \<and> vec_at t R xs \<and> upvalue_isclosed uv t = Inr (True, t) \<and>
    (\<forall>u. sly_heap u (GET_ADDR uv) = sly_heap t (GET_ADDR uv) \<longrightarrow> upvalue_get uv u = Inr (xs ! i, u))"
proof -
  let ?t = "s\<lparr>sly_heap := (sly_heap s)(GET_ADDR uv \<mapsto> SUpvalue 0 (Closed (xs ! i)))\<rparr>"
  have "close_upvalue uv s = Inr ((), ?t)"
    using upvalue_object [OF assms(2)] assms(1) vec_at_reg(1) [OF assms(3,4)]
    by (simp add: close_upvalue_def expect_def)
  moreover have "vec_at ?t R xs"
    using assms(2,3) by (auto simp: vec_at_def)
  moreover have "upvalue_isclosed uv ?t = Inr (True, ?t)"
    using upvalue_object(1,2) [of ?t uv 0 "Closed (xs ! i)"] assms(1) by (simp add: upvalue_isclosed_def expect_def)
  moreover have "upvalue_get uv u = Inr (xs ! i, u)" if "sly_heap u (GET_ADDR uv) = sly_heap ?t (GET_ADDR uv)" for u
    using upvalue_object(1,2) [of u uv 0 "Closed (xs ! i)"] that assms(1) by (simp add: upvalue_get_def expect_def)
  ultimately show ?thesis
    by blast
qed

lemma closing_keeps_value_witness:
  "\<exists>t. close_upvalue 48 upvalue_demo = Inr ((), t) \<and> vec_at t 16 [SLY_TRUE, SLY_FALSE] \<and>
    upvalue_isclosed 48 t = Inr (True, t) \<and>
    (\<forall>u. sly_heap u (GET_ADDR 48) = sly_heap t (GET_ADDR 48) \<longrightarrow> upvalue_get 48 u = Inr (SLY_FALSE, u))"
  using closing_keeps_value [OF upvalue_demo_facts(8,5,3)] by simp

text \<open>
  C20: A frame whose registers 0 and 1 were captured in that order, above the upvalue \<open>w\<close> of another
  frame, loses the list of open upvalues when it is left: the search for the first one leaves
  \<open>parent\<close> set, the head of the list is not unlinked, and \<open>w\<close>, still open, is no longer found, so
  its register gets a second upvalue.
\<close>

theorem closing_loses_outer:
  assumes "open_upvals s = u1" and "distinct [GET_ADDR u1, GET_ADDR u0, GET_ADDR w]"
    and "ptr_p u1" and "sly_heap s (GET_ADDR u1) = Some (SUpvalue u0 (Open R 1))"
    and "ptr_p u0" and "sly_heap s (GET_ADDR u0) = Some (SUpvalue w (Open R 0))"
    and "ptr_p w" and "sly_heap s (GET_ADDR w) = Some (SUpvalue 0 (Open Q j))"
    and "vec_at s R xs" and "2 \<le> length xs" and "Q \<noteq> R"
  shows "\<exists>t. close_from (Suc (Suc n)) R 0 2 0 s = Inr ((), t) \<and> open_upvals t = u1 \<and>
    upvalue_isclosed u1 t = Inr (True, t) \<and> upvalue_isclosed w t = Inr (False, t) \<and>
    find_open_upvalue (Suc (Suc n)) Q j t = Inr ((0, None), t)"
proof -
  obtain els where els: "ptr_p R" "sly_heap s (GET_ADDR R) = Some (SVector (length xs) els)"
    using assms(9) by (auto simp: vec_at_def)
  have r: "GET_ADDR R \<noteq> GET_ADDR u1" "GET_ADDR R \<noteq> GET_ADDR u0"
    using els(2) assms(4,6) by auto
  have len: "0 < length xs" "1 < length xs"
    using assms(10) by linarith+
  note nz = ptr_nonzero [OF assms(3)] ptr_nonzero [OF assms(5)] ptr_nonzero [OF assms(7)]
  have apart: "GET_ADDR u1 \<noteq> GET_ADDR u0" "GET_ADDR u1 \<noteq> GET_ADDR w" "GET_ADDR u0 \<noteq> GET_ADDR w"
    using assms(2) by auto
  have neq: "u1 \<noteq> u0"
    using apart by auto
  let ?n = "Suc (Suc n)"
  \<comment> \<open>the search for register 0, and its unlinking from \<open>u1\<close>\<close>
  have f0: "find_open_upvalue ?n R 0 s = Inr ((u0, Some u1), s)"
    using assms(1,4,6) nz by (simp add: find_open_upvalue_def upvalue_object)
  let ?s1 = "s\<lparr>sly_heap := (sly_heap s)(GET_ADDR u1 \<mapsto> SUpvalue w (Open R 1))\<rparr>"
  have v1: "vec_at ?s1 R xs"
    using assms(9) r by (simp add: vec_at_def)
  let ?s2 = "?s1\<lparr>sly_heap := (sly_heap ?s1)(GET_ADDR u0 \<mapsto> SUpvalue 0 (Closed (xs ! 0)))\<rparr>"
  have u0: "sly_heap ?s1 (GET_ADDR u0) = Some (SUpvalue w (Open R 0))"
    using assms(6) apart by simp
  have c0: "close_upvalue u0 ?s1 = Inr ((), ?s2)"
    using upvalue_object [OF u0] assms(5) vec_at_reg(1) [OF v1 len(1)] by (simp add: close_upvalue_def expect_def)
  have v2: "vec_at ?s2 R xs"
    using v1 r by (simp add: vec_at_def)
  have u1: "sly_heap ?s2 (GET_ADDR u1) = Some (SUpvalue w (Open R 1))"
    using apart by simp
  have f1: "find_open_upvalue ?n R 1 ?s2 = Inr ((u1, None), ?s2)"
    using assms(1) nz upvalue_object(1) [OF u1] by (simp add: find_open_upvalue_def)
  let ?s3 = "?s2\<lparr>sly_heap := (sly_heap ?s2)(GET_ADDR u1 \<mapsto> SUpvalue w (Open R 1))\<rparr>"
  have same: "?s3 = ?s2"
    using u1 by (simp add: fun_upd_idem)
  let ?t = "?s2\<lparr>sly_heap := (sly_heap ?s2)(GET_ADDR u1 \<mapsto> SUpvalue 0 (Closed (xs ! 1)))\<rparr>"
  have c1: "close_upvalue u1 ?s2 = Inr ((), ?t)"
    using upvalue_object [OF u1] assms(3) vec_at_reg(1) [OF v2 len(2)] by (simp add: close_upvalue_def expect_def)
  have "close_from ?n R 0 2 0 s = Inr ((), ?t)"
    using f0 f1 c0 c1 nz same upvalue_object [OF assms(4)] upvalue_object [OF assms(6)] upvalue_object [OF u1]
    by (simp add: numeral_2_eq_2 del: find_open_from.simps)
  moreover have "upvalue_isclosed u1 ?t = Inr (True, ?t)"
    using upvalue_object(1,2) [of ?t u1 0 "Closed (xs ! 1)"] assms(3) by (simp add: upvalue_isclosed_def expect_def)
  moreover have "sly_heap ?t (GET_ADDR w) = Some (SUpvalue 0 (Open Q j))"
    using assms(8) apart by simp
  then have "upvalue_isclosed w ?t = Inr (False, ?t)"
    using upvalue_object(1,2) [of ?t w 0 "Open Q j"] assms(7) by (simp add: upvalue_isclosed_def expect_def)
  moreover have "find_open_upvalue ?n Q j ?t = Inr ((0, None), ?t)"
    using upvalue_object(1) [of ?t u1 0 "Closed (xs ! 1)"] assms(1) nz by (simp add: find_open_upvalue_def)
  moreover have "open_upvals ?t = u1"
    using assms(1) by simp
  ultimately show ?thesis
    by blast
qed

lemma closing_loses_outer_witness:
  "\<exists>t. close_from (Suc (Suc 0)) 16 0 2 0 upvalue_demo = Inr ((), t) \<and> open_upvals t = 48 \<and>
    upvalue_isclosed 48 t = Inr (True, t) \<and> upvalue_isclosed 80 t = Inr (False, t) \<and>
    find_open_upvalue (Suc (Suc 0)) 32 0 t = Inr ((0, None), t)"
  using closing_loses_outer [OF upvalue_demo_facts(4) _ upvalue_demo_facts(8,5,9,6,10,7,3), of 0]
  by (simp add: GET_ADDR_def TAG_MASK_def)

end
