(* ===== verification/Sly_Machine.thy ===== *)
theory Sly_Machine
  imports Sly_Upvalues
begin

text \<open>
  A specification of the part of the machine that stays in one frame: a program counter and a list of
  registers instead of frames, vectors and a heap.  The interpreter's loop refines it, faults included.
\<close>

section \<open>The specification\<close>

definition put :: "nat \<Rightarrow> sly_value \<Rightarrow> nat \<Rightarrow> sly_value list \<Rightarrow> (sly_value + nat \<times> sly_value list) result" where
  "put a x pc xs =
     (if a < length xs then Inr (Inr (pc, xs[a := x])) else Inl (Assert ''Error: Index out of bounds''))"

definition peek :: "sly_value list \<Rightarrow> nat \<Rightarrow> sly_value result" where
  "peek xs a = (if a < length xs then Inr (xs ! a) else Inl (Assert ''Error: Index out of bounds''))"

text \<open>One instruction: the machine leaves with a value, or goes on from another point.\<close>

definition local_step ::
  "INSTR list \<Rightarrow> sly_value list \<Rightarrow> nat \<Rightarrow> sly_value list \<Rightarrow> (sly_value + nat \<times> sly_value list) result" where
  "local_step code K pc xs = rbind (peek code pc) (\<lambda>v.
     let a = unat (GET_A v) in
     case GET_OP v of
       OP_NOP \<Rightarrow> Inr (Inr (pc + 1, xs))
     | OP_MOVE \<Rightarrow> rbind (peek xs (unat (GET_B v))) (\<lambda>x. put a x (pc + 1) xs)
     | OP_LOADI \<Rightarrow> put a (make_imm imm_int (word_of_int (GET_sBx v))) (pc + 1) xs
     | OP_LOADK \<Rightarrow> rbind (peek K (unat (GET_Bx v))) (\<lambda>x. put a x (pc + 1) xs)
     | OP_LOADFALSE \<Rightarrow> put a SLY_FALSE (pc + 1) xs
     | OP_LOADTRUE \<Rightarrow> put a SLY_TRUE (pc + 1) xs
     | OP_LOADNULL \<Rightarrow> put a SLY_NULL (pc + 1) xs
     | OP_LOADVOID \<Rightarrow> put a SLY_VOID (pc + 1) xs
     | OP_JMP \<Rightarrow> Inr (Inr (unat (GET_Ax v), xs))
     | OP_FJMP \<Rightarrow> rbind (peek xs a) (\<lambda>x.
         Inr (Inr (if x = SLY_FALSE then unat (GET_Bx v) else pc + 1, xs)))
     | OP_EXIT \<Rightarrow> rbind (peek xs a) (\<lambda>x. Inr (Inl x))
     | _ \<Rightarrow> Inl (Assert ''Error invalid opcode''))"

fun local_run :: "nat \<Rightarrow> INSTR list \<Rightarrow> sly_value list \<Rightarrow> nat \<Rightarrow> sly_value list \<Rightarrow> sly_value result" where
  "local_run 0 code K pc xs = Inl NoFuel"
| "local_run (Suc k) code K pc xs =
     rbind (local_step code K pc xs) (\<lambda>r. case r of Inl v \<Rightarrow> Inr v | Inr (pc', xs') \<Rightarrow> local_run k code K pc' xs')"

definition local_op :: "INSTR \<Rightarrow> bool" where
  "local_op v \<longleftrightarrow> GET_OP v \<in> {OP_NOP, OP_MOVE, OP_LOADI, OP_LOADK, OP_LOADFALSE, OP_LOADTRUE, OP_LOADNULL,
     OP_LOADVOID, OP_JMP, OP_FJMP, OP_EXIT, OP_COUNT}"

section \<open>The machine's state, seen from the specification\<close>

definition at_frame :: "sly_state \<Rightarrow> stack_frame \<Rightarrow> sly_value list \<Rightarrow> bool" where
  "at_frame s f xs \<longleftrightarrow> ptr_p (cur_frame s) \<and> sly_heap s (GET_ADDR (cur_frame s)) = Some (SFrame f) \<and> vec_at s (f_R f) xs"

definition running :: "sly_state \<Rightarrow> INSTR list \<Rightarrow> sly_value list \<Rightarrow> nat \<Rightarrow> sly_value list \<Rightarrow> bool" where
  "running s code K pc xs \<longleftrightarrow> (\<exists>f. at_frame s f xs \<and> f_pc f = pc \<and> TOP_LEVEL_P f \<and> vec_at s (f_code f) code \<and>
     vec_at s (f_K f) K \<and> GET_ADDR (f_R f) \<noteq> GET_ADDR (f_code f) \<and> GET_ADDR (f_R f) \<noteq> GET_ADDR (f_K f))"

lemma at_frame_run:
  assumes "at_frame s f xs"
  shows "frame s = Inr (f, s)" "as_frame (cur_frame s) s = Inr (f, s)"
    "set_frame (cur_frame s) g s = Inr ((), s\<lparr>sly_heap := (sly_heap s)(GET_ADDR (cur_frame s) \<mapsto> SFrame g)\<rparr>)"
  using assms by (simp_all add: at_frame_def frame_def as_frame_def set_frame_def sly_obj_at_def sly_obj_set_def)

lemma vec_at_other:
  "vec_at s v xs \<Longrightarrow> a \<noteq> GET_ADDR v \<Longrightarrow> vec_at (s\<lparr>sly_heap := (sly_heap s)(a \<mapsto> ob)\<rparr>) v xs"
  by (simp add: vec_at_def)

lemma vec_at_frame:
  "vec_at s v xs \<Longrightarrow> sly_heap s a = Some (SFrame f) \<Longrightarrow> vec_at (s\<lparr>sly_heap := (sly_heap s)(a \<mapsto> ob)\<rparr>) v xs"
  by (rule vec_at_other) (auto simp: vec_at_def)

lemma vec_at_set:
  assumes "vec_at s v xs"
  shows "if i < length xs
    then \<exists>ob. (\<exists>l e. sly_heap s (GET_ADDR v) = Some (SVector l e)) \<and>
      vector_set v i x s = Inr ((), s\<lparr>sly_heap := (sly_heap s)(GET_ADDR v \<mapsto> ob)\<rparr>) \<and>
      vec_at (s\<lparr>sly_heap := (sly_heap s)(GET_ADDR v \<mapsto> ob)\<rparr>) v (xs[i := x])
    else vector_set v i x s = Inl (Assert ''Error: Index out of bounds'')"
proof -
  obtain els where els: "ptr_p v" "sly_heap s (GET_ADDR v) = Some (SVector (length xs) els)"
    "els \<noteq> []" "length xs \<le> length els" "take (length xs) els = map Some xs"
    using assms by (auto simp: vec_at_def)
  have "take (length xs) (els[i := Some x]) = map Some (xs[i := x])"
    using els(5) by (simp add: take_update_swap map_update)
  then show ?thesis
    using els vec_at_object [OF els(1,2)] by (auto simp: vector_set_def elem_write_def vec_at_def)
qed

lemma get_reg_run:
  "at_frame s f xs \<Longrightarrow> get_reg a s = (case peek xs a of Inl e \<Rightarrow> Inl e | Inr x \<Rightarrow> Inr (x, s))"
  using at_frame_run [of s f xs] vec_at_ref [of s "f_R f" xs a]
  by (auto simp: get_reg_def peek_def at_frame_def)

lemma get_const_run:
  "at_frame s f xs \<Longrightarrow> vec_at s (f_K f) K \<Longrightarrow> get_const a s = (case peek K a of Inl e \<Rightarrow> Inl e | Inr x \<Rightarrow> Inr (x, s))"
  using at_frame_run [of s f xs] vec_at_ref [of s "f_K f" K a]
  by (auto simp: get_const_def peek_def)

text \<open>What an instruction of the machine and one of the specification have in common.\<close>

definition agrees ::
  "INSTR list \<Rightarrow> sly_value list \<Rightarrow> fault + (sly_value option \<times> sly_state) \<Rightarrow> (sly_value + nat \<times> sly_value list) result \<Rightarrow> bool" where
  "agrees code K m r = (case r of
     Inl e \<Rightarrow> m = Inl e
   | Inr (Inl v) \<Rightarrow> (\<exists>t. m = Inr (Some v, t))
   | Inr (Inr (pc, xs)) \<Rightarrow> (\<exists>t. m = Inr (None, t) \<and> running t code K pc xs))"

lemma agrees_put:
  assumes "running s code K pc xs"
  shows "agrees code K (go_on (set_reg a x) s) (put a x pc xs)"
proof -
  obtain f where f: "at_frame s f xs" "f_pc f = pc" "TOP_LEVEL_P f" "vec_at s (f_code f) code" "vec_at s (f_K f) K"
    "GET_ADDR (f_R f) \<noteq> GET_ADDR (f_code f)" "GET_ADDR (f_R f) \<noteq> GET_ADDR (f_K f)"
    using assms by (auto simp: running_def)
  have R: "vec_at s (f_R f) xs" and c: "ptr_p (cur_frame s)" "sly_heap s (GET_ADDR (cur_frame s)) = Some (SFrame f)"
    using f(1) by (simp_all add: at_frame_def)
  show ?thesis
  proof (cases "a < length xs")
    case True
    then obtain ob l e where ob: "sly_heap s (GET_ADDR (f_R f)) = Some (SVector l e)"
      "vector_set (f_R f) a x s = Inr ((), s\<lparr>sly_heap := (sly_heap s)(GET_ADDR (f_R f) \<mapsto> ob)\<rparr>)"
      "vec_at (s\<lparr>sly_heap := (sly_heap s)(GET_ADDR (f_R f) \<mapsto> ob)\<rparr>) (f_R f) (xs[a := x])"
      using vec_at_set [OF R, of a x] by auto
    let ?t = "s\<lparr>sly_heap := (sly_heap s)(GET_ADDR (f_R f) \<mapsto> ob)\<rparr>"
    have "at_frame ?t f (xs[a := x])"
      using c ob(1,3) by (auto simp: at_frame_def)
    then have "running ?t code K pc (xs[a := x])"
      using f vec_at_other [OF f(4) f(6)] vec_at_other [OF f(5) f(7)] by (auto simp: running_def)
    then show ?thesis
      using True ob(2) at_frame_run(1) [OF f(1)] by (simp add: agrees_def put_def go_on_def set_reg_def)
  next
    case False
    then show ?thesis
      using vec_at_set [OF R, of a x] at_frame_run(1) [OF f(1)] by (simp add: agrees_def put_def go_on_def set_reg_def)
  qed
qed

lemma running_pc:
  assumes "running s code K pc xs"
  shows "\<exists>t. set_pc q s = Inr ((), t) \<and> running t code K q xs"
proof -
  obtain f where f: "at_frame s f xs" "TOP_LEVEL_P f" "vec_at s (f_code f) code" "vec_at s (f_K f) K"
    "GET_ADDR (f_R f) \<noteq> GET_ADDR (f_code f)" "GET_ADDR (f_R f) \<noteq> GET_ADDR (f_K f)"
    using assms by (auto simp: running_def)
  have R: "vec_at s (f_R f) xs" and c: "ptr_p (cur_frame s)" "sly_heap s (GET_ADDR (cur_frame s)) = Some (SFrame f)"
    using f(1) by (simp_all add: at_frame_def)
  let ?t = "s\<lparr>sly_heap := (sly_heap s)(GET_ADDR (cur_frame s) \<mapsto> SFrame (f\<lparr>f_pc := q\<rparr>))\<rparr>"
  note keep = vec_at_frame [OF _ c(2)]
  have "at_frame ?t (f\<lparr>f_pc := q\<rparr>) xs"
    using c(1) keep [OF R] by (simp add: at_frame_def)
  then have "running ?t code K q xs"
    using f(2,5,6) keep [OF f(3)] keep [OF f(4)]
    by (auto simp: running_def TOP_LEVEL_P_def intro!: exI [of _ "f\<lparr>f_pc := q\<rparr>"])
  then show ?thesis
    using at_frame_run [OF f(1)] by (simp add: set_pc_def)
qed

lemma next_instr_run:
  assumes "running s code K pc xs"
  shows "if pc < length code then \<exists>t. next_instr s = Inr (code ! pc, t) \<and> running t code K (pc + 1) xs
    else next_instr s = Inl (Assert ''Error: Index out of bounds'')"
proof -
  obtain f where f: "at_frame s f xs" "f_pc f = pc" "vec_at s (f_code f) code"
    using assms by (auto simp: running_def)
  obtain t where t: "set_pc (pc + 1) s = Inr ((), t)" "running t code K (pc + 1) xs"
    using running_pc [OF assms] by blast
  have c: "sly_heap s (GET_ADDR (cur_frame s)) = Some (SFrame f)"
    using f(1) by (simp add: at_frame_def)
  have "t = s\<lparr>sly_heap := (sly_heap s)(GET_ADDR (cur_frame s) \<mapsto> SFrame (f\<lparr>f_pc := pc + 1\<rparr>))\<rparr>"
    using t(1) at_frame_run [OF f(1)] by (simp add: set_pc_def)
  moreover have "vec_at t (f_code f) code"
    using calculation vec_at_frame [OF f(3) c] by simp
  ultimately show ?thesis
    using t(2) at_frame_run [OF f(1)] f(2) vec_at_ref [of t "f_code f" code pc]
    by (auto simp: next_instr_def)
qed

lemma agrees_Inl [simp]: "agrees code K m (Inl e) \<longleftrightarrow> m = Inl e"
  by (simp add: agrees_def)

lemma LOADI_small: "sly_make_int (GET_sBx v) s = Inr (make_imm imm_int (word_of_int (GET_sBx v)), s)"
proof -
  have "- 32768 \<le> GET_sBx v" "GET_sBx v < 32768"
    using sint_ge [of "GET_Bx v"] sint_lt [of "GET_Bx v"] by (simp_all add: GET_sBx_def)
  then show ?thesis
    by (simp add: sly_make_int_def fits_i32_def)
qed

lemma pair_p_imm: "\<not> ptr_p x \<Longrightarrow> pair_p x s = Inr (False, s)"
  by (simp add: pair_p_def heap_p_def)

lemma exec_agrees:
  assumes "running s code K pc xs" and "local_op v" and "\<forall>x\<in>set K. \<not> ptr_p x"
  shows "agrees code K (exec n prims v s)
    (case GET_OP v of
       OP_NOP \<Rightarrow> Inr (Inr (pc, xs))
     | OP_MOVE \<Rightarrow> rbind (peek xs (unat (GET_B v))) (\<lambda>x. put (unat (GET_A v)) x pc xs)
     | OP_LOADI \<Rightarrow> put (unat (GET_A v)) (make_imm imm_int (word_of_int (GET_sBx v))) pc xs
     | OP_LOADK \<Rightarrow> rbind (peek K (unat (GET_Bx v))) (\<lambda>x. put (unat (GET_A v)) x pc xs)
     | OP_LOADFALSE \<Rightarrow> put (unat (GET_A v)) SLY_FALSE pc xs
     | OP_LOADTRUE \<Rightarrow> put (unat (GET_A v)) SLY_TRUE pc xs
     | OP_LOADNULL \<Rightarrow> put (unat (GET_A v)) SLY_NULL pc xs
     | OP_LOADVOID \<Rightarrow> put (unat (GET_A v)) SLY_VOID pc xs
     | OP_JMP \<Rightarrow> Inr (Inr (unat (GET_Ax v), xs))
     | OP_FJMP \<Rightarrow> rbind (peek xs (unat (GET_A v))) (\<lambda>x.
         Inr (Inr (if x = SLY_FALSE then unat (GET_Bx v) else pc, xs)))
     | OP_EXIT \<Rightarrow> rbind (peek xs (unat (GET_A v))) (\<lambda>x. Inr (Inl x))
     | _ \<Rightarrow> Inl (Assert ''Error invalid opcode''))"
proof -
  obtain f where f: "at_frame s f xs" "TOP_LEVEL_P f" "vec_at s (f_K f) K"
    using assms(1) by (auto simp: running_def)
  note reg = get_reg_run [OF f(1)]
  note store = agrees_put [OF assms(1)]
  have jump: "agrees code K (go_on (set_pc q) s) (Inr (Inr (q, xs)))" for q
    using running_pc [OF assms(1), of q] by (auto simp: agrees_def go_on_def)
  have stay: "agrees code K (Inr (None, s)) (Inr (Inr (pc, xs)))"
    using assms(1) by (auto simp: agrees_def)
  have K: "pair_p (K ! i) s = Inr (False, s)" if "i < length K" for i
    using assms(3) that by (simp add: pair_p_imm)
  consider "GET_OP v = OP_NOP" | "GET_OP v = OP_MOVE" | "GET_OP v = OP_LOADI" | "GET_OP v = OP_LOADK"
    | "GET_OP v = OP_LOADFALSE" | "GET_OP v = OP_LOADTRUE" | "GET_OP v = OP_LOADNULL" | "GET_OP v = OP_LOADVOID"
    | "GET_OP v = OP_JMP" | "GET_OP v = OP_FJMP" | "GET_OP v = OP_EXIT" | "GET_OP v = OP_COUNT"
    using assms(2) by (auto simp: local_op_def)
  then show ?thesis
  proof cases
    case 1
    then show ?thesis
      using stay by (simp add: exec_def)
  next
    case 2
    then show ?thesis
      using store reg by (cases "peek xs (unat (GET_B v))") (simp_all add: exec_def go_on_def bnd_assoc)
  next
    case 3
    then show ?thesis
      using store by (simp add: exec_def go_on_def bnd_assoc LOADI_small)
  next
    case 4
    then show ?thesis
      using store get_const_run [OF f(1,3), of "unat (GET_Bx v)"] K
      by (auto simp: exec_def go_on_def bnd_assoc ifM_def peek_def)
  next
    case 9
    then show ?thesis
      using jump by (simp add: exec_def)
  next
    case 10
    then show ?thesis
      using jump stay reg by (cases "peek xs (unat (GET_A v))") (simp_all add: exec_def go_on_def bnd_assoc)
  next
    case 11
    then show ?thesis
      using reg f(2) at_frame_run [OF f(1)] by (cases "peek xs (unat (GET_A v))") (simp_all add: exec_def agrees_def)
  next
    case 12
    then show ?thesis
      by (simp add: exec_def)
  qed (use store in \<open>simp_all add: exec_def\<close>)
qed

lemma vm_step_agrees:
  assumes "running s code K pc xs" and "\<forall>v\<in>set code. local_op v" and "\<forall>x\<in>set K. \<not> ptr_p x"
  shows "agrees code K (vm_step n prims s) (local_step code K pc xs)"
proof (cases "pc < length code")
  case True
  then obtain t where t: "next_instr s = Inr (code ! pc, t)" "running t code K (pc + 1) xs"
    using next_instr_run [OF assms(1)] by auto
  have "local_op (code ! pc)"
    using assms(2) True by simp
  from exec_agrees [OF t(2) this assms(3), of n prims] show ?thesis
    using t(1) True by (simp add: vm_step_def local_step_def peek_def Let_def)
next
  case False
  then show ?thesis
    using next_instr_run [OF assms(1)] by (simp add: vm_step_def local_step_def peek_def)
qed

lemma vm_loop_refines:
  assumes "running s code K pc xs" and "\<forall>v\<in>set code. local_op v" and "\<forall>x\<in>set K. \<not> ptr_p x"
  shows "(case vm_loop k n prims s of Inl e \<Rightarrow> Inl e | Inr (v, _) \<Rightarrow> Inr v) = local_run k code K pc xs"
  using assms(1)
proof (induction k arbitrary: s pc xs)
  case (Suc k)
  note agree = vm_step_agrees [OF Suc.prems assms(2,3), of n prims]
  show ?case
  proof (cases "local_step code K pc xs")
    case (Inl e)
    then show ?thesis
      using agree by simp
  next
    case (Inr r)
    show ?thesis
    proof (cases r)
      case (Inl v)
      then show ?thesis
        using agree Inr by (auto simp: agrees_def)
    next
      fix p assume r: "r = Inr p"
      obtain q ys where "p = (q, ys)"
        by (cases p)
      then obtain t where t: "vm_step n prims s = Inr (None, t)" "running t code K q ys"
        using agree Inr r by (auto simp: agrees_def)
      then show ?thesis
        using Suc.IH [OF t(2)] Inr r \<open>p = (q, ys)\<close> by simp
    qed
  qed
qed simp

text \<open>
  C14: The interpreter's loop runs the code of one frame as the specification does, which has a program
  counter and a list of registers only: the same value after the same number of instructions, or the
  same fault (a register or constant out of range, the end of the code, an invalid opcode).
\<close>

theorem machine_refines:
  assumes "running s code K pc xs" and "\<forall>v\<in>set code. local_op v" and "\<forall>x\<in>set K. \<not> ptr_p x"
  shows "(case vm_loop k n prims s of Inl e \<Rightarrow> Inl e | Inr (v, _) \<Rightarrow> Inr v) = local_run k code K pc xs"
  by (rule vm_loop_refines [OF assms])

text \<open>A loop that runs while register 0 holds no false value, and leaves with register 1.\<close>

definition machine_demo_code :: "INSTR list" where
  "machine_demo_code = [iABx (op_num OP_FJMP) 0 4 0, iAB (op_num OP_MOVE) 0 1 0, iAsBx (op_num OP_LOADI) 1 7 0,
     iA (op_num OP_JMP) 0 0, iA (op_num OP_EXIT) 1 0]"

definition machine_demo :: sly_state where
  "machine_demo = sly_start\<lparr>sly_next := 80, cur_frame := 64, sly_heap := [16 \<mapsto> SVector 2 [Some SLY_TRUE, Some SLY_FALSE],
     32 \<mapsto> SVector 5 (map Some machine_demo_code), 48 \<mapsto> SVector 0 [Some 0],
     64 \<mapsto> SFrame (blank_frame\<lparr>f_R := 16, f_code := 32, f_K := 48\<rparr>)]\<rparr>"

lemma machine_demo_running: "running machine_demo machine_demo_code [] 0 [SLY_TRUE, SLY_FALSE]"
  by (auto simp: running_def at_frame_def machine_demo_def sly_start_def vec_at_def ptr_p_def void_p_def SLY_VOID_def
      GET_ADDR_def TAG_MASK_def blank_frame_def TOP_LEVEL_P_def machine_demo_code_def)

lemma iA_reads: "GET_OP (iA (op_num op) a l) = op" "GET_A (iA (op_num op) a l) = a"
  "GET_OP (iAB (op_num op) a b l) = op" "GET_A (iAB (op_num op) a b l) = a" "GET_B (iAB (op_num op) a b l) = b"
  "GET_OP (iABx (op_num op) a bx l) = op" "GET_A (iABx (op_num op) a bx l) = a" "GET_Bx (iABx (op_num op) a bx l) = bx"
  "GET_OP (iAsBx (op_num op) a bx l) = op" "GET_A (iAsBx (op_num op) a bx l) = a" "GET_sBx (iAsBx (op_num op) a bx l) = sint bx"
  by (simp_all add: GET_OP_def GET_A_def GET_B_def GET_sBx_def iAsBx_def iAB_fields iA_fields iABx_fields del: One_nat_def)

lemma jump_to_start: "GET_Ax (iA i 0 l) = 0"
  by (rule bit_word_eqI) (auto simp: encoding GET_Ax_def dest: bit_imp_le_length)

lemma local_run_numeral: "local_run (numeral k) code K pc xs =
    rbind (local_step code K pc xs) (\<lambda>r. case r of Inl v \<Rightarrow> Inr v
      | Inr (pc', xs') \<Rightarrow> local_run (pred_numeral k) code K pc' xs')"
  by (simp add: numeral_eq_Suc)

lemma machine_refines_witness:
  "(case vm_loop 6 0 (\<lambda>_. ret) machine_demo of Inl e \<Rightarrow> Inl e | Inr (v, _) \<Rightarrow> Inr v) = Inr (make_imm imm_int 7)"
proof -
  have "local_run 6 machine_demo_code [] 0 [SLY_TRUE, SLY_FALSE] = Inr (make_imm imm_int 7)"
    by (simp add: machine_demo_code_def local_run_numeral SLY_TRUE_def SLY_FALSE_def st_true_def st_false_def local_step_def peek_def put_def iA_reads jump_to_start Let_def
        del: op_num.simps)
  then show ?thesis
    using machine_refines [OF machine_demo_running, of 6 0 "\<lambda>_. ret"]
    by (simp add: machine_demo_code_def local_op_def iA_reads del: op_num.simps)
qed

end
