(* ===== verification/Sly_Calls.thy ===== *)
theory Sly_Calls
  imports Sly_Machine
begin

text \<open>
  Properties of calls: what a closure's frame looks like when it is entered, that a tail call takes its
  caller's place, that a return resumes the caller, and what call/cc and continuations do.
\<close>

section \<open>Procedures, as the machine finds them\<close>

text \<open>A new object, and the state it leaves.\<close>

definition new_obj :: "sly_obj \<Rightarrow> sly_state \<Rightarrow> sly_state" where
  "new_obj ob s = s\<lparr>sly_heap := (sly_heap s)(sly_next s \<mapsto> ob), sly_next := sly_next s + 16\<rparr>"

lemma new_obj_run:
  assumes "sly_room (Suc n) s"
  shows "gc_malloc ob s = Inr (of_nat (sly_next s), new_obj ob s)" "sly_room n (new_obj ob s)" "grows s (new_obj ob s)"
    "ptr_p (of_nat (sly_next s))" "GET_ADDR (of_nat (sly_next s)) = sly_next s" "sly_heap s (sly_next s) = None"
proof -
  have h: "heap_fine s"
    using assms by (simp add: sly_room_def)
  note m = gc_malloc_eq [OF h]
  show "gc_malloc ob s = Inr (of_nat (sly_next s), new_obj ob s)" "ptr_p (of_nat (sly_next s))"
    "GET_ADDR (of_nat (sly_next s)) = sly_next s" "sly_heap s (sly_next s) = None"
    using m by (simp_all add: new_obj_def)
  show "grows s (new_obj ob s)"
    using m(4) by (auto simp: grows_def new_obj_def)
  have "heap_fine (new_obj ob s)"
    by (rule heap_fine_next [OF h]) (use assms in \<open>auto simp: new_obj_def sly_room_def\<close>)
  then show "sly_room n (new_obj ob s)"
    using assms by (simp add: sly_room_def new_obj_def)
qed

lemma new_obj_sel [simp]:
  "sly_heap (new_obj ob s) = (sly_heap s)(sly_next s \<mapsto> ob)" "cur_frame (new_obj ob s) = cur_frame s"
  "open_upvals (new_obj ob s) = open_upvals s" "sly_next (new_obj ob s) = sly_next s + 16"
  by (simp_all add: new_obj_def)

definition closure_at :: "sly_state \<Rightarrow> sly_value \<Rightarrow> sly_value \<Rightarrow> sly_value \<Rightarrow> prototype \<Rightarrow> bool" where
  "closure_at s v up pr p \<longleftrightarrow> ptr_p v \<and> sly_heap s (GET_ADDR v) = Some (SClosure up pr) \<and>
     sly_heap s (GET_ADDR pr) = Some (SProto p)"

definition cont_at :: "sly_state \<Rightarrow> sly_value \<Rightarrow> sly_value \<Rightarrow> nat \<Rightarrow> nat \<Rightarrow> bool" where
  "cont_at s v cf pc slot \<longleftrightarrow> ptr_p v \<and> sly_heap s (GET_ADDR v) = Some (SCont cf pc slot 1 False)"

lemma closure_at_run:
  assumes "closure_at s v up pr p"
  shows "closure_p v s = Inr (True, s)" "cclosure_p v s = Inr (False, s)" "as_closure v s = Inr ((up, pr), s)"
    "as_proto pr s = Inr (p, s)"
  using assms by (simp_all add: closure_at_def closure_p_def cclosure_p_def heap_p_def as_closure_def as_proto_def
      sly_obj_at_def)

lemma cont_at_run:
  assumes "cont_at s v cf pc slot"
  shows "continuation_p v s = Inr (True, s)" "closure_p v s = Inr (False, s)" "cclosure_p v s = Inr (False, s)"
    "as_cont v s = Inr ((cf, pc, slot, 1, False), s)"
  using assms by (simp_all add: cont_at_def continuation_p_def closure_p_def cclosure_p_def heap_p_def as_cont_def
      sly_obj_at_def)

lemma at_frame_grows:
  "at_frame s f xs \<Longrightarrow> grows s t \<Longrightarrow> cur_frame t = cur_frame s \<Longrightarrow> at_frame t f xs"
  by (auto simp: at_frame_def vec_at_def grows_def)

lemma vec_at_grows: "vec_at s v xs \<Longrightarrow> grows s t \<Longrightarrow> vec_at t v xs"
  by (auto simp: vec_at_def grows_def)

section \<open>Making a frame\<close>

definition new_regs :: "nat \<Rightarrow> sly_state \<Rightarrow> sly_state" where
  "new_regs nregs = new_obj (SVector (nregs * 2) (replicate (nregs * 2) (Some 0)))"

lemma make_stack_run:
  assumes "sly_room (Suc (Suc n)) s" and "0 < nregs" and "nregs < REG_MAX"
  shows "\<exists>nv R t. make_stack nregs s = Inr (nv, t) \<and> ptr_p nv \<and> sly_heap t (GET_ADDR nv) = Some (SFrame (blank_frame\<lparr>f_R := R\<rparr>)) \<and>
    vec_at t R (replicate (nregs * 2) 0) \<and> sly_heap s (GET_ADDR R) = None \<and> sly_heap s (GET_ADDR nv) = None \<and>
    grows s t \<and> sly_room n t \<and> cur_frame t = cur_frame s \<and> open_upvals t = open_upvals s"
proof -
  let ?u = "new_regs nregs s"
  note u = new_obj_run(1-3) [OF assms(1), of "SVector (nregs * 2) (replicate (nregs * 2) (Some 0))", folded new_regs_def]
    new_obj_run(4-6) [OF assms(1)]
  let ?R = "of_nat (sly_next s) :: sly_value"
  let ?t = "new_obj (SFrame (blank_frame\<lparr>f_R := ?R\<rparr>)) ?u"
  note t = new_obj_run(1-3) [OF u(2), of "SFrame (blank_frame\<lparr>f_R := ?R\<rparr>)"] new_obj_run(4-6) [OF u(2)]
  have "make_stack nregs s = Inr (of_nat (sly_next ?u), ?t)"
    using assms(3) u(1) t(1) by (simp add: make_stack_def sly_make_vector_def not_le)
  moreover have "vec_at ?u ?R (replicate (nregs * 2) 0)"
    using u(4,5) assms(2) by (simp add: vec_at_def new_regs_def)
  moreover have "sly_heap s (sly_next ?u) = None"
    using u(3) t(6) by (metis grows_def not_Some_eq)
  moreover have "cur_frame ?t = cur_frame s" "open_upvals ?t = open_upvals s"
    by (simp_all add: new_regs_def)
  ultimately show ?thesis
    using u t vec_at_grows grows_trans [OF u(3) t(3)]
    by (intro exI [of _ "of_nat (sly_next ?u)"] exI [of _ ?R] exI [of _ ?t]) auto
qed

text \<open>Another object at \<open>v\<close>.\<close>

definition poke :: "sly_value \<Rightarrow> sly_obj \<Rightarrow> sly_state \<Rightarrow> sly_state" where
  "poke v ob s = s\<lparr>sly_heap := (sly_heap s)(GET_ADDR v \<mapsto> ob)\<rparr>"

lemma poke_sel [simp]:
  "sly_heap (poke v ob s) = (sly_heap s)(GET_ADDR v \<mapsto> ob)" "cur_frame (poke v ob s) = cur_frame s"
  "open_upvals (poke v ob s) = open_upvals s" "sly_next (poke v ob s) = sly_next s"
  "poke v ob' (poke v ob s) = poke v ob' s"
  by (simp_all add: poke_def)

lemma poke_same: "sly_heap s (GET_ADDR v) = Some ob \<Longrightarrow> poke v ob s = s"
  by (simp add: poke_def fun_upd_idem)

lemma poke_vec: "vec_at s v xs \<Longrightarrow> GET_ADDR w \<noteq> GET_ADDR v \<Longrightarrow> vec_at (poke w ob s) v xs"
  by (simp add: vec_at_def)

lemma vec_set_poke:
  assumes "vec_at s v xs" and "i < length xs"
  shows "\<exists>ob. vector_set v i x s = Inr ((), poke v ob s) \<and> vec_at (poke v ob s) v (xs[i := x])"
  using vec_at_set [OF assms(1), of i x] assms(2) by (auto simp: poke_def)

lemma at_frame_poke:
  assumes "at_frame s f xs" and "vec_at s v ys" and "GET_ADDR v \<noteq> GET_ADDR (f_R f)"
  shows "at_frame (poke v ob s) f xs"
  using assms poke_vec [of s "f_R f" xs v ob] by (auto simp: at_frame_def vec_at_def)

lemma copy_args_run:
  assumes "at_frame s f xs" and "vec_at s dst ys" and "GET_ADDR dst \<noteq> GET_ADDR (f_R f)"
    and "i + k \<le> length ys" and "a + i + k < length xs"
  shows "\<exists>ob. copy_args dst a i k s = Inr ((), poke dst ob s) \<and>
    vec_at (poke dst ob s) dst (take i ys @ take k (drop (a + 1 + i) xs) @ drop (i + k) ys)"
  using assms
proof (induction k arbitrary: s i ys)
  case 0
  obtain ob where "sly_heap s (GET_ADDR dst) = Some ob"
    using 0(2) by (auto simp: vec_at_def)
  then show ?case
    using 0(2) poke_same [of s dst ob] by (intro exI [of _ ob]) simp
next
  case (Suc k)
  let ?x = "xs ! (a + 1 + i)"
  have i: "i < length ys" and ax: "a + 1 + i < length xs"
    using Suc.prems(4,5) by simp_all
  have g: "get_reg (a + 1 + i) s = Inr (?x, s)"
    using get_reg_run [OF Suc.prems(1), of "a + 1 + i"] ax by (simp add: peek_def)
  obtain ob where ob: "vector_set dst i ?x s = Inr ((), poke dst ob s)" "vec_at (poke dst ob s) dst (ys[i := ?x])"
    using vec_set_poke [OF Suc.prems(2) i, of ?x] by blast
  note t = at_frame_poke [OF Suc.prems(1,2,3), of ob]
  obtain ob' where ob': "copy_args dst a (Suc i) k (poke dst ob s) = Inr ((), poke dst ob' s)"
    "vec_at (poke dst ob' s) dst (take (Suc i) (ys[i := ?x]) @ take k (drop (a + 1 + Suc i) xs) @ drop (Suc i + k) (ys[i := ?x]))"
    using Suc.IH [OF t ob(2) Suc.prems(3), of "Suc i"] Suc.prems(4,5) by auto
  have "take (Suc i) (ys[i := ?x]) = take i ys @ [?x]"
    using i by (simp add: take_Suc_conv_app_nth)
  moreover have "take (Suc k) (drop (a + 1 + i) xs) = ?x # take k (drop (a + 1 + Suc i) xs)"
    using ax by (simp add: Cons_nth_drop_Suc [symmetric])
  ultimately show ?case
    using g ob(1) ob' by (intro exI [of _ ob']) simp
qed

section \<open>Calls of closures\<close>

lemma call_prepared:
  assumes "at_frame s f xs" and "closure_at s val up pr p" and "sly_room (Suc (Suc m)) s"
    and "\<not> p_has_varg p" and "0 < p_nregs p" and "p_nregs p < REG_MAX" and "p_nargs p \<le> p_nregs p * 2"
    and "a + p_nargs p < length xs"
  shows "\<exists>nv R u. call_closure n val a (p_nargs p) tail s =
      bnd (link_frame n nv (frame_of val (blank_frame\<lparr>f_R := R\<rparr>) up p) a tail) (\<lambda>_. enter nv) u \<and>
    ptr_p nv \<and> sly_heap u (GET_ADDR nv) = Some (SFrame (blank_frame\<lparr>f_R := R\<rparr>)) \<and>
    vec_at u R (take (p_nargs p) (drop (a + 1) xs) @ replicate (p_nregs p * 2 - p_nargs p) 0) \<and>
    sly_heap s (GET_ADDR nv) = None \<and> grows s u \<and> sly_room m u \<and> cur_frame u = cur_frame s \<and> open_upvals u = open_upvals s"
proof -
  obtain nv R t where t: "make_stack (p_nregs p) s = Inr (nv, t)" "ptr_p nv"
    "sly_heap t (GET_ADDR nv) = Some (SFrame (blank_frame\<lparr>f_R := R\<rparr>))" "vec_at t R (replicate (p_nregs p * 2) 0)"
    "sly_heap s (GET_ADDR R) = None" "sly_heap s (GET_ADDR nv) = None" "grows s t" "sly_room m t"
    "cur_frame t = cur_frame s" "open_upvals t = open_upvals s"
    using make_stack_run [OF assms(3,5,6)] by blast
  have f: "at_frame t f xs"
    by (rule at_frame_grows [OF assms(1) t(7,9)])
  have "GET_ADDR R \<noteq> GET_ADDR (f_R f)"
    using assms(1) t(5) by (auto simp: at_frame_def vec_at_def)
  then obtain ob where ob: "copy_args R a 0 (p_nargs p) t = Inr ((), poke R ob t)"
    "vec_at (poke R ob t) R (take (p_nargs p) (drop (a + 1) xs) @ replicate (p_nregs p * 2 - p_nargs p) 0)"
    using copy_args_run [OF f t(4), of 0 "p_nargs p" a] assms(7,8) by auto
  have "grows s (poke R ob t)"
    using t(5,7) by (auto simp: grows_def)
  moreover have "sly_room m (poke R ob t)"
    using room_obj_set [OF t(8)] t(4) by (auto simp: vec_at_def poke_def)
  moreover have "sly_heap (poke R ob t) (GET_ADDR nv) = Some (SFrame (blank_frame\<lparr>f_R := R\<rparr>))"
    using t(3,4) by (auto simp: vec_at_def)
  moreover have "as_frame nv t = Inr (blank_frame\<lparr>f_R := R\<rparr>, t)"
    using t(3) by (simp add: as_frame_def sly_obj_at_def)
  then have "call_closure n val a (p_nargs p) tail s =
      bnd (link_frame n nv (frame_of val (blank_frame\<lparr>f_R := R\<rparr>) up p) a tail) (\<lambda>_. enter nv) (poke R ob t)"
    using closure_at_run [OF assms(2)] t(1) ob(1) assms(4) by (simp add: call_closure_def)
  ultimately show ?thesis
    using t(2,6,9,10) ob(2) by (intro exI [of _ nv] exI [of _ R] exI [of _ "poke R ob t"]) simp
qed

lemma set_frame_poke: "sly_heap s (GET_ADDR v) = Some ob \<Longrightarrow> set_frame v g s = Inr ((), poke v (SFrame g) s)"
  by (simp add: set_frame_def sly_obj_set_def poke_def)

lemma funcall_closure:
  assumes "at_frame s f xs" and "a < length xs" and "closure_at s (xs ! a) up pr p"
  shows "funcall n prims a nargs tail s = call_closure n (xs ! a) a nargs tail s"
  using get_reg_run [OF assms(1), of a] closure_at_run [OF assms(3)] assms(2)
  by (simp add: funcall_def ifM_def peek_def)

lemma wrong_count:
  assumes "at_frame s f xs" and "closure_at s val up pr p" and "sly_room (Suc (Suc m)) s"
    and "\<not> p_has_varg p" and "0 < p_nregs p" and "p_nregs p < REG_MAX" and "nargs \<noteq> p_nargs p"
  shows "call_closure n val a nargs tail s = Inl (Assert ''Error wrong number of arguments (188)'')"
proof -
  obtain nv R t where t: "make_stack (p_nregs p) s = Inr (nv, t)" "sly_heap t (GET_ADDR nv) = Some (SFrame (blank_frame\<lparr>f_R := R\<rparr>))"
    using make_stack_run [OF assms(3,5,6)] by blast
  then show ?thesis
    using closure_at_run [OF assms(2)] assms(4,7) by (simp add: call_closure_def as_frame_def sly_obj_at_def)
qed

text \<open>
  C15: A call of a closure with the number of arguments it takes enters a new frame: the arguments in
  its first registers and zeros in the rest, the program counter at the entry, one level further in,
  and a continuation that answers in register \<open>a\<close> of the caller, which is as it was; any other number
  of arguments is a failed assertion.
\<close>

theorem call_enters:
  assumes "at_frame s f xs" and "closure_at s (xs ! a) up pr p" and "sly_room 3 s"
    and "\<not> p_has_varg p" and "0 < p_nregs p" and "p_nregs p < REG_MAX" and "p_nargs p \<le> p_nregs p * 2"
    and "a + p_nargs p < length xs" and "TOP_LEVEL_P f \<or> \<not> tail"
  shows "(\<exists>k R t. funcall n prims a (p_nargs p) tail s = Inr ((), t) \<and>
      at_frame t \<lparr>f_cont = k, f_K = p_K p, f_code = p_code p, f_U = up, f_R = R, f_clos = xs ! a, f_pc = p_entry p,
          f_level = f_level f + 1\<rparr>
        (take (p_nargs p) (drop (a + 1) xs) @ replicate (p_nregs p * 2 - p_nargs p) 0) \<and>
      cont_at t k (cur_frame s) (f_pc f) a \<and> grows s t) \<and>
    (\<forall>nargs. nargs \<noteq> p_nargs p \<longrightarrow>
      funcall n prims a nargs tail s = Inl (Assert ''Error wrong number of arguments (188)''))"
proof (rule conjI)
  have room: "sly_room (Suc (Suc 1)) s" and a: "a < length xs"
    using assms(3,8) by (simp_all add: numeral_3_eq_3)
  note fc = funcall_closure [OF assms(1) a assms(2)]
  show "\<forall>nargs. nargs \<noteq> p_nargs p \<longrightarrow>
      funcall n prims a nargs tail s = Inl (Assert ''Error wrong number of arguments (188)'')"
    using wrong_count [OF assms(1,2) room assms(4-6)] fc by simp
  obtain nv R u where u: "call_closure n (xs ! a) a (p_nargs p) tail s =
      bnd (link_frame n nv (frame_of (xs ! a) (blank_frame\<lparr>f_R := R\<rparr>) up p) a tail) (\<lambda>_. enter nv) u"
    "ptr_p nv" "sly_heap u (GET_ADDR nv) = Some (SFrame (blank_frame\<lparr>f_R := R\<rparr>))"
    "vec_at u R (take (p_nargs p) (drop (a + 1) xs) @ replicate (p_nregs p * 2 - p_nargs p) 0)"
    "sly_heap s (GET_ADDR nv) = None" "grows s u" "sly_room 1 u" "cur_frame u = cur_frame s"
    using call_prepared [OF assms(1,2) room assms(4-8), of n tail] by blast
  have f: "as_frame (cur_frame s) u = Inr (f, u)"
    using at_frame_run(2) [OF at_frame_grows [OF assms(1) u(6,8)]] u(8) by simp
  let ?k = "of_nat (sly_next u) :: sly_value" and ?c = "SCont (cur_frame s) (f_pc f) a 1 False"
  let ?g = "\<lparr>f_cont = ?k, f_K = p_K p, f_code = p_code p, f_U = up, f_R = R, f_clos = xs ! a, f_pc = p_entry p,
    f_level = f_level f + 1\<rparr>"
  have u1: "sly_room (Suc 0) u"
    using u(7) by simp
  note c = new_obj_run(1-3) [OF u1, of ?c] new_obj_run(4-6) [OF u1]
  let ?v = "poke nv (SFrame ?g) (new_obj ?c u)"
  have nv: "sly_heap (new_obj ?c u) (GET_ADDR nv) = Some (SFrame (blank_frame\<lparr>f_R := R\<rparr>))"
    using c(3) u(3) by (simp add: grows_def)
  have "link_frame n nv (frame_of (xs ! a) (blank_frame\<lparr>f_R := R\<rparr>) up p) a tail u = Inr (?k, ?v)"
    using f u(8) c(1) assms(9) set_frame_poke [OF nv]
    by (auto simp: link_frame_def make_continuation_def frame_of_def blank_frame_def)
  then have run: "funcall n prims a (p_nargs p) tail s = Inr ((), ?v\<lparr>cur_frame := nv\<rparr>)"
    using u(1) fc by (simp add: enter_def)
  have R: "vec_at ?v R (take (p_nargs p) (drop (a + 1) xs) @ replicate (p_nregs p * 2 - p_nargs p) 0)"
    by (rule poke_vec [OF vec_at_grows [OF u(4) c(3)]]) (use u(3,4) in \<open>auto simp: vec_at_def\<close>)
  have "grows s ?v"
    using u(5,6) c(3) by (auto simp: grows_def)
  moreover have "cont_at ?v ?k (cur_frame s) (f_pc f) a"
    using c(4-6) u(3) by (auto simp: cont_at_def)
  ultimately show "\<exists>k R t. funcall n prims a (p_nargs p) tail s = Inr ((), t) \<and>
      at_frame t \<lparr>f_cont = k, f_K = p_K p, f_code = p_code p, f_U = up, f_R = R, f_clos = xs ! a, f_pc = p_entry p,
          f_level = f_level f + 1\<rparr>
        (take (p_nargs p) (drop (a + 1) xs) @ replicate (p_nregs p * 2 - p_nargs p) 0) \<and>
      cont_at t k (cur_frame s) (f_pc f) a \<and> grows s t"
    using run R u(2)
    by (intro exI [of _ ?k] exI [of _ R] exI [of _ "?v\<lparr>cur_frame := nv\<rparr>"])
      (simp add: at_frame_def vec_at_def cont_at_def grows_def)
qed

section \<open>Tail calls\<close>

lemma close_none: "open_upvals s = 0 \<Longrightarrow> close_from n R i k q s = Inr ((), s)"
  by (induction k arbitrary: i q) (simp_all add: find_open_upvalue_def)

lemma close_upvalues_none:
  assumes "open_upvals s = 0" and "null_p (f_clos f) \<or> (\<exists>up pr p. closure_at s (f_clos f) up pr p)"
  shows "close_upvalues n f s = Inr ((), s)"
  using assms close_none closure_at_run by (auto simp: close_upvalues_def)

text \<open>
  C17: A tail call from a frame that has no open upvalues takes the frame's place: the new frame returns
  where the old one does, at the same level, so a loop of tail calls does not nest.
\<close>

theorem tail_call_replaces:
  assumes "at_frame s f xs" and "closure_at s (xs ! a) up pr p" and "sly_room 3 s"
    and "\<not> p_has_varg p" and "0 < p_nregs p" and "p_nregs p < REG_MAX" and "p_nargs p \<le> p_nregs p * 2"
    and "a + p_nargs p < length xs" and "\<not> TOP_LEVEL_P f"
    and "open_upvals s = 0" and "closure_at s (f_clos f) up0 pr0 p0"
  shows "\<exists>R t. funcall n prims a (p_nargs p) True s = Inr ((), t) \<and>
      at_frame t \<lparr>f_cont = f_cont f, f_K = p_K p, f_code = p_code p, f_U = up, f_R = R, f_clos = xs ! a,
          f_pc = p_entry p, f_level = f_level f\<rparr>
        (take (p_nargs p) (drop (a + 1) xs) @ replicate (p_nregs p * 2 - p_nargs p) 0) \<and> grows s t"
proof -
  have room: "sly_room (Suc (Suc 1)) s" and a: "a < length xs"
    using assms(3,8) by (simp_all add: numeral_3_eq_3)
  obtain nv R u where u: "call_closure n (xs ! a) a (p_nargs p) True s =
      bnd (link_frame n nv (frame_of (xs ! a) (blank_frame\<lparr>f_R := R\<rparr>) up p) a True) (\<lambda>_. enter nv) u"
    "ptr_p nv" "sly_heap u (GET_ADDR nv) = Some (SFrame (blank_frame\<lparr>f_R := R\<rparr>))"
    "vec_at u R (take (p_nargs p) (drop (a + 1) xs) @ replicate (p_nregs p * 2 - p_nargs p) 0)"
    "sly_heap s (GET_ADDR nv) = None" "grows s u" "sly_room 1 u" "cur_frame u = cur_frame s" "open_upvals u = open_upvals s"
    using call_prepared [OF assms(1,2) room assms(4-8), of n True] by blast
  have f: "as_frame (cur_frame s) u = Inr (f, u)"
    using at_frame_run(2) [OF at_frame_grows [OF assms(1) u(6,8)]] u(8) by simp
  let ?g = "\<lparr>f_cont = f_cont f, f_K = p_K p, f_code = p_code p, f_U = up, f_R = R, f_clos = xs ! a, f_pc = p_entry p,
    f_level = f_level f\<rparr>"
  let ?v = "poke nv (SFrame ?g) u"
  have gr: "grows s ?v"
    using u(5,6) by (auto simp: grows_def)
  have "closure_at ?v (f_clos f) up0 pr0 p0"
    using assms(11) gr by (simp add: closure_at_def grows_def)
  then have "close_upvalues n f ?v = Inr ((), ?v)"
    using close_upvalues_none [of ?v f n] assms(10) u(9) by auto
  then have "link_frame n nv (frame_of (xs ! a) (blank_frame\<lparr>f_R := R\<rparr>) up p) a True u = Inr (f_cont f, ?v)"
    using f u(8) assms(9) set_frame_poke [OF u(3)] by (simp add: link_frame_def frame_of_def blank_frame_def)
  then have run: "funcall n prims a (p_nargs p) True s = Inr ((), ?v\<lparr>cur_frame := nv\<rparr>)"
    using u(1) funcall_closure [OF assms(1) a assms(2)] by (simp add: enter_def)
  have "vec_at ?v R (take (p_nargs p) (drop (a + 1) xs) @ replicate (p_nregs p * 2 - p_nargs p) 0)"
    by (rule poke_vec [OF u(4)]) (use u(3,4) in \<open>auto simp: vec_at_def\<close>)
  then show ?thesis
    using run gr u(2)
    by (intro exI [of _ R] exI [of _ "?v\<lparr>cur_frame := nv\<rparr>"]) (simp add: at_frame_def vec_at_def grows_def)
qed

section \<open>Continuations\<close>

lemma continuation_values:
  assumes "at_frame s g ys" and "Suc a < length ys" and "cont_at s (ys ! a) cf pc slot"
    and "ptr_p cf" and "sly_heap s (GET_ADDR cf) = Some (SFrame f)" and "vec_at s (f_R f) xs" and "slot < length xs"
  shows "\<exists>ob. as_cont (ys ! a) s = Inr ((cf, pc, slot, 1, False), s) \<and> as_frame cf s = Inr (f, s) \<and>
    force_args (f_R f) slot a 0 1 s = Inr ((), poke (f_R f) ob s) \<and>
    vec_at (poke (f_R f) ob s) (f_R f) (xs[slot := ys ! Suc a]) \<and>
    sly_heap (poke (f_R f) ob s) (GET_ADDR (cur_frame s)) = Some (SFrame g) \<and>
    sly_heap (poke (f_R f) ob s) (GET_ADDR cf) = Some (SFrame f)"
proof -
  obtain ob where ob: "vector_set (f_R f) slot (ys ! Suc a) s = Inr ((), poke (f_R f) ob s)"
    "vec_at (poke (f_R f) ob s) (f_R f) (xs[slot := ys ! Suc a])"
    using vec_set_poke [OF assms(6,7)] by blast
  have "vector_len (f_R f) s = Inr (length xs, s)"
    using assms(6) vec_at_object(1) by (auto simp: vec_at_def vector_len_def)
  then have "vector_force (f_R f) slot (ys ! Suc a) s = Inr ((), poke (f_R f) ob s)"
    using ob(1) assms(7) by (simp add: vector_force_def)
  then have "force_args (f_R f) slot a 0 1 s = Inr ((), poke (f_R f) ob s)"
    using get_reg_run [OF assms(1), of "Suc a"] assms(2) by (simp add: peek_def)
  moreover have "GET_ADDR (f_R f) \<noteq> GET_ADDR (cur_frame s)" "GET_ADDR (f_R f) \<noteq> GET_ADDR cf"
    using assms(1,5,6) by (auto simp: at_frame_def vec_at_def)
  ultimately show ?thesis
    using ob(2) assms(1,5) cont_at_run [OF assms(3)]
    by (intro exI [of _ ob]) (simp add: at_frame_def as_frame_def sly_obj_at_def)
qed

lemma closure_at_frame:
  "closure_at s v up pr p \<Longrightarrow> sly_heap s (GET_ADDR w) = Some (SFrame f) \<Longrightarrow> closure_at (poke w ob s) v up pr p"
  by (auto simp: closure_at_def)

lemma funcall_continuation:
  assumes "at_frame s g ys" and "Suc a < length ys" and "cont_at s (ys ! a) cf pc slot"
  shows "funcall n prims a nargs tail s = call_continuation n (ys ! a) a nargs tail s"
  using get_reg_run [OF assms(1), of a] cont_at_run [OF assms(3)] assms(2)
  by (simp add: funcall_def ifM_def peek_def)

lemma set_pc_poke:
  assumes "sly_heap s (GET_ADDR (cur_frame s)) = Some (SFrame f)"
  shows "set_pc q s = Inr ((), poke (cur_frame s) (SFrame (f\<lparr>f_pc := q\<rparr>)) s)"
  using assms set_frame_poke [OF assms] by (simp add: set_pc_def as_frame_def sly_obj_at_def)

text \<open>
  C16: A frame that calls the continuation it was given returns to its caller: the caller's frame is
  current again, at the instruction after the call, with the value in the register the call answers
  in, and every other object is as it was.
\<close>

theorem return_resumes:
  assumes "at_frame s g ys" and "Suc a < length ys" and "cont_at s (ys ! a) cf pc slot" and "f_cont g = ys ! a"
    and "ptr_p cf" and "sly_heap s (GET_ADDR cf) = Some (SFrame f)" and "vec_at s (f_R f) xs" and "slot < length xs"
    and "open_upvals s = 0" and "closure_at s (f_clos g) up pr p"
  shows "\<exists>t. funcall n prims a nargs tail s = Inr ((), t) \<and> cur_frame t = cf \<and>
    at_frame t (f\<lparr>f_pc := pc\<rparr>) (xs[slot := ys ! Suc a]) \<and>
    (\<forall>b. b \<noteq> GET_ADDR cf \<longrightarrow> b \<noteq> GET_ADDR (f_R f) \<longrightarrow> sly_heap t b = sly_heap s b)"
proof -
  obtain ob where ob: "as_cont (ys ! a) s = Inr ((cf, pc, slot, 1, False), s)" "as_frame cf s = Inr (f, s)"
    "force_args (f_R f) slot a 0 1 s = Inr ((), poke (f_R f) ob s)"
    "vec_at (poke (f_R f) ob s) (f_R f) (xs[slot := ys ! Suc a])"
    "sly_heap (poke (f_R f) ob s) (GET_ADDR (cur_frame s)) = Some (SFrame g)"
    "sly_heap (poke (f_R f) ob s) (GET_ADDR cf) = Some (SFrame f)"
    using continuation_values [OF assms(1-3,5-8)] by blast
  let ?u = "poke (f_R f) ob s"
  have "closure_at ?u (f_clos g) up pr p"
    using assms(7,10) by (auto simp: closure_at_def vec_at_def)
  then have "close_upvalues n g ?u = Inr ((), ?u)"
    using close_upvalues_none [of ?u g n] assms(9) by auto
  moreover have "as_frame (cur_frame s) ?u = Inr (g, ?u)"
    using ob(5) by (simp add: as_frame_def sly_obj_at_def)
  moreover have "set_pc pc (?u\<lparr>cur_frame := cf\<rparr>) = Inr ((), poke cf (SFrame (f\<lparr>f_pc := pc\<rparr>)) (?u\<lparr>cur_frame := cf\<rparr>))"
    using set_pc_poke [of "?u\<lparr>cur_frame := cf\<rparr>" f pc] ob(6) by simp
  ultimately have run: "funcall n prims a nargs tail s = Inr ((), poke cf (SFrame (f\<lparr>f_pc := pc\<rparr>)) (?u\<lparr>cur_frame := cf\<rparr>))"
    using funcall_continuation [OF assms(1-3)] ob(1-3) assms(4) by (simp add: call_continuation_def enter_def del: force_args.simps)
  have "vec_at (poke cf (SFrame (f\<lparr>f_pc := pc\<rparr>)) (?u\<lparr>cur_frame := cf\<rparr>)) (f_R f) (xs[slot := ys ! Suc a])"
    using ob(4,6) by (auto simp: vec_at_def)
  then show ?thesis
    using run assms(5)
    by (intro exI [of _ "poke cf (SFrame (f\<lparr>f_pc := pc\<rparr>)) (?u\<lparr>cur_frame := cf\<rparr>)"]) (simp add: at_frame_def)
qed

text \<open>
  Calling the continuation of another frame, outside a tail position, also rewrites where that
  frame returns: to a new continuation of the calling frame, so the frame that is resumed, which
  should leave the caller behind, comes back to it.
\<close>

theorem foreign_continuation_redirects:
  assumes "at_frame s g ys" and "Suc a < length ys" and "cont_at s (ys ! a) cf pc slot" and "f_cont g \<noteq> ys ! a"
    and "TOP_LEVEL_P g \<or> \<not> tail" and "GET_ADDR cf \<noteq> GET_ADDR (cur_frame s)"
    and "ptr_p cf" and "sly_heap s (GET_ADDR cf) = Some (SFrame f)" and "vec_at s (f_R f) xs" and "slot < length xs"
    and "open_upvals s = 0" and "closure_at s (f_clos g) up pr p" and "sly_room 1 s"
  shows "\<exists>k t. funcall n prims a nargs tail s = Inr ((), t) \<and> cur_frame t = cf \<and>
    at_frame t (f\<lparr>f_pc := pc, f_cont := k\<rparr>) (xs[slot := ys ! Suc a]) \<and>
    cont_at t k (cur_frame s) (f_pc g) a \<and> sly_heap t (GET_ADDR (cur_frame s)) = Some (SFrame g)"
proof -
  obtain ob where ob: "as_cont (ys ! a) s = Inr ((cf, pc, slot, 1, False), s)" "as_frame cf s = Inr (f, s)"
    "force_args (f_R f) slot a 0 1 s = Inr ((), poke (f_R f) ob s)"
    "vec_at (poke (f_R f) ob s) (f_R f) (xs[slot := ys ! Suc a])"
    "sly_heap (poke (f_R f) ob s) (GET_ADDR (cur_frame s)) = Some (SFrame g)"
    "sly_heap (poke (f_R f) ob s) (GET_ADDR cf) = Some (SFrame f)"
    using continuation_values [OF assms(1-3,7-10)] by blast
  let ?u = "poke (f_R f) ob s" and ?c = "SCont (cur_frame s) (f_pc g) a 1 False"
  have "sly_room (Suc 0) ?u"
    using room_obj_set [of 1 s] assms(9,13) by (auto simp: vec_at_def poke_def)
  note c = new_obj_run(1-3) [OF this, of ?c] new_obj_run(4-6) [OF this]
  let ?k = "of_nat (sly_next ?u) :: sly_value"
  let ?v = "new_obj ?c ?u"
  let ?w = "poke cf (SFrame (f\<lparr>f_cont := ?k\<rparr>)) ?v"
  have cfv: "sly_heap ?v (GET_ADDR cf) = Some (SFrame f)"
    using c(3) ob(6) unfolding grows_def by blast
  have "closure_at ?u (f_clos g) up pr p"
    using assms(9,12) by (auto simp: closure_at_def vec_at_def)
  then have "closure_at ?v (f_clos g) up pr p"
    using c(3) by (auto simp: closure_at_def grows_def)
  then have "closure_at ?w (f_clos g) up pr p"
    by (rule closure_at_frame [OF _ cfv])
  then have "close_upvalues n g ?w = Inr ((), ?w)"
    using close_upvalues_none [of ?w g n] assms(11) by auto
  moreover have "as_frame (cur_frame s) ?u = Inr (g, ?u)"
    using ob(5) by (simp add: as_frame_def sly_obj_at_def)
  moreover have "as_frame cf ?v = Inr (f, ?v)"
    using cfv by (simp add: as_frame_def sly_obj_at_def del: new_obj_sel poke_sel)
  moreover have "set_pc pc (?w\<lparr>cur_frame := cf\<rparr>) =
      Inr ((), poke cf (SFrame (f\<lparr>f_cont := ?k, f_pc := pc\<rparr>)) (?w\<lparr>cur_frame := cf\<rparr>))"
    using set_pc_poke [of "?w\<lparr>cur_frame := cf\<rparr>" "f\<lparr>f_cont := ?k\<rparr>" pc] by simp
  moreover have "\<not> (\<not> TOP_LEVEL_P g \<and> tail)"
    using assms(5) by blast
  ultimately have run: "funcall n prims a nargs tail s =
      Inr ((), poke cf (SFrame (f\<lparr>f_cont := ?k, f_pc := pc\<rparr>)) (?w\<lparr>cur_frame := cf\<rparr>))"
    using funcall_continuation [OF assms(1-3)] ob(1-3) assms(4) c(1) set_frame_poke [OF cfv] poke_sel(2) [of "f_R f" ob s]
    by (auto simp add: call_continuation_def make_continuation_def enter_def del: force_args.simps new_obj_sel poke_sel)
  let ?t = "poke cf (SFrame (f\<lparr>f_cont := ?k, f_pc := pc\<rparr>)) (?w\<lparr>cur_frame := cf\<rparr>)"
  have "vec_at ?v (f_R f) (xs[slot := ys ! Suc a])"
    by (rule vec_at_grows [OF ob(4) c(3)])
  moreover have "GET_ADDR (f_R f) \<noteq> GET_ADDR cf"
    using assms(8,9) by (auto simp: vec_at_def)
  ultimately have "vec_at ?t (f_R f) (xs[slot := ys ! Suc a])"
    by (simp add: vec_at_def)
  moreover have "sly_next ?u \<noteq> GET_ADDR cf"
    using c(6) ob(6) by (metis option.distinct(1))
  then have "cont_at ?t ?k (cur_frame s) (f_pc g) a"
    using c(4,5) by (simp add: cont_at_def)
  moreover have "sly_heap ?t (GET_ADDR (cur_frame s)) = Some (SFrame g)"
    using c(3) ob(5) assms(6) by (simp add: grows_def)
  ultimately show ?thesis
    using run assms(7)
    by (intro exI [of _ ?k] exI [of _ ?t]) (simp add: at_frame_def)
qed

text \<open>
  C18: \<open>call/cc\<close> enters the closure with the continuation of the call, which answers in register
  \<open>a\<close> of the caller, in its first register. The assertion on its arity is an assignment: whatever
  number of arguments the closure took, from now on its prototype takes one.
\<close>

theorem call_cc_enters:
  assumes "at_frame s f xs" and "b < length xs" and "closure_at s (xs ! b) up pr p" and "sly_room 3 s"
    and "0 < p_nregs p" and "p_nregs p < REG_MAX" and "TOP_LEVEL_P f \<or> \<not> tail"
  shows "\<exists>k R t. call_cc n a b tail s = Inr ((), t) \<and>
    at_frame t \<lparr>f_cont = k, f_K = p_K p, f_code = p_code p, f_U = up, f_R = R, f_clos = xs ! b, f_pc = p_entry p,
        f_level = f_level f + 1\<rparr> (k # replicate (p_nregs p * 2 - 1) 0) \<and>
    cont_at t k (cur_frame s) (f_pc f) a \<and> sly_heap t (GET_ADDR pr) = Some (SProto (p\<lparr>p_nargs := 1\<rparr>))"
proof -
  let ?p = "p\<lparr>p_nargs := 1\<rparr>"
  let ?s = "poke pr (SProto ?p) s"
  have pr: "sly_heap s (GET_ADDR pr) = Some (SProto p)"
    using assms(3) by (simp add: closure_at_def)
  have f1: "at_frame ?s f xs"
    using assms(1) pr by (auto simp: at_frame_def vec_at_def)
  have c1: "as_proto pr ?s = Inr (?p, ?s)"
    by (simp add: as_proto_def sly_obj_at_def)
  have "sly_room (Suc (Suc 1)) ?s"
    using room_obj_set [OF assms(4) pr] by (simp add: poke_def numeral_3_eq_3)
  then obtain nv R t where t: "make_stack (p_nregs p) ?s = Inr (nv, t)" "ptr_p nv"
    "sly_heap t (GET_ADDR nv) = Some (SFrame (blank_frame\<lparr>f_R := R\<rparr>))" "vec_at t R (replicate (p_nregs p * 2) 0)"
    "sly_heap ?s (GET_ADDR nv) = None" "grows ?s t" "sly_room 1 t" "cur_frame t = cur_frame ?s"
    using make_stack_run [OF _ assms(5,6)] by blast
  have f: "as_frame (cur_frame s) t = Inr (f, t)"
    using at_frame_run(2) [OF at_frame_grows [OF f1 t(6,8)]] t(8) by simp
  let ?k = "of_nat (sly_next t) :: sly_value" and ?c = "SCont (cur_frame s) (f_pc f) a 1 False"
  let ?g = "\<lparr>f_cont = ?k, f_K = p_K p, f_code = p_code p, f_U = up, f_R = R, f_clos = xs ! b, f_pc = p_entry p,
    f_level = f_level f + 1\<rparr>"
  have "sly_room (Suc 0) t"
    using t(7) by simp
  note c = new_obj_run(1-3) [OF this, of ?c] new_obj_run(4-6) [OF this]
  let ?v = "poke nv (SFrame ?g) (new_obj ?c t)"
  have nv: "sly_heap (new_obj ?c t) (GET_ADDR nv) = Some (SFrame (blank_frame\<lparr>f_R := R\<rparr>))"
    using c(3) t(3) by (simp add: grows_def)
  have link: "link_frame n nv (frame_of (xs ! b) (blank_frame\<lparr>f_R := R\<rparr>) up ?p) a tail t = Inr (?k, ?v)"
    using f t(8) c(1) assms(7) set_frame_poke [OF nv]
    by (auto simp: link_frame_def make_continuation_def frame_of_def blank_frame_def)
  have "vec_at ?v R (replicate (p_nregs p * 2) 0)"
    by (rule poke_vec [OF vec_at_grows [OF t(4) c(3)]]) (use t(3,4) in \<open>auto simp: vec_at_def\<close>)
  moreover have "(replicate (p_nregs p * 2) 0)[0 := ?k] = ?k # replicate (p_nregs p * 2 - 1) 0"
    using assms(5) by (cases "p_nregs p") simp_all
  ultimately obtain ob where ob: "vector_set R 0 ?k ?v = Inr ((), poke R ob ?v)"
    "vec_at (poke R ob ?v) R (?k # replicate (p_nregs p * 2 - 1) 0)"
    using vec_set_poke [of ?v R "replicate (p_nregs p * 2) 0" 0 ?k] assms(5) by auto
  have apart: "GET_ADDR R \<noteq> GET_ADDR nv" "GET_ADDR R \<noteq> sly_next t" "GET_ADDR nv \<noteq> sly_next t"
      "GET_ADDR pr \<noteq> GET_ADDR R" "GET_ADDR pr \<noteq> GET_ADDR nv" "GET_ADDR pr \<noteq> sly_next t"
    and prt: "sly_heap t (GET_ADDR pr) = Some (SProto ?p)"
    using t(3-6) c(6) by (auto simp: vec_at_def grows_def)
  have "get_reg b s = Inr (xs ! b, s)"
    using get_reg_run [OF assms(1), of b] assms(2) by (simp add: peek_def)
  moreover have "as_frame nv t = Inr (blank_frame\<lparr>f_R := R\<rparr>, t)"
    using t(3) by (simp add: as_frame_def sly_obj_at_def)
  moreover have "sly_obj_set pr (SProto ?p) s = Inr ((), ?s)"
    using pr by (simp add: sly_obj_set_def poke_def)
  ultimately have run: "call_cc n a b tail s = Inr ((), (poke R ob ?v)\<lparr>cur_frame := nv\<rparr>)"
    using closure_at_run [OF assms(3)] c1 t(1) link ob(1)
    by (simp add: call_cc_def ifM_def enter_def del: poke_sel)
  show ?thesis
    using run ob(2) apart prt t(2) c(4,5)
    by (intro exI [of _ ?k] exI [of _ R] exI [of _ "(poke R ob ?v)\<lparr>cur_frame := nv\<rparr>"])
      (simp add: at_frame_def vec_at_def cont_at_def)
qed

section \<open>Examples\<close>

definition demo_proto :: "nat \<Rightarrow> prototype" where
  "demo_proto m = \<lparr>p_uplist = 32, p_K = 32, p_code = 32, p_entry = 3, p_nregs = 2, p_nargs = m, p_nvars = 1, p_has_varg = False,
     p_syntax_info = 32, p_binding = SLY_NULL\<rparr>"

definition caller_frame :: "sly_value \<Rightarrow> stack_frame" where
  "caller_frame k = \<lparr>f_cont = k, f_K = 32, f_code = 32, f_U = 32, f_R = 16, f_clos = 48, f_pc = 9, f_level = 1\<rparr>"

definition outer_frame :: stack_frame where
  "outer_frame = \<lparr>f_cont = SLY_NULL, f_K = 32, f_code = 32, f_U = 32, f_R = 128, f_clos = SLY_NULL, f_pc = 4, f_level = 0\<rparr>"

text \<open>
  A frame that holds a closure of \<open>m\<close> arguments, an argument and the continuation of an outer frame, and that returns
  to \<open>k\<close>.
\<close>

definition calls_demo :: "nat \<Rightarrow> sly_value \<Rightarrow> sly_state" where
  "calls_demo m k = sly_start\<lparr>sly_next := 144, cur_frame := 80, sly_heap := [16 \<mapsto> SVector 4 (map Some [48, SLY_TRUE, 96, SLY_FALSE]),
     32 \<mapsto> SVector 0 [Some 0], 48 \<mapsto> SClosure 32 64, 64 \<mapsto> SProto (demo_proto m), 80 \<mapsto> SFrame (caller_frame k),
     96 \<mapsto> SCont 112 5 1 1 False, 112 \<mapsto> SFrame outer_frame, 128 \<mapsto> SVector 2 [Some 0, Some 0]]\<rparr>"

lemma calls_demo_facts:
  "at_frame (calls_demo m k) (caller_frame k) [48, SLY_TRUE, 96, SLY_FALSE]" "closure_at (calls_demo m k) 48 32 64 (demo_proto m)"
  "cont_at (calls_demo m k) 96 112 5 1" "ptr_p (112 :: sly_value)" "sly_heap (calls_demo m k) (GET_ADDR 112) = Some (SFrame outer_frame)"
  "vec_at (calls_demo m k) (f_R outer_frame) [0, 0]" "open_upvals (calls_demo m k) = 0" "cur_frame (calls_demo m k) = 80"
  by (auto simp: calls_demo_def sly_start_def at_frame_def closure_at_def cont_at_def vec_at_def caller_frame_def outer_frame_def
      ptr_p_def void_p_def SLY_VOID_def GET_ADDR_def TAG_MASK_def)

lemma calls_demo_room: "sly_room 3 (calls_demo m k)"
  by (auto simp: calls_demo_def sly_start_def sly_room_def heap_fine_def)

lemma three: "replicate 3 x = [x, x, x]"
  by (simp add: numeral_eq_Suc)

lemma call_cc_enters_witness:
  "\<exists>k R t. call_cc 0 1 0 False (calls_demo 2 96) = Inr ((), t) \<and>
    at_frame t \<lparr>f_cont = k, f_K = 32, f_code = 32, f_U = 32, f_R = R, f_clos = 48, f_pc = 3, f_level = 2\<rparr> [k, 0, 0, 0] \<and>
    cont_at t k 80 9 1 \<and> sly_heap t 64 = Some (SProto (demo_proto 1))"
proof -
  have "closure_at (calls_demo 2 96) ([48, SLY_TRUE, 96, SLY_FALSE] ! 0) 32 64 (demo_proto 2)"
    using calls_demo_facts(2) by simp
  from call_cc_enters [OF calls_demo_facts(1) _ this calls_demo_room, of False 0 1] show ?thesis
    using calls_demo_facts(8) [of 2 96]
    by (simp add: demo_proto_def caller_frame_def REG_MAX_def GET_ADDR_def TAG_MASK_def three)
qed

lemma call_enters_witness:
  "(\<exists>k R t. funcall 0 (\<lambda>_. ret) 0 1 False (calls_demo 1 96) = Inr ((), t) \<and>
      at_frame t \<lparr>f_cont = k, f_K = 32, f_code = 32, f_U = 32, f_R = R, f_clos = 48, f_pc = 3, f_level = 2\<rparr>
        [SLY_TRUE, 0, 0, 0] \<and> cont_at t k 80 9 0 \<and> grows (calls_demo 1 96) t) \<and>
    funcall 0 (\<lambda>_. ret) 0 3 False (calls_demo 1 96) = Inl (Assert ''Error wrong number of arguments (188)'')"
proof -
  have "closure_at (calls_demo 1 96) ([48, SLY_TRUE, 96, SLY_FALSE] ! 0) 32 64 (demo_proto 1)"
    using calls_demo_facts(2) by simp
  from call_enters [OF calls_demo_facts(1) this calls_demo_room, of False 0 "\<lambda>_. ret"] show ?thesis
    using calls_demo_facts(8) [of 1 96]
    by (simp add: demo_proto_def caller_frame_def REG_MAX_def three)
qed

lemma tail_call_replaces_witness:
  "\<exists>R t. funcall 0 (\<lambda>_. ret) 0 1 True (calls_demo 1 96) = Inr ((), t) \<and>
    at_frame t \<lparr>f_cont = 96, f_K = 32, f_code = 32, f_U = 32, f_R = R, f_clos = 48, f_pc = 3, f_level = 1\<rparr>
      [SLY_TRUE, 0, 0, 0] \<and> grows (calls_demo 1 96) t"
proof -
  have "closure_at (calls_demo 1 96) ([48, SLY_TRUE, 96, SLY_FALSE] ! 0) 32 64 (demo_proto 1)"
    "closure_at (calls_demo 1 96) (f_clos (caller_frame 96)) 32 64 (demo_proto 1)"
    using calls_demo_facts(2) by (simp_all add: caller_frame_def)
  from tail_call_replaces [OF calls_demo_facts(1) this(1) calls_demo_room _ _ _ _ _ _ calls_demo_facts(7) this(2),
      of 0 "\<lambda>_. ret"] show ?thesis
    by (simp add: demo_proto_def caller_frame_def REG_MAX_def TOP_LEVEL_P_def SLY_NULL_def st_null_def three)
qed

lemma return_resumes_witness:
  "\<exists>t. funcall 0 (\<lambda>_. ret) 2 1 True (calls_demo 1 96) = Inr ((), t) \<and> cur_frame t = 112 \<and>
    at_frame t (outer_frame\<lparr>f_pc := 5\<rparr>) [0, SLY_FALSE] \<and>
    (\<forall>b. b \<noteq> GET_ADDR 112 \<longrightarrow> b \<noteq> GET_ADDR (f_R outer_frame) \<longrightarrow> sly_heap t b = sly_heap (calls_demo 1 96) b)"
proof -
  have "cont_at (calls_demo 1 96) ([48, SLY_TRUE, 96, SLY_FALSE] ! 2) 112 5 1"
    "closure_at (calls_demo 1 96) (f_clos (caller_frame 96)) 32 64 (demo_proto 1)"
    using calls_demo_facts(2,3) by (simp_all add: caller_frame_def)
  from return_resumes [OF calls_demo_facts(1) _ this(1) _ calls_demo_facts(4-6) _ calls_demo_facts(7) this(2),
      of 0 "\<lambda>_. ret" 1 True] show ?thesis
    by (simp add: caller_frame_def)
qed

lemma foreign_continuation_redirects_witness:
  "\<exists>k t. funcall 0 (\<lambda>_. ret) 2 1 False (calls_demo 1 SLY_NULL) = Inr ((), t) \<and> cur_frame t = 112 \<and>
    at_frame t (outer_frame\<lparr>f_pc := 5, f_cont := k\<rparr>) [0, SLY_FALSE] \<and>
    cont_at t k 80 9 2 \<and> sly_heap t 80 = Some (SFrame (caller_frame SLY_NULL))"
proof -
  have "cont_at (calls_demo 1 SLY_NULL) ([48, SLY_TRUE, 96, SLY_FALSE] ! 2) 112 5 1"
    "closure_at (calls_demo 1 SLY_NULL) (f_clos (caller_frame SLY_NULL)) 32 64 (demo_proto 1)"
    "sly_room 1 (calls_demo 1 SLY_NULL)"
    using calls_demo_facts(2,3) room_mono [OF calls_demo_room] by (simp_all add: caller_frame_def)
  from foreign_continuation_redirects [OF calls_demo_facts(1) _ this(1) _ _ _ calls_demo_facts(4-6) _ calls_demo_facts(7) this(2,3),
      of False 0 "\<lambda>_. ret" 1] show ?thesis
    using calls_demo_facts(8) [of 1 SLY_NULL]
    by (simp add: caller_frame_def SLY_NULL_def st_null_def GET_ADDR_def TAG_MASK_def)
qed

end
