(* ===== verification/Sly_Data.thy ===== *)
theory Sly_Data
  imports Sly_Closures
begin

text \<open>
  The remaining data of src/sly_types.c: byte vectors, strings, symbols, syntax objects, user data and
  property lists.  A byte vector's capacity is its length in every call of the sources, and is not
  kept.  The bytes of a small byte's word that the source leaves uninitialised are an argument.
  Where the source leaves the order of evaluation of arguments open, it is from left to right.
\<close>

section \<open>Byte vectors\<close>

definition make_byte_vector :: "nat \<Rightarrow> nat \<Rightarrow> sly_value sly" where
  "make_byte_vector len cap =
     bnd (check (len \<le> cap) ''Error vector length may not exceed its capacity'') (\<lambda>_.
     gc_malloc (SBytes (replicate len 0)))"

definition bytes_of_kind :: "(sly_value \<Rightarrow> bool sly) \<Rightarrow> string \<Rightarrow> sly_value \<Rightarrow> (8 word list) sly" where
  "bytes_of_kind p msg v = bnd (expect (p v) msg) (\<lambda>_. as_bytes v)"

fun fill_bytes :: "nat \<Rightarrow> sly_value \<Rightarrow> sly_value \<Rightarrow> nat \<Rightarrow> unit sly" where
  "fill_bytes 0 bv lst i = fail NoFuel"
| "fill_bytes (Suc n) bv lst i =
     (if null_p lst then ret ()
      else bnd (sly_car lst) (\<lambda>a. bnd (get_int a) (\<lambda>c.
        bnd (check (c \<le> 255) ''Value error value excedes byte max'') (\<lambda>_.
        bnd (as_bytes bv) (\<lambda>bs.
        bnd (check_ub (i < length bs) ''write past the end of the elements'') (\<lambda>_.
        bnd (sly_obj_set bv (SBytes (bs[i := word_of_int c]))) (\<lambda>_.
        bnd (sly_cdr lst) (\<lambda>d. fill_bytes n bv d (Suc i)))))))))"

definition list_to_byte_vector :: "nat \<Rightarrow> sly_value \<Rightarrow> sly_value sly" where
  "list_to_byte_vector n lst =
     bnd (list_len n lst) (\<lambda>len.
     bnd (make_byte_vector len len) (\<lambda>bv.
     bnd (fill_bytes n bv lst 0) (\<lambda>_. ret bv)))"

definition byte_vector_ref :: "sly_value \<Rightarrow> sly_value \<Rightarrow> nat \<Rightarrow> sly_value sly" where
  "byte_vector_ref junk v idx =
     bnd (bytes_of_kind byte_vector_p ''Type Error: Expected byte-vector'' v) (\<lambda>bs.
     bnd (check (idx < length bs) ''Error: Index out of bounds'') (\<lambda>_.
     ret (make_byte junk (sint (bs ! idx)))))"

definition byte_vector_set :: "sly_value \<Rightarrow> nat \<Rightarrow> sly_value \<Rightarrow> unit sly" where
  "byte_vector_set v idx x =
     bnd (bytes_of_kind byte_vector_p ''Type Error: Expected byte-vector'' v) (\<lambda>bs.
     bnd (check (idx < length bs) ''Error: Index out of bounds'') (\<lambda>_.
     bnd (expect (ifM (int_p x) (ret True) (sly_byte_p x)) ''Type Error: Expected integer'') (\<lambda>_.
     bnd (get_int x) (\<lambda>b.
     bnd (check (b \<le> 255) ''Error Number out of range 0-255'') (\<lambda>_.
     sly_obj_set v (SBytes (bs[idx := word_of_int b])))))))"

definition byte_vector_len :: "sly_value \<Rightarrow> nat sly" where
  "byte_vector_len v = bnd (bytes_of_kind byte_vector_p ''Type Error: Expected byte-vector'' v) (\<lambda>bs. ret (length bs))"

section \<open>Strings\<close>

text \<open>The bytes of a string literal of the source.\<close>

definition cstr :: "string \<Rightarrow> 8 word list" where
  "cstr s = map of_char s"

definition sly_make_string :: "8 word list \<Rightarrow> sly_value sly" where
  "sly_make_string bs = gc_malloc (SString bs)"

definition make_uninitialized_string :: "nat \<Rightarrow> sly_value sly" where
  "make_uninitialized_string len = gc_malloc (SString (replicate len 0))"

definition sly_string_ref :: "sly_value \<Rightarrow> sly_value \<Rightarrow> nat \<Rightarrow> sly_value sly" where
  "sly_string_ref junk v idx =
     bnd (bytes_of_kind string_p ''Type Error: Expected string'' v) (\<lambda>bs.
     bnd (check (idx < length bs) ''Error: Index out of bounds'') (\<lambda>_.
     ret (make_byte junk (sint (bs ! idx)))))"

definition sly_string_set :: "sly_value \<Rightarrow> nat \<Rightarrow> sly_value \<Rightarrow> unit sly" where
  "sly_string_set v idx b =
     bnd (bytes_of_kind string_p ''Type Error: Expected string'' v) (\<lambda>bs.
     bnd (check (idx < length bs) ''Error: Index out of bounds'') (\<lambda>_.
     bnd (get_byte b) (\<lambda>i. sly_obj_set v (SString (bs[idx := word_of_int i])))))"

definition string_len :: "sly_value \<Rightarrow> nat sly" where
  "string_len str = bnd (bytes_of_kind string_p ''Type error expected <string>'' str) (\<lambda>bs. ret (length bs))"

text \<open>The characters copied up to the terminating one, which is not kept here.\<close>

definition sly_string_to_cstr :: "sly_value \<Rightarrow> (8 word list) sly" where
  "sly_string_to_cstr = bytes_of_kind string_p ''Type error expected <string>''"

definition sly_string_eq :: "sly_value \<Rightarrow> sly_value \<Rightarrow> bool sly" where
  "sly_string_eq s1 s2 =
     bnd (expect (ifM (both string_p s1 s2) (ret True) (both byte_vector_p s1 s2)) ''Type error expected <string>'') (\<lambda>_.
     bytes_eq s1 s2)"

text \<open>\<open>string_join\<close>: the length of the result, and the loops that copy.\<close>

fun join_len :: "nat \<Rightarrow> sly_value \<Rightarrow> nat \<Rightarrow> nat \<Rightarrow> nat sly" where
  "join_len 0 xs dlen tlen = fail NoFuel"
| "join_len (Suc n) xs dlen tlen =
     (if null_p xs then ret tlen
      else bnd (sly_car xs) (\<lambda>x. bnd (string_len x) (\<lambda>l.
        bnd (sly_cdr xs) (\<lambda>d. join_len n d dlen (tlen + l + dlen)))))"

fun copy_string :: "sly_value \<Rightarrow> sly_value \<Rightarrow> nat \<Rightarrow> sly_value \<Rightarrow> nat \<Rightarrow> nat \<Rightarrow> unit sly" where
  "copy_string junk str i x j 0 = ret ()"
| "copy_string junk str i x j (Suc k) =
     bnd (sly_string_ref junk x j) (\<lambda>b. bnd (sly_string_set str i b) (\<lambda>_. copy_string junk str (Suc i) x (Suc j) k))"

fun join_loop :: "nat \<Rightarrow> sly_value \<Rightarrow> sly_value \<Rightarrow> nat \<Rightarrow> sly_value \<Rightarrow> sly_value \<Rightarrow> nat \<Rightarrow> unit sly" where
  "join_loop 0 junk str i xs delim dlen = fail NoFuel"
| "join_loop (Suc n) junk str i xs delim dlen =
     bnd (sly_cdr xs) (\<lambda>d. bnd (sly_car xs) (\<lambda>x. bnd (string_len x) (\<lambda>slen.
     bnd (copy_string junk str i x 0 slen) (\<lambda>_.
     if null_p d then ret ()
     else bnd (copy_string junk str (i + slen) delim 0 dlen) (\<lambda>_.
       join_loop n junk str (i + slen + dlen) d delim dlen)))))"

definition string_join :: "nat \<Rightarrow> sly_value \<Rightarrow> sly_value \<Rightarrow> sly_value \<Rightarrow> sly_value sly" where
  "string_join n junk ls delim =
     bnd (string_len delim) (\<lambda>dlen.
     if null_p ls then sly_make_string []
     else bnd (join_len n ls dlen 0) (\<lambda>tlen.
       bnd (make_uninitialized_string (tlen - dlen)) (\<lambda>str.
       bnd (join_loop n junk str 0 ls delim dlen) (\<lambda>_. ret str))))"

text \<open>The names of characters.\<close>

fun digits_from :: "nat \<Rightarrow> nat \<Rightarrow> 8 word list" where
  "digits_from base i =
     (if base < 2 \<or> i < base then [if i < 10 then 48 + of_nat i else 87 + of_nat i]
      else digits_from base (i div base) @ [if i mod base < 10 then 48 + of_nat (i mod base) else 87 + of_nat (i mod base)])"

declare digits_from.simps [simp del]

text \<open>A name after \<open>#\<close> and a backslash.\<close>

definition hash_char :: "string \<Rightarrow> 8 word list" where
  "hash_char s = [35, 92] @ cstr s"

definition char_name_cstr :: "int \<Rightarrow> 8 word list" where
  "char_name_cstr c =
     (if c = 10 then hash_char ''newline'' else if c = 7 then hash_char ''alarm''
      else if c = 8 then hash_char ''backspace'' else if c = 32 then hash_char ''space''
      else if c = 12 then hash_char ''page'' else if c = 13 then hash_char ''return''
      else if c = 9 then hash_char ''tab'' else if c = 11 then hash_char ''vtab''
      else if c = 0 then hash_char ''nul'' else if c = 27 then hash_char ''escape''
      else if c = 127 then hash_char ''delete''
      else if c < 0 then hash_char ''x'' @ digits_from 16 (unat (word_of_int c :: 8 word))
      else hash_char '''' @ [word_of_int c])"

definition sly_char_name :: "sly_value \<Rightarrow> sly_value sly" where
  "sly_char_name c = bnd (get_byte c) (\<lambda>i. sly_make_string (char_name_cstr i))"

section \<open>Symbols\<close>

definition rand_byte :: "(8 word) sly" where
  "rand_byte = bnd (gets (\<lambda>s. rand_source s (rand_taken s))) (\<lambda>b.
     bnd (modify (\<lambda>s. s\<lparr>rand_taken := rand_taken s + 1\<rparr>)) (\<lambda>_. ret b))"

fun salt_hash :: "nat \<Rightarrow> 64 word \<Rightarrow> (64 word) sly" where
  "salt_hash 0 h = ret h"
| "salt_hash (Suc k) h = bnd rand_byte (\<lambda>b. salt_hash k (DH h b))"

definition hash_symbol :: "8 word list \<Rightarrow> (64 word) sly" where
  "hash_symbol name = salt_hash 32 (hash_bytes name)"

definition make_uninterned_symbol :: "8 word list \<Rightarrow> sly_value sly" where
  "make_uninterned_symbol name =
     bnd (check (length name \<le> 255) ''Value Error: name exceeds maximum for symbol'') (\<lambda>_.
     bnd (hash_symbol name) (\<lambda>h. gc_malloc (SSymbol h name SLY_NULL)))"

definition make_symbol :: "nat \<Rightarrow> 8 word list \<Rightarrow> sly_value sly" where
  "make_symbol n name =
     bnd (sly_make_string name) (\<lambda>str.
     bnd (gets sly_interned) (\<lambda>interned.
     bnd (dictionary_entry_ref n interned str) (\<lambda>entry.
     ifM (slot_is_free entry)
       (bnd (make_uninterned_symbol name) (\<lambda>sm.
        bnd (dictionary_set n interned str sm) (\<lambda>_. ret sm)))
       (sly_cdr entry))))"

text \<open>\<open>snprintf\<close> stops at a zero byte and cuts at 254 bytes; the counter is read before it is counted on.\<close>

definition next_gensym :: "nat sly" where
  "next_gensym = bnd (gets gensym_counter) (\<lambda>k.
     bnd (modify (\<lambda>s. s\<lparr>gensym_counter := k + 1\<rparr>)) (\<lambda>_. ret k))"

definition gensym_name :: "8 word list \<Rightarrow> nat \<Rightarrow> 8 word list" where
  "gensym_name base k = take 254 (takeWhile (\<lambda>b. b \<noteq> 0) base @ digits_from 10 k)"

definition gensym :: "sly_value \<Rightarrow> sly_value sly" where
  "gensym base =
     bnd (ifM (identifier_p base) (syntax_to_datum base)
         (ifM (symbol_p base) (ret base) (fail (Assert ''Type error expected symbol'')))) (\<lambda>sm.
     bnd (as_symbol sm) (\<lambda>(_, name, _).
     bnd next_gensym (\<lambda>k. make_uninterned_symbol (gensym_name name k))))"

definition gensym_from_cstr :: "8 word list \<Rightarrow> sly_value sly" where
  "gensym_from_cstr base = bnd next_gensym (\<lambda>k. make_uninterned_symbol (gensym_name base k))"

definition symbol_of :: "string \<Rightarrow> sly_value \<Rightarrow> (64 word \<times> 8 word list \<times> sly_value) sly" where
  "symbol_of msg v = bnd (expect (symbol_p v) msg) (\<lambda>_. as_symbol v)"

definition intern_symbol :: "nat \<Rightarrow> sly_value \<Rightarrow> unit sly" where
  "intern_symbol n sm =
     bnd (symbol_of ''Type error expected <symbol>'' sm) (\<lambda>(_, name, _).
     bnd (gets sly_interned) (\<lambda>interned.
     bnd (sly_make_string name) (\<lambda>str. dictionary_set n interned str sm)))"

definition symbol_hash :: "sly_value \<Rightarrow> (64 word) sly" where
  "symbol_hash sm = bnd (symbol_of ''Type error expected <symbol>'' sm) (\<lambda>(h, _). ret h)"

definition symbol_to_cstr :: "sly_value \<Rightarrow> (8 word list) sly" where
  "symbol_to_cstr sm = bnd (symbol_of ''Type error expected <symbol>'' sm) (\<lambda>(_, name, _). ret name)"

definition symbol_set_alias :: "sly_value \<Rightarrow> sly_value \<Rightarrow> unit sly" where
  "symbol_set_alias sm al =
     bnd (symbol_of ''Type Error expected syntax'' sm) (\<lambda>(h, name, _). sly_obj_set sm (SSymbol h name al))"

definition symbol_get_alias :: "sly_value \<Rightarrow> sly_value sly" where
  "symbol_get_alias sm = bnd (symbol_of ''Type Error expected syntax'' sm) (\<lambda>(_, _, al). ret al)"

section \<open>Syntax objects\<close>

definition no_token :: token where
  "no_token = \<lparr>tok_tag = tok_any, tok_so = 0, tok_eo = 0, tok_ln = 0, tok_cn = 0\<rparr>"

definition make_syntax :: "token \<Rightarrow> sly_value \<Rightarrow> sly_value sly" where
  "make_syntax tok datum = gc_malloc (SSyntax tok SLY_NULL datum 0)"

definition syntax_of :: "string \<Rightarrow> sly_value \<Rightarrow> (token \<times> sly_value \<times> sly_value \<times> 32 word) sly" where
  "syntax_of msg v = bnd (expect (syntax_p v) msg) (\<lambda>_. as_syntax v)"

definition shallow_copy_syntax :: "nat \<Rightarrow> sly_value \<Rightarrow> sly_value sly" where
  "shallow_copy_syntax n s =
     bnd (syntax_of ''Type Error expected syntax'' s) (\<lambda>(tok, sc, d, ctx).
     bnd (make_syntax no_token SLY_VOID) (\<lambda>c.
     bnd (if null_p sc then ret SLY_NULL else copy_dictionary n sc) (\<lambda>sc'.
     bnd (sly_obj_set c (SSyntax tok sc' d ctx)) (\<lambda>_. ret c))))"

fun copy_syntax :: "nat \<Rightarrow> sly_value \<Rightarrow> sly_value sly" where
  "copy_syntax 0 s = fail NoFuel"
| "copy_syntax (Suc n) s =
     ifM (syntax_p s) (shallow_copy_syntax (Suc n) s)
     (ifM (pair_p s)
       (bnd (sly_car s) (\<lambda>a. bnd (copy_syntax n a) (\<lambda>x.
        bnd (sly_cdr s) (\<lambda>d. bnd (copy_syntax n d) (\<lambda>y. sly_cons x y)))))
       (ret s))"

definition syntax_set_datum :: "sly_value \<Rightarrow> sly_value \<Rightarrow> unit sly" where
  "syntax_set_datum s datum =
     bnd (syntax_of ''Type Error expected <syntax>'' s) (\<lambda>(tok, sc, _, ctx). sly_obj_set s (SSyntax tok sc datum ctx))"

fun datum_to_syntax :: "nat \<Rightarrow> sly_value \<Rightarrow> sly_value \<Rightarrow> sly_value sly" where
  "datum_to_syntax 0 idn datum = fail NoFuel"
| "datum_to_syntax (Suc n) idn datum =
     bnd (expect (syntax_p idn) ''Type Error expected #<syntax>'') (\<lambda>_.
     if null_p datum \<or> void_p datum then ret datum
     else ifM (syntax_p datum) (ret datum)
       (bnd (shallow_copy_syntax (Suc n) idn) (\<lambda>stx.
        bnd (ifM (pair_p datum)
            (bnd (sly_car datum) (\<lambda>a. bnd (datum_to_syntax n idn a) (\<lambda>x.
             bnd (sly_cdr datum) (\<lambda>d. bnd (datum_to_syntax n idn d) (\<lambda>y.
             bnd (sly_cons x y) (syntax_set_datum stx))))))
            (syntax_set_datum stx datum)) (\<lambda>_.
        ret stx))))"

fun syntax_to_list :: "nat \<Rightarrow> sly_value \<Rightarrow> sly_value sly" where
  "syntax_to_list 0 form = fail NoFuel"
| "syntax_to_list (Suc n) form =
     (let pair = (\<lambda>p. bnd (sly_car p) (\<lambda>a. bnd (syntax_to_list n a) (\<lambda>x.
                bnd (sly_cdr p) (\<lambda>d. bnd (syntax_to_list n d) (\<lambda>y. sly_cons x y))))) in
      ifM (syntax_pair_p form) (bnd (syntax_to_datum form) pair)
      (ifM (pair_p form) (pair form) (ret form)))"

definition syntax_scopes :: "sly_value \<Rightarrow> sly_value sly" where
  "syntax_scopes v = bnd (syntax_of ''Type error expected <syntax>'' v) (\<lambda>(_, sc, _). ret sc)"

definition syntax_get_token :: "sly_value \<Rightarrow> token sly" where
  "syntax_get_token v = bnd (syntax_of ''Type error expected <syntax>'' v) (\<lambda>(tok, _). ret tok)"

text \<open>\<open>strip_syntax\<close> of src/sly_compile.c; its \<open>CAR\<close> and \<open>CDR\<close> are those of the pair here.\<close>

fun strip_syntax :: "nat \<Rightarrow> sly_value \<Rightarrow> sly_value sly" where
  "strip_syntax 0 form = fail NoFuel"
| "strip_syntax (Suc n) form =
     ifM (syntax_pair_p form) (bnd (syntax_to_datum form) (strip_syntax n))
     (ifM (pair_p form)
       (bnd (sly_car form) (\<lambda>a. bnd (strip_syntax n a) (\<lambda>x.
        bnd (sly_cdr form) (\<lambda>d. bnd (strip_syntax n d) (\<lambda>y. sly_cons x y)))))
     (ifM (syntax_p form) (syntax_to_datum form) (ret form)))"

section \<open>User data and property lists\<close>

definition make_user_data :: "nat \<Rightarrow> sly_value sly" where
  "make_user_data data_size = gc_malloc (SUserData SLY_NULL (replicate data_size 0))"

definition user_data_of :: "sly_value \<Rightarrow> (sly_value \<times> 8 word list) sly" where
  "user_data_of v =
     bnd (expect (user_data_p v) ''Type Error expected <user-data>'') (\<lambda>_.
     bnd (sly_obj_at v) (\<lambda>ob.
     case ob of SUserData pl bs \<Rightarrow> ret (pl, bs) | _ \<Rightarrow> fail (UB ''object of another type'')))"

definition user_data_get :: "sly_value \<Rightarrow> (8 word list) sly" where
  "user_data_get v = bnd (user_data_of v) (\<lambda>(_, bs). ret bs)"

text \<open>The source's buffer is \<open>src\<close>, of which as many bytes are copied as the object has.\<close>

definition user_data_set :: "sly_value \<Rightarrow> 8 word list \<Rightarrow> unit sly" where
  "user_data_set v src =
     bnd (user_data_of v) (\<lambda>(pl, bs).
     bnd (check_ub (length bs \<le> length src) ''read past the end of the buffer'') (\<lambda>_.
     sly_obj_set v (SUserData pl (take (length bs) src))))"

definition user_data_get_properties :: "sly_value \<Rightarrow> sly_value sly" where
  "user_data_get_properties v = bnd (user_data_of v) (\<lambda>(pl, _). ret pl)"

definition user_data_set_properties :: "sly_value \<Rightarrow> sly_value \<Rightarrow> unit sly" where
  "user_data_set_properties v plist = bnd (user_data_of v) (\<lambda>(_, bs). sly_obj_set v (SUserData plist bs))"

definition plist_here :: "sly_value \<Rightarrow> sly_value \<Rightarrow> bool sly" where
  "plist_here plist prop =
     bnd (sly_car plist) (\<lambda>a. ifM (sly_eq a prop) (bnd (sly_cdr plist) pair_p) (ret False))"

fun plist_get :: "nat \<Rightarrow> sly_value \<Rightarrow> sly_value \<Rightarrow> sly_value sly" where
  "plist_get 0 plist prop = fail NoFuel"
| "plist_get (Suc n) plist prop =
     (if null_p plist then ret SLY_NULL
      else ifM (plist_here plist prop) (bnd (sly_cdr plist) sly_car)
        (bnd (sly_cdr plist) (\<lambda>d. bnd (sly_cdr d) (\<lambda>rest. plist_get n rest prop))))"

fun plist_put :: "nat \<Rightarrow> sly_value \<Rightarrow> sly_value \<Rightarrow> sly_value \<Rightarrow> sly_value sly" where
  "plist_put 0 plist prop v = fail NoFuel"
| "plist_put (Suc n) plist prop v =
     (if null_p plist then bnd (sly_cons v SLY_NULL) (sly_cons prop)
      else ifM (plist_here plist prop)
        (bnd (sly_cdr plist) (\<lambda>d. bnd (sly_cdr d) (\<lambda>rest. bnd (sly_cons v rest) (sly_cons prop))))
        (bnd (sly_car plist) (\<lambda>k. bnd (sly_cdr plist) (\<lambda>d. bnd (sly_car d) (\<lambda>x. bnd (sly_cdr d) (\<lambda>rest.
         bnd (plist_put n rest prop v) (\<lambda>rest'. bnd (sly_cons x rest') (sly_cons k))))))))"

end
