(* ===== verification/Sly_Patterns.thy ===== *)
theory Sly_Patterns
  imports Sly_Data
begin

text \<open>
  The pattern language of syntax rules (the end of src/sly_types.c): matching a form against a pattern,
  which binds the pattern's variables in a dictionary, and building a form from a template.  Patterns
  and templates are data, which may be circular, so the functions are fuelled.
\<close>

section \<open>Names\<close>

definition ELLIPSIS :: "nat \<Rightarrow> sly_value sly" where "ELLIPSIS n = make_symbol n (cstr ''...'')"
definition EMPTY_PATTERN :: "nat \<Rightarrow> sly_value sly" where "EMPTY_PATTERN n = make_symbol n (cstr ''_'')"
definition EXPANSION_END :: "nat \<Rightarrow> sly_value sly" where "EXPANSION_END n = make_symbol n (cstr ''* END OF EXPANSION *'')"
definition SINGLE :: "nat \<Rightarrow> sly_value sly" where "SINGLE n = make_symbol n (cstr ''* SINGLE *'')"

definition match_id_symbol :: "nat \<Rightarrow> sly_value \<Rightarrow> sly_value \<Rightarrow> bool sly" where
  "match_id_symbol n pattern sm =
     bnd (ifM (identifier_p pattern) (syntax_to_datum pattern) (ret pattern)) (\<lambda>p.
     ifM (symbol_p p) (sly_equal n p sm) (ret False))"

definition match_id_ellipsis :: "nat \<Rightarrow> sly_value \<Rightarrow> bool sly" where
  "match_id_ellipsis n pattern = bnd (ELLIPSIS n) (match_id_symbol n pattern)"

definition match_id_empty_pattern :: "nat \<Rightarrow> sly_value \<Rightarrow> bool sly" where
  "match_id_empty_pattern n pattern = bnd (EMPTY_PATTERN n) (match_id_symbol n pattern)"

fun is_literal :: "nat \<Rightarrow> sly_value \<Rightarrow> sly_value \<Rightarrow> bool sly" where
  "is_literal 0 idn literals = fail NoFuel"
| "is_literal (Suc n) idn literals =
     (if null_p literals then ret False
      else bnd (syntax_to_datum idn) (\<lambda>d. bnd (sly_car literals) (\<lambda>l.
        ifM (sly_equal (Suc n) d l) (ret True) (bnd (sly_cdr literals) (is_literal n idn)))))"

fun id_in :: "nat \<Rightarrow> sly_value \<Rightarrow> sly_value \<Rightarrow> bool sly" where
  "id_in 0 idn xs = fail NoFuel"
| "id_in (Suc n) idn xs =
     (if null_p xs then ret False
      else bnd (sly_car xs) (\<lambda>a.
        ifM (match_id_symbol (Suc n) idn a) (ret True) (bnd (sly_cdr xs) (id_in n idn))))"

section \<open>Pattern variables\<close>

definition pvar_bind :: "nat \<Rightarrow> sly_value \<Rightarrow> sly_value \<Rightarrow> sly_value \<Rightarrow> bool \<Rightarrow> unit sly" where
  "pvar_bind n pvars p f repeat =
     bnd (strip_syntax n p) (\<lambda>key.
     bnd (dictionary_entry_ref n pvars key) (\<lambda>entry.
     if repeat then
       ifM (slot_is_free entry)
         (bnd (sly_cons f SLY_NULL) (dictionary_set n pvars key))
         (bnd (sly_cdr entry) (\<lambda>d. bnd (sly_cons f SLY_NULL) (sly_append n d)))
     else
       ifM (match_id_ellipsis n p)
         (ifM (slot_is_free entry) (dictionary_set n pvars key f)
           (bnd (sly_cdr entry) (\<lambda>d. dictionary_import n d f)))
         (bnd (SINGLE n) (\<lambda>single. bnd (sly_cons single f) (dictionary_set n pvars key)))))"

definition pvar_value :: "nat \<Rightarrow> sly_value \<Rightarrow> sly_value \<Rightarrow> nat \<Rightarrow> sly_value sly" where
  "pvar_value n pvars t idx =
     bnd (strip_syntax n t) (\<lambda>key.
     bnd (dictionary_entry_ref n pvars key) (\<lambda>entry.
     ifM (slot_is_free entry) (ret SLY_VOID)
       (bnd (sly_cdr entry) (\<lambda>v.
        ifM (pair_p v)
          (bnd (SINGLE n) (\<lambda>single. bnd (sly_car v) (\<lambda>a.
           ifM (match_id_symbol n a single) (sly_cdr v)
             (bnd (list_len n v) (\<lambda>len. if idx < len then list_ref v idx else EXPANSION_END n)))))
          (ret v)))))"

text \<open>The names a pattern binds: one symbol for an identifier, a list for a list.\<close>

fun get_pattern_var_names :: "nat \<Rightarrow> sly_value \<Rightarrow> sly_value \<Rightarrow> sly_value sly"
  and pattern_names_loop :: "nat \<Rightarrow> sly_value \<Rightarrow> sly_value \<Rightarrow> sly_value \<Rightarrow> sly_value sly" where
  "get_pattern_var_names 0 pattern literals = fail NoFuel"
| "get_pattern_var_names (Suc n) pattern literals =
     ifM (ifM (identifier_p pattern)
           (ifM (is_literal n pattern literals) (ret False)
           (ifM (match_id_ellipsis n pattern) (ret False)
           (ifM (match_id_empty_pattern n pattern) (ret False) (ret True)))) (ret False))
       (syntax_to_datum pattern)
     (ifM (pair_p pattern) (pattern_names_loop n pattern literals SLY_NULL) (ret SLY_NULL))"
| "pattern_names_loop 0 p literals names = fail NoFuel"
| "pattern_names_loop (Suc n) p literals names =
     ifM (pair_p p)
       (bnd (sly_car p) (\<lambda>a. bnd (get_pattern_var_names n a literals) (\<lambda>name.
        bnd (ifM (pair_p name) (bnd (sly_append n name names) (\<lambda>_. ret name))
             (if null_p name then ret names else sly_cons name names)) (\<lambda>names'.
        bnd (sly_cdr p) (\<lambda>d. pattern_names_loop n d literals names')))))
     (ifM (identifier_p p) (bnd (syntax_to_datum p) (\<lambda>d. sly_cons d names)) (ret names))"

section \<open>Matching\<close>

definition chk_ellipsis :: "nat \<Rightarrow> sly_value \<Rightarrow> bool sly" where
  "chk_ellipsis n pattern =
     bnd (sly_cdr pattern) (\<lambda>d. bnd (sly_car d) (\<lambda>f. bnd (ELLIPSIS n) (match_id_symbol n f)))"

text \<open>\<open>if (pair_p (v)) v = cdr (v)\<close>.\<close>

definition step_over :: "sly_value \<Rightarrow> sly_value sly" where
  "step_over v = ifM (pair_p v) (sly_cdr v) (ret v)"

text \<open>What is left of the pattern and the form when one of them is no pair any more.\<close>

definition match_end :: "nat \<Rightarrow> sly_value \<Rightarrow> sly_value \<Rightarrow> sly_value \<Rightarrow> bool \<Rightarrow> bool sly" where
  "match_end n pattern form pvars repeat =
     (if null_p pattern \<and> \<not> null_p form then ret False
      else ifM (pair_p pattern)
        (bnd (list_len n pattern) (\<lambda>len.
         if len \<noteq> 2 then ret False
         else bnd (sly_cdr pattern) (\<lambda>d. bnd (sly_car d) (\<lambda>e.
           ifM (match_id_ellipsis n e) (ret (null_p form)) (ret False)))))
        (bnd (ifM (identifier_p pattern) (pvar_bind n pvars pattern form repeat) (ret ())) (\<lambda>_. ret True)))"

fun match_syntax :: "nat \<Rightarrow> sly_value \<Rightarrow> sly_value \<Rightarrow> sly_value \<Rightarrow> sly_value \<Rightarrow> bool \<Rightarrow> bool sly"
  and match_list :: "nat \<Rightarrow> sly_value \<Rightarrow> sly_value \<Rightarrow> sly_value \<Rightarrow> sly_value \<Rightarrow> bool \<Rightarrow> bool sly"
  and match_reps :: "nat \<Rightarrow> sly_value \<Rightarrow> sly_value \<Rightarrow> sly_value \<Rightarrow> sly_value \<Rightarrow> sly_value sly" where
  "match_syntax 0 pattern literals form pvars repeat = fail NoFuel"
| "match_syntax (Suc n) pattern literals form pvars repeat =
     ifM (identifier_p pattern)
       (ifM (is_literal n pattern literals) (identifier_eq pattern form)
       (ifM (match_id_empty_pattern n pattern) (ret True)
         (bnd (pvar_bind n pvars pattern form repeat) (\<lambda>_. ret True))))
       (match_list n pattern literals form pvars repeat)"
| "match_list 0 pattern literals form pvars repeat = fail NoFuel"
| "match_list (Suc n) pattern literals form pvars repeat =
     ifM (ifM (pair_p pattern) (pair_p form) (ret False))
       (bnd (sly_car pattern) (\<lambda>p. bnd (sly_car form) (\<lambda>f. bnd (sly_cdr pattern) (\<lambda>rest.
        ifM (ifM (pair_p rest) (chk_ellipsis n pattern) (ret False))
          (bnd make_dictionary (\<lambda>repvars.
           bnd (match_reps n p literals form repvars) (\<lambda>form'.
           bnd (ELLIPSIS n) (\<lambda>e. bnd (pvar_bind n pvars e repvars repeat) (\<lambda>_.
           bnd (step_over rest) (\<lambda>pattern'. bnd (step_over form') (\<lambda>form''.
           match_list n pattern' literals form'' pvars repeat)))))))
          (bnd (ifM (identifier_p p)
                 (ifM (is_literal n p literals) (identifier_eq p f)
                 (ifM (match_id_empty_pattern n pattern) (ret True)
                   (bnd (pvar_bind n pvars p f repeat) (\<lambda>_. ret True))))
               (ifM (pair_p p)
                 (ifM (ifM (pair_p f) (ret True) (ret (null_p f)))
                   (match_syntax n p literals f pvars repeat) (ret False))
               (ret (\<not> (null_p p \<and> \<not> null_p f))))) (\<lambda>ok.
           if \<not> ok then ret False
           else bnd (step_over pattern) (\<lambda>pattern'. bnd (step_over form) (\<lambda>form'.
             match_list n pattern' literals form' pvars repeat))))))))
       (match_end n pattern form pvars repeat)"
| "match_reps 0 p literals form repvars = fail NoFuel"
| "match_reps (Suc n) p literals form repvars =
     ifM (ifM (pair_p form) (bnd (sly_car form) (\<lambda>f. match_syntax n p literals f repvars True)) (ret False))
       (bnd (sly_cdr form) (\<lambda>d. match_reps n p literals d repvars))
       (ret form)"

section \<open>Building\<close>

fun syntax_contains :: "nat \<Rightarrow> sly_value \<Rightarrow> sly_value \<Rightarrow> bool sly" where
  "syntax_contains 0 s v = fail NoFuel"
| "syntax_contains (Suc n) s v =
     (if null_p s then ret False
      else ifM (pair_p s)
        (bnd (sly_car s) (\<lambda>a. ifM (syntax_contains n a v) (ret True)
          (bnd (sly_cdr s) (\<lambda>d. syntax_contains n d v))))
        (sly_equal n s v))"

fun construct_syntax :: "nat \<Rightarrow> sly_value \<Rightarrow> sly_value \<Rightarrow> sly_value \<Rightarrow> nat \<Rightarrow> sly_value sly"
  and construct_reps :: "nat \<Rightarrow> sly_value \<Rightarrow> sly_value \<Rightarrow> sly_value \<Rightarrow> nat \<Rightarrow> sly_value \<Rightarrow> sly_value sly" where
  "construct_syntax 0 template pvars names idx = fail NoFuel"
| "construct_syntax (Suc n) template pvars names idx =
     (if null_p template then ret template
      else ifM (identifier_p template)
        (bnd (pvar_value n pvars template idx) (\<lambda>x.
         if void_p x then ifM (id_in n template names) (EXPANSION_END n) (ret template) else ret x))
      (ifM (pair_p template)
        (bnd (sly_car template) (\<lambda>h. bnd (sly_cdr template) (\<lambda>t.
         ifM (ifM (pair_p t) (bnd (sly_car t) (match_id_ellipsis n)) (ret False))
           (bnd (ELLIPSIS n) (\<lambda>e. bnd (pvar_value n pvars e idx) (\<lambda>sub.
            bnd (sly_cdr t) (\<lambda>rest.
            ifM (if void_p sub then ret True else bnd (EXPANSION_END n) (match_id_symbol n sub))
              (construct_syntax n rest pvars names idx)
              (bnd make_dictionary (\<lambda>expvars.
               bnd (dictionary_import n expvars pvars) (\<lambda>_.
               bnd (dictionary_import n expvars sub) (\<lambda>_.
               bnd (construct_reps n h expvars names 0 SLY_NULL) (\<lambda>f.
               bnd (construct_syntax n rest pvars names idx) (\<lambda>tl.
               if null_p f then ret tl else bnd (sly_append n f tl) (\<lambda>_. ret f)))))))))))
           (bnd (construct_syntax n h pvars names idx) (\<lambda>x.
            bnd (construct_syntax n t pvars names idx) (\<lambda>y. sly_cons x y))))))
      (ret template)))"
| "construct_reps 0 h expvars names i f = fail NoFuel"
| "construct_reps (Suc n) h expvars names i f =
     bnd (construct_syntax n h expvars names i) (\<lambda>x.
     bnd (EXPANSION_END n) (\<lambda>e.
     ifM (syntax_contains n x e) (ret f)
       (bnd (sly_cons x SLY_NULL) (\<lambda>c.
        if null_p f then construct_reps n h expvars names (i + 1) c
        else bnd (sly_append n f c) (\<lambda>_. construct_reps n h expvars names (i + 1) f)))))"

end
