(* ===== verification/Scm_Types.thy ===== *)
theory Scm_Types
  imports Scm_Arith
begin

text \<open>
  The types of the results of arithmetic in the compiled program (scheme/scm_runtime.c): doubles share
  their words with the tagged values.
\<close>

unbundle bit_operations_syntax

section \<open>Doubles as values\<close>

lemma xor_zero: "(x :: u64) XOR a = 0 \<longleftrightarrow> x = a"
  by (auto simp: bit_eq_iff bit_simps)

lemma FLOAT_P_exponent: "FLOAT_P v \<longleftrightarrow> (unat v div 2 ^ 52) mod 2 ^ 11 \<noteq> 2 ^ 11 - 1"
proof -
  have "(mask 11 :: u64) = 0x7ff"
    by (simp add: mask_eq_exp_minus_1)
  then have a: "drop_bit 52 v AND 0x7ff = take_bit 11 (drop_bit 52 v)"
    unfolding take_bit_eq_mask by simp
  have n: "unat (0x7ff :: u64) = 2 ^ 11 - 1"
    by simp
  have "unat v < 2 ^ LENGTH(64)"
    by (rule unsigned_less)
  then have u: "unat (take_bit 11 (drop_bit 52 v)) = (unat v div 2 ^ 52) mod 2 ^ 11"
    unfolding unsigned_take_bit_eq unsigned_drop_bit_eq by (simp add: take_bit_eq_mod drop_bit_eq_div)
  have "FLOAT_P v \<longleftrightarrow> unat (take_bit 11 (drop_bit 52 v)) \<noteq> unat (0x7ff :: u64)"
    unfolding FLOAT_P_def a xor_zero by (simp only: word_unat_eq_iff)
  then show ?thesis
    unfolding u n .
qed

lemma decode_float: "FLOAT_P v \<Longrightarrow> \<exists>sg m e. f64_decode v = Fin sg m e"
  by (auto simp: FLOAT_P_exponent f64_decode_def fp_decode_def Let_def)

definition special_double :: "u64 \<Rightarrow> bool" where
  "special_double v \<longleftrightarrow> v = f64_inf False \<or> v = f64_inf True \<or> v = f64_default_nan"

lemma fp_round_range: "\<exists>k\<le>2047 * 2 ^ 52. fp_round 52 11 sg m e = (if sg then 2 ^ 63 else 0) + k"
  unfolding fp_round_def Let_def by (cases "m = 0") auto

lemma pack_double: "FLOAT_P (f64_pack sg m e) \<or> f64_pack sg m e = f64_inf sg"
proof -
  obtain k where k: "k \<le> 2047 * 2 ^ 52" "fp_round 52 11 sg m e = (if sg then 2 ^ 63 else 0) + k"
    using fp_round_range by blast
  show ?thesis
  proof (cases "k = 2047 * 2 ^ 52")
    case True
    then show ?thesis
      using k(2) by (simp add: f64_pack_def f64_inf_def)
  next
    case False
    then have lt: "k div 2 ^ 52 < 2047"
      using k(1) by (simp add: less_mult_imp_div_less)
    let ?n = "(if sg then 2 ^ 63 else 0) + k"
    have "?n < 2 ^ 64"
      using k(1) by simp
    then have u: "unat (f64_pack sg m e) = ?n"
      unfolding f64_pack_def k(2) unat_of_nat by (simp add: mod_less)
    have "?n div 2 ^ 52 = (if sg then 2048 else 0) + k div 2 ^ 52"
      by auto
    then have "(?n div 2 ^ 52) mod 2 ^ 11 = k div 2 ^ 52"
      using lt by auto
    then show ?thesis
      using lt u by (simp add: FLOAT_P_exponent)
  qed
qed


lemma special_double:
  assumes "special_double v"
  shows "\<not> INTEGER_P v" "\<not> FLOAT_P v"
  using assms by (auto simp: special_double_def f64_inf_def f64_default_nan_def INTEGER_P_def TYPEOF_def NB_def NAN_BITS_def FLOAT_P_exponent)

text \<open>What an operand stands for in double arithmetic.\<close>

definition finite_double :: "u64 \<Rightarrow> bool" where
  "finite_double v \<longleftrightarrow> (\<exists>sg m e. f64_decode v = Fin sg m e)"

lemma finite_operand: "FLOAT_P v \<Longrightarrow> finite_double (get_float v)" "finite_double (f64_of_i32 v)"  "finite_double (f64_of_int (int_of v))"
proof -
  show "FLOAT_P v \<Longrightarrow> finite_double (get_float v)"
    using decode_float by (simp add: finite_double_def get_float_def)
  have "\<bar>int_of v\<bar> < 2 ^ 53"
    using sint32_i32 [of "GET_INTEGRAL v"] by (auto simp: int_of_def is_i32_def INT32_MAX_def INT32_MIN_def)
  then show "finite_double (f64_of_int (int_of v))" "finite_double (f64_of_i32 v)"
    using decode_of_int by (fastforce simp: finite_double_def f64_of_i32_def)+
qed

definition double_result :: "u64 \<Rightarrow> bool" where
  "double_result v \<longleftrightarrow> FLOAT_P v \<or> special_double v"

lemma pack_result [simp]: "double_result (f64_pack sg m e)"
  using pack_double [of sg m e] by (cases sg) (auto simp: double_result_def special_double_def)

lemma inf_result [simp]: "double_result (f64_inf sg)" "double_result f64_default_nan"
  by (cases sg; simp add: double_result_def special_double_def) (simp add: double_result_def special_double_def)

lemma double_ops:
  assumes "finite_double a" and "finite_double b"
  shows "double_result (f64_add a b)" "double_result (f64_sub a b)" "double_result (f64_mul a b)" "double_result (f64_div a b)"
proof -
  obtain s1 m1 e1 s2 m2 e2 where d: "f64_decode a = Fin s1 m1 e1" "f64_decode b = Fin s2 m2 e2"
    using assms by (auto simp: finite_double_def)
  show "double_result (f64_add a b)" "double_result (f64_sub a b)" "double_result (f64_mul a b)"
    using d by (simp_all add: f64_add_def f64_sub_def f64_mul_def fp_sum_def Let_def)
  show "double_result (f64_div a b)"
    using d by (simp add: f64_div_def fp_quot_def Let_def)
qed

section \<open>Types of results\<close>

lemma boxed_result: "make_int n = Inr r \<Longrightarrow> INTEGER_P r"
  by (cases "is_i32 n") (auto simp: make_int_box make_int_fault)

lemma boxed_fault: "make_int n = Inl e \<Longrightarrow> \<exists>m. e = Assert m"
  by (cases "is_i32 n") (auto simp: make_int_box make_int_fault)

definition sound_op :: "(scm_value \<Rightarrow> scm_value \<Rightarrow> scm_value result) \<Rightarrow> bool" where
  "sound_op op \<longleftrightarrow> (\<forall>x y. case op x y of
       Inl e \<Rightarrow> (\<exists>m. e = Assert m) \<and> (NUMBER_P x \<and> NUMBER_P y \<longrightarrow> INTEGER_P x \<and> INTEGER_P y)
     | Inr r \<Rightarrow> NUMBER_P x \<and> NUMBER_P y \<and> (INTEGER_P r \<or> double_result r) \<and> (INTEGER_P r \<longrightarrow> INTEGER_P x \<and> INTEGER_P y))"

lemma double_not_int: "double_result r \<Longrightarrow> \<not> INTEGER_P r"
  using special_double(1) TYPEOF_not_FLOAT_P [of tt_int r] by (auto simp: double_result_def INTEGER_P_def boxable_def less_type_tag_def)

lemma sound_cases:
  assumes ii: "\<And>x y. INTEGER_P x \<Longrightarrow> INTEGER_P y \<Longrightarrow> (\<exists>m. op x y = Inl (Assert m)) \<or> (\<exists>r. op x y = Inr r \<and> (INTEGER_P r \<or> double_result r))"
    and f: "\<And>x y. NUMBER_P x \<Longrightarrow> NUMBER_P y \<Longrightarrow> \<not> (INTEGER_P x \<and> INTEGER_P y) \<Longrightarrow> \<exists>r. op x y = Inr r \<and> double_result r"
    and n: "\<And>x y. \<not> (NUMBER_P x \<and> NUMBER_P y) \<Longrightarrow> \<exists>m. op x y = Inl (Assert m)"
  shows "sound_op op"
  unfolding sound_op_def
proof (intro allI)
  fix x y
  consider "\<not> (NUMBER_P x \<and> NUMBER_P y)" | "INTEGER_P x \<and> INTEGER_P y" | "NUMBER_P x" "NUMBER_P y" "\<not> (INTEGER_P x \<and> INTEGER_P y)"
    by blast
  then show "case op x y of
       Inl e \<Rightarrow> (\<exists>m. e = Assert m) \<and> (NUMBER_P x \<and> NUMBER_P y \<longrightarrow> INTEGER_P x \<and> INTEGER_P y)
     | Inr r \<Rightarrow> NUMBER_P x \<and> NUMBER_P y \<and> (INTEGER_P r \<or> double_result r) \<and> (INTEGER_P r \<longrightarrow> INTEGER_P x \<and> INTEGER_P y)"
  proof cases
    case 1
    then show ?thesis using n [of x y] by auto
  next
    case 2
    then show ?thesis using ii [of x y] by (auto simp: NUMBER_P_def)
  next
    case 3
    then show ?thesis using f [of x y] double_not_int by auto
  qed
qed

lemma overflow_checked:
  "(\<exists>m. rbind (rcheck (n \<le> INT32_MAX) a) (\<lambda>_. rbind (rcheck (n \<ge> INT32_MIN) b) (\<lambda>_. make_int n)) = Inl (Assert m)) \<or>
   (\<exists>r. rbind (rcheck (n \<le> INT32_MAX) a) (\<lambda>_. rbind (rcheck (n \<ge> INT32_MIN) b) (\<lambda>_. make_int n)) = Inr r \<and> (INTEGER_P r \<or> double_result r))"
  by (cases "is_i32 n") (auto simp: make_int_box make_int_fault rbind_def rcheck_def)

lemma int_not_float: "INTEGER_P v \<Longrightarrow> \<not> FLOAT_P v"
  using TYPEOF_not_FLOAT_P [of tt_int v] by (auto simp: INTEGER_P_def boxable_def less_type_tag_def)

lemmas op_defs = addxx_def addix_def addfx_def subxx_def subix_def subfx_def mulxx_def mulix_def mulfx_def
  divxx_def divix_def divfx_def make_float_def Let_def NUMBER_P_def

lemma sound_ops: "sound_op addxx" "sound_op subxx" "sound_op mulxx" "sound_op divxx"
proof -
  note D = double_ops finite_operand int_not_float
  show "sound_op addxx"
    by (rule sound_cases) (use overflow_checked D in \<open>auto simp: op_defs\<close>)
  show "sound_op subxx"
    by (rule sound_cases) (use overflow_checked D in \<open>auto simp: op_defs\<close>)
  show "sound_op mulxx"
    by (rule sound_cases) (use overflow_checked D in \<open>auto simp: op_defs\<close>)
  show "sound_op divxx"
    by (rule sound_cases) (use D in \<open>auto simp: op_defs\<close>)
qed

text \<open>
  C5: Arithmetic of the compiled program never forges a value of another type. An operation on a value
  that is no number stops; on two numbers it stops only where a fixnum overflows; a fixnum comes only from
  two fixnums; and what is neither fixnum nor double is an infinity or the default NaN, which no tag of a
  heap object matches and at which every later operation stops.
\<close>

theorem arithmetic_type_sound:
  assumes "op \<in> {addxx, subxx, mulxx, divxx}"
  shows "case op x y of
      Inl e \<Rightarrow> (\<exists>m. e = Assert m) \<and> (NUMBER_P x \<and> NUMBER_P y \<longrightarrow> INTEGER_P x \<and> INTEGER_P y)
    | Inr r \<Rightarrow> NUMBER_P x \<and> NUMBER_P y \<and> (INTEGER_P r \<longrightarrow> INTEGER_P x \<and> INTEGER_P y) \<and>
        (NUMBER_P r \<or> special_double r \<and> (\<forall>t. boxable t \<and> t \<noteq> tt_inf \<longrightarrow> TYPEOF r \<noteq> NB t) \<and> (\<forall>z. \<exists>m. op r z = Inl (Assert m)))"
proof -
  have s: "sound_op op"
    using assms sound_ops by blast
  have stop: "\<exists>m. op r z = Inl (Assert m)" if "special_double r" for r z
    using assms special_double [OF that] by (auto simp: addxx_def subxx_def mulxx_def divxx_def)
  have tag: "TYPEOF r \<noteq> NB t" if "special_double r" "boxable t" "t \<noteq> tt_inf" for r t
    using that by (cases t) (auto simp: special_double_def f64_inf_def f64_default_nan_def TYPEOF_def NB_def NAN_BITS_def boxable_def less_type_tag_def)
  show ?thesis
    using s [unfolded sound_op_def, rule_format, of x y] stop tag
    by (cases "op x y") (auto simp: double_result_def NUMBER_P_def)
qed

text \<open>One divided by zero, and one added to that.\<close>

lemma arithmetic_type_sound_witness:
  "\<exists>r m. divxx (boxi 1) (boxi 0) = Inr r \<and> (NUMBER_P r \<or> special_double r) \<and> divxx SCM_NULL (boxi 1) = Inl (Assert m)"
proof -
  obtain r where "divxx (boxi 1) (boxi 0) = Inr r"
    by (simp add: divxx_def divix_def)
  moreover have "NUMBER_P r \<or> special_double r"
    using arithmetic_type_sound [of divxx "boxi 1" "boxi 0"] calculation by auto
  moreover have "divxx SCM_NULL (boxi 1) = Inl (Assert ''Type error'')"
    by (simp add: divxx_def INTEGER_P_def TYPEOF_def FLOAT_P_def scm_consts)
  ultimately show ?thesis
    by blast
qed

end
