(* ===== verification/Sly_Regex.thy ===== *)
theory Sly_Regex
  imports Sly_Values
begin

text \<open>
  Regular expressions as the lexer uses them: POSIX matching finds the longest prefix in the language.
  The matcher takes the expression apart one byte at a time; it is proved to find the longest match.
\<close>

section \<open>Expressions and what they match\<close>

datatype rx =
    RxNever | RxEmpty | RxOne "8 word \<Rightarrow> bool" | RxEither rx rx | RxThen rx rx | RxMany rx

inductive matches :: "rx \<Rightarrow> 8 word list \<Rightarrow> bool" where
  matches_Empty: "matches RxEmpty []"
| matches_One: "p c \<Longrightarrow> matches (RxOne p) [c]"
| matches_Left: "matches r w \<Longrightarrow> matches (RxEither r q) w"
| matches_Right: "matches q w \<Longrightarrow> matches (RxEither r q) w"
| matches_Then: "matches r v \<Longrightarrow> matches q w \<Longrightarrow> matches (RxThen r q) (v @ w)"
| matches_Done: "matches (RxMany r) []"
| matches_More: "matches r (c # v) \<Longrightarrow> matches (RxMany r) w \<Longrightarrow> matches (RxMany r) (c # v @ w)"

inductive_simps matches_simps [simp]:
  "matches RxNever w" "matches RxEmpty w" "matches (RxOne p) w" "matches (RxEither r q) w"

inductive_cases matches_ThenE: "matches (RxThen r q) w"
inductive_cases matches_ManyE: "matches (RxMany r) (c # w)"

lemma matches_Then_iff: "matches (RxThen r q) w \<longleftrightarrow> (\<exists>u v. w = u @ v \<and> matches r u \<and> matches q v)"
  by (blast intro: matches_Then elim: matches_ThenE)

lemma matches_Many_Cons:
  "matches (RxMany r) (c # w) \<longleftrightarrow> (\<exists>u v. w = u @ v \<and> matches r (c # u) \<and> matches (RxMany r) v)"
  by (blast intro: matches_More elim: matches_ManyE)

section \<open>The matcher\<close>

fun nullable :: "rx \<Rightarrow> bool" where
  "nullable RxNever \<longleftrightarrow> False"
| "nullable RxEmpty \<longleftrightarrow> True"
| "nullable (RxOne p) \<longleftrightarrow> False"
| "nullable (RxEither r q) \<longleftrightarrow> nullable r \<or> nullable q"
| "nullable (RxThen r q) \<longleftrightarrow> nullable r \<and> nullable q"
| "nullable (RxMany r) \<longleftrightarrow> True"

text \<open>What is left to match after a byte.\<close>

fun after :: "8 word \<Rightarrow> rx \<Rightarrow> rx" where
  "after c RxNever = RxNever"
| "after c RxEmpty = RxNever"
| "after c (RxOne p) = (if p c then RxEmpty else RxNever)"
| "after c (RxEither r q) = RxEither (after c r) (after c q)"
| "after c (RxThen r q) =
     (if nullable r then RxEither (RxThen (after c r) q) (after c q) else RxThen (after c r) q)"
| "after c (RxMany r) = RxThen (after c r) (RxMany r)"

lemma nullable_matches: "nullable r \<longleftrightarrow> matches r []"
  by (induction r) (auto simp: matches_Then_iff intro: matches_Done)

lemma after_matches: "matches (after c r) w \<longleftrightarrow> matches r (c # w)"
proof (induction r arbitrary: w)
  case (RxThen r q)
  have "matches (RxThen r q) (c # w) \<longleftrightarrow>
      (\<exists>u v. w = u @ v \<and> matches r (c # u) \<and> matches q v) \<or> (matches r [] \<and> matches q (c # w))"
    unfolding matches_Then_iff by (auto simp: Cons_eq_append_conv)
  then show ?case
    using RxThen by (auto simp: matches_Then_iff nullable_matches)
next
  case (RxMany r)
  then show ?case
    by (simp add: matches_Then_iff matches_Many_Cons)
qed auto

fun longest :: "rx \<Rightarrow> 8 word list \<Rightarrow> nat option" where
  "longest r [] = (if nullable r then Some 0 else None)"
| "longest r (c # w) =
     (case longest (after c r) w of
        Some n \<Rightarrow> Some (Suc n)
      | None \<Rightarrow> if nullable r then Some 0 else None)"

text \<open>The longest prefix in the language, if any is.\<close>

definition longest_prefix :: "rx \<Rightarrow> 8 word list \<Rightarrow> nat option \<Rightarrow> bool" where
  "longest_prefix r w k = (case k of
     None \<Rightarrow> \<forall>m\<le>length w. \<not> matches r (take m w)
   | Some n \<Rightarrow> n \<le> length w \<and> matches r (take n w) \<and> (\<forall>m\<le>length w. matches r (take m w) \<longrightarrow> m \<le> n))"

lemma longest_correct: "longest_prefix r w (longest r w)"
proof (induction w arbitrary: r)
  case Nil
  then show ?case
    by (simp add: longest_prefix_def nullable_matches)
next
  case (Cons c w)
  have shift: "matches r (take m (c # w)) \<longleftrightarrow> (m = 0 \<and> nullable r) \<or> (\<exists>k. m = Suc k \<and> matches (after c r) (take k w))" for m
    by (cases m) (simp_all add: nullable_matches after_matches)
  show ?case
  proof (cases "longest (after c r) w")
    case None
    then have "\<not> matches (after c r) (take k w)" if "k \<le> length w" for k
      using Cons [of "after c r"] that by (simp add: longest_prefix_def)
    then show ?thesis
      using None nullable_matches [of r] by (auto simp: longest_prefix_def shift simp del: take_Suc_Cons)
  next
    case (Some n)
    then have n: "n \<le> length w" "matches (after c r) (take n w)" "k \<le> length w \<Longrightarrow> matches (after c r) (take k w) \<Longrightarrow> k \<le> n" for k
      using Cons [of "after c r"] by (auto simp: longest_prefix_def)
    then show ?thesis
      using Some by (auto simp: longest_prefix_def shift simp del: take_Suc_Cons)
  qed
qed

end
