(* ===== verification/Sly_Lexer.thy ===== *)
theory Sly_Lexer
  imports Sly_Regex
begin

text \<open>
  The lexer (src/lexer.c).  Its regular expression is an alternation of one group for each kind of
  token, each anchored at the start of a line; \<open>regexec\<close> finds the leftmost place where one matches,
  there the longest match, and the first group that gives it.  Texts are the bytes of a C string
  without the zero at its end.  What the source prints when nothing matches is left out.
\<close>

section \<open>The groups of the expression\<close>

definition is_space :: "8 word \<Rightarrow> bool" where
  "is_space c \<longleftrightarrow> c \<in> {32, 9, 10, 11, 12, 13}"

definition one_of :: "string \<Rightarrow> 8 word \<Rightarrow> bool" where
  "one_of s c \<longleftrightarrow> c \<in> set (map of_char s)"

definition lit :: "string \<Rightarrow> rx" where
  "lit s = foldr (\<lambda>c. RxThen (RxOne (\<lambda>b. b = of_char c))) s RxEmpty"

definition opt :: "rx \<Rightarrow> rx" where
  "opt r = RxEither r RxEmpty"

definition some_of :: "rx \<Rightarrow> rx" where
  "some_of r = RxThen r (RxMany r)"

definition digit :: "8 word \<Rightarrow> bool" where
  "digit c \<longleftrightarrow> 48 \<le> c \<and> c \<le> 57"

definition hex_digit :: "8 word \<Rightarrow> bool" where
  "hex_digit c \<longleftrightarrow> digit c \<or> (65 \<le> c \<and> c \<le> 70) \<or> (97 \<le> c \<and> c \<le> 102)"

text \<open>Newlines are in no bracket expression that is negated, nor matched by a dot.\<close>

definition ident_char :: "8 word \<Rightarrow> bool" where
  "ident_char c \<longleftrightarrow> \<not> one_of ''][(){};'' c \<and> \<not> is_space c"

definition ident_start :: "8 word \<Rightarrow> bool" where
  "ident_start c \<longleftrightarrow> ident_char c \<and> c \<notin> {39, 96, 34, 35, 44}"

definition sign :: rx where
  "sign = opt (RxOne (one_of ''-+''))"

definition token_rules :: "(tok_kind \<times> rx) list" where
  "token_rules =
     [(tok_quote, RxOne (\<lambda>c. c = 39)),
      (tok_quasiquote, RxOne (\<lambda>c. c = 96)),
      (tok_unquote_splice, lit '',@''),
      (tok_unquote, lit '',''),
      (tok_syntax_quote, RxThen (lit ''#'') (RxOne (\<lambda>c. c = 39))),
      (tok_syntax_quasiquote, RxThen (lit ''#'') (RxOne (\<lambda>c. c = 96))),
      (tok_syntax_unquote_splice, lit ''#,@''),
      (tok_syntax_unquote, lit ''#,''),
      (tok_comment, RxThen (lit '';'') (RxMany (RxOne (\<lambda>c. c \<noteq> 10)))),
      (tok_lbracket, RxOne (one_of ''[({'')),
      (tok_rbracket, RxOne (one_of ''])}'')),
      (tok_dot, lit ''.''),
      (tok_vector, lit ''#(''),
      (tok_byte_vector, RxThen (lit ''#'') (RxThen (opt (lit ''v'')) (lit ''u8(''))),
      (tok_dictionary, lit ''#dict(''),
      (tok_bool, RxEither (lit ''#t'') (lit ''#f'')),
      (tok_sexp_comment, lit ''#;''),
      (tok_hex, RxThen (lit ''#'') (RxThen (RxOne (one_of ''xX'')) (some_of (RxOne hex_digit)))),
      (tok_float, RxThen sign (RxThen (some_of (RxOne digit)) (RxThen (lit ''.'') (some_of (RxOne digit))))),
      (tok_int, RxThen sign (some_of (RxOne digit))),
      (tok_char, RxThen (lit ''#'') (RxThen (RxOne (\<lambda>c. c = 92))
         (RxThen (RxOne (\<lambda>c. \<not> is_space c)) (RxMany (RxOne ident_char))))),
      (tok_keyword, RxThen (lit ''#:'') (RxThen (RxOne ident_start) (RxMany (RxOne ident_char)))),
      (tok_ident, RxThen (RxOne ident_start) (RxMany (RxOne ident_char))),
      (tok_string, RxThen (RxOne (\<lambda>c. c = 34))
         (RxThen (RxMany (RxEither (RxOne (\<lambda>c. c \<noteq> 34 \<and> c \<noteq> 10))
            (RxThen (RxOne (\<lambda>c. c = 92)) (RxOne (\<lambda>c. c \<noteq> 10)))))
          (RxOne (\<lambda>c. c = 34))))]"

text \<open>The longest match of a group, the first one on a tie.\<close>

fun best :: "(tok_kind \<times> rx) list \<Rightarrow> 8 word list \<Rightarrow> (tok_kind \<times> nat) option" where
  "best [] w = None"
| "best ((t, r) # rs) w =
     (case longest r w of
        None \<Rightarrow> best rs w
      | Some k \<Rightarrow> (case best rs w of
          None \<Rightarrow> Some (t, k)
        | Some (u, m) \<Rightarrow> if k < m then Some (u, m) else Some (t, k)))"

text \<open>\<open>regexec\<close>: at the start of the text, or else after the first newline from which it succeeds.\<close>

function regexec :: "8 word list \<Rightarrow> (tok_kind \<times> nat) option" where
  "regexec w =
     (case best token_rules w of
        Some r \<Rightarrow> Some r
      | None \<Rightarrow> (case dropWhile (\<lambda>c. c \<noteq> 10) w of
          [] \<Rightarrow> None
        | _ # v \<Rightarrow> map_option (\<lambda>(t, k). (t, length w - length v + k)) (regexec v)))"
  by pat_completeness auto
termination
proof (relation "measure length")
  fix w c v
  assume "dropWhile (\<lambda>c. c \<noteq> (10 :: 8 word)) w = c # v"
  then show "(v, w) \<in> measure length"
    using length_dropWhile_le [of "\<lambda>c. c \<noteq> 10" w] by simp
qed simp

declare regexec.simps [simp del]

section \<open>Tokens\<close>

record lexer =
  lx_off :: nat
  lx_line :: nat
  lx_col :: nat

function strip_ws :: "8 word list \<Rightarrow> lexer \<Rightarrow> lexer" where
  "strip_ws src st =
     (if lx_off st < length src \<and> is_space (src ! lx_off st)
      then strip_ws src
        (if src ! lx_off st = 10 then st\<lparr>lx_off := lx_off st + 1, lx_line := lx_line st + 1, lx_col := 0\<rparr>
         else st\<lparr>lx_off := lx_off st + 1\<rparr>)
      else st)"
  by pat_completeness auto
termination
  by (relation "measure (\<lambda>(src, st). length src - lx_off st)") auto

declare strip_ws.simps [simp del]

definition bare_token :: "tok_kind \<Rightarrow> token" where
  "bare_token t = \<lparr>tok_tag = t, tok_so = - 1, tok_eo = - 1, tok_ln = - 1, tok_cn = - 1\<rparr>"

definition next_token :: "8 word list \<Rightarrow> lexer \<Rightarrow> token \<times> lexer" where
  "next_token src st0 =
     (let st = strip_ws src st0 in
      if lx_off st \<ge> length src then (bare_token tok_eof, st)
      else (case regexec (drop (lx_off st) src) of
          None \<Rightarrow> (bare_token tok_nomatch, st)
        | Some (t, k) \<Rightarrow>
            (\<lparr>tok_tag = t, tok_so = int (lx_off st), tok_eo = int (lx_off st + k), tok_ln = int (lx_line st),
              tok_cn = int (lx_col st)\<rparr>,
             st\<lparr>lx_off := lx_off st + k, lx_col := lx_col st + k\<rparr>)))"

text \<open>\<open>tok_to_string\<close>: the names of the kinds.\<close>

fun tok_to_string :: "tok_kind \<Rightarrow> string" where
  "tok_to_string tok_any = ''any''"
| "tok_to_string tok_quote = ''quote''"
| "tok_to_string tok_quasiquote = ''quasiquote''"
| "tok_to_string tok_unquote = ''unquote''"
| "tok_to_string tok_unquote_splice = ''unquote-splice''"
| "tok_to_string tok_syntax_quote = ''syntax-quote''"
| "tok_to_string tok_syntax_quasiquote = ''syntax-quasiquote''"
| "tok_to_string tok_syntax_unquote = ''syntax-unquote''"
| "tok_to_string tok_syntax_unquote_splice = ''syntax-unquote-quasiquote''"
| "tok_to_string tok_comment = ''comment''"
| "tok_to_string tok_lbracket = ''lbracket''"
| "tok_to_string tok_rbracket = ''rbracket''"
| "tok_to_string tok_vector = ''vector''"
| "tok_to_string tok_byte_vector = ''byte-vector''"
| "tok_to_string tok_dictionary = ''dictionary''"
| "tok_to_string tok_dot = ''dot''"
| "tok_to_string tok_char = ''character''"
| "tok_to_string tok_bool = ''bool''"
| "tok_to_string tok_string = ''string''"
| "tok_to_string tok_float = ''float''"
| "tok_to_string tok_sexp_comment = ''comment-sexp''"
| "tok_to_string tok_hex = ''hex''"
| "tok_to_string tok_int = ''integer''"
| "tok_to_string tok_keyword = ''keyword''"
| "tok_to_string tok_ident = ''identifier''"
| "tok_to_string tok_max = ''max''"
| "tok_to_string tok_nomatch = ''nomatch''"
| "tok_to_string tok_eof = ''eof''"

section \<open>Progress\<close>

lemma best_longest:
  "best rs w = Some (t, k) \<Longrightarrow> \<exists>r. (t, r) \<in> set rs \<and> longest r w = Some k"
  by (induction rs arbitrary: t k) (fastforce split: option.splits if_splits)+

lemma best_most:
  "(t, r) \<in> set rs \<Longrightarrow> longest r w = Some k \<Longrightarrow> \<exists>u m. best rs w = Some (u, m) \<and> k \<le> m"
  by (induction rs) (fastforce split: option.splits)+

lemma rules_not_nullable: "(t, r) \<in> set token_rules \<Longrightarrow> \<not> nullable r"
  by (auto simp: token_rules_def lit_def opt_def some_of_def sign_def)

lemma longest_Some:
  "longest r w = Some k \<Longrightarrow> k \<le> length w \<and> matches r (take k w)"
  using longest_correct [of r w] by (simp add: longest_prefix_def)

lemma best_rules:
  assumes "best token_rules w = Some (t, k)"
  shows "0 < k" "k \<le> length w" "\<exists>r. (t, r) \<in> set token_rules \<and> matches r (take k w)"
proof -
  obtain r where r: "(t, r) \<in> set token_rules" "longest r w = Some k"
    using best_longest [OF assms] by blast
  then show "k \<le> length w" "\<exists>r. (t, r) \<in> set token_rules \<and> matches r (take k w)"
    using longest_Some by blast+
  have "matches r (take k w)"
    using longest_Some r(2) by blast
  moreover have "\<not> matches r []"
    using rules_not_nullable [OF r(1)] nullable_matches by blast
  ultimately show "0 < k"
    by (cases k) auto
qed

text \<open>Where a match starts: at the beginning, or just after a newline.\<close>

lemma regexec_match:
  "regexec w = Some (t, k) \<Longrightarrow> k \<le> length w \<and> (\<exists>d<k. (d = 0 \<or> w ! (d - 1) = 10) \<and>
     (\<exists>r. (t, r) \<in> set token_rules \<and> matches r (take (k - d) (drop d w))))"
proof (induction w arbitrary: t k rule: regexec.induct)
  case (1 w)
  show ?case
  proof (cases "best token_rules w")
    case (Some p)
    then have "best token_rules w = Some (t, k)"
      using "1.prems" by (simp add: regexec.simps [of w])
    then show ?thesis
      using best_rules [of w t k] by (auto intro!: exI [of _ 0])
  next
    case None
    then obtain c v where v: "dropWhile (\<lambda>c. c \<noteq> 10) w = c # v"
      using "1.prems" by (simp add: regexec.simps [of w] split: list.splits)
    then obtain m where m: "regexec v = Some (t, m)" "k = length w - length v + m"
      using "1.prems" None by (auto simp: regexec.simps [of w])
    have c: "c = 10"
      using hd_dropWhile [of "\<lambda>c. c \<noteq> 10" w] v by simp
    obtain u where u: "w = u @ c # v"
      using takeWhile_dropWhile_id [of "\<lambda>c. c \<noteq> 10" w] v by metis
    obtain d r where d: "m \<le> length v" "d < m" "d = 0 \<or> v ! (d - 1) = 10" "(t, r) \<in> set token_rules"
      "matches r (take (m - d) (drop d v))"
      using "1.IH" [OF None v m(1)] by blast
    let ?d = "Suc (length u) + d"
    have "w ! (?d - 1) = 10"
      using d(3) u c by (auto simp: nth_append nth_Cons split: nat.splits)
    moreover have "drop ?d w = drop d v"
      using u by simp
    moreover have "k = Suc (length u) + m"
      using m(2) u by simp
    ultimately show ?thesis
      using d u by (intro conjI exI [of _ ?d]) auto
  qed
qed

lemma strip_ws_spaces:
  assumes "lx_off st \<le> length src"
  shows "lx_off st \<le> lx_off (strip_ws src st) \<and> lx_off (strip_ws src st) \<le> length src \<and>
    (\<forall>i. lx_off st \<le> i \<longrightarrow> i < lx_off (strip_ws src st) \<longrightarrow> is_space (src ! i)) \<and>
    (lx_off (strip_ws src st) < length src \<longrightarrow> \<not> is_space (src ! lx_off (strip_ws src st)))"
  using assms
proof (induction src st rule: strip_ws.induct)
  case (1 src st)
  show ?case
  proof (cases "lx_off st < length src \<and> is_space (src ! lx_off st)")
    case True
    let ?u = "if src ! lx_off st = 10 then st\<lparr>lx_off := lx_off st + 1, lx_line := lx_line st + 1, lx_col := 0\<rparr>
      else st\<lparr>lx_off := lx_off st + 1\<rparr>"
    have u: "lx_off ?u = Suc (lx_off st)"
      by simp
    have s: "strip_ws src st = strip_ws src ?u"
      using True by (subst strip_ws.simps) simp
    have ih: "lx_off ?u \<le> lx_off (strip_ws src ?u)" "lx_off (strip_ws src ?u) \<le> length src"
      "\<And>i. lx_off ?u \<le> i \<Longrightarrow> i < lx_off (strip_ws src ?u) \<Longrightarrow> is_space (src ! i)"
      "lx_off (strip_ws src ?u) < length src \<Longrightarrow> \<not> is_space (src ! lx_off (strip_ws src ?u))"
      using "1.IH" [OF True] True u by (simp_all del: strip_ws.simps)
    have "is_space (src ! i)" if "lx_off st \<le> i" "i < lx_off (strip_ws src ?u)" for i
    proof (cases "i = lx_off st")
      case False
      then show ?thesis
        using ih(3) [of i] that u by simp
    qed (use True in simp)
    then show ?thesis
      using ih(1,2,4) u unfolding s by simp
  next
    case False
    then have "strip_ws src st = st"
      by (subst strip_ws.simps) auto
    then show ?thesis
      using False "1.prems" by auto
  qed
qed

lemma strip_ws_past: "length src \<le> lx_off st \<Longrightarrow> strip_ws src st = st"
  by (subst strip_ws.simps) simp

lemma next_token_off:
  assumes "next_token src st = (t, st')" and "tok_tag t \<noteq> tok_eof" and "tok_tag t \<noteq> tok_nomatch"
  shows "lx_off st < lx_off st'" "lx_off st < length src" "lx_off st' \<le> length src"
proof -
  let ?u = "strip_ws src st"
  have "lx_off ?u < length src"
    using assms by (auto simp: next_token_def bare_token_def Let_def split: if_splits)
  then obtain tg k where k: "regexec (drop (lx_off ?u) src) = Some (tg, k)" "lx_off st' = lx_off ?u + k"
    using assms by (auto simp: next_token_def bare_token_def Let_def split: option.splits)
  have le: "lx_off st \<le> lx_off ?u"
    using \<open>lx_off ?u < length src\<close> strip_ws_spaces [of st src]
      strip_ws_past [of src st] by (cases "lx_off st \<le> length src") auto
  moreover have "0 < k" "k \<le> length (drop (lx_off ?u) src)"
    using regexec_match [OF k(1)] by auto
  then have "0 < k" "lx_off ?u + k \<le> length src"
    using \<open>lx_off ?u < length src\<close> by simp_all
  ultimately show "lx_off st < lx_off st'" "lx_off st < length src" "lx_off st' \<le> length src"
    using k(2) \<open>lx_off ?u < length src\<close> by linarith+
qed

text \<open>The loop of \<open>lex_str\<close>; every token moves on in the src, so it ends.\<close>

function lex_from :: "8 word list \<Rightarrow> lexer \<Rightarrow> token list" where
  "lex_from src st =
     (let (t, st') = next_token src st in
      if tok_tag t = tok_eof \<or> tok_tag t = tok_nomatch then [t] else t # lex_from src st')"
  by pat_completeness auto
termination
proof (relation "measure (\<lambda>(src, st). length src - lx_off st)")
  fix src st p t st'
  assume p: "p = next_token src st" "(t, st') = p" and "\<not> (tok_tag t = tok_eof \<or> tok_tag t = tok_nomatch)"
  then show "((src, st'), (src, st)) \<in> measure (\<lambda>(src, st). length src - lx_off st)"
    using next_token_off [of src st t st'] by simp
qed simp

declare lex_from.simps [simp del]

definition lex_str :: "8 word list \<Rightarrow> token list" where
  "lex_str src =
     lex_from src \<lparr>lx_off = (if take 2 src = [35, 33] then length (takeWhile (\<lambda>c. c \<noteq> 10) src) else 0),
       lx_line = 0, lx_col = 0\<rparr>"

section \<open>The tokens cover the text\<close>

text \<open>
  A token of kind \<open>t\<close> between two places: what ends it is a match of its kind, which starts where the
  token does, or after a newline.
\<close>

definition spells :: "8 word list \<Rightarrow> nat \<Rightarrow> nat \<Rightarrow> tok_kind \<Rightarrow> bool" where
  "spells src i j t \<longleftrightarrow> (\<exists>d. i \<le> d \<and> d < j \<and> (d = i \<or> src ! (d - 1) = 10) \<and>
     (\<exists>r. (t, r) \<in> set token_rules \<and> matches r (take (j - d) (drop d src))))"

fun covers :: "8 word list \<Rightarrow> nat \<Rightarrow> token list \<Rightarrow> bool" where
  "covers src i [] \<longleftrightarrow> False"
| "covers src i [t] \<longleftrightarrow> (tok_tag t = tok_eof \<and> (\<forall>k. i \<le> k \<longrightarrow> k < length src \<longrightarrow> is_space (src ! k))) \<or> tok_tag t = tok_nomatch"
| "covers src i (t # ts) \<longleftrightarrow> (\<exists>so eo. tok_so t = int so \<and> tok_eo t = int eo \<and> i \<le> so \<and> so < eo \<and> eo \<le> length src \<and>
     (\<forall>k. i \<le> k \<longrightarrow> k < so \<longrightarrow> is_space (src ! k)) \<and> \<not> is_space (src ! so) \<and> spells src so eo (tok_tag t) \<and> covers src eo ts)"

lemma lex_from_nonempty: "lex_from src st \<noteq> []"
  by (subst lex_from.simps) (auto simp: Let_def split: prod.splits)

lemma lex_from_covers:
  "lx_off st \<le> length src \<Longrightarrow> covers src (lx_off st) (lex_from src st)"
proof (induction src st rule: lex_from.induct)
  case (1 src st)
  obtain t st' where n: "next_token src st = (t, st')"
    by (cases "next_token src st")
  let ?u = "strip_ws src st"
  note ws = strip_ws_spaces [OF "1.prems"]
  show ?case
  proof (cases "tok_tag t = tok_eof \<or> tok_tag t = tok_nomatch")
    case True
    have "tok_tag t = tok_nomatch \<or> length src \<le> lx_off ?u"
      using n True regexec_match by (auto simp: next_token_def bare_token_def Let_def token_rules_def dest!: regexec_match split: if_splits option.splits)
    then show ?thesis
      using n True ws by (subst lex_from.simps) (auto simp: Let_def)
  next
    case False
    have lt: "lx_off ?u < length src"
      using n False by (auto simp: next_token_def bare_token_def Let_def split: if_splits)
    then obtain tg k where k: "regexec (drop (lx_off ?u) src) = Some (tg, k)" "lx_off st' = lx_off ?u + k"
      "tok_tag t = tg" "tok_so t = int (lx_off ?u)" "tok_eo t = int (lx_off ?u + k)"
      using n False by (auto simp: next_token_def bare_token_def Let_def split: option.splits)
    obtain d r where d: "k \<le> length src - lx_off ?u" "d < k" "d = 0 \<or> drop (lx_off ?u) src ! (d - 1) = 10"
      "(tg, r) \<in> set token_rules" "matches r (take (k - d) (drop d (drop (lx_off ?u) src)))"
      using regexec_match [OF k(1)] by auto
    have sp: "spells src (lx_off ?u) (lx_off ?u + k) tg"
      unfolding spells_def
      using d lt by (intro exI [of _ "lx_off ?u + d"], cases d) (auto simp: add.commute)
    have rec: "covers src (lx_off st') (lex_from src st')"
      using "1.IH" [OF n [symmetric] refl] False next_token_off(3) [OF n] by auto
    have "lex_from src st = t # lex_from src st'"
      using n False by (subst lex_from.simps) simp
    moreover obtain x xs where "lex_from src st' = x # xs"
      using lex_from_nonempty [of src st'] by (cases "lex_from src st'") auto
    ultimately show ?thesis
      using k ws lt d(1,2) sp rec
      by (simp del: of_nat_add)
  qed
qed

text \<open>
  C36: Lexing ends, and its tokens cover the text: between them, and before the end of the file, there is
  only white space, and each ends in a match of its kind, which starts where the token does or after
  a newline inside it.
\<close>

theorem lexing_covers:
  "covers src (if take 2 src = [35, 33] then length (takeWhile (\<lambda>c. c \<noteq> 10) src) else 0) (lex_str src)"
  using lex_from_covers [of "\<lparr>lx_off = 0, lx_line = 0, lx_col = 0\<rparr>" src]
    lex_from_covers [of "\<lparr>lx_off = length (takeWhile (\<lambda>c. c \<noteq> 10) src), lx_line = 0, lx_col = 0\<rparr>" src]
  by (simp add: lex_str_def length_takeWhile_le)

section \<open>Texts that are read in a surprising way\<close>

lemmas lexing = lex_str_def lex_from.simps strip_ws.simps next_token_def regexec.simps token_rules_def lit_def opt_def
  some_of_def sign_def one_of_def ident_start_def ident_char_def is_space_def digit_def hex_digit_def bare_token_def



text \<open>The text \<open>#z\<close>, a newline, \<open>foo\<close>: \<open>#z\<close> is no token.\<close>

definition unlexable :: "8 word list" where
  "unlexable = [35, 122, 10, 102, 111, 111]"

text \<open>
  Text that is no token is not reported when the next line begins with one: the search goes on to that
  line, and the token takes both.
\<close>

theorem unlexable_glued:
  "map (\<lambda>t. (tok_tag t, tok_so t, tok_eo t)) (lex_str unlexable) = [(tok_ident, 0, 6), (tok_eof, - 1, - 1)]"
  by (simp add: lexing unlexable_def)

end
