(* ===== verification/Sly_Parser.thy ===== *)
theory Sly_Parser
  imports Sly_Data Sly_Lexer
begin

text \<open>
  The parser (src/parser.c): the tokens of a text read into syntax objects.  The text is the bytes of a
  C string without its zero; the cursor into the tokens is passed and returned.  Opening a file is not
  modelled.
\<close>

section \<open>The number readers of the library\<close>

definition digit_val :: "8 word \<Rightarrow> nat option" where
  "digit_val c =
     (if digit c then Some (unat (c - 48))
      else if 97 \<le> c \<and> c \<le> 122 then Some (unat (c - 87))
      else if 65 \<le> c \<and> c \<le> 90 then Some (unat (c - 55)) else None)"

fun read_digits :: "nat \<Rightarrow> nat \<Rightarrow> 8 word list \<Rightarrow> nat \<times> 8 word list" where
  "read_digits base acc [] = (acc, [])"
| "read_digits base acc (c # cs) =
     (case digit_val c of
        Some d \<Rightarrow> if d < base then read_digits base (acc * base + d) cs else (acc, c # cs)
      | None \<Rightarrow> (acc, c # cs))"

definition read_sign :: "8 word list \<Rightarrow> bool \<times> 8 word list" where
  "read_sign cs = (case cs of [] \<Rightarrow> (False, []) | c # cs' \<Rightarrow> if c = 45 then (True, cs') else if c = 43 then (False, cs') else (False, cs))"

definition hex_prefix :: "8 word list \<Rightarrow> bool" where
  "hex_prefix cs \<longleftrightarrow> (case cs of z # x # d # _ \<Rightarrow> z = 48 \<and> (x = 120 \<or> x = 88) \<and> hex_digit d | _ \<Rightarrow> False)"

text \<open>\<open>strtol\<close>, which saturates.\<close>

definition strtol :: "nat \<Rightarrow> 8 word list \<Rightarrow> int" where
  "strtol base cs =
     (let (neg, ds) = read_sign (dropWhile is_space cs);
          b = (if base = 0 then (if hex_prefix ds then 16 else if take 1 ds = [48] then 8 else 10) else base);
          ds' = (if b = 16 \<and> hex_prefix ds then drop 2 ds else ds);
          v = int (fst (read_digits b 0 ds'))
      in max (- (2 ^ 63)) (min (2 ^ 63 - 1) (if neg then - v else v)))"

text \<open>
  \<open>strtod\<close> on digits with a point; a token of a number ends before a delimiter, so no exponent follows.
\<close>

definition strtod :: "8 word list \<Rightarrow> 64 word" where
  "strtod cs =
     (let (neg, ds) = read_sign (dropWhile is_space cs);
          (ip, ds') = read_digits 10 0 ds
      in case ds' of
           c # fs \<Rightarrow> if c = 46 then
               (let (m, rest) = read_digits 10 ip fs in fp_quot neg m 0 (10 ^ (length fs - length rest)) 0)
             else fp_quot neg ip 0 1 0
         | [] \<Rightarrow> fp_quot neg ip 0 1 0)"

section \<open>Characters and strings\<close>

definition EXC_COMPILE :: nat where "EXC_COMPILE = 1"

definition compile_error :: "string \<Rightarrow> 'a sly" where
  "compile_error msg = sly_raise_exception EXC_COMPILE msg"

text \<open>\<open>strncmp (str, name, len) == 0\<close>, for a text longer than \<open>len\<close>.\<close>

definition abbreviates :: "8 word list \<Rightarrow> nat \<Rightarrow> string \<Rightarrow> bool" where
  "abbreviates str len name \<longleftrightarrow> len \<le> length (hash_char name) \<and> take len str = take len (hash_char name)"

definition byte_literal :: "int \<Rightarrow> int sly" where
  "byte_literal i =
     (if i > 255 \<or> i < - 128 then compile_error ''Parse Error byte value out of range''
      else ret (sint (word_of_int i :: 8 word)))"

definition parse_char :: "8 word list \<Rightarrow> nat \<Rightarrow> int sly" where
  "parse_char str len =
     bnd (check_ub (2 < length str) ''read past the end of the text'') (\<lambda>_.
     if len = 3 then ret (sint (str ! 2))
     else if digit (str ! 2) then byte_literal (strtol 8 (drop 2 str))
     else if str ! 2 = 120 then byte_literal (strtol 16 (drop 3 str))
     else if abbreviates str len ''nul'' then ret 0
     else if abbreviates str len ''alarm'' then ret 7
     else if abbreviates str len ''backspace'' then ret 8
     else if abbreviates str len ''tab'' then ret 9
     else if abbreviates str len ''newline'' \<or> abbreviates str len ''linefeed'' then ret 10
     else if abbreviates str len ''vtab'' then ret 11
     else if abbreviates str len ''page'' then ret 12
     else if abbreviates str len ''return'' then ret 13
     else if abbreviates str len ''esc'' \<or> abbreviates str len ''escape'' then ret 27
     else if abbreviates str len ''space'' then ret 32
     else if abbreviates str len ''delete'' then ret 127
     else compile_error ''Parse Error unrecognized char literal'')"

definition escape_code :: "8 word \<Rightarrow> (8 word) option" where
  "escape_code c = map_of [(97, 7), (98, 8), (102, 12), (110, 10), (114, 13), (116, 9), (118, 11), (92, 92), (39, 39), (34, 34)] c"

text \<open>
  The bytes left to read and how many of them belong to the string; an escape whose second byte is the
  closing quote takes that.
\<close>

fun escape_string :: "8 word list \<Rightarrow> nat \<Rightarrow> (8 word list) sly" where
  "escape_string str 0 = ret []"
| "escape_string [] (Suc k) = fail (UB ''read past the end of the text'')"
| "escape_string (c # cs) (Suc k) =
     (if c = 92 then
        (case cs of
           [] \<Rightarrow> compile_error ''Parse Error unrecognized escape sequence''
         | d # cs' \<Rightarrow> (case escape_code d of
             None \<Rightarrow> compile_error ''Parse Error unrecognized escape sequence''
           | Some e \<Rightarrow> bnd (escape_string cs' (k - 1)) (\<lambda>bs. ret (e # bs))))
      else bnd (escape_string cs k) (\<lambda>bs. ret (c # bs)))"

section \<open>Identifiers\<close>

definition slice :: "8 word list \<Rightarrow> token \<Rightarrow> 8 word list" where
  "slice cs t = take (nat (tok_eo t - tok_so t)) (drop (nat (tok_so t)) cs)"

text \<open>The token cut at the first \<open>c\<close>: what is before it and what is after it.\<close>

definition break_at_char :: "8 word list \<Rightarrow> 8 word \<Rightarrow> token \<Rightarrow> (token \<times> token) option" where
  "break_at_char cs c t =
     (let k = int (length (takeWhile (\<lambda>b. b \<noteq> c) (slice cs t))) in
      if c \<in> set (slice cs t) then Some (t\<lparr>tok_eo := tok_so t + k\<rparr>, t\<lparr>tok_so := tok_so t + k + 1\<rparr>) else None)"

definition syntax_cons :: "token \<Rightarrow> sly_value \<Rightarrow> sly_value \<Rightarrow> sly_value sly" where
  "syntax_cons t a d = bnd (sly_cons a d) (make_syntax t)"

definition named_syntax :: "nat \<Rightarrow> token \<Rightarrow> 8 word list \<Rightarrow> sly_value sly" where
  "named_syntax n t name = bnd (make_symbol n name) (make_syntax t)"

text \<open>\<open>(name x)\<close>, and \<open>(dictionary-ref dict key)\<close>.\<close>

definition quote_form :: "nat \<Rightarrow> token \<Rightarrow> string \<Rightarrow> sly_value sly \<Rightarrow> sly_value sly" where
  "quote_form n t name x =
     bnd (named_syntax n t (cstr name)) (\<lambda>q. bnd x (\<lambda>v. bnd (sly_cons v SLY_NULL) (syntax_cons t q)))"

definition dict_access :: "nat \<Rightarrow> token \<Rightarrow> sly_value \<Rightarrow> sly_value \<Rightarrow> sly_value sly" where
  "dict_access n t dict key =
     bnd (named_syntax n t (cstr ''dictionary-ref'')) (\<lambda>q.
     bnd (sly_cons key SLY_NULL) (\<lambda>l. bnd (sly_cons dict l) (syntax_cons t q)))"

fun dict_keys_loop :: "nat \<Rightarrow> nat \<Rightarrow> 8 word list \<Rightarrow> token \<Rightarrow> sly_value \<Rightarrow> sly_value sly" where
  "dict_keys_loop 0 n cs t dict = fail NoFuel"
| "dict_keys_loop (Suc k) n cs t dict =
     (case break_at_char cs 35 t of
        Some (a, b) \<Rightarrow>
          bnd (quote_form n a ''quote'' (named_syntax n a (slice cs a))) (\<lambda>key.
          bnd (dict_access n a dict key) (dict_keys_loop k n cs b))
      | None \<Rightarrow>
          bnd (quote_form n t ''quote'' (named_syntax n t (slice cs t))) (dict_access n t dict))"

definition try_parse_dict_access :: "nat \<Rightarrow> 8 word list \<Rightarrow> token \<Rightarrow> sly_value sly" where
  "try_parse_dict_access n cs t =
     (case break_at_char cs 35 t of
        Some (a, b) \<Rightarrow>
          bnd (named_syntax n a (slice cs a)) (\<lambda>dict.
          dict_keys_loop (length cs + 1) n cs b dict)
      | None \<Rightarrow> named_syntax n t (slice cs t))"

section \<open>The cursor\<close>

definition PEEK_TOKEN :: "token list \<Rightarrow> nat \<Rightarrow> token sly" where
  "PEEK_TOKEN ts cur = (if cur < length ts then ret (ts ! cur) else fail (UB ''read past the end of the tokens''))"

definition NEXT_TOKEN :: "token list \<Rightarrow> nat \<Rightarrow> (token \<times> nat) sly" where
  "NEXT_TOKEN ts cur =
     (if cur = length ts then bnd (PEEK_TOKEN ts (cur - 1)) (\<lambda>t. ret (t, cur))
      else bnd (PEEK_TOKEN ts cur) (\<lambda>t. ret (t, cur + 1)))"

section \<open>Values\<close>

fun reader_macro :: "tok_kind \<Rightarrow> string option" where
  "reader_macro tok_quote = Some ''quote''"
| "reader_macro tok_quasiquote = Some ''quasiquote''"
| "reader_macro tok_unquote = Some ''unquote''"
| "reader_macro tok_unquote_splice = Some ''unquote-splice''"
| "reader_macro tok_syntax_quote = Some ''syntax-quote''"
| "reader_macro tok_syntax_quasiquote = Some ''syntax-quasiquote''"
| "reader_macro tok_syntax_unquote = Some ''syntax-unquote''"
| "reader_macro tok_syntax_unquote_splice = Some ''syntax-unquote-splice''"
| "reader_macro _ = None"

text \<open>Tokens that are values by themselves.\<close>

definition atom_value :: "nat \<Rightarrow> sly_value \<Rightarrow> 8 word list \<Rightarrow> token \<Rightarrow> sly_value sly" where
  "atom_value n junk cs t =
     (let so = nat (tok_so t); len = nat (tok_eo t - tok_so t) in
      case tok_tag t of
        tok_char \<Rightarrow> bnd (parse_char (drop so cs) len) (\<lambda>i. make_syntax t (make_byte junk i))
      | tok_string \<Rightarrow> bnd (escape_string (drop (so + 1) cs) (len - 2)) (\<lambda>bs.
          bnd (sly_make_string (takeWhile (\<lambda>b. b \<noteq> 0) bs)) (make_syntax t))
      | tok_bool \<Rightarrow> make_syntax t (if take 1 (drop (so + 1) cs) = [102] then SLY_FALSE else SLY_TRUE)
      | tok_float \<Rightarrow> bnd (sly_make_float (strtod (drop so cs))) (make_syntax t)
      | tok_hex \<Rightarrow> bnd (sly_make_int (strtol 16 (drop (so + 2) cs))) (make_syntax t)
      | tok_int \<Rightarrow> bnd (sly_make_int (strtol 0 (drop so cs))) (make_syntax t)
      | tok_keyword \<Rightarrow> bnd (named_syntax n t (cstr ''quote'')) (\<lambda>q.
          bnd (named_syntax n t (slice cs t)) (syntax_cons t q))
      | tok_ident \<Rightarrow> try_parse_dict_access n cs t
      | _ \<Rightarrow> ret SLY_NULL)"

text \<open>\<open>s->datum = f (strip_syntax (s->datum))\<close>.\<close>

definition replace_datum :: "nat \<Rightarrow> (sly_value \<Rightarrow> sly_value sly) \<Rightarrow> sly_value \<Rightarrow> sly_value sly" where
  "replace_datum n f stx =
     bnd (as_syntax stx) (\<lambda>(tok, sc, d, ctx).
     bnd (strip_syntax n d) (\<lambda>elems. bnd (f elems) (\<lambda>v.
     bnd (sly_obj_set stx (SSyntax tok sc v ctx)) (\<lambda>_. ret stx))))"

type_synonym parser = "nat \<Rightarrow> (sly_value \<times> nat) sly"

text \<open>A list after its first element is read: \<open>pv\<close> reads a value, \<open>again\<close> the rest of the list.\<close>

definition parse_list_by :: "nat \<Rightarrow> parser \<Rightarrow> (token \<Rightarrow> sly_value \<Rightarrow> parser) \<Rightarrow> token list \<Rightarrow> token \<Rightarrow> sly_value \<Rightarrow> parser" where
  "parse_list_by n pv again ts start l cur =
     bnd (PEEK_TOKEN ts cur) (\<lambda>t.
     if tok_tag t = tok_eof then compile_error ''Parse Error unexpected end of file''
     else if tok_tag t = tok_rbracket then
       bnd (NEXT_TOKEN ts cur) (\<lambda>(_, cur'). bnd (make_syntax start l) (\<lambda>x. ret (x, cur')))
     else if tok_tag t = tok_dot then
       bnd (NEXT_TOKEN ts cur) (\<lambda>(_, cur').
       bnd (pv cur') (\<lambda>(v, cur'').
       bnd (sly_append n l v) (\<lambda>_.
       bnd (NEXT_TOKEN ts cur'') (\<lambda>(c, cur3).
       if tok_tag c \<noteq> tok_rbracket then compile_error ''Parse Error expected closing bracket''
       else bnd (make_syntax start l) (\<lambda>x. ret (x, cur3))))))
     else
       bnd (pv cur) (\<lambda>(v, cur').
       bnd (sly_cons v SLY_NULL) (\<lambda>c.
       bnd (sly_append n l c) (\<lambda>_. again start l cur'))))"

text \<open>The elements of a bracket that is not empty.\<close>

definition parse_seq_by :: "parser \<Rightarrow> (token \<Rightarrow> sly_value \<Rightarrow> parser) \<Rightarrow> token \<Rightarrow> parser" where
  "parse_seq_by pv pl t cur =
     bnd (pv cur) (\<lambda>(v, cur'). bnd (sly_cons v SLY_NULL) (\<lambda>l. pl t l cur'))"

text \<open>A bracket that closes at once gives \<open>none\<close>.\<close>

definition parse_bracket_by :: "parser \<Rightarrow> (token \<Rightarrow> sly_value \<Rightarrow> parser) \<Rightarrow> token list \<Rightarrow> token \<Rightarrow> sly_value sly \<Rightarrow>
    (sly_value \<Rightarrow> sly_value sly) \<Rightarrow> parser" where
  "parse_bracket_by pv pl ts t none f cur =
     bnd (PEEK_TOKEN ts cur) (\<lambda>p.
     if tok_tag p = tok_rbracket then bnd (NEXT_TOKEN ts cur) (\<lambda>(_, cur'). bnd none (\<lambda>x. ret (x, cur')))
     else bnd (parse_seq_by pv pl t cur) (\<lambda>(stx, cur'). bnd (f stx) (\<lambda>x. ret (x, cur'))))"

definition parse_value_by :: "nat \<Rightarrow> sly_value \<Rightarrow> parser \<Rightarrow> (token \<Rightarrow> sly_value \<Rightarrow> parser) \<Rightarrow> 8 word list \<Rightarrow> token list \<Rightarrow> parser" where
  "parse_value_by n junk pv pl cs ts cur0 =
     bnd (NEXT_TOKEN ts cur0) (\<lambda>(t, cur).
     case tok_tag t of
       tok_any \<Rightarrow> fail (Assert ''(parse_value, tok_any) UNIMPLEMENTED'')
     | tok_comment \<Rightarrow> pv cur
     | tok_sexp_comment \<Rightarrow> bnd (pv cur) (\<lambda>(_, cur'). pv cur')
     | tok_lbracket \<Rightarrow> parse_bracket_by pv pl ts t (ret SLY_NULL) ret cur
     | tok_rbracket \<Rightarrow> compile_error ''Parse Error mismatched bracket''
     | tok_vector \<Rightarrow> parse_bracket_by pv pl ts t (bnd (sly_make_vector 0 0) (make_syntax t)) (replace_datum n (list_to_vector n)) cur
     | tok_byte_vector \<Rightarrow>
         parse_bracket_by pv pl ts t (bnd (make_byte_vector 0 0) (make_syntax t)) (replace_datum n (list_to_byte_vector n)) cur
     | tok_dictionary \<Rightarrow>
         bnd (named_syntax n t (cstr ''make-dictionary'')) (\<lambda>stx.
         bnd (sly_cons stx SLY_NULL) (\<lambda>l. pl t l cur))
     | tok_dot \<Rightarrow> compile_error ''Parse Error bad dot''
     | tok_max \<Rightarrow> fail (Assert ''(parse_value, tok_max) UNIMPLEMENTED'')
     | tok_nomatch \<Rightarrow> fail (Assert ''(parse_value, tok_nomatch) UNIMPLEMENTED'')
     | tok_eof \<Rightarrow> ret (SLY_NULL, cur)
     | _ \<Rightarrow> (case reader_macro (tok_tag t) of
         Some name \<Rightarrow>
           bnd (named_syntax n t (cstr name)) (\<lambda>q.
           bnd (pv cur) (\<lambda>(v, cur').
           bnd (sly_cons v SLY_NULL) (\<lambda>l. bnd (syntax_cons t q l) (\<lambda>x. ret (x, cur')))))
       | None \<Rightarrow> bnd (atom_value n junk cs t) (\<lambda>x. ret (x, cur))))"

fun parse_value :: "nat \<Rightarrow> sly_value \<Rightarrow> 8 word list \<Rightarrow> token list \<Rightarrow> parser"
  and parse_list :: "nat \<Rightarrow> sly_value \<Rightarrow> 8 word list \<Rightarrow> token list \<Rightarrow> token \<Rightarrow> sly_value \<Rightarrow> parser" where
  "parse_value 0 junk cs ts cur = fail NoFuel"
| "parse_value (Suc n) junk cs ts cur = parse_value_by n junk (parse_value n junk cs ts) (parse_list n junk cs ts) cs ts cur"
| "parse_list 0 junk cs ts start l cur = fail NoFuel"
| "parse_list (Suc n) junk cs ts start l cur =
     parse_list_by n (parse_value n junk cs ts) (parse_list n junk cs ts) ts start l cur"

fun parse_loop :: "nat \<Rightarrow> sly_value \<Rightarrow> 8 word list \<Rightarrow> token list \<Rightarrow> sly_value \<Rightarrow> nat \<Rightarrow> unit sly" where
  "parse_loop 0 junk cs ts code cur = fail NoFuel"
| "parse_loop (Suc n) junk cs ts code cur =
     bnd (PEEK_TOKEN ts cur) (\<lambda>t.
     if tok_tag t = tok_eof then ret ()
     else bnd (parse_value n junk cs ts cur) (\<lambda>(v, cur').
       if null_p v then ret ()
       else bnd (sly_cons v SLY_NULL) (\<lambda>c. bnd (sly_append n code c) (\<lambda>_. parse_loop n junk cs ts code cur'))))"

definition parse :: "nat \<Rightarrow> sly_value \<Rightarrow> 8 word list \<Rightarrow> sly_value sly" where
  "parse n junk cs =
     bnd (named_syntax n no_token (cstr ''begin'')) (\<lambda>b.
     bnd (sly_cons b SLY_NULL) (\<lambda>code.
     bnd (parse_loop n junk cs (lex_str cs) code 0) (\<lambda>_.
     make_syntax no_token code)))"

text \<open>The text of a file ends at its first zero byte.\<close>

definition parse_file :: "nat \<Rightarrow> sly_value \<Rightarrow> 8 word list \<Rightarrow> sly_value sly" where
  "parse_file n junk path =
     bnd (gets disk) (\<lambda>files. case files path of
        None \<Rightarrow> compile_error ''Error unable to open source file''
      | Some contents \<Rightarrow> parse n junk (takeWhile (\<lambda>b. b \<noteq> 0) contents))"

section \<open>The cursor\<close>







lemma no_error [simp]: "compile_error msg s \<noteq> Inr r"
  by (simp add: compile_error_def sly_raise_exception_def)






text \<open>
  C39: A comment just before a closing bracket is an error: the reader of a value steps over the comment and
  takes the bracket for the value.
\<close>

theorem comment_before_bracket:
  assumes "cur + 1 < length ts" and "tok_tag (ts ! cur) = tok_comment" and "tok_tag (ts ! (cur + 1)) = tok_rbracket"
  shows "parse_list (n + 3) junk cs ts start l cur = compile_error ''Parse Error mismatched bracket''"
proof (rule ext)
  fix s
  have v: "parse_value (n + 2) junk cs ts cur s = compile_error ''Parse Error mismatched bracket'' s"
    using assms by (simp add: numeral_2_eq_2 parse_value_by_def NEXT_TOKEN_def PEEK_TOKEN_def bnd_def)
  have f: "n + 3 = Suc (n + 2)"
    by simp
  show "parse_list (n + 3) junk cs ts start l cur s = compile_error ''Parse Error mismatched bracket'' s"
    unfolding f parse_list.simps
    using assms v by (simp add: parse_list_by_def PEEK_TOKEN_def bnd_def compile_error_def sly_raise_exception_def)
qed

text \<open>
  C40: An empty bracket at the top level ends the program: what follows it is not read.
\<close>

theorem empty_bracket_stops:
  assumes "cur + 1 < length ts" and "tok_tag (ts ! cur) = tok_lbracket" and "tok_tag (ts ! (cur + 1)) = tok_rbracket"
  shows "parse_loop (n + 2) junk cs ts code cur s = Inr ((), s)"
  using assms
  by (simp add: numeral_2_eq_2 parse_value_by_def parse_bracket_by_def NEXT_TOKEN_def PEEK_TOKEN_def bnd_def null_p_def)

text \<open>An unfinished comment: \<open>(a ; b\<close>, newline, \<open>)\<close>, newline.\<close>

definition commented :: "8 word list" where
  "commented = [40, 97, 32, 59, 98, 10, 41, 10]"

definition ends_early :: "8 word list" where
  "ends_early = [40, 41, 97]"

lemma lex_commented:
  "lex_str commented =
     [\<lparr>tok_tag = tok_lbracket, tok_so = 0, tok_eo = 1, tok_ln = 0, tok_cn = 0\<rparr>,
      \<lparr>tok_tag = tok_ident, tok_so = 1, tok_eo = 2, tok_ln = 0, tok_cn = 1\<rparr>,
      \<lparr>tok_tag = tok_comment, tok_so = 3, tok_eo = 5, tok_ln = 0, tok_cn = 2\<rparr>,
      \<lparr>tok_tag = tok_rbracket, tok_so = 6, tok_eo = 7, tok_ln = 1, tok_cn = 0\<rparr>, bare_token tok_eof]"
  by (simp add: lexing commented_def)

lemma lex_ends_early:
  "lex_str ends_early =
     [\<lparr>tok_tag = tok_lbracket, tok_so = 0, tok_eo = 1, tok_ln = 0, tok_cn = 0\<rparr>,
      \<lparr>tok_tag = tok_rbracket, tok_so = 1, tok_eo = 2, tok_ln = 0, tok_cn = 1\<rparr>,
      \<lparr>tok_tag = tok_ident, tok_so = 2, tok_eo = 3, tok_ln = 0, tok_cn = 2\<rparr>, bare_token tok_eof]"
  by (simp add: lexing ends_early_def)

theorem comment_before_bracket_witness:
  "parse_list 3 SLY_VOID commented (lex_str commented) (bare_token tok_any) SLY_NULL 2 sly_start =
     Inl (Assert ''Parse Error mismatched bracket'')"
  using comment_before_bracket [of 2 "lex_str commented" 0]
  by (simp add: lex_commented compile_error_def sly_raise_exception_def sly_start_def)

theorem empty_bracket_stops_witness:
  "parse_loop 2 SLY_VOID ends_early (lex_str ends_early) SLY_NULL 0 sly_start = Inr ((), sly_start)"
  using empty_bracket_stops [of 0 "lex_str ends_early" 0 SLY_VOID ends_early SLY_NULL sly_start]
  by (simp add: lex_ends_early numeral_2_eq_2 del: parse_loop.simps)


end
