(* ===== verification/Sly_Compile.thy ===== *)
theory Sly_Compile
  imports Sly_Parser
begin

text \<open>
  The compiler from expanded syntax to byte code (src/sly_compile.c).  The scopes are the list
  \<open>cc_scopes\<close> of the state, the innermost first.  A line number is the index of a syntax object, or -1.
  Syntax is data and may be circular, so the recursion is fuelled; each form of the language is a
  definition of its own that takes the compiler of expressions as an argument.  What is printed before
  an exception is left out.
\<close>

section \<open>Keywords and the properties of symbols\<close>

datatype kw = kw_define | kw_lambda | kw_quote | kw_syntax_quote | kw_begin | kw_if | kw_set
  | kw_define_syntax | kw_call_with_continuation | kw_call_cc | kw_call_with_values | kw_apply

definition kws :: "kw list" where
  "kws = [kw_define, kw_lambda, kw_quote, kw_syntax_quote, kw_begin, kw_if, kw_set,
     kw_define_syntax, kw_call_with_continuation, kw_call_cc, kw_call_with_values, kw_apply]"

fun keyword_name :: "kw \<Rightarrow> string" where
  "keyword_name kw_define = ''define''"
| "keyword_name kw_lambda = ''lambda''"
| "keyword_name kw_quote = ''quote''"
| "keyword_name kw_syntax_quote = ''syntax-quote''"
| "keyword_name kw_set = ''set!''"
| "keyword_name kw_begin = ''begin''"
| "keyword_name kw_if = ''if''"
| "keyword_name kw_define_syntax = ''define-syntax''"
| "keyword_name kw_call_with_continuation = ''call-with-continuation''"
| "keyword_name kw_call_cc = ''call/cc''"
| "keyword_name kw_call_with_values = ''call-with-values''"
| "keyword_name kw_apply = ''apply''"

datatype symbol_type = sym_datum | sym_keyword | sym_variable | sym_arg | sym_upval | sym_global | sym_constant

fun sym_code :: "symbol_type \<Rightarrow> 8 word" where
  "sym_code sym_datum = 0"
| "sym_code sym_keyword = 1"
| "sym_code sym_variable = 2"
| "sym_code sym_arg = 3"
| "sym_code sym_upval = 4"
| "sym_code sym_global = 5"
| "sym_code sym_constant = 6"

text \<open>\<open>union symbol_properties\<close>: the fields of the word \<open>v\<close>, and setting one of them.\<close>

definition sp_type :: "sly_value \<Rightarrow> 8 word" where "sp_type v = ucast v"
definition sp_isundefined :: "sly_value \<Rightarrow> 8 word" where "sp_isundefined v = ucast (drop_bit 16 v)"
definition sp_reg :: "sly_value \<Rightarrow> int" where "sp_reg v = sint (ucast (drop_bit 32 v) :: 32 word)"

definition sp_set_type :: "symbol_type \<Rightarrow> sly_value \<Rightarrow> sly_value" where
  "sp_set_type t v = (v AND NOT 0xff) OR ucast (sym_code t)"

definition sp_set_issyntax :: "8 word \<Rightarrow> sly_value \<Rightarrow> sly_value" where
  "sp_set_issyntax b v = (v AND NOT 0xff00) OR push_bit 8 (ucast b)"

definition sp_set_isundefined :: "8 word \<Rightarrow> sly_value \<Rightarrow> sly_value" where
  "sp_set_isundefined b v = (v AND NOT 0xff0000) OR push_bit 16 (ucast b)"

definition sp_set_reg :: "int \<Rightarrow> sly_value \<Rightarrow> sly_value" where
  "sp_set_reg r v = (v AND 0xffffffff) OR push_bit 32 (ucast (word_of_int r :: 32 word))"

definition has_type :: "symbol_type \<Rightarrow> sly_value \<Rightarrow> bool" where
  "has_type t v \<longleftrightarrow> sp_type v = sym_code t"

section \<open>The helpers\<close>

text \<open>\<open>CAR\<close> and \<open>CDR\<close> look through a syntax object.\<close>

definition CAR :: "sly_value \<Rightarrow> sly_value sly" where
  "CAR v = bnd (ifM (syntax_p v) (syntax_to_datum v) (ret v)) sly_car"

definition CDR :: "sly_value \<Rightarrow> sly_value sly" where
  "CDR v = bnd (ifM (syntax_p v) (syntax_to_datum v) (ret v)) sly_cdr"

definition error_unless :: "bool \<Rightarrow> string \<Rightarrow> unit sly" where
  "error_unless b msg = (if b then ret () else sly_raise_exception EXC_COMPILE msg)"

text \<open>\<open>if (!null_p (CDR (form))) sly_raise_exception (...)\<close>.\<close>

definition end_of_form :: "sly_value \<Rightarrow> string \<Rightarrow> unit sly" where
  "end_of_form form msg = bnd (CDR form) (\<lambda>d. error_unless (null_p d) msg)"

definition cscope :: "scope sly" where
  "cscope = bnd (gets cc_scopes) (\<lambda>scs. case scs of [] \<Rightarrow> fail (UB ''no scope'') | sc # _ \<Rightarrow> ret sc)"

definition cproto :: "sly_value sly" where
  "cproto = bnd cscope (\<lambda>sc. ret (sc_proto sc))"

definition IS_GLOBAL :: "scope list \<Rightarrow> bool" where
  "IS_GLOBAL scs \<longleftrightarrow> (case scs of [_] \<Rightarrow> True | _ \<Rightarrow> False)"

definition proto_update :: "sly_value \<Rightarrow> (prototype \<Rightarrow> prototype) \<Rightarrow> unit sly" where
  "proto_update pr f = bnd (as_proto pr) (\<lambda>p. sly_obj_set pr (SProto (f p)))"

definition emit :: "sly_value \<Rightarrow> INSTR \<Rightarrow> unit sly" where
  "emit pr i = bnd (as_proto pr) (\<lambda>p. vector_append (p_code p) i)"

definition code_len :: "sly_value \<Rightarrow> nat sly" where
  "code_len pr = bnd (as_proto pr) (\<lambda>p. vector_len (p_code p))"

text \<open>An operand stored in a byte or in sixteen bits, and no line.\<close>

definition r8 :: "int \<Rightarrow> 8 word" where "r8 = word_of_int"
definition r16 :: "int \<Rightarrow> 16 word" where "r16 = word_of_int"
definition no_ln :: "32 word" where "no_ln = - 1"

text \<open>\<open>if ((size_t) reg >= proto->nregs) proto->nregs = reg + 1\<close>.\<close>

definition reserve :: "sly_value \<Rightarrow> int \<Rightarrow> unit sly" where
  "reserve pr reg = proto_update pr (\<lambda>p.
     if p_nregs p \<le> unat (word_of_int reg :: 64 word) then p\<lparr>p_nregs := unat (word_of_int (reg + 1) :: 64 word)\<rparr> else p)"

text \<open>A new register or parameter: \<open>nregs++\<close>, and \<open>nvars++\<close>.\<close>

definition new_var :: "sly_value \<Rightarrow> int sly" where
  "new_var pr = bnd (as_proto pr) (\<lambda>p.
     bnd (sly_obj_set pr (SProto (p\<lparr>p_nregs := p_nregs p + 1, p_nvars := p_nvars p + 1\<rparr>))) (\<lambda>_.
     ret (int (p_nregs p))))"

definition is_tail :: "32 word \<Rightarrow> bool" where
  "is_tail ctx \<longleftrightarrow> ctx AND 1 \<noteq> 0"

definition syn_context :: "sly_value \<Rightarrow> (32 word) sly" where
  "syn_context v = bnd (as_syntax v) (\<lambda>(_, _, _, ctx). ret ctx)"

text \<open>\<open>s->context = FLAG_ON (s->context, ctx_tail_pos)\<close>.\<close>

definition mark_tail :: "sly_value \<Rightarrow> unit sly" where
  "mark_tail v = bnd (as_syntax v) (\<lambda>(t, sc, d, ctx). sly_obj_set v (SSyntax t sc d (ctx OR 1)))"

fun keyword_from :: "nat \<Rightarrow> sly_value \<Rightarrow> sly_value list \<Rightarrow> nat option sly" where
  "keyword_from i sm [] = ret None"
| "keyword_from i sm (k # ks) = ifM (symbol_eq sm k) (ret (Some i)) (keyword_from (Suc i) sm ks)"

definition is_keyword :: "sly_value \<Rightarrow> nat option sly" where
  "is_keyword sm = bnd (gets kw_symbols) (keyword_from 0 sm)"

text \<open>The properties of a symbol and the level of the scope that has it; no properties is 0.\<close>

fun lookup_props :: "nat \<Rightarrow> sly_value \<Rightarrow> scope list \<Rightarrow> (sly_value \<times> 32 word) sly" where
  "lookup_props n sm [] = ret (SLY_VOID, 0)"
| "lookup_props n sm (sc # scs) =
     bnd (dictionary_entry_ref n (sc_symtable sc) sm) (\<lambda>entry.
     ifM (slot_is_free entry) (lookup_props n sm scs)
       (bnd (sly_cdr entry) (\<lambda>v. ret (v, sc_level sc))))"

definition symbol_lookup_props :: "nat \<Rightarrow> sly_value \<Rightarrow> (sly_value \<times> 32 word) sly" where
  "symbol_lookup_props n sm = bnd (gets cc_scopes) (lookup_props n sm)"

fun intern_scan :: "nat \<Rightarrow> sly_value \<Rightarrow> sly_value \<Rightarrow> nat \<Rightarrow> nat \<Rightarrow> nat option sly" where
  "intern_scan n vec x i 0 = ret None"
| "intern_scan n vec x i (Suc k) =
     bnd (vector_ref vec i) (\<lambda>y. ifM (sly_equal n x y) (ret (Some i)) (intern_scan n vec x (Suc i) k))"

definition intern_in_vector :: "nat \<Rightarrow> sly_value \<Rightarrow> sly_value \<Rightarrow> nat sly" where
  "intern_in_vector n vec x =
     bnd (vector_len vec) (\<lambda>len.
     bnd (intern_scan n vec x 0 len) (\<lambda>r.
     case r of Some i \<Rightarrow> ret i | None \<Rightarrow> bnd (vector_append vec x) (\<lambda>_. ret len)))"

definition sly_intern_constant :: "nat \<Rightarrow> sly_value \<Rightarrow> nat sly" where
  "sly_intern_constant n x = bnd cproto (\<lambda>pr. bnd (as_proto pr) (\<lambda>p. intern_in_vector n (p_K p) x))"

text \<open>The index as the line of an instruction.\<close>

definition intern_syntax :: "nat \<Rightarrow> sly_value \<Rightarrow> (32 word) sly" where
  "intern_syntax n x =
     bnd cproto (\<lambda>pr. bnd (as_proto pr) (\<lambda>p. bnd (intern_in_vector n (p_syntax_info p) x) (\<lambda>i. ret (of_nat i))))"

definition empty_prototype :: "sly_value sly" where
  "empty_prototype =
     bnd (sly_make_vector 0 8) (\<lambda>u. bnd (sly_make_vector 0 8) (\<lambda>k. bnd (sly_make_vector 0 8) (\<lambda>c.
     make_prototype u k c 0 0 0 False)))"

definition make_scope :: "scope sly" where
  "make_scope =
     bnd make_dictionary (\<lambda>t. bnd empty_prototype (\<lambda>pr.
     ret \<lparr>sc_proto = pr, sc_symtable = t, sc_level = 0\<rparr>))"

fun init_keywords :: "nat \<Rightarrow> sly_value \<Rightarrow> kw list \<Rightarrow> unit sly" where
  "init_keywords n symtable [] = ret ()"
| "init_keywords n symtable (k # ks) =
     bnd (make_symbol n (cstr (keyword_name k))) (\<lambda>sm.
     bnd (dictionary_set n symtable sm (sp_set_type sym_keyword 0)) (\<lambda>_.
     bnd (modify (\<lambda>s. s\<lparr>kw_symbols := kw_symbols s @ [sm]\<rparr>)) (\<lambda>_.
     init_keywords n symtable ks)))"

definition init_symtable :: "nat \<Rightarrow> sly_value \<Rightarrow> unit sly" where
  "init_symtable n symtable =
     bnd (modify (\<lambda>s. s\<lparr>kw_symbols := []\<rparr>)) (\<lambda>_. init_keywords n symtable kws)"

section \<open>Variables\<close>

text \<open>\<open>union uplookup\<close>.\<close>

definition up_info :: "bool \<Rightarrow> int \<Rightarrow> sly_value" where
  "up_info isup reg = ucast (if isup then 1 else 0 :: 8 word) OR push_bit 8 (ucast (r8 reg))"

text \<open>A variable of an outer scope is passed inwards through the upvalues of every scope between.\<close>

fun resolve_upval :: "nat \<Rightarrow> scope list \<Rightarrow> sly_value \<Rightarrow> sly_value \<Rightarrow> 32 word \<Rightarrow> sly_value sly" where
  "resolve_upval n [] sm prop level = fail (UB ''no scope'')"
| "resolve_upval n (sc # parents) sm prop level =
     (case parents of [] \<Rightarrow> fail (UB ''no scope'')
      | parent # _ \<Rightarrow>
        bnd (if sc_level parent \<noteq> level then resolve_upval n parents sm prop level else ret prop) (\<lambda>prop.
        bnd (if has_type sym_upval prop then ret True
             else if has_type sym_variable prop \<or> has_type sym_arg prop then ret False
             else sly_raise_exception EXC_COMPILE ''Compile error'') (\<lambda>isup.
        bnd (as_proto (sc_proto sc)) (\<lambda>p.
        bnd (vector_len (p_uplist p)) (\<lambda>len.
        let upprop = sp_set_reg (int len + 1) (sp_set_type sym_upval 0) in
        bnd (vector_append (p_uplist p) (up_info isup (sp_reg prop))) (\<lambda>_.
        bnd (dictionary_set n (sc_symtable sc) sm upprop) (\<lambda>_. ret upprop)))))))"

text \<open>A variable that is not of the current scope, nor global, becomes an upvalue of it.\<close>

definition localize :: "nat \<Rightarrow> sly_value \<Rightarrow> sly_value \<Rightarrow> 32 word \<Rightarrow> sly_value sly" where
  "localize n sm prop level =
     bnd (gets cc_scopes) (\<lambda>scs. bnd cscope (\<lambda>sc.
     if sc_level sc \<noteq> level \<and> \<not> has_type sym_global prop then resolve_upval n scs sm prop level else ret prop))"

text \<open>The constant of a global variable; a scope inside remembers it.\<close>

definition global_reg :: "nat \<Rightarrow> sly_value \<Rightarrow> sly_value \<Rightarrow> sly_value sly" where
  "global_reg n sm prop =
     bnd (sly_intern_constant n sm) (\<lambda>i.
     let prop' = sp_set_reg (int i) prop in
     bnd (gets cc_scopes) (\<lambda>scs. bnd cscope (\<lambda>sc.
     bnd (if IS_GLOBAL scs then ret () else dictionary_set n (sc_symtable sc) sm prop') (\<lambda>_. ret prop'))))"

fun forward_scan_block :: "nat \<Rightarrow> sly_value \<Rightarrow> sly_value \<Rightarrow> unit sly" where
  "forward_scan_block 0 prop form = fail NoFuel"
| "forward_scan_block (Suc n) prop form =
     (if null_p form then ret ()
      else bnd (CAR form) (\<lambda>expr.
        bnd (ifM (ifM (pair_p expr) (ret True) (syntax_pair_p expr))
          (bnd (CAR expr) (\<lambda>h. ifM (identifier_p h)
            (bnd (syntax_to_datum h) (\<lambda>name. bnd (CDR expr) (\<lambda>rest.
             let define = (\<lambda>prop.
               bnd (CAR rest) (\<lambda>v.
               bnd (ifM (ifM (pair_p v) (ret True) (syntax_pair_p v)) (CAR v) (ret v)) (\<lambda>idn.
               bnd (syntax_to_datum idn) (\<lambda>var.
               bnd (gets cc_scopes) (\<lambda>scs. bnd cscope (\<lambda>sc.
               bnd (if IS_GLOBAL scs then
                   bnd (sly_intern_constant n var) (\<lambda>i.
                   bnd (gets cc_globals) (\<lambda>globals.
                   bnd (dictionary_set n globals var SLY_VOID) (\<lambda>_.
                   ret (sp_set_reg (int i) (sp_set_type sym_global prop)))))
                 else bnd (new_var (sc_proto sc)) (\<lambda>r. ret (sp_set_reg r (sp_set_type sym_variable prop)))) (\<lambda>prop'.
               bnd (dictionary_set n (sc_symtable sc) var prop') (\<lambda>_. ret prop')))))))) in
             bnd (make_symbol n (cstr ''begin'')) (\<lambda>kb. ifM (symbol_eq name kb)
               (bnd (forward_scan_block n (sp_set_isundefined 1 0) rest) (\<lambda>_. ret prop))
             (bnd (make_symbol n (cstr ''define-syntax'')) (\<lambda>ks. ifM (symbol_eq name ks)
               (define (sp_set_issyntax 1 prop))
             (bnd (make_symbol n (cstr ''define'')) (\<lambda>kd. ifM (symbol_eq name kd)
               (define prop) (ret prop)))))))))
            (ret prop)))
          (ret prop)) (\<lambda>prop'.
        bnd (CDR form) (forward_scan_block n prop'))))"

section \<open>Forms\<close>

type_synonym compiler = "sly_value \<Rightarrow> int \<Rightarrow> int sly"

text \<open>\<open>if (r != -1 && r != reg)\<close> a move to \<open>reg\<close>; the line is what \<open>line\<close> gives.\<close>

definition move_to :: "sly_value \<Rightarrow> int \<Rightarrow> int \<Rightarrow> (32 word) sly \<Rightarrow> unit sly" where
  "move_to pr reg r line =
     (if r \<noteq> - 1 \<and> r \<noteq> reg then bnd line (\<lambda>l. emit pr (iAB (op_num OP_MOVE) (r8 reg) (r8 r) l)) else ret ())"

definition comp_define :: "nat \<Rightarrow> compiler \<Rightarrow> compiler" where
  "comp_define n ce form0 reg =
     bnd (CAR form0) (\<lambda>idn.
     bnd (CDR form0) (\<lambda>form1.
     bnd (CAR form1) (\<lambda>stx0.
     bnd cscope (\<lambda>sc.
     bnd (ifM (syntax_pair_p stx0)
        (bnd (CAR stx0) (\<lambda>name. bnd (syntax_to_datum name) (\<lambda>var. bnd (CDR stx0) (\<lambda>params.
         bnd (make_symbol n (cstr ''lambda'')) (\<lambda>lam. bnd (datum_to_syntax n idn lam) (\<lambda>kl.
         bnd (CDR form1) (\<lambda>body. bnd (sly_cons params body) (\<lambda>l.
         bnd (sly_cons kl l) (\<lambda>f. bnd (make_syntax no_token f) (\<lambda>lambda.
         bnd (sly_cons lambda SLY_NULL) (\<lambda>f'. bnd (make_syntax no_token f') (\<lambda>form.
         ret (name, var, form)))))))))))))
        (bnd (syntax_to_datum stx0) (\<lambda>var. bnd (CDR form1) (\<lambda>form. ret (stx0, var, form))))) (\<lambda>(stx, var, form).
     bnd (symbol_lookup_props n var) (\<lambda>(prop0, _).
     bnd (error_unless (\<not> void_p prop0) ''Error definition form ouside definition context'') (\<lambda>_.
     bnd (error_unless (sp_isundefined prop0 \<noteq> 0) ''Error re-definition of local variable'') (\<lambda>_.
     bnd (symbol_p var) (\<lambda>is_sym.
     bnd (error_unless is_sym ''Error variable name must be a symbol'') (\<lambda>_.
     let prop = sp_set_isundefined 0 prop0; pr = sc_proto sc in
     bnd (dictionary_set n (sc_symtable sc) var prop) (\<lambda>_.
     if has_type sym_global prop then
       bnd (gets cc_globals) (\<lambda>globals.
       bnd (syntax_to_datum stx) (\<lambda>datum.
       bnd (ifM (ifM (pair_p datum) (ret True) (symbol_p datum))
          (bnd (dictionary_set n globals var SLY_VOID) (\<lambda>_.
           bnd (CAR form) (\<lambda>e. bnd (ce e reg) (\<lambda>_.
           bnd (reserve pr (reg + 1)) (\<lambda>_.
           bnd (intern_syntax n stx) (\<lambda>t.
           bnd (emit pr (iABx (op_num OP_LOADK) (r8 (reg + 1)) (r16 (sp_reg prop)) t)) (\<lambda>_.
           emit pr (iABC (op_num OP_SETUPDICT) 0 (r8 (reg + 1)) (r8 reg) t))))))))
          (dictionary_set n globals var datum)) (\<lambda>_.
       bnd (end_of_form form ''Compile Error malformed define'') (\<lambda>_. ret reg))))
     else
       bnd (CAR form) (\<lambda>e. bnd (ce e (sp_reg prop)) (\<lambda>_.
       bnd (end_of_form form ''Compile Error malformed define'') (\<lambda>_.
       bnd (as_proto pr) (\<lambda>p. ret (int (p_nvars p)))))))))))))))))"

definition comp_if :: "nat \<Rightarrow> compiler \<Rightarrow> compiler" where
  "comp_if n ce form0 reg =
     bnd cproto (\<lambda>pr.
     bnd (CDR form0) (\<lambda>f1. bnd (CAR f1) (\<lambda>boolexpr.
     bnd (CDR f1) (\<lambda>f2. bnd (CAR f2) (\<lambda>tbranch.
     bnd (CDR f2) (\<lambda>f3. bnd (CAR f3) (\<lambda>fbranch.
     bnd (CDR f3) (\<lambda>f4.
     bnd (error_unless (null_p f4) ''Compile Error malformed if expression'') (\<lambda>_.
     let mark = (\<lambda>b. if b \<noteq> 0 then bnd (syn_context form0) (\<lambda>ctx. if is_tail ctx then mark_tail b else ret ()) else ret ());
         branch = (\<lambda>b.
           bnd (ifM (syntax_p b) (intern_syntax n b) (ret no_ln)) (\<lambda>t.
           bnd (ce b reg) (\<lambda>ex.
           bnd (move_to pr reg ex (ret t)) (\<lambda>_. ret t)))) in
     bnd (mark tbranch) (\<lambda>_.
     bnd (mark fbranch) (\<lambda>_.
     bnd (ce boolexpr reg) (\<lambda>be.
     bnd (code_len pr) (\<lambda>fjmp.
     bnd (emit pr 0) (\<lambda>_.
     bnd (branch tbranch) (\<lambda>_.
     bnd (code_len pr) (\<lambda>jmp.
     bnd (emit pr 0) (\<lambda>_.
     bnd (branch fbranch) (\<lambda>t.
     bnd (code_len pr) (\<lambda>last.
     bnd (as_proto pr) (\<lambda>p.
     bnd (vector_set (p_code p) fjmp
       (iABx (op_num OP_FJMP) (r8 (if be = - 1 then reg else be)) (r16 (int jmp + 1)) t)) (\<lambda>_.
     bnd (lift (iAx (op_num OP_JMP) (of_nat last) no_ln)) (\<lambda>j.
     bnd (vector_set (p_code p) jmp j) (\<lambda>_. ret reg)))))))))))))))))))))))"

definition comp_set :: "nat \<Rightarrow> compiler \<Rightarrow> compiler" where
  "comp_set n ce form0 reg =
     bnd (CDR form0) (\<lambda>form. bnd (CAR form) (\<lambda>stx.
     bnd (syntax_to_datum stx) (\<lambda>datum.
     bnd cproto (\<lambda>pr.
     bnd (intern_syntax n stx) (\<lambda>src_info.
     bnd (symbol_p datum) (\<lambda>is_sym.
     bnd (error_unless is_sym ''Error must be a variable'') (\<lambda>_.
     bnd (symbol_lookup_props n datum) (\<lambda>(prop0, level).
     bnd (error_unless (\<not> void_p prop0) ''Error undefined symbol (418)'') (\<lambda>_.
     bnd cscope (\<lambda>sc.
     bnd (error_unless (\<not> (sc_level sc = level \<and> sp_isundefined prop0 \<noteq> 0))
       ''Error symbol assigned before it is defined (418)'') (\<lambda>_.
     bnd (localize n datum prop0 level) (\<lambda>prop.
     bnd (CDR form) (\<lambda>form'. bnd (CAR form') (\<lambda>e.
     bnd (ce e reg) (\<lambda>val.
     bnd (reserve pr (val + 1)) (\<lambda>_.
     bnd (if has_type sym_variable prop \<or> has_type sym_arg prop then
            (if val \<noteq> - 1 \<and> sp_reg prop \<noteq> val
             then bnd (emit pr (iAB (op_num OP_MOVE) (r8 (sp_reg prop)) (r8 val) src_info)) (\<lambda>_. ret reg) else ret reg)
          else if has_type sym_global prop then
            bnd (global_reg n datum prop) (\<lambda>prop'.
            let (val, reg) = (if val = - 1 then (reg, reg + 1) else (val, reg));
                reg = (if val = reg then reg + 1 else reg) in
            bnd (reserve pr (reg + 1)) (\<lambda>_.
            bnd (emit pr (iABx (op_num OP_LOADK) (r8 reg) (r16 (sp_reg prop')) src_info)) (\<lambda>_.
            bnd (emit pr (iABC (op_num OP_SETUPDICT) 0 (r8 reg) (r8 val) src_info)) (\<lambda>_. ret reg))))
          else if has_type sym_upval prop then
            bnd (emit pr (iAB (op_num OP_SETUPVAL) (r8 (sp_reg prop)) (r8 val) src_info)) (\<lambda>_. ret reg)
          else ret reg) (\<lambda>reg'.
     bnd (end_of_form form' ''Error malformed set! expression'') (\<lambda>_. ret reg'))))))))))))))))))"

definition comp_atom :: "nat \<Rightarrow> compiler" where
  "comp_atom n form reg =
     bnd cproto (\<lambda>pr.
     bnd (reserve pr reg) (\<lambda>_.
     bnd (if null_p form \<or> void_p form then ret (form, no_ln)
          else bnd (syntax_to_datum form) (\<lambda>d. bnd (intern_syntax n form) (\<lambda>t. ret (d, t)))) (\<lambda>(datum, src_info).
     ifM (symbol_p datum)
       (bnd (symbol_lookup_props n datum) (\<lambda>(prop0, level).
        bnd (localize n datum (if void_p prop0 then sp_set_type sym_global prop0 else prop0) level) (\<lambda>prop.
        if has_type sym_variable prop \<or> has_type sym_arg prop then ret (sp_reg prop)
        else if has_type sym_constant prop then
          bnd (emit pr (iABx (op_num OP_LOADK) (r8 reg) (r16 (sp_reg prop)) src_info)) (\<lambda>_. ret reg)
        else if has_type sym_datum prop then fail (Assert ''Syntax Datum??'')
        else if has_type sym_keyword prop then sly_raise_exception EXC_COMPILE ''Unexpected keyword''
        else if has_type sym_upval prop then
          bnd (emit pr (iAB (op_num OP_GETUPVAL) (r8 reg) (r8 (sp_reg prop)) src_info)) (\<lambda>_. ret reg)
        else if has_type sym_global prop then
          bnd (global_reg n datum prop) (\<lambda>prop'.
          bnd (emit pr (iABx (op_num OP_LOADK) (r8 reg) (r16 (sp_reg prop')) src_info)) (\<lambda>_.
          bnd (emit pr (iABC (op_num OP_GETUPDICT) (r8 reg) 0 (r8 reg) src_info)) (\<lambda>_. ret reg)))
        else ret reg)))
       (bnd (if datum = SLY_FALSE then emit pr (iA (op_num OP_LOADFALSE) (r8 reg) src_info)
        else if datum = SLY_TRUE then emit pr (iA (op_num OP_LOADTRUE) (r8 reg) src_info)
        else if null_p datum then emit pr (iA (op_num OP_LOADNULL) (r8 reg) src_info)
        else if void_p datum then emit pr (iA (op_num OP_LOADVOID) (r8 reg) src_info)
        else
          bnd (ifM (int_p datum) (bnd (get_int datum) (\<lambda>i. ret (if - (2 ^ 15) \<le> i \<and> i < 2 ^ 15 then Some i else None)))
                 (ret None)) (\<lambda>small.
          case small of
            Some i \<Rightarrow> bnd (reserve pr reg) (\<lambda>_. emit pr (iABx (op_num OP_LOADI) (r8 reg) (r16 i) src_info))
          | None \<Rightarrow>
              bnd (sly_intern_constant n datum) (\<lambda>idx.
              bnd (reserve pr reg) (\<lambda>_. emit pr (iABx (op_num OP_LOADK) (r8 reg) (r16 (int idx)) src_info))))) (\<lambda>_.
        ret reg)))))"

text \<open>One operand of a call; the line of a move is that of the operand.\<close>

definition comp_operand :: "nat \<Rightarrow> compiler \<Rightarrow> sly_value \<Rightarrow> sly_value \<Rightarrow> int \<Rightarrow> unit sly" where
  "comp_operand n ce pr e reg = bnd (ce e reg) (\<lambda>reg2. move_to pr reg reg2 (intern_syntax n e))"

fun comp_args :: "nat \<Rightarrow> compiler \<Rightarrow> sly_value \<Rightarrow> sly_value \<Rightarrow> int \<Rightarrow> int sly" where
  "comp_args 0 ce pr form reg = fail NoFuel"
| "comp_args (Suc n) ce pr form reg =
     (if null_p form then ret reg
      else bnd (CAR form) (\<lambda>e.
        bnd (comp_operand (Suc n) ce pr e reg) (\<lambda>_.
        bnd (CDR form) (\<lambda>rest. comp_args n ce pr rest (reg + 1)))))"

text \<open>The call is a tail call when the syntax of its head is marked so.\<close>

definition comp_funcall :: "nat \<Rightarrow> compiler \<Rightarrow> compiler" where
  "comp_funcall n ce form reg =
     bnd cproto (\<lambda>pr.
     bnd (CAR form) (\<lambda>head.
     bnd (CDR form) (\<lambda>rest.
     bnd (comp_operand n ce pr head reg) (\<lambda>_.
     bnd (comp_args n ce pr rest (reg + 1)) (\<lambda>last.
     bnd (intern_syntax n head) (\<lambda>src_info.
     bnd (syn_context head) (\<lambda>ctx.
     bnd (emit pr (iAB (op_num (if is_tail ctx then OP_TAILCALL else OP_CALL)) (r8 reg) (r8 last) src_info)) (\<lambda>_.
     bnd (reserve pr last) (\<lambda>_. ret reg)))))))))"

fun comp_params :: "nat \<Rightarrow> sly_value \<Rightarrow> sly_value \<Rightarrow> sly_value \<Rightarrow> sly_value sly" where
  "comp_params 0 pr symtable args = fail NoFuel"
| "comp_params (Suc n) pr symtable args =
     ifM (ifM (pair_p args) (ret True) (syntax_pair_p args))
       (bnd (CAR args) (\<lambda>stx. bnd (syntax_to_datum stx) (\<lambda>sm.
        bnd (symbol_p sm) (\<lambda>is_sym.
        bnd (error_unless is_sym ''Compile error function parameter must be a symbol'') (\<lambda>_.
        bnd (new_var pr) (\<lambda>r.
        bnd (proto_update pr (\<lambda>p. p\<lparr>p_nargs := p_nargs p + 1\<rparr>)) (\<lambda>_.
        bnd (dictionary_set (Suc n) symtable sm (sp_set_reg r (sp_set_type sym_arg 0))) (\<lambda>_.
        bnd (CDR args) (comp_params n pr symtable)))))))))
       (ret args)"

fun comp_body :: "nat \<Rightarrow> compiler \<Rightarrow> sly_value \<Rightarrow> sly_value \<Rightarrow> sly_value sly" where
  "comp_body 0 ce pr form = fail NoFuel"
| "comp_body (Suc n) ce pr form =
     bnd (CDR form) (\<lambda>d.
     if null_p d then ret form
     else bnd (CAR form) (\<lambda>e. bnd (as_proto pr) (\<lambda>p.
       bnd (ce e (int (p_nvars p))) (\<lambda>_. bnd (CDR form) (comp_body n ce pr)))))"

definition comp_lambda :: "nat \<Rightarrow> compiler \<Rightarrow> compiler" where
  "comp_lambda n ce form0 preg =
     bnd cscope (\<lambda>outer.
     bnd make_scope (\<lambda>sc0.
     let sc = sc0\<lparr>sc_level := sc_level outer + 1\<rparr>; pr = sc_proto sc; symtable = sc_symtable sc in
     bnd (modify (\<lambda>s. s\<lparr>cc_scopes := sc # cc_scopes s\<rparr>)) (\<lambda>_.
     bnd (CDR form0) (\<lambda>stx.
     bnd (CAR stx) (\<lambda>params.
     bnd (CDR stx) (\<lambda>form.
     bnd (proto_update pr (\<lambda>p. p\<lparr>p_nargs := 0, p_nregs := 0\<rparr>)) (\<lambda>_.
     bnd (comp_params n pr symtable params) (\<lambda>args.
     bnd (if null_p args then ret ()
          else bnd (syntax_to_datum args) (\<lambda>sm.
            bnd (symbol_p sm) (\<lambda>is_sym.
            bnd (error_unless is_sym ''Compile error function parameter must be a symbol'') (\<lambda>_.
            bnd (proto_update pr (\<lambda>p. p\<lparr>p_has_varg := True\<rparr>)) (\<lambda>_.
            bnd (new_var pr) (\<lambda>r. dictionary_set n symtable sm (sp_set_reg r (sp_set_type sym_arg 0)))))))) (\<lambda>_.
     bnd (forward_scan_block n (sp_set_isundefined 1 0) form) (\<lambda>_.
     bnd (error_unless (\<not> null_p form) ''Compile Error empty function body'') (\<lambda>_.
     bnd (comp_body n ce pr form) (\<lambda>form'.
     bnd (CAR form') (\<lambda>e.
     bnd (mark_tail e) (\<lambda>_.
     bnd (as_proto pr) (\<lambda>p. let nv = int (p_nvars p) in
     bnd (emit pr (iA (op_num OP_LOADCONT) (r8 nv) no_ln)) (\<lambda>_.
     bnd (ce e (nv + 1)) (\<lambda>r.
     bnd (as_proto pr) (\<lambda>p. let nv = int (p_nvars p) in
     bnd (move_to pr (nv + 1) r (ret no_ln)) (\<lambda>_.
     bnd (reserve pr (if r = - 1 then preg else r)) (\<lambda>_.
     bnd (emit pr (iAB (op_num OP_TAILCALL) (r8 nv) (r8 (nv + 2)) no_ln)) (\<lambda>_.
     bnd (modify (\<lambda>s. s\<lparr>cc_scopes := tl (cc_scopes s)\<rparr>)) (\<lambda>_.
     bnd cproto (\<lambda>cpr.
     bnd (as_proto cpr) (\<lambda>cp.
     bnd (vector_len (p_K cp)) (\<lambda>i.
     bnd (vector_append (p_K cp) pr) (\<lambda>_.
     bnd (modify (\<lambda>s. s\<lparr>last_compiled_prototype := pr\<rparr>)) (\<lambda>_.
     bnd (reserve cpr preg) (\<lambda>_.
     bnd (intern_syntax n stx) (\<lambda>src_info.
     bnd (emit cpr (iABx (op_num OP_CLOSURE) (r8 preg) (r16 (int i)) src_info)) (\<lambda>_.
     ret preg))))))))))))))))))))))))))))))"

text \<open>A quotation, of the datum or of the syntax.\<close>

definition quoted :: "sly_value \<Rightarrow> sly_value sly" where
  "quoted form0 = bnd (CDR form0) (\<lambda>form. bnd (end_of_form form ''Error malformed quote'') (\<lambda>_. CAR form))"

definition comp_quote :: "nat \<Rightarrow> sly_value \<Rightarrow> compiler" where
  "comp_quote n stx form0 reg =
     bnd (quoted form0) (\<lambda>x. bnd (strip_syntax n x) (\<lambda>form.
     bnd cproto (\<lambda>pr. bnd (intern_syntax n stx) (\<lambda>src_info.
     bnd (if null_p form then emit pr (iA (op_num OP_LOADNULL) (r8 reg) src_info)
      else if form = SLY_TRUE then emit pr (iA (op_num OP_LOADTRUE) (r8 reg) src_info)
      else if form = SLY_FALSE then emit pr (iA (op_num OP_LOADFALSE) (r8 reg) src_info)
      else bnd (sly_intern_constant n form) (\<lambda>k. emit pr (iABx (op_num OP_LOADK) (r8 reg) (r16 (int k)) src_info))) (\<lambda>_.
     ret reg)))))"

definition comp_syntax_quote :: "nat \<Rightarrow> sly_value \<Rightarrow> compiler" where
  "comp_syntax_quote n stx form0 reg =
     bnd (quoted form0) (\<lambda>form.
     bnd cproto (\<lambda>pr. bnd (intern_syntax n stx) (\<lambda>src_info.
     bnd (sly_intern_constant n form) (\<lambda>k.
     bnd (reserve pr reg) (\<lambda>_.
     bnd (emit pr (iABx (op_num OP_LOADK) (r8 reg) (r16 (int k)) src_info)) (\<lambda>_. ret reg))))))"

fun begin_loop :: "nat \<Rightarrow> compiler \<Rightarrow> sly_value \<Rightarrow> int \<Rightarrow> sly_value sly" where
  "begin_loop 0 ce form reg = fail NoFuel"
| "begin_loop (Suc n) ce form reg =
     bnd (CDR form) (\<lambda>d.
     if null_p d then ret form
     else bnd (CAR form) (\<lambda>e. bnd (ce e reg) (\<lambda>_. bnd (CDR form) (\<lambda>rest. begin_loop n ce rest reg))))"

definition comp_begin :: "nat \<Rightarrow> compiler \<Rightarrow> compiler" where
  "comp_begin n ce form0 reg =
     bnd (CDR form0) (\<lambda>form.
     bnd (begin_loop n ce form reg) (\<lambda>form'.
     bnd (syn_context form0) (\<lambda>ctx.
     bnd (if is_tail ctx then bnd (CAR form') mark_tail else ret ()) (\<lambda>_.
     bnd (CAR form') (\<lambda>e. ce e reg)))))"

definition comp_call_cc :: "nat \<Rightarrow> compiler \<Rightarrow> sly_value \<Rightarrow> compiler" where
  "comp_call_cc n ce stx form0 reg =
     bnd cproto (\<lambda>pr. bnd (intern_syntax n stx) (\<lambda>src_info.
     bnd (CDR form0) (\<lambda>form. bnd (CAR form) (\<lambda>e. bnd (ce e reg) (\<lambda>reg2.
     bnd (syn_context form0) (\<lambda>ctx.
     bnd (emit pr (iABC (op_num OP_CALLWCC) (r8 reg) (r8 reg2) (if is_tail ctx then 1 else 0) src_info)) (\<lambda>_.
     bnd (end_of_form form ''Error malformed display expression'') (\<lambda>_. ret reg))))))))"

definition comp_call_with_values :: "compiler \<Rightarrow> compiler" where
  "comp_call_with_values ce form0 reg =
     bnd cproto (\<lambda>pr. bnd (CDR form0) (\<lambda>form. bnd (CAR form) (\<lambda>e.
     bnd (ce e reg) (\<lambda>r2.
     bnd (move_to pr reg r2 (ret no_ln)) (\<lambda>_.
     let reg2 = (if r2 \<noteq> - 1 \<and> r2 \<noteq> reg then r2 else reg) in
     bnd (CDR form) (\<lambda>d. bnd (CAR d) (\<lambda>e3.
     bnd (ce e3 (reg + 1)) (\<lambda>r3.
     bnd (move_to pr (reg + 1) r3 (ret no_ln)) (\<lambda>_.
     bnd (syn_context form0) (\<lambda>ctx.
     bnd (emit pr (iABC (op_num (if is_tail ctx then OP_CALLWVALUES0 else OP_CALLWVALUES))
       (r8 reg) (r8 reg2) (r8 (reg + 1)) no_ln)) (\<lambda>_. ret reg)))))))))))"

text \<open>The call that was just emitted becomes an \<open>apply\<close>.\<close>

definition set_byte :: "nat \<Rightarrow> 8 word \<Rightarrow> INSTR \<Rightarrow> INSTR" where
  "set_byte i b v = (v AND NOT (push_bit (8 * i) 0xff)) OR push_bit (8 * i) (ucast b)"

definition comp_apply :: "nat \<Rightarrow> compiler \<Rightarrow> compiler" where
  "comp_apply n ce form0 reg =
     bnd (CDR form0) (\<lambda>form.
     bnd (comp_funcall n ce form reg) (\<lambda>reg'.
     bnd cproto (\<lambda>pr. bnd (as_proto pr) (\<lambda>p.
     bnd (vector_pop (p_code p)) (\<lambda>i.
     bnd (syn_context form0) (\<lambda>ctx.
     bnd (vector_append (p_code p) (set_byte 0 (op_num OP_APPLY) (set_byte 3 (if is_tail ctx then 1 else 0) i))) (\<lambda>_.
     ret reg')))))))"

definition comp_keyword :: "nat \<Rightarrow> compiler \<Rightarrow> kw \<Rightarrow> sly_value \<Rightarrow> compiler" where
  "comp_keyword n ce k stx form reg =
     (case k of
        kw_define \<Rightarrow> comp_define n ce form reg
      | kw_lambda \<Rightarrow> comp_lambda n ce form reg
      | kw_quote \<Rightarrow> comp_quote n stx form reg
      | kw_syntax_quote \<Rightarrow> comp_syntax_quote n stx form reg
      | kw_begin \<Rightarrow> comp_begin n ce form reg
      | kw_if \<Rightarrow> comp_if n ce form reg
      | kw_set \<Rightarrow> bnd (comp_set n ce form reg) (\<lambda>_. ret reg)
      | kw_define_syntax \<Rightarrow> comp_define n ce form reg
      | kw_call_with_continuation \<Rightarrow> comp_call_cc n ce stx form reg
      | kw_call_cc \<Rightarrow> comp_call_cc n ce stx form reg
      | kw_call_with_values \<Rightarrow> comp_call_with_values ce form reg
      | kw_apply \<Rightarrow> comp_apply n ce form reg)"

fun comp_expr :: "nat \<Rightarrow> compiler" where
  "comp_expr 0 form reg = fail NoFuel"
| "comp_expr (Suc n) form reg =
     ifM (syntax_pair_p form)
       (bnd (CAR form) (\<lambda>stx.
        ifM (syntax_pair_p stx) (comp_funcall n (comp_expr n) form reg)
          (bnd (syntax_p stx) (\<lambda>is_stx.
           bnd (error_unless is_stx ''expected syntax object'') (\<lambda>_.
           bnd (syntax_to_datum stx) (\<lambda>datum.
           bnd (ifM (symbol_p datum) (is_keyword datum) (ret None)) (\<lambda>k.
           case k of
             Some i \<Rightarrow> comp_keyword n (comp_expr n) (kws ! i) stx form reg
           | None \<Rightarrow> bnd (comp_funcall n (comp_expr n) form reg) (\<lambda>_. ret reg))))))))
       (comp_atom n form reg)"

section \<open>Programs\<close>

text \<open>An exception raised inside leaves the process.\<close>

definition exit_on_raise :: "'a sly \<Rightarrow> 'a sly" where
  "exit_on_raise m s = (case m s of Inl (Raised c msg) \<Rightarrow> Inl (Assert msg) | r \<Rightarrow> r)"

definition sly_compile :: "nat \<Rightarrow> sly_value \<Rightarrow> sly_value sly" where
  "sly_compile n ast =
     bnd (exit_on_raise
       (bnd (modify (\<lambda>s. s\<lparr>handle_except := True\<rparr>)) (\<lambda>_.
        bnd cproto (\<lambda>pr.
        bnd (forward_scan_block n (sp_set_isundefined 1 0) ast) (\<lambda>_.
        bnd (comp_expr n ast 0) (\<lambda>r.
        emit pr (iAB (op_num OP_EXIT) (r8 r) (r8 (r + 1)) no_ln)))))) ) (\<lambda>_.
     bnd (modify (\<lambda>s. s\<lparr>handle_except := False\<rparr>)) (\<lambda>_.
     bnd cproto (\<lambda>pr. bnd (sly_make_closure pr) (\<lambda>cval.
     bnd (as_closure cval) (\<lambda>(upvals, _).
     bnd (gets cc_globals) (\<lambda>globals.
     bnd (make_closed_upvalue globals) (\<lambda>uv.
     bnd (vector_set upvals 0 uv) (\<lambda>_. ret cval))))))))"

text \<open>\<open>cc->cscope->proto = proto\<close>, and a fresh prototype put there.\<close>

definition set_scope_proto :: "sly_value \<Rightarrow> unit sly" where
  "set_scope_proto pr =
     modify (\<lambda>s. s\<lparr>cc_scopes := (case cc_scopes s of [] \<Rightarrow> [] | sc # scs \<Rightarrow> sc\<lparr>sc_proto := pr\<rparr> # scs)\<rparr>)"

definition reset_proto :: "unit sly" where
  "reset_proto = bnd empty_prototype set_scope_proto"

definition sly_compile_lambda :: "nat \<Rightarrow> sly_value \<Rightarrow> sly_value sly" where
  "sly_compile_lambda n ast =
     bnd (sly_compile n ast) (\<lambda>_. bnd reset_proto (\<lambda>_. gets last_compiled_prototype))"

end
