(* ===== verification/Sly_Compile_State.thy ===== *)
theory Sly_Compile_State
  imports Sly_Compile Sly_Machine Sly_DictProps Sly_Exact
begin


text \<open>
  The compiler is correct for expressions made of fixnums, truth values, variables of the current scope and \<open>if\<close>:
  the code it appends, run by the machine of \<open>Sly_Machine\<close>, leaves the value of the expression in the register
  that the compiler answers.
\<close>

section \<open>Expressions and what they are in memory\<close>

datatype lexpr = LInt int | LBool bool | LVar sly_value nat | LIf lexpr lexpr lexpr

definition fixnum :: "int \<Rightarrow> sly_value" where
  "fixnum i = make_imm imm_int (word_of_int i)"

text \<open>The value, in registers that hold the variables.\<close>

fun lvalue :: "sly_value list \<Rightarrow> lexpr \<Rightarrow> sly_value" where
  "lvalue xs (LInt i) = fixnum i"
| "lvalue xs (LBool b) = (if b then SLY_TRUE else SLY_FALSE)"
| "lvalue xs (LVar v r) = xs ! r"
| "lvalue xs (LIf c a b) = (if lvalue xs c = SLY_FALSE then lvalue xs b else lvalue xs a)"

text \<open>A syntax object without scopes, as the parser makes it.\<close>

definition stx_at :: "sly_state \<Rightarrow> sly_value \<Rightarrow> sly_value \<Rightarrow> bool" where
  "stx_at s f d \<longleftrightarrow> ptr_p f \<and> (\<exists>tok ctx. sly_heap s (GET_ADDR f) = Some (SSyntax tok SLY_NULL d ctx))"

definition symbol_at :: "sly_state \<Rightarrow> sly_value \<Rightarrow> 64 word \<Rightarrow> bool" where
  "symbol_at s v h \<longleftrightarrow> key_at s v (KSym h)"

text \<open>A variable or argument of the current scope, kept in register \<open>r\<close>.\<close>

definition local_in :: "sly_state \<Rightarrow> scope \<Rightarrow> sly_value \<Rightarrow> nat \<Rightarrow> bool" where
  "local_in s sc v r \<longleftrightarrow> (\<exists>vs h prop. dict_at key_at atom_hash s (sc_symtable sc) vs \<and>
     Empty \<in> set vs \<and> symbol_at s v h \<and> vmap vs (KSym h) = Some prop \<and>
     (has_type sym_variable prop \<or> has_type sym_arg prop) \<and> sp_reg prop = int r)"

definition local_at :: "sly_state \<Rightarrow> sly_value \<Rightarrow> nat \<Rightarrow> bool" where
  "local_at s v r \<longleftrightarrow> (case cc_scopes s of [] \<Rightarrow> False | sc # _ \<Rightarrow> local_in s sc v r)"

text \<open>The symbol that the compiler takes for the keyword \<open>if\<close>, which is the sixth.\<close>

fun hashes_at :: "sly_state \<Rightarrow> sly_value list \<Rightarrow> 64 word list \<Rightarrow> bool" where
  "hashes_at s [] hs \<longleftrightarrow> hs = []"
| "hashes_at s (k # ks) hs \<longleftrightarrow> (\<exists>h hs'. hs = h # hs' \<and> symbol_at s k h \<and> hashes_at s ks hs')"

definition if_at :: "sly_state \<Rightarrow> sly_value \<Rightarrow> bool" where
  "if_at s v \<longleftrightarrow> (\<exists>hs h. hashes_at s (kw_symbols s) hs \<and> symbol_at s v h \<and> 5 < length hs \<and> hs ! 5 = h \<and> h \<notin> set (take 5 hs))"

definition if_parts :: "sly_state \<Rightarrow> sly_value \<Rightarrow> sly_value \<Rightarrow> sly_value \<Rightarrow> sly_value \<Rightarrow> bool" where
  "if_parts s f fc fa fb \<longleftrightarrow> (\<exists>p0 p1 p2 p3 k v. stx_at s f p0 \<and> spair_at s p0 k p1 \<and> spair_at s p1 fc p2 \<and>
     spair_at s p2 fa p3 \<and> spair_at s p3 fb SLY_NULL \<and> stx_at s k v \<and> if_at s v)"

fun form_at :: "sly_state \<Rightarrow> sly_value \<Rightarrow> lexpr \<Rightarrow> bool" where
  "form_at s f (LInt i) \<longleftrightarrow> stx_at s f (fixnum i) \<and> fits_i32 i"
| "form_at s f (LBool b) \<longleftrightarrow> stx_at s f (if b then SLY_TRUE else SLY_FALSE)"
| "form_at s f (LVar v r) \<longleftrightarrow> stx_at s f v \<and> local_at s v r"
| "form_at s f (LIf c a b) \<longleftrightarrow> (\<exists>fc fa fb. if_parts s f fc fa fb \<and> form_at s fc c \<and> form_at s fa a \<and> form_at s fb b)"

section \<open>What compiling leaves alone\<close>

text \<open>Everything but vectors and prototypes, and the context of a syntax object.\<close>

definition stays :: "sly_obj \<Rightarrow> sly_obj \<Rightarrow> bool" where
  "stays ob ob' \<longleftrightarrow> (if is_SVector ob then is_SVector ob' else if is_SProto ob then is_SProto ob'
     else case ob of SSyntax tok sc d c \<Rightarrow> \<exists>c'. ob' = SSyntax tok sc d c' | _ \<Rightarrow> ob' = ob)"

definition kept :: "sly_state \<Rightarrow> sly_state \<Rightarrow> bool" where
  "kept s t \<longleftrightarrow> cc_scopes t = cc_scopes s \<and> kw_symbols t = kw_symbols s \<and>
     (\<forall>a ob. sly_heap s a = Some ob \<longrightarrow> (\<exists>ob'. sly_heap t a = Some ob' \<and> stays ob ob'))"

lemma stays_refl [simp]: "stays ob ob"
  by (cases ob) (simp_all add: stays_def)

lemma stays_trans: "stays a b \<Longrightarrow> stays b c \<Longrightarrow> stays a c"
  by (cases a; cases b) (auto simp: stays_def)

lemma kept_refl [simp]: "kept s s"
  by (simp add: kept_def)

lemma kept_trans: "kept s t \<Longrightarrow> kept t u \<Longrightarrow> kept s u"
  unfolding kept_def using stays_trans by (metis (no_types, lifting))

lemma kept_heap:
  assumes "kept s t" and "sly_heap s a = Some ob"
  shows "\<exists>ob'. sly_heap t a = Some ob' \<and> stays ob ob'"
  using assms by (simp add: kept_def)

lemma kept_update:
  assumes "sly_heap s a = Some ob" and "stays ob ob'"
  shows "kept s (s\<lparr>sly_heap := (sly_heap s)(a \<mapsto> ob')\<rparr>)"
  using assms by (auto simp: kept_def)

lemma spair_at_kept: "spair_at s v a d \<Longrightarrow> kept s t \<Longrightarrow> spair_at t v a d"
  using kept_heap [of s t "GET_ADDR v"] by (fastforce simp: spair_at_def stays_def)

lemma stx_at_kept: "stx_at s f d \<Longrightarrow> kept s t \<Longrightarrow> stx_at t f d"
  using kept_heap [of s t "GET_ADDR f"] by (fastforce simp: stx_at_def stays_def)

lemma key_at_kept': "key_at s v k \<Longrightarrow> kept s t \<Longrightarrow> key_at t v k"
  using kept_heap [of s t "GET_ADDR v"] by (cases k) (fastforce simp: int_at_def stays_def)+

lemma slot_at_kept': "slot_at key_at s w x \<Longrightarrow> kept s t \<Longrightarrow> slot_at key_at t w x"
  by (cases x) (auto intro: spair_at_kept key_at_kept')

lemma dict_at_kept: "dict_at key_at atom_hash s d vs \<Longrightarrow> kept s t \<Longrightarrow> dict_at key_at atom_hash t d vs"
  using kept_heap [of s t "GET_ADDR d"] slot_at_kept'
  by (fastforce simp: dict_at_def slots_at_def stays_def)

lemma symbol_at_kept: "symbol_at s v h \<Longrightarrow> kept s t \<Longrightarrow> symbol_at t v h"
  unfolding symbol_at_def by (rule key_at_kept')

lemma local_in_kept: "local_in s sc v r \<Longrightarrow> kept s t \<Longrightarrow> local_in t sc v r"
  unfolding local_in_def by (blast intro: dict_at_kept symbol_at_kept)

lemma local_at_kept: "local_at s v r \<Longrightarrow> kept s t \<Longrightarrow> local_at t v r"
  by (auto simp: local_at_def kept_def intro: local_in_kept [unfolded kept_def] split: list.splits)

lemma hashes_at_kept: "hashes_at s ks hs \<Longrightarrow> kept s t \<Longrightarrow> hashes_at t ks hs"
  by (induction ks arbitrary: hs) (auto intro: symbol_at_kept)

lemma if_at_kept:
  assumes "if_at s v" and "kept s t"
  shows "if_at t v"
proof -
  have "kw_symbols t = kw_symbols s"
    using assms(2) by (simp add: kept_def)
  then show ?thesis
    using assms(1) hashes_at_kept [OF _ assms(2)] symbol_at_kept [OF _ assms(2)] unfolding if_at_def by metis
qed

lemma if_parts_kept: "if_parts s f fc fa fb \<Longrightarrow> kept s t \<Longrightarrow> if_parts t f fc fa fb"
  unfolding if_parts_def by (blast intro: spair_at_kept stx_at_kept if_at_kept)

lemma form_at_kept: "form_at s f e \<Longrightarrow> kept s t \<Longrightarrow> form_at t f e"
proof (induction e arbitrary: f)
  case (LIf c a b)
  then show ?case
    unfolding form_at.simps using if_parts_kept by metis
qed (auto intro: stx_at_kept local_at_kept)

section \<open>The state of the compiler\<close>

text \<open>The prototype, its code, its constants and its lines are four objects.\<close>

record compiling =
  c_pr :: sly_value
  c_code :: sly_value
  c_K :: sly_value
  c_info :: sly_value

definition parts_at :: "compiling \<Rightarrow> sly_state \<Rightarrow> scope \<Rightarrow> prototype \<Rightarrow> INSTR list \<Rightarrow> int list \<Rightarrow> sly_value list \<Rightarrow> bool" where
  "parts_at u s sc p code K info \<longleftrightarrow> (\<exists>scs. cc_scopes s = sc # scs) \<and> sc_proto sc = c_pr u \<and>
     sly_heap s (GET_ADDR (c_pr u)) = Some (SProto p) \<and> p_code p = c_code u \<and> p_K p = c_K u \<and> p_syntax_info p = c_info u \<and>
     vec_at s (c_code u) code \<and> vec_at s (c_K u) (map fixnum K) \<and> vec_at s (c_info u) info \<and>
     GET_ADDR (c_code u) \<noteq> GET_ADDR (c_K u) \<and> GET_ADDR (c_code u) \<noteq> GET_ADDR (c_info u) \<and>
     GET_ADDR (c_K u) \<noteq> GET_ADDR (c_info u) \<and> (\<forall>i\<in>set K. fits_i32 i) \<and> (\<forall>x\<in>set info. \<exists>d. stx_at s x d)"

definition cstate :: "compiling \<Rightarrow> sly_state \<Rightarrow> INSTR list \<Rightarrow> int list \<Rightarrow> bool" where
  "cstate u s code K \<longleftrightarrow> (\<exists>sc p info. parts_at u s sc p code K info)"

lemma fixnum_not_ptr: "\<not> ptr_p (fixnum i)"
  by (simp add: fixnum_def imm_not_ptr)

lemma fixnum_int_at: "fits_i32 i \<Longrightarrow> int_at s (fixnum i) i"
  unfolding fixnum_def by (rule fixnum_at)

definition heap_only :: "'a sly \<Rightarrow> bool" where
  "heap_only m \<longleftrightarrow> (\<forall>s x t. m s = Inr (x, t) \<longrightarrow> cc_scopes t = cc_scopes s \<and> kw_symbols t = kw_symbols s)"

lemma heap_only_bnd: "heap_only m \<Longrightarrow> (\<And>x. heap_only (f x)) \<Longrightarrow> heap_only (bnd m f)"
  unfolding heap_only_def bnd_eq_Inr by metis

lemma heap_only_basic:
  "heap_only (ret x)" "heap_only (fail e)" "heap_only (check b msg)" "heap_only (check_ub b msg)" "heap_only (sly_obj_at v)"
  "heap_only (sly_obj_set v ob)"
  by (auto simp: heap_only_def check_eq_Inr check_ub_eq_Inr sly_obj_at_def sly_obj_set_def split: option.splits)

lemma heap_only_vec: "heap_only (sly_vec v)"
  unfolding sly_vec_def expect_def vector_p_def heap_p_def
  by (intro heap_only_bnd) (auto intro: heap_only_basic heap_only_bnd split: sly_obj.splits)

lemma heap_only_append: "heap_only (vector_append v x)"
  unfolding vector_append_def vector_grow_def elem_write_def
  by (intro heap_only_bnd heap_only_vec) (auto intro!: heap_only_basic heap_only_bnd heap_only_vec)

text \<open>A vector is appended to or written, and the rest stays.\<close>

lemma vec_at_only: "vec_at s w ys \<Longrightarrow> only_at v s t \<Longrightarrow> GET_ADDR w \<noteq> GET_ADDR v \<Longrightarrow> vec_at t w ys"
  by (simp add: vec_at_def only_at_def)

lemma only_at_kept:
  assumes "only_at v s t" and "vec_at s v xs" and "vec_at t v ys" and "cc_scopes t = cc_scopes s" "kw_symbols t = kw_symbols s"
  shows "kept s t"
  unfolding kept_def
proof (intro conjI allI impI)
  fix a ob
  assume h: "sly_heap s a = Some ob"
  show "\<exists>ob'. sly_heap t a = Some ob' \<and> stays ob ob'"
  proof (cases "a = GET_ADDR v")
    case True
    then show ?thesis
      using h assms(2,3) by (auto simp: vec_at_def stays_def)
  next
    case False
    then show ?thesis
      using h assms(1) by (auto simp: only_at_def)
  qed
qed (use assms in auto)

lemma append_run:
  assumes "vec_at s v xs"
  shows "\<exists>t. vector_append v x s = Inr ((), t) \<and> vec_at t v (xs @ [x]) \<and> only_at v s t \<and> kept s t"
proof -
  obtain t where t: "vector_append v x s = Inr ((), t)" "vec_at t v (xs @ [x])" "only_at v s t"
    using vec_at_append [OF assms] by blast
  then show ?thesis
    using only_at_kept [OF t(3) assms t(2)] heap_only_append [of v x] unfolding heap_only_def by blast
qed

lemma proto_only_at:
  "sly_heap s a = Some (SProto p) \<Longrightarrow> vec_at s v xs \<Longrightarrow> only_at v s t \<Longrightarrow> sly_heap t a = Some (SProto p)"
  by (cases "a = GET_ADDR v") (auto simp: only_at_def vec_at_def)

text \<open>The parts of a state after a change.\<close>

lemma parts_kept:
  assumes "parts_at u s sc p code K info" and "kept s t" and "sly_heap t (GET_ADDR (c_pr u)) = Some (SProto p')"
    and "p_code p' = p_code p" "p_K p' = p_K p" "p_syntax_info p' = p_syntax_info p"
    and "vec_at t (c_code u) code'" and "vec_at t (c_K u) (map fixnum K')" and "vec_at t (c_info u) info'"
    and "\<forall>i\<in>set K'. fits_i32 i" and "\<forall>x\<in>set info' - set info. \<exists>d. stx_at t x d"
  shows "parts_at u t sc p' code' K' info'"
proof -
  have "\<exists>d. stx_at t x d" if "x \<in> set info'" for x
    using assms(1,11) that stx_at_kept [OF _ assms(2)] unfolding parts_at_def by (cases "x \<in> set info") blast+
  then show ?thesis
    using assms by (auto simp: parts_at_def kept_def)
qed

lemma emit_run:
  assumes "parts_at u s sc p code K info"
  shows "\<exists>t. emit (c_pr u) i s = Inr ((), t) \<and> parts_at u t sc p (code @ [i]) K info \<and> kept s t"
proof -
  have c: "sly_heap s (GET_ADDR (c_pr u)) = Some (SProto p)" "p_code p = c_code u" "vec_at s (c_code u) code"
    "vec_at s (c_K u) (map fixnum K)" "vec_at s (c_info u) info" "\<forall>i\<in>set K. fits_i32 i"
    and a: "GET_ADDR (c_K u) \<noteq> GET_ADDR (c_code u)" "GET_ADDR (c_info u) \<noteq> GET_ADDR (c_code u)"
    using assms by (auto simp: parts_at_def)
  obtain t where t: "vector_append (c_code u) i s = Inr ((), t)" "vec_at t (c_code u) (code @ [i])" "only_at (c_code u) s t" "kept s t"
    using append_run [OF c(3)] by blast
  have "parts_at u t sc p (code @ [i]) K info"
    by (rule parts_kept [OF assms t(4) proto_only_at [OF c(1,3) t(3)] refl refl refl t(2) vec_at_only [OF c(4) t(3) a(1)]
          vec_at_only [OF c(5) t(3) a(2)] c(6)]) simp
  moreover have "emit (c_pr u) i s = Inr ((), t)"
    using c(1,2) t(1) by (simp add: emit_def as_proto_def sly_obj_at_def)
  ultimately show ?thesis
    using t(4) by blast
qed

section \<open>The steps of the compiler\<close>

lemma obj_set_vec:
  assumes "vec_at s v xs" and "sly_heap s a = Some ob" and "\<not> is_SVector ob"
  shows "vec_at (s\<lparr>sly_heap := (sly_heap s)(a \<mapsto> ob')\<rparr>) v xs"
  using assms vec_at_other [OF assms(1), of a] by (cases "a = GET_ADDR v") (auto simp: vec_at_def)

lemma parts_proto:
  assumes "parts_at u s sc p code K info"
  shows "as_proto (c_pr u) s = Inr (p, s)" "p_code p = c_code u" "p_K p = c_K u" "p_syntax_info p = c_info u"
    "cproto s = Inr (c_pr u, s)" "cscope s = Inr (sc, s)"
  using assms by (auto simp: parts_at_def as_proto_def sly_obj_at_def cproto_def cscope_def)

lemma reserve_run:
  assumes "parts_at u s sc p code K info"
  shows "\<exists>t p'. reserve (c_pr u) r s = Inr ((), t) \<and> parts_at u t sc p' code K info \<and> kept s t"
proof -
  define p' where "p' = (if p_nregs p \<le> unat (word_of_int r :: 64 word) then p\<lparr>p_nregs := unat (word_of_int (r + 1) :: 64 word)\<rparr> else p)"
  let ?t = "s\<lparr>sly_heap := (sly_heap s)(GET_ADDR (c_pr u) \<mapsto> SProto p')\<rparr>"
  have h: "sly_heap s (GET_ADDR (c_pr u)) = Some (SProto p)"
    and v: "vec_at s (c_code u) code" "vec_at s (c_K u) (map fixnum K)" "vec_at s (c_info u) info" "\<forall>i\<in>set K. fits_i32 i"
    using assms by (auto simp: parts_at_def)
  have k: "kept s ?t"
    by (rule kept_update [OF h]) (simp add: stays_def)
  have "parts_at u ?t sc p' code K info"
    by (rule parts_kept [OF assms k _ _ _ _ obj_set_vec [OF v(1) h] obj_set_vec [OF v(2) h] obj_set_vec [OF v(3) h] v(4)])
      (simp_all add: p'_def)
  moreover have "reserve (c_pr u) r s = Inr ((), ?t)"
    using parts_proto(1) [OF assms] h by (simp add: reserve_def proto_update_def sly_obj_set_def p'_def)
  ultimately show ?thesis
    using k by blast
qed

lemma intern_scan_fixnum:
  assumes "vec_at s v (map fixnum K)" and "\<forall>i\<in>set K. fits_i32 i" and "fits_i32 i" and "j + k \<le> length K"
  shows "\<exists>r. intern_scan (Suc n) v (fixnum i) j k s = Inr (r, s) \<and> (case r of None \<Rightarrow> True | Some x \<Rightarrow> x < length K \<and> K ! x = i)"
  using assms(4)
proof (induction k arbitrary: j)
  case (Suc k)
  have j: "j < length K"
    using Suc.prems by simp
  have "key_at s (fixnum i) (KInt i)" "key_at s (fixnum (K ! j)) (KInt (K ! j))"
    using assms(2,3) j by (simp_all add: fixnum_int_at)
  then have "sly_equal (Suc n) (fixnum i) (fixnum (K ! j)) s = Inr (i = K ! j, s)"
    using key_at_equal [of s "fixnum i" "KInt i" "fixnum (K ! j)" "KInt (K ! j)" n] by simp
  moreover have "vector_ref v j s = Inr (fixnum (K ! j), s)"
    using vec_at_ref [OF assms(1), of j] j by simp
  ultimately show ?case
    using j Suc.IH [of "Suc j"] Suc.prems by (cases "i = K ! j") (simp_all del: sly_equal.simps)
qed simp

lemma vec_at_len: "vec_at s v xs \<Longrightarrow> vector_len v s = Inr (length xs, s)"
  using vec_at_object(1) [of v s] by (auto simp: vec_at_def vector_len_def)

lemma intern_constant_run:
  assumes "parts_at u s sc p code K info" and "fits_i32 i"
  shows "\<exists>t x K'. sly_intern_constant (Suc n) (fixnum i) s = Inr (x, t) \<and> parts_at u t sc p code K' info \<and> kept s t \<and>
    x < length K' \<and> K' ! x = i \<and> (K' = K \<or> K' = K @ [i])"
proof -
  have c: "sly_heap s (GET_ADDR (c_pr u)) = Some (SProto p)" "vec_at s (c_code u) code"
    "vec_at s (c_K u) (map fixnum K)" "vec_at s (c_info u) info" "\<forall>i\<in>set K. fits_i32 i"
    and a: "GET_ADDR (c_code u) \<noteq> GET_ADDR (c_K u)" "GET_ADDR (c_info u) \<noteq> GET_ADDR (c_K u)"
    using assms by (auto simp: parts_at_def)
  obtain r where r: "intern_scan (Suc n) (c_K u) (fixnum i) 0 (length K) s = Inr (r, s)"
    "case r of None \<Rightarrow> True | Some x \<Rightarrow> x < length K \<and> K ! x = i"
    using intern_scan_fixnum [OF c(3,5) assms(2), of 0 "length K"] by auto
  note run = parts_proto [OF assms(1)] vec_at_len [OF c(3)] r(1)
  show ?thesis
  proof (cases r)
    case (Some x)
    then show ?thesis
      using run r(2) assms(1) by (auto simp: sly_intern_constant_def intern_in_vector_def)
  next
    case None
    obtain t where t: "vector_append (c_K u) (fixnum i) s = Inr ((), t)" "vec_at t (c_K u) (map fixnum K @ [fixnum i])"
      "only_at (c_K u) s t" "kept s t"
      using append_run [OF c(3)] by blast
    have "vec_at t (c_K u) (map fixnum (K @ [i]))"
      using t(2) by simp
    then have "parts_at u t sc p code (K @ [i]) info"
      by (rule parts_kept [OF assms(1) t(4) proto_only_at [OF c(1,3) t(3)] refl refl refl vec_at_only [OF c(2) t(3) a(1)]
            _ vec_at_only [OF c(4) t(3) a(2)]]) (use c(5) assms(2) in auto)
    moreover have "sly_intern_constant (Suc n) (fixnum i) s = Inr (length K, t)"
      using run None t(1) by (simp add: sly_intern_constant_def intern_in_vector_def)
    ultimately show ?thesis
      using t(4) by (intro exI [of _ t] exI [of _ "length K"] exI [of _ "K @ [i]"]) simp
  qed
qed

section \<open>Syntax objects\<close>

lemma stx_at_run:
  assumes "stx_at s f d"
  shows "syntax_p f s = Inr (True, s)" "syntax_to_datum f s = Inr (d, s)" "\<not> null_p f" "\<not> void_p f" "f \<noteq> 0"
    "\<exists>tok ctx. as_syntax f s = Inr ((tok, SLY_NULL, d, ctx), s) \<and> sly_heap s (GET_ADDR f) = Some (SSyntax tok SLY_NULL d ctx)"
    "pair_p f s = Inr (False, s)"
proof -
  obtain tok ctx where h: "ptr_p f" "sly_heap s (GET_ADDR f) = Some (SSyntax tok SLY_NULL d ctx)"
    using assms by (auto simp: stx_at_def)
  show syn: "syntax_p f s = Inr (True, s)" "pair_p f s = Inr (False, s)"
    using h by (simp_all add: kind_defs heap_p_run)
  show "syntax_to_datum f s = Inr (d, s)"
    using syn(1) h by (simp add: syntax_to_datum_def as_syntax_def sly_obj_at_def expect_def)
  show "\<not> null_p f" "\<not> void_p f" "f \<noteq> 0"
    using h(1) ptr_not_null by (auto simp: ptr_p_def void_p_def SLY_VOID_def)
  show "\<exists>tok ctx. as_syntax f s = Inr ((tok, SLY_NULL, d, ctx), s) \<and> sly_heap s (GET_ADDR f) = Some (SSyntax tok SLY_NULL d ctx)"
    using h by (simp add: as_syntax_def sly_obj_at_def)
qed

lemma scopeless_differ:
  assumes "stx_at s f d" and "stx_at s g d'"
  shows "sly_equal (Suc n) f g s = Inr (False, s)"
proof -
  have len: "list_len (Suc n) SLY_NULL s = Inr (0, s)"
    by (simp add: pair_p_NULL)
  have sub: "is_subset hf eq SLY_NULL SLY_NULL s = Inr (False, s)" for hf eq
    by (simp add: is_subset_def both_def null_kinds)
  obtain t1 c1 t2 c2 where a: "as_syntax f s = Inr ((t1, SLY_NULL, d, c1), s)" "as_syntax g s = Inr ((t2, SLY_NULL, d', c2), s)"
    using stx_at_run(6) [OF assms(1)] stx_at_run(6) [OF assms(2)] by blast
  show ?thesis
    using stx_at_run(1) [OF assms(1)] stx_at_run(1) [OF assms(2)] a sub len
    by (simp add: both_def del: list_len.simps)
qed

lemma intern_scan_syntax:
  assumes "vec_at s v info" and "\<forall>x\<in>set info. \<exists>d. stx_at s x d" and "stx_at s f d" and "j + k \<le> length info"
  shows "intern_scan (Suc n) v f j k s = Inr (None, s)"
  using assms(4)
proof (induction k arbitrary: j)
  case (Suc k)
  have j: "j < length info"
    using Suc.prems by simp
  obtain d' where "stx_at s (info ! j) d'"
    using assms(2) j by (meson nth_mem)
  then have "sly_equal (Suc n) f (info ! j) s = Inr (False, s)"
    by (rule scopeless_differ [OF assms(3)])
  moreover have "vector_ref v j s = Inr (info ! j, s)"
    using vec_at_ref [OF assms(1), of j] j by simp
  ultimately show ?case
    using Suc.IH [of "Suc j"] Suc.prems by (simp del: sly_equal.simps)
qed simp

lemma intern_syntax_run:
  assumes "parts_at u s sc p code K info" and "stx_at s f d"
  shows "\<exists>t l. intern_syntax (Suc n) f s = Inr (l, t) \<and> parts_at u t sc p code K (info @ [f]) \<and> kept s t"
proof -
  have c: "sly_heap s (GET_ADDR (c_pr u)) = Some (SProto p)" "vec_at s (c_code u) code"
    "vec_at s (c_K u) (map fixnum K)" "vec_at s (c_info u) info" "\<forall>i\<in>set K. fits_i32 i" "\<forall>x\<in>set info. \<exists>d. stx_at s x d"
    and a: "GET_ADDR (c_code u) \<noteq> GET_ADDR (c_info u)" "GET_ADDR (c_K u) \<noteq> GET_ADDR (c_info u)"
    using assms by (auto simp: parts_at_def)
  obtain t where t: "vector_append (c_info u) f s = Inr ((), t)" "vec_at t (c_info u) (info @ [f])" "only_at (c_info u) s t" "kept s t"
    using append_run [OF c(4)] by blast
  have "parts_at u t sc p code K (info @ [f])"
    by (rule parts_kept [OF assms(1) t(4) proto_only_at [OF c(1,4) t(3)] refl refl refl vec_at_only [OF c(2) t(3) a(1)]
          vec_at_only [OF c(3) t(3) a(2)] t(2) c(5)]) (use stx_at_kept [OF assms(2) t(4)] in auto)
  moreover have "intern_scan (Suc n) (c_info u) f 0 (length info) s = Inr (None, s)"
    by (rule intern_scan_syntax [OF c(4,6) assms(2)]) simp
  then have "intern_syntax (Suc n) f s = Inr (of_nat (length info), t)"
    using parts_proto [OF assms(1)] vec_at_len [OF c(4)] t(1) by (simp add: intern_syntax_def intern_in_vector_def)
  ultimately show ?thesis
    using t(4) by blast
qed

lemma mark_tail_run:
  assumes "parts_at u s sc p code K info" and "stx_at s f d"
  shows "\<exists>t. mark_tail f s = Inr ((), t) \<and> parts_at u t sc p code K info \<and> kept s t"
proof -
  obtain tok ctx where f: "as_syntax f s = Inr ((tok, SLY_NULL, d, ctx), s)" "sly_heap s (GET_ADDR f) = Some (SSyntax tok SLY_NULL d ctx)"
    using stx_at_run(6) [OF assms(2)] by blast
  let ?t = "s\<lparr>sly_heap := (sly_heap s)(GET_ADDR f \<mapsto> SSyntax tok SLY_NULL d (ctx OR 1))\<rparr>"
  have c: "vec_at s (c_code u) code" "vec_at s (c_K u) (map fixnum K)" "vec_at s (c_info u) info" "\<forall>i\<in>set K. fits_i32 i"
    "sly_heap s (GET_ADDR (c_pr u)) = Some (SProto p)"
    using assms by (auto simp: parts_at_def)
  have k: "kept s ?t"
    by (rule kept_update [OF f(2)]) (simp add: stays_def)
  have pr: "sly_heap ?t (GET_ADDR (c_pr u)) = Some (SProto p)"
    using c(5) f(2) by (cases "GET_ADDR (c_pr u) = GET_ADDR f") auto
  have "parts_at u ?t sc p code K info"
    by (rule parts_kept [OF assms(1) k pr refl refl refl obj_set_vec [OF c(1) f(2)] obj_set_vec [OF c(2) f(2)]
          obj_set_vec [OF c(3) f(2)] c(4)]) auto
  moreover have "mark_tail f s = Inr ((), ?t)"
    using f by (simp add: mark_tail_def sly_obj_set_def)
  ultimately show ?thesis
    using k by blast
qed

lemma code_set_run:
  assumes "parts_at u s sc p code K info" and "i < length code"
  shows "\<exists>t. vector_set (c_code u) i v s = Inr ((), t) \<and> parts_at u t sc p (code[i := v]) K info \<and> kept s t"
proof -
  have c: "vec_at s (c_code u) code" "vec_at s (c_K u) (map fixnum K)" "vec_at s (c_info u) info" "\<forall>i\<in>set K. fits_i32 i"
    "sly_heap s (GET_ADDR (c_pr u)) = Some (SProto p)"
    and a: "GET_ADDR (c_code u) \<noteq> GET_ADDR (c_K u)" "GET_ADDR (c_code u) \<noteq> GET_ADDR (c_info u)"
    using assms by (auto simp: parts_at_def)
  obtain ob l e where t: "sly_heap s (GET_ADDR (c_code u)) = Some (SVector l e)"
    "vector_set (c_code u) i v s = Inr ((), s\<lparr>sly_heap := (sly_heap s)(GET_ADDR (c_code u) \<mapsto> ob)\<rparr>)"
    "vec_at (s\<lparr>sly_heap := (sly_heap s)(GET_ADDR (c_code u) \<mapsto> ob)\<rparr>) (c_code u) (code[i := v])"
    using vec_at_set [OF c(1), of i v] assms(2) by auto
  have k: "kept s (s\<lparr>sly_heap := (sly_heap s)(GET_ADDR (c_code u) \<mapsto> ob)\<rparr>)"
    by (rule kept_update [OF t(1)]) (use t(3) in \<open>auto simp: stays_def vec_at_def\<close>)
  have pr: "sly_heap (s\<lparr>sly_heap := (sly_heap s)(GET_ADDR (c_code u) \<mapsto> ob)\<rparr>) (GET_ADDR (c_pr u)) = Some (SProto p)"
    using c(5) t(1) by (cases "GET_ADDR (c_pr u) = GET_ADDR (c_code u)") auto
  have "parts_at u (s\<lparr>sly_heap := (sly_heap s)(GET_ADDR (c_code u) \<mapsto> ob)\<rparr>) sc p (code[i := v]) K info"
    by (rule parts_kept [OF assms(1) k pr refl refl refl t(3) vec_at_other [OF c(2) a(1)] vec_at_other [OF c(3) a(2)] c(4)]) auto
  then show ?thesis
    using t(2) k by blast
qed

section \<open>Taking a form apart\<close>

lemma CAR_CDR_stx:
  assumes "stx_at s f p" and "spair_at s p a d"
  shows "CAR f s = Inr (a, s)" "CDR f s = Inr (d, s)" "syntax_pair_p f s = Inr (True, s)"
  using stx_at_run(1,2) [OF assms(1)] spair_at_run [OF assms(2)]
  by (simp_all add: CAR_def CDR_def syntax_pair_p_def)

lemma CAR_CDR_pair:
  assumes "spair_at s p a d"
  shows "CAR p s = Inr (a, s)" "CDR p s = Inr (d, s)"
proof -
  have "syntax_p p s = Inr (False, s)"
    using assms by (simp add: spair_at_def kind_defs heap_p_run)
  then show "CAR p s = Inr (a, s)" "CDR p s = Inr (d, s)"
    using spair_at_run [OF assms] by (simp_all add: CAR_def CDR_def)
qed

lemma keyword_from_run:
  assumes "hashes_at s ks hs" and "symbol_at s v h"
  shows "keyword_from i v ks s = Inr (if h \<in> set hs then Some (i + length (takeWhile (\<lambda>g. g \<noteq> h) hs)) else None, s)"
  using assms(1)
proof (induction ks arbitrary: i hs)
  case (Cons k ks)
  then obtain g hs' where g: "hs = g # hs'" "symbol_at s k g" "hashes_at s ks hs'"
    by auto
  obtain nm al nm' al' where "ptr_p v" "sly_heap s (GET_ADDR v) = Some (SSymbol h nm al)"
    "ptr_p k" "sly_heap s (GET_ADDR k) = Some (SSymbol g nm' al')"
    using assms(2) g(2) by (auto simp: symbol_at_def)
  then have "symbol_eq v k s = Inr (h = g, s)"
    using symbol_kinds by (simp add: symbol_eq_def expect_def)
  then show ?case
    using Cons.IH [OF g(3), of "Suc i"] g(1) by (cases "h = g") simp_all
qed simp

lemma takeWhile_at:
  assumes "i < length hs" and "hs ! i = h" and "h \<notin> set (take i hs)"
  shows "length (takeWhile (\<lambda>g. g \<noteq> h) hs) = i"
  using assms
proof (induction hs arbitrary: i)
  case (Cons g hs)
  then show ?case
    by (cases i) auto
qed simp

lemma if_keyword:
  assumes "if_at s v"
  shows "symbol_p v s = Inr (True, s)" "is_keyword v s = Inr (Some 5, s)"
proof -
  obtain hs h where h: "hashes_at s (kw_symbols s) hs" "symbol_at s v h" "5 < length hs" "hs ! 5 = h" "h \<notin> set (take 5 hs)"
    using assms unfolding if_at_def by blast
  show "symbol_p v s = Inr (True, s)"
    using h(2) symbol_kinds by (auto simp: symbol_at_def)
  have "h \<in> set hs"
    using h(3,4) by auto
  then show "is_keyword v s = Inr (Some 5, s)"
    using keyword_from_run [OF h(1,2), of 0] takeWhile_at [OF h(3-5)] by (simp add: is_keyword_def)
qed

end
