(* ===== verification/Sly_Compile_Run.thy ===== *)
theory Sly_Compile_Run
  imports Sly_Compile_State
begin

text \<open>
  What the compiler emits for an expression, run by the specification of the machine: atoms, moves and conditionals.
\<close>

section \<open>Running what was compiled\<close>

inductive reaches :: "INSTR list \<Rightarrow> sly_value list \<Rightarrow> nat \<Rightarrow> sly_value list \<Rightarrow> nat \<Rightarrow> sly_value list \<Rightarrow> bool" for code K where
  reaches_refl: "reaches code K pc xs pc xs"
| reaches_step: "local_step code K pc xs = Inr (Inr (pc1, xs1)) \<Longrightarrow> reaches code K pc1 xs1 pc2 xs2 \<Longrightarrow> reaches code K pc xs pc2 xs2"

lemma reaches_trans: "reaches code K pc xs pc1 xs1 \<Longrightarrow> reaches code K pc1 xs1 pc2 xs2 \<Longrightarrow> reaches code K pc xs pc2 xs2"
  by (induction rule: reaches.induct) (auto intro: reaches.intros)

lemma reaches_one: "local_step code K pc xs = Inr (Inr (pc1, xs1)) \<Longrightarrow> reaches code K pc xs pc1 xs1"
  by (blast intro: reaches.intros)

lemma reaches_run:
  assumes "reaches code K pc xs pc' xs'"
  shows "\<exists>k. \<forall>j. local_run (k + j) code K pc xs = local_run j code K pc' xs'"
  using assms
proof (induction rule: reaches.induct)
  case (reaches_refl pc xs)
  show ?case
    by (rule exI [of _ 0]) simp
next
  case (reaches_step pc xs pc1 xs1 pc2 xs2)
  then obtain k where "\<forall>j. local_run (k + j) code K pc1 xs1 = local_run j code K pc2 xs2"
    by blast
  then show ?case
    using reaches_step(1) by (intro exI [of _ "Suc k"]) simp
qed

fun lvars :: "lexpr \<Rightarrow> nat set" where
  "lvars (LInt i) = {}"
| "lvars (LBool b) = {}"
| "lvars (LVar v r) = {r}"
| "lvars (LIf c a b) = lvars c \<union> lvars a \<union> lvars b"

text \<open>A bound on the number of instructions, and the fuel that is enough.\<close>

fun lcost :: "lexpr \<Rightarrow> nat" where
  "lcost (LIf c a b) = lcost c + lcost a + lcost b + 2"
| "lcost e = 1"

fun ldepth :: "lexpr \<Rightarrow> nat" where
  "ldepth (LIf c a b) = Suc (max (ldepth c) (max (ldepth a) (ldepth b)))"
| "ldepth e = 1"

text \<open>
  The code \<open>new\<close> from \<open>here\<close> changes only the register \<open>reg\<close> and leaves the value of \<open>e\<close> in \<open>rr\<close>, whatever code is around it
  and whatever constants follow.
\<close>

definition computes :: "lexpr \<Rightarrow> nat \<Rightarrow> nat \<Rightarrow> nat \<Rightarrow> INSTR list \<Rightarrow> int list \<Rightarrow> bool" where
  "computes e reg rr here new K \<longleftrightarrow> (\<forall>pre post L xs. length pre = here \<longrightarrow> length (pre @ new @ post) < 2 ^ 16 \<longrightarrow> length K < 2 ^ 16 \<longrightarrow> reg < length xs \<longrightarrow>
     (\<exists>v. reaches (pre @ new @ post) (map fixnum K @ L) (length pre) xs (length (pre @ new)) (xs[reg := v]) \<and>
       xs[reg := v] ! rr = lvalue xs e))"

lemma computes_consts: "computes e reg rr here new K \<Longrightarrow> length (K @ K') < 2 ^ 16 \<Longrightarrow> computes e reg rr here new (K @ K')"
  unfolding computes_def by simp

lemma small_regs: "r < 256 \<Longrightarrow> unat (r8 (int r)) = r" "i < 2 ^ 16 \<Longrightarrow> unat (r16 (int i)) = i"
  "- (2 ^ 15) \<le> j \<Longrightarrow> j < 2 ^ 15 \<Longrightarrow> sint (r16 j) = j"
  by (simp_all add: r8_def r16_def unat_of_nat sint_sbintrunc' signed_take_bit_int_eq_self)

lemma iAx_small:
  assumes "n < 2 ^ 16"
  shows "\<exists>v. iAx (op_num op) (of_nat n) l = Inr v \<and> GET_OP v = op \<and> unat (GET_Ax v) = n"
proof -
  have u: "unat (of_nat n :: 32 word) = n"
    using assms by (simp add: unat_of_nat)
  have "take_bit 24 (of_nat n :: 32 word) = of_nat n"
    using assms by (simp add: word_unat_eq_iff unsigned_take_bit_eq u take_bit_nat_eq_self)
  then have m: "of_nat n AND 0x00ffffff = (of_nat n :: 32 word)"
    by (simp add: mask_24 flip: take_bit_eq_mask)
  have "(of_nat n :: 32 word) \<le> AxMAX"
    using assms u by (simp add: AxMAX_def word_le_nat_alt)
  then have "iAx (op_num op) (of_nat n) l = Inr (instr (push_bit 8 (of_nat n AND 0x00ffffff) OR byte_at 0 (op_num op)) l)"
    by (simp add: iAx_def)
  moreover have "unat (GET_Ax (instr (push_bit 8 (of_nat n AND 0x00ffffff) OR byte_at 0 (op_num op)) l)) = n"
    unfolding Ax_fields(2) by (simp only: m u)
  moreover have "GET_OP (instr (push_bit 8 (of_nat n AND 0x00ffffff) OR byte_at 0 (op_num op)) l) = op"
    unfolding GET_OP_def Ax_fields by simp
  ultimately show ?thesis
    by blast
qed

lemma local_ops: "local_op (iABx (op_num OP_LOADI) a bx l)" "local_op (iABx (op_num OP_LOADK) a bx l)"
  "local_op (iABx (op_num OP_FJMP) a bx l)" "local_op (iA (op_num OP_LOADFALSE) a l)" "local_op (iA (op_num OP_LOADTRUE) a l)"
  "local_op (iAB (op_num OP_MOVE) a b l)" "GET_OP v = OP_JMP \<Longrightarrow> local_op v"
  by (simp_all add: local_op_def iA_reads del: op_num.simps)

lemma peek_at: "peek (pre @ v # post) (length pre) = Inr v"
  by (simp add: peek_def)

lemma one_step:
  assumes "local_step (pre @ v # post) K (length pre) xs = Inr (Inr (Suc (length pre), xs[reg := x]))" and "xs[reg := x] ! rr = y"
  shows "\<exists>x. reaches (pre @ [v] @ post) K (length pre) xs (length (pre @ [v])) (xs[reg := x]) \<and> xs[reg := x] ! rr = y"
  using assms reaches_one [OF assms(1)] by auto

lemma scast_r16: "- (2 ^ 15) \<le> j \<Longrightarrow> j < 2 ^ 15 \<Longrightarrow> scast (r16 j) = (word_of_int j :: 'a :: len word)"
  using small_regs(3) [of j] by (simp add: scast_eq)

lemma computes_int:
  assumes "reg < 256" and "- (2 ^ 15) \<le> i" "i < 2 ^ 15"
  shows "computes (LInt i) reg reg here [iABx (op_num OP_LOADI) (r8 (int reg)) (r16 i) l] K"
  unfolding computes_def
  by (intro allI impI, rule one_step [where x = "fixnum i"])
    (simp_all add: local_step_def peek_def nth_append iA_reads Let_def put_def small_regs(1) scast_r16 [OF assms(2,3)] assms(1) GET_sBx_def fixnum_def del: op_num.simps)

lemma computes_const:
  assumes "reg < 256" and "j < length K" and "K ! j = i" and "length K < 2 ^ 16"
  shows "computes (LInt i) reg reg here [iABx (op_num OP_LOADK) (r8 (int reg)) (r16 (int j)) l] K"
  unfolding computes_def
  by (intro allI impI, rule one_step [where x = "fixnum i"])
    (use assms in \<open>simp_all add: local_step_def peek_def iA_reads Let_def put_def small_regs nth_append del: op_num.simps\<close>)

lemma computes_bool:
  assumes "reg < 256"
  shows "computes (LBool b) reg reg here [iA (op_num (if b then OP_LOADTRUE else OP_LOADFALSE)) (r8 (int reg)) l] K"
  unfolding computes_def
  by (intro allI impI, rule one_step [where x = "if b then SLY_TRUE else SLY_FALSE"])
    (use assms in \<open>simp_all add: local_step_def peek_def nth_append iA_reads Let_def put_def small_regs del: op_num.simps\<close>)

lemma computes_var:
  assumes "r < reg"
  shows "computes (LVar v r) reg r here [] K"
  unfolding computes_def
proof (intro allI impI)
  fix pre post L and xs :: "sly_value list"
  show "\<exists>x. reaches (pre @ [] @ post) (map fixnum K @ L) (length pre) xs (length (pre @ [])) (xs[reg := x]) \<and>
      xs[reg := x] ! r = lvalue xs (LVar v r)"
    using assms reaches_refl by (intro exI [of _ "xs ! reg"]) simp
qed

text \<open>A move to the register brings the value there.\<close>

lemma computes_moved:
  assumes "computes e reg rr here new K" and "rr < reg" and "reg < 256"
  shows "computes e reg reg here (new @ [iAB (op_num OP_MOVE) (r8 (int reg)) (r8 (int rr)) l]) K"
  unfolding computes_def
proof (intro allI impI)
  let ?i = "iAB (op_num OP_MOVE) (r8 (int reg)) (r8 (int rr)) l"
  fix pre post L xs
  assume at_pre: "length pre = here" and h: "length (pre @ (new @ [?i]) @ post) < 2 ^ 16" "length K < 2 ^ 16" "reg < length (xs :: sly_value list)"
  then obtain v where v: "reaches (pre @ new @ ?i # post) (map fixnum K @ L) (length pre) xs (length (pre @ new)) (xs[reg := v])"
    "xs[reg := v] ! rr = lvalue xs e"
    using assms(1) at_pre unfolding computes_def by (metis append.assoc append_Cons append_Nil)
  have "local_step (pre @ new @ ?i # post) (map fixnum K @ L) (length (pre @ new)) (xs[reg := v]) =
      Inr (Inr (Suc (length (pre @ new)), (xs[reg := v])[reg := lvalue xs e]))"
    using h(3) v(2) assms(2,3)
    by (simp add: local_step_def peek_def iA_reads Let_def put_def small_regs nth_append del: op_num.simps)
  then have "reaches (pre @ new @ ?i # post) (map fixnum K @ L) (length pre) xs (Suc (length (pre @ new))) (xs[reg := lvalue xs e])"
    using reaches_trans [OF v(1) reaches_one] by simp
  then show "\<exists>v. reaches (pre @ (new @ [?i]) @ post) (map fixnum K @ L) (length pre) xs (length (pre @ new @ [?i])) (xs[reg := v]) \<and>
      xs[reg := v] ! reg = lvalue xs e"
    using h(3) by auto
qed

section \<open>Atoms\<close>

text \<open>What the compiler gives for an expression at a register.\<close>

definition compiled :: "compiling \<Rightarrow> sly_state \<Rightarrow> scope \<Rightarrow> INSTR list \<Rightarrow> int list \<Rightarrow> lexpr \<Rightarrow> nat \<Rightarrow> int \<Rightarrow> sly_state \<Rightarrow> bool" where
  "compiled u s sc code K e reg r t \<longleftrightarrow> (\<exists>p new K' info rr. r = int rr \<and> parts_at u t sc p (code @ new) (K @ K') info \<and> kept s t \<and>
     computes e reg rr (length code) new (K @ K') \<and> (rr = reg \<or> rr < reg \<and> new = []) \<and>
     length new + (if rr = reg then 0 else 1) \<le> lcost e \<and> length K' \<le> lcost e \<and> (\<forall>v\<in>set new. local_op v))"

lemma emitted:
  assumes "parts_at u t sc p code (K @ K') info" and "kept s t" and "computes e reg reg (length code) [i] (K @ K')"
    and "local_op i" and "length K' \<le> 1" and "lcost e = 1"
  shows "\<exists>w. emit (c_pr u) i t = Inr ((), w) \<and> compiled u s sc code K e reg (int reg) w"
proof -
  obtain w where w: "emit (c_pr u) i t = Inr ((), w)" "parts_at u w sc p (code @ [i]) (K @ K') info" "kept t w"
    using emit_run [OF assms(1)] by blast
  have "compiled u s sc code K e reg (int reg) w"
    unfolding compiled_def using w(2) kept_trans [OF assms(2) w(3)] assms(3-6)
    by (intro exI [of _ p] exI [of _ "[i]"] exI [of _ K'] exI [of _ info] exI [of _ reg]) auto
  then show ?thesis
    using w(1) by blast
qed

lemma fixnum_kinds:
  assumes "fits_i32 i"
  shows "symbol_p (fixnum i) s = Inr (False, s)" "int_p (fixnum i) s = Inr (True, s)" "get_int (fixnum i) s = Inr (i, s)"
    "\<not> null_p (fixnum i)" "\<not> void_p (fixnum i)" "fixnum i \<noteq> SLY_FALSE" "fixnum i \<noteq> SLY_TRUE" "pair_p (fixnum i) s = Inr (False, s)"
proof -
  have "imm_p (fixnum i)"
    by (simp add: fixnum_def)
  moreover have "\<not> imm_p SLY_FALSE" "\<not> imm_p SLY_TRUE"
    by (simp_all add: imm_p_def SLY_FALSE_def SLY_TRUE_def st_false_def st_true_def st_imm_def TAG_MASK_def)
  ultimately show "fixnum i \<noteq> SLY_FALSE" "fixnum i \<noteq> SLY_TRUE"
    by auto
qed (use int_at_kinds [OF fixnum_int_at [OF assms, of s]] int_at_run [OF fixnum_int_at [OF assms, of s]] in auto)

lemma bool_kinds:
  "symbol_p (if b then SLY_TRUE else SLY_FALSE) s = Inr (False, s)" "pair_p (if b then SLY_TRUE else SLY_FALSE) s = Inr (False, s)"
  by (simp_all add: kind_defs heap_p_def ptr_p_def SLY_TRUE_def SLY_FALSE_def st_true_def st_false_def TAG_MASK_def)

text \<open>The start of \<open>comp_atom\<close>: a register, and the line.\<close>

abbreviation atom_head :: "nat \<Rightarrow> sly_value \<Rightarrow> int \<Rightarrow> (sly_value \<Rightarrow> sly_value \<times> 32 word \<Rightarrow> int sly) \<Rightarrow> int sly" where
  "atom_head n f r g \<equiv> bnd cproto (\<lambda>pr. bnd (reserve pr r) (\<lambda>_. bnd (if null_p f \<or> void_p f then ret (f, no_ln)
     else bnd (syntax_to_datum f) (\<lambda>d. bnd (intern_syntax n f) (\<lambda>t. ret (d, t)))) (g pr)))"

lemma atom_start:
  assumes "parts_at u s sc p code K info" and "stx_at s f d"
  shows "\<exists>t p' l. parts_at u t sc p' code K (info @ [f]) \<and> kept s t \<and> (\<forall>g. atom_head (Suc n) f r g s = g (c_pr u) (d, l) t)"
proof -
  obtain w p' where w: "reserve (c_pr u) r s = Inr ((), w)" "parts_at u w sc p' code K info" "kept s w"
    using reserve_run [OF assms(1)] by blast
  have f: "stx_at w f d"
    by (rule stx_at_kept [OF assms(2) w(3)])
  obtain t l where t: "intern_syntax (Suc n) f w = Inr (l, t)" "parts_at u t sc p' code K (info @ [f])" "kept w t"
    using intern_syntax_run [OF w(2) f] by blast
  show ?thesis
    using parts_proto(5) [OF assms(1)] w(1) stx_at_run(2-4) [OF f] t(1,2) kept_trans [OF w(3) t(3)]
    by (intro exI [of _ t] exI [of _ p'] exI [of _ l]) simp
qed

lemma atom_int:
  assumes "parts_at u s sc p code K info" and "stx_at s f (fixnum i)" and "fits_i32 i" and "reg < 256" and "length K + 1 < 2 ^ 16"
  shows "\<exists>t r. comp_atom (Suc n) f (int reg) s = Inr (r, t) \<and> compiled u s sc code K (LInt i) reg r t"
proof -
  obtain t p' l where t: "parts_at u t sc p' code K (info @ [f])" "kept s t"
    "\<And>g. atom_head (Suc n) f (int reg) g s = g (c_pr u) (fixnum i, l) t"
    using atom_start [OF assms(1,2), of "int reg" n] by blast
  note d = fixnum_kinds [OF assms(3)]
  show ?thesis
  proof (cases "- (2 ^ 15) \<le> i \<and> i < 2 ^ 15")
    case True
    obtain w p2 where w: "reserve (c_pr u) (int reg) t = Inr ((), w)" "parts_at u w sc p2 code K (info @ [f])" "kept t w"
      using reserve_run [OF t(1)] by blast
    let ?i = "iABx (op_num OP_LOADI) (r8 (int reg)) (r16 i) l"
    obtain v where "emit (c_pr u) ?i w = Inr ((), v)" "compiled u s sc code K (LInt i) reg (int reg) v"
      using emitted [of u w sc p2 code K "[]" "info @ [f]" s "LInt i" reg ?i] w(2) kept_trans [OF t(2) w(3)]
        computes_int [of reg i "length code" l K] assms(4) True local_ops by auto
    then show ?thesis
      unfolding comp_atom_def t(3) using d True w(1) by auto
  next
    case False
    obtain v x K' where v: "sly_intern_constant (Suc n) (fixnum i) t = Inr (x, v)" "parts_at u v sc p' code K' (info @ [f])"
      "kept t v" "x < length K'" "K' ! x = i" "K' = K \<or> K' = K @ [i]"
      using intern_constant_run [OF t(1) assms(3)] by blast
    obtain w p2 where w: "reserve (c_pr u) (int reg) v = Inr ((), w)" "parts_at u w sc p2 code K' (info @ [f])" "kept v w"
      using reserve_run [OF v(2)] by blast
    obtain K2 where K2: "K' = K @ K2" "length K2 \<le> 1"
      using v(6) by auto
    let ?i = "iABx (op_num OP_LOADK) (r8 (int reg)) (r16 (int x)) l"
    have "length K' < 2 ^ 16"
      using assms(5) K2 by simp
    then have "computes (LInt i) reg reg (length code) [?i] K'"
      using computes_const [of reg x K' i "length code" l] assms(4) v(4,5) by simp
    then obtain y where "emit (c_pr u) ?i w = Inr ((), y)" "compiled u s sc code K (LInt i) reg (int reg) y"
      using emitted [of u w sc p2 code K K2 "info @ [f]" s "LInt i" reg ?i] w(2) kept_trans [OF t(2) kept_trans [OF v(3) w(3)]]
        K2 local_ops by auto
    then show ?thesis
      unfolding comp_atom_def t(3) using d False v(1) w(1) by auto
  qed
qed

lemma atom_bool:
  assumes "parts_at u s sc p code K info" and "stx_at s f (if b then SLY_TRUE else SLY_FALSE)" and "reg < 256"
  shows "\<exists>t r. comp_atom (Suc n) f (int reg) s = Inr (r, t) \<and> compiled u s sc code K (LBool b) reg r t"
proof -
  obtain t p' l where t: "parts_at u t sc p' code K (info @ [f])" "kept s t"
    "\<And>g. atom_head (Suc n) f (int reg) g s = g (c_pr u) (if b then SLY_TRUE else SLY_FALSE, l) t"
    using atom_start [OF assms(1,2), of "int reg" n] by blast
  let ?i = "iA (op_num (if b then OP_LOADTRUE else OP_LOADFALSE)) (r8 (int reg)) l"
  obtain v where "emit (c_pr u) ?i t = Inr ((), v)" "compiled u s sc code K (LBool b) reg (int reg) v"
    using emitted [of u t sc p' code K "[]" "info @ [f]" s "LBool b" reg ?i] t(1,2)
      computes_bool [of reg b "length code" l K] assms(3) local_ops by (cases b) auto
  moreover have "SLY_TRUE \<noteq> SLY_FALSE"
    by (simp add: SLY_TRUE_def SLY_FALSE_def st_true_def st_false_def)
  ultimately show ?thesis
    unfolding comp_atom_def t(3) using bool_kinds [of b t] by (cases b) auto
qed

lemma local_lookup:
  assumes "local_in s sc v r" and "cc_scopes s = sc # scs"
  shows "\<exists>pv. symbol_lookup_props (Suc n) v s = Inr ((pv, sc_level sc), s) \<and> (has_type sym_variable pv \<or> has_type sym_arg pv) \<and>
    sp_reg pv = int r \<and> symbol_p v s = Inr (True, s)"
proof -
  obtain vs h pv where h: "dict_at key_at atom_hash s (sc_symtable sc) vs" "Empty \<in> set vs" "symbol_at s v h"
    "vmap vs (KSym h) = Some pv" "has_type sym_variable pv \<or> has_type sym_arg pv" "sp_reg pv = int r"
    using assms(1) by (auto simp: local_in_def)
  obtain nm al where sm: "ptr_p v" "sly_heap s (GET_ADDR v) = Some (SSymbol h nm al)"
    using h(3) by (auto simp: symbol_at_def)
  obtain elems where sl: "ptr_p (sc_symtable sc)" "sly_heap s (GET_ADDR (sc_symtable sc)) = Some (SDict (length (live_of vs)) elems)"
    "\<And>i. i < length vs \<Longrightarrow> slot_at key_at s (elems ! i) (vs ! i)"
    using h(1) by (auto simp: dict_at_def slots_at_def)
  obtain i where i: "i < length vs" "slot_search (sly_hash (Suc n)) (sly_equal (Suc n)) (sc_symtable sc) v s = Inr (i, s)" "vs ! i = Live (KSym h) pv"
    using atoms.search_run [OF h(1) h(3) [unfolded symbol_at_def] h(2), of n] h(4) by auto
  have e: "dictionary_entry_ref (Suc n) (sc_symtable sc) v s = Inr (elems ! i, s)"
    unfolding dictionary_entry_ref_def entry_search_def
    using dict_object [OF sl(1,2)] ptr_not_null [OF sm(1)] i(2) by (simp add: expect_def)
  obtain a where a: "spair_at s (elems ! i) a pv" "key_at s a (KSym h)"
    using sl(3) [OF i(1)] i(3) by auto
  have "slot_is_free (elems ! i) s = Inr (False, s)"
    using spair_at_run [OF a(1)] key_at_kinds(8) [OF a(2)] by (simp add: slot_is_free_def)
  then have "symbol_lookup_props (Suc n) v s = Inr ((pv, sc_level sc), s)"
    using assms(2) e spair_at_run [OF a(1)] by (simp add: symbol_lookup_props_def)
  then show ?thesis
    using h(5,6) symbol_kinds(4) [OF sm] by blast
qed

lemma atom_var:
  assumes "parts_at u s sc p code K info" and "stx_at s f v" and "local_at s v r" and "r < reg"
  shows "\<exists>t x. comp_atom (Suc n) f (int reg) s = Inr (x, t) \<and> compiled u s sc code K (LVar v r) reg x t"
proof -
  obtain t p' l where t: "parts_at u t sc p' code K (info @ [f])" "kept s t"
    "\<And>g. atom_head (Suc n) f (int reg) g s = g (c_pr u) (v, l) t"
    using atom_start [OF assms(1,2), of "int reg" n] by blast
  obtain scs where scs: "cc_scopes t = sc # scs"
    using t(1) by (auto simp: parts_at_def)
  then have "local_in t sc v r"
    using local_at_kept [OF assms(3) t(2)] by (simp add: local_at_def)
  then obtain pv where pv: "symbol_lookup_props (Suc n) v t = Inr ((pv, sc_level sc), t)"
    "has_type sym_variable pv \<or> has_type sym_arg pv" "sp_reg pv = int r" "symbol_p v t = Inr (True, t)"
    using local_lookup [OF _ scs] by blast
  have "\<not> void_p pv"
    using pv(2) by (auto simp: has_type_def sp_type_def void_p_def SLY_VOID_def)
  then have "localize (Suc n) v (if void_p pv then sp_set_type sym_global pv else pv) (sc_level sc) t = Inr (pv, t)"
    using scs by (simp add: localize_def cscope_def)
  then have "comp_atom (Suc n) f (int reg) s = Inr (int r, t)"
    unfolding comp_atom_def t(3) using pv by simp
  moreover have "compiled u s sc code K (LVar v r) reg (int r) t"
    unfolding compiled_def using t(1,2) computes_var [OF assms(4)] assms(4)
    by (intro exI [of _ p'] exI [of _ "[]"] exI [of _ "[]"] exI [of _ "info @ [f]"] exI [of _ r]) auto
  ultimately show ?thesis
    by blast
qed

section \<open>Conditionals\<close>

lemma lvalue_cong: "(\<And>r. r \<in> lvars e \<Longrightarrow> xs ! r = ys ! r) \<Longrightarrow> lvalue xs e = lvalue ys e"
  by (induction e) auto

lemma computes_at:
  assumes "computes e reg rr (length pre) new K" and "length (pre @ new @ post) < 2 ^ 16" and "length K < 2 ^ 16"
    and "reg < length xs" and "\<forall>r\<in>lvars e. r < reg"
  shows "\<exists>v. reaches (pre @ new @ post) (map fixnum K @ L) (length pre) (xs[reg := w]) (length (pre @ new)) (xs[reg := v]) \<and>
    xs[reg := v] ! rr = lvalue xs e"
proof -
  have "reg < length (xs[reg := w])"
    using assms(4) by simp
  then obtain v where v: "reaches (pre @ new @ post) (map fixnum K @ L) (length pre) (xs[reg := w]) (length (pre @ new)) (xs[reg := w, reg := v])"
    "xs[reg := w, reg := v] ! rr = lvalue (xs[reg := w]) e"
    using assms(1-3) unfolding computes_def by blast
  have "lvalue (xs[reg := w]) e = lvalue xs e"
    by (rule lvalue_cong) (use assms(5) in auto)
  then show ?thesis
    using v by auto
qed

lemma computes_if:
  assumes c: "computes c reg rc h nc K" and a: "computes a reg reg (h + length nc + 1) na K"
    and b: "computes b reg reg (h + length nc + 1 + length na + 1) nb K"
    and reg: "rc \<le> reg" "reg < 256" and vars: "\<forall>r\<in>lvars c \<union> lvars a \<union> lvars b. r < reg"
    and vj: "GET_OP vj = OP_JMP" "unat (GET_Ax vj) = h + length nc + 1 + length na + 1 + length nb"
    and vf: "vf = iABx (op_num OP_FJMP) (r8 (int rc)) (r16 (int q)) l" "q = h + length nc + 1 + length na + 1"
  shows "computes (LIf c a b) reg reg h (nc @ [vf] @ na @ [vj] @ nb) K"
  unfolding computes_def
proof (intro allI impI)
  fix pre post L and xs :: "sly_value list"
  let ?code = "pre @ (nc @ [vf] @ na @ [vj] @ nb) @ post" and ?K = "map fixnum K @ L"
  let ?fin = "length (pre @ nc @ [vf] @ na @ [vj] @ nb)"
  assume pre: "length pre = h" and len: "length ?code < 2 ^ 16" and k: "length K < 2 ^ 16" and xs: "reg < length xs"
  obtain v1 where v1: "reaches ?code ?K h xs (length (pre @ nc)) (xs[reg := v1])" "xs[reg := v1] ! rc = lvalue xs c"
    using computes_at [of c reg rc pre nc K "[vf] @ na @ [vj] @ nb @ post" xs L "xs ! reg"] c pre len k xs vars by auto
  have target: "unat (r16 (int q)) = q"
    using small_regs(2) [of q] len pre vf(2) by simp
  have fj: "local_step ?code ?K (length (pre @ nc)) (xs[reg := v1]) = Inr (Inr
      (if lvalue xs c = SLY_FALSE then q else length (pre @ nc @ [vf]), xs[reg := v1]))"
    using v1(2) reg xs pre
    by (simp add: local_step_def peek_def nth_append vf(1) iA_reads small_regs target Let_def del: op_num.simps)
  have "\<exists>v. reaches ?code ?K (length (pre @ nc)) (xs[reg := v1]) ?fin (xs[reg := v]) \<and> xs[reg := v] ! reg = lvalue xs (LIf c a b)"
  proof (cases "lvalue xs c = SLY_FALSE")
    case True
    then obtain v where "reaches ?code ?K (h + length nc + 1 + length na + 1) (xs[reg := v1]) ?fin (xs[reg := v])"
      "xs[reg := v] ! reg = lvalue xs b"
      using computes_at [of b reg reg "pre @ nc @ [vf] @ na @ [vj]" nb K post xs L v1] b pre len k xs vars vf(2) by (auto simp: add.assoc)
    then show ?thesis
      using True reaches_step [OF fj] vf(2) by auto
  next
    case False
    then obtain v where v: "reaches ?code ?K (length (pre @ nc @ [vf])) (xs[reg := v1]) (length (pre @ nc @ [vf] @ na)) (xs[reg := v])"
      "xs[reg := v] ! reg = lvalue xs a"
      using computes_at [of a reg reg "pre @ nc @ [vf]" na K "[vj] @ nb @ post" xs L v1] a pre len k xs vars by auto
    have "?code ! length (pre @ nc @ [vf] @ na) = vj"
      by (simp add: nth_append)
    then have "local_step ?code ?K (length (pre @ nc @ [vf] @ na)) (xs[reg := v]) = Inr (Inr (?fin, xs[reg := v]))"
      using vj pre by (simp add: local_step_def peek_def Let_def)
    then have "reaches ?code ?K (length (pre @ nc @ [vf])) (xs[reg := v1]) ?fin (xs[reg := v])"
      using reaches_trans [OF v(1) reaches_one] by blast
    then show ?thesis
      using False reaches_step [OF fj] v(2) by auto
  qed
  then show "\<exists>v. reaches ?code ?K (length pre) xs (length (pre @ nc @ [vf] @ na @ [vj] @ nb)) (xs[reg := v]) \<and>
      xs[reg := v] ! reg = lvalue xs (LIf c a b)"
    using reaches_trans [OF v1(1)] pre by blast
qed

definition compiles :: "compiling \<Rightarrow> scope \<Rightarrow> nat \<Rightarrow> lexpr \<Rightarrow> bool" where
  "compiles u sc n e \<longleftrightarrow> (\<forall>s p code K info f reg. parts_at u s sc p code K info \<longrightarrow> form_at s f e \<longrightarrow> (\<forall>r\<in>lvars e. r < reg) \<longrightarrow>
     reg < 256 \<longrightarrow> length code + lcost e < 2 ^ 16 \<longrightarrow> length K + lcost e < 2 ^ 16 \<longrightarrow>
     (\<exists>t r. comp_expr n f (int reg) s = Inr (r, t) \<and> compiled u s sc code K e reg r t))"

lemma form_at_stx: "form_at s f e \<Longrightarrow> \<exists>d. stx_at s f d"
  by (cases e) (auto simp: if_parts_def)

text \<open>A branch: its line, its code, and a move when the value is elsewhere.\<close>

definition comp_branch :: "nat \<Rightarrow> compiler \<Rightarrow> sly_value \<Rightarrow> int \<Rightarrow> sly_value \<Rightarrow> (32 word) sly" where
  "comp_branch n ce pr reg b =
     bnd (ifM (syntax_p b) (intern_syntax n b) (ret no_ln)) (\<lambda>t.
     bnd (ce b reg) (\<lambda>ex. bnd (move_to pr reg ex (ret t)) (\<lambda>_. ret t)))"

lemma branch_run:
  assumes "compiles u sc n e" and "parts_at u s sc p code K info" and "form_at s f e" and "\<forall>r\<in>lvars e. r < reg"
    and "reg < 256" and "length code + lcost e < 2 ^ 16" and "length K + lcost e < 2 ^ 16"
  shows "\<exists>t l. comp_branch (Suc m) (comp_expr n) (c_pr u) (int reg) f s = Inr (l, t) \<and> compiled u s sc code K e reg (int reg) t"
proof -
  obtain d where d: "stx_at s f d"
    using form_at_stx [OF assms(3)] by blast
  obtain s1 l where s1: "intern_syntax (Suc m) f s = Inr (l, s1)" "parts_at u s1 sc p code K (info @ [f])" "kept s s1"
    using intern_syntax_run [OF assms(2) d] by blast
  obtain t r where t: "comp_expr n f (int reg) s1 = Inr (r, t)" "compiled u s1 sc code K e reg r t"
    using assms(1) s1(2) form_at_kept [OF assms(3) s1(3)] assms(4-7) unfolding compiles_def by blast
  obtain p' new K' info' rr where c: "r = int rr" "parts_at u t sc p' (code @ new) (K @ K') info'" "kept s1 t"
    "computes e reg rr (length code) new (K @ K')" "rr = reg \<or> rr < reg \<and> new = []"
    "length new + (if rr = reg then 0 else 1) \<le> lcost e" "length K' \<le> lcost e" "\<forall>v\<in>set new. local_op v"
    using t(2) unfolding compiled_def by blast
  note start = stx_at_run(1) [OF d] s1(1) t(1)
  show ?thesis
  proof (cases "rr = reg")
    case True
    then have "comp_branch (Suc m) (comp_expr n) (c_pr u) (int reg) f s = Inr (l, t)"
      using start c(1) by (simp add: comp_branch_def move_to_def)
    moreover have "compiled u s sc code K e reg (int reg) t"
      unfolding compiled_def using c True kept_trans [OF s1(3) c(3)]
      by (intro exI [of _ p'] exI [of _ new] exI [of _ K'] exI [of _ info'] exI [of _ reg]) auto
    ultimately show ?thesis
      by blast
  next
    case False
    let ?i = "iAB (op_num OP_MOVE) (r8 (int reg)) (r8 (int rr)) l"
    obtain w where w: "emit (c_pr u) ?i t = Inr ((), w)" "parts_at u w sc p' ((code @ new) @ [?i]) (K @ K') info'" "kept t w"
      using emit_run [OF c(2)] by blast
    have "comp_branch (Suc m) (comp_expr n) (c_pr u) (int reg) f s = Inr (l, w)"
      using start c(1) False w(1) by (simp add: comp_branch_def move_to_def del: op_num.simps)
    moreover have "compiled u s sc code K e reg (int reg) w"
      unfolding compiled_def
      using c False kept_trans [OF s1(3) kept_trans [OF c(3) w(3)]] w(2) computes_moved [OF c(4)] assms(5) local_ops
      by (intro exI [of _ p'] exI [of _ "new @ [?i]"] exI [of _ K'] exI [of _ info'] exI [of _ reg]) auto
    ultimately show ?thesis
      by blast
  qed
qed

lemma mark_run:
  assumes "parts_at u s sc p code K info" and "stx_at s f d" and "stx_at s b d'"
  shows "\<exists>t. (if b \<noteq> 0 then bnd (syn_context f) (\<lambda>ctx. if is_tail ctx then mark_tail b else ret ()) else ret ()) s = Inr ((), t) \<and>
    parts_at u t sc p code K info \<and> kept s t"
proof -
  obtain tok ctx where "as_syntax f s = Inr ((tok, SLY_NULL, d, ctx), s)"
    using stx_at_run(6) [OF assms(2)] by blast
  then have "syn_context f s = Inr (ctx, s)"
    by (simp add: syn_context_def)
  then show ?thesis
    using mark_tail_run [OF assms(1,3)] stx_at_run(5) [OF assms(3)] assms(1) by (cases "is_tail ctx") auto
qed

end
