(* ===== verification/Sly_Correct.thy ===== *)
theory Sly_Correct
  imports Sly_Compile_Run
begin

text \<open>The compiler of conditionals, by induction all expressions of the fragment, and the theorem for the virtual machine.\<close>

lemma comp_if_branches:
  "comp_if n ce form0 reg =
     bnd cproto (\<lambda>pr.
     bnd (CDR form0) (\<lambda>f1. bnd (CAR f1) (\<lambda>boolexpr.
     bnd (CDR f1) (\<lambda>f2. bnd (CAR f2) (\<lambda>tbranch.
     bnd (CDR f2) (\<lambda>f3. bnd (CAR f3) (\<lambda>fbranch.
     bnd (CDR f3) (\<lambda>f4.
     bnd (error_unless (null_p f4) ''Compile Error malformed if expression'') (\<lambda>_.
     let mark = (\<lambda>b. if b \<noteq> 0 then bnd (syn_context form0) (\<lambda>ctx. if is_tail ctx then mark_tail b else ret ()) else ret ()) in
     bnd (mark tbranch) (\<lambda>_.
     bnd (mark fbranch) (\<lambda>_.
     bnd (ce boolexpr reg) (\<lambda>be.
     bnd (code_len pr) (\<lambda>fjmp.
     bnd (emit pr 0) (\<lambda>_.
     bnd (comp_branch n ce pr reg tbranch) (\<lambda>_.
     bnd (code_len pr) (\<lambda>jmp.
     bnd (emit pr 0) (\<lambda>_.
     bnd (comp_branch n ce pr reg fbranch) (\<lambda>t.
     bnd (code_len pr) (\<lambda>last.
     bnd (as_proto pr) (\<lambda>p.
     bnd (vector_set (p_code p) fjmp
       (iABx (op_num OP_FJMP) (r8 (if be = - 1 then reg else be)) (r16 (int jmp + 1)) t)) (\<lambda>_.
     bnd (lift (iAx (op_num OP_JMP) (of_nat last) no_ln)) (\<lambda>j.
     bnd (vector_set (p_code p) jmp j) (\<lambda>_. ret reg)))))))))))))))))))))))"
  unfolding comp_if_def comp_branch_def Let_def by (rule refl)

lemma code_len_run:
  assumes "parts_at u s sc p code K info"
  shows "code_len (c_pr u) s = Inr (length code, s)"
proof -
  have "vec_at s (c_code u) code"
    using assms by (simp add: parts_at_def)
  then show ?thesis
    using parts_proto(1,2) [OF assms] vec_at_len by (simp add: code_len_def)
qed

lemma compilesD:
  "compiles u sc n e \<Longrightarrow> parts_at u s sc p code K info \<Longrightarrow> form_at s f e \<Longrightarrow> \<forall>r\<in>lvars e. r < reg \<Longrightarrow> reg < 256 \<Longrightarrow>
    length code + lcost e < 2 ^ 16 \<Longrightarrow> length K + lcost e < 2 ^ 16 \<Longrightarrow>
    \<exists>t r. comp_expr n f (int reg) s = Inr (r, t) \<and> compiled u s sc code K e reg r t"
  unfolding compiles_def by blast

lemma if_run:
  assumes c: "compiles u sc (Suc n) c" and a: "compiles u sc (Suc n) a" and b: "compiles u sc (Suc n) b"
    and s: "parts_at u s sc p code K info" and f: "form_at s f (LIf c a b)" and vars: "\<forall>r\<in>lvars (LIf c a b). r < reg"
    and reg: "reg < 256" and size: "length code + lcost (LIf c a b) < 2 ^ 16" "length K + lcost (LIf c a b) < 2 ^ 16"
  shows "\<exists>t. comp_if (Suc n) (comp_expr (Suc n)) f (int reg) s = Inr (int reg, t) \<and> compiled u s sc code K (LIf c a b) reg (int reg) t"
proof -
  obtain fc fa fb where parts: "if_parts s f fc fa fb" "form_at s fc c" "form_at s fa a" "form_at s fb b"
    using f by auto
  obtain p0 p1 p2 p3 k v where ps: "stx_at s f p0" "spair_at s p0 k p1" "spair_at s p1 fc p2" "spair_at s p2 fa p3"
    "spair_at s p3 fb SLY_NULL"
    using parts(1) unfolding if_parts_def by blast
  obtain da db where d: "stx_at s fa da" "stx_at s fb db"
    using form_at_stx [OF parts(3)] form_at_stx [OF parts(4)] by blast
  let ?mark = "\<lambda>b. if b \<noteq> 0 then bnd (syn_context f) (\<lambda>ctx. if is_tail ctx then mark_tail b else ret ()) else ret ()"
  obtain s1 where s1: "?mark fa s = Inr ((), s1)" "parts_at u s1 sc p code K info" "kept s s1"
    using mark_run [OF s ps(1) d(1)] by blast
  obtain s2 where s2: "?mark fb s1 = Inr ((), s2)" "parts_at u s2 sc p code K info" "kept s1 s2"
    using mark_run [OF s1(2) stx_at_kept [OF ps(1) s1(3)] stx_at_kept [OF d(2) s1(3)]] by blast
  note k2 = kept_trans [OF s1(3) s2(3)]
  obtain s3 rc where s3: "comp_expr (Suc n) fc (int reg) s2 = Inr (rc, s3)" "compiled u s2 sc code K c reg rc s3"
    using compilesD [OF c s2(2) form_at_kept [OF parts(2) k2] _ reg] vars size by auto
  obtain q3 nc Kc i3 r3 where c3: "rc = int r3" "parts_at u s3 sc q3 (code @ nc) (K @ Kc) i3" "kept s2 s3"
    "computes c reg r3 (length code) nc (K @ Kc)" "r3 = reg \<or> r3 < reg \<and> nc = []"
    "length nc + (if r3 = reg then 0 else 1) \<le> lcost c" "length Kc \<le> lcost c" "\<forall>v\<in>set nc. local_op v"
    using s3(2) unfolding compiled_def by blast
  have nc: "length nc \<le> lcost c"
    using c3(6) by simp
  obtain s4 where s4: "emit (c_pr u) 0 s3 = Inr ((), s4)" "parts_at u s4 sc q3 (code @ nc @ [0]) (K @ Kc) i3" "kept s3 s4"
    using emit_run [OF c3(2), of 0] by auto
  note k4 = kept_trans [OF k2 kept_trans [OF c3(3) s4(3)]]
  obtain s5 l5 where s5: "comp_branch (Suc n) (comp_expr (Suc n)) (c_pr u) (int reg) fa s4 = Inr (l5, s5)"
    "compiled u s4 sc (code @ nc @ [0]) (K @ Kc) a reg (int reg) s5"
    using branch_run [OF a s4(2) form_at_kept [OF parts(3) k4] _ reg, of n] vars size nc c3(7) by auto
  obtain q5 na Ka i5 where c5: "parts_at u s5 sc q5 ((code @ nc @ [0]) @ na) ((K @ Kc) @ Ka) i5" "kept s4 s5"
    "computes a reg reg (length (code @ nc @ [0])) na ((K @ Kc) @ Ka)" "length na \<le> lcost a" "length Ka \<le> lcost a"
    "\<forall>v\<in>set na. local_op v"
    using s5(2) unfolding compiled_def by auto
  obtain s6 where s6: "emit (c_pr u) 0 s5 = Inr ((), s6)" "parts_at u s6 sc q5 (((code @ nc @ [0]) @ na) @ [0]) ((K @ Kc) @ Ka) i5" "kept s5 s6"
    using emit_run [OF c5(1), of 0] by blast
  note k6 = kept_trans [OF k4 kept_trans [OF c5(2) s6(3)]]
  obtain s7 l7 where s7: "comp_branch (Suc n) (comp_expr (Suc n)) (c_pr u) (int reg) fb s6 = Inr (l7, s7)"
    "compiled u s6 sc (((code @ nc @ [0]) @ na) @ [0]) ((K @ Kc) @ Ka) b reg (int reg) s7"
    using branch_run [OF b s6(2) form_at_kept [OF parts(4) k6] _ reg, of n] vars size nc c3(7) c5(4,5) by auto
  obtain q7 nb Kb i7 where c7: "parts_at u s7 sc q7 ((((code @ nc @ [0]) @ na) @ [0]) @ nb) (((K @ Kc) @ Ka) @ Kb) i7" "kept s6 s7"
    "computes b reg reg (length (((code @ nc @ [0]) @ na) @ [0])) nb (((K @ Kc) @ Ka) @ Kb)" "length nb \<le> lcost b" "length Kb \<le> lcost b"
    "\<forall>v\<in>set nb. local_op v"
    using s7(2) unfolding compiled_def by auto
  let ?q = "length code + length nc + 1 + length na + 1"
  let ?fin = "length code + length nc + 1 + length na + 1 + length nb"
  let ?vf = "iABx (op_num OP_FJMP) (r8 (int r3)) (r16 (int ?q)) l7"
  obtain s8 where s8: "vector_set (c_code u) (length (code @ nc)) ?vf s7 = Inr ((), s8)"
    "parts_at u s8 sc q7 (((((code @ nc @ [0]) @ na) @ [0]) @ nb)[length (code @ nc) := ?vf]) (((K @ Kc) @ Ka) @ Kb) i7" "kept s7 s8"
    using code_set_run [OF c7(1), of "length (code @ nc)" ?vf] by auto
  have "?fin < 2 ^ 16"
    using size(1) nc c5(4) c7(4) by simp
  then obtain vj where vj: "iAx (op_num OP_JMP) (of_nat ?fin) no_ln = Inr vj" "GET_OP vj = OP_JMP" "unat (GET_Ax vj) = ?fin"
    using iAx_small by blast
  obtain s9 where s9: "vector_set (c_code u) (length (code @ nc @ [0] @ na)) vj s8 = Inr ((), s9)"
    "parts_at u s9 sc q7 ((((((code @ nc @ [0]) @ na) @ [0]) @ nb)[length (code @ nc) := ?vf])[length (code @ nc @ [0] @ na) := vj])
      (((K @ Kc) @ Ka) @ Kb) i7" "kept s8 s9"
    using code_set_run [OF s8(2), of "length (code @ nc @ [0] @ na)" vj] by auto
  have code9: "(((((code @ nc @ [0]) @ na) @ [0]) @ nb)[length (code @ nc) := ?vf])[length (code @ nc @ [0] @ na) := vj] =
      code @ (nc @ [?vf] @ na @ [vj] @ nb)"
    by (simp add: list_update_append)
  have run: "comp_if (Suc n) (comp_expr (Suc n)) f (int reg) s = Inr (int reg, s9)"
    unfolding comp_if_branches
    using parts_proto(5) [OF s] CAR_CDR_stx [OF ps(1,2)] CAR_CDR_pair [OF ps(3)] CAR_CDR_pair [OF ps(4)] CAR_CDR_pair [OF ps(5)]
      s1(1) s2(1) s3(1) c3(1) s4(1) s5(1) s6(1) s7(1) s8(1) s9(1) code_len_run [OF c3(2)] code_len_run [OF c5(1)] code_len_run [OF c7(1)]
      parts_proto(1,2) [OF c7(1)] vj(1)
    by (simp add: error_unless_def Let_def algebra_simps del: op_num.simps comp_expr.simps)
  have "length ((K @ Kc) @ Ka @ Kb) < 2 ^ 16"
    using size(2) c3(7) c5(5) c7(5) by simp
  then have "computes (LIf c a b) reg reg (length code) (nc @ [?vf] @ na @ [vj] @ nb) (((K @ Kc) @ Ka) @ Kb)"
    using computes_if [of c reg r3 "length code" nc "((K @ Kc) @ Ka) @ Kb" a na b nb vj ?vf ?q l7]
      computes_consts [OF c3(4), of "Ka @ Kb"] computes_consts [OF c5(3), of Kb] c7(3) c3(5) reg vars vj(2,3)
    by (auto simp: add.assoc)
  moreover have "kept s s9"
    using kept_trans [OF k6 kept_trans [OF c7(2) kept_trans [OF s8(3) s9(3)]]] .
  ultimately have "compiled u s sc code K (LIf c a b) reg (int reg) s9"
    unfolding compiled_def
    using s9(2) [unfolded code9] c3(7,8) c5(4-6) c7(4-6) nc local_ops(3) local_ops(7) [OF vj(2)]
    by (intro exI [of _ q7] exI [of _ "nc @ [?vf] @ na @ [vj] @ nb"] exI [of _ "Kc @ Ka @ Kb"] exI [of _ i7] exI [of _ reg])
      (auto simp del: op_num.simps)
  then show ?thesis
    using run by blast
qed

section \<open>The compiler is correct\<close>

lemma comp_atom_expr:
  assumes "stx_at s f d" and "pair_p d s = Inr (False, s)"
  shows "comp_expr (Suc n) f reg s = comp_atom n f reg s"
  using stx_at_run(1,2) [OF assms(1)] assms(2) by (simp add: syntax_pair_p_def)

lemma all_compile: "ldepth e < n \<Longrightarrow> compiles u sc n e"
proof (induction e arbitrary: n)
  case (LInt i)
  then obtain m where n: "n = Suc (Suc m)"
    by (cases n; cases "n - 1") auto
  show ?case
    unfolding compiles_def n
    using atom_int comp_atom_expr fixnum_kinds(8) by fastforce
next
  case (LBool b)
  then obtain m where n: "n = Suc (Suc m)"
    by (cases n; cases "n - 1") auto
  show ?case
    unfolding compiles_def n
    using atom_bool comp_atom_expr bool_kinds(2) by fastforce
next
  case (LVar v r)
  then obtain m where n: "n = Suc (Suc m)"
    by (cases n; cases "n - 1") auto
  have "pair_p v s = Inr (False, s)" if "local_at s v r" for s
    using that symbol_kinds by (auto simp: local_at_def local_in_def symbol_at_def split: list.splits)
  then show ?case
    unfolding compiles_def n
    using atom_var comp_atom_expr by fastforce
next
  case (LIf c a b)
  then obtain m where n: "n = Suc (Suc m)"
    by (cases n; cases "n - 1") auto
  have sub: "compiles u sc (Suc m) c" "compiles u sc (Suc m) a" "compiles u sc (Suc m) b"
    using LIf n by auto
  show ?case
    unfolding compiles_def n
  proof (intro allI impI)
    fix s p code K info f reg
    assume s: "parts_at u s sc p code K info" "form_at s f (LIf c a b)" "\<forall>r\<in>lvars (LIf c a b). r < reg" "reg < 256"
      "length code + lcost (LIf c a b) < 2 ^ 16" "length K + lcost (LIf c a b) < 2 ^ 16"
    obtain t where t: "comp_if (Suc m) (comp_expr (Suc m)) f (int reg) s = Inr (int reg, t)" "compiled u s sc code K (LIf c a b) reg (int reg) t"
      using if_run [OF sub s] by blast
    obtain fc fa fb p0 p1 p2 p3 k v where ps: "stx_at s f p0" "spair_at s p0 k p1" "stx_at s k v" "if_at s v"
      using s(2) unfolding form_at.simps if_parts_def by blast
    have "pair_p v s = Inr (False, s)"
      using ps(4) symbol_kinds by (auto simp: if_at_def symbol_at_def)
    then have "syntax_pair_p k s = Inr (False, s)"
      using stx_at_run(1,2) [OF ps(3)] by (simp add: syntax_pair_p_def)
    moreover have "kws ! 5 = kw_if"
      by (simp add: kws_def)
    ultimately have "comp_expr (Suc (Suc m)) f (int reg) s = Inr (int reg, t)"
      using CAR_CDR_stx [OF ps(1,2)] stx_at_run(1,2) [OF ps(3)] if_keyword [OF ps(4)] t(1)
      by (simp add: error_unless_def comp_keyword_def comp_expr.simps(2) [of "Suc m"] del: comp_expr.simps(2))
    then show "\<exists>t r. comp_expr (Suc (Suc m)) f (int reg) s = Inr (r, t) \<and> compiled u s sc code K (LIf c a b) reg r t"
      using t(2) by blast
  qed
qed

lemma exit_step:
  "r < 256 \<Longrightarrow> r < length xs \<Longrightarrow> local_run (Suc j) (code @ [iAB (op_num OP_EXIT) (r8 (int r)) b l]) K (length code) xs = Inr (xs ! r)"
  by (simp add: local_step_def peek_def iA_reads small_regs Let_def del: op_num.simps)

text \<open>
  C1: The compiler is correct for expressions of fixnums, truth values, variables of the scope and nested \<open>if\<close>: it
  returns, it only appends to the code and the constants, and the virtual machine, started at the code it appended
  and stopped by an \<open>EXIT\<close> on the register it answers, leaves with the value of the expression, whatever the
  registers of the variables hold.
\<close>

theorem compiler_correct:
  assumes "parts_at u s sc p code K info" and "form_at s f e" and "\<forall>r\<in>lvars e. r < reg" and "reg < 256"
    and "length code + lcost e + 1 < 2 ^ 16" and "length K + lcost e < 2 ^ 16" and "ldepth e < n" and "\<forall>v\<in>set code. local_op v"
  shows "\<exists>r t new K' p' info'. comp_expr n f (int reg) s = Inr (int r, t) \<and> parts_at u t sc p' (code @ new) (K @ K') info' \<and>
    (\<forall>b l w xs m prims. running w (code @ new @ [iAB (op_num OP_EXIT) (r8 (int r)) b l]) (map fixnum (K @ K')) (length code) xs \<longrightarrow>
      reg < length xs \<longrightarrow> (\<exists>k w'. vm_loop k m prims w = Inr (lvalue xs e, w')))"
proof -
  have "compiles u sc n e" "length code + lcost e < 2 ^ 16"
    using all_compile [OF assms(7)] assms(5) by simp_all
  then obtain t r' where t: "comp_expr n f (int reg) s = Inr (r', t)" "compiled u s sc code K e reg r' t"
    using compilesD [OF _ assms(1-4) _ assms(6)] by blast
  obtain p' new K' info' r where c: "r' = int r" "parts_at u t sc p' (code @ new) (K @ K') info'"
    "computes e reg r (length code) new (K @ K')" "r = reg \<or> r < reg \<and> new = []" "length new + (if r = reg then 0 else 1) \<le> lcost e"
    "length K' \<le> lcost e" "\<forall>v\<in>set new. local_op v"
    using t(2) unfolding compiled_def by blast
  have "\<exists>k w'. vm_loop k m prims w = Inr (lvalue xs e, w')"
    if w: "running w (code @ new @ [iAB (op_num OP_EXIT) (r8 (int r)) b l]) (map fixnum (K @ K')) (length code) xs" "reg < length xs" for b l w xs m prims
  proof -
    let ?exit = "iAB (op_num OP_EXIT) (r8 (int r)) b l" and ?K = "map fixnum (K @ K')"
    have "length (code @ new @ [?exit]) < 2 ^ 16" "length (K @ K') < 2 ^ 16"
      using assms(5,6) c(5,6) by (auto split: if_splits)
    then obtain v where v: "reaches (code @ new @ [?exit]) (?K @ []) (length code) xs (length (code @ new)) (xs[reg := v])" "xs[reg := v] ! r = lvalue xs e"
      using c(3) w(2) unfolding computes_def by blast
    obtain k where k: "\<And>j. local_run (k + j) (code @ new @ [?exit]) ?K (length code) xs = local_run j (code @ new @ [?exit]) ?K (length (code @ new)) (xs[reg := v])"
      using reaches_run [OF v(1)] by auto
    have "local_run (k + Suc 0) (code @ new @ [?exit]) ?K (length code) xs = Inr (lvalue xs e)"
      using k [of "Suc 0"] exit_step [of r "xs[reg := v]" 0 "code @ new" b l ?K] c(4) v(2) w(2) assms(4) by (auto simp del: local_run.simps op_num.simps)
    moreover have "\<forall>v\<in>set (code @ new @ [?exit]). local_op v"
      using assms(8) c(7) by (auto simp: local_op_def iA_reads simp del: op_num.simps)
    moreover have "\<forall>x\<in>set ?K. \<not> ptr_p x"
      by (auto simp: fixnum_not_ptr)
    ultimately have "(case vm_loop (k + Suc 0) m prims w of Inl e \<Rightarrow> Inl e | Inr (v, _) \<Rightarrow> Inr v) = Inr (lvalue xs e)"
      using vm_loop_refines [OF w(1), of "k + Suc 0" m prims] by metis
    then show ?thesis
      by (cases "vm_loop (k + Suc 0) m prims w") (auto simp del: vm_loop.simps)
  qed
  then show ?thesis
    using t(1) c(1,2) by blast
qed

text \<open>The expression \<open>(if x 7 70000)\<close>, where \<open>x\<close> is the argument in register 0, and its compiler.\<close>

definition compile_demo :: sly_state where
  "compile_demo = sly_start\<lparr>sly_next := 288, cc_scopes := [\<lparr>sc_proto = 16, sc_symtable = 80, sc_level = 0\<rparr>],
     kw_symbols := [112, 112, 112, 112, 112, 128],
     sly_heap := [16 \<mapsto> SProto \<lparr>p_uplist = 0, p_K = 48, p_code = 32, p_entry = 0, p_nregs = 1, p_nargs = 1, p_nvars = 1, p_has_varg = False, p_syntax_info = 64, p_binding = 0\<rparr>,
       32 \<mapsto> SVector 0 [None], 48 \<mapsto> SVector 0 [None], 64 \<mapsto> SVector 0 [None],
       80 \<mapsto> SDict 1 [96, SLY_NULL], 96 \<mapsto> SPair 112 3, 112 \<mapsto> SSymbol 2 [120] 0, 128 \<mapsto> SSymbol 7 [105, 102] 0,
       144 \<mapsto> SSyntax no_token SLY_NULL 160 0, 160 \<mapsto> SPair 176 192, 176 \<mapsto> SSyntax no_token SLY_NULL 128 0,
       192 \<mapsto> SPair 208 224, 208 \<mapsto> SSyntax no_token SLY_NULL 112 0, 224 \<mapsto> SPair 240 256,
       240 \<mapsto> SSyntax no_token SLY_NULL (fixnum 7) 0, 256 \<mapsto> SPair 272 SLY_NULL,
       272 \<mapsto> SSyntax no_token SLY_NULL (fixnum 70000) 0]\<rparr>"

definition demo_expr :: lexpr where "demo_expr = LIf (LVar 112 0) (LInt 7) (LInt 70000)"

definition run_demo :: "INSTR list \<Rightarrow> sly_value list \<Rightarrow> sly_value list \<Rightarrow> sly_state" where
  "run_demo code K xs = sly_start\<lparr>sly_next := 80, cur_frame := 64, sly_heap := [16 \<mapsto> SVector (length xs) (map Some xs @ [None]),
     32 \<mapsto> SVector (length code) (map Some code @ [None]), 48 \<mapsto> SVector (length K) (map Some K @ [None]),
     64 \<mapsto> SFrame (blank_frame\<lparr>f_R := 16, f_code := 32, f_K := 48\<rparr>)]\<rparr>"

lemma run_demo_running: "running (run_demo code K xs) code K 0 xs"
  by (auto simp: running_def at_frame_def run_demo_def sly_start_def vec_at_def ptr_p_def void_p_def SLY_VOID_def
      GET_ADDR_def TAG_MASK_def blank_frame_def TOP_LEVEL_P_def)

lemmas demo_ptr = ptr_p_def void_p_def SLY_VOID_def GET_ADDR_def TAG_MASK_def

lemma compile_demo_parts: "\<exists>p. parts_at \<lparr>c_pr = 16, c_code = 32, c_K = 48, c_info = 64\<rparr> compile_demo
    \<lparr>sc_proto = 16, sc_symtable = 80, sc_level = 0\<rparr> p [] [] []"
  by (auto simp: parts_at_def compile_demo_def sly_start_def vec_at_def demo_ptr)

lemma compile_demo_stx:
  "stx_at compile_demo 144 160" "stx_at compile_demo 176 128" "stx_at compile_demo 208 112"
  "stx_at compile_demo 240 (fixnum 7)" "stx_at compile_demo 272 (fixnum 70000)"
  "spair_at compile_demo 160 176 192" "spair_at compile_demo 192 208 224" "spair_at compile_demo 224 240 256" "spair_at compile_demo 256 272 SLY_NULL"
  "symbol_at compile_demo 112 2" "symbol_at compile_demo 128 7"
  by (simp_all add: stx_at_def spair_at_def symbol_at_def compile_demo_def sly_start_def demo_ptr)

lemma one_entry:
  assumes "h k mod 2 = 0"
  shows "probe_inv h [Live k v, Empty]"
  unfolding probe_inv_def
proof (intro conjI allI impI ballI)
  fix i k' v' j
  assume i: "i < length [Live k v, Empty]" "[Live k v, Empty] ! i = Live k' v'"
  then have z: "i = 0" "k' = k"
    by (cases i; auto)+
  {
    assume "j \<in> set (before i (probe_order (length [Live k v, Empty]) (h k' mod length [Live k v, Empty])))"
    moreover have "probe_order (Suc (Suc 0)) 0 = [0, 1]"
      by (simp add: probe_order_def upt_conv_Cons)
    ultimately show "[Live k v, Empty] ! j \<noteq> Empty"
      using assms z by (simp add: numeral_2_eq_2 before_def)
  next
    fix w
    assume "j < length [Live k v, Empty]" "[Live k v, Empty] ! j = Live k' w"
    then show "j = i"
      using z by (cases j) auto
  }
qed simp

lemma compile_demo_table: "dict_at key_at atom_hash compile_demo 80 [Live (KSym 2) 3, Empty]"
proof -
  have "spair_at compile_demo 96 112 3"
    by (simp add: spair_at_def compile_demo_def sly_start_def demo_ptr)
  then have "slot_at key_at compile_demo 96 (Live (KSym 2) 3)"
    using compile_demo_stx(10) by (auto simp: symbol_at_def simp del: key_at.simps)
  then have "slots_at key_at compile_demo [96, SLY_NULL] [Live (KSym 2) 3, Empty]"
    unfolding slots_at_def entries_apart_def by (simp add: less_Suc_eq All_less_Suc del: slot_at.simps(3))
  moreover have "sly_heap compile_demo (GET_ADDR 80) = Some (SDict 1 [96, SLY_NULL])" "ptr_p 80"
    by (simp_all add: compile_demo_def sly_start_def demo_ptr)
  moreover have "probe_inv atom_hash [Live (KSym 2) 3, Empty]"
    by (rule one_entry) simp
  ultimately show ?thesis
    unfolding dict_at_def by (intro conjI exI [of _ "[96, SLY_NULL]"]) (simp_all only: live_of.simps list.size One_nat_def add_0)
qed

lemma compile_demo_local: "local_at compile_demo 112 0"
proof -
  have "local_in compile_demo \<lparr>sc_proto = 16, sc_symtable = 80, sc_level = 0\<rparr> 112 0"
    unfolding local_in_def using compile_demo_table compile_demo_stx(10)
    by (intro exI [of _ "[Live (KSym 2) 3, Empty]"] exI [of _ 2] exI [of _ 3]) (simp add: vmap_def has_type_def sp_type_def sp_reg_def)
  then show ?thesis
    by (simp add: local_at_def compile_demo_def)
qed

lemma compile_demo_if: "if_at compile_demo 128"
proof -
  have "kw_symbols compile_demo = [112, 112, 112, 112, 112, 128]"
    by (simp add: compile_demo_def)
  then show ?thesis
    using compile_demo_stx(10,11) unfolding if_at_def by (intro exI [of _ "[2, 2, 2, 2, 2, 7]"] exI [of _ 7]) simp
qed

lemma compile_demo_form: "form_at compile_demo 144 demo_expr"
proof -
  have "if_parts compile_demo 144 208 240 272"
    unfolding if_parts_def using compile_demo_stx(1,2,6-9) compile_demo_if by blast
  moreover have "form_at compile_demo 208 (LVar 112 0)"
    using compile_demo_stx(3) compile_demo_local by simp
  moreover have "form_at compile_demo 240 (LInt 7)" "form_at compile_demo 272 (LInt 70000)"
    using compile_demo_stx(4,5) by (simp_all add: fits_i32_def)
  ultimately show ?thesis
    unfolding demo_expr_def form_at.simps(4) by blast
qed

lemma compiler_correct_witness:
  "\<exists>r t new K' k w'. comp_expr 3 144 1 compile_demo = Inr (int r, t) \<and>
    vm_loop k 0 (\<lambda>_. ret) (run_demo (new @ [iAB (op_num OP_EXIT) (r8 (int r)) 0 0]) (map fixnum K') [SLY_FALSE, SLY_VOID]) = Inr (fixnum 70000, w')"
proof -
  obtain p where p: "parts_at \<lparr>c_pr = 16, c_code = 32, c_K = 48, c_info = 64\<rparr> compile_demo
      \<lparr>sc_proto = 16, sc_symtable = 80, sc_level = 0\<rparr> p [] [] []"
    using compile_demo_parts by blast
  have v: "lvalue [SLY_FALSE, SLY_VOID] demo_expr = fixnum 70000"
    by (simp add: demo_expr_def)
  have side: "\<forall>r\<in>lvars demo_expr. r < 1" "length ([] :: INSTR list) + lcost demo_expr + 1 < 2 ^ 16"
    "length ([] :: int list) + lcost demo_expr < 2 ^ 16" "ldepth demo_expr < 3" "(1 :: nat) < 256" "\<forall>v\<in>set ([] :: INSTR list). local_op v"
    by (simp_all add: demo_expr_def)
  obtain r t new K' where t: "comp_expr 3 144 (int 1) compile_demo = Inr (int r, t)"
    "\<And>b l w xs m prims. running w ([] @ new @ [iAB (op_num OP_EXIT) (r8 (int r)) b l]) (map fixnum ([] @ K')) (length ([] :: INSTR list)) xs \<Longrightarrow>
      1 < length xs \<Longrightarrow> \<exists>k w'. vm_loop k m prims w = Inr (lvalue xs demo_expr, w')"
    using compiler_correct [OF p compile_demo_form side(1,5,2-4,6)] by blast
  then show ?thesis
    using run_demo_running v by (metis append_Nil length_Cons lessI list.size(3) One_nat_def of_nat_1)
qed

end
