(* ===== verification/Sly_Expander.thy ===== *)
theory Sly_Expander
  imports Sly_Compile Sly_VM Sly_Patterns
begin

text \<open>
  The expander (src/syntax_expander.c): identifiers carry sets of scopes, a binding is found by the largest
  set of scopes that the identifier's set includes, and macros are procedures run by the virtual
  machine.  The C functions that macros call are the argument \<open>prims\<close>.
  Forms may be circular, so the recursion is fuelled; each form is a definition of its own that takes
  the expander as an argument.  Messages printed before a failed assertion are left out.
\<close>

section \<open>Core forms\<close>

definition core_form_names :: "string list" where
  "core_form_names =
     [''define'', ''lambda'', ''load'', ''include'', ''quote'', ''syntax-quote'', ''begin'', ''if'', ''values'', ''set!'',
      ''define-syntax'', ''call-with-current-continuation'', ''call/cc'', ''call-with-values'', ''apply'',
      ''require'', ''provide'', ''+'', ''-'', ''*'', ''/'', ''cons'', ''car'', ''cdr'', ''vector'', ''void'', ''boolean?'',
      ''char?'', ''null?'', ''pair?'', ''procedure?'', ''symbol?'', ''open-fd-ro'', ''read-fd'', ''close-fd'',
      ''make-bytevector'', ''bytevector?'', ''bytevector-length'', ''bytevector-u8-ref'', ''number?'', ''string?'',
      ''string'', ''vector?'', ''eq?'', ''='', ''<'', ''record?'', ''make-record'', ''record-ref'', ''record-set!'',
      ''record-meta-ref'', ''record-meta-set!'', ''char->integer'', ''integer->char'', ''string-length'',
      ''string-ref'', ''string=?'', ''make-string'', ''string-copy'', ''display'', ''write'', ''newline'']"

text \<open>The places of the forms the expander itself treats.\<close>

definition cf_define :: nat where "cf_define = 0"
definition cf_lambda :: nat where "cf_lambda = 1"
definition cf_include :: nat where "cf_include = 3"
definition cf_quote :: nat where "cf_quote = 4"
definition cf_syntax_quote :: nat where "cf_syntax_quote = 5"
definition cf_define_syntax :: nat where "cf_define_syntax = 10"
definition cf_require :: nat where "cf_require = 15"
definition cf_provide :: nat where "cf_provide = 16"

definition core_symbol :: "nat \<Rightarrow> sly_value sly" where
  "core_symbol i = bnd (gets core_forms) (\<lambda>v. vector_ref v i)"

definition new_scope :: "sly_value sly" where
  "new_scope = gensym_from_cstr (cstr ''scope'')"

definition add_binding :: "nat \<Rightarrow> sly_value \<Rightarrow> sly_value \<Rightarrow> unit sly" where
  "add_binding n idn binding = bnd (gets all_bindings) (\<lambda>ab. dictionary_set n ab idn binding)"

section \<open>Sets of scopes\<close>

type_synonym set_op = "sly_value \<Rightarrow> sly_value \<Rightarrow> sly_value sly"

definition scope_subset :: "nat \<Rightarrow> sly_value \<Rightarrow> sly_value \<Rightarrow> bool sly" where
  "scope_subset n set1 set2 = bnd (as_dict set2) (\<lambda>(_, slots). keys_in (sly_hash n) (sly_equal n) set1 slots)"

definition set_remove :: "nat \<Rightarrow> set_op" where
  "set_remove n st v = bnd (dictionary_remove n st v) (\<lambda>_. ret st)"

definition set_add :: "nat \<Rightarrow> set_op" where
  "set_add n st v = bnd (dictionary_set n st v SLY_NULL) (\<lambda>_. ret st)"

fun join_slots :: "nat \<Rightarrow> sly_value \<Rightarrow> sly_value list \<Rightarrow> unit sly" where
  "join_slots n st [] = ret ()"
| "join_slots n st (e # es) =
     bnd (ifM (slot_is_free e) (ret ()) (bnd (sly_car e) (\<lambda>k. bnd (set_add n st k) (\<lambda>_. ret ())))) (\<lambda>_.
     join_slots n st es)"

definition set_join :: "nat \<Rightarrow> set_op" where
  "set_join n set1 set2 =
     bnd (dict_of set2 ''Type error expected <dictionary>'') (\<lambda>(_, slots).
     bnd (join_slots n set1 slots) (\<lambda>_. ret set1))"

definition set_flip :: "nat \<Rightarrow> set_op" where
  "set_flip n st v =
     bnd (ifM (set_contains n st v) (set_remove n st v) (set_add n st v)) (\<lambda>_. ret st)"

definition exp_csyntax :: "sly_value \<Rightarrow> token \<Rightarrow> sly_value \<Rightarrow> sly_value sly" where
  "exp_csyntax datum tok scope_set =
     bnd (make_syntax tok datum) (\<lambda>stx.
     bnd (as_syntax stx) (\<lambda>(t, _, d, ctx).
     bnd (sly_obj_set stx (SSyntax t scope_set d ctx)) (\<lambda>_. ret stx)))"

text \<open>A syntax object without a set of scopes gets an empty one.\<close>

definition own_scopes :: "sly_value \<Rightarrow> sly_value sly" where
  "own_scopes s =
     bnd (syntax_scopes s) (\<lambda>sc.
     if null_p sc then
       bnd make_dictionary (\<lambda>d. bnd (as_syntax s) (\<lambda>(t, _, dm, ctx).
       bnd (sly_obj_set s (SSyntax t d dm ctx)) (\<lambda>_. ret d)))
     else ret sc)"

text \<open>The set of scopes is changed in place, and shared by the old and the new syntax object.\<close>

fun adjust_scope :: "nat \<Rightarrow> sly_value \<Rightarrow> sly_value \<Rightarrow> set_op \<Rightarrow> sly_value sly" where
  "adjust_scope 0 s sc f = fail NoFuel"
| "adjust_scope (Suc n) s sc f =
     ifM (syntax_pair_p s)
       (bnd (own_scopes s) (\<lambda>_.
        bnd (syntax_to_datum s) (\<lambda>d. bnd (adjust_scope n d sc f) (\<lambda>d'.
        bnd (as_syntax s) (\<lambda>(tok, _, _, _).
        bnd (syntax_scopes s) (\<lambda>scs. bnd (f scs sc) (exp_csyntax d' tok)))))))
     (ifM (identifier_p s)
       (bnd (own_scopes s) (\<lambda>_.
        bnd (as_syntax s) (\<lambda>(tok, _, d, _).
        bnd (syntax_scopes s) (\<lambda>scs. bnd (f scs sc) (exp_csyntax d tok)))))
     (ifM (pair_p s)
       (bnd (sly_car s) (\<lambda>a. bnd (adjust_scope n a sc f) (\<lambda>x.
        bnd (sly_cdr s) (\<lambda>d. bnd (adjust_scope n d sc f) (\<lambda>y. sly_cons x y)))))
       (ret s)))"

definition add_scope_set :: "nat \<Rightarrow> sly_value \<Rightarrow> sly_value \<Rightarrow> sly_value sly" where
  "add_scope_set n s st = adjust_scope n s st (set_join n)"

definition add_scope :: "nat \<Rightarrow> sly_value \<Rightarrow> sly_value \<Rightarrow> sly_value sly" where
  "add_scope n s sc = adjust_scope n s sc (set_add n)"

definition flip_scope :: "nat \<Rightarrow> sly_value \<Rightarrow> sly_value \<Rightarrow> sly_value sly" where
  "flip_scope n s sc = adjust_scope n s sc (set_flip n)"

section \<open>Bindings\<close>

definition scope_count :: "sly_value \<Rightarrow> nat sly" where
  "scope_count idn = bnd (syntax_scopes idn) (\<lambda>sc. bnd (as_dict sc) (\<lambda>(len, _). ret len))"

fun max_id_loop :: "nat \<Rightarrow> sly_value \<Rightarrow> sly_value \<Rightarrow> sly_value sly" where
  "max_id_loop 0 mx ids = fail NoFuel"
| "max_id_loop (Suc n) mx ids =
     (if null_p ids then ret mx
      else bnd (sly_car ids) (\<lambda>idn.
        bnd (scope_count mx) (\<lambda>m. bnd (scope_count idn) (\<lambda>k.
        bnd (sly_cdr ids) (max_id_loop n (if k > m then idn else mx))))))"

definition get_max_id :: "nat \<Rightarrow> sly_value \<Rightarrow> sly_value sly" where
  "get_max_id n ids = bnd (sly_car ids) (\<lambda>idn. bnd (sly_cdr ids) (max_id_loop n idn))"

fun matching_slots :: "nat \<Rightarrow> sly_value \<Rightarrow> sly_value \<Rightarrow> sly_value list \<Rightarrow> sly_value sly" where
  "matching_slots n idn found [] = ret found"
| "matching_slots n idn found (e # es) =
     ifM (slot_is_free e) (matching_slots n idn found es)
       (bnd (sly_car e) (\<lambda>c.
        ifM (bnd (syntax_to_datum idn) (\<lambda>d1. bnd (syntax_to_datum c) (\<lambda>d2.
              ifM (sly_equal n d1 d2)
                (bnd (syntax_scopes idn) (\<lambda>s1. bnd (syntax_scopes c) (\<lambda>s2. scope_subset n s1 s2)))
                (ret False))))
          (bnd (sly_cons c found) (\<lambda>m. matching_slots n idn m es))
          (matching_slots n idn found es)))"

definition find_all_matching_bindings :: "nat \<Rightarrow> sly_value \<Rightarrow> sly_value sly" where
  "find_all_matching_bindings n idn =
     bnd (gets all_bindings) (\<lambda>ab. bnd (as_dict ab) (\<lambda>(_, slots). matching_slots n idn SLY_NULL slots))"

fun check_unambiguous :: "nat \<Rightarrow> sly_value \<Rightarrow> sly_value \<Rightarrow> unit sly" where
  "check_unambiguous 0 mx ids = fail NoFuel"
| "check_unambiguous (Suc n) mx ids =
     (if null_p ids then ret ()
      else bnd (sly_car ids) (\<lambda>c.
        bnd (syntax_scopes mx) (\<lambda>s1. bnd (syntax_scopes c) (\<lambda>s2.
        bnd (expect (scope_subset (Suc n) s1 s2) ''Error ambiguous binding'') (\<lambda>_.
        bnd (sly_cdr ids) (check_unambiguous n mx))))))"

definition resolve :: "nat \<Rightarrow> sly_value \<Rightarrow> sly_value sly" where
  "resolve n idn =
     bnd (find_all_matching_bindings n idn) (\<lambda>ids.
     if null_p ids then gets undef_mark
     else bnd (get_max_id n ids) (\<lambda>mx.
       bnd (check_unambiguous n mx ids) (\<lambda>_.
       bnd (gets all_bindings) (\<lambda>ab. dictionary_ref n ab mx SLY_VOID))))"

definition introduce :: "nat \<Rightarrow> sly_value \<Rightarrow> sly_value sly" where
  "introduce n s = bnd (gets core_scope) (add_scope n s)"

definition env_extend :: "nat \<Rightarrow> sly_value \<Rightarrow> sly_value \<Rightarrow> sly_value \<Rightarrow> unit sly" where
  "env_extend n env key v = dictionary_set n env key v"

definition env_lookup :: "nat \<Rightarrow> sly_value \<Rightarrow> sly_value \<Rightarrow> sly_value sly" where
  "env_lookup n env key =
     bnd (dictionary_entry_ref n env key) (\<lambda>e. ifM (slot_is_free e) (ret SLY_VOID) (sly_cdr e))"

text \<open>A value that can be called: a macro, when an identifier is bound to it.\<close>

definition exp_callable :: "sly_value \<Rightarrow> bool sly" where
  "exp_callable v = ifM (prototype_p v) (ret True) (ifM (closure_p v) (ret True)
     (ifM (cclosure_p v) (ret True) (continuation_p v)))"

definition expand_identifier :: "nat \<Rightarrow> sly_value \<Rightarrow> sly_value \<Rightarrow> sly_value sly" where
  "expand_identifier n s env =
     bnd (resolve n s) (\<lambda>binding.
     bnd (gets core_forms) (\<lambda>cf.
     bnd (vector_contains n cf binding) (\<lambda>core.
     bnd (check (\<not> core) ''Error identifier cannot be a core form'') (\<lambda>_.
     bnd (gets undef_mark) (\<lambda>undef.
     ifM (sly_equal n binding undef) (ret s)
       (bnd (env_lookup n env binding) (\<lambda>v.
        bnd (gets var_mark) (\<lambda>var.
        ifM (sly_equal n v var) (ret s)
          (bnd (check (\<not> void_p v) ''Error out of context'') (\<lambda>_.
           bnd (expect (exp_callable v) ''Error bad syntax'') (\<lambda>_. ret s)))))))))))"

fun add_arg_scope :: "nat \<Rightarrow> sly_value \<Rightarrow> sly_value \<Rightarrow> sly_value sly" where
  "add_arg_scope 0 args sc = fail NoFuel"
| "add_arg_scope (Suc n) args sc =
     (if null_p args then ret args
      else ifM (pair_p args)
        (bnd (sly_car args) (\<lambda>a. bnd (add_scope n a sc) (\<lambda>x.
         bnd (sly_cdr args) (\<lambda>d. bnd (add_arg_scope n d sc) (\<lambda>y. sly_cons x y)))))
        (add_scope n args sc))"

text \<open>A new binding for an identifier, which is a variable.\<close>

definition bind_variable :: "nat \<Rightarrow> sly_value \<Rightarrow> sly_value \<Rightarrow> sly_value sly" where
  "bind_variable n idn env =
     bnd (gensym idn) (\<lambda>binding.
     bnd (add_binding n idn binding) (\<lambda>_.
     bnd (gets var_mark) (\<lambda>var.
     bnd (env_extend n env binding var) (\<lambda>_. ret binding))))"

fun add_arg_bindings :: "nat \<Rightarrow> sly_value \<Rightarrow> sly_value \<Rightarrow> unit sly" where
  "add_arg_bindings 0 args env = fail NoFuel"
| "add_arg_bindings (Suc n) args env =
     (if null_p args then ret ()
      else ifM (pair_p args)
        (bnd (sly_car args) (\<lambda>a. bnd (add_arg_bindings n a env) (\<lambda>_.
         bnd (sly_cdr args) (\<lambda>d. add_arg_bindings n d env))))
      (ifM (identifier_p args) (bnd (bind_variable n args env) (\<lambda>_. ret ()))
        (fail (Assert ''Error invalid syntax''))))"

section \<open>Forms\<close>

type_synonym expander = "sly_value \<Rightarrow> sly_value \<Rightarrow> sly_value sly"

text \<open>The tail after the second element, and a list of three.\<close>

definition cddr :: "sly_value \<Rightarrow> sly_value sly" where
  "cddr v = bnd (sly_cdr v) sly_cdr"

definition cadr :: "sly_value \<Rightarrow> sly_value sly" where
  "cadr v = bnd (sly_cdr v) sly_car"

definition list3 :: "sly_value \<Rightarrow> sly_value \<Rightarrow> sly_value \<Rightarrow> sly_value sly" where
  "list3 a b c = bnd (sly_cons c SLY_NULL) (\<lambda>l. bnd (sly_cons b l) (sly_cons a))"

definition expand_lambda :: "nat \<Rightarrow> expander \<Rightarrow> expander" where
  "expand_lambda n ex s env =
     bnd (sly_car s) (\<lambda>lambda_id. bnd (cadr s) (\<lambda>arg_ids. bnd (cddr s) (\<lambda>body.
     bnd new_scope (\<lambda>sc.
     bnd (add_arg_scope n arg_ids sc) (\<lambda>ids.
     bnd (add_arg_bindings n ids env) (\<lambda>_.
     bnd (add_scope n body sc) (\<lambda>body'.
     bnd (ex body' env) (\<lambda>e.
     bnd (sly_cons ids e) (sly_cons lambda_id)))))))))"

text \<open>What \<open>define\<close> and \<open>define-syntax\<close> share: the name, its binding, and the expanded value.\<close>

definition expand_definition :: "nat \<Rightarrow> expander \<Rightarrow> sly_value \<Rightarrow> sly_value \<Rightarrow> (sly_value \<times> sly_value \<times> sly_value \<times> sly_value) sly" where
  "expand_definition n ex s env =
     bnd (sly_car s) (\<lambda>define_id. bnd (cadr s) (\<lambda>lhs. bnd (cddr s) (\<lambda>rest.
     bnd (syntax_scopes define_id) (\<lambda>scopes.
     ifM (pair_p lhs)
       (bnd (sly_car lhs) (\<lambda>name.
        bnd (bind_variable n name env) (\<lambda>binding.
        bnd (as_syntax name) (\<lambda>(tok, _, _, _).
        bnd (core_symbol cf_lambda) (\<lambda>lam. bnd (exp_csyntax lam tok scopes) (\<lambda>lam_id.
        bnd (sly_cdr lhs) (\<lambda>params. bnd (sly_cons params rest) (\<lambda>l. bnd (sly_cons lam_id l) (\<lambda>form.
        bnd (ex form env) (\<lambda>rhs. ret (define_id, name, binding, rhs)))))))))))
     (ifM (identifier_p lhs)
       (bnd (bind_variable n lhs env) (\<lambda>binding.
        bnd (sly_car rest) (\<lambda>e. bnd (ex e env) (\<lambda>rhs. ret (define_id, lhs, binding, rhs)))))
       (fail (Assert ''Error bad syntax'')))))))"

definition expand_define :: "nat \<Rightarrow> expander \<Rightarrow> expander" where
  "expand_define n ex s env = bnd (expand_definition n ex s env) (\<lambda>(define_id, lhs, _, rhs). list3 define_id lhs rhs)"

fun resolve_args :: "nat \<Rightarrow> sly_value \<Rightarrow> sly_value sly" where
  "resolve_args 0 args = fail NoFuel"
| "resolve_args (Suc n) args =
     (if null_p args then ret args
      else ifM (pair_p args)
        (bnd (sly_car args) (\<lambda>a. bnd (resolve_args n a) (\<lambda>x.
         bnd (sly_cdr args) (\<lambda>d. bnd (resolve_args n d) (\<lambda>y. sly_cons x y)))))
        (resolve n args))"

definition exp_compile_lambda :: "nat \<Rightarrow> (sly_value \<Rightarrow> sly_value sly) \<Rightarrow> sly_value \<Rightarrow> sly_value sly" where
  "exp_compile_lambda n cmp s =
     bnd (sly_car s) (\<lambda>lambda_id. bnd (cadr s) (\<lambda>ids. bnd (cddr s) (\<lambda>body.
     bnd (resolve_args n ids) (\<lambda>ids'. bnd (cmp body) (\<lambda>body'.
     bnd (sly_cons ids' body') (sly_cons lambda_id))))))"

fun exp_compile :: "nat \<Rightarrow> sly_value \<Rightarrow> sly_value sly" where
  "exp_compile 0 s = fail NoFuel"
| "exp_compile (Suc n) s =
     ifM (identifier_p s)
       (bnd (resolve n s) (\<lambda>r. bnd (gets undef_mark) (\<lambda>undef.
        bnd (sly_equal n r undef) (\<lambda>u.
        bnd (check (\<not> u) ''Error undefined identifier'') (\<lambda>_.
        bnd (syntax_to_datum s) (\<lambda>d. bnd (symbol_set_alias r d) (\<lambda>_. ret r))))))
     ) (ifM (pair_p s)
       (bnd (sly_car s) (\<lambda>h.
        let parts = bnd (exp_compile n h) (\<lambda>x. bnd (sly_cdr s) (\<lambda>d. bnd (exp_compile n d) (\<lambda>y. sly_cons x y))) in
        ifM (identifier_p h)
          (bnd (resolve n h) (\<lambda>r.
           bnd (core_symbol cf_lambda) (\<lambda>lam. ifM (sly_equal n r lam) (exp_compile_lambda n (exp_compile n) s)
           (bnd (core_symbol cf_quote) (\<lambda>q. ifM (sly_equal n r q) (ret s)
           (bnd (core_symbol cf_syntax_quote) (\<lambda>sq. ifM (sly_equal n r sq) (ret s) parts)))))))
          parts))
       (ret s))"

definition expand_define_syntax :: "nat \<Rightarrow> expander \<Rightarrow> expander" where
  "expand_define_syntax n ex s env =
     bnd (expand_definition n ex s env) (\<lambda>(define_id, lhs, binding, rhs).
     bnd (exp_compile n rhs) (\<lambda>c. bnd (datum_to_syntax n define_id c) (\<lambda>ast.
     bnd (sly_compile_lambda n ast) (\<lambda>pr.
     bnd (env_extend n env binding pr) (\<lambda>_. list3 define_id lhs rhs)))))"

definition expand_core_form :: "expander \<Rightarrow> expander" where
  "expand_core_form ex s env =
     bnd (sly_car s) (\<lambda>idn. bnd (sly_cdr s) (\<lambda>d. bnd (ex d env) (sly_cons idn)))"

section \<open>Macros\<close>

definition macro_call :: "nat \<Rightarrow> cfuncs \<Rightarrow> sly_value \<Rightarrow> sly_value \<Rightarrow> sly_value sly" where
  "macro_call n prims mac0 form =
     bnd (sly_make_vector 1 1) (\<lambda>args.
     bnd (vector_set args 0 form) (\<lambda>_.
     bnd (ifM (prototype_p mac0) (sly_make_closure mac0) (ret mac0)) (\<lambda>mac.
     bnd (expect (closure_p mac) ''Type Error macro must be a procedure'') (\<lambda>_.
     bnd (sly_arity mac) (\<lambda>arity.
     bnd (check (arity = 0 \<or> arity = 1) ''Value Error macros may have at most one argument'') (\<lambda>_.
     bnd (as_closure mac) (\<lambda>(upvals, _).
     bnd (gets cc_globals) (\<lambda>globals.
     bnd (make_closed_upvalue globals) (\<lambda>uv.
     bnd (vector_set upvals 0 uv) (\<lambda>_. eval_closure n n prims mac args))))))))))"

definition apply_transformer :: "nat \<Rightarrow> cfuncs \<Rightarrow> sly_value \<Rightarrow> sly_value \<Rightarrow> sly_value sly" where
  "apply_transformer n prims t s =
     bnd new_scope (\<lambda>intro_scope.
     bnd (add_scope n s intro_scope) (\<lambda>intro_s.
     bnd (macro_call n prims t intro_s) (\<lambda>trans0.
     bnd (ifM (syntax_pair_p trans0) (syntax_to_list n trans0) (ret trans0)) (\<lambda>trans1.
     bnd (copy_syntax n trans1) (\<lambda>trans.
     flip_scope n trans intro_scope)))))"

fun expand_app :: "nat \<Rightarrow> expander \<Rightarrow> expander" where
  "expand_app 0 ex s env = fail NoFuel"
| "expand_app (Suc n) ex s env =
     (if null_p s then ret s
      else bnd (sly_car s) (\<lambda>a. bnd (ex a env) (\<lambda>h.
        bnd (sly_cdr s) (\<lambda>d. bnd (expand_app n ex d env) (sly_cons h)))))"

section \<open>Files\<close>

definition required_files :: "nat \<Rightarrow> sly_value sly" where
  "required_files n =
     bnd (make_symbol n (cstr ''*REQUIRED*'')) (\<lambda>key.
     bnd (gets cc_globals) (\<lambda>globals.
     bnd (dictionary_entry_ref n globals key) sly_cdr))"

definition get_provides :: "nat \<Rightarrow> sly_value \<Rightarrow> sly_value sly" where
  "get_provides n path =
     bnd (required_files n) (\<lambda>req.
     bnd (dictionary_entry_ref n req path) (\<lambda>e. ifM (slot_is_free e) (ret SLY_VOID) (sly_cdr e)))"

definition set_provides :: "nat \<Rightarrow> sly_value \<Rightarrow> sly_value \<Rightarrow> unit sly" where
  "set_provides n path provides = bnd (required_files n) (\<lambda>req. dictionary_set n req path provides)"

definition sly_expand_by :: "nat \<Rightarrow> expander \<Rightarrow> sly_value \<Rightarrow> sly_value \<Rightarrow> sly_value sly" where
  "sly_expand_by n ex env before =
     bnd (gets file_path) (\<lambda>path. bnd (sly_make_string path) (\<lambda>p.
     bnd (set_provides n p SLY_NULL) (\<lambda>_.
     bnd (syntax_to_list n before) (\<lambda>l. bnd (introduce n l) (\<lambda>ast1.
     bnd new_scope (\<lambda>sc. bnd (add_scope n ast1 sc) (\<lambda>ast2.
     bnd (ex ast2 env) (\<lambda>ast3. bnd (exp_compile n ast3) (\<lambda>ast4.
     datum_to_syntax n before ast4)))))))))"

text \<open>The required file is compiled and run, with the file, the prototype and the entry point put aside.\<close>

definition load_required :: "nat \<Rightarrow> sly_value \<Rightarrow> cfuncs \<Rightarrow> expander \<Rightarrow> sly_value \<Rightarrow> sly_value \<Rightarrow> unit sly" where
  "load_required n junk prims ex path env =
     bnd (gets file_path) (\<lambda>old_path.
     bnd cproto (\<lambda>old_proto.
     bnd (gets entry_point) (\<lambda>old_entry.
     bnd (sly_string_to_cstr path) (\<lambda>p.
     bnd (modify (\<lambda>s. s\<lparr>file_path := p\<rparr>)) (\<lambda>_.
     bnd reset_proto (\<lambda>_.
     bnd (parse_file n junk p) (\<lambda>ast0.
     bnd (sly_expand_by n ex env ast0) (\<lambda>ast.
     bnd (sly_compile n ast) (\<lambda>clos.
     bnd (modify (\<lambda>s. s\<lparr>entry_point := clos\<rparr>)) (\<lambda>_.
     bnd (eval_closure n n prims clos SLY_NULL) (\<lambda>_.
     bnd (modify (\<lambda>s. s\<lparr>file_path := old_path\<rparr>)) (\<lambda>_.
     bnd (set_scope_proto old_proto) (\<lambda>_.
     modify (\<lambda>s. s\<lparr>entry_point := old_entry\<rparr>))))))))))))))"

fun bind_provided :: "nat \<Rightarrow> sly_value \<Rightarrow> sly_value \<Rightarrow> unit sly" where
  "bind_provided 0 scopes provides = fail NoFuel"
| "bind_provided (Suc n) scopes provides =
     (if null_p provides then ret ()
      else bnd (sly_car provides) (\<lambda>idn.
        bnd (resolve n idn) (\<lambda>binding.
        bnd (syntax_to_datum idn) (\<lambda>d. bnd (exp_csyntax d no_token scopes) (\<lambda>idn'.
        bnd (add_binding n idn' binding) (\<lambda>_.
        bnd (sly_cdr provides) (bind_provided n scopes)))))))"

definition expand_require :: "nat \<Rightarrow> sly_value \<Rightarrow> cfuncs \<Rightarrow> expander \<Rightarrow> expander" where
  "expand_require n junk prims ex s env =
     bnd (cadr s) (\<lambda>a. bnd (syntax_to_datum a) (\<lambda>path.
     bnd (expect (string_p path) ''Type Error expected file path as string in require form'') (\<lambda>_.
     bnd (get_provides n path) (\<lambda>provides0.
     bnd (if void_p provides0
          then bnd (load_required n junk prims ex path env) (\<lambda>_. get_provides n path)
          else ret provides0) (\<lambda>provides.
     bnd (sly_car s) (\<lambda>req_id. bnd (syntax_scopes req_id) (\<lambda>scopes.
     bnd (core_symbol cf_lambda) (\<lambda>lam. bnd (exp_csyntax lam no_token scopes) (\<lambda>lam_id.
     bnd (core_symbol cf_quote) (\<lambda>q. bnd (exp_csyntax q no_token scopes) (\<lambda>q_id.
     bnd (sly_cons provides SLY_NULL) (\<lambda>l1. bnd (sly_cons q_id l1) (\<lambda>quoted_ids.
     bnd (list3 lam_id SLY_NULL quoted_ids) (\<lambda>id_list.
     bnd (bind_provided n scopes provides) (\<lambda>_. ret id_list)))))))))))))))"

definition expand_provide :: "nat \<Rightarrow> sly_value \<Rightarrow> sly_value sly" where
  "expand_provide n s =
     bnd (gets file_path) (\<lambda>path. bnd (sly_make_string path) (\<lambda>p.
     bnd (get_provides n p) (\<lambda>pr.
     bnd (sly_cdr s) (\<lambda>d.
     bnd (if null_p pr then set_provides n p d else sly_append n pr d) (\<lambda>_. ret SLY_VOID)))))"

definition expand_include :: "nat \<Rightarrow> sly_value \<Rightarrow> sly_value \<Rightarrow> sly_value sly" where
  "expand_include n junk s =
     bnd (cadr s) (\<lambda>a. bnd (syntax_to_datum a) (\<lambda>path.
     bnd (expect (string_p path) ''Type Error expected file path as string in require form'') (\<lambda>_.
     bnd (gets file_path) (\<lambda>old_path.
     bnd (sly_string_to_cstr path) (\<lambda>p.
     bnd (modify (\<lambda>st. st\<lparr>file_path := p\<rparr>)) (\<lambda>_.
     bnd (parse_file n junk p) (\<lambda>ast.
     bnd (sly_car s) (\<lambda>h. bnd (syntax_scopes h) (\<lambda>scopes.
     bnd (add_scope_set n ast scopes) (\<lambda>_.
     bnd (modify (\<lambda>st. st\<lparr>file_path := old_path\<rparr>)) (\<lambda>_. ret ast)))))))))))"

section \<open>The expander\<close>

definition is_core :: "nat \<Rightarrow> sly_value \<Rightarrow> nat \<Rightarrow> bool sly" where
  "is_core n binding i = bnd (core_symbol i) (sly_equal n binding)"

definition expand_id_application_form :: "nat \<Rightarrow> sly_value \<Rightarrow> cfuncs \<Rightarrow> expander \<Rightarrow> expander" where
  "expand_id_application_form n junk prims ex s env =
     bnd (sly_car s) (\<lambda>h. bnd (resolve n h) (\<lambda>binding.
     ifM (is_core n binding cf_lambda) (expand_lambda n ex s env)
     (ifM (is_core n binding cf_define) (expand_define n ex s env)
     (ifM (is_core n binding cf_define_syntax) (expand_define_syntax n ex s env)
     (ifM (ifM (is_core n binding cf_quote) (ret True) (is_core n binding cf_syntax_quote)) (ret s)
     (ifM (is_core n binding cf_require) (expand_require n junk prims ex s env)
     (ifM (is_core n binding cf_provide) (expand_provide n s)
     (ifM (is_core n binding cf_include) (expand_include n junk s)
     (ifM (bnd (gets core_forms) (\<lambda>cf. vector_contains n cf binding)) (expand_core_form ex s env)
       (bnd (env_lookup n env binding) (\<lambda>v.
        ifM (exp_callable v) (bnd (apply_transformer n prims v s) (\<lambda>e. ex e env))
          (expand_app n ex s env))))))))))))"

fun expand :: "nat \<Rightarrow> sly_value \<Rightarrow> cfuncs \<Rightarrow> expander" where
  "expand 0 junk prims s env = fail NoFuel"
| "expand (Suc n) junk prims s env =
     ifM (identifier_p s) (expand_identifier n s env)
     (ifM (ifM (pair_p s) (bnd (sly_car s) identifier_p) (ret False))
       (expand_id_application_form n junk prims (expand n junk prims) s env)
     (ifM (list_p n s) (expand_app n (expand n junk prims) s env) (ret s)))"

definition sly_expand :: "nat \<Rightarrow> sly_value \<Rightarrow> cfuncs \<Rightarrow> sly_value \<Rightarrow> sly_value \<Rightarrow> sly_value sly" where
  "sly_expand n junk prims env ast = sly_expand_by n (expand n junk prims) env ast"

text \<open>A binding of a core form or a builtin, in the scope of the core.\<close>

definition bind_core :: "nat \<Rightarrow> sly_value \<Rightarrow> unit sly" where
  "bind_core n sm =
     bnd make_dictionary (\<lambda>scope_set. bnd (gets core_scope) (\<lambda>cs.
     bnd (dictionary_set n scope_set cs SLY_NULL) (\<lambda>_.
     bnd (exp_csyntax sm no_token scope_set) (\<lambda>idn. add_binding n idn sm))))"

fun bind_core_forms :: "nat \<Rightarrow> string list \<Rightarrow> unit sly" where
  "bind_core_forms n [] = ret ()"
| "bind_core_forms n (name # names) =
     bnd (make_symbol n (cstr name)) (\<lambda>sm.
     bnd (gets core_forms) (\<lambda>cf. bnd (vector_append cf sm) (\<lambda>_.
     bnd (bind_core n sm) (\<lambda>_. bind_core_forms n names))))"

fun bind_builtins :: "nat \<Rightarrow> sly_value \<Rightarrow> sly_value \<Rightarrow> unit sly" where
  "bind_builtins 0 env builtins = fail NoFuel"
| "bind_builtins (Suc n) env builtins =
     (if null_p builtins then ret ()
      else bnd (sly_car builtins) (\<lambda>e. bnd (sly_car e) (\<lambda>sm.
        bnd (bind_core n sm) (\<lambda>_.
        bnd (gets var_mark) (\<lambda>var.
        bnd (env_extend n env sm var) (\<lambda>_.
        bnd (sly_cdr builtins) (bind_builtins n env)))))))"

definition sly_expand_init :: "nat \<Rightarrow> sly_value \<Rightarrow> unit sly" where
  "sly_expand_init n env =
     bnd make_dictionary (\<lambda>ab. bnd (modify (\<lambda>s. s\<lparr>all_bindings := ab\<rparr>)) (\<lambda>_.
     bnd (sly_make_vector 0 (length core_form_names)) (\<lambda>cf. bnd (modify (\<lambda>s. s\<lparr>core_forms := cf\<rparr>)) (\<lambda>_.
     bnd new_scope (\<lambda>sc. bnd (modify (\<lambda>s. s\<lparr>core_scope := sc\<rparr>)) (\<lambda>_.
     bnd (gensym_from_cstr (cstr ''var'')) (\<lambda>var. bnd (modify (\<lambda>s. s\<lparr>var_mark := var\<rparr>)) (\<lambda>_.
     bnd (gensym_from_cstr (cstr ''undefined'')) (\<lambda>undef. bnd (modify (\<lambda>s. s\<lparr>undef_mark := undef\<rparr>)) (\<lambda>_.
     bnd (gets cc_builtins) (\<lambda>builtins.
     bnd (bind_core_forms n core_form_names) (\<lambda>_.
     bind_builtins n env builtins))))))))))))"

end
