(* ===== verification/Sly_Scopes.thy ===== *)
theory Sly_Scopes
  imports Sly_Expander Sly_DictProps
begin

text \<open>
  How the expander resolves an identifier: the sets of scopes are dictionaries on the heap, the
  table of bindings is a dictionary of identifiers, and \<open>resolve\<close> picks the binding whose set of
  scopes is the largest subset of the set of the identifier (src/syntax_expander.c).
\<close>


declare sly_equal.simps [simp del] sly_hash.simps [simp del]

section \<open>Identifiers and their sets of scopes\<close>

text \<open>A set of scopes is a dictionary whose keys are the symbols of the scopes.\<close>

definition scopes_at :: "sly_state \<Rightarrow> sly_value \<Rightarrow> (64 word) set \<Rightarrow> bool" where
  "scopes_at s sc S \<longleftrightarrow> (\<exists>vs. dict_at key_at atom_hash s sc vs \<and> Empty \<in> set vs \<and> dom (vmap vs) = KSym ` S)"

definition ident_at :: "sly_state \<Rightarrow> sly_value \<Rightarrow> 64 word \<Rightarrow> (64 word) set \<Rightarrow> bool" where
  "ident_at s v nm S \<longleftrightarrow> ptr_p v \<and> (\<exists>tok sc d ctx. sly_heap s (GET_ADDR v) = Some (SSyntax tok sc d ctx) \<and>
     key_at s d (KSym nm) \<and> scopes_at s sc S)"

lemma dom_vmap: "dom (vmap vs) = fst ` set (live_of vs)"
  by (simp add: vmap_def dom_map_of_conv_image_fst)

lemma dict_at_grows:
  assumes "dict_at key_at atom_hash s d vs" and "grows s t"
  shows "dict_at key_at atom_hash t d vs"
proof -
  have "data_kept s t"
    using assms(2) by (simp add: grows_def data_kept_def)
  then have "slot_at key_at t w x" if "slot_at key_at s w x" for w x
    using that assms(2) key_at_kept by (cases x) (auto intro: spair_at_grows)
  then show ?thesis
    using assms unfolding dict_at_def slots_at_def grows_def by blast
qed

lemma scopes_at_grows: "scopes_at s sc S \<Longrightarrow> grows s t \<Longrightarrow> scopes_at t sc S"
  unfolding scopes_at_def using dict_at_grows by blast

lemma ident_at_grows:
  assumes "ident_at s v nm S" and "grows s t"
  shows "ident_at t v nm S"
proof -
  have "data_kept s t"
    using assms(2) by (simp add: grows_def data_kept_def)
  then show ?thesis
    using assms key_at_kept scopes_at_grows [OF _ assms(2)] unfolding ident_at_def grows_def by blast
qed

lemma entry_search_run:
  assumes "dict_at key_at atom_hash s d vs" and "key_at s a k" and "Empty \<in> set vs"
  shows "\<exists>w. entry_search (sly_hash (Suc n)) (sly_equal (Suc n)) d a s = Inr (w, s) \<and>
    slot_is_free w s = Inr (vmap vs k = None, s)"
proof -
  obtain slots where sl: "ptr_p d" "sly_heap s (GET_ADDR d) = Some (SDict (length (live_of vs)) slots)"
    "\<forall>i<length vs. slot_at key_at s (slots ! i) (vs ! i)"
    using assms(1) by (rule atoms.dict_at_slot)
  obtain i where i: "i < length vs" "slot_search (sly_hash (Suc n)) (sly_equal (Suc n)) d a s = Inr (i, s)"
    "case vmap vs k of Some v \<Rightarrow> vs ! i = Live k v
     | None \<Rightarrow> (vs ! i = Empty \<or> vs ! i = Dead) \<and> (\<forall>v. probe_inv atom_hash (vs[i := Live k v]))"
    using atoms.search_run [OF assms, of n] by blast
  have "slot_is_free (slots ! i) s = Inr (vs ! i = Empty \<or> vs ! i = Dead, s)"
    using atoms.slot_free sl(3) i(1) by blast
  then show ?thesis
    using i key_at_kinds(8) [OF assms(2)] dict_object [OF sl(1,2)]
    by (auto simp: entry_search_def expect_def split: option.splits)
qed

lemma keys_in_run:
  assumes "dict_at key_at atom_hash s d vs" and "Empty \<in> set vs" and "list_all2 (slot_at key_at s) slots ws"
  shows "keys_in (sly_hash (Suc n)) (sly_equal (Suc n)) d slots s = Inr (fst ` set (live_of ws) \<subseteq> dom (vmap vs), s)"
  using assms(3)
proof (induction rule: list_all2_induct)
  case (Cons w slots x ws)
  show ?case
  proof (cases x)
    case (Live k v)
    then obtain a where a: "spair_at s w a v" "key_at s a k"
      using Cons.hyps(1) by auto
    obtain e where "entry_search (sly_hash (Suc n)) (sly_equal (Suc n)) d a s = Inr (e, s)"
      "slot_is_free e s = Inr (vmap vs k = None, s)"
      using entry_search_run [OF assms(1) a(2) assms(2), of n] by blast
    then show ?thesis
      using Live a Cons.IH atoms.slot_free [OF Cons.hyps(1)] by auto
  qed (use Cons atoms.slot_free [OF Cons.hyps(1)] in auto)
qed simp

lemma scope_subset_run:
  assumes "scopes_at s sc1 S1" and "scopes_at s sc2 S2"
  shows "scope_subset (Suc n) sc1 sc2 s = Inr (S2 \<subseteq> S1, s)"
proof -
  obtain vs where vs: "dict_at key_at atom_hash s sc1 vs" "Empty \<in> set vs" "dom (vmap vs) = KSym ` S1"
    using assms(1) by (auto simp: scopes_at_def)
  obtain ws where ws: "dict_at key_at atom_hash s sc2 ws" "dom (vmap ws) = KSym ` S2"
    using assms(2) by (auto simp: scopes_at_def)
  obtain slots where sl: "ptr_p sc2" "sly_heap s (GET_ADDR sc2) = Some (SDict (length (live_of ws)) slots)"
    "length slots = length ws" "\<forall>i<length ws. slot_at key_at s (slots ! i) (ws ! i)"
    using ws(1) by (rule atoms.dict_at_slot)
  have "list_all2 (slot_at key_at s) slots ws"
    using sl(3,4) by (simp add: list_all2_conv_all_nth)
  then have "keys_in (sly_hash (Suc n)) (sly_equal (Suc n)) sc1 slots s = Inr (fst ` set (live_of ws) \<subseteq> dom (vmap vs), s)"
    by (rule keys_in_run [OF vs(1,2)])
  moreover have "fst ` set (live_of ws) \<subseteq> dom (vmap vs) \<longleftrightarrow> S2 \<subseteq> S1"
    using vs(3) ws(2) by (auto simp flip: dom_vmap)
  ultimately show ?thesis
    using dict_object(1) [OF sl(1,2)] by (simp add: scope_subset_def)
qed

lemma scopes_len:
  assumes "scopes_at s sc S"
  shows "\<exists>slots. as_dict sc s = Inr ((card S, slots), s)"
proof -
  obtain vs where vs: "dict_at key_at atom_hash s sc vs" "dom (vmap vs) = KSym ` S"
    using assms by (auto simp: scopes_at_def)
  obtain slots where sl: "ptr_p sc" "sly_heap s (GET_ADDR sc) = Some (SDict (length (live_of vs)) slots)" "probe_inv atom_hash vs"
    using vs(1) by (rule atoms.dict_at_slot)
  have "card (fst ` set (live_of vs)) = length (live_of vs)"
    using distinct_card [OF probe_inv_distinct [OF sl(3)]] by simp
  moreover have "card (KSym ` S) = card S"
    by (intro card_image) (simp add: inj_on_def)
  ultimately show ?thesis
    using dict_object(1) [OF sl(1,2)] vs(2) by (auto simp: dom_vmap)
qed

lemma ident_run:
  assumes "ident_at s v nm S"
  shows "\<exists>d sc. syntax_to_datum v s = Inr (d, s) \<and> key_at s d (KSym nm) \<and> syntax_scopes v s = Inr (sc, s) \<and> scopes_at s sc S"
    and "scope_count v s = Inr (card S, s)"
proof -
  obtain tok sc d ctx where v: "ptr_p v" "sly_heap s (GET_ADDR v) = Some (SSyntax tok sc d ctx)" "key_at s d (KSym nm)" "scopes_at s sc S"
    using assms by (auto simp: ident_at_def)
  have p: "syntax_p v s = Inr (True, s)" "as_syntax v s = Inr ((tok, sc, d, ctx), s)"
    using v(1,2) by (simp_all add: syntax_p_def heap_p_run as_syntax_def sly_obj_at_def)
  then have "syntax_to_datum v s = Inr (d, s)" and sc: "syntax_scopes v s = Inr (sc, s)"
    by (simp_all add: syntax_to_datum_def syntax_scopes_def syntax_of_def expect_def)
  then show "\<exists>d sc. syntax_to_datum v s = Inr (d, s) \<and> key_at s d (KSym nm) \<and> syntax_scopes v s = Inr (sc, s) \<and> scopes_at s sc S"
    using v by blast
  obtain slots where "as_dict sc s = Inr ((card S, slots), s)"
    using scopes_len [OF v(4)] by blast
  then show "scope_count v s = Inr (card S, s)"
    using sc by (simp add: scope_count_def)
qed


section \<open>The table of bindings\<close>

text \<open>What a slot of the table holds: nothing, or a bound identifier with its name and scopes.\<close>

type_synonym bound = "sly_value \<times> 64 word \<times> (64 word) set"

fun binding_at :: "sly_state \<Rightarrow> sly_value \<Rightarrow> bound option \<Rightarrow> bool" where
  "binding_at s e None \<longleftrightarrow> e = SLY_NULL \<or> (\<exists>d. spair_at s e SLY_NULL d)"
| "binding_at s e (Some (c, nm, T)) \<longleftrightarrow> (\<exists>x. spair_at s e c x) \<and> ident_at s c nm T"

definition table_at :: "sly_state \<Rightarrow> bound option list \<Rightarrow> bool" where
  "table_at s bs \<longleftrightarrow> ptr_p (all_bindings s) \<and>
     (\<exists>len slots. sly_heap s (GET_ADDR (all_bindings s)) = Some (SDict len slots) \<and> list_all2 (binding_at s) slots bs)"

definition bound_in :: "sly_state \<Rightarrow> sly_value \<Rightarrow> bound \<Rightarrow> bool" where
  "bound_in s v b \<longleftrightarrow> (case b of (c, nm, T) \<Rightarrow> v = c \<and> ident_at s c nm T)"

text \<open>The bound identifiers an identifier can refer to: of its name, with no scopes but its own.\<close>

definition visible :: "64 word \<Rightarrow> (64 word) set \<Rightarrow> bound \<Rightarrow> bool" where
  "visible nm S b \<longleftrightarrow> (case b of (c, nm', T) \<Rightarrow> nm' = nm \<and> T \<subseteq> S)"

fun candidates :: "64 word \<Rightarrow> (64 word) set \<Rightarrow> bound option list \<Rightarrow> bound list" where
  "candidates nm S [] = []"
| "candidates nm S (None # bs) = candidates nm S bs"
| "candidates nm S (Some b # bs) = (if visible nm S b then b # candidates nm S bs else candidates nm S bs)"

lemma set_candidates: "set (candidates nm S bs) = {b. Some b \<in> set bs \<and> visible nm S b}"
  by (induction nm S bs rule: candidates.induct) auto

lemma candidates_len: "length (candidates nm S bs) \<le> length bs"
  by (induction nm S bs rule: candidates.induct) auto

lemma binding_at_grows: "binding_at s e b \<Longrightarrow> grows s t \<Longrightarrow> binding_at t e b"
  by (induction s e b rule: binding_at.induct) (auto intro: spair_at_grows ident_at_grows)

lemma binding_free: "binding_at s e b \<Longrightarrow> slot_is_free e s = Inr (b = None, s)"
proof (induction s e b rule: binding_at.induct)
  case (2 s e c nm T)
  then have "\<not> null_p c"
    using ptr_not_null by (auto simp: ident_at_def)
  then show ?case
    using 2 by (auto simp: slot_is_free_def)
qed (auto simp: slot_is_free_def)

lemma cons_bindings: "sly_cons a d s = Inr (v, t) \<Longrightarrow> all_bindings t = all_bindings s \<and> undef_mark t = undef_mark s"
  by (auto simp: sly_cons_def gc_malloc_def split: if_splits)

lemma ident_found:
  assumes "ident_at s idn nm S" and "ident_at s c nm' T"
  shows "bnd (syntax_to_datum idn) (\<lambda>d1. bnd (syntax_to_datum c) (\<lambda>d2.
      ifM (sly_equal (Suc n) d1 d2)
        (bnd (syntax_scopes idn) (\<lambda>s1. bnd (syntax_scopes c) (\<lambda>s2. scope_subset (Suc n) s1 s2)))
        (ret False))) s = Inr (visible nm S (c, nm', T), s)"
proof -
  obtain d1 sc1 where 1: "syntax_to_datum idn s = Inr (d1, s)" "key_at s d1 (KSym nm)" "syntax_scopes idn s = Inr (sc1, s)" "scopes_at s sc1 S"
    using ident_run(1) [OF assms(1)] by blast
  obtain d2 sc2 where 2: "syntax_to_datum c s = Inr (d2, s)" "key_at s d2 (KSym nm')" "syntax_scopes c s = Inr (sc2, s)" "scopes_at s sc2 T"
    using ident_run(1) [OF assms(2)] by blast
  show ?thesis
    using 1(1,3) 2(1,3) key_at_equal [OF 1(2) 2(2), of n] scope_subset_run [OF 1(4) 2(4), of n]
    by (auto simp: visible_def)
qed

fun all_bound :: "sly_state \<Rightarrow> bound list \<Rightarrow> bool" where
  "all_bound s [] = True"
| "all_bound s ((c, nm, T) # bs) = (ident_at s c nm T \<and> all_bound s bs)"

lemma all_bound_grows: "all_bound s bs \<Longrightarrow> grows s t \<Longrightarrow> all_bound t bs"
  by (induction s bs rule: all_bound.induct) (auto intro: ident_at_grows)

lemma matching_run:
  assumes "list_all2 (binding_at s) slots bs" and "ident_at s idn nm S" and "slist_at s found (map fst fs)" and "all_bound s fs"
    and "sly_room (length bs + k) s"
  shows "\<exists>w t. matching_slots (Suc n) idn found slots s = Inr (w, t) \<and> slist_at t w (map fst (rev (candidates nm S bs) @ fs)) \<and>
    all_bound t (rev (candidates nm S bs) @ fs) \<and> grows s t \<and> all_bindings t = all_bindings s \<and> undef_mark t = undef_mark s \<and>
    (candidates nm S bs = [] \<longrightarrow> w = found \<and> t = s)"
  using assms
proof (induction bs arbitrary: slots found fs s rule: list.induct)
  case Nil
  from Nil.prems(1) have "slots = []"
    by simp
  then show ?case
    using Nil.prems by simp
next
  case (Cons b bs)
  then obtain e es where e: "slots = e # es" "binding_at s e b" "list_all2 (binding_at s) es bs"
    by (auto simp: list_all2_Cons2)
  have skip: ?case if "matching_slots (Suc n) idn found slots s = matching_slots (Suc n) idn found es s" "candidates nm S (b # bs) = candidates nm S bs"
    using Cons.IH [OF e(3) Cons.prems(2-4)] room_mono [OF Cons.prems(5), of "length bs + k"] that by simp
  show ?case
  proof (cases b)
    case None
    then show ?thesis
      using e(1) binding_free [OF e(2)] by (intro skip) simp_all
  next
    case (Some y)
    obtain c nm' T where b: "b = Some (c, nm', T)"
      using Some by (cases y) auto
    then obtain x where x: "spair_at s e c x" "ident_at s c nm' T"
      using e(2) by auto
    note hit = ident_found [OF Cons.prems(2) x(2), of n]
    show ?thesis
    proof (cases "visible nm S (c, nm', T)")
      case False
      then show ?thesis
        using e(1) b x(1) binding_free [OF e(2)] hit by (intro skip) simp_all
    next
      case True
      have room: "sly_room (Suc (length bs + k)) s"
        using Cons.prems(5) by simp
      obtain m t1 where m: "sly_cons c found s = Inr (m, t1)" "spair_at t1 m c found" "grows s t1" "sly_room (length bs + k) t1"
        using sly_cons_run [OF room] by blast
      have "list_all2 (binding_at t1) es bs"
        using e(3) binding_at_grows [OF _ m(3)] by (rule list_all2_mono)
      moreover have "slist_at t1 m (map fst ((c, nm', T) # fs))"
        using m(2) slist_at_grows [OF Cons.prems(3) m(3)] by auto
      moreover have "all_bound t1 ((c, nm', T) # fs)"
        using all_bound_grows [OF Cons.prems(4) m(3)] ident_at_grows [OF x(2) m(3)] by simp
      ultimately obtain w t where t: "matching_slots (Suc n) idn m es t1 = Inr (w, t)"
        "slist_at t w (map fst (rev (candidates nm S bs) @ (c, nm', T) # fs))"
        "all_bound t (rev (candidates nm S bs) @ (c, nm', T) # fs)" "grows t1 t" "all_bindings t = all_bindings t1" "undef_mark t = undef_mark t1"
        using Cons.IH [OF _ ident_at_grows [OF Cons.prems(2) m(3)] _ _ m(4)] by blast
      have "matching_slots (Suc n) idn found slots s = Inr (w, t)"
        using e(1) b x(1) binding_free [OF e(2)] hit True m(1) t(1) by simp
      then show ?thesis
        using t b True cons_bindings [OF m(1)] grows_trans [OF m(3) t(4)] by simp
    qed
  qed
qed

section \<open>The most specific of them\<close>

fun most_scopes :: "bound \<Rightarrow> bound list \<Rightarrow> bound" where
  "most_scopes mx [] = mx"
| "most_scopes mx (b # bs) = most_scopes (if card (snd (snd b)) > card (snd (snd mx)) then b else mx) bs"

lemma most_scopes_in: "most_scopes mx bs \<in> set (mx # bs)"
  by (induction mx bs rule: most_scopes.induct) (auto split: if_splits)

lemma most_scopes_max: "b \<in> set (mx # bs) \<Longrightarrow> card (snd (snd b)) \<le> card (snd (snd (most_scopes mx bs)))"
proof (induction mx bs arbitrary: b rule: most_scopes.induct)
  case (2 mx b' bs)
  let ?m = "if card (snd (snd b')) > card (snd (snd mx)) then b' else mx"
  have IH: "card (snd (snd c)) \<le> card (snd (snd (most_scopes mx (b' # bs))))" if "c \<in> set (?m # bs)" for c
    using 2(1) [OF that] by simp
  have "card (snd (snd ?m)) \<le> card (snd (snd (most_scopes mx (b' # bs))))"
    by (rule IH) simp
  moreover have "b \<in> set bs \<or> card (snd (snd b)) \<le> card (snd (snd ?m))"
    using 2(2) by auto
  ultimately show ?case
    using IH by (meson list.set_intros(2) le_trans)
qed simp

lemma max_id_run:
  assumes "slist_at s l (map fst bs)" and "all_bound s (mx # bs)" and "length bs < n"
  shows "max_id_loop n (fst mx) l s = Inr (fst (most_scopes mx bs), s)"
  using assms
proof (induction bs arbitrary: l mx n)
  case Nil
  then show ?case
    by (cases n) auto
next
  case (Cons b bs)
  obtain m where n: "n = Suc m"
    using Cons.prems(3) by (cases n) auto
  obtain d where d: "spair_at s l (fst b) d" "slist_at s d (map fst bs)"
    using Cons.prems(1) by auto
  have "scope_count (fst mx) s = Inr (card (snd (snd mx)), s)" "scope_count (fst b) s = Inr (card (snd (snd b)), s)"
    using Cons.prems(2) ident_run(2) by (cases mx; cases b; auto)+
  moreover have "all_bound s ((if card (snd (snd b)) > card (snd (snd mx)) then b else mx) # bs)"
    using Cons.prems(2) by (cases mx; cases b) auto
  ultimately show ?case
    using d Cons.IH [OF d(2), of "if card (snd (snd b)) > card (snd (snd mx)) then b else mx" m] Cons.prems(3) n
    by (auto split: if_splits)
qed

lemma unambiguous_run:
  assumes "slist_at s l (map fst bs)" and "all_bound s (mx # bs)" and "length bs < n"
  shows "check_unambiguous n (fst mx) l s =
    (if \<forall>b\<in>set bs. snd (snd b) \<subseteq> snd (snd mx) then Inr ((), s) else Inl (Assert ''Error ambiguous binding''))"
  using assms
proof (induction bs arbitrary: l n)
  case Nil
  then show ?case
    by (cases n) auto
next
  case (Cons b bs)
  obtain m where n: "n = Suc m"
    using Cons.prems(3) by (cases n) auto
  obtain d where d: "spair_at s l (fst b) d" "slist_at s d (map fst bs)"
    using Cons.prems(1) by auto
  have i: "ident_at s (fst mx) (fst (snd mx)) (snd (snd mx))" "ident_at s (fst b) (fst (snd b)) (snd (snd b))" "all_bound s (mx # bs)"
    using Cons.prems(2) by (cases mx; cases b; auto)+
  obtain d1 sc1 where 1: "syntax_scopes (fst mx) s = Inr (sc1, s)" "scopes_at s sc1 (snd (snd mx))"
    using ident_run(1) [OF i(1)] by blast
  obtain d2 sc2 where 2: "syntax_scopes (fst b) s = Inr (sc2, s)" "scopes_at s sc2 (snd (snd b))"
    using ident_run(1) [OF i(2)] by blast
  show ?case
    using d 1(1) 2(1) scope_subset_run [OF 1(2) 2(2), of m] Cons.IH [OF d(2) i(3), of m] Cons.prems(3) n
    by (cases "snd (snd b) \<subseteq> snd (snd mx)") (simp_all add: expect_def)
qed


lemma scopes_finite: "scopes_at s sc S \<Longrightarrow> finite S"
  unfolding scopes_at_def vmap_def
  by (metis finite_dom_map_of finite_imageD inj_onI atom.inject(2))

lemma ident_finite: "ident_at s v nm S \<Longrightarrow> finite S"
  unfolding ident_at_def using scopes_finite by blast

lemma all_bound_in: "all_bound s bs \<Longrightarrow> (c, nm, T) \<in> set bs \<Longrightarrow> ident_at s c nm T"
  by (induction s bs rule: all_bound.induct) auto

lemma most_scopes_covers:
  assumes "all_bound s (mx # bs)" and "b \<in> set (mx # bs)" and "\<forall>b'\<in>set (mx # bs). snd (snd b') \<subseteq> snd (snd b)"
  shows "snd (snd (most_scopes mx bs)) = snd (snd b)"
proof -
  have "finite (snd (snd b))"
    using assms(1,2) by (cases b) (metis all_bound_in ident_finite snd_conv)
  moreover have "snd (snd (most_scopes mx bs)) \<subseteq> snd (snd b)"
    using assms(3) most_scopes_in by blast
  moreover have "card (snd (snd b)) \<le> card (snd (snd (most_scopes mx bs)))"
    by (rule most_scopes_max [OF assms(2)])
  ultimately show ?thesis
    by (rule card_seteq)
qed

text \<open>
  C4: An identifier resolves to the bound identifier of the same name whose set of scopes is the
  largest among the subsets of its own: when none is a subset it is unbound, when none of them
  contains all the others the reference is ambiguous and the expander stops, and otherwise the
  binding looked up is the one of such a largest identifier.
\<close>

theorem resolve_most_specific:
  assumes "ident_at s idn nm S" and "table_at s bs" and "sly_room (length bs) s" and "length bs < n"
  shows "let C = {b. Some b \<in> set bs \<and> visible nm S b};
             covers = (\<lambda>b. \<forall>b'\<in>C. snd (snd b') \<subseteq> snd (snd b)) in
    (if C = {} then resolve n idn s = Inr (undef_mark s, s)
     else if \<forall>b\<in>C. \<not> covers b then resolve n idn s = Inl (Assert ''Error ambiguous binding'')
     else \<exists>b\<in>C. covers b \<and> (\<exists>t. grows s t \<and> resolve n idn s = dictionary_ref n (all_bindings s) (fst b) SLY_VOID t))"
proof -
  obtain m where n: "n = Suc m"
    using assms(4) by (cases n) auto
  obtain len slots where tab: "ptr_p (all_bindings s)" "sly_heap s (GET_ADDR (all_bindings s)) = Some (SDict len slots)"
    "list_all2 (binding_at s) slots bs"
    using assms(2) by (auto simp: table_at_def)
  let ?C = "{b. Some b \<in> set bs \<and> visible nm S b}"
  define covers where "covers = (\<lambda>b :: bound. \<forall>b'\<in>?C. snd (snd b') \<subseteq> snd (snd b))"
  define cs where "cs = rev (candidates nm S bs)"
  have C: "set cs = ?C"
    by (simp add: cs_def set_candidates)
  have len: "length cs < n"
    using candidates_len [of nm S bs] assms(4) by (simp add: cs_def)
  obtain w t where t: "matching_slots n idn SLY_NULL slots s = Inr (w, t)" "slist_at t w (map fst cs)" "all_bound t cs"
    "grows s t" "all_bindings t = all_bindings s" "cs = [] \<Longrightarrow> w = SLY_NULL \<and> t = s"
    using matching_run [OF tab(3) assms(1), of SLY_NULL "[]" 0 m] assms(3) unfolding n by (auto simp: cs_def)
  have found: "find_all_matching_bindings n idn s = Inr (w, t)"
    using t(1) dict_object(1) [OF tab(1,2)] by (simp add: find_all_matching_bindings_def gets_def)
  show ?thesis
  proof (cases cs)
    case Nil
    then show ?thesis
      using found t(6) C by (simp add: resolve_def gets_def)
  next
    case (Cons mx bs')
    let ?b = "most_scopes mx bs'"
    obtain d where d: "spair_at t w (fst mx) d" "slist_at t d (map fst bs')"
      using t(2) Cons by auto
    have "get_max_id n w t = Inr (fst ?b, t)"
      using d max_id_run [OF d(2), of mx n] t(3) len Cons by (simp add: get_max_id_def)
    moreover have "all_bound t (?b # cs)"
      using t(3) all_bound_in [OF t(3)] most_scopes_in [of mx bs'] Cons by (cases ?b) auto
    then have "check_unambiguous n (fst ?b) w t = (if \<forall>b\<in>set cs. snd (snd b) \<subseteq> snd (snd ?b) then Inr ((), t)
        else Inl (Assert ''Error ambiguous binding''))"
      by (rule unambiguous_run [OF t(2) _ len])
    ultimately have run: "resolve n idn s = (if covers ?b
        then dictionary_ref n (all_bindings s) (fst ?b) SLY_VOID t else Inl (Assert ''Error ambiguous binding''))"
      using found d(1) t(5) by (simp add: resolve_def gets_def C covers_def)
    have b: "?b \<in> ?C" and ne: "?C \<noteq> {}"
      using most_scopes_in [of mx bs'] Cons by (auto simp flip: C)
    have only: "covers ?b" if "b \<in> ?C" "covers b" for b
      using that most_scopes_covers [of t mx bs' b] t(3) Cons unfolding C [symmetric] covers_def by metis
    have "(if ?C = {} then resolve n idn s = Inr (undef_mark s, s)
     else if \<forall>b\<in>?C. \<not> covers b then resolve n idn s = Inl (Assert ''Error ambiguous binding'')
     else \<exists>b\<in>?C. covers b \<and> (\<exists>t. grows s t \<and> resolve n idn s = dictionary_ref n (all_bindings s) (fst b) SLY_VOID t))"
    proof (cases "covers ?b")
      case True
      then have some: "\<not> (\<forall>b\<in>?C. \<not> covers b)"
        using b by blast
      have "resolve n idn s = dictionary_ref n (all_bindings s) (fst ?b) SLY_VOID t"
        using run True by simp
      then have hit: "\<exists>b\<in>?C. covers b \<and> (\<exists>t. grows s t \<and> resolve n idn s = dictionary_ref n (all_bindings s) (fst b) SLY_VOID t)"
        using True b t(4) by (intro bexI [of _ ?b] conjI exI [of _ t])
      show ?thesis
        unfolding if_not_P [OF ne] if_not_P [OF some] by (rule hit)
    next
      case False
      then have none: "\<forall>b\<in>?C. \<not> covers b"
        using only by blast
      show ?thesis
        unfolding if_not_P [OF ne] if_P [OF none] using run False by simp
    qed
    then show ?thesis
      by (simp only: Let_def covers_def)
  qed
qed

text \<open>The name \<open>x\<close>, bound without scopes and with one scope, used with that scope.\<close>

definition scope_demo :: sly_state where
  "scope_demo = sly_start\<lparr>sly_next := 256, all_bindings := 32,
     sly_heap := [16 \<mapsto> SSymbol 7 [120] 0, 48 \<mapsto> SSymbol 0 [115] 0, 32 \<mapsto> SDict 2 [64, 80],
       64 \<mapsto> SPair 96 SLY_TRUE, 80 \<mapsto> SPair 112 SLY_FALSE, 96 \<mapsto> SSyntax no_token 128 16 0, 112 \<mapsto> SSyntax no_token 144 16 0,
       128 \<mapsto> SDict 0 [SLY_NULL], 144 \<mapsto> SDict 1 [160, SLY_NULL], 160 \<mapsto> SPair 48 SLY_NULL]\<rparr>"

lemma scope_demo_addr:
  "ptr_p 16" "ptr_p 32" "ptr_p 48" "ptr_p 64" "ptr_p 80" "ptr_p 96" "ptr_p 112" "ptr_p 128" "ptr_p 144" "ptr_p 160"
  "GET_ADDR 16 = 16" "GET_ADDR 32 = 32" "GET_ADDR 48 = 48" "GET_ADDR 64 = 64" "GET_ADDR 80 = 80"
  "GET_ADDR 96 = 96" "GET_ADDR 112 = 112" "GET_ADDR 128 = 128" "GET_ADDR 144 = 144" "GET_ADDR 160 = 160"
  by (simp_all add: ptr_p_def GET_ADDR_def TAG_MASK_def void_p_def SLY_VOID_def)

lemma scope_demo_heap:
  "sly_heap scope_demo 16 = Some (SSymbol 7 [120] 0)" "sly_heap scope_demo 48 = Some (SSymbol 0 [115] 0)"
  "sly_heap scope_demo 32 = Some (SDict 2 [64, 80])" "sly_heap scope_demo 64 = Some (SPair 96 SLY_TRUE)"
  "sly_heap scope_demo 80 = Some (SPair 112 SLY_FALSE)" "sly_heap scope_demo 96 = Some (SSyntax no_token 128 16 0)"
  "sly_heap scope_demo 112 = Some (SSyntax no_token 144 16 0)" "sly_heap scope_demo 128 = Some (SDict 0 [SLY_NULL])"
  "sly_heap scope_demo 144 = Some (SDict 1 [160, SLY_NULL])" "sly_heap scope_demo 160 = Some (SPair 48 SLY_NULL)"
  "all_bindings scope_demo = 32"
  by (simp_all add: scope_demo_def)

lemmas scope_demo_facts = scope_demo_addr scope_demo_heap

lemma scope_demo_sets:
  "scopes_at scope_demo 128 {}" "scopes_at scope_demo 144 {0}"
proof -
  have "dict_at key_at atom_hash scope_demo 128 [Empty]"
    by (simp add: dict_at_def probe_inv_def slots_at_def entries_apart_def scope_demo_facts)
  then show "scopes_at scope_demo 128 {}"
    unfolding scopes_at_def by (intro exI [of _ "[Empty]"]) (simp add: vmap_def)
  have "dict_at key_at atom_hash scope_demo 144 [Live (KSym 0) SLY_NULL, Empty]"
    by (auto simp: dict_at_def probe_inv_def slots_at_def entries_apart_def scope_demo_facts
        less_Suc_eq nth_Cons' spair_at_def before_def probe_order_def numeral_2_eq_2)
  then show "scopes_at scope_demo 144 {0}"
    unfolding scopes_at_def by (intro exI [of _ "[Live (KSym 0) SLY_NULL, Empty]"]) (auto simp: vmap_def dom_def)
qed

lemma scope_demo_rep:
  "ident_at scope_demo 96 7 {}" "ident_at scope_demo 112 7 {0}"
  "table_at scope_demo [Some (96, 7, {}), Some (112, 7, {0})]" "sly_room 2 scope_demo"
proof -
  show i: "ident_at scope_demo 96 7 {}" "ident_at scope_demo 112 7 {0}"
    unfolding ident_at_def using scope_demo_sets by (auto simp: scope_demo_facts)
  show "table_at scope_demo [Some (96, 7, {}), Some (112, 7, {0})]"
    unfolding table_at_def using i by (auto simp: spair_at_def scope_demo_facts)
  show "sly_room 2 scope_demo"
    by (auto simp: sly_room_def heap_fine_def scope_demo_def split: if_splits)
qed

lemma resolve_most_specific_witness:
  "\<exists>t. grows scope_demo t \<and> resolve 3 112 scope_demo = dictionary_ref 3 32 112 SLY_VOID t"
proof -
  have C: "{b. Some b \<in> set [Some (96, 7, {}), Some (112, 7, {0})] \<and> visible 7 {0} b} = {(96, 7, {}), (112, 7, {0})}"
    by (auto simp: visible_def)
  have "all_bindings scope_demo = 32"
    by (simp add: scope_demo_def)
  then show ?thesis
    using resolve_most_specific [OF scope_demo_rep(2,3), of 3] scope_demo_rep(4) unfolding C Let_def by (auto simp: numeral_2_eq_2)
qed

section \<open>Adding a scope\<close>

lemma csyntax_run:
  assumes "sly_room (Suc n) s"
  shows "\<exists>x t. exp_csyntax d tok sc s = Inr (x, t) \<and> ptr_p x \<and> sly_heap t (GET_ADDR x) = Some (SSyntax tok sc d 0) \<and> grows s t"
proof -
  obtain x u where u: "gc_malloc (SSyntax tok SLY_NULL d 0) s = Inr (x, u)" "ptr_p x" "sly_heap u (GET_ADDR x) = Some (SSyntax tok SLY_NULL d 0)"
    "GET_ADDR x = sly_next s" "sly_heap u = (sly_heap s)(GET_ADDR x \<mapsto> SSyntax tok SLY_NULL d 0)"
    using sly_malloc_room [OF assms] by blast
  let ?t = "u\<lparr>sly_heap := (sly_heap u)(GET_ADDR x \<mapsto> SSyntax tok sc d 0)\<rparr>"
  have "as_syntax x u = Inr ((tok, SLY_NULL, d, 0), u)" "sly_obj_set x (SSyntax tok sc d 0) u = Inr ((), ?t)"
    using u(2,3) by (simp_all add: as_syntax_def sly_obj_at_def sly_obj_set_def)
  then have "exp_csyntax d tok sc s = Inr (x, ?t)"
    using u(1) by (simp add: exp_csyntax_def make_syntax_def)
  moreover have "sly_heap s (GET_ADDR x) = None"
    using sly_room_fine [OF assms] u(4) by (cases "sly_heap s (GET_ADDR x)") (auto simp: heap_fine_def)
  then have "grows s ?t"
    using u(5) by (auto simp: grows_def)
  ultimately show ?thesis
    using u(2) by auto
qed

text \<open>A set of scopes from which nothing was removed.\<close>

definition scopes_rep :: "sly_state \<Rightarrow> sly_value \<Rightarrow> nat \<Rightarrow> (64 word) set \<Rightarrow> bool" where
  "scopes_rep s sc cap S \<longleftrightarrow> (\<exists>m. dict_rep s sc cap m \<and> dom m = KSym ` S)"

lemma scopes_rep_at: "scopes_rep s sc cap S \<Longrightarrow> scopes_at s sc S"
  unfolding scopes_rep_def dict_rep_def scopes_at_def using usable_empty_left by blast

lemma set_add_run:
  assumes "scopes_rep s sc cap S" and "key_at s a (KSym h)" and "sly_room (cap + 3) s" and "2 \<le> n"
  shows "\<exists>t cap'. set_add n sc a s = Inr (sc, t) \<and> scopes_rep t sc cap' (insert h S) \<and> data_kept s t \<and> sly_room 1 t"
proof -
  obtain m where m: "dict_rep s sc cap m" "dom m = KSym ` S"
    using assms(1) by (auto simp: scopes_rep_def)
  obtain t cap' where t: "dictionary_set n sc a SLY_NULL s = Inr ((), t)" "dict_rep t sc cap' (m(KSym h \<mapsto> SLY_NULL))" "data_kept s t" "sly_room 1 t"
    using dict_rep_set [OF m(1) assms(2) _ assms(4), of 1 SLY_NULL] assms(3) by (auto simp: numeral_3_eq_3 numeral_2_eq_2)
  then have "scopes_rep t sc cap' (insert h S)"
    using m(2) unfolding scopes_rep_def by (intro exI [of _ "m(KSym h \<mapsto> SLY_NULL)"]) auto
  then show ?thesis
    using t by (auto simp: set_add_def)
qed

text \<open>An identifier and the dictionary of its scopes.\<close>

definition ident_rep :: "sly_state \<Rightarrow> sly_value \<Rightarrow> 64 word \<Rightarrow> sly_value \<Rightarrow> nat \<Rightarrow> (64 word) set \<Rightarrow> bool" where
  "ident_rep s v nm sc cap S \<longleftrightarrow> ptr_p v \<and> (\<exists>tok d ctx. sly_heap s (GET_ADDR v) = Some (SSyntax tok sc d ctx) \<and>
     key_at s d (KSym nm)) \<and> scopes_rep s sc cap S"

lemma ident_rep_at: "ident_rep s v nm sc cap S \<Longrightarrow> ident_at s v nm S"
  unfolding ident_rep_def ident_at_def using scopes_rep_at by blast

text \<open>
  C9: The sets of scopes are shared and changed in place: adding a scope to an identifier answers a
  new identifier with that scope, and gives the old one, and every other identifier with the same set,
  the scope as well.
\<close>

theorem add_scope_shared:
  assumes "ident_rep s v nm sc cap S" and "key_at s a (KSym h)" and "sly_room (cap + 3) s" and "3 \<le> n"
  shows "\<exists>x t. add_scope n v a s = Inr (x, t) \<and> ident_at t x nm (insert h S) \<and> ident_at t v nm (insert h S) \<and>
    (\<forall>w nm' cap'. ident_rep s w nm' sc cap' S \<longrightarrow> ident_at t w nm' (insert h S))"
proof -
  obtain m where n: "n = Suc m" "2 \<le> m"
    using assms(4) by (cases n) auto
  obtain tok d ctx where v: "ptr_p v" "sly_heap s (GET_ADDR v) = Some (SSyntax tok sc d ctx)" "key_at s d (KSym nm)"
    and sc: "scopes_rep s sc cap S"
    using assms(1) by (auto simp: ident_rep_def)
  have p: "syntax_p v s = Inr (True, s)" "as_syntax v s = Inr ((tok, sc, d, ctx), s)"
    using v(1,2) by (simp_all add: syntax_p_def heap_p_run as_syntax_def sly_obj_at_def)
  then have r: "syntax_to_datum v s = Inr (d, s)" "syntax_scopes v s = Inr (sc, s)"
    by (simp_all add: syntax_to_datum_def syntax_scopes_def syntax_of_def expect_def)
  have "ptr_p sc"
    using scopes_rep_at [OF sc] by (auto simp: scopes_at_def dict_at_def)
  then have own: "own_scopes v s = Inr (sc, s)"
    using r(2) ptr_not_null by (simp add: own_scopes_def)
  obtain t1 cap1 where t1: "set_add n sc a s = Inr (sc, t1)" "scopes_rep t1 sc cap1 (insert h S)" "data_kept s t1" "sly_room 1 t1"
    using set_add_run [OF sc assms(2,3), of n] n by auto
  have room: "sly_room (Suc 0) t1"
    using t1(4) by simp
  obtain x t where t: "exp_csyntax d tok sc t1 = Inr (x, t)" "ptr_p x" "sly_heap t (GET_ADDR x) = Some (SSyntax tok sc d 0)" "grows t1 t"
    using csyntax_run [OF room] by blast
  have "add_scope n v a s = Inr (x, t)"
    using p r own t1(1) t(1) key_at_kinds(2,7) [OF v(3)] n(1)
    by (simp add: add_scope_def syntax_pair_p_def identifier_p_def)
  moreover have kept: "ident_at t w nm' (insert h S)" if "ident_rep s w nm' sc cap' S" for w nm' cap'
  proof -
    obtain tok' d' ctx' where w: "ptr_p w" "sly_heap s (GET_ADDR w) = Some (SSyntax tok' sc d' ctx')" "key_at s d' (KSym nm')"
      using \<open>ident_rep s w nm' sc cap' S\<close> by (auto simp: ident_rep_def)
    then have "sly_heap t1 (GET_ADDR w) = Some (SSyntax tok' sc d' ctx')"
      using t1(3) by (simp add: data_kept_def)
    then have "ident_at t1 w nm' (insert h S)"
      unfolding ident_at_def using w(1) key_at_kept [OF w(3) t1(3)] scopes_rep_at [OF t1(2)] by blast
    then show ?thesis
      by (rule ident_at_grows [OF _ t(4)])
  qed
  moreover have "ident_at t x nm (insert h S)"
  proof -
    have "data_kept t1 t"
      using t(4) by (simp add: grows_def data_kept_def)
    then have "key_at t d (KSym nm)"
      using key_at_kept [OF key_at_kept [OF v(3) t1(3)]] by blast
    then show ?thesis
      unfolding ident_at_def using t(2,3) scopes_at_grows [OF scopes_rep_at [OF t1(2)] t(4)] by blast
  qed
  ultimately show ?thesis
    using kept [OF assms(1)] by blast
qed

text \<open>The name \<open>x\<close> with an empty set of scopes.\<close>

definition share_demo :: sly_state where
  "share_demo = sly_start\<lparr>sly_next := 128,
     sly_heap := [16 \<mapsto> SSymbol 7 [120] 0, 32 \<mapsto> SDict 0 (replicate 32 SLY_NULL), 48 \<mapsto> SSymbol 0 [115] 0, 96 \<mapsto> SSyntax no_token 32 16 0]\<rparr>"

lemma share_demo_rep: "ident_rep share_demo 96 7 32 32 {}"
proof -
  have a: "ptr_p 96" "ptr_p 16" "ptr_p 32" "GET_ADDR 96 = 96" "GET_ADDR 16 = 16" "GET_ADDR 32 = 32"
    by (simp_all add: ptr_p_def GET_ADDR_def TAG_MASK_def void_p_def SLY_VOID_def)
  have "dict_at key_at atom_hash share_demo 32 (replicate 32 Empty)"
    using a by (auto simp: dict_at_def probe_inv_empty slots_at_def entries_apart_def share_demo_def)
  moreover have "usable (replicate 32 Empty)"
    by (simp add: usable_def over_load_def)
  ultimately have "scopes_rep share_demo 32 32 {}"
    unfolding scopes_rep_def dict_rep_def
    by (intro exI [of _ "vmap (replicate 32 Empty)"] conjI exI [of _ "replicate 32 Empty"]) (simp_all add: vmap_def)
  then show ?thesis
    using a unfolding ident_rep_def by (auto simp: share_demo_def)
qed

lemma add_scope_shared_witness:
  "\<exists>x t. add_scope 3 96 48 share_demo = Inr (x, t) \<and> ident_at t x 7 {0} \<and> ident_at t 96 7 {0}"
proof -
  have "key_at share_demo 48 (KSym 0)"
    by (simp add: share_demo_def ptr_p_def GET_ADDR_def TAG_MASK_def void_p_def SLY_VOID_def)
  moreover have "sly_room (32 + 3) share_demo"
    by (auto simp: sly_room_def heap_fine_def share_demo_def split: if_splits)
  ultimately show ?thesis
    using add_scope_shared [OF share_demo_rep, of 48 0 3] by auto
qed

end
