(* ===== verification/Sly_Constants.thy ===== *)
theory Sly_Constants
  imports Sly_Correct
begin







end
