(* ===== verification/Sly_Display.thy ===== *)
theory Sly_Display
  imports Sly_Expander
begin

text \<open>
  The text of a value (\<open>sly_display\<close> of src/sly_types.c), appended to what the process has written to its
  standard output.  The text \<open>printf\<close> gives a double under \<open>%g\<close> is the argument \<open>g_text\<close>.  Values may be
  circular, so the recursion is fuelled.
\<close>

section \<open>printf\<close>

definition put :: "8 word list \<Rightarrow> unit sly" where
  "put bs = modify (\<lambda>s. s\<lparr>std_out := std_out s @ bs\<rparr>)"

definition puts :: "string \<Rightarrow> unit sly" where
  "puts t = put (cstr t)"

text \<open>\<open>%ld\<close>, \<open>%p\<close> of an address that is not null, and \<open>%.*s\<close>, which stops at a zero byte.\<close>

definition dec_text :: "int \<Rightarrow> 8 word list" where
  "dec_text i = (if i < 0 then [45] else []) @ digits_from 10 (nat \<bar>i\<bar>)"

definition ptr_text :: "sly_value \<Rightarrow> 8 word list" where
  "ptr_text v = cstr ''0x'' @ digits_from 16 (GET_ADDR v)"

definition until_zero :: "8 word list \<Rightarrow> 8 word list" where
  "until_zero = takeWhile (\<lambda>b. b \<noteq> 0)"

section \<open>sly\_display\<close>

fun lit_char :: "8 word \<Rightarrow> 8 word list" where
  "lit_char c = (if c = 10 then [92, 110] else if c = 34 then [92, 34] else if c = 92 then [92, 92] else [c])"

definition print_string_lit :: "sly_value \<Rightarrow> unit sly" where
  "print_string_lit v = bnd (as_bytes v) (\<lambda>bs. put ([34] @ concat (map lit_char bs) @ [34]))"

type_synonym displayer = "sly_value \<Rightarrow> bool \<Rightarrow> unit sly"

fun display_pairs :: "nat \<Rightarrow> displayer \<Rightarrow> sly_value \<Rightarrow> unit sly" where
  "display_pairs 0 d v = fail NoFuel"
| "display_pairs (Suc n) d v =
     ifM (pair_p v)
       (bnd (sly_car v) (\<lambda>a. bnd (d a True) (\<lambda>_. bnd (puts '' '') (\<lambda>_. bnd (sly_cdr v) (display_pairs n d)))))
       (if null_p v then put [8, 41]
        else bnd (puts ''. '') (\<lambda>_. bnd (d v True) (\<lambda>_. puts '')'')))"

definition display_pair :: "nat \<Rightarrow> displayer \<Rightarrow> sly_value \<Rightarrow> unit sly" where
  "display_pair n d v =
     bnd (puts ''('') (\<lambda>_. bnd (sly_cdr v) (\<lambda>r.
     ifM (if null_p r then ret True else pair_p r) (display_pairs n d v)
       (bnd (sly_car v) (\<lambda>a. bnd (d a True) (\<lambda>_. bnd (puts '' . '') (\<lambda>_. bnd (d r True) (\<lambda>_. puts '')'')))))))"

fun display_elems :: "displayer \<Rightarrow> sly_value option list \<Rightarrow> unit sly" where
  "display_elems d [] = ret ()"
| "display_elems d (None # es) = fail (UB ''uninitialised element'')"
| "display_elems d (Some x # es) = bnd (d x True) (\<lambda>_. bnd (puts '' '') (\<lambda>_. display_elems d es))"

fun display_slots :: "displayer \<Rightarrow> sly_value list \<Rightarrow> unit sly" where
  "display_slots d [] = ret ()"
| "display_slots d (e # es) =
     ifM (slot_is_free e) (display_slots d es) (bnd (d e True) (\<lambda>_. bnd (puts '' '') (\<lambda>_. display_slots d es)))"

definition pointer_text :: "string \<Rightarrow> sly_value \<Rightarrow> unit sly" where
  "pointer_text kind v = put (cstr (''#<'' @ kind @ ''@'') @ ptr_text v @ cstr ''>'')"

text \<open>What is left: the value, its tag and the type at its address, which must be that of an object.\<close>

definition unemplemented :: "sly_value \<Rightarrow> nat \<Rightarrow> unit sly" where
  "unemplemented v t =
     put (cstr ''#<UNEMPLEMENTED 0x'' @ digits_from 16 (unat v) @ cstr '', '' @ digits_from 10 (unat (v AND TAG_MASK)) @
       cstr '', '' @ digits_from 10 t @ cstr ''>'')"

definition display_object :: "nat \<Rightarrow> (64 word \<Rightarrow> 8 word list) \<Rightarrow> displayer \<Rightarrow> sly_value \<Rightarrow> bool \<Rightarrow> sly_obj \<Rightarrow> unit sly" where
  "display_object n g_text d v esc ob =
     (case ob of
        SPair _ _ \<Rightarrow> display_pair n d v
      | SInt i \<Rightarrow> put (dec_text i)
      | SFloat f \<Rightarrow> put (g_text f)
      | SSymbol _ name _ \<Rightarrow> put (until_zero name)
      | SString bs \<Rightarrow> (if esc then print_string_lit v else put (until_zero bs))
      | SBytes bs \<Rightarrow> put (cstr ''#vu8('' @ concat (map (\<lambda>b. digits_from 10 (unat b) @ [32]) bs) @ [8, 41])
      | SSyntax _ _ dm _ \<Rightarrow> bnd (puts ''#<syntax '') (\<lambda>_. bnd (d dm esc) (\<lambda>_. puts ''>''))
      | SProto _ \<Rightarrow> pointer_text ''prototype'' v
      | SVector len es \<Rightarrow> bnd (puts ''#('') (\<lambda>_. bnd (display_elems d (take len es)) (\<lambda>_. put [8, 41]))
      | SDict len slots \<Rightarrow>
          bnd (puts ''#dict('') (\<lambda>_.
          if len = 0 then puts '')'' else bnd (display_slots d slots) (\<lambda>_. put [8, 41]))
      | SClosure _ pr \<Rightarrow> bnd (pointer_text ''closure'' v) (\<lambda>_. d pr True)
      | SCClosure _ _ _ \<Rightarrow> pointer_text ''cclosure'' v
      | SUpvalue _ u \<Rightarrow>
          bnd (puts ''#<upvalue: '') (\<lambda>_.
          bnd (case u of
              Closed x \<Rightarrow> d x True
            | Open regs i \<Rightarrow> bnd (puts '' #<ref '') (\<lambda>_. bnd (reg_read regs i) (\<lambda>x. bnd (d x True) (\<lambda>_. puts ''>'')))) (\<lambda>_.
          puts ''>''))
      | SCont _ _ _ _ _ \<Rightarrow> unemplemented v 13
      | SFrame _ \<Rightarrow> unemplemented v 16
      | SUserData _ _ \<Rightarrow> unemplemented v 17
      | SOther t \<Rightarrow> if t = 18 then pointer_text ''ir-closure'' v else unemplemented v t
      | _ \<Rightarrow> fail (UB ''an object without a type''))"

definition display_by :: "nat \<Rightarrow> (64 word \<Rightarrow> 8 word list) \<Rightarrow> displayer \<Rightarrow> displayer" where
  "display_by n g_text d v esc =
     (if void_p v then puts ''#<void>''
      else if null_p v then puts ''()''
      else if bool_p v then puts (if v = SLY_FALSE then ''#f'' else ''#t'')
      else if imm_p v then
        ifM (int_p v) (bnd (get_int v) (\<lambda>i. put (dec_text i)))
        (ifM (float_p v) (bnd (sly_get_float v) (\<lambda>f. put (g_text f)))
        (ifM (sly_byte_p v) (bnd (get_byte v) (\<lambda>c. put (until_zero (char_name_cstr c))))
          (fail (UB ''no object at this address''))))
      else if ptr_p v then bnd (sly_obj_at v) (display_object n g_text d v esc)
      else fail (UB ''no object at this address''))"

fun sly_display :: "nat \<Rightarrow> (64 word \<Rightarrow> 8 word list) \<Rightarrow> displayer" where
  "sly_display 0 g_text v esc = fail NoFuel"
| "sly_display (Suc n) g_text v esc = display_by n g_text (sly_display n g_text) v esc"

definition sly_displayln :: "nat \<Rightarrow> (64 word \<Rightarrow> 8 word list) \<Rightarrow> sly_value \<Rightarrow> unit sly" where
  "sly_displayln n g_text v = bnd (sly_display n g_text v True) (\<lambda>_. put [10])"

end
