(* ===== verification/Sly_Ports.thy ===== *)
theory Sly_Ports
  imports Sly_Display
begin

text \<open>
  Ports (src/sly_ports.c): objects of user data that hold the address of a stream of the C library, and a
  property list that says what they are.  A stream is looked up by its address, here its number.
\<close>

section \<open>Streams of the C library\<close>

definition stream_at :: "sly_value \<Rightarrow> stream sly" where
  "stream_at f = bnd (gets (\<lambda>s. streams s (unat f))) (\<lambda>r.
     case r of None \<Rightarrow> fail (UB ''no stream at this address'') | Some st \<Rightarrow> ret st)"

definition set_stream :: "sly_value \<Rightarrow> stream option \<Rightarrow> unit sly" where
  "set_stream f st = modify (\<lambda>s. s\<lparr>streams := (streams s)(unat f := st)\<rparr>)"

definition new_stream :: "stream_kind \<Rightarrow> nat \<Rightarrow> bool \<Rightarrow> sly_value sly" where
  "new_stream k pos app =
     bnd (gets next_stream) (\<lambda>i.
     bnd (modify (\<lambda>s. s\<lparr>streams := (streams s)(i \<mapsto> \<lparr>st_kind = k, st_data = [], st_pos = pos, st_append = app\<rparr>),
       next_stream := i + 1\<rparr>)) (\<lambda>_. ret (of_nat i)))"

text \<open>\<open>fopen\<close> with mode \<open>r\<close>, \<open>w\<close> and \<open>a\<close>; only a file that is not there cannot be opened, and only to read.\<close>

definition fopen_r :: "8 word list \<Rightarrow> sly_value sly" where
  "fopen_r path = bnd (gets disk) (\<lambda>d. if d path = None then ret 0 else new_stream (Disk_file path) 0 False)"

definition fopen_w :: "bool \<Rightarrow> 8 word list \<Rightarrow> sly_value sly" where
  "fopen_w app path =
     bnd (gets disk) (\<lambda>d.
     let old = (case d path of Some bs \<Rightarrow> if app then bs else [] | None \<Rightarrow> []) in
     bnd (modify (\<lambda>s. s\<lparr>disk := d(path \<mapsto> old)\<rparr>)) (\<lambda>_. new_stream (Disk_file path) 0 app))"

text \<open>The bytes a stream is a view of; a pipe has those not read yet.\<close>

definition stream_bytes :: "stream \<Rightarrow> (8 word list) sly" where
  "stream_bytes st =
     (case st_kind st of
        Disk_file path \<Rightarrow> bnd (gets disk) (\<lambda>d. ret (case d path of Some bs \<Rightarrow> bs | None \<Rightarrow> []))
      | _ \<Rightarrow> ret (st_data st))"

definition fread :: "nat \<Rightarrow> sly_value \<Rightarrow> (8 word list) sly" where
  "fread len f =
     bnd (stream_at f) (\<lambda>st. bnd (stream_bytes st) (\<lambda>bs.
     let got = take len (drop (st_pos st) bs) in
     bnd (set_stream f (Some (st\<lparr>st_pos := st_pos st + length got\<rparr>))) (\<lambda>_. ret got)))"

definition fgetc :: "sly_value \<Rightarrow> (8 word) option sly" where
  "fgetc f = bnd (fread 1 f) (\<lambda>bs. ret (case bs of [] \<Rightarrow> None | b # _ \<Rightarrow> Some b))"

text \<open>Up to the end of the line, and at most one byte less than the size of the buffer.\<close>

definition line_of :: "nat \<Rightarrow> 8 word list \<Rightarrow> 8 word list" where
  "line_of sz bs = take (sz - 1) (takeWhile (\<lambda>b. b \<noteq> 10) bs @ take 1 (dropWhile (\<lambda>b. b \<noteq> 10) bs))"

definition fgets :: "nat \<Rightarrow> sly_value \<Rightarrow> (8 word list) option sly" where
  "fgets sz f =
     bnd (stream_at f) (\<lambda>st. bnd (stream_bytes st) (\<lambda>bs.
     bnd (fread (length (line_of sz (drop (st_pos st) bs))) f) (\<lambda>got. ret (if got = [] then None else Some got))))"

text \<open>Bytes written at a place of a file, or at its end.\<close>

definition overwrite :: "stream \<Rightarrow> 8 word list \<Rightarrow> 8 word list \<Rightarrow> 8 word list \<times> nat" where
  "overwrite st old new =
     (let pos = (if st_append st then length old else st_pos st) in
      (take pos old @ replicate (pos - length old) 0 @ new @ drop (pos + length new) old, pos + length new))"

definition fwrite :: "8 word list \<Rightarrow> sly_value \<Rightarrow> nat sly" where
  "fwrite bs f =
     bnd (stream_at f) (\<lambda>st.
     bnd (case st_kind st of
         Std_out \<Rightarrow> put bs
       | Disk_file path \<Rightarrow>
           bnd (stream_bytes st) (\<lambda>old. let (new, pos) = overwrite st old bs in
           bnd (modify (\<lambda>s. s\<lparr>disk := (disk s)(path \<mapsto> new)\<rparr>)) (\<lambda>_. set_stream f (Some (st\<lparr>st_pos := pos\<rparr>))))
       | Memory _ \<Rightarrow>
           (let (new, pos) = overwrite st (st_data st) bs in set_stream f (Some (st\<lparr>st_data := new, st_pos := pos\<rparr>)))
       | _ \<Rightarrow> ret ()) (\<lambda>_.
     ret (length bs)))"

text \<open>A memory stream stores the address and the length of its bytes.\<close>

definition fflush :: "sly_value \<Rightarrow> unit sly" where
  "fflush f =
     bnd (stream_at f) (\<lambda>st.
     case st_kind st of
       Memory v \<Rightarrow> bnd (user_data_of v) (\<lambda>(pl, bs).
         sly_obj_set v (SUserData pl (take 8 bs @ word_bytes f @ word_bytes (of_nat (length (st_data st))))))
     | _ \<Rightarrow> ret ())"

definition fclose :: "sly_value \<Rightarrow> unit sly" where
  "fclose f = bnd (fflush f) (\<lambda>_. set_stream f None)"

text \<open>A pipe has no position.\<close>

definition ftell :: "sly_value \<Rightarrow> int sly" where
  "ftell f =
     bnd (stream_at f) (\<lambda>st. ret (case st_kind st of Disk_file _ \<Rightarrow> int (st_pos st) | Memory _ \<Rightarrow> int (st_pos st) | _ \<Rightarrow> - 1))"

definition fseek :: "sly_value \<Rightarrow> nat \<Rightarrow> unit sly" where
  "fseek f pos =
     bnd (stream_at f) (\<lambda>st. case st_kind st of
       Disk_file _ \<Rightarrow> set_stream f (Some (st\<lparr>st_pos := pos\<rparr>))
     | Memory _ \<Rightarrow> set_stream f (Some (st\<lparr>st_pos := pos\<rparr>))
     | _ \<Rightarrow> ret ())"

definition fseek_end :: "sly_value \<Rightarrow> unit sly" where
  "fseek_end f = bnd (stream_at f) (\<lambda>st. bnd (stream_bytes st) (\<lambda>bs. fseek f (length bs)))"

section \<open>Ports\<close>

definition EOF_OBJECT :: "nat \<Rightarrow> sly_value sly" where
  "EOF_OBJECT n =
     bnd (make_symbol n (cstr ''eof'')) (\<lambda>key. bnd (gets cc_globals) (\<lambda>g. dictionary_ref n g key SLY_VOID))"

text \<open>\<open>sly_eq (plist_get (plist, cstr_to_symbol (prop)), cstr_to_symbol (name))\<close>.\<close>

definition property_is :: "nat \<Rightarrow> sly_value \<Rightarrow> string \<Rightarrow> string \<Rightarrow> bool sly" where
  "property_is n plist prop name =
     bnd (make_symbol n (cstr prop)) (\<lambda>p. bnd (plist_get n plist p) (\<lambda>v.
     bnd (make_symbol n (cstr name)) (sly_eq v)))"

definition port_of_type :: "nat \<Rightarrow> string list \<Rightarrow> sly_value \<Rightarrow> bool sly" where
  "port_of_type n names port =
     ifM (user_data_p port)
       (bnd (user_data_get_properties port) (\<lambda>plist.
        foldr (\<lambda>name m. ifM (property_is n plist ''type:'' name) (ret True) m) names (ret False)))
       (ret False)"

definition input_port_p :: "nat \<Rightarrow> sly_value \<Rightarrow> bool sly" where
  "input_port_p n = port_of_type n [''input-port'']"

definition output_port_p :: "nat \<Rightarrow> sly_value \<Rightarrow> bool sly" where
  "output_port_p n = port_of_type n [''output-port'']"

definition port_p :: "nat \<Rightarrow> sly_value \<Rightarrow> bool sly" where
  "port_p n = port_of_type n [''output-port'', ''input-port'']"

definition string_port_p :: "nat \<Rightarrow> sly_value \<Rightarrow> bool sly" where
  "string_port_p n port =
     ifM (port_p n port)
       (bnd (user_data_get_properties port) (\<lambda>plist. property_is n plist ''port-type:'' ''file-stream-port'')) (ret False)"

text \<open>\<open>user_data_get\<close> returns the address of a field, which is never null.\<close>

definition port_closed_p :: "nat \<Rightarrow> sly_value \<Rightarrow> bool sly" where
  "port_closed_p n port = ifM (port_p n port) (bnd (user_data_get port) (\<lambda>_. ret False)) (ret False)"

definition file_stream_port_p :: "nat \<Rightarrow> sly_value \<Rightarrow> bool sly" where
  "file_stream_port_p n port =
     ifM (port_p n port)
       (bnd (user_data_get_properties port) (\<lambda>plist.
        bnd (make_symbol n (cstr ''file-path:'')) (\<lambda>p. bnd (plist_get n plist p) string_p))) (ret False)"

definition eof_object_p :: "nat \<Rightarrow> sly_value \<Rightarrow> bool sly" where
  "eof_object_p n v = bnd (EOF_OBJECT n) (sly_eq v)"

definition port_set_stream :: "sly_value \<Rightarrow> sly_value \<Rightarrow> unit sly" where
  "port_set_stream port f = user_data_set port (word_bytes f)"

definition word_at :: "nat \<Rightarrow> 8 word list \<Rightarrow> sly_value sly" where
  "word_at i bs =
     bnd (check_ub (i + 8 \<le> length bs) ''read past the end of the object'') (\<lambda>_.
     ret (foldr (\<lambda>b w. push_bit 8 w OR ucast b) (take 8 (drop i bs)) 0))"

definition port_get_stream :: "sly_value \<Rightarrow> sly_value sly" where
  "port_get_stream port = bnd (user_data_get port) (word_at 0)"

definition put_property :: "nat \<Rightarrow> sly_value \<Rightarrow> string \<Rightarrow> sly_value sly \<Rightarrow> sly_value sly" where
  "put_property n plist prop m =
     bnd (make_symbol n (cstr prop)) (\<lambda>p. bnd m (plist_put n plist p))"

definition make_port :: "nat \<Rightarrow> string \<Rightarrow> sly_value sly" where
  "make_port n name =
     bnd (make_user_data 8) (\<lambda>port.
     bnd (put_property n SLY_NULL ''type:'' (make_symbol n (cstr name))) (\<lambda>plist.
     bnd (user_data_set_properties port plist) (\<lambda>_. ret port)))"

definition make_input_port :: "nat \<Rightarrow> sly_value sly" where
  "make_input_port n = make_port n ''input-port''"

definition make_output_port :: "nat \<Rightarrow> sly_value sly" where
  "make_output_port n = make_port n ''output-port''"

text \<open>The properties of a port on a file; its stream is set once it is open.\<close>

definition file_port :: "nat \<Rightarrow> sly_value \<Rightarrow> sly_value \<Rightarrow> (8 word list \<Rightarrow> sly_value sly) \<Rightarrow> sly_value sly" where
  "file_port n port path opener =
     bnd (user_data_get_properties port) (\<lambda>plist0.
     bnd (put_property n plist0 ''file-path:'' (ret path)) (\<lambda>plist1.
     bnd (put_property n plist1 ''port-type:'' (make_symbol n (cstr ''file-stream-port''))) (\<lambda>plist2.
     bnd (user_data_set_properties port plist2) (\<lambda>_.
     bnd (sly_string_to_cstr path) (\<lambda>p. bnd (opener (until_zero p)) (\<lambda>f.
     bnd (port_set_stream port f) (\<lambda>_. ret port)))))))"

definition open_input_file :: "nat \<Rightarrow> sly_value \<Rightarrow> sly_value sly" where
  "open_input_file n path = bnd (make_input_port n) (\<lambda>port. file_port n port path fopen_r)"

definition open_output_file :: "nat \<Rightarrow> sly_value \<Rightarrow> bool \<Rightarrow> sly_value sly" where
  "open_output_file n path app = bnd (make_output_port n) (\<lambda>port. file_port n port path (fopen_w app))"

definition open_output_string :: "nat \<Rightarrow> sly_value sly" where
  "open_output_string n =
     bnd (make_user_data 24) (\<lambda>port.
     bnd (user_data_get_properties port) (\<lambda>plist0.
     bnd (put_property n plist0 ''type:'' (make_symbol n (cstr ''output-port''))) (\<lambda>plist1.
     bnd (put_property n plist1 ''port-type:'' (make_symbol n (cstr ''string-port''))) (\<lambda>plist2.
     bnd (user_data_set_properties port plist2) (\<lambda>_.
     bnd (new_stream (Memory port) 0 False) (\<lambda>f.
     bnd (user_data_of port) (\<lambda>(pl, bs).
     bnd (sly_obj_set port (SUserData pl (word_bytes f @ drop 8 bs))) (\<lambda>_. ret port))))))))"

definition flush_output :: "nat \<Rightarrow> sly_value \<Rightarrow> unit sly" where
  "flush_output n port =
     bnd (expect (output_port_p n port) ''Type Error expected output-port'') (\<lambda>_. bnd (port_get_stream port) fflush)"

definition file_position :: "nat \<Rightarrow> sly_value \<Rightarrow> int \<Rightarrow> int sly" where
  "file_position n port pos =
     bnd (expect (port_p n port) ''Type Error expected port'') (\<lambda>_. bnd (port_get_stream port) (\<lambda>f.
     if pos < 0 then ftell f else bnd (fseek f (nat pos)) (\<lambda>_. ret pos)))"

text \<open>The bytes of the memory stream are those it had when it was closed.\<close>

definition get_output_string :: "nat \<Rightarrow> sly_value \<Rightarrow> sly_value sly" where
  "get_output_string n port =
     bnd (expect (string_port_p n port) ''Type Error expected string-port'') (\<lambda>_.
     bnd (port_get_stream port) (\<lambda>f. bnd (stream_at f) (\<lambda>st.
     bnd (fclose f) (\<lambda>_.
     bnd (user_data_of port) (\<lambda>(pl, bs).
     bnd (sly_obj_set port (SUserData pl (word_bytes 0 @ drop 8 bs))) (\<lambda>_.
     bnd (word_at 8 bs) (\<lambda>_. bnd (word_at 16 bs) (\<lambda>sz.
     sly_make_string (take (unat sz) (st_data st))))))))))"

definition close_port :: "sly_value \<Rightarrow> unit sly" where
  "close_port port = bnd (bnd (port_get_stream port) fclose) (\<lambda>_. port_set_stream port 0)"

definition close_input_port :: "nat \<Rightarrow> sly_value \<Rightarrow> unit sly" where
  "close_input_port n port =
     bnd (expect (input_port_p n port) ''Type Error expected input-port'') (\<lambda>_. close_port port)"

definition close_output_port :: "nat \<Rightarrow> sly_value \<Rightarrow> unit sly" where
  "close_output_port n port =
     bnd (expect (output_port_p n port) ''Type Error expected output-port'') (\<lambda>_. close_port port)"

definition write_char :: "nat \<Rightarrow> sly_value \<Rightarrow> sly_value \<Rightarrow> unit sly" where
  "write_char n ch port =
     bnd (expect (sly_byte_p ch) ''Type Error expected char'') (\<lambda>_.
     bnd (expect (output_port_p n port) ''Type Error expected output-port'') (\<lambda>_.
     bnd (get_byte ch) (\<lambda>b. bnd (port_get_stream port) (\<lambda>f. bnd (fwrite [word_of_int b] f) (\<lambda>_. ret ())))))"

definition write_string :: "nat \<Rightarrow> sly_value \<Rightarrow> sly_value \<Rightarrow> int \<Rightarrow> int \<Rightarrow> int sly" where
  "write_string n str port start ending =
     bnd (expect (output_port_p n port) ''Type Error expected output-port'') (\<lambda>_.
     bnd (expect (string_p str) ''Type Error expected output-port'') (\<lambda>_.
     bnd (as_bytes str) (\<lambda>bs. bnd (port_get_stream port) (\<lambda>f.
     bnd (check_ub (0 \<le> start \<and> start \<le> ending \<and> ending \<le> int (length bs)) ''read out of the string'') (\<lambda>_.
     bnd (fwrite (take (nat (ending - start)) (drop (nat start) bs)) f) (\<lambda>k. ret (int k)))))))"

definition read_char :: "nat \<Rightarrow> sly_value \<Rightarrow> sly_value \<Rightarrow> sly_value sly" where
  "read_char n junk port =
     bnd (expect (input_port_p n port) ''Type Error expected input-port'') (\<lambda>_.
     bnd (port_get_stream port) (\<lambda>f. bnd (fgetc f) (\<lambda>ch.
     case ch of None \<Rightarrow> EOF_OBJECT n | Some b \<Rightarrow> ret (make_byte junk (sint b)))))"

definition read_string :: "nat \<Rightarrow> sly_value \<Rightarrow> nat \<Rightarrow> sly_value sly" where
  "read_string n port len =
     bnd (expect (input_port_p n port) ''Type Error expected input-port'') (\<lambda>_.
     bnd (make_byte_vector len len) (\<lambda>v. bnd (port_get_stream port) (\<lambda>f.
     bnd (fread len f) (\<lambda>bs. bnd (sly_obj_set v (SString bs)) (\<lambda>_. ret v)))))"

definition read_line :: "nat \<Rightarrow> sly_value \<Rightarrow> sly_value sly" where
  "read_line n port =
     bnd (expect (input_port_p n port) ''Type Error expected input-port'') (\<lambda>_.
     bnd (port_get_stream port) (\<lambda>f. bnd (fgets 1024 f) (\<lambda>r.
     case r of None \<Rightarrow> EOF_OBJECT n
     | Some bs \<Rightarrow>
         (let str = until_zero bs in
          sly_make_string (if str \<noteq> [] \<and> last str = 10 then butlast str else str)))))"

fun lines_loop :: "nat \<Rightarrow> nat \<Rightarrow> sly_value \<Rightarrow> sly_value \<Rightarrow> sly_value \<Rightarrow> unit sly" where
  "lines_loop n 0 port eof end0 = fail NoFuel"
| "lines_loop n (Suc k) port eof end0 =
     bnd (read_line n port) (\<lambda>line.
     ifM (sly_eq line eof) (ret ())
       (bnd (sly_cons line SLY_NULL) (\<lambda>tmp. bnd (sly_set_cdr end0 tmp) (\<lambda>_. lines_loop n k port eof tmp))))"

definition port_to_lines :: "nat \<Rightarrow> sly_value \<Rightarrow> sly_value sly" where
  "port_to_lines n port =
     bnd (expect (input_port_p n port) ''Type Error expected input-port'') (\<lambda>_.
     bnd (read_line n port) (\<lambda>line. bnd (EOF_OBJECT n) (\<lambda>eof.
     ifM (sly_eq line eof) (bnd (close_input_port n port) (\<lambda>_. ret line))
       (bnd (sly_cons line SLY_NULL) (\<lambda>lst.
        bnd (lines_loop n n port eof lst) (\<lambda>_.
        bnd (close_input_port n port) (\<lambda>_. ret lst)))))))"

definition port_to_string :: "nat \<Rightarrow> sly_value \<Rightarrow> sly_value sly" where
  "port_to_string n port =
     bnd (expect (input_port_p n port) ''Type Error expected input-port'') (\<lambda>_.
     bnd (port_get_stream port) (\<lambda>f.
     bnd (fseek_end f) (\<lambda>_. bnd (ftell f) (\<lambda>len. bnd (fseek f 0) (\<lambda>_.
     bnd (check_ub (0 \<le> len) ''allocation of the size of the address space'') (\<lambda>_.
     bnd (make_byte_vector (nat len) (nat len)) (\<lambda>v.
     bnd (fread (nat len) f) (\<lambda>bs.
     bnd (sly_obj_set v (SString (bs @ replicate (nat len - length bs) 0))) (\<lambda>_.
     bnd (close_input_port n port) (\<lambda>_. ret v))))))))))"

end
