(* ===== verification/Sly_Disasm.thy ===== *)
theory Sly_Disasm
  imports Sly_Display
begin

text \<open>
  The disassembler (src/opcodes.c).  The source text a token was read from is the argument \<open>src\<close>, the text of
  a double \<open>g_text\<close>.
\<close>

section \<open>One instruction\<close>

definition spaces :: "int \<Rightarrow> 8 word list" where
  "spaces k = replicate (nat \<bar>k\<bar>) 32"

text \<open>\<open>%.*s\<close>: a negative precision is no precision.\<close>

definition prec :: "int \<Rightarrow> 8 word list \<Rightarrow> 8 word list" where
  "prec k bs = until_zero (if k < 0 then bs else take (nat k) bs)"

definition mnemonic :: "string \<Rightarrow> int list \<Rightarrow> 8 word list" where
  "mnemonic name operands = cstr ''('' @ cstr name @ concat (map (\<lambda>i. 32 # dec_text i) operands) @ cstr '')''"

definition instr_text :: "INSTR \<Rightarrow> (8 word list) option" where
  "instr_text v =
     (let a = uint (GET_A v); b = uint (GET_B v); c = uint (GET_C v); bx = uint (GET_Bx v) in
      case GET_OP v of
        OP_NOP \<Rightarrow> Some (mnemonic ''NOP'' [])
      | OP_MOVE \<Rightarrow> Some (mnemonic ''MOVE'' [a, b])
      | OP_LOADI \<Rightarrow> Some (mnemonic ''LOADI'' [a, GET_sBx v])
      | OP_LOADK \<Rightarrow> Some (mnemonic ''LOADK'' [a, bx])
      | OP_LOADFALSE \<Rightarrow> Some (mnemonic ''LOADFALSE'' [a])
      | OP_LOADTRUE \<Rightarrow> Some (mnemonic ''LOADTRUE'' [a])
      | OP_LOADNULL \<Rightarrow> Some (mnemonic ''LOADNULL'' [a])
      | OP_LOADVOID \<Rightarrow> Some (mnemonic ''LOADVOID'' [a])
      | OP_LOADCONT \<Rightarrow> Some (mnemonic ''LOADCONT'' [a])
      | OP_GETUPVAL \<Rightarrow> Some (mnemonic ''GETUPVAL'' [a, b])
      | OP_SETUPVAL \<Rightarrow> Some (mnemonic ''SETUPVAL'' [a, b])
      | OP_GETUPDICT \<Rightarrow> Some (mnemonic ''GETUPDICT'' [a, b, c])
      | OP_SETUPDICT \<Rightarrow> Some (mnemonic ''SETUPDICT'' [a, b, c])
      | OP_DICTREF \<Rightarrow> Some (mnemonic ''DICTREF'' [a, b, c])
      | OP_DICTSET \<Rightarrow> Some (mnemonic ''DICTSET'' [a, b, c])
      | OP_JMP \<Rightarrow> Some (mnemonic ''JMP'' [uint (GET_Ax v)])
      | OP_FJMP \<Rightarrow> Some (mnemonic ''FJMP'' [a, bx])
      | OP_CALL \<Rightarrow> Some (mnemonic ''CALL'' [a, b])
      | OP_TAILCALL \<Rightarrow> Some (mnemonic ''TAILCALL'' [a, b])
      | OP_CALLWVALUES0 \<Rightarrow> Some (mnemonic ''CALL/VALUES'' [a, b, c])
      | OP_CALLWVALUES \<Rightarrow> Some (mnemonic ''CALL/VALUES'' [a, b, c])
      | OP_APPLY \<Rightarrow> Some (mnemonic ''APPLY'' [a, b])
      | OP_CALLWCC \<Rightarrow> Some (mnemonic ''CALL/CC'' [a, b])
      | OP_EXIT \<Rightarrow> Some (mnemonic ''EXIT'' [a, b])
      | OP_CLOSURE \<Rightarrow> Some (mnemonic ''CLOSURE'' [a, bx])
      | OP_COUNT \<Rightarrow> None)"

text \<open>The start of the form a token is in, and the end.\<close>

fun line_start :: "8 word list \<Rightarrow> nat \<Rightarrow> nat" where
  "line_start src 0 = 0"
| "line_start src (Suc k) =
     (if src ! Suc k = 10 then Suc k + length (takeWhile is_space (drop (Suc k) src))
      else if src ! Suc k = 40 then Suc k else line_start src k)"

fun form_end :: "8 word list \<Rightarrow> nat \<Rightarrow> nat" where
  "form_end [] bal = 0"
| "form_end (b # bs) bal =
     (if b = 0 \<or> b = 10 then 0
      else if b = 41 then (if bal = 0 then 1 else 1 + form_end bs (bal - 1))
      else 1 + form_end bs (if b = 40 then bal + 1 else bal))"

definition source_text :: "int \<Rightarrow> token \<Rightarrow> 8 word list \<Rightarrow> 8 word list" where
  "source_text pad t src =
     (let so = nat (tok_so t); eo = nat (tok_eo t); start = line_start (src @ [0]) so;
          stop = eo + form_end (drop eo src) 0
      in spaces (14 - pad) @ prec (int so - int start) (drop start src) @ prec (int eo - int so) (drop so src) @
         prec (int stop - int eo) (drop eo src))"

definition line_note :: "(token \<Rightarrow> (8 word list) option) \<Rightarrow> nat \<Rightarrow> token \<Rightarrow> 8 word list" where
  "line_note src pad t =
     (let note = cstr '';; '' @ dec_text (tok_ln t + 1) @ cstr '':'' @ dec_text (tok_cn t) in
      spaces (20 - int pad) @ note @ (case src t of None \<Rightarrow> [] | Some tx \<Rightarrow> source_text (int (length note)) t tx))"

definition dis :: "(token \<Rightarrow> (8 word list) option) \<Rightarrow> INSTR \<Rightarrow> sly_value \<Rightarrow> unit sly" where
  "dis src v si =
     (case instr_text v of
        None \<Rightarrow> fail (Assert ''Error invalid opcode'')
      | Some tx \<Rightarrow>
          bnd (put tx) (\<lambda>_.
          bnd (ifM (if GET_LN v \<noteq> - 1 then vector_p si else ret False)
            (bnd (vector_ref si (unat (GET_LN v))) (\<lambda>s. bnd (as_syntax s) (\<lambda>(t, _). put (line_note src (length tx) t))))
            (ret ())) (\<lambda>_.
          put [10])))"

section \<open>Functions\<close>

text \<open>\<open>%-10zu\<close>.\<close>

definition left10 :: "nat \<Rightarrow> 8 word list" where
  "left10 i = (let ds = digits_from 10 i in ds @ replicate (10 - length ds) 32)"

fun dis_from :: "(token \<Rightarrow> (8 word list) option) \<Rightarrow> sly_value \<Rightarrow> sly_value \<Rightarrow> nat \<Rightarrow> nat \<Rightarrow> unit sly" where
  "dis_from src code si i 0 = ret ()"
| "dis_from src code si i (Suc k) =
     (let label = [91] @ digits_from 10 i @ [93] in
      bnd (put (label @ spaces (10 - int (length label)))) (\<lambda>_.
      bnd (vector_ref code i) (\<lambda>v. bnd (dis src v si) (\<lambda>_. dis_from src code si (Suc i) k))))"

definition dis_code :: "(token \<Rightarrow> (8 word list) option) \<Rightarrow> sly_value \<Rightarrow> sly_value \<Rightarrow> unit sly" where
  "dis_code src code si = bnd (vector_len code) (dis_from src code si 0)"

fun dis_upinfo :: "sly_value \<Rightarrow> nat \<Rightarrow> nat \<Rightarrow> unit sly" where
  "dis_upinfo uplist i 0 = ret ()"
| "dis_upinfo uplist i (Suc k) =
     bnd (vector_ref uplist i) (\<lambda>v.
     bnd (put (left10 i @ dec_text (if up_isup v then 1 else 0) @ cstr ''; '' @ dec_text (int (up_reg v)) @ [10])) (\<lambda>_.
     dis_upinfo uplist (Suc i) k))"

definition dis_constant :: "nat \<Rightarrow> (64 word \<Rightarrow> 8 word list) \<Rightarrow> sly_value \<Rightarrow> unit sly" where
  "dis_constant n g_text k =
     (let plain = bnd (sly_display n g_text k True) (\<lambda>_. put [10]) in
      ifM (symbol_p k)
        (bnd (symbol_get_alias k) (\<lambda>alias.
         if null_p alias then plain
         else bnd (symbol_to_cstr alias) (\<lambda>a. bnd (symbol_to_cstr k) (\<lambda>name.
           let a0 = until_zero a in
           put (a0 @ spaces (12 - int (length a0)) @ cstr ''->'' @ spaces 8 @ until_zero name @ [10])))))
        plain)"

fun dis_constants :: "nat \<Rightarrow> (sly_value \<Rightarrow> unit sly) \<Rightarrow> sly_value \<Rightarrow> nat \<Rightarrow> nat \<Rightarrow> unit sly" where
  "dis_constants n f K i 0 = ret ()"
| "dis_constants n f K i (Suc k) =
     bnd (vector_ref K i) (\<lambda>v. bnd (put (left10 i)) (\<lambda>_. bnd (f v) (\<lambda>_. dis_constants n f K (Suc i) k)))"

definition count_line :: "string \<Rightarrow> nat \<Rightarrow> unit sly" where
  "count_line label k = put (cstr label @ digits_from 10 k @ [10])"

type_synonym dis_env = "(token \<Rightarrow> (8 word list) option) \<times> (64 word \<Rightarrow> 8 word list)"

definition dis_prototype :: "nat \<Rightarrow> dis_env \<Rightarrow> sly_value \<Rightarrow> bool \<Rightarrow> unit sly" where
  "dis_prototype n env pr lstk =
     bnd (as_proto pr) (\<lambda>p.
     bnd (put (cstr ''Disassembly of function @ '' @ ptr_text pr @ [10])) (\<lambda>_.
     bnd (dis_code (fst env) (p_code p) (p_syntax_info p)) (\<lambda>_.
     if \<not> lstk then ret ()
     else bnd (vector_len (p_K p)) (\<lambda>len. bnd (vector_len (p_uplist p)) (\<lambda>ulen.
       bnd (count_line ''Regs: '' (p_nregs p)) (\<lambda>_.
       bnd (count_line ''Vars: '' (p_nvars p)) (\<lambda>_.
       bnd (count_line ''Args: '' (p_nargs p)) (\<lambda>_.
       bnd (count_line ''Upvalues: '' ulen) (\<lambda>_.
       bnd (put (cstr ''Upinfo'' @ [10])) (\<lambda>_.
       bnd (dis_upinfo (p_uplist p) 0 ulen) (\<lambda>_.
       bnd (put (cstr ''Constants'' @ [10])) (\<lambda>_.
       dis_constants n (dis_constant n (snd env)) (p_K p) 0 len))))))))))))"

fun dis_prototypes :: "(sly_value \<Rightarrow> unit sly) \<Rightarrow> sly_value \<Rightarrow> nat \<Rightarrow> nat \<Rightarrow> unit sly" where
  "dis_prototypes f K i 0 = ret ()"
| "dis_prototypes f K i (Suc k) =
     bnd (vector_ref K i) (\<lambda>v. bnd (ifM (prototype_p v) (f v) (ret ())) (\<lambda>_. dis_prototypes f K (Suc i) k))"

definition rule_line :: "unit sly" where
  "rule_line = put (replicate 44 61 @ [10])"

definition dis_prototype_rec :: "nat \<Rightarrow> dis_env \<Rightarrow> sly_value \<Rightarrow> bool \<Rightarrow> unit sly" where
  "dis_prototype_rec n env pr lstk =
     bnd (as_proto pr) (\<lambda>p.
     bnd (dis_prototype n env pr lstk) (\<lambda>_. bnd rule_line (\<lambda>_.
     bnd (vector_len (p_K p)) (\<lambda>len.
     dis_prototypes (\<lambda>v. dis_prototype n env v lstk) (p_K p) 0 len))))"

definition dis_all :: "nat \<Rightarrow> dis_env \<Rightarrow> stack_frame \<Rightarrow> bool \<Rightarrow> unit sly" where
  "dis_all n env f lstk =
     bnd (ifM (closure_p (f_clos f)) (bnd (as_closure (f_clos f)) (\<lambda>(_, pr). ret pr)) (ret SLY_NULL)) (\<lambda>pr.
     bnd (puts ''Disassembly of top-level code '') (\<lambda>_.
     bnd (sly_display n (snd env) pr True) (\<lambda>_.
     bnd (put [10]) (\<lambda>_.
     bnd (as_proto pr) (\<lambda>p.
     bnd (dis_code (fst env) (f_code f) (p_syntax_info p)) (\<lambda>_.
     bnd (vector_len (f_K f)) (\<lambda>len.
     bnd (if lstk then bnd (put (cstr ''Constants'' @ [10])) (\<lambda>_.
            dis_constants n (sly_displayln n (snd env)) (f_K f) 0 len)
          else ret ()) (\<lambda>_.
     bnd rule_line (\<lambda>_.
     dis_prototypes (\<lambda>v. dis_prototype_rec n env v lstk) (f_K f) 0 len)))))))))"

end
