(* ===== verification/Sly_Builtins.thy ===== *)
theory Sly_Builtins
  imports Sly_Ports Sly_Disasm
begin

text \<open>
  The library of builtin functions (src/builtins.h) and the entry points of the program that use it
  (the end of src/sly_compile.c).  A builtin gets the vector of its arguments, with the rest as a list when it
  takes any number.  Its number is its place in the table.
\<close>

text \<open>
  What the C library and the memory of the process give: the rest of a word of a character, the text of a
  double, the value of a text as a double, the bytes after a string, and the text a token was read from.
\<close>

record builtin_env =
  b_junk :: sly_value
  b_g_text :: "64 word \<Rightarrow> 8 word list"
  b_strtod :: "8 word list \<Rightarrow> 64 word"
  b_past :: "8 word list"
  b_src :: "token \<Rightarrow> (8 word list) option"

definition dis_env :: "builtin_env \<Rightarrow> dis_env" where
  "dis_env env = (b_src env, b_g_text env)"

type_synonym builtin = "sly_value \<Rightarrow> sly_value sly"

definition EXC_GENERIC :: nat where "EXC_GENERIC = 0"
definition EXC_MACRO :: nat where "EXC_MACRO = 2"
definition EXC_TYPE :: nat where "EXC_TYPE = 3"

text \<open>An argument, and a C integer as a size.\<close>

definition arg :: "sly_value \<Rightarrow> nat \<Rightarrow> (sly_value \<Rightarrow> 'a sly) \<Rightarrow> 'a sly" where
  "arg args i f = bnd (vector_ref args i) f"

definition arg2 :: "sly_value \<Rightarrow> (sly_value \<Rightarrow> sly_value \<Rightarrow> 'a sly) \<Rightarrow> 'a sly" where
  "arg2 args f = arg args 0 (\<lambda>x. arg args 1 (f x))"

definition truth :: "bool sly \<Rightarrow> sly_value sly" where
  "truth m = bnd m (\<lambda>b. ret (ctobool b))"

definition c_size :: "int \<Rightarrow> nat" where
  "c_size i = unat (word_of_int i :: 64 word)"

definition get_size :: "sly_value \<Rightarrow> nat sly" where
  "get_size v = bnd (get_int v) (\<lambda>i. ret (c_size i))"

definition make_size :: "nat \<Rightarrow> sly_value sly" where
  "make_size k = sly_make_int (sint (of_nat k :: 64 word))"

text \<open>\<open>while (!null_p (vargs))\<close> an accumulator.\<close>

fun fold_vargs :: "nat \<Rightarrow> (sly_value \<Rightarrow> sly_value \<Rightarrow> sly_value sly) \<Rightarrow> sly_value \<Rightarrow> sly_value \<Rightarrow> sly_value sly" where
  "fold_vargs 0 f acc vargs = fail NoFuel"
| "fold_vargs (Suc n) f acc vargs =
     (if null_p vargs then ret acc
      else bnd (sly_car vargs) (\<lambda>x. bnd (f acc x) (\<lambda>t. bnd (sly_cdr vargs) (fold_vargs n f t))))"

section \<open>Numbers\<close>

definition cadd :: "nat \<Rightarrow> builtin" where
  "cadd n args = arg args 0 (\<lambda>vargs. bnd (sly_make_int 0) (\<lambda>z. fold_vargs n sly_add z vargs))"

definition csub :: "nat \<Rightarrow> builtin" where
  "csub n args =
     arg args 0 (\<lambda>vargs. bnd (sly_make_int 0) (\<lambda>z.
     if null_p vargs then ret z
     else bnd (sly_car vargs) (\<lambda>head. bnd (sly_cdr vargs) (\<lambda>rest.
       if null_p rest then sly_sub z head
       else bnd (fold_vargs n sly_add z rest) (sly_sub head)))))"

definition cmul :: "nat \<Rightarrow> builtin" where
  "cmul n args = arg args 0 (\<lambda>vargs. bnd (sly_make_int 1) (\<lambda>z. fold_vargs n sly_mul z vargs))"

definition cdiv :: "nat \<Rightarrow> builtin" where
  "cdiv n args =
     arg args 0 (\<lambda>vargs. bnd (sly_make_int 1) (\<lambda>z.
     if null_p vargs then sly_raise_exception EXC_GENERIC ''Divide by zero''
     else bnd (sly_car vargs) (\<lambda>head. bnd (sly_cdr vargs) (\<lambda>rest.
       if null_p rest then sly_sub z head
       else bnd (fold_vargs n sly_mul z rest) (sly_div head)))))"

definition cfloor_div :: builtin where "cfloor_div args = arg2 args sly_floor_div"

definition cmod :: "nat \<Rightarrow> builtin" where
  "cmod n args =
     bnd (arg2 args sly_mod) (\<lambda>acc. arg args 2 (fold_vargs n sly_mod acc))"

definition cbitwise_and :: builtin where "cbitwise_and args = arg2 args sly_bitwise_and"
definition cbitwise_ior :: builtin where "cbitwise_ior args = arg2 args sly_bitwise_ior"
definition cbitwise_xor :: builtin where "cbitwise_xor args = arg2 args sly_bitwise_xor"
definition cbitwise_eqv :: builtin where "cbitwise_eqv args = arg2 args sly_bitwise_eqv"
definition cbitwise_nand :: builtin where "cbitwise_nand args = arg2 args sly_bitwise_nand"
definition cbitwise_nor :: builtin where "cbitwise_nor args = arg2 args sly_bitwise_nor"
definition cbitwise_not :: builtin where "cbitwise_not args = arg args 0 sly_bitwise_not"
definition carithmetic_shift :: builtin where "carithmetic_shift args = arg2 args sly_arithmetic_shift"

definition cnum_eq :: builtin where "cnum_eq args = truth (arg2 args sly_num_eq)"
definition cnum_lt :: builtin where "cnum_lt args = truth (arg2 args sly_num_lt)"
definition cnum_gt :: builtin where "cnum_gt args = truth (arg2 args sly_num_gt)"

definition cnum_leq :: builtin where
  "cnum_leq args = truth (ifM (arg2 args sly_num_lt) (ret True) (arg2 args sly_num_eq))"

definition cnum_geq :: builtin where
  "cnum_geq args = truth (ifM (arg2 args sly_num_gt) (ret True) (arg2 args sly_num_eq))"

definition cnot :: builtin where
  "cnot args = arg args 0 (\<lambda>v. ret (if v = SLY_FALSE then SLY_TRUE else SLY_FALSE))"

definition cnum_noteq :: builtin where
  "cnum_noteq args = bnd (cnum_eq args) (\<lambda>b. bnd (vector_set args 0 b) (\<lambda>_. cnot args))"

definition cint_to_char :: "builtin_env \<Rightarrow> builtin" where
  "cint_to_char env args = arg args 0 (\<lambda>i. bnd (get_int i) (\<lambda>k. ret (make_byte (b_junk env) k)))"

definition cchar_to_int :: builtin where
  "cchar_to_int args = arg args 0 (\<lambda>c. bnd (get_byte c) sly_make_int)"

section \<open>Predicates and equality\<close>

definition cnull_p :: builtin where "cnull_p args = arg args 0 (\<lambda>v. ret (ctobool (null_p v)))"
definition cboolean_p :: builtin where "cboolean_p args = arg args 0 (\<lambda>v. ret (ctobool (bool_p v)))"
definition cpair_p :: builtin where "cpair_p args = arg args 0 (\<lambda>v. truth (pair_p v))"
definition cnumber_p :: builtin where "cnumber_p args = arg args 0 (\<lambda>v. truth (number_p v))"
definition cinteger_p :: builtin where "cinteger_p args = arg args 0 (\<lambda>v. truth (int_p v))"
definition creal_p :: builtin where "creal_p args = arg args 0 (\<lambda>v. truth (float_p v))"
definition cchar_p :: builtin where "cchar_p args = ret SLY_FALSE"
definition csymbol_p :: builtin where "csymbol_p args = arg args 0 (\<lambda>v. truth (symbol_p v))"
definition cvector_p :: builtin where "cvector_p args = arg args 0 (\<lambda>v. truth (vector_p v))"
definition cbyte_vector_p :: builtin where "cbyte_vector_p args = arg args 0 (\<lambda>v. truth (byte_vector_p v))"
definition cstring_p :: builtin where "cstring_p args = arg args 0 (\<lambda>v. truth (string_p v))"
definition csyntax_p :: builtin where "csyntax_p args = arg args 0 (\<lambda>v. truth (syntax_p v))"
definition csyntax_pair_p :: builtin where "csyntax_pair_p args = arg args 0 (\<lambda>v. truth (syntax_pair_p v))"
definition cidentifier_p :: builtin where "cidentifier_p args = arg args 0 (\<lambda>v. truth (identifier_p v))"
definition cdictionary_p :: builtin where "cdictionary_p args = arg args 0 (\<lambda>v. truth (dictionary_p v))"
definition cidentifier_eq :: builtin where "cidentifier_eq args = truth (arg2 args identifier_eq)"

definition cprocedure_p :: builtin where
  "cprocedure_p args =
     arg args 0 (\<lambda>v. truth (ifM (closure_p v) (ret True) (ifM (cclosure_p v) (ret True) (continuation_p v))))"

fun eq_rest :: "nat \<Rightarrow> sly_value \<Rightarrow> sly_value \<Rightarrow> sly_value sly" where
  "eq_rest 0 s1 rest = fail NoFuel"
| "eq_rest (Suc n) s1 rest =
     (if null_p rest then ret SLY_TRUE
      else bnd (sly_car rest) (\<lambda>s.
        ifM (sly_string_eq s1 s) (bnd (sly_cdr rest) (eq_rest n s1)) (ret SLY_FALSE)))"

definition cstring_eq :: "nat \<Rightarrow> builtin" where
  "cstring_eq n args =
     arg2 args (\<lambda>s1 s2. arg args 2 (\<lambda>rest.
     ifM (sly_string_eq s1 s2) (eq_rest n s1 rest) (ret SLY_FALSE)))"

definition ceq_p :: builtin where "ceq_p args = truth (arg2 args sly_eq)"
definition ceqv_p :: builtin where "ceqv_p args = truth (arg2 args sly_eqv)"
definition cequal_p :: "nat \<Rightarrow> builtin" where "cequal_p n args = truth (arg2 args (sly_equal n))"

section \<open>Strings and symbols\<close>

fun fill_string :: "sly_value \<Rightarrow> sly_value \<Rightarrow> nat \<Rightarrow> nat \<Rightarrow> unit sly" where
  "fill_string str ch i 0 = ret ()"
| "fill_string str ch i (Suc k) = bnd (sly_string_set str i ch) (\<lambda>_. fill_string str ch (Suc i) k)"

definition cmake_string :: builtin where
  "cmake_string args =
     arg args 0 (\<lambda>k. bnd (get_size k) (\<lambda>len.
     bnd (make_uninitialized_string len) (\<lambda>str.
     arg args 1 (\<lambda>ch.
     bnd (if null_p ch then ret () else bnd (sly_car ch) (\<lambda>c. fill_string str c 0 len)) (\<lambda>_. ret str)))))"

definition cstring_length :: builtin where
  "cstring_length args = arg args 0 (\<lambda>s. bnd (string_len s) make_size)"

definition cstring_ref :: "builtin_env \<Rightarrow> builtin" where
  "cstring_ref env args = arg2 args (\<lambda>str idx. bnd (get_size idx) (sly_string_ref (b_junk env) str))"

definition cstring_set :: builtin where
  "cstring_set args =
     arg2 args (\<lambda>str idx. arg args 2 (\<lambda>v. bnd (get_size idx) (\<lambda>i. bnd (sly_string_set str i v) (\<lambda>_. ret v))))"

definition cstring_join :: "nat \<Rightarrow> builtin_env \<Rightarrow> builtin" where
  "cstring_join n env args =
     arg2 args (\<lambda>ls delim.
     bnd (if null_p delim then sly_make_string [32] else sly_car delim) (string_join n (b_junk env) ls))"

definition cstring_to_symbol :: "nat \<Rightarrow> builtin" where
  "cstring_to_symbol n args =
     arg args 0 (\<lambda>v. ifM (string_p v) (bnd (as_bytes v) (make_symbol n))
       (sly_raise_exception EXC_TYPE ''Type Error expected string''))"

text \<open>The bytes of a string are not ended: a number at their end goes on in the memory after them.\<close>

definition cstring_to_number :: "builtin_env \<Rightarrow> builtin" where
  "cstring_to_number env args =
     arg args 0 (\<lambda>str.
     bnd (expect (string_p str) ''Type Error expected string'') (\<lambda>_. bnd (as_bytes str) (\<lambda>bs.
     let tx = until_zero (bs @ b_past env) in
     if 46 \<in> set bs then sly_make_float (b_strtod env tx) else sly_make_int (strtol 0 tx))))"

definition csymbol_to_string :: "nat \<Rightarrow> builtin_env \<Rightarrow> builtin" where
  "csymbol_to_string n env args =
     arg args 0 (\<lambda>v. ifM (symbol_p v) (bnd (as_symbol v) (\<lambda>(_, name, _). sly_make_string name))
       (bnd (sly_displayln n (b_g_text env) v) (\<lambda>_.
        sly_raise_exception EXC_TYPE ''Type Error expected symbol'')))"

definition cgensym :: builtin where
  "cgensym args =
     arg args 0 (\<lambda>vargs. if null_p vargs then gensym_from_cstr (cstr ''g'') else bnd (sly_car vargs) gensym)"

section \<open>Pairs and output\<close>

definition ccons :: builtin where "ccons args = arg2 args sly_cons"
definition ccar :: builtin where "ccar args = arg args 0 sly_car"
definition ccdr :: builtin where "ccdr args = arg args 0 sly_cdr"

definition cset_car :: builtin where
  "cset_car args = arg args 1 (\<lambda>v. arg args 0 (\<lambda>p. bnd (sly_set_car p v) (\<lambda>_. ret v)))"

definition cset_cdr :: builtin where
  "cset_cdr args = arg args 1 (\<lambda>v. arg args 0 (\<lambda>p. bnd (sly_set_cdr p v) (\<lambda>_. ret v)))"

definition cdisplay :: "nat \<Rightarrow> builtin_env \<Rightarrow> builtin" where
  "cdisplay n env args = arg args 0 (\<lambda>v. bnd (sly_display n (b_g_text env) v False) (\<lambda>_. ret SLY_VOID))"

definition cvoid :: builtin where "cvoid args = ret SLY_VOID"
definition clist :: builtin where "clist args = vector_ref args 0"

definition cclear_screen :: builtin where
  "cclear_screen args = bnd (put ([27] @ cstr ''[2J'' @ [27] @ cstr ''[H'')) (\<lambda>_. ret SLY_VOID)"

section \<open>Syntax\<close>

definition csyntax_to_datum :: "nat \<Rightarrow> builtin" where "csyntax_to_datum n args = arg args 0 (strip_syntax n)"
definition csyntax_to_list :: "nat \<Rightarrow> builtin" where "csyntax_to_list n args = arg args 0 (syntax_to_list n)"

definition cdatum_to_syntax :: "nat \<Rightarrow> builtin" where
  "cdatum_to_syntax n args =
     arg2 args (\<lambda>idn stx0. bnd (datum_to_syntax n idn stx0) (\<lambda>stx.
     bnd (as_syntax stx) (\<lambda>(t, sc, d, ctx). bnd (as_syntax idn) (\<lambda>(_, _, _, ictx).
     bnd (sly_obj_set stx (SSyntax t sc d (ctx AND (ictx AND 1)))) (\<lambda>_. ret stx)))))"

text \<open>The context of the copy is the one the new object had, whose memory is cleared.\<close>

definition craw_syntax :: builtin where
  "craw_syntax args =
     arg args 0 (\<lambda>stx. bnd (expect (syntax_p stx) ''Type Error expected syntax'') (\<lambda>_.
     bnd (as_syntax stx) (\<lambda>(t, _, _, _). gc_malloc (SSyntax t SLY_VOID SLY_VOID 0))))"

definition csyntax :: builtin where
  "csyntax args = arg2 args (\<lambda>datum scope_set. exp_csyntax datum no_token scope_set)"

definition csyntax_scopes :: builtin where
  "csyntax_scopes args =
     arg args 0 (\<lambda>stx. bnd (expect (syntax_p stx) ''Type Error expected syntax'') (\<lambda>_.
     bnd (as_syntax stx) (\<lambda>(_, sc, _, _). ret sc)))"

definition csyntax_source_info :: builtin where
  "csyntax_source_info args =
     arg args 0 (\<lambda>stx. bnd (expect (syntax_p stx) ''Type Error expected syntax'') (\<lambda>_.
     bnd (as_syntax stx) (\<lambda>(t, _, _, _).
     sly_make_string (dec_text (tok_ln t) @ [58] @ dec_text (tok_cn t)))))"

definition cmatch_syntax :: "nat \<Rightarrow> builtin" where
  "cmatch_syntax n args =
     arg args 0 (\<lambda>p. bnd (syntax_to_list n p) (\<lambda>pattern.
     arg args 1 (\<lambda>literals. arg args 2 (\<lambda>f. bnd (syntax_to_list n f) (\<lambda>form.
     arg args 3 (\<lambda>pvars. truth (match_syntax n pattern literals form pvars False)))))))"

definition cget_pattern_var_names :: "nat \<Rightarrow> builtin" where
  "cget_pattern_var_names n args =
     arg args 0 (\<lambda>p. bnd (syntax_to_list n p) (\<lambda>pattern.
     arg args 1 (get_pattern_var_names n pattern)))"

definition cconstruct_syntax :: "nat \<Rightarrow> builtin" where
  "cconstruct_syntax n args =
     arg2 args (\<lambda>template pvars. arg args 2 (\<lambda>names.
     bnd (syntax_to_list n template) (\<lambda>tl0.
     bnd (construct_syntax n tl0 pvars names 0) (datum_to_syntax n template))))"

section \<open>Vectors and dictionaries\<close>

fun set_from_list :: "(nat \<Rightarrow> sly_value \<Rightarrow> unit sly) \<Rightarrow> nat \<Rightarrow> nat \<Rightarrow> sly_value \<Rightarrow> unit sly" where
  "set_from_list setter i 0 lst = ret ()"
| "set_from_list setter i (Suc k) lst =
     bnd (sly_car lst) (\<lambda>x. bnd (setter i x) (\<lambda>_. bnd (sly_cdr lst) (set_from_list setter (Suc i) k)))"

definition cvector :: "nat \<Rightarrow> builtin" where
  "cvector n args =
     arg args 0 (\<lambda>lst. bnd (list_len n lst) (\<lambda>len.
     bnd (sly_make_vector len len) (\<lambda>vec.
     bnd (set_from_list (vector_set vec) 0 len lst) (\<lambda>_. ret vec))))"

fun fill_vector :: "sly_value \<Rightarrow> sly_value \<Rightarrow> nat \<Rightarrow> nat \<Rightarrow> unit sly" where
  "fill_vector vec v i 0 = ret ()"
| "fill_vector vec v i (Suc k) = bnd (vector_set vec i v) (\<lambda>_. fill_vector vec v (Suc i) k)"

definition cmake_vector :: builtin where
  "cmake_vector args =
     arg args 0 (\<lambda>k. bnd (get_size k) (\<lambda>len.
     arg args 1 (\<lambda>rest.
     bnd (sly_make_int 0) (\<lambda>z.
     bnd (if null_p rest then ret z else sly_car rest) (\<lambda>v.
     bnd (sly_make_vector len len) (\<lambda>vec.
     bnd (fill_vector vec v 0 len) (\<lambda>_. ret vec)))))))"

definition clist_to_vector :: "nat \<Rightarrow> builtin" where "clist_to_vector n args = arg args 0 (list_to_vector n)"

definition cvector_ref :: builtin where
  "cvector_ref args = arg2 args (\<lambda>vec idx. bnd (get_size idx) (vector_ref vec))"

definition cvector_set :: builtin where
  "cvector_set args =
     arg2 args (\<lambda>vec idx. arg args 2 (\<lambda>v. bnd (get_size idx) (\<lambda>i. bnd (vector_set vec i v) (\<lambda>_. ret v))))"

definition cvector_length :: builtin where "cvector_length args = arg args 0 (\<lambda>vec. bnd (vector_len vec) make_size)"
definition cvector_to_list :: builtin where "cvector_to_list args = arg args 0 vector_to_list"

definition cmake_byte_vector :: "nat \<Rightarrow> builtin" where
  "cmake_byte_vector n args =
     arg args 0 (\<lambda>lst. bnd (list_len n lst) (\<lambda>len.
     bnd (make_byte_vector len len) (\<lambda>vec.
     bnd (set_from_list (byte_vector_set vec) 0 len lst) (\<lambda>_. ret vec))))"

definition cbyte_vector_ref :: "builtin_env \<Rightarrow> builtin" where
  "cbyte_vector_ref env args = arg2 args (\<lambda>vec idx. bnd (get_size idx) (byte_vector_ref (b_junk env) vec))"

definition cbyte_vector_set :: builtin where
  "cbyte_vector_set args =
     arg2 args (\<lambda>vec idx. arg args 2 (\<lambda>v. bnd (get_size idx) (\<lambda>i. bnd (byte_vector_set vec i v) (\<lambda>_. ret v))))"

definition cbyte_vector_length :: builtin where
  "cbyte_vector_length args = arg args 0 (\<lambda>vec. bnd (byte_vector_len vec) make_size)"

fun set_entries :: "nat \<Rightarrow> sly_value \<Rightarrow> nat \<Rightarrow> sly_value \<Rightarrow> unit sly" where
  "set_entries n dict 0 lst = fail NoFuel"
| "set_entries n dict (Suc k) lst =
     (if null_p lst then ret ()
      else bnd (sly_car lst) (\<lambda>entry. bnd (sly_car entry) (\<lambda>key. bnd (sly_cdr entry) (\<lambda>v.
        bnd (dictionary_set n dict key v) (\<lambda>_. bnd (sly_cdr lst) (set_entries n dict k))))))"

definition cmake_dictionary :: "nat \<Rightarrow> builtin" where
  "cmake_dictionary n args =
     arg args 0 (\<lambda>lst. bnd make_dictionary (\<lambda>dict. bnd (set_entries n dict n lst) (\<lambda>_. ret dict)))"

definition cdictionary_to_alist :: builtin where "cdictionary_to_alist args = arg args 0 dictionary_to_alist"

definition cdictionary_ref :: "nat \<Rightarrow> builtin" where
  "cdictionary_ref n args =
     arg2 args (\<lambda>dict key. arg args 2 (\<lambda>vargs.
     bnd (if null_p vargs then ret SLY_NULL else sly_car vargs) (\<lambda>dv.
     bnd (dictionary_entry_ref n dict key) (\<lambda>entry.
     ifM (slot_is_free entry) (ret dv) (sly_cdr entry)))))"

definition cdictionary_set :: "nat \<Rightarrow> builtin" where
  "cdictionary_set n args = arg2 args (\<lambda>dict key. arg args 2 (\<lambda>v. bnd (dictionary_set n dict key v) (\<lambda>_. ret v)))"

definition cdictionary_length :: builtin where
  "cdictionary_length args =
     arg args 0 (\<lambda>dict. bnd (expect (dictionary_p dict) ''Type Error expected dictionary'') (\<lambda>_.
     bnd (as_dict dict) (\<lambda>(len, _). make_size len)))"

definition cdictionary_has_key :: "nat \<Rightarrow> builtin" where
  "cdictionary_has_key n args =
     arg2 args (\<lambda>dict key. ifM (bnd (dictionary_entry_ref n dict key) slot_is_free) (ret SLY_FALSE) (ret SLY_TRUE))"

section \<open>Exceptions, reading and evaluation\<close>

text \<open>The message is what the string holds, up to a zero byte.\<close>

definition craise_macro_exception :: builtin where
  "craise_macro_exception args =
     arg args 0 (\<lambda>str. bnd (as_bytes str) (\<lambda>bs. sly_raise_exception EXC_MACRO (map (\<lambda>b. char_of (unat b)) (until_zero bs))))"

fun display_all :: "nat \<Rightarrow> builtin_env \<Rightarrow> sly_value \<Rightarrow> unit sly" where
  "display_all 0 env lst = fail NoFuel"
| "display_all (Suc n) env lst =
     (if null_p lst then ret ()
      else bnd (sly_car lst) (\<lambda>x. bnd (sly_display n (b_g_text env) x False) (\<lambda>_. bnd (puts '' '') (\<lambda>_.
        bnd (sly_cdr lst) (display_all n env)))))"

definition cerror :: "nat \<Rightarrow> builtin_env \<Rightarrow> builtin" where
  "cerror n env args =
     arg args 0 (\<lambda>lst. bnd (display_all n env lst) (\<lambda>_. bnd (put [10]) (\<lambda>_.
     sly_raise_exception EXC_GENERIC ''Error signalled'')))"

text \<open>The code is compiled into the prototype of the current scope; \<open>prims\<close> are the builtins it may call.\<close>

definition ceval :: "nat \<Rightarrow> cfuncs \<Rightarrow> builtin" where
  "ceval n prims args =
     arg args 0 (\<lambda>ast.
     bnd cproto (\<lambda>pr. bnd (sly_make_vector 0 16) (\<lambda>code.
     bnd (proto_update pr (\<lambda>p. p\<lparr>p_code := code\<rparr>)) (\<lambda>_.
     bnd (sly_compile n ast) (\<lambda>clos. eval_closure n n prims clos SLY_NULL)))))"

definition cread :: "nat \<Rightarrow> builtin_env \<Rightarrow> builtin" where
  "cread n env args =
     arg args 0 (\<lambda>s. bnd (sly_string_to_cstr s) (\<lambda>bs. parse n (b_junk env) (until_zero bs)))"

definition cread_file :: "nat \<Rightarrow> builtin_env \<Rightarrow> builtin" where
  "cread_file n env args =
     arg args 0 (\<lambda>s. bnd (sly_string_to_cstr s) (\<lambda>bs. let path = until_zero bs in
     bnd (parse_file n (b_junk env) path) (\<lambda>ast. bnd (put (path @ [10])) (\<lambda>_. ret ast))))"

definition cbuiltins :: builtin where "cbuiltins args = gets cc_builtins"

definition global_named :: "nat \<Rightarrow> string \<Rightarrow> sly_value sly" where
  "global_named n name =
     bnd (gets cc_globals) (\<lambda>g. bnd (make_symbol n (cstr name)) (\<lambda>key. dictionary_ref n g key SLY_VOID))"

definition cvargs :: "nat \<Rightarrow> builtin" where "cvargs n args = global_named n ''__VARGS__''"

definition cdis_dis :: "nat \<Rightarrow> builtin_env \<Rightarrow> builtin" where
  "cdis_dis n env args =
     arg2 args (\<lambda>v v2.
     bnd (if null_p v2 then ret False else bnd (sly_car v2) (\<lambda>b. ret (booltoc b))) (\<lambda>b.
     bnd (ifM (continuation_p v)
         (bnd (as_cont v) (\<lambda>(fr, _). bnd (as_frame fr) (\<lambda>f. get_prototype (f_clos f))))
         (get_prototype v)) (\<lambda>pr.
     bnd (if b then dis_prototype_rec n (dis_env env) pr True else dis_prototype n (dis_env env) pr True) (\<lambda>_.
     ret SLY_VOID))))"

text \<open>A file that is there can be read.\<close>

definition cfile_readable :: builtin where
  "cfile_readable args =
     arg2 args (\<lambda>s die. bnd (expect (string_p s) ''Type Error expected <string>'') (\<lambda>_.
     bnd (sly_string_to_cstr s) (\<lambda>bs. bnd (gets disk) (\<lambda>d.
     if d (until_zero bs) \<noteq> None then ret SLY_TRUE
     else if booltoc die then fail (Assert ''File Access Error'') else ret SLY_FALSE))))"

section \<open>Ports\<close>

definition cinput_port_p :: "nat \<Rightarrow> builtin" where "cinput_port_p n args = arg args 0 (\<lambda>v. truth (input_port_p n v))"
definition coutput_port_p :: "nat \<Rightarrow> builtin" where "coutput_port_p n args = arg args 0 (\<lambda>v. truth (output_port_p n v))"
definition ceof_object_p :: "nat \<Rightarrow> builtin" where "ceof_object_p n args = arg args 0 (\<lambda>v. truth (eof_object_p n v))"
definition cstring_port_p :: "nat \<Rightarrow> builtin" where "cstring_port_p n args = arg args 0 (\<lambda>v. truth (string_port_p n v))"
definition cport_p :: "nat \<Rightarrow> builtin" where "cport_p n args = arg args 0 (\<lambda>v. truth (port_p n v))"
definition cport_closed_p :: "nat \<Rightarrow> builtin" where "cport_closed_p n args = arg args 0 (\<lambda>v. truth (port_closed_p n v))"

definition cfile_stream_port_p :: "nat \<Rightarrow> builtin" where
  "cfile_stream_port_p n args = arg args 0 (\<lambda>v. truth (file_stream_port_p n v))"

definition copen_input_file :: "nat \<Rightarrow> builtin" where "copen_input_file n args = arg args 0 (open_input_file n)"

definition copen_output_file :: "nat \<Rightarrow> builtin" where
  "copen_output_file n args = arg args 0 (\<lambda>p. open_output_file n p False)"

definition cclose_input_port :: "nat \<Rightarrow> builtin" where
  "cclose_input_port n args = arg args 0 (\<lambda>p. bnd (close_input_port n p) (\<lambda>_. ret SLY_VOID))"

definition cclose_output_port :: "nat \<Rightarrow> builtin" where
  "cclose_output_port n args = arg args 0 (\<lambda>p. bnd (close_output_port n p) (\<lambda>_. ret SLY_VOID))"

definition copen_output_string :: "nat \<Rightarrow> builtin" where
  "copen_output_string n args = bnd (open_output_string n) (\<lambda>_. ret SLY_VOID)"

definition cget_output_string :: "nat \<Rightarrow> builtin" where
  "cget_output_string n args = arg args 0 (get_output_string n)"

definition cflush_output :: "nat \<Rightarrow> builtin" where
  "cflush_output n args = arg args 0 (\<lambda>p. bnd (flush_output n p) (\<lambda>_. ret SLY_VOID))"

text \<open>The second argument is the list of the rest, not an element of it.\<close>

definition cfile_position :: "nat \<Rightarrow> builtin" where
  "cfile_position n args =
     arg2 args (\<lambda>port v.
     bnd (if null_p v then ret (- 1) else ifM (int_p v) (get_int v) (ret (- 1))) (\<lambda>pos.
     bnd (file_position n port pos) sly_make_int))"

definition ccurrent_input_port :: "nat \<Rightarrow> builtin" where "ccurrent_input_port n args = global_named n ''*STDIN*''"
definition ccurrent_output_port :: "nat \<Rightarrow> builtin" where "ccurrent_output_port n args = global_named n ''*STDOUT*''"
definition ccurrent_error_port :: "nat \<Rightarrow> builtin" where "ccurrent_error_port n args = global_named n ''*STDERR*''"

definition port_or :: "builtin \<Rightarrow> sly_value \<Rightarrow> sly_value sly" where
  "port_or dflt lst = (if null_p lst then dflt SLY_NULL else sly_car lst)"

definition cwrite_char :: "nat \<Rightarrow> builtin" where
  "cwrite_char n args =
     arg2 args (\<lambda>ch lst. bnd (port_or (ccurrent_output_port n) lst) (\<lambda>port.
     bnd (write_char n ch port) (\<lambda>_. ret SLY_VOID)))"

definition cwrite_string :: "nat \<Rightarrow> builtin" where
  "cwrite_string n args =
     arg2 args (\<lambda>str lst.
     bnd (ccurrent_output_port n SLY_NULL) (\<lambda>out.
     bnd (string_len str) (\<lambda>len0. let len = sint (of_nat len0 :: 64 word) in
     bnd (if null_p lst then ret (out, 0, len)
       else bnd (sly_car lst) (\<lambda>port. bnd (sly_cdr lst) (\<lambda>l1.
         if null_p l1 then ret (port, 0, len)
         else bnd (bnd (sly_car l1) get_int) (\<lambda>start. bnd (sly_cdr l1) (\<lambda>l2.
           if null_p l2 then ret (port, start, len)
           else bnd (bnd (sly_car l2) get_int) (\<lambda>ending. ret (port, start, ending)))))))
       (\<lambda>(port, start, ending).
     bnd (write_string n str port start ending) sly_make_int))))"

definition cread_char :: "nat \<Rightarrow> builtin_env \<Rightarrow> builtin" where
  "cread_char n env args = arg args 0 (\<lambda>lst. bnd (port_or (ccurrent_input_port n) lst) (read_char n (b_junk env)))"

definition cread_line :: "nat \<Rightarrow> builtin" where
  "cread_line n args = arg args 0 (\<lambda>lst. bnd (port_or (ccurrent_input_port n) lst) (read_line n))"

definition cport_to_string :: "nat \<Rightarrow> builtin" where
  "cport_to_string n args = arg args 0 (\<lambda>lst. bnd (port_or (ccurrent_input_port n) lst) (port_to_string n))"

definition cport_to_lines :: "nat \<Rightarrow> builtin" where
  "cport_to_lines n args = arg args 0 (\<lambda>lst. bnd (port_or (ccurrent_input_port n) lst) (port_to_lines n))"

section \<open>The table\<close>

text \<open>The names, functions, numbers of arguments and whether there may be more, in the order they are added.\<close>

definition builtin_table :: "nat \<Rightarrow> builtin_env \<Rightarrow> cfuncs \<Rightarrow> (string \<times> builtin \<times> nat \<times> bool) list" where
  "builtin_table n env prims =
     [(''+'', cadd n, 0, True),
      (''-'', csub n, 0, True),
      (''*'', cmul n, 0, True),
      (''/'', cdiv n, 0, True),
      (''div'', cfloor_div, 2, False),
      (''bitwise-and'', cbitwise_and, 2, False),
      (''bitwise-ior'', cbitwise_ior, 2, False),
      (''bitwise-xor'', cbitwise_xor, 2, False),
      (''bitwise-eqv'', cbitwise_eqv, 2, False),
      (''bitwise-nor'', cbitwise_nor, 2, False),
      (''bitwise-nand'', cbitwise_nand, 2, False),
      (''bitwise-not'', cbitwise_not, 1, False),
      (''arithmetic-shift'', carithmetic_shift, 2, False),
      (''%'', cmod n, 2, True),
      (''='', cnum_eq, 2, False),
      (''<'', cnum_lt, 2, False),
      (''>'', cnum_gt, 2, False),
      (''<='', cnum_leq, 2, False),
      (''>='', cnum_geq, 2, False),
      (''/='', cnum_noteq, 2, False),
      (''not'', cnot, 1, False),
      (''integer->char'', cint_to_char env, 1, False),
      (''char->integer'', cchar_to_int, 1, False),
      (''null?'', cnull_p, 1, False),
      (''pair?'', cpair_p, 1, False),
      (''list->vector'', clist_to_vector n, 1, False),
      (''boolean?'', cboolean_p, 1, False),
      (''number?'', cnumber_p, 1, False),
      (''integer?'', cinteger_p, 1, False),
      (''real?'', creal_p, 1, False),
      (''char?'', cchar_p, 1, False),
      (''symbol?'', csymbol_p, 1, False),
      (''vector?'', cvector_p, 1, False),
      (''byte-vector?'', cbyte_vector_p, 1, False),
      (''string?'', cstring_p, 1, False),
      (''string=?'', cstring_eq n, 2, True),
      (''dictionary?'', cdictionary_p, 1, False),
      (''procedure?'', cprocedure_p, 1, False),
      (''syntax?'', csyntax_p, 1, False),
      (''syntax-pair?'', csyntax_pair_p, 1, False),
      (''identifier?'', cidentifier_p, 1, False),
      (''identifier=?'', cidentifier_eq, 2, False),
      (''eq?'', ceq_p, 2, False),
      (''eqv?'', ceqv_p, 2, False),
      (''equal?'', cequal_p n, 2, False),
      (''cons'', ccons, 2, False),
      (''car'', ccar, 1, False),
      (''cdr'', ccdr, 1, False),
      (''set-car!'', cset_car, 2, False),
      (''set-cdr!'', cset_cdr, 2, False),
      (''display'', cdisplay n env, 1, False),
      (''gensym'', cgensym, 0, True),
      (''void'', cvoid, 0, False),
      (''make-string'', cmake_string, 1, True),
      (''string-length'', cstring_length, 1, False),
      (''string-ref'', cstring_ref env, 2, False),
      (''string-set!'', cstring_set, 3, False),
      (''string-join'', cstring_join n env, 1, True),
      (''string->symbol'', cstring_to_symbol n, 1, False),
      (''string->number'', cstring_to_number env, 1, False),
      (''symbol->string'', csymbol_to_string n env, 1, False),
      (''syntax->datum'', csyntax_to_datum n, 1, False),
      (''syntax->list'', csyntax_to_list n, 1, False),
      (''datum->syntax'', cdatum_to_syntax n, 2, False),
      (''raw-syntax'', craw_syntax, 1, False),
      (''syntax'', csyntax, 2, False),
      (''syntax-scopes'', csyntax_scopes, 1, False),
      (''make-vector'', cmake_vector, 1, True),
      (''vector'', cvector n, 0, True),
      (''vector-ref'', cvector_ref, 2, False),
      (''vector-set!'', cvector_set, 3, False),
      (''vector-length'', cvector_length, 1, False),
      (''vector->list'', cvector_to_list, 1, False),
      (''make-byte-vector'', cmake_byte_vector n, 0, True),
      (''byte-vector-ref'', cbyte_vector_ref env, 2, False),
      (''byte-vector-set!'', cbyte_vector_set, 3, False),
      (''byte-vector-length'', cbyte_vector_length, 1, False),
      (''vector-length'', cvector_length, 1, False),
      (''make-dictionary'', cmake_dictionary n, 0, True),
      (''dictionary->alist'', cdictionary_to_alist, 1, False),
      (''dictionary-ref'', cdictionary_ref n, 2, True),
      (''dictionary-set!'', cdictionary_set n, 3, False),
      (''dictionary-length'', cdictionary_length, 1, False),
      (''dictionary-has-key?'', cdictionary_has_key n, 2, False),
      (''list'', clist, 0, True),
      (''console-clear-screen'', cclear_screen, 0, False),
      (''raise-macro-exception'', craise_macro_exception, 1, False),
      (''error'', cerror n env, 0, True),
      (''eval'', ceval n prims, 1, False),
      (''read'', cread n env, 1, False),
      (''read-file'', cread_file n env, 1, False),
      (''builtins'', cbuiltins, 0, False),
      (''get-vargs'', cvargs n, 0, False),
      (''syntax-source-info'', csyntax_source_info, 1, False),
      (''match-syntax'', cmatch_syntax n, 4, False),
      (''get-pattern-var-names'', cget_pattern_var_names n, 2, False),
      (''construct-syntax'', cconstruct_syntax n, 3, False),
      (''disassemble'', cdis_dis n env, 1, True),
      (''input-port?'', cinput_port_p n, 1, False),
      (''output-input-port?'', coutput_port_p n, 1, False),
      (''port?'', cport_p n, 1, False),
      (''file-stream-port?'', cfile_stream_port_p n, 1, False),
      (''port-closed?'', cport_closed_p n, 1, False),
      (''open-input-file'', copen_input_file n, 1, False),
      (''open-output-file'', copen_output_file n, 1, False),
      (''close-input-port'', cclose_input_port n, 1, False),
      (''close-output-port'', cclose_output_port n, 1, False),
      (''write-char'', cwrite_char n, 1, True),
      (''write-string'', cwrite_string n, 1, True),
      (''read-char'', cread_char n env, 0, True),
      (''read-line'', cread_line n, 0, True),
      (''port->string'', cport_to_string n, 0, True),
      (''port->lines'', cport_to_lines n, 0, True),
      (''current-input-port'', ccurrent_input_port n, 0, False),
      (''current-output-port'', ccurrent_output_port n, 0, False),
      (''current-error-port'', ccurrent_error_port n, 0, False),
      (''file-position'', cfile_position n, 1, True),
      (''flush-output'', cflush_output n, 1, False),
      (''get-output-string'', cget_output_string n, 1, False),
      (''open-output-string'', copen_output_string n, 0, False),
      (''string-port?'', cstring_port_p n, 1, False),
      (''eof-object?'', ceof_object_p n, 1, False),
      (''file-readable?'', cfile_readable, 2, False)]"

text \<open>Builtins call builtins through \<open>eval\<close>, with less fuel.\<close>

fun builtin_prims :: "nat \<Rightarrow> builtin_env \<Rightarrow> cfuncs" where
  "builtin_prims 0 env i args = fail NoFuel"
| "builtin_prims (Suc n) env i args =
     (let table = builtin_table n env (builtin_prims n env) in
      if i < length table then fst (snd (table ! i)) args else fail (UB ''no such C function''))"

definition add_variable :: "nat \<Rightarrow> sly_value \<Rightarrow> string \<Rightarrow> sly_value sly \<Rightarrow> unit sly" where
  "add_variable n symtable name m =
     bnd (make_symbol n (cstr name)) (\<lambda>sm.
     bnd (dictionary_set n symtable sm (sp_set_type sym_global 0)) (\<lambda>_.
     bnd m (\<lambda>v.
     bnd (sly_cons sm v) (\<lambda>entry.
     bnd (gets cc_globals) (\<lambda>g. bnd (dictionary_set n g sm v) (\<lambda>_.
     bnd (gets cc_builtins) (\<lambda>bs. bnd (sly_cons entry bs) (\<lambda>bs'.
     modify (\<lambda>s. s\<lparr>cc_builtins := bs'\<rparr>)))))))))"

fun add_builtins :: "nat \<Rightarrow> sly_value \<Rightarrow> nat \<Rightarrow> (string \<times> nat \<times> bool) list \<Rightarrow> unit sly" where
  "add_builtins n symtable i [] = ret ()"
| "add_builtins n symtable i ((name, nargs, va) # rows) =
     bnd (add_variable n symtable name (make_cclosure i nargs va)) (\<lambda>_. add_builtins n symtable (Suc i) rows)"

definition std_port :: "sly_value sly \<Rightarrow> sly_value \<Rightarrow> sly_value sly" where
  "std_port m f = bnd m (\<lambda>port. bnd (port_set_stream port f) (\<lambda>_. ret port))"

definition init_builtins :: "nat \<Rightarrow> builtin_env \<Rightarrow> unit sly" where
  "init_builtins n env =
     bnd cscope (\<lambda>sc. let symtable = sc_symtable sc in
     bnd make_dictionary (\<lambda>g. bnd (modify (\<lambda>s. s\<lparr>cc_globals := g, cc_builtins := SLY_NULL\<rparr>)) (\<lambda>_.
     bnd (add_builtins n symtable 0 (map (\<lambda>(name, _, nargs, va). (name, nargs, va))
       (builtin_table n env (builtin_prims n env)))) (\<lambda>_.
     bnd (add_variable n symtable ''*REQUIRED*'' make_dictionary) (\<lambda>_.
     bnd (std_port (make_input_port n) 1) (\<lambda>inp. bnd (add_variable n symtable ''*STDIN*'' (ret inp)) (\<lambda>_.
     bnd (std_port (make_output_port n) 2) (\<lambda>out. bnd (add_variable n symtable ''*STDOUT*'' (ret out)) (\<lambda>_.
     bnd (std_port (make_output_port n) 3) (\<lambda>err. bnd (add_variable n symtable ''*STDERR*'' (ret err)) (\<lambda>_.
     add_variable n symtable ''eof'' (gensym_from_cstr (cstr ''eof'')))))))))))))"

section \<open>Running a program\<close>

definition sly_init_state :: "nat \<Rightarrow> builtin_env \<Rightarrow> unit sly" where
  "sly_init_state n env =
     bnd make_dictionary (\<lambda>g. bnd (modify (\<lambda>s. s\<lparr>cc_globals := g\<rparr>)) (\<lambda>_.
     bnd make_scope (\<lambda>sc. bnd make_dictionary (\<lambda>t.
     bnd (modify (\<lambda>s. s\<lparr>cc_scopes := [sc\<lparr>sc_symtable := t, sc_level := 0\<rparr>]\<rparr>)) (\<lambda>_.
     bnd (init_symtable n t) (\<lambda>_.
     init_builtins n env))))))"

text \<open>\<open>Sly_State ss = {0}\<close>, the tables of the compiler and the expander, and the expanded program of a file.\<close>

definition sly_expand_only :: "nat \<Rightarrow> builtin_env \<Rightarrow> 8 word list \<Rightarrow> sly_value sly" where
  "sly_expand_only n env path =
     bnd (modify (\<lambda>s. s\<lparr>open_upvals := 0, cur_frame := 0, handle_except := False, entry_point := 0\<rparr>)) (\<lambda>_.
     bnd make_dictionary (\<lambda>d. bnd (modify (\<lambda>s. s\<lparr>sly_interned := d\<rparr>)) (\<lambda>_.
     bnd (sly_init_state n env) (\<lambda>_.
     bnd make_dictionary (\<lambda>e. bnd (sly_expand_init n e) (\<lambda>_.
     bnd (modify (\<lambda>s. s\<lparr>file_path := path\<rparr>)) (\<lambda>_.
     bnd reset_proto (\<lambda>_.
     bnd (parse_file n (b_junk env) path) (\<lambda>ast.
     sly_expand n (b_junk env) (builtin_prims n env) e ast)))))))))"

definition sly_do_file :: "nat \<Rightarrow> builtin_env \<Rightarrow> 8 word list \<Rightarrow> bool \<Rightarrow> unit sly" where
  "sly_do_file n env path debug_info =
     bnd (sly_expand_only n env path) (\<lambda>ast.
     bnd (sly_compile n ast) (\<lambda>clos.
     bnd (modify (\<lambda>s. s\<lparr>entry_point := clos\<rparr>)) (\<lambda>_.
     bnd (eval_closure n n (builtin_prims n env) clos SLY_NULL) (\<lambda>_.
     if debug_info then bnd frame (\<lambda>f. dis_all n (dis_env env) f True) else ret ()))))"

end
