(* ===== verification/Sly_CPS.thy ===== *)
theory Sly_CPS
  imports Sly_Builtins
begin

text \<open>
  The intermediate language of the C back end (src/cps.c, src/cps.h): its objects, the primitives that are
  known at compile time, and the translation of expanded syntax.  A program is a graph, a dictionary of
  continuations by label.  Forms may be circular, so the recursion is fuelled; each form is a definition of
  its own that takes the translation as an argument.
\<close>

section \<open>Primitives\<close>

type_synonym primop = "sly_value \<Rightarrow> sly_value sly"

definition cps_prim_void :: "nat \<Rightarrow> primop" where
  "cps_prim_void n args =
     bnd (list_len n args) (\<lambda>len. bnd (check (len = 0) ''Error void primitive expects zero arguments'') (\<lambda>_. ret SLY_VOID))"

definition cps_prim_add :: "nat \<Rightarrow> primop" where
  "cps_prim_add n args = bnd (sly_make_int 0) (\<lambda>z. fold_vargs n sly_add z args)"

definition cps_prim_mul :: "nat \<Rightarrow> primop" where
  "cps_prim_mul n args = bnd (sly_make_int 1) (\<lambda>z. fold_vargs n sly_mul z args)"

text \<open>
  \<open>op\<close> of the unit and the one operand, or of the first operand and the others joined by \<open>join\<close>.
\<close>

definition prim_inverse :: "nat \<Rightarrow> string \<Rightarrow> int \<Rightarrow> (sly_value \<Rightarrow> sly_value \<Rightarrow> sly_value sly) \<Rightarrow>
    (sly_value \<Rightarrow> sly_value \<Rightarrow> sly_value sly) \<Rightarrow> primop" where
  "prim_inverse n msg unit0 join op args =
     bnd (list_len n args) (\<lambda>nargs.
     bnd (check (1 \<le> nargs) msg) (\<lambda>_.
     if nargs = 1 then bnd (sly_make_int unit0) (\<lambda>z. bnd (sly_car args) (op z))
     else bnd (sly_car args) (\<lambda>fst0. bnd (sly_make_int unit0) (\<lambda>z.
       bnd (sly_cdr args) (\<lambda>rest. bnd (fold_vargs n join z rest) (op fst0))))))"

definition cps_prim_sub :: "nat \<Rightarrow> primop" where
  "cps_prim_sub n = prim_inverse n ''Error subtraction requires at least 1 argument'' 0 sly_add sly_sub"

text \<open>The quotient is computed twice.\<close>

definition cps_prim_div :: "nat \<Rightarrow> primop" where
  "cps_prim_div n args =
     bnd (list_len n args) (\<lambda>nargs.
     bnd (check (1 \<le> nargs) ''Error division requires at least 1 argument'') (\<lambda>_.
     if nargs = 1 then bnd (sly_make_int 1) (\<lambda>z. bnd (sly_car args) (sly_div z))
     else bnd (sly_car args) (\<lambda>fst0. bnd (sly_make_int 1) (\<lambda>z.
       bnd (sly_cdr args) (\<lambda>rest. bnd (fold_vargs n sly_mul z rest) (\<lambda>acc.
       bnd (sly_div fst0 acc) (\<lambda>_. sly_div fst0 acc)))))))"

definition cps_prim_idiv :: "nat \<Rightarrow> primop" where
  "cps_prim_idiv n = prim_inverse n ''Error division requires at least 1 argument'' 1 sly_mul sly_floor_div"

definition cps_prim_mod :: "nat \<Rightarrow> primop" where
  "cps_prim_mod n args =
     bnd (list_len n args) (\<lambda>nargs.
     bnd (check (nargs = 2) ''Error modulo requires 2 arguments'') (\<lambda>_.
     bnd (sly_car args) (\<lambda>x. bnd (cadr args) (sly_mod x))))"

text \<open>A relation between neighbours.\<close>

fun prim_chain :: "nat \<Rightarrow> (sly_value \<Rightarrow> sly_value \<Rightarrow> bool sly) \<Rightarrow> sly_value \<Rightarrow> sly_value \<Rightarrow> sly_value sly" where
  "prim_chain 0 rel x args = fail NoFuel"
| "prim_chain (Suc n) rel x args =
     (if null_p args then ret SLY_TRUE
      else bnd (sly_car args) (\<lambda>y.
        ifM (rel x y) (bnd (sly_cdr args) (prim_chain n rel y)) (ret SLY_FALSE)))"

definition prim_compare :: "nat \<Rightarrow> (sly_value \<Rightarrow> sly_value \<Rightarrow> bool sly) \<Rightarrow> primop" where
  "prim_compare n rel args =
     bnd (list_len n args) (\<lambda>len.
     if len < 2 then ret SLY_TRUE
     else bnd (sly_car args) (\<lambda>x. bnd (sly_cdr args) (prim_chain n rel x)))"

definition or_num_eq :: "(sly_value \<Rightarrow> sly_value \<Rightarrow> bool sly) \<Rightarrow> sly_value \<Rightarrow> sly_value \<Rightarrow> bool sly" where
  "or_num_eq rel x y = ifM (rel x y) (ret True) (sly_num_eq x y)"

definition cps_prim_num_eq :: "nat \<Rightarrow> primop" where "cps_prim_num_eq n = prim_compare n sly_num_eq"
definition cps_prim_less :: "nat \<Rightarrow> primop" where "cps_prim_less n = prim_compare n sly_num_lt"
definition cps_prim_gr :: "nat \<Rightarrow> primop" where "cps_prim_gr n = prim_compare n sly_num_gt"
definition cps_prim_leq :: "nat \<Rightarrow> primop" where "cps_prim_leq n = prim_compare n (or_num_eq sly_num_lt)"
definition cps_prim_geq :: "nat \<Rightarrow> primop" where "cps_prim_geq n = prim_compare n (or_num_eq sly_num_gt)"

definition cps_prim_cons :: "nat \<Rightarrow> primop" where
  "cps_prim_cons n args =
     bnd (list_len n args) (\<lambda>len. bnd (check (len = 2) ''Error cons requires 2 arguments'') (\<lambda>_.
     bnd (sly_car args) (\<lambda>x. bnd (cadr args) (sly_cons x))))"

definition cps_prim_car :: "nat \<Rightarrow> primop" where
  "cps_prim_car n args =
     bnd (list_len n args) (\<lambda>len. bnd (check (len = 1) ''Error car requires 2 arguments'') (\<lambda>_. bnd (sly_car args) sly_car))"

definition cps_prim_cdr :: "nat \<Rightarrow> primop" where
  "cps_prim_cdr n args =
     bnd (list_len n args) (\<lambda>len. bnd (check (len = 1) ''Error cdr requires 2 arguments'') (\<lambda>_. bnd (sly_car args) sly_cdr))"

definition cps_prim_list :: primop where "cps_prim_list args = ret args"
definition cps_prim_vector :: "nat \<Rightarrow> primop" where "cps_prim_vector n args = list_to_vector n args"

definition primops :: "nat \<Rightarrow> (string \<times> primop option) list" where
  "primops n =
     [(''void'', Some (cps_prim_void n)), (''+'', Some (cps_prim_add n)), (''-'', Some (cps_prim_sub n)),
      (''*'', Some (cps_prim_mul n)), (''/'', Some (cps_prim_div n)), (''div'', Some (cps_prim_idiv n)),
      (''%'', Some (cps_prim_mod n)), (''bitwise-and'', None), (''bitwise-ior'', None), (''bitwise-xor'', None),
      (''bitwise-eqv'', None), (''bitwise-nor'', None), (''bitwise-nand'', None), (''bitwise-not'', None),
      (''arithmetic-shift'', None), (''eq?'', None), (''eqv?'', None), (''equal?'', None),
      (''='', Some (cps_prim_num_eq n)), (''<'', Some (cps_prim_less n)), (''>'', Some (cps_prim_gr n)),
      (''<='', Some (cps_prim_leq n)), (''>='', Some (cps_prim_geq n)), (''cons'', Some (cps_prim_cons n)),
      (''car'', Some (cps_prim_car n)), (''cdr'', Some (cps_prim_cdr n)), (''list'', Some cps_prim_list),
      (''vector'', Some (cps_prim_vector n)), (''vector-ref'', None), (''vector-set'', None)]"

fun prim_names :: "nat \<Rightarrow> string list \<Rightarrow> sly_value list sly" where
  "prim_names n [] = ret []"
| "prim_names n (name # names) = bnd (make_symbol n (cstr name)) (\<lambda>sm. bnd (prim_names n names) (\<lambda>sms. ret (sm # sms)))"

definition cps_init_primops :: "nat \<Rightarrow> unit sly" where
  "cps_init_primops n = bnd (prim_names n (map fst (primops n))) (\<lambda>sms. modify (\<lambda>s. s\<lparr>primop_names := sms\<rparr>))"

text \<open>The place of a primitive by its name; the source returns -1 for a name that is none.\<close>

definition primop_p :: "nat \<Rightarrow> sly_value \<Rightarrow> nat option sly" where
  "primop_p n name =
     bnd (gets primop_names) (\<lambda>names.
     ifM (identifier_p name) (bnd (strip_syntax n name) (\<lambda>sm. keyword_from 0 sm names))
     (ifM (symbol_p name) (keyword_from 0 name names) (ret None)))"

section \<open>The objects of the language\<close>

definition as_kont :: "sly_value \<Rightarrow> (sly_value \<times> cps_kont_u) sly" where
  "as_kont v = bnd (sly_obj_at v) (\<lambda>ob. case ob of SKont name u \<Rightarrow> ret (name, u) | _ \<Rightarrow> fail (UB ''object of another type''))"

definition as_term :: "sly_value \<Rightarrow> cps_term sly" where
  "as_term v = bnd (sly_obj_at v) (\<lambda>ob. case ob of STerm t \<Rightarrow> ret t | _ \<Rightarrow> fail (UB ''object of another type''))"

definition as_expr :: "sly_value \<Rightarrow> cps_expr sly" where
  "as_expr v = bnd (sly_obj_at v) (\<lambda>ob. case ob of SExpr e \<Rightarrow> ret e | _ \<Rightarrow> fail (UB ''object of another type''))"

definition as_var_info :: "sly_value \<Rightarrow> cps_var_info sly" where
  "as_var_info v = bnd (sly_obj_at v) (\<lambda>ob. case ob of SVarInfo i \<Rightarrow> ret i | _ \<Rightarrow> fail (UB ''object of another type''))"

text \<open>\<open>u.kargs.vars\<close> is the first field of every member of the union, and the memory of a new object is cleared.\<close>

fun kont_vars :: "cps_kont_u \<Rightarrow> sly_value" where
  "kont_vars (KArgs vars term) = vars"
| "kont_vars (KReceive req rest k) = req"
| "kont_vars (KProc req rest binding tail body) = req"
| "kont_vars KTail = 0"

fun with_vars :: "sly_value \<Rightarrow> cps_kont_u \<Rightarrow> cps_kont_u" where
  "with_vars vars (KArgs vars0 term) = KArgs vars term"
| "with_vars vars (KReceive req rest k) = KReceive vars rest k"
| "with_vars vars (KProc req rest binding tail body) = KProc vars rest binding tail body"
| "with_vars vars KTail = KTail"

definition set_kont_vars :: "sly_value \<Rightarrow> sly_value \<Rightarrow> unit sly" where
  "set_kont_vars k vars = bnd (as_kont k) (\<lambda>(name, u). sly_obj_set k (SKont name (with_vars vars u)))"

definition cps_graph_ref :: "nat \<Rightarrow> sly_value \<Rightarrow> sly_value \<Rightarrow> sly_value sly" where
  "cps_graph_ref n graph k =
     bnd (dictionary_ref n graph k SLY_FALSE) (\<lambda>x. if x = SLY_FALSE then fail (Assert ''Error label not set'') else ret x)"

definition cps_graph_is_member :: "nat \<Rightarrow> sly_value \<Rightarrow> sly_value \<Rightarrow> bool sly" where
  "cps_graph_is_member n graph k = bnd (dictionary_ref n graph k SLY_FALSE) (\<lambda>x. ret (x \<noteq> SLY_FALSE))"

definition cps_graph_set :: "nat \<Rightarrow> sly_value \<Rightarrow> sly_value \<Rightarrow> sly_value \<Rightarrow> unit sly" where
  "cps_graph_set n graph k kont = dictionary_set n graph k kont"

definition cps_new_term :: "sly_value sly" where "cps_new_term = gc_malloc (STerm (TContinue 0 0))"
definition cps_new_expr :: "sly_value sly" where "cps_new_expr = gc_malloc (SExpr (EConst 0))"
definition cps_make_constant :: "sly_value \<Rightarrow> sly_value sly" where "cps_make_constant v = gc_malloc (SExpr (EConst v))"
definition cps_make_fix :: "sly_value sly" where "cps_make_fix = gc_malloc (SExpr (EFix SLY_NULL SLY_NULL))"

definition cps_new_var_info :: "sly_value \<Rightarrow> bool \<Rightarrow> bool \<Rightarrow> int \<Rightarrow> sly_value sly" where
  "cps_new_var_info binding isarg isalias which =
     gc_malloc (SVarInfo \<lparr>vi_used = 0, vi_escapes = 0, vi_updates = 0, vi_isarg = isarg, vi_isalias = isalias,
       vi_which = which, vi_binding = binding, vi_alt = 0\<rparr>)"

definition cps_make_ktail :: "bool \<Rightarrow> sly_value sly" where
  "cps_make_ktail genname =
     bnd (gc_malloc (SKont 0 KTail)) (\<lambda>c.
     if genname then bnd (gensym_from_cstr (cstr ''#ktail'')) (\<lambda>name. bnd (sly_obj_set c (SKont name KTail)) (\<lambda>_. ret c))
     else ret c)"

definition cps_gensym_temporary_name :: "sly_value sly" where "cps_gensym_temporary_name = gensym_from_cstr (cstr ''_t'')"
definition cps_gensym_label_name :: "sly_value sly" where "cps_gensym_label_name = gensym_from_cstr (cstr ''_k'')"

definition cps_copy_kont :: "sly_value \<Rightarrow> sly_value sly" where
  "cps_copy_kont k = bnd (as_kont k) (\<lambda>(name, u). gc_malloc (SKont name u))"

definition cps_deep_copy_kont :: "sly_value \<Rightarrow> sly_value sly" where
  "cps_deep_copy_kont k =
     bnd (cps_copy_kont k) (\<lambda>j. bnd (as_kont k) (\<lambda>(name, u).
     case u of
       KArgs vars term \<Rightarrow>
         bnd cps_new_term (\<lambda>t.
         bnd (sly_obj_set j (SKont name (KArgs vars t))) (\<lambda>_.
         bnd (as_term term) (\<lambda>tm.
         bnd (case tm of
             TContinue kk expr \<Rightarrow>
               bnd cps_new_expr (\<lambda>e. bnd (sly_obj_set t (STerm (TContinue kk e))) (\<lambda>_.
               bnd (as_expr expr) (\<lambda>ex. sly_obj_set e (SExpr ex))))
           | TBranch _ _ _ \<Rightarrow> sly_obj_set t (STerm tm)) (\<lambda>_.
         ret j))))
     | _ \<Rightarrow> ret j))"

definition cps_make_kargs :: "sly_value \<Rightarrow> sly_value \<Rightarrow> sly_value \<Rightarrow> sly_value sly" where
  "cps_make_kargs name term vars =
     bnd (cps_make_ktail False) (\<lambda>k. bnd (sly_obj_set k (SKont name (KArgs vars term))) (\<lambda>_. ret k))"

section \<open>Translation\<close>

text \<open>A new term and its expression, which are filled in once they are known.\<close>

definition new_continue :: "sly_value \<Rightarrow> (sly_value \<times> sly_value) sly" where
  "new_continue k =
     bnd cps_new_term (\<lambda>t. bnd cps_new_expr (\<lambda>e. bnd (sly_obj_set t (STerm (TContinue k e))) (\<lambda>_. ret (t, e))))"

definition set_expr :: "sly_value \<Rightarrow> cps_expr \<Rightarrow> unit sly" where
  "set_expr e ex = sly_obj_set e (SExpr ex)"

text \<open>A continuation with one new variable under a new label: the label and the variable.\<close>

definition new_kargs :: "nat \<Rightarrow> sly_value \<Rightarrow> sly_value \<Rightarrow> (sly_value \<times> sly_value) sly" where
  "new_kargs n graph t =
     bnd cps_gensym_label_name (\<lambda>label. bnd cps_gensym_temporary_name (\<lambda>tmp.
     bnd (make_list [tmp]) (\<lambda>vars. bnd (cps_make_kargs label t vars) (\<lambda>k.
     bnd (cps_graph_set n graph label k) (\<lambda>_. ret (label, tmp))))))"

definition cps_constant :: "nat \<Rightarrow> bool \<Rightarrow> sly_value \<Rightarrow> sly_value \<Rightarrow> sly_value \<Rightarrow> sly_value sly" where
  "cps_constant n syntax_quote cc graph form =
     bnd cps_new_term (\<lambda>t.
     bnd (if syntax_quote then ret form else strip_syntax n form) (\<lambda>v.
     bnd (cps_make_constant v) (\<lambda>e.
     bnd (sly_obj_set t (STerm (TContinue cc e))) (\<lambda>_.
     bnd (new_kargs n graph t) (\<lambda>(label, _). ret label)))))"

datatype cps_head = HDefine | HSet | HValues | HLambda | HBegin | HIf | HQuote | HSyntax_quote

definition cps_heads :: "(string \<times> cps_head) list" where
  "cps_heads =
     [(''define'', HDefine), (''define-syntax'', HDefine), (''set!'', HSet), (''values'', HValues), (''lambda'', HLambda),
      (''begin'', HBegin), (''if'', HIf), (''quote'', HQuote), (''syntax-quote'', HSyntax_quote)]"

fun find_head :: "nat \<Rightarrow> sly_value \<Rightarrow> (string \<times> cps_head) list \<Rightarrow> cps_head option sly" where
  "find_head n fst0 [] = ret None"
| "find_head n fst0 ((name, h) # hs) =
     ifM (bnd (strip_syntax n fst0) (\<lambda>s. bnd (make_symbol n (cstr name)) (symbol_eq s))) (ret (Some h)) (find_head n fst0 hs)"

type_synonym translator = "sly_value \<Rightarrow> sly_value \<Rightarrow> sly_value \<Rightarrow> sly_value \<Rightarrow> sly_value sly"

definition name_p :: "sly_value \<Rightarrow> bool sly" where
  "name_p v = ifM (identifier_p v) (ret True) (symbol_p v)"

definition pair_form_p :: "sly_value \<Rightarrow> bool sly" where
  "pair_form_p v = ifM (syntax_pair_p v) (ret True) (pair_p v)"

text \<open>The term that stores the value of a continuation's variable.\<close>

definition set_kargs :: "nat \<Rightarrow> sly_value \<Rightarrow> sly_value \<Rightarrow> sly_value \<Rightarrow> sly_value \<Rightarrow> unit sly" where
  "set_kargs n graph kname cc name =
     bnd (new_continue cc) (\<lambda>(t, e).
     bnd cps_gensym_temporary_name (\<lambda>tmp. bnd (make_list [tmp]) (\<lambda>args.
     bnd (set_expr e (ESet name tmp)) (\<lambda>_.
     bnd (cps_make_kargs kname t args) (\<lambda>k. cps_graph_set n graph kname k)))))"

definition translate_define :: "nat \<Rightarrow> translator \<Rightarrow> translator" where
  "translate_define n tr fix cc graph rest =
     bnd (bnd (CAR rest) (strip_syntax n)) (\<lambda>name.
     bnd (bnd (CDR rest) CAR) (\<lambda>v.
     bnd cps_gensym_label_name (\<lambda>kname.
     bnd (tr fix kname graph v) (\<lambda>kk.
     bnd cps_new_expr (\<lambda>expr. bnd (set_expr expr (EBox SLY_VOID)) (\<lambda>_.
     bnd (as_expr fix) (\<lambda>fx. case fx of
       EFix names procs \<Rightarrow>
         bnd (sly_cons name names) (\<lambda>names'. bnd (sly_cons expr procs) (\<lambda>procs'.
         bnd (set_expr fix (EFix names' procs')) (\<lambda>_.
         bnd (set_kargs n graph kname cc name) (\<lambda>_. ret kk))))
     | _ \<Rightarrow> fail (UB ''object of another type''))))))))"

definition translate_set :: "nat \<Rightarrow> translator \<Rightarrow> translator" where
  "translate_set n tr fix cc graph rest =
     bnd (bnd (CAR rest) (strip_syntax n)) (\<lambda>name.
     bnd cps_gensym_label_name (\<lambda>kname.
     bnd (bnd (CDR rest) CAR) (\<lambda>v. bnd (tr fix kname graph v) (\<lambda>kk.
     bnd (set_kargs n graph kname cc name) (\<lambda>_. ret kk)))))"

text \<open>
  The operands of a call: a name is used as it is, the value of anything else goes to the variable of the
  continuation it is translated for.
\<close>

fun translate_args :: "nat \<Rightarrow> nat \<Rightarrow> translator \<Rightarrow> sly_value \<Rightarrow> sly_value \<Rightarrow> sly_value \<Rightarrow> sly_value \<Rightarrow> sly_value \<Rightarrow> sly_value \<Rightarrow>
    (sly_value \<times> sly_value) sly" where
  "translate_args n 0 tr fix cc graph tmp vlist rest = fail NoFuel"
| "translate_args n (Suc m) tr fix cc graph tmp vlist rest =
     (if null_p rest then ret (cc, vlist)
      else bnd (CAR rest) (\<lambda>e.
        bnd (ifM (name_p e) (bnd (strip_syntax n e) (\<lambda>name. ret (cc, name, tmp)))
          (bnd (tr fix cc graph e) (\<lambda>cc'. bnd (cps_graph_ref n graph cc') (\<lambda>k. bnd (as_kont k) (\<lambda>(_, u).
           bnd (sly_car (kont_vars u)) (\<lambda>tmp'. ret (cc', tmp, tmp'))))))) (\<lambda>(cc', name, tmp').
        bnd (sly_cons name SLY_NULL) (\<lambda>l. bnd (list_append n vlist l) (\<lambda>vlist'.
        bnd (CDR rest) (translate_args n m tr fix cc' graph tmp' vlist'))))))"

definition translate_values :: "nat \<Rightarrow> translator \<Rightarrow> translator" where
  "translate_values n tr fix cc graph rest =
     bnd (new_continue cc) (\<lambda>(t, e).
     bnd cps_gensym_temporary_name (\<lambda>tmp.
     bnd cps_gensym_label_name (\<lambda>label. bnd (make_list [tmp]) (\<lambda>vars. bnd (cps_make_kargs label t vars) (\<lambda>k.
     bnd (cps_graph_set n graph label k) (\<lambda>_.
     bnd (translate_args n n tr fix label graph tmp SLY_NULL rest) (\<lambda>(cc', vlist).
     bnd (set_expr e (EValues vlist)) (\<lambda>_. ret cc'))))))))"

text \<open>What \<open>cps_translate\<close> does: the defined names are bound before the entry.\<close>

definition translate_body :: "nat \<Rightarrow> translator \<Rightarrow> sly_value \<Rightarrow> sly_value \<Rightarrow> sly_value \<Rightarrow> sly_value sly" where
  "translate_body n tr cc graph form =
     bnd cps_make_fix (\<lambda>fix.
     bnd (tr fix cc graph form) (\<lambda>entry.
     bnd (as_expr fix) (\<lambda>fx. case fx of
       EFix names procs \<Rightarrow>
         if null_p names then ret entry
         else bnd cps_new_term (\<lambda>t. bnd (sly_obj_set t (STerm (TContinue entry fix))) (\<lambda>_.
           bnd cps_gensym_label_name (\<lambda>label. bnd (cps_make_kargs label t SLY_NULL) (\<lambda>kont.
           bnd (cps_graph_set n graph label kont) (\<lambda>_.
           bnd (cps_graph_ref n graph entry) (\<lambda>e. bnd (set_kont_vars e names) (\<lambda>_. ret label)))))))
     | _ \<Rightarrow> fail (UB ''object of another type''))))"

fun formals :: "nat \<Rightarrow> nat \<Rightarrow> sly_value \<Rightarrow> sly_value \<Rightarrow> (sly_value \<times> sly_value) sly" where
  "formals n 0 req args = fail NoFuel"
| "formals n (Suc m) req args =
     ifM (pair_form_p args)
       (bnd (bnd (CAR args) (strip_syntax n)) (\<lambda>a. bnd (sly_cons a SLY_NULL) (\<lambda>l.
        bnd (list_append n req l) (\<lambda>req'. bnd (CDR args) (formals n m req')))))
       (ret (req, args))"

definition translate_lambda :: "nat \<Rightarrow> translator \<Rightarrow> translator" where
  "translate_lambda n tr fix cc graph rest =
     bnd (CAR rest) (\<lambda>arg_formals.
     bnd (cps_make_ktail True) (\<lambda>tail. bnd (as_kont tail) (\<lambda>(kp, _).
     bnd (cps_graph_set n graph kp tail) (\<lambda>_.
     bnd (new_continue cc) (\<lambda>(t, e).
     bnd (cps_make_ktail False) (\<lambda>k. bnd cps_gensym_label_name (\<lambda>kname.
     bnd (make_symbol n (cstr ''begin'')) (\<lambda>b. bnd (CDR rest) (\<lambda>forms. bnd (sly_cons b forms) (\<lambda>form.
     bnd (translate_body n tr kp graph form) (\<lambda>body.
     bnd (formals n n SLY_NULL arg_formals) (\<lambda>(req, more).
     bnd (if null_p more then ret (SLY_FALSE, req)
          else bnd (strip_syntax n more) (\<lambda>tmp. bnd (sly_cons tmp SLY_NULL) (\<lambda>l.
            bnd (list_append n req l) (\<lambda>args. ret (tmp, args))))) (\<lambda>(rest_arg, args).
     bnd (cps_graph_ref n graph body) (\<lambda>kont. bnd (as_kont kont) (\<lambda>(name, u). case u of
       KArgs _ term \<Rightarrow>
         bnd (sly_obj_set kont (SKont name (KArgs args term))) (\<lambda>_.
         bnd (sly_obj_set k (SKont kname (KProc req rest_arg 0 kp body))) (\<lambda>_.
         bnd (set_expr e (EProc kname)) (\<lambda>_.
         bnd (cps_graph_set n graph kname k) (\<lambda>_.
         bnd (new_kargs n graph t) (\<lambda>(label, _). ret label)))))
     | _ \<Rightarrow> fail (Assert ''Error expected kargs''))))))))))))))))"

definition translate_begin :: "translator \<Rightarrow> sly_value \<Rightarrow> translator" where
  "translate_begin tr fst0 fix cc graph rest =
     bnd (CDR rest) (\<lambda>d.
     bnd (if null_p d then ret cc else bnd (sly_cons fst0 d) (tr fix cc graph)) (\<lambda>cc'.
     bnd (CAR rest) (tr fix cc' graph)))"

definition no_vars :: "nat \<Rightarrow> sly_value \<Rightarrow> sly_value \<Rightarrow> unit sly" where
  "no_vars n graph k =
     bnd (cps_graph_ref n graph k) (\<lambda>kont. bnd (as_kont kont) (\<lambda>(name, u). case u of
       KArgs _ term \<Rightarrow> sly_obj_set kont (SKont name (KArgs SLY_NULL term))
     | _ \<Rightarrow> fail (Assert ''Error expected kargs'')))"

definition translate_if :: "nat \<Rightarrow> translator \<Rightarrow> translator" where
  "translate_if n tr fix cc graph rest =
     bnd (CAR rest) (\<lambda>cform. bnd (bnd (CDR rest) CAR) (\<lambda>tform.
     bnd (bnd (CDR rest) (\<lambda>d. bnd (CDR d) CAR)) (\<lambda>fform.
     bnd (tr fix cc graph tform) (\<lambda>kt. bnd (tr fix cc graph fform) (\<lambda>kf.
     bnd (no_vars n graph kt) (\<lambda>_. bnd (no_vars n graph kf) (\<lambda>_.
     bnd cps_new_term (\<lambda>t.
     bnd cps_gensym_label_name (\<lambda>label. bnd cps_gensym_temporary_name (\<lambda>tv.
     bnd (make_list [tv]) (\<lambda>vars. bnd (cps_make_kargs label t vars) (\<lambda>k.
     bnd (sly_obj_set t (STerm (TBranch tv kt kf))) (\<lambda>_.
     bnd (cps_graph_set n graph label k) (\<lambda>_.
     tr fix label graph cform))))))))))))))"

definition translate_call :: "nat \<Rightarrow> translator \<Rightarrow> translator" where
  "translate_call n tr fix cc graph form =
     bnd cps_gensym_temporary_name (\<lambda>v. bnd (make_list [v]) (\<lambda>vars.
     bnd (new_continue cc) (\<lambda>(t1, e1). bnd (set_expr e1 (EValues vars)) (\<lambda>_.
     bnd cps_gensym_label_name (\<lambda>unused. bnd (cps_make_kargs unused t1 vars) (\<lambda>k1.
     bnd cps_gensym_label_name (\<lambda>label1. bnd (sly_obj_set k1 (SKont label1 (KArgs vars t1))) (\<lambda>_.
     bnd (cps_graph_set n graph label1 k1) (\<lambda>_.
     bnd (cps_make_ktail False) (\<lambda>k2. bnd cps_gensym_label_name (\<lambda>label2.
     bnd (sly_obj_set k2 (SKont label2 (KReceive vars SLY_FALSE label1))) (\<lambda>_.
     bnd (cps_graph_set n graph label2 k2) (\<lambda>_.
     bnd (new_continue label2) (\<lambda>(t, e).
     bnd cps_gensym_temporary_name (\<lambda>tmp. bnd cps_gensym_label_name (\<lambda>label3. bnd (make_list [tmp]) (\<lambda>vars3.
     bnd (cps_make_kargs label3 t vars3) (\<lambda>k3. bnd (cps_graph_set n graph label3 k3) (\<lambda>_.
     bnd (translate_args n n tr fix label3 graph tmp SLY_NULL form) (\<lambda>(cc', vlist).
     bnd (sly_car vlist) (\<lambda>name. bnd (sly_cdr vlist) (\<lambda>args.
     bnd (primop_p n name) (\<lambda>p.
     bnd (set_expr e (if p \<noteq> None then EPrimcall name args else ECall name args)) (\<lambda>_. ret cc'))))))))))))))))))))))))"

definition translate_name :: "nat \<Rightarrow> sly_value \<Rightarrow> sly_value \<Rightarrow> sly_value \<Rightarrow> sly_value sly" where
  "translate_name n cc graph form =
     bnd (strip_syntax n form) (\<lambda>s.
     bnd (new_continue cc) (\<lambda>(t, e).
     bnd (primop_p n s) (\<lambda>p.
     bnd (if p \<noteq> None then set_expr e (EPrim s) else bnd (make_list [s]) (\<lambda>l. set_expr e (EValues l))) (\<lambda>_.
     bnd (new_kargs n graph t) (\<lambda>(label, _). ret label)))))"

definition translate_head :: "nat \<Rightarrow> translator \<Rightarrow> cps_head \<Rightarrow> sly_value \<Rightarrow> translator" where
  "translate_head n tr h fst0 fix cc graph rest =
     (case h of
        HDefine \<Rightarrow> translate_define n tr fix cc graph rest
      | HSet \<Rightarrow> translate_set n tr fix cc graph rest
      | HValues \<Rightarrow> translate_values n tr fix cc graph rest
      | HLambda \<Rightarrow> translate_lambda n tr fix cc graph rest
      | HBegin \<Rightarrow> translate_begin tr fst0 fix cc graph rest
      | HIf \<Rightarrow> translate_if n tr fix cc graph rest
      | HQuote \<Rightarrow> bnd (CAR rest) (cps_constant n False cc graph)
      | HSyntax_quote \<Rightarrow> bnd (CAR rest) (cps_constant n True cc graph))"

fun translate :: "nat \<Rightarrow> translator" where
  "translate 0 fix cc graph form = fail NoFuel"
| "translate (Suc n) fix cc graph form =
     (if null_p form then ret cc
      else ifM (pair_form_p form)
        (bnd (CAR form) (\<lambda>fst0. bnd (CDR form) (\<lambda>rest.
         bnd (ifM (name_p fst0) (find_head n fst0 cps_heads) (ret None)) (\<lambda>h. case h of
           Some h \<Rightarrow> translate_head n (translate n) h fst0 fix cc graph rest
         | None \<Rightarrow> translate_call n (translate n) fix cc graph form))))
      (ifM (name_p form) (translate_name n cc graph form) (cps_constant n False cc graph form)))"

definition cps_translate :: "nat \<Rightarrow> sly_value \<Rightarrow> sly_value \<Rightarrow> sly_value \<Rightarrow> sly_value sly" where
  "cps_translate n cc graph form = translate_body n (translate n) cc graph form"

end
