(* ===== verification/Sly_Folding.thy ===== *)
theory Sly_Folding
  imports Sly_CPS Sly_Exact Scm_Arith
begin

text \<open>
  Folding of arithmetic at compile time (src/cps.c) against the primitives of the compiled program
  (scheme/scm_runtime.c).
\<close>

section \<open>Folding a list of integers\<close>

text \<open>Every partial result fits 64 bits.\<close>

fun partials64 :: "(int \<Rightarrow> int \<Rightarrow> int) \<Rightarrow> int \<Rightarrow> int list \<Rightarrow> bool" where
  "partials64 f a [] = True"
| "partials64 f a (i # is) \<longleftrightarrow> is_i64 (f a i) \<and> partials64 f (f a i) is"

definition ints_at :: "sly_state \<Rightarrow> sly_value list \<Rightarrow> int list \<Rightarrow> bool" where
  "ints_at s vs is = list_all2 (int_at s) vs is"

lemma ints_at_simps [simp]: "ints_at s [] is = (is = [])" "ints_at s vs (i # is) = (\<exists>w ws. vs = w # ws \<and> int_at s w i \<and> ints_at s ws is)"
  "ints_at s vs [] = (vs = [])"
  by (auto simp: ints_at_def list_all2_Cons2)

lemma ints_at_grows: "ints_at s vs is \<Longrightarrow> grows s t \<Longrightarrow> ints_at t vs is"
  unfolding ints_at_def by (erule list_all2_mono) (rule int_at_grows)

context sly_int_op
begin

lemma fold_exact:
  assumes "slist_at s l vs" and "ints_at s vs is" and "int_at s acc a" and "partials64 f a is" and "sly_room (length is + k) s" and "length is < n"
  shows "\<exists>v t. fold_vargs n op acc l s = Inr (v, t) \<and> int_at t v (foldl f a is) \<and> grows s t \<and> sly_room k t"
  using assms
proof (induction "is" arbitrary: vs l acc a s n)
  case Nil
  then show ?case
    by (cases n) auto
next
  case (Cons i "is")
  obtain m where n: "n = Suc m"
    using Cons.prems(6) by (cases n) auto
  obtain w ws where w: "vs = w # ws" "int_at s w i" "ints_at s ws is"
    using Cons.prems(2) by auto
  obtain d where d: "spair_at s l w d" "slist_at s d ws"
    using Cons.prems(1) w(1) by auto
  have "sly_room (Suc (length is + k)) s" "is_i64 (f a i)"
    using Cons.prems(4,5) by simp_all
  then obtain v t where t: "sly_make_int (f a i) s = Inr (v, t)" "int_at t v (f a i)" "grows s t" "sly_room (length is + k) t"
    using make_int_room by blast
  have "op acc w s = Inr (v, t)"
    using t(1) \<open>is_i64 (f a i)\<close> on_ints [OF Cons.prems(3) w(2)] by (simp add: checked_int_def)
  then have "fold_vargs n op acc l s = fold_vargs m op v d t"
    using d spair_at_grows [OF d(1) t(3)] n by simp
  moreover obtain v' t' where "fold_vargs m op v d t = Inr (v', t')" "int_at t' v' (foldl f (f a i) is)" "grows t t'" "sly_room k t'"
    using Cons.IH [OF slist_at_grows [OF d(2) t(3)] ints_at_grows [OF w(3) t(3)] t(2) _ t(4), of m] Cons.prems(4,6) n by auto
  ultimately show ?case
    using grows_trans [OF t(3)] by auto
qed

end










end
