(* ===== verification/Sly_Arithmetic.thy ===== *)
theory Sly_Arithmetic
  imports Sly_Folding Sly_Compile_State
begin

text \<open>
  The arithmetic builtins of the interpreter on integers (src/builtins.h).
\<close>

context sly_int_op
begin

lemma fold_overflow:
  assumes "slist_at s l vs" and "ints_at s vs is" and "int_at s acc a" and "\<not> partials64 f a is" and "sly_room (length is + k) s" and "length is < n"
  shows "fold_vargs n op acc l s = Inl (Assert ''Error overflow'')"
  using assms
proof (induction "is" arbitrary: vs l acc a s n)
  case (Cons i "is")
  obtain m where n: "n = Suc m"
    using Cons.prems(6) by (cases n) auto
  obtain w ws where w: "vs = w # ws" "int_at s w i" "ints_at s ws is"
    using Cons.prems(2) by auto
  obtain d where d: "spair_at s l w d" "slist_at s d ws"
    using Cons.prems(1) w(1) by auto
  show ?case
  proof (cases "is_i64 (f a i)")
    case True
    have "sly_room (Suc (length is + k)) s"
      using Cons.prems(5) by simp
    then obtain v t where t: "sly_make_int (f a i) s = Inr (v, t)" "int_at t v (f a i)" "grows s t" "sly_room (length is + k) t"
      using make_int_room True by blast
    have "op acc w s = Inr (v, t)"
      using t(1) True on_ints [OF Cons.prems(3) w(2)] by (simp add: checked_int_def)
    then have "fold_vargs n op acc l s = fold_vargs m op v d t"
      using d spair_at_grows [OF d(1) t(3)] n by simp
    then show ?thesis
      using Cons.IH [OF slist_at_grows [OF d(2) t(3)] ints_at_grows [OF w(3) t(3)] t(2) _ t(4), of m] Cons.prems(4,6) n True by auto
  next
    case False
    then have "op acc w s = Inl (Assert ''Error overflow'')"
      using overflow [OF Cons.prems(3) w(2)] by simp
    then show ?thesis
      using d n by simp
  qed
qed simp

lemma fold_from_unit:
  assumes "slist_at s l vs" and "ints_at s vs is" and "is_i64 u" and "sly_room (length is + Suc k) s" and "length is < n"
  shows "if partials64 f u is
    then \<exists>v t. bnd (sly_make_int u) (\<lambda>z. fold_vargs n op z l) s = Inr (v, t) \<and> int_at t v (foldl f u is) \<and> grows s t \<and> sly_room k t
    else bnd (sly_make_int u) (\<lambda>z. fold_vargs n op z l) s = Inl (Assert ''Error overflow'')"
proof -
  have room: "sly_room (Suc (length is + k)) s"
    using assms(4) by simp
  obtain z s0 where z: "sly_make_int u s = Inr (z, s0)" "int_at s0 z u" "grows s s0" "sly_room (length is + k) s0"
    using make_int_room [OF room assms(3)] by blast
  note at = slist_at_grows [OF assms(1) z(3)] ints_at_grows [OF assms(2) z(3)] z(2)
  show ?thesis
    using fold_exact [OF at _ z(4) assms(5)] fold_overflow [OF at _ z(4) assms(5)] z(1) grows_trans [OF z(3)] by (auto split: if_splits)
qed

end

lemma one_arg: "vec_at s args [l] \<Longrightarrow> arg args 0 f s = f l s"
  using vec_at_ref [of s args "[l]" 0] by (simp add: arg_def)

lemma unary_sub:
  assumes "slist_at s l vs" and "ints_at s vs [x]" and "is_i64 u" and "is_i64 (u - x)" and "sly_room 2 s"
  shows "\<exists>v t. bnd (sly_make_int u) (\<lambda>z. bnd (sly_car l) (\<lambda>head. bnd (sly_cdr l) (\<lambda>rest.
      if null_p rest then sly_sub z head else g z head rest))) s = Inr (v, t) \<and> int_at t v (u - x)"
proof -
  have room: "sly_room (Suc 1) s"
    using assms(5) by (simp add: numeral_2_eq_2)
  obtain z s0 where z: "sly_make_int u s = Inr (z, s0)" "int_at s0 z u" "grows s s0" "sly_room 1 s0"
    using make_int_room [OF room assms(3)] by blast
  obtain w where w: "vs = [w]" "int_at s w x"
    using assms(2) by auto
  then have p: "spair_at s l w SLY_NULL"
    using assms(1) by simp
  obtain v t where "sly_sub z w s0 = Inr (v, t)" "int_at t v (u - x)"
    using subs.exact [OF sly_room_fine [OF z(4)] z(2) int_at_grows [OF w(2) z(3)] assms(4)] by blast
  then show ?thesis
    using z(1) spair_at_grows [OF p z(3)] by simp
qed

text \<open>
  C6: The builtins \<open>+\<close> and \<open>*\<close> of the interpreter answer the exact 64-bit sum and product of
  any number of integers, or stop with an overflow at the first partial result that does not fit.
  Of one integer \<open>-\<close> answers the opposite, and \<open>/\<close> answers one minus the integer, where one
  over the integer is meant.
\<close>

theorem builtin_arithmetic:
  assumes "vec_at s args [l]" and "slist_at s l vs" and "ints_at s vs is" and "sly_room (length is + 2) s" and "length is < n"
  shows "(if partials64 (+) 0 is then \<exists>v t. cadd n args s = Inr (v, t) \<and> int_at t v (sum_list is)
      else cadd n args s = Inl (Assert ''Error overflow'')) \<and>
    (if partials64 (*) 1 is then \<exists>v t. cmul n args s = Inr (v, t) \<and> int_at t v (prod_list is)
      else cmul n args s = Inl (Assert ''Error overflow'')) \<and>
    (is = [x] \<longrightarrow> is_i64 (- x) \<longrightarrow> (\<exists>v t. csub n args s = Inr (v, t) \<and> int_at t v (- x))) \<and>
    (is = [x] \<longrightarrow> is_i64 (1 - x) \<longrightarrow> (\<exists>v t. cdiv n args s = Inr (v, t) \<and> int_at t v (1 - x)))"
proof (intro conjI impI)
  have u: "is_i64 0" "is_i64 1"
    by (simp_all add: is_i64_def)
  have room: "sly_room (length is + Suc 1) s"
    using assms(4) by (simp add: numeral_2_eq_2)
  have e: "cadd n args s = bnd (sly_make_int 0) (\<lambda>z. fold_vargs n sly_add z l) s" "cmul n args s = bnd (sly_make_int 1) (\<lambda>z. fold_vargs n sly_mul z l) s"
    using one_arg [OF assms(1)] by (simp_all add: cadd_def cmul_def)
  have sums: "foldl (+) 0 is = sum_list is" "foldl (*) 1 is = prod_list is"
    by (simp_all add: foldl_plus foldl_times)
  show "if partials64 (+) 0 is then \<exists>v t. cadd n args s = Inr (v, t) \<and> int_at t v (sum_list is)
      else cadd n args s = Inl (Assert ''Error overflow'')"
    using adds.fold_from_unit [OF assms(2,3) u(1) room assms(5)] unfolding e sums by meson
  show "if partials64 (*) 1 is then \<exists>v t. cmul n args s = Inr (v, t) \<and> int_at t v (prod_list is)
      else cmul n args s = Inl (Assert ''Error overflow'')"
    using muls.fold_from_unit [OF assms(2,3) u(2) room assms(5)] unfolding e sums by meson
  have ne: "\<not> null_p l" if "is = [x]"
    using assms(2,3) that by auto
  have two: "sly_room 2 s"
    by (rule room_mono [OF assms(4)]) simp
  show "\<exists>v t. csub n args s = Inr (v, t) \<and> int_at t v (- x)" if "is = [x]" "is_i64 (- x)"
    using unary_sub [OF assms(2) assms(3) [unfolded that(1)] u(1) _ two, of "\<lambda>z head rest. bnd (fold_vargs n sly_add z rest) (sly_sub head)"] ne that
    by (simp add: csub_def one_arg [OF assms(1)])
  show "\<exists>v t. cdiv n args s = Inr (v, t) \<and> int_at t v (1 - x)" if "is = [x]" "is_i64 (1 - x)"
    using unary_sub [OF assms(2) assms(3) [unfolded that(1)] u(2) _ two, of "\<lambda>z head rest. bnd (fold_vargs n sly_mul z rest) (sly_div head)"] ne that
    by (simp add: cdiv_def one_arg [OF assms(1)])
qed

text \<open>\<open>(/ 2)\<close>.\<close>

definition over_demo :: sly_state where
  "over_demo = sly_start\<lparr>sly_next := 48, sly_heap := [16 \<mapsto> SPair (make_imm imm_int (word_of_int 2)) SLY_NULL, 32 \<mapsto> SVector 1 [Some 16]]\<rparr>"

lemma builtin_arithmetic_witness: "\<exists>v t. cdiv 2 32 over_demo = Inr (v, t) \<and> int_at t v (- 1)"
proof -
  have "vec_at over_demo 32 [16]" "slist_at over_demo 16 [make_imm imm_int (word_of_int 2)]" "sly_room (length [2 :: int] + 2) over_demo"
    by (auto simp: over_demo_def sly_start_def vec_at_def spair_at_def sly_room_def heap_fine_def ptr_p_def void_p_def SLY_VOID_def
      GET_ADDR_def TAG_MASK_def)
  moreover have "ints_at over_demo [make_imm imm_int (word_of_int 2)] [2]"
    using fixnum_at [of 2 over_demo] by (simp add: fits_i32_def)
  ultimately show ?thesis
    using builtin_arithmetic [of over_demo 32 16 "[make_imm imm_int (word_of_int 2)]" "[2]" 2 2] by (simp add: is_i64_def)
qed

end
