(* ===== verification/Sly_Reads.thy ===== *)
theory Sly_Reads
  imports Sly_Display Sly_Compile_State
begin


section \<open>Digits\<close>









section \<open>Strings\<close>



section \<open>Literals\<close>












end
