(* ===== verification/Sly_CPS_Info.thy ===== *)
theory Sly_CPS_Info
  imports Sly_CPS
begin

text \<open>
  What is known of the variables (src/cps.c): a table of uses and bindings for each continuation, and one for
  the whole program.  A null pointer is 0.
\<close>

section \<open>Tables\<close>

definition cps_get_const :: "nat \<Rightarrow> sly_value \<Rightarrow> sly_value \<Rightarrow> sly_value sly" where
  "cps_get_const n var_info var =
     bnd (dictionary_ref n var_info var SLY_VOID) (\<lambda>s.
     if void_p s then ret SLY_VOID
     else bnd (as_var_info s) (\<lambda>vi.
       if vi_binding vi \<noteq> 0 \<and> vi_alt vi = 0 then
         bnd (as_expr (vi_binding vi)) (\<lambda>e. ret (case e of EConst v \<Rightarrow> v | _ \<Rightarrow> SLY_VOID))
       else ret SLY_VOID))"

definition cps_get_const_number :: "nat \<Rightarrow> sly_value \<Rightarrow> sly_value \<Rightarrow> sly_value sly" where
  "cps_get_const_number n var_info var =
     bnd (cps_get_const n var_info var) (\<lambda>v. if void_p v then ret SLY_FALSE else ifM (number_p v) (ret v) (ret SLY_FALSE))"

definition cps_var_def_info :: "nat \<Rightarrow> sly_value \<Rightarrow> sly_value \<Rightarrow> sly_value \<Rightarrow> bool \<Rightarrow> bool \<Rightarrow> int \<Rightarrow> sly_value sly" where
  "cps_var_def_info n tbl name expr isarg isalias which =
     bnd (dictionary_ref n tbl name SLY_VOID) (\<lambda>s.
     if void_p s then
       bnd (cps_new_var_info expr isarg isalias which) (\<lambda>vi. bnd (dictionary_set n tbl name vi) (\<lambda>_. ret vi))
     else bnd (as_var_info s) (\<lambda>vi.
       bnd (sly_obj_set s (SVarInfo (vi\<lparr>vi_isarg := isarg, vi_isalias := isalias, vi_which := which, vi_binding := expr\<rparr>))) (\<lambda>_.
       ret s)))"

definition cps_var_info_set_binding :: "nat \<Rightarrow> sly_value \<Rightarrow> sly_value \<Rightarrow> sly_value \<Rightarrow> unit sly" where
  "cps_var_info_set_binding n tbl name binding =
     bnd (dictionary_ref n tbl name SLY_VOID) (\<lambda>s.
     if void_p s then ret ()
     else bnd (as_var_info s) (\<lambda>vi. sly_obj_set s (SVarInfo (vi\<lparr>vi_binding := binding\<rparr>))))"

text \<open>One more use, update or escape of a variable, which may not have been seen before.\<close>

definition var_info_count :: "nat \<Rightarrow> (cps_var_info \<Rightarrow> cps_var_info) \<Rightarrow> sly_value \<Rightarrow> sly_value \<Rightarrow> unit sly" where
  "var_info_count n f tbl name =
     bnd (bnd (dictionary_ref n tbl name SLY_VOID) (\<lambda>s.
       if void_p s then cps_var_def_info n tbl name 0 False False 0 else ret s)) (\<lambda>s.
     bnd (as_var_info s) (\<lambda>vi. sly_obj_set s (SVarInfo (f vi))))"

definition cps_var_info_inc_used :: "nat \<Rightarrow> sly_value \<Rightarrow> sly_value \<Rightarrow> unit sly" where
  "cps_var_info_inc_used n = var_info_count n (\<lambda>vi. vi\<lparr>vi_used := vi_used vi + 1\<rparr>)"

definition cps_var_info_inc_updates :: "nat \<Rightarrow> sly_value \<Rightarrow> sly_value \<Rightarrow> unit sly" where
  "cps_var_info_inc_updates n = var_info_count n (\<lambda>vi. vi\<lparr>vi_updates := vi_updates vi + 1\<rparr>)"

definition cps_var_info_inc_escapes :: "nat \<Rightarrow> sly_value \<Rightarrow> sly_value \<Rightarrow> unit sly" where
  "cps_var_info_inc_escapes n = var_info_count n (\<lambda>vi. vi\<lparr>vi_escapes := vi_escapes vi + 1\<rparr>)"

definition used_in_both :: "nat \<Rightarrow> sly_value \<Rightarrow> sly_value \<Rightarrow> sly_value \<Rightarrow> unit sly" where
  "used_in_both n global_tbl tbl var =
     bnd (cps_var_info_inc_used n tbl var) (\<lambda>_. cps_var_info_inc_used n global_tbl var)"

fun use_args :: "nat \<Rightarrow> nat \<Rightarrow> sly_value \<Rightarrow> sly_value \<Rightarrow> sly_value \<Rightarrow> unit sly" where
  "use_args n 0 global_tbl tbl args = fail NoFuel"
| "use_args n (Suc m) global_tbl tbl args =
     (if null_p args then ret ()
      else bnd (sly_car args) (\<lambda>var. bnd (used_in_both n global_tbl tbl var) (\<lambda>_.
        bnd (sly_cdr args) (use_args n m global_tbl tbl))))"

text \<open>The arguments of a call; the loop of the source does not go on from an argument that is false.\<close>

fun escape_args :: "nat \<Rightarrow> nat \<Rightarrow> sly_value \<Rightarrow> sly_value \<Rightarrow> sly_value \<Rightarrow> unit sly" where
  "escape_args n 0 global_tbl tbl args = fail NoFuel"
| "escape_args n (Suc m) global_tbl tbl args =
     (if null_p args then ret ()
      else bnd (sly_car args) (\<lambda>var.
        if var = SLY_FALSE then escape_args n m global_tbl tbl args
        else bnd (cps_var_info_inc_used n tbl var) (\<lambda>_. bnd (cps_var_info_inc_escapes n tbl var) (\<lambda>_.
          bnd (cps_var_info_inc_used n global_tbl var) (\<lambda>_. bnd (cps_var_info_inc_escapes n global_tbl var) (\<lambda>_.
          bnd (sly_cdr args) (escape_args n m global_tbl tbl)))))))"

fun define_names :: "nat \<Rightarrow> nat \<Rightarrow> sly_value \<Rightarrow> sly_value \<Rightarrow> sly_value \<Rightarrow> sly_value \<Rightarrow> unit sly" where
  "define_names n 0 global_tbl tbl names procs = fail NoFuel"
| "define_names n (Suc m) global_tbl tbl names procs =
     (if null_p names then ret ()
      else bnd (sly_car names) (\<lambda>nm. bnd (sly_car procs) (\<lambda>e.
        bnd (cps_var_def_info n tbl nm e False False 0) (\<lambda>_.
        bnd (cps_var_def_info n global_tbl nm e False False 0) (\<lambda>_.
        bnd (sly_cdr names) (\<lambda>names'. bnd (sly_cdr procs) (define_names n m global_tbl tbl names')))))))"

definition cps_var_info_visit_expr :: "nat \<Rightarrow> sly_value \<Rightarrow> sly_value \<Rightarrow> sly_value \<Rightarrow> unit sly" where
  "cps_var_info_visit_expr n global_tbl tbl expr =
     bnd (as_expr expr) (\<lambda>e. case e of
       EPrimcall _ args \<Rightarrow> use_args n n global_tbl tbl args
     | ECall proc args \<Rightarrow> bnd (used_in_both n global_tbl tbl proc) (\<lambda>_. escape_args n n global_tbl tbl args)
     | EKcall _ _ _ \<Rightarrow> fail (Assert ''unimplemented'')
     | EValues args \<Rightarrow> use_args n n global_tbl tbl args
     | ESet var v \<Rightarrow>
         bnd (cps_var_info_inc_updates n tbl var) (\<lambda>_. bnd (cps_var_info_inc_updates n global_tbl var) (\<lambda>_.
         used_in_both n global_tbl tbl v))
     | EFix names procs \<Rightarrow> define_names n n global_tbl tbl names procs
     | _ \<Rightarrow> ret ())"

text \<open>The alternatives of a variable are chained; the second chain goes to the end of the first.\<close>

fun var_info_cat :: "nat \<Rightarrow> sly_value \<Rightarrow> sly_value \<Rightarrow> sly_value sly" where
  "var_info_cat 0 info1 info2 = fail NoFuel"
| "var_info_cat (Suc n) info1 info2 =
     (if info1 = 0 then ret info2
      else if info2 = 0 \<or> info1 = info2 then ret info1
      else bnd (as_var_info info1) (\<lambda>vi. bnd (var_info_cat n (vi_alt vi) info2) (\<lambda>alt.
        bnd (as_var_info info1) (\<lambda>vi. bnd (sly_obj_set info1 (SVarInfo (vi\<lparr>vi_alt := alt\<rparr>))) (\<lambda>_. ret info1)))))"

fun union_slots :: "nat \<Rightarrow> sly_value \<Rightarrow> sly_value list \<Rightarrow> unit sly" where
  "union_slots n nt [] = ret ()"
| "union_slots n nt (e # es) =
     bnd (ifM (slot_is_free e) (ret ())
       (bnd (sly_car e) (\<lambda>name. bnd (sly_cdr e) (\<lambda>info2. bnd (dictionary_ref n nt name SLY_VOID) (\<lambda>info1.
        if info1 \<noteq> info2 then bnd (var_info_cat n info1 info2) (dictionary_set n nt name) else ret ()))))) (\<lambda>_.
     union_slots n nt es)"

definition cps_var_tbl_union :: "nat \<Rightarrow> sly_value \<Rightarrow> sly_value \<Rightarrow> sly_value sly" where
  "cps_var_tbl_union n t1 t2 =
     (if void_p t1 then ret t2
      else if void_p t2 then ret t1
      else bnd (dict_of t1 ''Type Error expected dictionary'') (\<lambda>_.
        bnd (dict_of t2 ''Type Error expected dictionary'') (\<lambda>_.
        bnd (copy_dictionary n t1) (\<lambda>nt. bnd (as_dict t2) (\<lambda>(_, slots).
        bnd (union_slots n nt slots) (\<lambda>_. ret nt))))))"

fun propagate_slots :: "nat \<Rightarrow> sly_value \<Rightarrow> sly_value list \<Rightarrow> unit sly" where
  "propagate_slots n nstate [] = ret ()"
| "propagate_slots n nstate (e # es) =
     bnd (ifM (slot_is_free e) (ret ())
       (bnd (sly_car e) (\<lambda>name. bnd (sly_cdr e) (\<lambda>ot. bnd (dictionary_ref n nstate name SLY_VOID) (\<lambda>nt.
        bnd (cps_var_tbl_union n nt ot) (dictionary_set n nstate name)))))) (\<lambda>_.
     propagate_slots n nstate es)"

definition cps_var_info_propagate :: "nat \<Rightarrow> sly_value \<Rightarrow> sly_value \<Rightarrow> sly_value sly" where
  "cps_var_info_propagate n state0 out =
     bnd (dict_of out ''Type Error expected dictionary'') (\<lambda>_.
     bnd (copy_dictionary n state0) (\<lambda>nstate. bnd (as_dict out) (\<lambda>(_, slots).
     bnd (propagate_slots n nstate slots) (\<lambda>_. ret nstate))))"

section \<open>Collection\<close>

text \<open>The arguments are the tables of the program so far and of the continuation before, the value and the label.\<close>

type_synonym collector = "sly_value \<Rightarrow> sly_value \<Rightarrow> sly_value \<Rightarrow> sly_value \<Rightarrow> sly_value sly"

fun define_vars :: "nat \<Rightarrow> nat \<Rightarrow> sly_value \<Rightarrow> sly_value \<Rightarrow> sly_value \<Rightarrow> bool \<Rightarrow> int \<Rightarrow> sly_value \<Rightarrow> unit sly" where
  "define_vars n 0 global_tbl tbl expr isalias w vlist = fail NoFuel"
| "define_vars n (Suc m) global_tbl tbl expr isalias w vlist =
     (if null_p vlist then ret ()
      else bnd (sly_car vlist) (\<lambda>v.
        bnd (cps_var_def_info n tbl v expr False isalias w) (\<lambda>_.
        bnd (cps_var_def_info n global_tbl v expr False isalias w) (\<lambda>_.
        bnd (sly_cdr vlist) (define_vars n m global_tbl tbl expr isalias (w + 1))))))"

fun define_params :: "nat \<Rightarrow> nat \<Rightarrow> sly_value \<Rightarrow> sly_value \<Rightarrow> sly_value \<Rightarrow> unit sly" where
  "define_params n 0 global_tbl tbl req = fail NoFuel"
| "define_params n (Suc m) global_tbl tbl req =
     ifM (pair_p req)
       (bnd (sly_car req) (\<lambda>v.
        bnd (cps_var_def_info n tbl v 0 True False 0) (\<lambda>_. bnd (cps_var_def_info n global_tbl v 0 True False 0) (\<lambda>_.
        bnd (sly_cdr req) (define_params n m global_tbl tbl)))))
       (ret ())"

fun collect_procs :: "nat \<Rightarrow> collector \<Rightarrow> sly_value \<Rightarrow> sly_value \<Rightarrow> sly_value \<Rightarrow> sly_value sly" where
  "collect_procs 0 cv state0 tbl procs = fail NoFuel"
| "collect_procs (Suc m) cv state0 tbl procs =
     (if null_p procs then ret state0
      else bnd (sly_car procs) (\<lambda>p. bnd (as_expr p) (\<lambda>e.
        bnd (case e of EProc k \<Rightarrow> cv state0 tbl p k | _ \<Rightarrow> ret state0) (\<lambda>state1.
        bnd (sly_cdr procs) (collect_procs m cv state1 tbl)))))"

definition collect_continue :: "nat \<Rightarrow> collector \<Rightarrow> sly_value \<Rightarrow> sly_value \<Rightarrow> sly_value \<Rightarrow> sly_value \<Rightarrow> sly_value \<Rightarrow> sly_value \<Rightarrow> sly_value sly" where
  "collect_continue n cv global_tbl state0 tbl expr k nexpr =
     bnd (as_expr nexpr) (\<lambda>e.
     bnd (case e of
         EProc kp \<Rightarrow> cv state0 tbl nexpr kp
       | EFix _ procs \<Rightarrow> bnd (cps_var_info_visit_expr n global_tbl tbl nexpr) (\<lambda>_. collect_procs n cv state0 tbl procs)
       | ESet var _ \<Rightarrow>
           bnd (cps_var_info_set_binding n tbl var expr) (\<lambda>_.
           bnd (cps_var_info_visit_expr n global_tbl tbl nexpr) (\<lambda>_. ret state0))
       | _ \<Rightarrow> bnd (cps_var_info_visit_expr n global_tbl tbl nexpr) (\<lambda>_. ret state0)) (\<lambda>state1.
     cv state1 tbl nexpr k))"

definition collect_branch :: "nat \<Rightarrow> collector \<Rightarrow> sly_value \<Rightarrow> sly_value \<Rightarrow> sly_value \<Rightarrow> sly_value \<Rightarrow> sly_value \<Rightarrow> sly_value \<Rightarrow> sly_value sly" where
  "collect_branch n cv global_tbl state0 tbl var kt kf =
     bnd (used_in_both n global_tbl tbl var) (\<lambda>_.
     bnd (copy_dictionary n state0) (\<lambda>b1. bnd (copy_dictionary n state0) (\<lambda>b2.
     bnd (cv b1 tbl 0 kt) (\<lambda>b1'. bnd (cv b2 tbl 0 kf) (\<lambda>b2'.
     bnd (cps_var_info_propagate n b1' b2') (cps_var_info_propagate n state0))))))"

definition collect_kargs :: "nat \<Rightarrow> collector \<Rightarrow> sly_value \<Rightarrow> sly_value \<Rightarrow> sly_value \<Rightarrow> sly_value \<Rightarrow> sly_value \<Rightarrow> sly_value \<Rightarrow> sly_value \<Rightarrow>
    sly_value sly" where
  "collect_kargs n cv global_tbl state0 prev expr name vars term =
     bnd (copy_dictionary n prev) (\<lambda>tbl.
     bnd (if expr = 0 then ret ()
          else bnd (as_expr expr) (\<lambda>e. case e of
            EFix _ _ \<Rightarrow> ret ()
          | EValues _ \<Rightarrow> define_vars n n global_tbl tbl expr True 0 vars
          | _ \<Rightarrow> define_vars n n global_tbl tbl expr False 0 vars)) (\<lambda>_.
     bnd (dictionary_set n state0 name tbl) (\<lambda>_.
     bnd (as_term term) (\<lambda>t. case t of
       TContinue k nexpr \<Rightarrow> collect_continue n cv global_tbl state0 tbl expr k nexpr
     | TBranch var kt kf \<Rightarrow> collect_branch n cv global_tbl state0 tbl var kt kf))))"

definition collect_kproc :: "nat \<Rightarrow> collector \<Rightarrow> sly_value \<Rightarrow> sly_value \<Rightarrow> sly_value \<Rightarrow> sly_value \<Rightarrow> sly_value \<Rightarrow> sly_value \<Rightarrow> sly_value sly" where
  "collect_kproc n cv global_tbl state0 prev req rest body =
     bnd (copy_dictionary n prev) (\<lambda>tbl.
     bnd (define_params n n global_tbl tbl req) (\<lambda>_.
     bnd (if rest \<noteq> SLY_FALSE then
            bnd (cps_var_def_info n tbl rest 0 True False 0) (\<lambda>_.
            bnd (cps_var_def_info n global_tbl rest 0 True False 0) (\<lambda>_. ret ()))
          else ret ()) (\<lambda>_.
     cv state0 tbl 0 body)))"

fun cps_collect_var_info :: "nat \<Rightarrow> sly_value \<Rightarrow> sly_value \<Rightarrow> collector" where
  "cps_collect_var_info 0 graph global_tbl state0 prev expr k = fail NoFuel"
| "cps_collect_var_info (Suc n) graph global_tbl state0 prev expr k =
     (let cv = cps_collect_var_info n graph global_tbl in
      bnd (cps_graph_ref n graph k) (\<lambda>kont. bnd (as_kont kont) (\<lambda>(name, u). case u of
        KArgs vars term \<Rightarrow> collect_kargs n cv global_tbl state0 prev expr name vars term
      | KReceive _ _ kk \<Rightarrow> cv state0 prev expr kk
      | KProc req rest _ _ body \<Rightarrow> collect_kproc n cv global_tbl state0 prev req rest body
      | KTail \<Rightarrow> ret state0)))"

text \<open>The counts of all the alternatives together.\<close>

fun var_info_sum :: "nat \<Rightarrow> sly_value \<Rightarrow> int sly" where
  "var_info_sum 0 v = fail NoFuel"
| "var_info_sum (Suc n) v =
     (if v = 0 then ret 0
      else bnd (as_var_info v) (\<lambda>vi. bnd (var_info_sum n (vi_alt vi)) (\<lambda>k.
        ret (vi_used vi + vi_escapes vi + vi_updates vi + k))))"

definition var_is_dead :: "nat \<Rightarrow> sly_value \<Rightarrow> sly_value \<Rightarrow> bool sly" where
  "var_is_dead n var_info var =
     (if void_p var_info then ret False
      else bnd (dictionary_ref n var_info var SLY_VOID) (\<lambda>s.
        if void_p s then ret False else bnd (var_info_sum n s) (\<lambda>k. ret (k = 0))))"

definition var_is_used_once :: "nat \<Rightarrow> sly_value \<Rightarrow> sly_value \<Rightarrow> bool sly" where
  "var_is_used_once n var_info var =
     bnd (dictionary_ref n var_info var SLY_VOID) (\<lambda>s.
     if void_p s then ret False
     else bnd (as_var_info s) (\<lambda>vi. ret (vi_alt vi = 0 \<and> vi_escapes vi = 0 \<and> vi_used vi = 1)))"

end
