(* ===== verification/Sly_CPS_Fold.thy ===== *)
theory Sly_CPS_Fold
  imports Sly_CPS_Info
begin

text \<open>
  Constant folding (src/cps.c).  The pass gives a new graph and changes some objects of the old one in place.
\<close>

section \<open>Clicks and fields\<close>

definition CLICK :: "unit sly" where
  "CLICK = modify (\<lambda>s. s\<lparr>click_delta := click_delta s + 1\<rparr>)"

definition CLICK_RESET :: "nat sly" where
  "CLICK_RESET = bnd (gets click_delta) (\<lambda>d. bnd (modify (\<lambda>s. s\<lparr>click_delta := 0\<rparr>)) (\<lambda>_. ret d))"

text \<open>\<open>u.cont.k\<close> and \<open>u.cont.expr\<close>, which a branch has its own fields in the place of.\<close>

fun term_k :: "cps_term \<Rightarrow> sly_value" where
  "term_k (TContinue k expr) = k"
| "term_k (TBranch var kt kf) = var"

fun term_expr :: "cps_term \<Rightarrow> sly_value" where
  "term_expr (TContinue k expr) = expr"
| "term_expr (TBranch var kt kf) = kt"

text \<open>The first word of an expression: \<open>u.proc.k\<close> of one that is not a procedure.\<close>

fun expr_word :: "cps_expr \<Rightarrow> sly_value" where
  "expr_word (EConst v) = v"
| "expr_word (ECall proc args) = proc"
| "expr_word (EKcall proc label args) = proc"
| "expr_word (EProc k) = k"
| "expr_word (EPrim name) = name"
| "expr_word (EPrimcall prim args) = prim"
| "expr_word (EValues args) = args"
| "expr_word (EMakeRecord i) = word_of_int i"
| "expr_word (ERecord vs) = vs"
| "expr_word (ERecordSet r v f) = r"
| "expr_word (ESelect r f) = r"
| "expr_word (EOffset r i) = r"
| "expr_word (ECode l) = l"
| "expr_word (EBox v) = v"
| "expr_word (EUnbox v) = v"
| "expr_word (ESet var v) = var"
| "expr_word (EFix names procs) = names"

definition set_kont_term :: "sly_value \<Rightarrow> sly_value \<Rightarrow> unit sly" where
  "set_kont_term k t =
     bnd (as_kont k) (\<lambda>(name, u). case u of
       KArgs vars _ \<Rightarrow> sly_obj_set k (SKont name (KArgs vars t))
     | _ \<Rightarrow> fail (UB ''continuation of another type''))"

section \<open>Expressions\<close>

datatype prim =
    tt_prim_void | tt_prim_add | tt_prim_sub | tt_prim_mul | tt_prim_div | tt_prim_idiv | tt_prim_mod
  | tt_prim_bw_and | tt_prim_bw_ior | tt_prim_bw_xor | tt_prim_bw_eqv | tt_prim_bw_nor | tt_prim_bw_nand
  | tt_prim_bw_not | tt_prim_bw_shift | tt_prim_eq | tt_prim_eqv | tt_prim_equal | tt_prim_num_eq
  | tt_prim_less | tt_prim_gr | tt_prim_leq | tt_prim_geq | tt_prim_cons | tt_prim_car | tt_prim_cdr
  | tt_prim_list | tt_prim_vector | tt_prim_vector_ref | tt_prim_vector_set

definition prim_order :: "prim list" where
  "prim_order =
     [tt_prim_void, tt_prim_add, tt_prim_sub, tt_prim_mul, tt_prim_div, tt_prim_idiv, tt_prim_mod,
      tt_prim_bw_and, tt_prim_bw_ior, tt_prim_bw_xor, tt_prim_bw_eqv, tt_prim_bw_nor, tt_prim_bw_nand,
      tt_prim_bw_not, tt_prim_bw_shift, tt_prim_eq, tt_prim_eqv, tt_prim_equal, tt_prim_num_eq,
      tt_prim_less, tt_prim_gr, tt_prim_leq, tt_prim_geq, tt_prim_cons, tt_prim_car, tt_prim_cdr,
      tt_prim_list, tt_prim_vector, tt_prim_vector_ref, tt_prim_vector_set]"

text \<open>The constants of the operands, or none when one is not known.\<close>

fun const_args :: "nat \<Rightarrow> nat \<Rightarrow> (sly_value \<Rightarrow> sly_value option sly) \<Rightarrow> sly_value \<Rightarrow> sly_value \<Rightarrow> sly_value option sly" where
  "const_args n 0 get vals args = fail NoFuel"
| "const_args n (Suc m) get vals args =
     (if null_p args then ret (Some vals)
      else bnd (bnd (sly_car args) get) (\<lambda>r. case r of
          None \<Rightarrow> ret None
        | Some v \<Rightarrow> bnd (sly_cons v SLY_NULL) (\<lambda>l. bnd (list_append n vals l) (\<lambda>vals'.
            bnd (sly_cdr args) (const_args n m get vals')))))"

definition known_const :: "nat \<Rightarrow> sly_value \<Rightarrow> sly_value \<Rightarrow> sly_value option sly" where
  "known_const n var_info var = bnd (cps_get_const n var_info var) (\<lambda>v. ret (if void_p v then None else Some v))"

definition known_number :: "nat \<Rightarrow> sly_value \<Rightarrow> sly_value \<Rightarrow> sly_value option sly" where
  "known_number n var_info var = bnd (cps_get_const_number n var_info var) (\<lambda>v. ret (if v = SLY_FALSE then None else Some v))"

definition known_int :: "nat \<Rightarrow> sly_value \<Rightarrow> sly_value \<Rightarrow> sly_value option sly" where
  "known_int n var_info var =
     bnd (known_number n var_info var) (\<lambda>r. case r of None \<Rightarrow> ret None | Some v \<Rightarrow> ifM (int_p v) (ret (Some v)) (ret None))"

definition check_arity :: "nat \<Rightarrow> sly_value \<Rightarrow> nat \<Rightarrow> unit sly" where
  "check_arity n args k = bnd (list_len n args) (\<lambda>len. check (len = k) ''Error arity mismatch'')"

definition fold_call :: "nat \<Rightarrow> nat \<Rightarrow> sly_value \<Rightarrow> sly_value \<Rightarrow> sly_value sly" where
  "fold_call n op expr vals =
     (case snd (primops n ! op) of
        None \<Rightarrow> ret expr
      | Some fn \<Rightarrow> bnd cps_new_expr (\<lambda>e. bnd (fn vals) (\<lambda>v. bnd (set_expr e (EConst v)) (\<lambda>_. ret e))))"

definition fold_known :: "nat \<Rightarrow> nat \<Rightarrow> sly_value \<Rightarrow> sly_value option sly \<Rightarrow> sly_value sly" where
  "fold_known n op expr m = bnd m (\<lambda>r. case r of None \<Rightarrow> ret expr | Some vals \<Rightarrow> fold_call n op expr vals)"

definition fold_two :: "nat \<Rightarrow> sly_value \<Rightarrow> sly_value \<Rightarrow> sly_value \<Rightarrow> (sly_value \<Rightarrow> sly_value \<Rightarrow> sly_value sly) \<Rightarrow> sly_value sly" where
  "fold_two n var_info expr args f =
     bnd (check_arity n args 2) (\<lambda>_.
     bnd (bnd (sly_car args) (known_const n var_info)) (\<lambda>r1. case r1 of None \<Rightarrow> ret expr | Some v1 \<Rightarrow>
     bnd (bnd (cadr args) (known_const n var_info)) (\<lambda>r2. case r2 of None \<Rightarrow> ret expr | Some v2 \<Rightarrow>
     bnd cps_new_expr (\<lambda>e. bnd (f v1 v2) (\<lambda>v. bnd (set_expr e (EConst v)) (\<lambda>_. ret e))))))"

definition fold_pair_field :: "nat \<Rightarrow> sly_value \<Rightarrow> sly_value \<Rightarrow> sly_value \<Rightarrow> (sly_value \<Rightarrow> sly_value sly) \<Rightarrow> sly_value sly" where
  "fold_pair_field n var_info expr args f =
     bnd (check_arity n args 1) (\<lambda>_.
     bnd (bnd (sly_car args) (cps_get_const n var_info)) (\<lambda>v.
     ifM (pair_p v)
       (bnd cps_new_expr (\<lambda>e. bnd (f v) (\<lambda>x. bnd (set_expr e (EConst x)) (\<lambda>_. ret e))))
       (ret expr)))"

definition fold_list :: "nat \<Rightarrow> sly_value \<Rightarrow> sly_value \<Rightarrow> sly_value \<Rightarrow> sly_value sly" where
  "fold_list n var_info expr args =
     bnd (const_args n n (known_const n var_info) SLY_NULL args) (\<lambda>r. case r of
       None \<Rightarrow> ret expr
     | Some vals \<Rightarrow> bnd cps_new_expr (\<lambda>e. bnd (set_expr e (EConst vals)) (\<lambda>_. ret e)))"

definition numeric_prims :: "prim list" where
  "numeric_prims = [tt_prim_add, tt_prim_sub, tt_prim_mul, tt_prim_div, tt_prim_idiv, tt_prim_num_eq, tt_prim_less,
     tt_prim_gr, tt_prim_leq, tt_prim_geq]"

definition fold_primcall :: "nat \<Rightarrow> sly_value \<Rightarrow> sly_value \<Rightarrow> nat \<Rightarrow> sly_value \<Rightarrow> sly_value sly" where
  "fold_primcall n var_info expr op args =
     (let p = prim_order ! op in
      if p \<in> set numeric_prims then fold_known n op expr (const_args n n (known_number n var_info) SLY_NULL args)
      else if p = tt_prim_mod then
        bnd (check_arity n args 2) (\<lambda>_. fold_known n op expr (const_args n n (known_int n var_info) SLY_NULL args))
      else if p = tt_prim_eq then fold_two n var_info expr args (\<lambda>x y. truth (sly_eq x y))
      else if p = tt_prim_eqv then fold_two n var_info expr args (\<lambda>x y. truth (sly_eqv x y))
      else if p = tt_prim_equal then fold_two n var_info expr args (\<lambda>x y. truth (sly_equal n x y))
      else if p = tt_prim_cons then fold_two n var_info expr args sly_cons
      else if p = tt_prim_car then fold_pair_field n var_info expr args sly_car
      else if p = tt_prim_cdr then fold_pair_field n var_info expr args sly_cdr
      else if p = tt_prim_list then fold_list n var_info expr args
      else if p = tt_prim_vector then fold_known n op expr (const_args n n (known_const n var_info) SLY_NULL args)
      else fold_call n op expr SLY_NULL)"

definition cps_opt_constant_folding_visit_expr :: "nat \<Rightarrow> sly_value \<Rightarrow> sly_value \<Rightarrow> sly_value sly" where
  "cps_opt_constant_folding_visit_expr n var_info expr =
     bnd (as_expr expr) (\<lambda>e. case e of
       EPrimcall prim args \<Rightarrow>
         bnd (primop_p n prim) (\<lambda>p. case p of
           None \<Rightarrow> fail (UB ''index of no primitive'')
         | Some op \<Rightarrow> fold_primcall n var_info expr op args)
     | _ \<Rightarrow> ret expr)"

fun expr_has_no_possible_side_effect :: "cps_expr \<Rightarrow> bool" where
  "expr_has_no_possible_side_effect (EConst v) = True"
| "expr_has_no_possible_side_effect (EProc k) = True"
| "expr_has_no_possible_side_effect (EPrim name) = True"
| "expr_has_no_possible_side_effect (EValues args) = True"
| "expr_has_no_possible_side_effect e = False"

fun list_remove_idx :: "sly_value \<Rightarrow> nat \<Rightarrow> sly_value sly" where
  "list_remove_idx lst 0 = bnd (check (\<not> null_p lst) ''Error list out of bounds'') (\<lambda>_. sly_cdr lst)"
| "list_remove_idx lst (Suc i) =
     bnd (check (\<not> null_p lst) ''Error list out of bounds'') (\<lambda>_.
     bnd (sly_car lst) (\<lambda>a. bnd (sly_cdr lst) (\<lambda>d. bnd (list_remove_idx d i) (sly_cons a))))"

section \<open>Continuations\<close>

text \<open>The pass on a label, with the graph and the tables fixed; it gives the part of the new graph below.\<close>

type_synonym folder = "sly_value \<Rightarrow> sly_value sly"

definition join_graph :: "nat \<Rightarrow> sly_value \<Rightarrow> sly_value sly \<Rightarrow> sly_value sly" where
  "join_graph n ng m = bnd m (dictionary_union n ng)"

definition fold_branch :: "nat \<Rightarrow> folder \<Rightarrow> sly_value \<Rightarrow> sly_value \<Rightarrow> sly_value \<Rightarrow> sly_value \<Rightarrow> sly_value \<Rightarrow> sly_value \<Rightarrow> sly_value \<Rightarrow> sly_value sly" where
  "fold_branch n cf info k kont ng var kt kf =
     bnd (cps_get_const n info var) (\<lambda>v.
     if void_p v then bnd (join_graph n ng (cf kt)) (\<lambda>ng'. join_graph n ng' (cf kf))
     else
       bnd (cps_copy_kont kont) (\<lambda>nk.
       bnd (dictionary_set n ng k nk) (\<lambda>_.
       bnd (as_kont nk) (\<lambda>(_, u).
       let target = (if v = SLY_FALSE then kf else kt) in
       bnd (new_continue target) (\<lambda>(t, e).
       bnd (set_kont_term nk t) (\<lambda>_.
       bnd (set_expr e (EValues (kont_vars u))) (\<lambda>_.
       join_graph n ng (cf target))))))))"

text \<open>
  The names of a fix: those that are dead are removed, together with the variables of the continuation
  \<open>next\<close>; the procedures of the others are visited.  \<open>proc_of\<close> gives the label of a procedure to visit.
\<close>

text \<open>What the pass prints of a fix; a name is a symbol, so no text of a double is needed.\<close>

definition here_note :: "nat \<Rightarrow> sly_value \<Rightarrow> unit sly" where
  "here_note n name = bnd (put (cstr ''HERE'' @ [10])) (\<lambda>_. sly_displayln n (\<lambda>_. []) name)"

fun kont_type :: "cps_kont_u \<Rightarrow> int" where
  "kont_type (KArgs vars term) = 19"
| "kont_type (KReceive req rest k) = 20"
| "kont_type (KProc req rest binding tail body) = 21"
| "kont_type KTail = 22"

fun fold_names :: "nat \<Rightarrow> nat \<Rightarrow> (sly_value \<Rightarrow> unit sly) \<Rightarrow> folder \<Rightarrow> (cps_expr \<Rightarrow> sly_value option) \<Rightarrow> sly_value \<Rightarrow> sly_value \<Rightarrow> sly_value \<Rightarrow> nat \<Rightarrow>
    sly_value \<Rightarrow> sly_value \<Rightarrow> sly_value \<Rightarrow> sly_value sly" where
  "fold_names n 0 note cf proc_of gvi expr next idx ng names procs = fail NoFuel"
| "fold_names n (Suc m) note cf proc_of gvi expr next idx ng names procs =
     (if null_p names then ret ng
      else bnd (sly_car names) (\<lambda>name.
        bnd (ifM (var_is_dead n gvi name)
            (bnd (note name) (\<lambda>_. bnd CLICK (\<lambda>_. bnd (as_expr expr) (\<lambda>e. case e of
               EFix ns ps \<Rightarrow>
                 bnd (list_remove_idx ns idx) (\<lambda>ns'. bnd (set_expr expr (EFix ns' ps)) (\<lambda>_.
                 bnd (list_remove_idx ps idx) (\<lambda>ps'. bnd (set_expr expr (EFix ns' ps')) (\<lambda>_.
                 bnd (as_kont next) (\<lambda>(_, u). bnd (list_remove_idx (kont_vars u) idx) (\<lambda>vs.
                 bnd (set_kont_vars next vs) (\<lambda>_. ret (ng, idx))))))))
             | _ \<Rightarrow> fail (UB ''object of another type'')))))
            (bnd (sly_car procs) (\<lambda>p. bnd (as_expr p) (\<lambda>pe.
             bnd (case proc_of pe of Some k \<Rightarrow> join_graph n ng (cf k) | None \<Rightarrow> ret ng) (\<lambda>ng'. ret (ng', idx + 1))))))
          (\<lambda>(ng', idx').
        bnd (sly_cdr names) (\<lambda>names'. bnd (sly_cdr procs) (fold_names n m note cf proc_of gvi expr next idx' ng' names')))))"

text \<open>
  A fix before what follows: the new graph, and whether the pass ends here.  Without names the term
  becomes a copy of the next one, in place.
\<close>

definition fold_fix :: "nat \<Rightarrow> folder \<Rightarrow> sly_value \<Rightarrow> sly_value \<Rightarrow> sly_value \<Rightarrow> sly_value \<Rightarrow> sly_value \<Rightarrow> sly_value \<Rightarrow> sly_value \<Rightarrow>
    (sly_value \<times> bool) sly" where
  "fold_fix n cf gvi term expr next ng names procs =
     (if null_p names then
        bnd CLICK (\<lambda>_. bnd (as_kont next) (\<lambda>(name, u).
        bnd (put (cstr ''next->type = '' @ dec_text (kont_type u) @ [10])) (\<lambda>_. case u of
          KArgs _ nterm \<Rightarrow> bnd (as_term nterm) (\<lambda>t. bnd (sly_obj_set term (STerm t)) (\<lambda>_. ret (ng, False)))
        | KTail \<Rightarrow>
            bnd (cps_graph_set n ng name next) (\<lambda>_.
            bnd cps_new_expr (\<lambda>e. bnd (as_term term) (\<lambda>t.
            bnd (sly_obj_set term (STerm (TContinue (term_k t) e))) (\<lambda>_.
            bnd (set_expr e (EConst SLY_VOID)) (\<lambda>_. ret (ng, True))))))
        | _ \<Rightarrow> ret (ng, False))))
      else
        bnd (fold_names n n (here_note n) cf (\<lambda>p. case p of EProc k \<Rightarrow> Some k | _ \<Rightarrow> None) gvi expr next 0 ng names procs) (\<lambda>ng'.
        ret (ng', False)))"

text \<open>A call whose result is only passed to the end becomes a tail call.\<close>

definition fold_tail_call :: "nat \<Rightarrow> folder \<Rightarrow> sly_value \<Rightarrow> sly_value \<Rightarrow> sly_value \<Rightarrow> sly_value \<Rightarrow> sly_value option sly" where
  "fold_tail_call n cf graph term ng kk =
     bnd (cps_graph_ref n graph kk) (\<lambda>kr. bnd (as_kont kr) (\<lambda>(_, u). case u of
       KArgs kvars kterm \<Rightarrow> bnd (as_term kterm) (\<lambda>t. case t of
         TContinue kk2 e2 \<Rightarrow>
           bnd (cps_graph_ref n graph kk2) (\<lambda>kt. bnd (as_kont kt) (\<lambda>(tname, tu). bnd (as_expr e2) (\<lambda>ex.
           case (tu, ex) of
             (KTail, EValues vargs) \<Rightarrow>
               ifM (sly_equal n kvars vargs)
                 (bnd CLICK (\<lambda>_. bnd (as_term term) (\<lambda>t0.
                  bnd (sly_obj_set term (STerm (case t0 of TContinue _ e \<Rightarrow> TContinue tname e | TBranch _ kt kf \<Rightarrow> TBranch tname kt kf))) (\<lambda>_.
                  bnd (join_graph n ng (cf tname)) (\<lambda>g. ret (Some g))))))
                 (ret None)
           | _ \<Rightarrow> ret None)))
       | TBranch _ _ _ \<Rightarrow> ret None)
     | _ \<Rightarrow> ret None))"

text \<open>A value that nothing uses: its continuation's term is done in its place.\<close>

definition fold_unused :: "nat \<Rightarrow> folder \<Rightarrow> sly_value \<Rightarrow> sly_value \<Rightarrow> sly_value \<Rightarrow> sly_value \<Rightarrow> sly_value \<Rightarrow> sly_value \<Rightarrow> sly_value \<Rightarrow> sly_value sly" where
  "fold_unused n cf gvi info k new_kont ng next nterm =
     bnd (set_kont_term new_kont nterm) (\<lambda>_.
     bnd CLICK (\<lambda>_.
     bnd (as_term nterm) (\<lambda>t. case t of
       TBranch var kt kf \<Rightarrow> fold_branch n cf info k new_kont ng var kt kf
     | TContinue tk expr \<Rightarrow>
         bnd (as_expr expr) (\<lambda>e.
         bnd (case e of
             EProc kp \<Rightarrow> join_graph n ng (cf kp)
           | EFix names procs \<Rightarrow>
               if null_p names then bnd CLICK (\<lambda>_. ret ng)
               else fold_names n n (\<lambda>_. ret ()) cf (\<lambda>p. Some (expr_word p)) gvi expr next 0 ng names procs
           | _ \<Rightarrow> ret ng) (\<lambda>ng'.
         bnd (as_term nterm) (\<lambda>t'. join_graph n ng' (cf (term_k t'))))))))"

text \<open>
  What may still be done with an expression that is no constant.  The source has two further cases, for
  \<open>values\<close>, which the case of an expression without side effects has already taken: they are never reached.
\<close>

definition fold_rest :: "nat \<Rightarrow> folder \<Rightarrow> sly_value \<Rightarrow> sly_value \<Rightarrow> sly_value \<Rightarrow> sly_value \<Rightarrow> sly_value \<Rightarrow> sly_value \<Rightarrow> sly_value \<Rightarrow> cps_expr \<Rightarrow> sly_value sly" where
  "fold_rest n cf graph gvi info k new_kont term ng e =
     (let go_on = bnd (as_term term) (\<lambda>t. join_graph n ng (cf (term_k t))) in
      bnd (as_kont new_kont) (\<lambda>(_, nu). case nu of
        KArgs _ nkterm \<Rightarrow>
          bnd (as_term nkterm) (\<lambda>t0.
          bnd (cps_graph_ref n graph (term_k t0)) (\<lambda>next. bnd (as_kont next) (\<lambda>(_, u). case u of
            KReceive req rest kk \<Rightarrow>
              bnd (list_len n req) (\<lambda>len.
              case e of
                ECall _ _ \<Rightarrow>
                  if len = 1 \<and> rest = SLY_FALSE then
                    bnd (fold_tail_call n cf graph term ng kk) (\<lambda>r. case r of Some g \<Rightarrow> ret g | None \<Rightarrow> go_on)
                  else go_on
              | _ \<Rightarrow> go_on)
          | KArgs nvars nterm \<Rightarrow>
              (case e of
                 ESet _ _ \<Rightarrow>
                   bnd (list_len n nvars) (\<lambda>len.
                   bnd (if len = 1 then bnd (sly_car nvars) (var_is_dead n gvi) else ret False) (\<lambda>dead.
                   if dead then bnd CLICK (\<lambda>_. bnd (set_kont_vars next SLY_NULL) (\<lambda>_. go_on)) else go_on))
               | _ \<Rightarrow>
                   if expr_has_no_possible_side_effect e then
                     bnd (list_len n nvars) (\<lambda>len.
                     bnd (if len = 1 then bnd (sly_car nvars) (var_is_dead n gvi) else ret False) (\<lambda>dead.
                     if dead then fold_unused n cf gvi info k new_kont ng next nterm else go_on))
                   else go_on)
          | _ \<Rightarrow> go_on)))
      | _ \<Rightarrow> fail (UB ''continuation of another type'')))"

definition fold_continue :: "nat \<Rightarrow> folder \<Rightarrow> sly_value \<Rightarrow> sly_value \<Rightarrow> sly_value \<Rightarrow> sly_value \<Rightarrow> sly_value \<Rightarrow> sly_value \<Rightarrow> sly_value \<Rightarrow>
    sly_value \<Rightarrow> sly_value \<Rightarrow> sly_value sly" where
  "fold_continue n cf graph gvi info k kont ng term tk texpr =
     bnd (cps_opt_constant_folding_visit_expr n info texpr) (\<lambda>expr.
     bnd (cps_copy_kont kont) (\<lambda>new_kont.
     bnd (dictionary_set n ng k new_kont) (\<lambda>_.
     if expr \<noteq> texpr then
       bnd CLICK (\<lambda>_. bnd cps_new_term (\<lambda>t. bnd (set_kont_term new_kont t) (\<lambda>_.
       bnd (cps_graph_ref n graph tk) (\<lambda>receive. bnd (as_kont receive) (\<lambda>(_, u).
       let k' = (case u of KReceive _ _ kk \<Rightarrow> kk | _ \<Rightarrow> tk) in
       bnd (sly_obj_set t (STerm (TContinue k' expr))) (\<lambda>_. join_graph n ng (cf k')))))))
     else
       bnd (as_expr expr) (\<lambda>e.
       bnd (case e of EProc kp \<Rightarrow> join_graph n ng (cf kp) | _ \<Rightarrow> ret ng) (\<lambda>ng1.
       bnd (cps_graph_ref n graph tk) (\<lambda>next.
       bnd (case e of EFix names procs \<Rightarrow> fold_fix n cf gvi term expr next ng1 names procs | _ \<Rightarrow> ret (ng1, False))
         (\<lambda>(ng2, done).
       if done then ret ng2
       else bnd (as_expr expr) (\<lambda>e'. fold_rest n cf graph gvi info k new_kont term ng2 e')))))))) "

fun cps_opt_constant_folding :: "nat \<Rightarrow> sly_value \<Rightarrow> sly_value \<Rightarrow> sly_value \<Rightarrow> folder" where
  "cps_opt_constant_folding 0 graph gvi var_info k = fail NoFuel"
| "cps_opt_constant_folding (Suc n) graph gvi var_info k =
     (let cf = cps_opt_constant_folding n graph gvi var_info in
      bnd (cps_graph_ref n graph k) (\<lambda>kont.
      bnd make_dictionary (\<lambda>ng. bnd (cps_graph_set n ng k kont) (\<lambda>_.
      bnd (as_kont kont) (\<lambda>(_, u). case u of
        KArgs vars term \<Rightarrow>
          bnd (dictionary_ref n var_info k SLY_VOID) (\<lambda>info.
          bnd (check (\<not> void_p info) ''Error No var info'') (\<lambda>_.
          bnd (as_term term) (\<lambda>t. case t of
            TContinue tk texpr \<Rightarrow> fold_continue n cf graph gvi info k kont ng term tk texpr
          | TBranch var kt kf \<Rightarrow> fold_branch n cf info k kont ng var kt kf)))
      | KReceive _ _ kk \<Rightarrow> join_graph n ng (cf kk)
      | KProc _ _ _ _ body \<Rightarrow> join_graph n ng (cf body)
      | KTail \<Rightarrow> ret ng)))))"

end
