(* ===== verification/Sly_CPS_Inline.thy ===== *)
theory Sly_CPS_Inline
  imports Sly_CPS_Fold
begin

text \<open>
  Aliases, inlining and free variables (src/cps.c).  What the passes print while they work is left out; arguments
  are evaluated from left to right.
\<close>

section \<open>Aliases\<close>

fun cps_get_alias :: "nat \<Rightarrow> sly_value \<Rightarrow> sly_value \<Rightarrow> sly_value sly" where
  "cps_get_alias 0 info name = fail NoFuel"
| "cps_get_alias (Suc n) info name =
     bnd (dictionary_ref n info name SLY_VOID) (\<lambda>s.
     if void_p s then ret name
     else bnd (as_var_info s) (\<lambda>vi.
       if vi_isalias vi then
         bnd (as_expr (vi_binding vi)) (\<lambda>e. case e of
           EValues args \<Rightarrow> bnd (list_ref args (nat (vi_which vi))) (cps_get_alias n info)
         | _ \<Rightarrow> fail (Assert ''Error expected values''))
       else ret name))"

fun map_list :: "nat \<Rightarrow> (sly_value \<Rightarrow> sly_value sly) \<Rightarrow> sly_value \<Rightarrow> sly_value sly" where
  "map_list 0 f lst = fail NoFuel"
| "map_list (Suc n) f lst =
     (if null_p lst then ret lst
      else bnd (bnd (sly_car lst) f) (\<lambda>x. bnd (bnd (sly_cdr lst) (map_list n f)) (sly_cons x)))"

definition cps_map_aliases :: "nat \<Rightarrow> sly_value \<Rightarrow> sly_value \<Rightarrow> sly_value sly" where
  "cps_map_aliases n info = map_list n (cps_get_alias n info)"

fun each_proc :: "nat \<Rightarrow> (sly_value \<Rightarrow> unit sly) \<Rightarrow> sly_value \<Rightarrow> unit sly" where
  "each_proc 0 f procs = fail NoFuel"
| "each_proc (Suc m) f procs =
     (if null_p procs then ret ()
      else bnd (sly_car procs) (\<lambda>p. bnd (as_expr p) (\<lambda>e.
        bnd (case e of EProc k \<Rightarrow> f k | _ \<Rightarrow> ret ()) (\<lambda>_. bnd (sly_cdr procs) (each_proc m f)))))"

definition alias_expr :: "nat \<Rightarrow> (sly_value \<Rightarrow> unit sly) \<Rightarrow> sly_value \<Rightarrow> sly_value \<Rightarrow> unit sly" where
  "alias_expr n rs info expr =
     bnd (as_expr expr) (\<lambda>e. case e of
       ECall proc args \<Rightarrow>
         bnd (cps_get_alias n info proc) (\<lambda>proc'. bnd (cps_map_aliases n info args) (\<lambda>args'. set_expr expr (ECall proc' args')))
     | EKcall _ _ _ \<Rightarrow> fail (Assert ''unimplemented'')
     | EProc k \<Rightarrow> rs k
     | EPrimcall prim args \<Rightarrow> bnd (cps_map_aliases n info args) (\<lambda>args'. set_expr expr (EPrimcall prim args'))
     | EValues args \<Rightarrow> bnd (cps_map_aliases n info args) (\<lambda>args'. set_expr expr (EValues args'))
     | ESet var v \<Rightarrow>
         bnd (cps_get_alias n info v) (\<lambda>v'. bnd (cps_get_alias n info var) (\<lambda>var'. set_expr expr (ESet var' v')))
     | EFix _ procs \<Rightarrow> each_proc n rs procs
     | _ \<Rightarrow> ret ())"

fun cps_opt_resolve_aliases :: "nat \<Rightarrow> sly_value \<Rightarrow> sly_value \<Rightarrow> sly_value \<Rightarrow> unit sly" where
  "cps_opt_resolve_aliases 0 graph var_info k = fail NoFuel"
| "cps_opt_resolve_aliases (Suc n) graph var_info k =
     (let rs = cps_opt_resolve_aliases n graph var_info in
      bnd (cps_graph_ref n graph k) (\<lambda>kont. bnd (as_kont kont) (\<lambda>(_, u). case u of
        KArgs _ term \<Rightarrow>
          bnd (as_term term) (\<lambda>t.
          bnd (dictionary_ref n var_info k SLY_VOID) (\<lambda>info.
          bnd (check (\<not> void_p info) ''No var info found for continuation'') (\<lambda>_. case t of
            TContinue kk expr \<Rightarrow> bnd (alias_expr n rs info expr) (\<lambda>_. rs kk)
          | TBranch var kt kf \<Rightarrow>
              bnd (cps_get_alias n info var) (\<lambda>var'.
              bnd (sly_obj_set term (STerm (TBranch var' kt kf))) (\<lambda>_. bnd (rs kt) (\<lambda>_. rs kf))))))
      | KReceive _ _ kk \<Rightarrow> rs kk
      | KProc _ _ _ _ body \<Rightarrow> rs body
      | KTail \<Rightarrow> ret ())))"

section \<open>Inlining\<close>

fun replace_ktails :: "nat \<Rightarrow> sly_value \<Rightarrow> sly_value \<Rightarrow> sly_value \<Rightarrow> sly_value \<Rightarrow> sly_value sly" where
  "replace_ktails 0 graph ktail kreplace k = fail NoFuel"
| "replace_ktails (Suc n) graph ktail kreplace k =
     (let rep = replace_ktails n graph ktail kreplace in
      bnd (cps_graph_ref n graph k) (\<lambda>kont. bnd (as_kont kont) (\<lambda>(name, u). case u of
        KArgs _ term \<Rightarrow>
          bnd (as_term term) (\<lambda>t. case t of
            TContinue kk expr \<Rightarrow>
              bnd (rep kk) (\<lambda>kk'. bnd (sly_obj_set term (STerm (TContinue kk' expr))) (\<lambda>_. ret k))
          | TBranch var kt kf \<Rightarrow>
              bnd (rep kt) (\<lambda>kt'. bnd (sly_obj_set term (STerm (TBranch var kt' kf))) (\<lambda>_.
              bnd (rep kf) (\<lambda>kf'. bnd (sly_obj_set term (STerm (TBranch var kt' kf'))) (\<lambda>_. ret k)))))
      | KReceive req rest kk \<Rightarrow>
          bnd (rep kk) (\<lambda>kk'. bnd (sly_obj_set kont (SKont name (KReceive req rest kk'))) (\<lambda>_. ret k))
      | KProc _ _ _ _ _ \<Rightarrow> fail (Assert ''unimplemented'')
      | KTail \<Rightarrow> bnd (expect (sly_eq ktail k) ''Error unexpected ktail'') (\<lambda>_. ret kreplace))))"

definition kont_term :: "sly_value \<Rightarrow> sly_value sly" where
  "kont_term k = bnd (as_kont k) (\<lambda>(_, u). case u of KArgs _ term \<Rightarrow> ret term | _ \<Rightarrow> fail (UB ''continuation of another type''))"

text \<open>
  The continuation \<open>kont\<close> goes on to \<open>next\<close>, which binds one variable to \<open>expr\<close>; where \<open>next\<close> goes is filled
  in later, unless it is \<open>cc\<close>.
\<close>

definition bind_next :: "sly_value \<Rightarrow> sly_value \<Rightarrow> sly_value \<Rightarrow> cps_expr \<Rightarrow> (sly_value \<times> sly_value) sly" where
  "bind_next kont cc var ex =
     bnd cps_new_expr (\<lambda>expr. bnd (set_expr expr ex) (\<lambda>_.
     bnd cps_new_term (\<lambda>t. bnd (sly_obj_set t (STerm (TContinue cc 0))) (\<lambda>_.
     bnd cps_gensym_label_name (\<lambda>label. bnd (make_list [var]) (\<lambda>vs. bnd (cps_make_kargs label t vs) (\<lambda>next.
     bnd (kont_term kont) (\<lambda>term. bnd (sly_obj_set term (STerm (TContinue label expr))) (\<lambda>_. ret (label, next))))))))))"

text \<open>
  The result is the last continuation made.  The one that binds an empty rest is not put into the graph, as
  in the source.
\<close>

fun bind_args_to_k :: "nat \<Rightarrow> sly_value \<Rightarrow> sly_value \<Rightarrow> sly_value \<Rightarrow> sly_value \<Rightarrow> sly_value \<Rightarrow> sly_value \<Rightarrow> sly_value \<Rightarrow> sly_value sly" where
  "bind_args_to_k 0 graph kont cc args vars req rest = fail NoFuel"
| "bind_args_to_k (Suc n) graph kont cc args vars req rest =
     bnd (list_len n args) (\<lambda>nargs. bnd (list_len n req) (\<lambda>nreq.
     bnd (check (nreq \<le> nargs) ''Error arity mismatch'') (\<lambda>_.
     bnd (as_kont kont) (\<lambda>(name, _).
     bnd (dictionary_set n graph name kont) (\<lambda>_.
     if nreq = 0 then
       if rest = SLY_FALSE then
         bnd (kont_term kont) (\<lambda>term. bnd (sly_obj_set term (STerm (TContinue cc 0))) (\<lambda>_. ret kont))
       else bnd (sly_car vars) (\<lambda>var. bnd (sly_cdr vars) (\<lambda>_.
         if nargs = 0 then
           bnd (bind_next kont cc var (EConst SLY_NULL)) (\<lambda>(_, next). ret next)
         else
           bnd (gets primop_names) (\<lambda>names.
           bnd (bind_next kont cc var (EPrimcall (names ! 26) args)) (\<lambda>(label, next).
           bnd (cps_graph_set n graph label next) (\<lambda>_. ret next)))))
     else
       bnd (sly_car args) (\<lambda>v. bnd (sly_cdr args) (\<lambda>args'.
       bnd (sly_car vars) (\<lambda>var. bnd (sly_cdr vars) (\<lambda>vars'.
       bnd (sly_cdr req) (\<lambda>req'.
       bnd (make_list [v]) (\<lambda>vl.
       bnd (bind_next kont 0 var (EValues vl)) (\<lambda>(_, next).
       bind_args_to_k n graph next cc args' vars' req' rest))))))))))))"

definition cps_alpha_rename_get_replacement :: "nat \<Rightarrow> sly_value \<Rightarrow> sly_value \<Rightarrow> sly_value sly" where
  "cps_alpha_rename_get_replacement n replacements var =
     bnd (dictionary_ref n replacements var SLY_VOID) (\<lambda>x. ret (if void_p x then var else x))"

definition cps_alpha_rename_map :: "nat \<Rightarrow> sly_value \<Rightarrow> sly_value \<Rightarrow> sly_value sly" where
  "cps_alpha_rename_map n replacements = map_list n (cps_alpha_rename_get_replacement n replacements)"

text \<open>\<open>u.proc.k\<close> of what need not be a procedure.\<close>

fun with_expr_word :: "sly_value \<Rightarrow> cps_expr \<Rightarrow> cps_expr" where
  "with_expr_word w (EProc k) = EProc w"
| "with_expr_word w (EBox v) = EBox w"
| "with_expr_word w (EConst v) = EConst w"
| "with_expr_word w (EPrim name) = EPrim w"
| "with_expr_word w (ECall proc args) = ECall w args"
| "with_expr_word w (EKcall proc label args) = EKcall w label args"
| "with_expr_word w (EPrimcall prim args) = EPrimcall w args"
| "with_expr_word w (EValues args) = EValues w"
| "with_expr_word w (EMakeRecord i) = EMakeRecord (sint (ucast w :: 32 word))"
| "with_expr_word w (ERecord vs) = ERecord w"
| "with_expr_word w (ERecordSet r v f) = ERecordSet w v f"
| "with_expr_word w (ESelect r f) = ESelect w f"
| "with_expr_word w (EOffset r i) = EOffset w i"
| "with_expr_word w (ECode l) = ECode w"
| "with_expr_word w (EUnbox v) = EUnbox w"
| "with_expr_word w (ESet var v) = ESet w v"
| "with_expr_word w (EFix names procs) = EFix w procs"

fun rename_procs :: "nat \<Rightarrow> (sly_value \<Rightarrow> sly_value sly) \<Rightarrow> sly_value \<Rightarrow> unit sly" where
  "rename_procs 0 rn procs = fail NoFuel"
| "rename_procs (Suc m) rn procs =
     (if null_p procs then ret ()
      else bnd (sly_car procs) (\<lambda>p. bnd (as_expr p) (\<lambda>e. bnd (rn (expr_word e)) (\<lambda>k'.
        bnd (as_expr p) (\<lambda>e'. bnd (set_expr p (with_expr_word k' e')) (\<lambda>_. bnd (sly_cdr procs) (rename_procs m rn)))))))"

definition cps_alpha_rename_visit_expr :: "nat \<Rightarrow> (sly_value \<Rightarrow> sly_value sly) \<Rightarrow> sly_value \<Rightarrow> sly_value \<Rightarrow> unit sly" where
  "cps_alpha_rename_visit_expr n rn expr replacements =
     (let get = cps_alpha_rename_get_replacement n replacements; all = cps_alpha_rename_map n replacements in
      bnd (as_expr expr) (\<lambda>e. case e of
        ECall proc args \<Rightarrow> bnd (get proc) (\<lambda>proc'. bnd (all args) (\<lambda>args'. set_expr expr (ECall proc' args')))
      | EKcall _ _ _ \<Rightarrow> fail (Assert ''unimplemented'')
      | EConst _ \<Rightarrow> ret ()
      | EProc k \<Rightarrow> bnd (rn k) (\<lambda>k'. set_expr expr (EProc k'))
      | EPrim _ \<Rightarrow> ret ()
      | EPrimcall prim args \<Rightarrow> bnd (all args) (\<lambda>args'. set_expr expr (EPrimcall prim args'))
      | EValues args \<Rightarrow> bnd (all args) (\<lambda>args'. set_expr expr (EValues args'))
      | ESet var v \<Rightarrow> bnd (get v) (\<lambda>v'. bnd (get var) (\<lambda>var'. set_expr expr (ESet var' v')))
      | EFix names procs \<Rightarrow>
          bnd (all names) (\<lambda>names'. bnd (set_expr expr (EFix names' procs)) (\<lambda>_. rename_procs n rn procs))
      | _ \<Rightarrow> fail (Assert ''Unreachable'')))"

fun new_names :: "nat \<Rightarrow> nat \<Rightarrow> sly_value \<Rightarrow> sly_value \<Rightarrow> unit sly" where
  "new_names n 0 replacements vars = fail NoFuel"
| "new_names n (Suc m) replacements vars =
     (if null_p vars then ret ()
      else bnd (sly_car vars) (\<lambda>var. bnd (dictionary_ref n replacements var SLY_VOID) (\<lambda>x.
        bnd (if void_p x then bnd cps_gensym_temporary_name (dictionary_set n replacements var) else ret ()) (\<lambda>_.
        bnd (sly_cdr vars) (new_names n m replacements)))))"

definition rename_term :: "nat \<Rightarrow> (sly_value \<Rightarrow> sly_value sly) \<Rightarrow> sly_value \<Rightarrow> sly_value \<Rightarrow> unit sly" where
  "rename_term n rn term replacements =
     bnd (as_term term) (\<lambda>t. case t of
       TContinue kk expr \<Rightarrow>
         bnd (cps_alpha_rename_visit_expr n rn expr replacements) (\<lambda>_.
         bnd (rn kk) (\<lambda>kk'. sly_obj_set term (STerm (TContinue kk' expr))))
     | TBranch var kt kf \<Rightarrow>
         bnd (cps_alpha_rename_get_replacement n replacements var) (\<lambda>var'.
         bnd (rn kt) (\<lambda>kt'. bnd (rn kf) (\<lambda>kf'. sly_obj_set term (STerm (TBranch var' kt' kf'))))))"

fun cps_alpha_rename :: "nat \<Rightarrow> sly_value \<Rightarrow> sly_value \<Rightarrow> sly_value \<Rightarrow> sly_value \<Rightarrow> sly_value sly" where
  "cps_alpha_rename 0 graph new_graph replacements k = fail NoFuel"
| "cps_alpha_rename (Suc n) graph new_graph replacements k =
     (let rn = cps_alpha_rename n graph new_graph replacements in
      bnd (cps_graph_ref n graph k) (\<lambda>kont0. bnd (as_kont kont0) (\<lambda>(_, u0).
      if u0 = KTail then ret k
      else
        bnd (cps_deep_copy_kont kont0) (\<lambda>kont. bnd (as_kont kont) (\<lambda>(_, u).
        bnd cps_gensym_label_name (\<lambda>name.
        bnd (sly_obj_set kont (SKont name u)) (\<lambda>_.
        bnd (cps_graph_set n graph name kont) (\<lambda>_.
        bnd (cps_graph_set n new_graph name kont) (\<lambda>_.
        bnd (case u of
            KArgs vars term \<Rightarrow>
              bnd (new_names n n replacements vars) (\<lambda>_.
              bnd (cps_alpha_rename_map n replacements vars) (\<lambda>vars'.
              bnd (sly_obj_set kont (SKont name (KArgs vars' term))) (\<lambda>_. rename_term n rn term replacements)))
          | KProc req rest binding tail body \<Rightarrow>
              bnd (rn body) (\<lambda>body'. sly_obj_set kont (SKont name (KProc req rest binding tail body')))
          | KReceive req rest kk \<Rightarrow> bnd (rn kk) (\<lambda>kk'. sly_obj_set kont (SKont name (KReceive req rest kk')))
          | KTail \<Rightarrow> ret ()) (\<lambda>_. ret name))))))))))"

definition cps_inline_kproc :: "nat \<Rightarrow> sly_value \<Rightarrow> sly_value \<Rightarrow> sly_value \<Rightarrow> sly_value \<Rightarrow> sly_value sly" where
  "cps_inline_kproc n graph new_graph kont kproc =
     bnd (kont_term kont) (\<lambda>term. bnd (as_term term) (\<lambda>t. bnd (as_expr (term_expr t)) (\<lambda>e.
     bnd (as_kont kproc) (\<lambda>(_, pu). case (pu, e) of
       (KProc req rest _ tail kbody0, ECall _ args) \<Rightarrow>
         bnd (bnd make_dictionary (\<lambda>d. cps_alpha_rename n graph new_graph d kbody0)) (\<lambda>body.
         bnd cps_new_term (\<lambda>nt. bnd (set_kont_term kont nt) (\<lambda>_.
         bnd (cps_graph_ref n graph (term_k t)) (\<lambda>krec. bnd (as_kont krec) (\<lambda>(_, ru).
         let kk = (case ru of KReceive _ _ k' \<Rightarrow> k' | _ \<Rightarrow> term_k t) in
         bnd (replace_ktails n graph tail kk body) (\<lambda>_.
         bnd (as_kont kont) (\<lambda>(name, _). bnd (dictionary_set n new_graph name kont) (\<lambda>_.
         bnd (cps_graph_ref n new_graph body) (\<lambda>kbody. bnd (as_kont kbody) (\<lambda>(bname, bu). case bu of
           KArgs vars bterm \<Rightarrow>
             bnd (sly_obj_set kbody (SKont bname (KArgs SLY_NULL bterm))) (\<lambda>_.
             bnd (bind_args_to_k n graph kont body args vars req rest) (\<lambda>begin0.
             bnd (kont_term begin0) (\<lambda>st. bnd (as_term st) (\<lambda>t'.
             bnd (if term_expr t' = 0 then set_kont_term begin0 bterm else ret ()) (\<lambda>_. ret new_graph)))))
         | _ \<Rightarrow> fail (Assert ''Error expected kargs'')))))))))))
     | _ \<Rightarrow> fail (UB ''object of another type'')))))"

text \<open>Procedures that are called once are put in the place of the call.\<close>

fun contract_procs :: "nat \<Rightarrow> nat \<Rightarrow> folder \<Rightarrow> sly_value \<Rightarrow> sly_value \<Rightarrow> sly_value sly" where
  "contract_procs n 0 bc ng procs = fail NoFuel"
| "contract_procs n (Suc m) bc ng procs =
     (if null_p procs then ret ng
      else bnd (sly_car procs) (\<lambda>p. bnd (as_expr p) (\<lambda>e.
        bnd (case e of EProc k \<Rightarrow> join_graph n ng (bc k) | _ \<Rightarrow> ret ng) (\<lambda>ng'.
        bnd (sly_cdr procs) (contract_procs n m bc ng')))))"

definition contract_call :: "nat \<Rightarrow> folder \<Rightarrow> sly_value \<Rightarrow> sly_value \<Rightarrow> sly_value \<Rightarrow> sly_value \<Rightarrow> sly_value \<Rightarrow> sly_value \<Rightarrow> sly_value \<Rightarrow>
    sly_value \<Rightarrow> sly_value sly" where
  "contract_call n bc graph gvi var_info k kont ng kk proc =
     bnd (dictionary_ref n var_info k SLY_VOID) (\<lambda>info.
     bnd (check (\<not> void_p info) ''STOP HERE'') (\<lambda>_.
     bnd (dictionary_ref n info proc SLY_VOID) (\<lambda>s. bnd (as_var_info s) (\<lambda>vi.
     bnd (if vi_binding vi = 0 then ret None
          else bnd (as_expr (vi_binding vi)) (\<lambda>e. ret (case e of EProc kp \<Rightarrow> Some kp | _ \<Rightarrow> None))) (\<lambda>r. case r of
       None \<Rightarrow> join_graph n ng (bc kk)
     | Some kp \<Rightarrow>
         ifM (var_is_used_once n gvi proc)
           (bnd (cps_graph_ref n graph kp) (\<lambda>kproc.
            bnd (cps_copy_kont kont) (\<lambda>new_kont.
            bnd CLICK (\<lambda>_.
            bnd (cps_inline_kproc n graph ng new_kont kproc) (\<lambda>_. dictionary_union n ng graph)))))
           (join_graph n ng (bc kk)))))))"

fun cps_opt_beta_contraction :: "nat \<Rightarrow> sly_value \<Rightarrow> sly_value \<Rightarrow> sly_value \<Rightarrow> folder" where
  "cps_opt_beta_contraction 0 graph gvi var_info k = fail NoFuel"
| "cps_opt_beta_contraction (Suc n) graph gvi var_info k =
     (let bc = cps_opt_beta_contraction n graph gvi var_info in
      bnd (cps_graph_ref n graph k) (\<lambda>kont.
      bnd make_dictionary (\<lambda>ng. bnd (cps_graph_set n ng k kont) (\<lambda>_.
      bnd (as_kont kont) (\<lambda>(_, u). case u of
        KArgs _ term \<Rightarrow>
          bnd (as_term term) (\<lambda>t. case t of
            TContinue kk expr \<Rightarrow>
              bnd (as_expr expr) (\<lambda>e. case e of
                EProc kp \<Rightarrow> bnd (join_graph n ng (bc kp)) (\<lambda>ng'. join_graph n ng' (bc kk))
              | EFix _ procs \<Rightarrow> bnd (contract_procs n n bc ng procs) (\<lambda>ng'. join_graph n ng' (bc kk))
              | ECall proc _ \<Rightarrow> contract_call n bc graph gvi var_info k kont ng kk proc
              | _ \<Rightarrow> join_graph n ng (bc kk))
          | TBranch _ kt kf \<Rightarrow> bnd (join_graph n ng (bc kt)) (\<lambda>ng'. join_graph n ng' (bc kf)))
      | KReceive _ _ kk \<Rightarrow> join_graph n ng (bc kk)
      | KProc _ _ _ _ body \<Rightarrow> join_graph n ng (bc body)
      | KTail \<Rightarrow> ret ng)))))"

section \<open>Free variables\<close>

definition cps_collect_free_variables_visit_expr :: "sly_value \<Rightarrow> sly_value sly" where
  "cps_collect_free_variables_visit_expr expr =
     bnd (as_expr expr) (\<lambda>e. case e of
       EConst _ \<Rightarrow> ret SLY_NULL
     | ECall proc args \<Rightarrow> sly_cons proc args
     | EKcall _ _ _ \<Rightarrow> fail (Assert ''unimplemented'')
     | EProc _ \<Rightarrow> ret SLY_NULL
     | EPrim name \<Rightarrow> make_list [name]
     | EPrimcall _ args \<Rightarrow> ret args
     | EValues args \<Rightarrow> ret args
     | EBox _ \<Rightarrow> fail (Assert ''unimplemented'')
     | EUnbox _ \<Rightarrow> fail (Assert ''unimplemented'')
     | ESet var v \<Rightarrow> make_list [v, var]
     | EFix _ _ \<Rightarrow> ret SLY_NULL
     | _ \<Rightarrow> fail (Assert ''unreachable''))"

text \<open>The variables so far, the local ones, and the label.\<close>

type_synonym free_finder = "sly_value \<Rightarrow> sly_value \<Rightarrow> sly_value \<Rightarrow> sly_value sly"

definition free_of_proc :: "nat \<Rightarrow> free_finder \<Rightarrow> sly_value \<Rightarrow> sly_value \<Rightarrow> sly_value sly" where
  "free_of_proc n ff free_info k =
     bnd (ff SLY_NULL SLY_NULL k) (\<lambda>vs. bnd (dictionary_set n free_info k vs) (\<lambda>_. ret vs))"

definition free_in_call :: "nat \<Rightarrow> free_finder \<Rightarrow> sly_value \<Rightarrow> sly_value \<Rightarrow> sly_value \<Rightarrow> sly_value \<Rightarrow> sly_value \<Rightarrow> sly_value \<Rightarrow>
    sly_value \<Rightarrow> sly_value sly" where
  "free_in_call n ff var_info free_info k kk proc total_vars local_vars =
     bnd (dictionary_ref n var_info k SLY_VOID) (\<lambda>info.
     bnd (dictionary_ref n info proc SLY_VOID) (\<lambda>s.
     bnd (if void_p s then ret None
          else bnd (as_var_info s) (\<lambda>vi. if vi_binding vi = 0 then ret None
            else bnd (as_expr (vi_binding vi)) (\<lambda>e. ret (case e of EProc kp \<Rightarrow> Some kp | _ \<Rightarrow> None)))) (\<lambda>r.
     bnd (case r of
         None \<Rightarrow> ret SLY_NULL
       | Some kp \<Rightarrow>
           bnd (dictionary_ref n free_info kp SLY_VOID) (\<lambda>kfv.
           if void_p kfv then free_of_proc n ff free_info kp else list_union n kfv SLY_NULL)) (\<lambda>_.
     bnd (free_of_proc n ff free_info kk) (\<lambda>cont_vars.
     bnd (list_subtract n total_vars local_vars) (\<lambda>own. list_union n own cont_vars))))))"

fun free_in_procs :: "nat \<Rightarrow> nat \<Rightarrow> free_finder \<Rightarrow> sly_value \<Rightarrow> sly_value \<Rightarrow> sly_value \<Rightarrow> sly_value sly" where
  "free_in_procs n 0 ff free_info free_vars procs = fail NoFuel"
| "free_in_procs n (Suc m) ff free_info free_vars procs =
     (if null_p procs then ret free_vars
      else bnd (sly_car procs) (\<lambda>p. bnd (as_expr p) (\<lambda>e.
        bnd (case e of EProc k \<Rightarrow> bnd (free_of_proc n ff free_info k) (list_union n free_vars) | _ \<Rightarrow> ret free_vars) (\<lambda>fv.
        bnd (sly_cdr procs) (free_in_procs n m ff free_info fv)))))"

definition free_in_continue :: "nat \<Rightarrow> free_finder \<Rightarrow> sly_value \<Rightarrow> sly_value \<Rightarrow> sly_value \<Rightarrow> sly_value \<Rightarrow> sly_value \<Rightarrow> sly_value \<Rightarrow>
    sly_value \<Rightarrow> sly_value sly" where
  "free_in_continue n ff var_info free_info k kk expr total0 local0 =
     bnd (cps_collect_free_variables_visit_expr expr) (\<lambda>vs. bnd (list_union n total0 vs) (\<lambda>total_vars.
     bnd (as_expr expr) (\<lambda>e. case e of
       ECall proc _ \<Rightarrow> free_in_call n ff var_info free_info k kk proc total_vars local0
     | _ \<Rightarrow>
         bnd (case e of
             EProc kp \<Rightarrow> bnd (free_of_proc n ff free_info kp) (\<lambda>fv. ret (fv, local0))
           | EFix names procs \<Rightarrow>
               bnd (list_union n local0 names) (\<lambda>lv. bnd (free_in_procs n n ff free_info SLY_NULL procs) (\<lambda>fv. ret (fv, lv)))
           | _ \<Rightarrow> ret (SLY_NULL, local0)) (\<lambda>(free_vars, local_vars).
         bnd (ff total_vars local_vars kk) (\<lambda>cont_vars.
         bnd (list_union n free_vars cont_vars) (\<lambda>u. list_subtract n u local_vars))))))"

fun free_variables :: "nat \<Rightarrow> sly_value \<Rightarrow> sly_value \<Rightarrow> sly_value \<Rightarrow> sly_value \<Rightarrow> free_finder" where
  "free_variables 0 graph var_info free_info visited total_vars local_vars k = fail NoFuel"
| "free_variables (Suc n) graph var_info free_info visited total_vars local_vars k =
     (let ff = free_variables n graph var_info free_info visited in
      bnd (dictionary_ref n visited k SLY_VOID) (\<lambda>seen.
      if \<not> void_p seen then list_subtract n total_vars local_vars
      else
        bnd (dictionary_set n visited k SLY_TRUE) (\<lambda>_.
        bnd (cps_graph_ref n graph k) (\<lambda>kont. bnd (as_kont kont) (\<lambda>(_, u). case u of
          KArgs vars term \<Rightarrow>
            bnd (as_term term) (\<lambda>t.
            bnd (list_union n total_vars vars) (\<lambda>tv. bnd (list_union n local_vars vars) (\<lambda>lv. case t of
              TContinue kk expr \<Rightarrow> free_in_continue n ff var_info free_info k kk expr tv lv
            | TBranch var kt kf \<Rightarrow>
                bnd (sly_cons var tv) (\<lambda>tv'. bnd (ff tv' lv kt) (\<lambda>x. bnd (ff tv' lv kf) (list_union n x))))))
        | KReceive _ _ kk \<Rightarrow>
            bnd (cps_graph_ref n graph kk) (\<lambda>next. bnd (ff total_vars local_vars kk) (\<lambda>fv.
            bnd (as_kont next) (\<lambda>(_, nu). list_subtract n fv (kont_vars nu))))
        | KProc _ _ _ _ body \<Rightarrow>
            bnd (cps_graph_ref n graph body) (\<lambda>next. bnd (ff SLY_NULL SLY_NULL body) (\<lambda>fv.
            bnd (as_kont next) (\<lambda>(_, nu). list_subtract n fv (kont_vars nu))))
        | KTail \<Rightarrow> list_subtract n total_vars local_vars)))))"

definition cps_collect_free_variables :: "nat \<Rightarrow> sly_value \<Rightarrow> sly_value \<Rightarrow> sly_value \<Rightarrow> sly_value sly" where
  "cps_collect_free_variables n graph var_info k =
     bnd make_dictionary (\<lambda>free_info. bnd make_dictionary (\<lambda>visited.
     bnd (free_variables n graph var_info free_info visited SLY_NULL SLY_NULL k) (\<lambda>vs.
     bnd (dictionary_set n free_info k vs) (\<lambda>_. ret free_info))))"

fun unwrap_kprocs :: "nat \<Rightarrow> sly_value \<Rightarrow> sly_value sly" where
  "unwrap_kprocs 0 procs = fail NoFuel"
| "unwrap_kprocs (Suc n) procs =
     (if null_p procs then ret SLY_NULL
      else bnd (sly_car procs) (\<lambda>p. bnd (as_expr p) (\<lambda>e. bnd (sly_cdr procs) (\<lambda>rest.
        case e of EProc k \<Rightarrow> bnd (unwrap_kprocs n rest) (sly_cons k) | _ \<Rightarrow> unwrap_kprocs n rest))))"

definition add_if_free :: "nat \<Rightarrow> sly_value \<Rightarrow> sly_value \<Rightarrow> sly_value \<Rightarrow> unit sly" where
  "add_if_free n free declared v =
     (if bool_p v then ret ()
      else bnd (dictionary_ref n declared v SLY_FALSE) (\<lambda>d.
        if booltoc d then ret () else dictionary_set n free v SLY_TRUE))"

fun add_all_free :: "nat \<Rightarrow> nat \<Rightarrow> sly_value \<Rightarrow> sly_value \<Rightarrow> sly_value \<Rightarrow> unit sly" where
  "add_all_free n 0 free declared args = fail NoFuel"
| "add_all_free n (Suc m) free declared args =
     (if null_p args then ret ()
      else bnd (sly_car args) (\<lambda>v. bnd (add_if_free n free declared v) (\<lambda>_. bnd (sly_cdr args) (add_all_free n m free declared))))"

definition cps_free_vars_in_k_visit_expr :: "nat \<Rightarrow> sly_value \<Rightarrow> sly_value \<Rightarrow> sly_value \<Rightarrow> unit sly" where
  "cps_free_vars_in_k_visit_expr n free declared expr =
     (let one = add_if_free n free declared; all = add_all_free n n free declared in
      bnd (as_expr expr) (\<lambda>e. case e of
        ECall proc args \<Rightarrow> bnd (one proc) (\<lambda>_. all args)
      | EKcall _ _ _ \<Rightarrow> fail (Assert ''unimplemented'')
      | EConst _ \<Rightarrow> ret () | EProc _ \<Rightarrow> ret () | EPrim _ \<Rightarrow> ret () | EMakeRecord _ \<Rightarrow> ret () | ECode _ \<Rightarrow> ret ()
      | EPrimcall _ args \<Rightarrow> all args
      | EValues args \<Rightarrow> all args
      | ERecord vs \<Rightarrow> all vs
      | ERecordSet r v _ \<Rightarrow> bnd (one r) (\<lambda>_. one v)
      | ESelect r _ \<Rightarrow> one r
      | EOffset r _ \<Rightarrow> one r
      | EBox v \<Rightarrow> one v
      | EUnbox _ \<Rightarrow> fail (Assert ''unimplemented'')
      | ESet var v \<Rightarrow> bnd (one var) (\<lambda>_. one v)
      | EFix _ _ \<Rightarrow> fail (Assert ''ERROR should be no more fix expressions at this point'')))"

fun declare_vars :: "nat \<Rightarrow> nat \<Rightarrow> sly_value \<Rightarrow> sly_value \<Rightarrow> unit sly" where
  "declare_vars n 0 declared vars = fail NoFuel"
| "declare_vars n (Suc m) declared vars =
     (if null_p vars then ret ()
      else bnd (sly_car vars) (\<lambda>v. bnd (dictionary_set n declared v SLY_TRUE) (\<lambda>_. bnd (sly_cdr vars) (declare_vars n m declared))))"

fun free_vars_below :: "nat \<Rightarrow> sly_value \<Rightarrow> sly_value \<Rightarrow> sly_value \<Rightarrow> sly_value \<Rightarrow> unit sly" where
  "free_vars_below 0 graph free declared k = fail NoFuel"
| "free_vars_below (Suc n) graph free declared k =
     (let below = free_vars_below n graph free declared in
      bnd (cps_graph_ref n graph k) (\<lambda>kont. bnd (as_kont kont) (\<lambda>(_, u). case u of
        KArgs vars term \<Rightarrow>
          bnd (declare_vars n n declared vars) (\<lambda>_. bnd (as_term term) (\<lambda>t. case t of
            TContinue kk expr \<Rightarrow> bnd (cps_free_vars_in_k_visit_expr n free declared expr) (\<lambda>_. below kk)
          | TBranch var kt kf \<Rightarrow> bnd (add_if_free n free declared var) (\<lambda>_. bnd (below kt) (\<lambda>_. below kf))))
      | KProc _ _ _ _ body \<Rightarrow> below body
      | KReceive _ _ kk \<Rightarrow> below kk
      | KTail \<Rightarrow> ret ())))"

definition cps_free_vars_in_k :: "nat \<Rightarrow> sly_value \<Rightarrow> sly_value \<Rightarrow> sly_value sly" where
  "cps_free_vars_in_k n graph k =
     bnd make_dictionary (\<lambda>free. bnd make_dictionary (\<lambda>declared.
     bnd (free_vars_below n graph free declared k) (\<lambda>_.
     bnd (as_dict free) (\<lambda>(_, slots). gather sly_car SLY_NULL slots))))"

end
