(* ===== verification/Sly_CPS_Display.thy ===== *)
theory Sly_CPS_Display
  imports Sly_CPS_Inline
begin

text \<open>The text of a program in the intermediate language (the end of src/cps.c).\<close>

type_synonym shower = "sly_value \<Rightarrow> unit sly"

definition put_int :: "int \<Rightarrow> unit sly" where "put_int i = put (dec_text i)"

definition tagged_list :: "nat \<Rightarrow> shower \<Rightarrow> string \<Rightarrow> sly_value \<Rightarrow> unit sly" where
  "tagged_list n show name lst = bnd (make_symbol n (cstr name)) (\<lambda>sm. bnd (sly_cons sm lst) show)"

text \<open>The number of the kind of an expression.\<close>

fun expr_type :: "cps_expr \<Rightarrow> int" where
  "expr_type (EConst _) = 0" | "expr_type (ECall _ _) = 1" | "expr_type (EKcall _ _ _) = 2" | "expr_type (EProc _) = 3"
| "expr_type (EPrim _) = 4" | "expr_type (EPrimcall _ _) = 5" | "expr_type (EValues _) = 6" | "expr_type (EMakeRecord _) = 7"
| "expr_type (ERecord _) = 8" | "expr_type (ERecordSet _ _ _) = 9" | "expr_type (ESelect _ _) = 10" | "expr_type (EOffset _ _) = 11"
| "expr_type (ECode _) = 12" | "expr_type (EBox _) = 13" | "expr_type (EUnbox _) = 14" | "expr_type (ESet _ _) = 15"
| "expr_type (EFix _ _) = 16"

definition show_proc :: "shower \<Rightarrow> cps_expr \<Rightarrow> unit sly" where
  "show_proc show p =
     (case p of
        EProc k \<Rightarrow> bnd (puts '' (proc '') (\<lambda>_. bnd (show k) (\<lambda>_. puts '')''))
      | EConst v \<Rightarrow> bnd (puts '' (const '') (\<lambda>_. bnd (show v) (\<lambda>_. puts '')''))
      | EBox v \<Rightarrow> bnd (puts '' (box '') (\<lambda>_. bnd (show v) (\<lambda>_. puts '')''))
      | EPrim name \<Rightarrow> bnd (puts '' TYPE 4 '') (\<lambda>_. show name)
      | _ \<Rightarrow> bnd (puts '' TYPE '') (\<lambda>_. put_int (expr_type p)))"

fun show_fix :: "nat \<Rightarrow> shower \<Rightarrow> sly_value \<Rightarrow> sly_value \<Rightarrow> unit sly" where
  "show_fix 0 show names procs = fail NoFuel"
| "show_fix (Suc n) show names procs =
     (if null_p names then ret ()
      else bnd (puts '' ['') (\<lambda>_. bnd (sly_car names) (\<lambda>nm. bnd (sly_car procs) (\<lambda>p. bnd (as_expr p) (\<lambda>e.
        bnd (show nm) (\<lambda>_. bnd (show_proc show e) (\<lambda>_. bnd (puts '']'') (\<lambda>_.
        bnd (sly_cdr names) (\<lambda>names'. bnd (sly_cdr procs) (show_fix n show names'))))))))))"

text \<open>The labels of the procedures of the expression.\<close>

definition cps_display_visit_expr :: "nat \<Rightarrow> shower \<Rightarrow> sly_value \<Rightarrow> sly_value sly" where
  "cps_display_visit_expr n show expr =
     (let none = (\<lambda>m. bnd m (\<lambda>_. ret SLY_NULL)); field = (\<lambda>name r i.
        none (bnd (puts name) (\<lambda>_. bnd (show r) (\<lambda>_. bnd (puts '' '') (\<lambda>_. bnd (put_int i) (\<lambda>_. puts '')'')))))) in
      bnd (as_expr expr) (\<lambda>e. case e of
        ECall proc args \<Rightarrow> none (bnd (sly_cons proc args) (tagged_list n show ''call''))
      | EValues args \<Rightarrow> none (tagged_list n show ''values'' args)
      | EConst v \<Rightarrow> none (bnd (puts ''(const '') (\<lambda>_. bnd (show v) (\<lambda>_. puts '')'')))
      | EProc k \<Rightarrow> bnd (puts ''(proc '') (\<lambda>_. bnd (show k) (\<lambda>_. bnd (puts '')'') (\<lambda>_. make_list [k])))
      | EPrim name \<Rightarrow> none (bnd (puts ''(prim '') (\<lambda>_. show name))
      | EPrimcall prim args \<Rightarrow> none (bnd (sly_cons prim args) (tagged_list n show ''primcall''))
      | EMakeRecord i \<Rightarrow> none (bnd (puts ''(make-record '') (\<lambda>_. bnd (put_int i) (\<lambda>_. puts '')'')))
      | ERecord vs \<Rightarrow> none (tagged_list n show ''record'' vs)
      | ESelect r i \<Rightarrow> field ''(select '' r i
      | ERecordSet r v i \<Rightarrow>
          none (bnd (puts ''(record-set! '') (\<lambda>_. bnd (show r) (\<lambda>_. bnd (puts '' '') (\<lambda>_. bnd (put_int i) (\<lambda>_.
            bnd (puts '' '') (\<lambda>_. bnd (show v) (\<lambda>_. puts '')'')))))))
      | EOffset r i \<Rightarrow> field ''(offset '' r i
      | ECode l \<Rightarrow> bnd (puts ''(code '') (\<lambda>_. bnd (show l) (\<lambda>_. bnd (puts '')'') (\<lambda>_. make_list [l])))
      | EBox v \<Rightarrow> none (bnd (puts ''(box '') (\<lambda>_. bnd (show v) (\<lambda>_. puts '')'')))
      | ESet var v \<Rightarrow>
          none (bnd (puts ''(set! '') (\<lambda>_. bnd (show var) (\<lambda>_. bnd (puts '' '') (\<lambda>_. bnd (show v) (\<lambda>_. puts '')'')))))
      | EFix names procs \<Rightarrow>
          bnd (puts ''(fix'') (\<lambda>_. bnd (show_fix n show names procs) (\<lambda>_. bnd (puts '')'') (\<lambda>_. unwrap_kprocs n procs)))
      | EUnbox _ \<Rightarrow> fail (Assert ''unimplemented'')
      | EKcall _ _ _ \<Rightarrow> fail (Assert ''Error not a cps expression'')))"

definition display_kargs :: "nat \<Rightarrow> shower \<Rightarrow> (sly_value \<Rightarrow> sly_value sly) \<Rightarrow> sly_value \<Rightarrow> sly_value \<Rightarrow> sly_value \<Rightarrow> sly_value \<Rightarrow> sly_value sly" where
  "display_kargs n show rec graph name vars term =
     bnd (puts ''let '') (\<lambda>_. bnd (show name) (\<lambda>_. bnd (puts '' = kargs '') (\<lambda>_. bnd (show vars) (\<lambda>_. bnd (puts '' -> '') (\<lambda>_.
     bnd (as_term term) (\<lambda>t. case t of
       TContinue kk expr \<Rightarrow>
         bnd (cps_graph_ref n graph kk) (\<lambda>next. bnd (as_kont next) (\<lambda>(nname, _).
         bnd (show nname) (\<lambda>_. bnd (puts '' '') (\<lambda>_.
         bnd (cps_display_visit_expr n show expr) (\<lambda>l1. bnd (put [10]) (\<lambda>_. bnd (rec kk) (list_union n l1)))))))
     | TBranch var kt kf \<Rightarrow>
         bnd (puts ''if '') (\<lambda>_. bnd (show var) (\<lambda>_. bnd (puts '' then '') (\<lambda>_. bnd (show kt) (\<lambda>_. bnd (puts '' else '') (\<lambda>_.
         bnd (show kf) (\<lambda>_. bnd (put [10]) (\<lambda>_.
         bnd (rec kt) (\<lambda>l1. bnd (rec kf) (list_union n l1)))))))))))))))"

definition display_kreceive :: "nat \<Rightarrow> shower \<Rightarrow> sly_value \<Rightarrow> sly_value \<Rightarrow> sly_value \<Rightarrow> sly_value \<Rightarrow> sly_value \<Rightarrow> unit sly" where
  "display_kreceive n show graph name req rest kk =
     bnd (puts ''let '') (\<lambda>_. bnd (show name) (\<lambda>_. bnd (list_len n req) (\<lambda>len.
     bnd (put (cstr '' = kreceive (req: '' @ digits_from 10 len @ cstr '', rest: '' @
       cstr (if rest = SLY_FALSE then ''#f'' else ''#t'') @ cstr '') => '')) (\<lambda>_.
     bnd (cps_graph_ref n graph kk) (\<lambda>tmp. bnd (as_kont tmp) (\<lambda>(tname, _). bnd (show tname) (\<lambda>_. put [10])))))))"

text \<open>The source writes a Greek letter for the procedure, two bytes.\<close>

definition display_kproc :: "nat \<Rightarrow> shower \<Rightarrow> sly_value \<Rightarrow> sly_value \<Rightarrow> sly_value \<Rightarrow> sly_value \<Rightarrow> sly_value \<Rightarrow> unit sly" where
  "display_kproc n show name req rest tail body =
     bnd (puts ''let '') (\<lambda>_. bnd (show name) (\<lambda>_. bnd (put (cstr '' = '' @ [0xce, 0xbb, 32])) (\<lambda>_.
     bnd (if rest \<noteq> SLY_FALSE then list_append n req rest else ret req) (\<lambda>arity. bnd (show arity) (\<lambda>_.
     bnd (puts '' -> '') (\<lambda>_. bnd (show body) (\<lambda>_. bnd (puts '' : '') (\<lambda>_. bnd (show tail) (\<lambda>_. put [10])))))))))"

fun display_from :: "nat \<Rightarrow> shower \<Rightarrow> sly_value \<Rightarrow> sly_value \<Rightarrow> sly_value \<Rightarrow> sly_value sly" where
  "display_from 0 show graph visited k = fail NoFuel"
| "display_from (Suc n) show graph visited k =
     bnd (dictionary_ref n visited k SLY_FALSE) (\<lambda>seen.
     if booltoc seen then ret SLY_NULL
     else
       bnd (dictionary_set n visited k SLY_TRUE) (\<lambda>_.
       bnd (cps_graph_ref n graph k) (\<lambda>kont. bnd (as_kont kont) (\<lambda>(name, u). case u of
         KTail \<Rightarrow> ret SLY_NULL
       | KArgs vars term \<Rightarrow> display_kargs n show (display_from n show graph visited) graph name vars term
       | KReceive req rest kk \<Rightarrow>
           bnd (display_kreceive n show graph name req rest kk) (\<lambda>_. display_from n show graph visited kk)
       | KProc req rest _ tail body \<Rightarrow>
           bnd (display_kproc n show name req rest tail body) (\<lambda>_. display_from n show graph visited body)))))"

fun display_labels :: "nat \<Rightarrow> nat \<Rightarrow> (sly_value \<Rightarrow> sly_value sly) \<Rightarrow> sly_value \<Rightarrow> sly_value \<Rightarrow> sly_value sly" where
  "display_labels n 0 rec lst js = fail NoFuel"
| "display_labels n (Suc m) rec lst js =
     (if null_p lst then ret js
      else bnd (sly_car lst) (\<lambda>k. bnd (rec k) (\<lambda>l. bnd (list_union n l js) (\<lambda>js'.
        bnd (sly_cdr lst) (\<lambda>d. display_labels n m rec d js')))))"

fun display_all_labels :: "nat \<Rightarrow> nat \<Rightarrow> (sly_value \<Rightarrow> sly_value sly) \<Rightarrow> sly_value \<Rightarrow> unit sly" where
  "display_all_labels n 0 rec lst = fail NoFuel"
| "display_all_labels n (Suc m) rec lst =
     bnd (display_labels n n rec lst SLY_NULL) (\<lambda>js. if null_p js then ret () else display_all_labels n m rec js)"

definition cps_display :: "nat \<Rightarrow> (64 word \<Rightarrow> 8 word list) \<Rightarrow> sly_value \<Rightarrow> sly_value \<Rightarrow> unit sly" where
  "cps_display n g_text graph k =
     (let show = (\<lambda>v. sly_display n g_text v True) in
      bnd make_dictionary (\<lambda>visited.
      bnd (display_from n show graph visited k) (display_all_labels n n (display_from n show graph visited))))"

fun display_alts :: "nat \<Rightarrow> nat \<Rightarrow> shower \<Rightarrow> sly_value \<Rightarrow> sly_value \<Rightarrow> unit sly" where
  "display_alts n 0 show name info = fail NoFuel"
| "display_alts n (Suc m) show name info =
     (if info = 0 then ret ()
      else bnd (show name) (\<lambda>_. bnd (as_var_info info) (\<lambda>vi.
        bnd (if vi_binding vi = 0 then ret ()
          else bnd (put (cstr '' = { used = '' @ dec_text (vi_used vi) @ cstr '', escapes = '' @ dec_text (vi_escapes vi) @
              cstr '', updates = '' @ dec_text (vi_updates vi) @ cstr '', binding = '')) (\<lambda>_.
            bnd (cps_display_visit_expr n show (vi_binding vi)) (\<lambda>_. puts '' }''))) (\<lambda>_.
        bnd (put [10]) (\<lambda>_. display_alts n m show name (vi_alt vi))))))"

fun display_entries :: "(sly_value \<Rightarrow> sly_value \<Rightarrow> unit sly) \<Rightarrow> sly_value list \<Rightarrow> unit sly" where
  "display_entries f [] = ret ()"
| "display_entries f (e # es) =
     bnd (ifM (slot_is_free e) (ret ())
       (bnd (sly_car e) (\<lambda>k. bnd (sly_cdr e) (\<lambda>v. bnd (f k v) (\<lambda>_. put [10]))))) (\<lambda>_. display_entries f es)"

definition cps_display_var_info :: "nat \<Rightarrow> (64 word \<Rightarrow> 8 word list) \<Rightarrow> sly_value \<Rightarrow> unit sly" where
  "cps_display_var_info n g_text var_info =
     (let show = (\<lambda>v. sly_display n g_text v True) in
      bnd (as_dict var_info) (\<lambda>(_, slots).
      display_entries (\<lambda>k tbl.
        bnd (show k) (\<lambda>_. bnd (put (cstr '':'' @ [10])) (\<lambda>_.
        if tbl = 0 then ret ()
        else bnd (as_dict tbl) (\<lambda>(_, infos). display_entries (display_alts n n show) infos)))) slots))"

text \<open>It visits the continuations and prints nothing.\<close>

fun cps_display_free_vars_foreach_k :: "nat \<Rightarrow> sly_value \<Rightarrow> sly_value \<Rightarrow> unit sly" where
  "cps_display_free_vars_foreach_k 0 graph k = fail NoFuel"
| "cps_display_free_vars_foreach_k (Suc n) graph k =
     (let rec = cps_display_free_vars_foreach_k n graph in
      bnd (cps_graph_ref n graph k) (\<lambda>kont. bnd (as_kont kont) (\<lambda>(_, u). case u of
        KArgs _ term \<Rightarrow> bnd (as_term term) (\<lambda>t. case t of
            TContinue kk _ \<Rightarrow> rec kk
          | TBranch _ kt kf \<Rightarrow> bnd (rec kt) (\<lambda>_. rec kf))
      | KProc _ _ _ _ body \<Rightarrow> rec body
      | KReceive _ _ kk \<Rightarrow> rec kk
      | KTail \<Rightarrow> ret ())))"

section \<open>The contraction phase\<close>

definition collect_info :: "nat \<Rightarrow> sly_value \<Rightarrow> sly_value \<Rightarrow> (sly_value \<times> sly_value) sly" where
  "collect_info n graph k =
     bnd make_dictionary (\<lambda>gvi. bnd make_dictionary (\<lambda>st. bnd make_dictionary (\<lambda>prev.
     bnd (cps_collect_var_info n graph gvi st prev 0 k) (\<lambda>vi. ret (gvi, vi)))))"

text \<open>The program after a pass, when it is asked for.\<close>

definition phase_note :: "nat \<Rightarrow> (64 word \<Rightarrow> 8 word list) \<Rightarrow> bool \<Rightarrow> string \<Rightarrow> sly_value \<Rightarrow> sly_value \<Rightarrow> unit sly" where
  "phase_note n g_text debug name graph k =
     (if debug then
        bnd (put (cstr name @ cstr '':'' @ [10])) (\<lambda>_.
        bnd (cps_display n g_text graph k) (\<lambda>_. put (replicate 48 61 @ [10])))
      else ret ())"

definition contraction_round :: "nat \<Rightarrow> (64 word \<Rightarrow> 8 word list) \<Rightarrow> bool \<Rightarrow> sly_value \<Rightarrow> sly_value \<Rightarrow> sly_value sly" where
  "contraction_round n g_text debug graph k =
     bnd (collect_info n graph k) (\<lambda>(_, vi). bnd (cps_opt_resolve_aliases n graph vi k) (\<lambda>_.
     bnd (phase_note n g_text debug ''RESOLVE-ALIASES'' graph k) (\<lambda>_.
     bnd (collect_info n graph k) (\<lambda>(gvi, vi). bnd (cps_opt_constant_folding n graph gvi vi k) (\<lambda>graph1.
     bnd (phase_note n g_text debug ''CONSTANT-FOLDING'' graph1 k) (\<lambda>_.
     bnd (collect_info n graph1 k) (\<lambda>(gvi, vi). bnd (cps_opt_beta_contraction n graph1 gvi vi k) (\<lambda>graph2.
     bnd (phase_note n g_text debug ''BETA-CONTRACTION'' graph2 k) (\<lambda>_. ret graph2)))))))))"

text \<open>Rounds until one makes no change; \<open>called\<close> counts the phases of the process.\<close>

fun contraction_rounds :: "nat \<Rightarrow> nat \<Rightarrow> (64 word \<Rightarrow> 8 word list) \<Rightarrow> bool \<Rightarrow> nat \<Rightarrow> sly_value \<Rightarrow> sly_value \<Rightarrow> sly_value sly" where
  "contraction_rounds n 0 g_text debug i graph k = fail NoFuel"
| "contraction_rounds n (Suc m) g_text debug i graph k =
     bnd (put (cstr ''ROUND #'' @ digits_from 10 i @ [10])) (\<lambda>_.
     bnd (contraction_round n g_text debug graph k) (\<lambda>graph'.
     bnd CLICK_RESET (\<lambda>d. if d \<noteq> 0 then contraction_rounds n m g_text debug (Suc i) graph' k else ret graph')))"

definition cps_opt_contraction_phase :: "nat \<Rightarrow> (64 word \<Rightarrow> 8 word list) \<Rightarrow> nat \<Rightarrow> bool \<Rightarrow> sly_value \<Rightarrow> sly_value \<Rightarrow> sly_value sly" where
  "cps_opt_contraction_phase n g_text called debug graph k =
     bnd (put (cstr ''CONTRACTION PHASE #'' @ digits_from 10 called @ [10])) (\<lambda>_.
     contraction_rounds n n g_text debug 1 graph k)"

end
