(* ===== verification/Sly_Cbackend.thy ===== *)
theory Sly_Cbackend
  imports Sly_CPS_Display
begin

text \<open>
  The C back end (src/cbackend.c): the text of the program in C.  What the source writes to a file or a buffer is
  the result of the functions here.  A constant is interned by its place in the table of constants; what the
  compiler of C and the loader do is an argument of \<open>compile_form\<close>.
\<close>

section \<open>Text\<close>

type_synonym emitter = "8 word list sly"

definition nl :: "8 word list" where "nl = [10]"
definition tab :: "8 word list" where "tab = [9]"

text \<open>A line of a function body.\<close>

definition stmt :: "8 word list list \<Rightarrow> 8 word list" where
  "stmt parts = tab @ concat parts @ nl"

text \<open>One text after another.\<close>

definition emit2 :: "emitter \<Rightarrow> emitter \<Rightarrow> emitter" where
  "emit2 m1 m2 = bnd m1 (\<lambda>x. bnd m2 (\<lambda>y. ret (x @ y)))"

fun emits :: "emitter list \<Rightarrow> emitter" where
  "emits [] = ret []"
| "emits (m # ms) = emit2 m (emits ms)"

definition is_alnum :: "8 word \<Rightarrow> bool" where
  "is_alnum b \<longleftrightarrow> (48 \<le> b \<and> b \<le> 57) \<or> (65 \<le> b \<and> b \<le> 90) \<or> (97 \<le> b \<and> b \<le> 122)"

definition convert_to_cid :: "8 word list \<Rightarrow> 8 word list" where
  "convert_to_cid str =
     map (\<lambda>b. if is_alnum b \<or> b = 95 then b else word_of_int (c_rem (sint b) 27 + 65)) (until_zero str)"

definition symbol_to_cid :: "sly_value \<Rightarrow> emitter" where
  "symbol_to_cid s = bnd (symbol_to_cstr s) (\<lambda>str. ret (convert_to_cid str))"

text \<open>A statement about one symbol.\<close>

definition stmt_sym :: "string \<Rightarrow> sly_value \<Rightarrow> string \<Rightarrow> emitter" where
  "stmt_sym pre sm post = bnd (symbol_to_cid sm) (\<lambda>c. ret (stmt [cstr pre, c, cstr post]))"

definition push_stmt :: "string \<Rightarrow> 8 word list \<Rightarrow> 8 word list" where
  "push_stmt cast tx = stmt [cstr ''push_arg('', cstr cast, tx, cstr '');'']"

definition closure_head :: "8 word list \<Rightarrow> 8 word list \<Rightarrow> 8 word list" where
  "closure_head name note =
     cstr ''scm_value '' @ name @ cstr ''(scm_value self) // '' @ until_zero note @ nl @ cstr ''{'' @ nl"

definition chk_args_stmt :: "nat \<Rightarrow> bool \<Rightarrow> 8 word list" where
  "chk_args_stmt req rest =
     stmt [cstr ''scm_assert(chk_args('', digits_from 10 req, cstr '', '', cstr (if rest then ''1'' else ''0''),
       cstr ''), '', [34], cstr ''arity error'', [34], cstr '');'']"

section \<open>Constants\<close>

text \<open>The expression for a constant; a pair or a vector is numbered before its elements.\<close>

fun const_elems :: "(sly_value \<Rightarrow> emitter) \<Rightarrow> sly_value option list \<Rightarrow> unit sly" where
  "const_elems ic [] = ret ()"
| "const_elems ic (None # es) = fail (UB ''uninitialised element'')"
| "const_elems ic (Some x # es) = bnd (ic x) (\<lambda>_. const_elems ic es)"

fun const_pairs :: "nat \<Rightarrow> (sly_value \<Rightarrow> emitter) \<Rightarrow> sly_value \<Rightarrow> unit sly" where
  "const_pairs 0 ic lst = fail NoFuel"
| "const_pairs (Suc n) ic lst =
     ifM (pair_p lst) (bnd (bnd (sly_car lst) ic) (\<lambda>_. bnd (sly_cdr lst) (const_pairs n ic))) (bnd (ic lst) (\<lambda>_. ret ()))"

definition const_place :: "nat \<Rightarrow> (sly_value \<Rightarrow> emitter) \<Rightarrow> sly_value \<Rightarrow> sly_value \<Rightarrow> sly_value sly" where
  "const_place n ic constants v =
     bnd (dictionary_entry_ref n constants v) (\<lambda>entry.
     ifM (slot_is_free entry)
       (bnd (gets const_idx) (\<lambda>idx. bnd (modify (\<lambda>s. s\<lparr>const_idx := idx + 1\<rparr>)) (\<lambda>_.
        bnd (ifM (pair_p v) (const_pairs n ic v)
            (ifM (vector_p v) (bnd (as_vector v) (\<lambda>(len, es). const_elems ic (take len es))) (ret ()))) (\<lambda>_.
        bnd (dictionary_set n constants v (of_nat idx)) (\<lambda>_. ret (of_nat idx))))))
       (sly_cdr entry))"

fun cb_intern_constant :: "nat \<Rightarrow> sly_value \<Rightarrow> sly_value \<Rightarrow> emitter" where
  "cb_intern_constant 0 constants v = fail NoFuel"
| "cb_intern_constant (Suc n) constants v =
     ifM (int_p v) (bnd (get_int v) (\<lambda>i. ret (cstr ''make_int('' @ dec_text i @ cstr '')'')))
     (ifM (float_p v) (bnd (sly_get_float v) (\<lambda>f. ret (cstr ''0x'' @ digits_from 16 (unat f))))
     (if true_p v then ret (cstr ''SCM_TRUE'')
      else if false_p v then ret (cstr ''SCM_FALSE'')
      else if null_p v then ret (cstr ''SCM_NULL'')
      else if void_p v then ret (cstr ''SCM_VOID'')
      else ifM (sly_byte_p v) (bnd (get_byte v) (\<lambda>c. ret (cstr ''make_char('' @ dec_text c @ cstr '')'')))
       (bnd (const_place n (cb_intern_constant n constants) constants v) (\<lambda>idx.
        ret (cstr ''interned['' @ digits_from 10 (unat idx) @ cstr '']'')))))"

section \<open>Lists of variables\<close>

text \<open>The last first, without \<open>name\<close>.\<close>

fun emit_lists :: "nat \<Rightarrow> string \<Rightarrow> sly_value \<Rightarrow> sly_value \<Rightarrow> emitter" where
  "emit_lists 0 pre name lst = fail NoFuel"
| "emit_lists (Suc n) pre name lst =
     (if null_p lst then ret []
      else bnd (sly_car lst) (\<lambda>elem. bnd (sly_cdr lst) (\<lambda>d.
        emit2 (emit_lists n pre name d)
          (ifM (sly_eq name elem) (ret []) (stmt_sym pre elem '');'')))))"

definition emit_c_push_list :: "nat \<Rightarrow> sly_value \<Rightarrow> sly_value \<Rightarrow> emitter" where
  "emit_c_push_list n = emit_lists n ''push_arg(''"

definition emit_c_push_refs :: "nat \<Rightarrow> sly_value \<Rightarrow> sly_value \<Rightarrow> emitter" where
  "emit_c_push_refs n = emit_lists n ''push_ref(''"

fun emit_c_pop_list :: "nat \<Rightarrow> sly_value \<Rightarrow> emitter" where
  "emit_c_pop_list 0 lst = fail NoFuel"
| "emit_c_pop_list (Suc n) lst =
     ifM (pair_p lst)
       (bnd (sly_car lst) (\<lambda>elem. bnd (sly_cdr lst) (\<lambda>d.
        emit2 (emit_c_pop_list n d) (stmt_sym ''scm_value '' elem '' = pop_arg();''))))
       (ret [])"

fun emit_c_unpack_self :: "nat \<Rightarrow> sly_value \<Rightarrow> nat \<Rightarrow> emitter" where
  "emit_c_unpack_self 0 lst i = fail NoFuel"
| "emit_c_unpack_self (Suc n) lst i =
     (if null_p lst then ret []
      else bnd (sly_car lst) (\<lambda>elem. bnd (sly_cdr lst) (\<lambda>d.
        emit2 (emit_c_unpack_self n d (i + 1))
          (bnd (symbol_to_cid elem) (\<lambda>c.
           ret (stmt [cstr ''scm_value '', c, cstr '' = closure_ref(self, '', digits_from 10 i, cstr '');'']))))))"

text \<open>One statement for each symbol, the first first.\<close>

fun emit_each :: "nat \<Rightarrow> string \<Rightarrow> string \<Rightarrow> sly_value \<Rightarrow> emitter" where
  "emit_each 0 pre post lst = fail NoFuel"
| "emit_each (Suc n) pre post lst =
     (if null_p lst then ret []
      else bnd (sly_car lst) (\<lambda>elem. emit2 (stmt_sym pre elem post) (bnd (sly_cdr lst) (emit_each n pre post))))"

section \<open>Expressions\<close>

text \<open>What is written, and the C expression of the value if there is one.\<close>

definition no_value :: "emitter \<Rightarrow> (8 word list \<times> (8 word list) option) sly" where
  "no_value m = bnd m (\<lambda>x. ret (x, None))"

definition primop_text :: "prim \<Rightarrow> string option" where
  "primop_text p =
     (if p = tt_prim_add then Some ''primop_add()'' else if p = tt_prim_sub then Some ''primop_sub()''
      else if p = tt_prim_mul then Some ''primop_mul()'' else if p = tt_prim_div then Some ''primop_div()''
      else if p = tt_prim_less then Some ''primop_less()'' else if p = tt_prim_cons then Some ''primop_cons()''
      else None)"

text \<open>The variables of a procedure and its code are pushed.\<close>

definition emit_proc :: "nat \<Rightarrow> sly_value \<Rightarrow> sly_value \<Rightarrow> sly_value \<Rightarrow> emitter" where
  "emit_proc n free_vars name code =
     bnd (dictionary_ref n free_vars code SLY_NULL) (\<lambda>vars.
     emit2 (emit_c_push_list n name vars) (bnd (symbol_to_cid code) (\<lambda>c. ret (push_stmt ''(scm_value)'' c))))"

fun emit_fix_procs :: "nat \<Rightarrow> nat \<Rightarrow> sly_value \<Rightarrow> sly_value \<Rightarrow> sly_value \<Rightarrow> sly_value \<Rightarrow> emitter" where
  "emit_fix_procs n 0 graph free_vars names procs = fail NoFuel"
| "emit_fix_procs n (Suc m) graph free_vars names procs =
     (if null_p procs then ret []
      else bnd (sly_car procs) (\<lambda>p. bnd (as_expr p) (\<lambda>e. bnd (sly_car names) (\<lambda>name.
        emit2 (case e of
            EProc code \<Rightarrow>
              bnd (cps_graph_ref n graph code) (\<lambda>kproc. bnd (as_kont kproc) (\<lambda>(kname, u). case u of
                KProc req rest _ tail body \<Rightarrow>
                  bnd (sly_obj_set kproc (SKont kname (KProc req rest name tail body))) (\<lambda>_.
                  emit2 (emit_proc n free_vars name code) (stmt_sym ''box_set('' name '', make_closure());''))
              | _ \<Rightarrow> fail (UB ''continuation of another type'')))
          | _ \<Rightarrow> ret [])
          (bnd (sly_cdr procs) (\<lambda>procs'. bnd (sly_cdr names) (\<lambda>names'. emit_fix_procs n m graph free_vars names' procs'))))))) "

definition emit_c_visit_expr :: "nat \<Rightarrow> sly_value \<Rightarrow> sly_value \<Rightarrow> sly_value \<Rightarrow> sly_value \<Rightarrow> (8 word list \<times> (8 word list) option) sly" where
  "emit_c_visit_expr n expr graph free_vars constants =
     bnd (as_expr expr) (\<lambda>e. case e of
       EConst v \<Rightarrow> bnd (cb_intern_constant n constants v) (\<lambda>c. ret ([], Some c))
     | EProc code \<Rightarrow> bnd (emit_proc n free_vars SLY_VOID code) (\<lambda>x. ret (x, Some (cstr ''make_closure()'')))
     | EPrimcall prim args \<Rightarrow>
         bnd (emit_c_push_refs n SLY_VOID args) (\<lambda>x. bnd (primop_p n prim) (\<lambda>p. case p of
           None \<Rightarrow> fail (Assert ''invalid primop'')
         | Some op \<Rightarrow> (case primop_text (prim_order ! op) of
             None \<Rightarrow> fail (Assert ''unimplemented'')
           | Some c \<Rightarrow> ret (x, Some (cstr c)))))
     | EValues args \<Rightarrow> no_value (bnd (list_reverse n args) (emit_each n ''push_ref('' '');''))
     | EBox _ \<Rightarrow> ret ([], Some (cstr ''make_box()''))
     | ESet var v \<Rightarrow>
         no_value (bnd (symbol_to_cid var) (\<lambda>x. bnd (symbol_to_cid v) (\<lambda>y.
           ret (stmt [cstr ''box_set('', x, cstr '', '', y, cstr '');'']))))
     | EFix names procs \<Rightarrow>
         no_value (emit2 (emit_each n ''scm_value '' '' = make_box();'' names)
           (emit_fix_procs n n graph free_vars names procs))
     | _ \<Rightarrow> fail (Assert ''unimplemented''))"

section \<open>Continuations\<close>

type_synonym cemitter = "sly_value \<Rightarrow> emitter"

text \<open>\<open>u.kreceive.k\<close> of any continuation.\<close>

fun kont_third :: "cps_kont_u \<Rightarrow> sly_value" where
  "kont_third (KReceive req rest k) = k"
| "kont_third (KProc req rest binding tail body) = binding"
| "kont_third (KArgs vars term) = 0"
| "kont_third KTail = 0"

definition tail_call_stmt :: "8 word list \<Rightarrow> 8 word list" where
  "tail_call_stmt f = stmt [cstr ''TAIL_CALL('', f, cstr '');'']"

definition emit_call :: "nat \<Rightarrow> sly_value \<Rightarrow> sly_value \<Rightarrow> cps_kont_u \<Rightarrow> sly_value \<Rightarrow> sly_value \<Rightarrow> emitter" where
  "emit_call n free_vars nname nu proc args =
     emits [
       if nu = KTail then ret []
       else bnd (dictionary_ref n free_vars nname SLY_NULL) (\<lambda>vars.
         emits [emit_c_push_list n SLY_VOID vars,
                ret (push_stmt '''' (cstr ''k'')),
                bnd (symbol_to_cid nname) (\<lambda>c. ret (push_stmt ''(scm_value)'' c)),
                ret (stmt [cstr ''k = make_closure();''])]),
       emit_c_push_refs n SLY_VOID args,
       ret (push_stmt '''' (cstr ''k'')),
       bnd (symbol_to_cid proc) (\<lambda>c. ret (tail_call_stmt c))]"

definition define_stmt :: "sly_value \<Rightarrow> 8 word list \<Rightarrow> emitter" where
  "define_stmt binding tx = bnd (symbol_to_cid binding) (\<lambda>c. ret (stmt [cstr ''scm_value '', c, cstr '' = '', tx, cstr '';'']))"

definition emit_primcall :: "nat \<Rightarrow> cemitter \<Rightarrow> sly_value \<Rightarrow> sly_value \<Rightarrow> sly_value \<Rightarrow> sly_value \<Rightarrow> cps_kont_u \<Rightarrow> emitter" where
  "emit_primcall n ec graph free_vars constants expr nu =
     bnd (emit_c_visit_expr n expr graph free_vars constants) (\<lambda>(x, tx).
     bnd (list_len n (kont_vars nu)) (\<lambda>len. bnd (check (len = 1) ''Arity mismatch'') (\<lambda>_.
     bnd (cps_graph_ref n graph (kont_third nu)) (\<lambda>next. bnd (as_kont next) (\<lambda>(nname, nu').
     bnd (sly_car (kont_vars nu')) (\<lambda>binding.
     emits [ret x, define_stmt binding (case tx of Some c \<Rightarrow> c | None \<Rightarrow> cstr ''(null)''), ec nname]))))))"

definition emit_value :: "nat \<Rightarrow> sly_value \<Rightarrow> sly_value \<Rightarrow> sly_value \<Rightarrow> sly_value \<Rightarrow> cps_kont_u \<Rightarrow> emitter" where
  "emit_value n graph free_vars constants expr nu =
     bnd (emit_c_visit_expr n expr graph free_vars constants) (\<lambda>(x, tx). case tx of
       None \<Rightarrow> ret x
     | Some c \<Rightarrow>
         if nu = KTail then ret (x @ push_stmt '''' c)
         else emit2 (ret x) (bnd (sly_car (kont_vars nu)) (\<lambda>b. define_stmt b c)))"

definition emit_kargs :: "nat \<Rightarrow> cemitter \<Rightarrow> sly_value \<Rightarrow> sly_value \<Rightarrow> sly_value \<Rightarrow> cps_term \<Rightarrow> emitter" where
  "emit_kargs n ec graph free_vars constants t =
     (case t of
        TContinue kk expr \<Rightarrow>
          bnd (cps_graph_ref n graph kk) (\<lambda>next. bnd (as_kont next) (\<lambda>(nname, nu). bnd (as_expr expr) (\<lambda>e. case e of
            ECall proc args \<Rightarrow> emit_call n free_vars nname nu proc args
          | EPrimcall _ _ \<Rightarrow> emit_primcall n ec graph free_vars constants expr nu
          | _ \<Rightarrow> emit2 (emit_value n graph free_vars constants expr nu) (ec kk))))
      | TBranch var kt kf \<Rightarrow>
          emits [stmt_sym ''if ('' var '' != SCM_FALSE) {'', ec kt, ret (stmt [cstr ''} else {'']), ec kf, ret (stmt [cstr ''}''])])"

definition emit_params :: "nat \<Rightarrow> sly_value \<Rightarrow> emitter" where
  "emit_params n vars = emit_each n ''box_set('' '', pop_arg());'' vars"

definition emit_rest_param :: "nat \<Rightarrow> sly_value \<Rightarrow> emitter" where
  "emit_rest_param n vars =
     bnd (list_reverse n vars) (\<lambda>rv. bnd (sly_car rv) (\<lambda>rest. bnd (sly_cdr rv) (\<lambda>d. bnd (list_reverse n d) (\<lambda>req.
     emit2 (emit_params n req) (stmt_sym ''box_set('' rest '', cons_rest());'')))))"

definition emit_kproc :: "nat \<Rightarrow> cemitter \<Rightarrow> sly_value \<Rightarrow> sly_value \<Rightarrow> sly_value \<Rightarrow> sly_value \<Rightarrow> sly_value \<Rightarrow> sly_value \<Rightarrow> sly_value \<Rightarrow>
    sly_value \<Rightarrow> emitter" where
  "emit_kproc n ec graph free_vars k kname req rest binding body =
     bnd (ifM (symbol_p binding) (symbol_get_alias binding) (ret kname)) (\<lambda>name.
     bnd (symbol_to_cid k) (\<lambda>c. bnd (symbol_to_cstr name) (\<lambda>note.
     bnd (list_len n req) (\<lambda>len.
     bnd (cps_graph_ref n graph body) (\<lambda>next. bnd (as_kont next) (\<lambda>(nname, nu).
     bnd (copy_list n (kont_vars nu)) (\<lambda>vars.
     emits [
       ret (closure_head c note @ stmt [cstr ''scm_chk_heap(&self);''] @ chk_args_stmt (len + 1) (booltoc rest) @
         stmt [cstr ''scm_value k = pop_arg();'']),
       emit_each n ''scm_value '' '' = make_box();'' vars,
       if booltoc rest then emit_rest_param n vars else emit_params n vars,
       bnd (dictionary_ref n free_vars k SLY_NULL) (\<lambda>fv.
       ifM (list_member n binding fv)
         (bnd (list_remove n fv binding) (\<lambda>fv'.
          emit2 (stmt_sym ''scm_value '' binding '' = self;'') (emit_c_unpack_self n fv' 0)))
         (emit_c_unpack_self n fv 0)),
       ec nname])))))))"

definition emit_kreceive :: "nat \<Rightarrow> cemitter \<Rightarrow> sly_value \<Rightarrow> sly_value \<Rightarrow> sly_value \<Rightarrow> sly_value \<Rightarrow> sly_value \<Rightarrow> sly_value \<Rightarrow> emitter" where
  "emit_kreceive n ec graph free_vars k req rest kk =
     bnd (symbol_to_cid k) (\<lambda>c. bnd (list_len n req) (\<lambda>len.
     bnd (check (\<not> booltoc rest) ''unimplemented'') (\<lambda>_.
     bnd (cps_graph_ref n graph kk) (\<lambda>next. bnd (as_kont next) (\<lambda>(nname, nu).
     emits [
       ret (closure_head c [] @ stmt [cstr ''scm_chk_heap(&self);''] @ chk_args_stmt len (booltoc rest)),
       bnd (list_reverse n (kont_vars nu)) (emit_c_pop_list n),
       bnd (dictionary_ref n free_vars k SLY_NULL) (\<lambda>fv.
         emit2 (ret (stmt [cstr ''scm_value k = closure_ref(self, 0);''])) (emit_c_unpack_self n fv 1)),
       ec nname])))))"

fun emit_c_from :: "nat \<Rightarrow> sly_value \<Rightarrow> sly_value \<Rightarrow> sly_value \<Rightarrow> cemitter" where
  "emit_c_from 0 graph free_vars constants k = fail NoFuel"
| "emit_c_from (Suc n) graph free_vars constants k =
     (let ec = emit_c_from n graph free_vars constants in
      bnd (cps_graph_ref n graph k) (\<lambda>kont. bnd (as_kont kont) (\<lambda>(name, u). case u of
        KArgs _ term \<Rightarrow> bnd (as_term term) (emit_kargs n ec graph free_vars constants)
      | KProc req rest binding _ body \<Rightarrow> emit_kproc n ec graph free_vars k name req rest binding body
      | KReceive req rest kk \<Rightarrow> emit_kreceive n ec graph free_vars k req rest kk
      | KTail \<Rightarrow> ret (tail_call_stmt (cstr ''k'')))))"

section \<open>Constants of the program\<close>

text \<open>The place of a constant; the value -1 stands for none.\<close>

definition const_ref :: "nat \<Rightarrow> sly_value \<Rightarrow> sly_value \<Rightarrow> sly_value sly" where
  "const_ref n constants elem =
     bnd (dictionary_ref n constants elem (- 1)) (\<lambda>idx.
     bnd (check (idx \<noteq> - 1) ''Error constant not interned'') (\<lambda>_. ret idx))"

definition interned_kind :: "sly_value \<Rightarrow> bool sly" where
  "interned_kind v =
     ifM (string_p v) (ret True) (ifM (symbol_p v) (ret True) (ifM (byte_vector_p v) (ret True)
     (ifM (vector_p v) (ret True) (pair_p v))))"

definition elem_line :: "8 word list \<Rightarrow> 8 word list" where
  "elem_line tx = tab @ tab @ cstr ''{'' @ tx @ cstr ''},'' @ nl"

definition emit_const_element :: "nat \<Rightarrow> (64 word \<Rightarrow> 8 word list) \<Rightarrow> sly_value \<Rightarrow> sly_value \<Rightarrow> emitter" where
  "emit_const_element n g_text constants elem =
     ifM (int_p elem) (bnd (get_int elem) (\<lambda>i. ret (elem_line (cstr ''tt_int, .u.as_int='' @ dec_text i))))
     (ifM (float_p elem) (bnd (sly_get_float elem) (\<lambda>f. ret (elem_line (cstr ''tt_float, .u.as_float='' @ g_text f))))
     (if true_p elem then ret (elem_line (cstr ''tt_bool, .u.as_int=1''))
      else if false_p elem then ret (elem_line (cstr ''tt_bool, .u.as_int=0''))
      else if null_p elem then ret (elem_line (cstr ''tt_pair''))
      else ifM (interned_kind elem)
        (bnd (const_ref n constants elem) (\<lambda>idx. ret (elem_line (cstr ''tt_box, .u.as_uint='' @ digits_from 10 (unat idx)))))
        (fail (Assert ''unimplemented''))))"

fun emit_vector_elems :: "(sly_value \<Rightarrow> emitter) \<Rightarrow> sly_value option list \<Rightarrow> emitter" where
  "emit_vector_elems ce [] = ret []"
| "emit_vector_elems ce (None # es) = fail (UB ''uninitialised element'')"
| "emit_vector_elems ce (Some x # es) = emit2 (ce x) (emit_vector_elems ce es)"

text \<open>The elements of a list with what ends it, and their number.\<close>

fun emit_list_elems :: "nat \<Rightarrow> (sly_value \<Rightarrow> emitter) \<Rightarrow> sly_value \<Rightarrow> nat \<Rightarrow> (8 word list \<times> nat) sly" where
  "emit_list_elems 0 ce lst len = fail NoFuel"
| "emit_list_elems (Suc n) ce lst len =
     ifM (pair_p lst)
       (bnd (bnd (sly_car lst) ce) (\<lambda>x. bnd (sly_cdr lst) (\<lambda>d. bnd (emit_list_elems n ce d (len + 1)) (\<lambda>(y, k).
        ret (x @ y, k)))))
       (bnd (ce lst) (\<lambda>x. ret (x, len + 1)))"

definition static_head :: "string \<Rightarrow> 8 word list \<Rightarrow> 8 word list" where
  "static_head kind name = cstr ''static STATIC_'' @ cstr kind @ cstr '' '' @ name @ cstr '' = {'' @ nl"

definition static_bytes :: "int list \<Rightarrow> 8 word list" where
  "static_bytes bs =
     tab @ cstr ''.elems={'' @ concat (map (\<lambda>b. dec_text b @ cstr '','') bs) @ cstr ''},'' @ nl @ cstr ''};'' @ nl"

definition len_line :: "nat \<Rightarrow> 8 word list" where
  "len_line len = tab @ cstr ''.len='' @ digits_from 10 len @ cstr '','' @ nl"

text \<open>The entry of the table of constants.\<close>

definition const_entry :: "sly_value \<Rightarrow> string \<Rightarrow> 8 word list \<Rightarrow> 8 word list" where
  "const_entry idx tag name =
     tab @ cstr ''['' @ digits_from 10 (unat idx) @ cstr ''] = {'' @ cstr tag @ cstr '', .u.as_ptr=&'' @ name @ cstr ''},'' @ nl"

text \<open>The definition of one constant and its entry.\<close>

definition emit_constant :: "nat \<Rightarrow> (64 word \<Rightarrow> 8 word list) \<Rightarrow> sly_value \<Rightarrow> sly_value \<Rightarrow> sly_value \<Rightarrow> 8 word list \<Rightarrow>
    (8 word list \<times> 8 word list) sly" where
  "emit_constant n g_text constants key idx name =
     ifM (string_p key)
       (bnd (as_bytes key) (\<lambda>bs.
        ret (static_head ''String'' name @ len_line (length bs) @ static_bytes (map sint bs) @ nl, const_entry idx ''tt_string'' name)))
     (ifM (symbol_p key)
       (bnd (symbol_to_cstr key) (\<lambda>bs0. bnd (symbol_hash key) (\<lambda>h. let bs = until_zero bs0 in
        ret (static_head ''Symbol'' name @ tab @ cstr ''.hash='' @ digits_from 10 (unat h) @ cstr ''LU,'' @ nl @
          len_line (length bs) @ static_bytes (map sint bs) @ nl, const_entry idx ''tt_symbol'' name))))
     (ifM (vector_p key)
       (bnd (as_vector key) (\<lambda>(len, es). bnd (emit_vector_elems (emit_const_element n g_text constants) (take len es)) (\<lambda>x.
        ret (static_head ''Vector'' name @ len_line len @ tab @ cstr ''.elems={'' @ nl @ x @ tab @ cstr ''}'' @ nl @
          cstr ''};'' @ nl @ nl, const_entry idx ''tt_vector'' name))))
     (ifM (byte_vector_p key)
       (bnd (as_bytes key) (\<lambda>bs.
        ret (static_head ''Bytevector'' name @ len_line (length bs) @ static_bytes (map sint bs) @ nl,
          const_entry idx ''tt_bytevector'' name)))
     (ifM (pair_p key)
       (bnd (emit_list_elems n (emit_const_element n g_text constants) key 0) (\<lambda>(x, len).
        ret (static_head ''List'' name @ tab @ cstr ''.elems={'' @ nl @ x @ tab @ cstr ''},'' @ nl @ tab @ cstr ''.len='' @
          digits_from 10 len @ nl @ cstr ''};'' @ nl @ nl, const_entry idx ''tt_pair'' name)))
       (fail (Assert ''unimplemented''))))))"

fun emit_constants :: "nat \<Rightarrow> (64 word \<Rightarrow> 8 word list) \<Rightarrow> sly_value \<Rightarrow> sly_value list \<Rightarrow> (8 word list \<times> 8 word list) sly" where
  "emit_constants n g_text constants [] = ret ([], [])"
| "emit_constants n g_text constants (e # es) =
     ifM (slot_is_free e) (emit_constants n g_text constants es)
       (bnd (sly_car e) (\<lambda>key. bnd (sly_cdr e) (\<lambda>idx. bnd cps_gensym_temporary_name (\<lambda>var. bnd (symbol_to_cid var) (\<lambda>name.
        bnd (emit_constant n g_text constants key idx name) (\<lambda>(x, c).
        bnd (emit_constants n g_text constants es) (\<lambda>(y, d). ret (x @ y, c @ d))))))))"

section \<open>The program\<close>

fun emit_slots :: "(sly_value \<Rightarrow> emitter) \<Rightarrow> sly_value list \<Rightarrow> emitter" where
  "emit_slots f [] = ret []"
| "emit_slots f (e # es) = emit2 (ifM (slot_is_free e) (ret []) (bnd (sly_car e) f)) (emit_slots f es)"

text \<open>Only a continuation that is not the end has a function.\<close>

definition unless_ktail :: "nat \<Rightarrow> sly_value \<Rightarrow> sly_value \<Rightarrow> emitter \<Rightarrow> emitter" where
  "unless_ktail n graph k m =
     bnd (cps_graph_ref n graph k) (\<lambda>kont. bnd (as_kont kont) (\<lambda>(_, u). if u = KTail then ret [] else m))"

definition emit_prototype :: "sly_value \<Rightarrow> emitter" where
  "emit_prototype k = bnd (symbol_to_cid k) (\<lambda>c. ret (cstr ''scm_value '' @ c @ cstr ''(scm_value self);'' @ nl))"

definition fn_end :: "8 word list" where "fn_end = cstr ''}'' @ nl @ nl"

fun emit_imports :: "nat \<Rightarrow> sly_value \<Rightarrow> emitter" where
  "emit_imports 0 vars = fail NoFuel"
| "emit_imports (Suc n) vars =
     (if null_p vars then ret []
      else bnd (sly_car vars) (\<lambda>v. bnd (symbol_to_cid v) (\<lambda>c. bnd (symbol_to_cstr v) (\<lambda>name.
        emit2 (ret (stmt [cstr ''scm_value '', c, cstr '' = scm_module_lookup('', [34], until_zero name, [34], cstr '', imports);'']))
          (bnd (sly_cdr vars) (emit_imports n))))))"

definition emit_entry :: "nat \<Rightarrow> sly_value \<Rightarrow> sly_value \<Rightarrow> emitter" where
  "emit_entry n free_vars start =
     emits [
       bnd (symbol_to_cid start) (\<lambda>c. ret (closure_head c (cstr ''entry''))),
       ret (stmt [cstr ''scm_chk_heap(&self);''] @ chk_args_stmt 2 False @
         stmt [cstr ''scm_value k = pop_arg();''] @ stmt [cstr ''scm_value imports = pop_arg();'']),
       bnd (dictionary_ref n free_vars start SLY_NULL) (\<lambda>vars. bnd (list_len n vars) (\<lambda>len.
         if len > 0 then emit_imports n vars else ret []))]"

definition load_dynamic_text :: "8 word list \<Rightarrow> 8 word list" where
  "load_dynamic_text name =
     cstr ''scm_value load_dynamic(void)'' @ nl @ cstr ''{'' @ nl @
     stmt [cstr ''interned = scm_intern_constants(constants, ARR_LEN(constants));''] @
     stmt [cstr ''push_arg((scm_value)'', name, cstr '');''] @ stmt [cstr ''return make_closure();''] @ cstr ''}'' @ nl"

definition main_text :: "8 word list" where
  "main_text =
     cstr ''int main(void)'' @ nl @ cstr ''{'' @ nl @ stmt [cstr ''scm_heap_init();''] @
     stmt [cstr ''trampoline(load_dynamic());''] @ stmt [cstr ''return 0;''] @ cstr ''}'' @ nl"

definition include_text :: "string \<Rightarrow> 8 word list" where
  "include_text header = cstr ''#include '' @ [34] @ cstr header @ [34] @ nl"

definition cps_emit_c :: "nat \<Rightarrow> (64 word \<Rightarrow> 8 word list) \<Rightarrow> sly_value \<Rightarrow> sly_value \<Rightarrow> sly_value \<Rightarrow> bool \<Rightarrow> emitter" where
  "cps_emit_c n g_text graph start free_vars lib =
     bnd (as_dict free_vars) (\<lambda>(_, slots).
     bnd (emit_slots (\<lambda>k. unless_ktail n graph k (emit_prototype k)) slots) (\<lambda>protos.
     bnd (emit_entry n free_vars start) (\<lambda>entry.
     bnd make_dictionary (\<lambda>constants.
     bnd (emit_c_from n graph free_vars constants start) (\<lambda>first.
     bnd (emit_slots (\<lambda>k. ifM (sly_equal n k start) (ret [])
         (unless_ktail n graph k (emit2 (emit_c_from n graph free_vars constants k) (ret fn_end)))) slots) (\<lambda>fns.
     bnd (symbol_to_cid start) (\<lambda>c.
     bnd (as_dict constants) (\<lambda>(_, cslots).
     bnd (emit_constants n g_text constants cslots) (\<lambda>(statics, entries).
     ret (include_text ''scheme/scm_types.h'' @ include_text ''scheme/scm_runtime.h'' @ nl @
       cstr ''static scm_value *interned;'' @ nl @ nl @ statics @
       cstr ''static struct constant constants[] = {'' @ nl @ entries @ cstr ''};'' @ nl @ nl @
       protos @ nl @ entry @ first @ fn_end @ fns @ load_dynamic_text c @ (if lib then [] else main_text)))))))))))"

section \<open>Compiling and running a program\<close>

text \<open>
  The shell is an argument that gives the result of a command, and the loader one that gives the run of the shared
  object, \<open>scm_heap_init(); trampoline(load_dynamic())\<close>, or nothing when the object cannot be opened.
\<close>

type_synonym shell = "8 word list \<Rightarrow> int sly"
type_synonym loader = "8 word list \<Rightarrow> unit sly option sly"

definition run_command :: "shell \<Rightarrow> string \<Rightarrow> unit sly" where
  "run_command shell c = bnd (shell (cstr c)) (\<lambda>r. check (r = 0) ''compile error'')"

text \<open>The program in the intermediate language, after the optimisations, and the variables its continuations use.\<close>

definition cps_program :: "nat \<Rightarrow> (64 word \<Rightarrow> 8 word list) \<Rightarrow> sly_value \<Rightarrow> (sly_value \<times> sly_value \<times> sly_value) sly" where
  "cps_program n g_text ast =
     bnd make_dictionary (\<lambda>graph0. bnd (make_symbol n (cstr ''$tkexit'')) (\<lambda>name.
     bnd (cps_make_ktail False) (\<lambda>kont. bnd (sly_obj_set kont (SKont name KTail)) (\<lambda>_.
     bnd (cps_graph_set n graph0 name kont) (\<lambda>_.
     bnd (bnd (strip_syntax n ast) (sly_displayln n g_text)) (\<lambda>_.
     bnd (cps_init_primops n) (\<lambda>_.
     bnd (cps_translate n name graph0 ast) (\<lambda>entry.
     bnd (cps_display n g_text graph0 entry) (\<lambda>_.
     bnd (put (replicate 56 61 @ nl)) (\<lambda>_.
     bnd (cps_opt_contraction_phase n g_text 1 True graph0 entry) (\<lambda>graph.
     bnd (cps_display n g_text graph entry) (\<lambda>_.
     bnd (put nl) (\<lambda>_.
     bnd (collect_info n graph entry) (\<lambda>(_, vi).
     bnd (cps_collect_free_variables n graph vi entry) (\<lambda>fv. ret (graph, entry, fv))))))))))))))))"

definition compile_form :: "nat \<Rightarrow> (64 word \<Rightarrow> 8 word list) \<Rightarrow> shell \<Rightarrow> loader \<Rightarrow> sly_value \<Rightarrow> int sly" where
  "compile_form n g_text shell loader ast =
     bnd (cps_program n g_text ast) (\<lambda>(graph, entry, fv).
     bnd (cps_emit_c n g_text graph entry fv True) (\<lambda>txt.
     bnd (modify (\<lambda>s. s\<lparr>disk := (disk s)(cstr ''test.sly.c'' \<mapsto> txt)\<rparr>)) (\<lambda>_.
     bnd (run_command shell ''./scheme/build_runtime.sh -s'') (\<lambda>_.
     bnd (run_command shell ''gcc -fPIC -shared -ggdb -o test.so test.sly.c scheme/scm_runtime.o'') (\<lambda>_.
     bnd (loader (cstr ''./test.so'')) (\<lambda>obj. case obj of
       None \<Rightarrow> fail (Assert ''handle != NULL'')
     | Some run \<Rightarrow> bnd (put (cstr ''BEGIN-FILE:'' @ nl)) (\<lambda>_. bnd run (\<lambda>_. ret 0))))))))"

text \<open>
  The driver (src/main.c): the first argument is the name of the program, and a file is compiled and run.  With no
  argument at all the count goes below zero and the loop reads past the arguments.
\<close>

definition sly_main :: "nat \<Rightarrow> builtin_env \<Rightarrow> shell \<Rightarrow> loader \<Rightarrow> 8 word list list \<Rightarrow> int sly" where
  "sly_main n env shell loader argv =
     (case argv of
        [] \<Rightarrow> fail (UB ''argument past the end'')
      | [_] \<Rightarrow> bnd (put (cstr ''No source file provided.'' @ nl @ cstr ''Exiting ...'' @ nl)) (\<lambda>_. ret 0)
      | _ # path # _ \<Rightarrow> bnd (sly_expand_only n env path) (compile_form n (b_g_text env) shell loader))"

end
