(* ===== verification/Sly_Cnames.thy ===== *)
theory Sly_Cnames
  imports Sly_Cbackend
begin







end
