(* ===== verification/Sly_Emit.thy ===== *)
theory Sly_Emit
  imports Sly_Cnames Sly_Compile_State Scm_Arith
begin

text \<open>
  The C that the back end emits for a call of a primitive (src/cbackend.c), and what it does in the compiled
  program (scheme/scm_runtime.c).
\<close>

section \<open>The C of a primitive call\<close>













end
