(* ===== verification/Spec2Isabelle.thy ===== *)
theory Spec2Isabelle
  imports Scm_Constants Scm_IO Scm_GC_Program Scm_Text Scm_Program Scm_Print Sly_Exact Sly_DictProps Sly_Calls Sly_Patterns Scm_Types Sly_Correct Sly_Scopes Sly_Constants Sly_Arithmetic Sly_Reads Sly_Emit
begin

text \<open>
  Sly: a Scheme compiler and interpreter (src/src) and the runtime of the programs it compiles to C
  (src/scheme).

  The program has two halves. The first reads a source file (lexer.c, parser.c), expands its macros with
  sets of scopes (syntax_expander.c), compiles it to byte code (sly_compile.c) and runs that on a register
  machine (sly_vm.c, opcodes.h, eval.c) over tagged values (sly_types.c) with a library of builtins
  (builtins.h, sly_ports.c). The second takes the expanded program to an intermediate language of
  continuations (cps.c), optimises it there, writes C (cbackend.c) and links it with the runtime
  (scm_runtime.c, scm_types.h): NaN-boxed values, a copying collector, an argument stack and a trampoline.
  The macro expander runs the machine, so the first half is part of the second.
\<close>

section \<open>The theories and the code\<close>

text \<open>
  \<^item> \<open>Prelude\<close>: programs that change a state and may stop, their combinators, loops, lemmas on lists and words.
    \<open>Floats\<close>: the doubles and floats of C as bit patterns, with exact operations that are rounded once.
  \<^item> \<open>Scm_Values\<close> (scm_types.h): boxed values, type tags, predicates. \<open>Scm_Heap\<close>, \<open>Scm_Stack\<close>: the state of the
    runtime \<open>rt_state\<close>, the heap as a map from offsets to objects, the allocator, the argument stack, boxes, closures.
    \<open>Scm_Arith\<close>, \<open>Scm_Pairs\<close>, \<open>Scm_Vectors\<close>, \<open>Scm_Strings\<close>: the primitives of scm_runtime.c by their names there;
    \<open>Scm_Constants\<close>: \<open>init_constant\<close> and the table of constants; \<open>Scm_GC\<close>: \<open>scm_gc\<close>; \<open>Scm_Control\<close>: continuations,
    several values, \<open>apply\<close>, the table of primitives, the trampoline; \<open>Scm_Print\<close>, \<open>Scm_IO\<close>: output and files.
    Their properties: \<open>Scm_Types\<close>, \<open>Scm_Lists\<close>, \<open>Scm_Text\<close>, \<open>Scm_GC_Correct\<close>, \<open>Scm_GC_Program\<close>, \<open>Scm_Program\<close>.
  \<^item> \<open>Sly_Values\<close>, \<open>Sly_Numbers\<close>, \<open>Sly_Lists\<close>, \<open>Sly_Equal\<close>, \<open>Sly_Dict\<close>, \<open>Sly_Data\<close>, \<open>Sly_Patterns\<close>, \<open>Sly_Display\<close>
    (sly_types.c): the state \<open>sly_state\<close>, objects, numbers, lists and vectors, hashes and equality, dictionaries,
    strings, symbols and syntax objects, the patterns of syntax rules, and the printer. Properties: \<open>Sly_Exact\<close>,
    \<open>Sly_DictMap\<close> (the proof about probing), \<open>Sly_DictProps\<close>.
  \<^item> \<open>Sly_Opcodes\<close>, \<open>Sly_Closures\<close>, \<open>Sly_VM\<close>, \<open>Sly_Disasm\<close> (opcodes.h, opcodes.c, eval.c, sly_vm.c): instructions,
    prototypes, frames and upvalues, the machine and the disassembler. Properties: \<open>Sly_Upvalues\<close>, \<open>Sly_Machine\<close>
    (a machine of one frame without a heap, which the interpreter's loop refines), \<open>Sly_Calls\<close>.
  \<^item> \<open>Sly_Regex\<close>, \<open>Sly_Lexer\<close>, \<open>Sly_Parser\<close> (lexer.c, parser.c): POSIX longest matches of the token expression, the
    tokens, the reader. \<open>Sly_Reads\<close>: what the printer writes is read back.
  \<^item> \<open>Sly_Compile\<close> (sly_compile.c): the compiler to byte code. \<open>Sly_Compile_State\<close>, \<open>Sly_Compile_Run\<close>, \<open>Sly_Correct\<close>:
    what it compiles computes the value of the expression on the virtual machine. \<open>Sly_Constants\<close>: its constants.
  \<^item> \<open>Sly_Ports\<close>, \<open>Sly_Builtins\<close> (sly_ports.c, builtins.h, the end of sly_compile.c); \<open>Sly_Arithmetic\<close>: their
    arithmetic. \<open>Sly_Expander\<close> (syntax_expander.c); \<open>Sly_Scopes\<close>: how an identifier is resolved.
  \<^item> \<open>Sly_CPS\<close>, \<open>Sly_CPS_Info\<close>, \<open>Sly_CPS_Fold\<close>, \<open>Sly_CPS_Inline\<close>, \<open>Sly_CPS_Display\<close> (cps.c, cps.h): translation, facts
    about variables, constant folding, inlining and aliases, printing. \<open>Sly_Cbackend\<close> (cbackend.c, main.c): the text of
    the C program and the driver. \<open>Sly_Folding\<close>, \<open>Sly_Cnames\<close>, \<open>Sly_Emit\<close>: folding against the runtime, the names in the
    C program, and what the C of a primitive call does there.

  A definition has the name of the C function it translates, with \<open>scm_\<close>, \<open>sly_\<close> or \<open>cps_\<close> before it where two parts
  of the program use one name. A long \<open>switch\<close> is split into a definition for each case, a loop is a function of its own.
\<close>

section \<open>Conventions\<close>

text \<open>
  \<^item> A function of C that reads or writes the state is a function from a state to a fault or a result and a state. A failed
    assertion is \<open>Assert\<close>, an access that C leaves undefined is \<open>UB\<close>, and a jump to a handler is \<open>Raised\<close>.
    A failed assertion of the runtime calls a handler, and the only one it sets up leaves the process.
  \<^item> Words have their width. Where the source checks for overflow, so does the model; where it does not, the word wraps.
  \<^item> Data on the heap may be circular and the search of a dictionary or of the open upvalues is a loop, so many functions take
    fuel. \<open>NoFuel\<close> is no behaviour of the program, and each property says how much fuel is enough: more than the length
    of a list, than the number of objects for the collector, than the capacity for a dictionary, than the steps for
    the machine.
  \<^item> Arguments of C calls are evaluated from left to right, which the language leaves open.
  \<^item> The streams of the C library are bytes with a position, writes are not delayed, and the standard streams are pipes. What
    is printed just before the process stops is left out.
  \<^item> \<open>gc_threashold\<close> is assigned at the end of \<open>scm_gc\<close> after characters that do not parse; they are ignored.
\<close>

section \<open>What the properties show\<close>

text \<open>
  \<^item> Across components: compiled conditionals over fixnums, truth values and local variables compute their value on the
    virtual machine; folding agrees with the runtime except where a sum leaves 32 bits; the C of a primitive call pushes the
    operands in the order the primitive reads them; printed literals are read back.
  \<^item> The collector leaves a heap isomorphic to what the roots reached, and keeps it well formed; the handler
    is no root. Allocations are apart, as long as one doubling is enough.
  \<^item> Calls, tail calls, returns and call/cc lay out frames and continuations as meant, captures share upvalues, and closing
    them may lose those of another frame.
  \<^item> Integers are exact or stop with an overflow, in 64 bits in the interpreter and in 32 in the runtime; a result has the
    type of a number or is an infinity or NaN. Comparisons of strings are lexical.
  \<^item> A dictionary is a map under insertion and the removal of a key, until removals have used up its free slots. Identifiers
    resolve to the binding with the largest subset of their scopes.
  \<^item> Lexing ends and the tokens cover the text; reading a value takes a token. Instructions are packed without loss.

  Interfaces are locales: a bounded stack, an allocator, the operations and orders on fixnums, the integers of the
  interpreter, and the keys of a dictionary. Each is interpreted on the definitions of the code. Several properties state what the
  code does where it is plainly not what is meant; they say so.
\<close>

section \<open>Not modelled\<close>

text \<open>
  \<^item> The collector of the interpreter is a library; objects are never freed, and addresses only grow.
  \<^item> The C compiler, the dynamic loader, the operating system, the text that \<open>printf\<close> gives a double, the value of a text as a
    double, and memory that was not initialised are arguments of the definitions that use them.
  \<^item> The failed assertion's report with its backtrace, the dump of the argument stack and the code that the preprocessor removes
    do nothing that a program sees.
  \<^item> The constant folding of \<open>values\<close> has two cases behind one that has already taken every expression without side effects, so they
    are not reached.
  \<^item> The libraries written in Scheme are data of the program, not part of it.
\<close>

end
